(* ===== verification/Prelude.thy ===== *)
theory Prelude
  imports Complex_Main "HOL-Library.Multiset"
begin

text \<open>
  The generic layer of the development: Python exceptions as the left summand of a sum,
  sequencing of fallible steps, traversal of a list by a fallible step, Python's stable
  descending sort, f-strings as the list of their pieces, and the collections that carry the
  automation (\<open>result_simps\<close> for the exception monad, \<open>numeric_simps\<close> for the rounded
  arithmetic).
\<close>

named_theorems result_simps
named_theorems numeric_simps

section \<open>Exceptions\<close>

text \<open>
  The exceptions the modelled code raises itself or provokes in the language and its standard
  library. Components with exception classes of their own declare a datatype of their own.
\<close>

datatype py_error =
    InvalidOperation
  | DivisionByZero
  | ValidationError
  | TypeError
  | ValueError
  | IndexError
  | OverflowError

type_synonym 'a py = "py_error + 'a"

fun bindR :: "'e + 'a \<Rightarrow> ('a \<Rightarrow> 'e + 'b) \<Rightarrow> 'e + 'b" where
  "bindR (Inl e) f = Inl e"
| "bindR (Inr x) f = f x"

lemma bindR_eq_Inr [result_simps]: "bindR m f = Inr y \<longleftrightarrow> (\<exists>x. m = Inr x \<and> f x = Inr y)"
  by (cases m) auto

lemma bindR_eq_Inl [result_simps]:
  "bindR m f = Inl e \<longleftrightarrow> m = Inl e \<or> (\<exists>x. m = Inr x \<and> f x = Inl e)"
  by (cases m) auto

lemma bindR_assoc: "bindR (bindR m f) g = bindR m (\<lambda>x. bindR (f x) g)"
  by (cases m) auto

lemma bindR_Inr_right [simp]: "bindR m Inr = m"
  by (cases m) auto

fun mapR :: "('a \<Rightarrow> 'e + 'b) \<Rightarrow> 'a list \<Rightarrow> 'e + 'b list" where
  "mapR f [] = Inr []"
| "mapR f (x # xs) = bindR (f x) (\<lambda>y. bindR (mapR f xs) (\<lambda>ys. Inr (y # ys)))"

lemma mapR_Inr_list_all2:
  "mapR f xs = Inr ys \<longleftrightarrow> list_all2 (\<lambda>x y. f x = Inr y) xs ys"
  by (induction xs arbitrary: ys) (auto simp: result_simps list_all2_Cons1)

lemma mapR_length: "mapR f xs = Inr ys \<Longrightarrow> length ys = length xs"
  by (auto simp: mapR_Inr_list_all2 dest: list_all2_lengthD)

lemma mapR_total: "\<forall>x \<in> set xs. \<exists>y. f x = Inr y \<Longrightarrow> \<exists>ys. mapR f xs = Inr ys"
  by (induction xs) (auto simp: result_simps)

lemma mapR_map: "\<forall>x \<in> set xs. f x = Inr (h x) \<Longrightarrow> mapR f xs = Inr (map h xs)"
  by (induction xs) (auto simp: result_simps)

lemma mapR_set:
  assumes "mapR f xs = Inr ys" and "y \<in> set ys"
  shows "\<exists>x \<in> set xs. f x = Inr y"
  using assms unfolding mapR_Inr_list_all2 list_all2_conv_all_nth in_set_conv_nth
  by (metis nth_mem)

lemma mapR_member: "mapR f xs = Inr ys \<Longrightarrow> x \<in> set xs \<Longrightarrow> f x = Inr y \<Longrightarrow> y \<in> set ys"
  by (induction xs arbitrary: ys) (auto simp: result_simps)

text \<open>A loop that catches every exception of its body and goes on: what it collects.\<close>

fun collectR :: "('a \<Rightarrow> 'e + 'b) \<Rightarrow> 'a list \<Rightarrow> 'b list" where
  "collectR f [] = []"
| "collectR f (x # xs) = (case f x of Inl e \<Rightarrow> collectR f xs | Inr y \<Rightarrow> y # collectR f xs)"

lemma collectR_set: "set (collectR f xs) = {y. \<exists>x \<in> set xs. f x = Inr y}"
  by (induction xs) (auto split: sum.splits)

lemma collectR_length: "length (collectR f xs) \<le> length xs"
  by (induction xs) (auto split: sum.splits)

lemma collectR_append: "collectR f (xs @ ys) = collectR f xs @ collectR f ys"
  by (induction xs) (auto split: sum.splits)

section \<open>Python's \<open>or\<close>\<close>

text \<open>\<open>a or b\<close> for an optional number: both \<open>None\<close> and zero are falsy.\<close>

definition or_num :: "'a::zero option \<Rightarrow> 'a \<Rightarrow> 'a" where
  "or_num x d = (case x of None \<Rightarrow> d | Some v \<Rightarrow> if v = 0 then d else v)"

lemma or_num_simps [simp]:
  "or_num None d = d" "or_num (Some v) d = (if v = 0 then d else v)"
  by (simp_all add: or_num_def)

section \<open>Stable descending sort\<close>

text \<open>
  \<open>sorted(xs, key=k, reverse=True)\<close> keeps the original order of elements with equal keys, as
  an ascending stable sort on the negated key does.
\<close>

definition sort_desc :: "('a \<Rightarrow> 'k::linordered_idom) \<Rightarrow> 'a list \<Rightarrow> 'a list" where
  "sort_desc k xs = sort_key (\<lambda>x. - k x) xs"

lemma mset_sort_desc [simp]: "mset (sort_desc k xs) = mset xs"
  by (simp add: sort_desc_def)

lemma set_sort_desc [simp]: "set (sort_desc k xs) = set xs"
  by (simp add: sort_desc_def)

lemma length_sort_desc [simp]: "length (sort_desc k xs) = length xs"
  by (simp add: sort_desc_def)

lemma sort_desc_sorted: "sorted_wrt (\<lambda>x y. k y \<le> k x) (sort_desc k xs)"
proof -
  have "sorted (map (\<lambda>x. - k x) (sort_desc k xs))"
    by (simp add: sort_desc_def)
  then show ?thesis by (simp add: sorted_map)
qed

lemma sort_desc_stable: "filter (\<lambda>x. k x = v) (sort_desc k xs) = filter (\<lambda>x. k x = v) xs"
proof -
  have "filter (\<lambda>x. - k x = - v) (sort_desc k xs) = filter (\<lambda>x. - k x = - v) xs"
    unfolding sort_desc_def by (rule sort_key_stable)
  then show ?thesis by simp
qed

section \<open>Text\<close>

text \<open>\<open>str.lower\<close> on ASCII text.\<close>

definition lower_char :: "char \<Rightarrow> char" where
  "lower_char c = (let n = of_char c :: nat in if 65 \<le> n \<and> n \<le> 90 then char_of (n + 32) else c)"

definition lower :: "string \<Rightarrow> string" where
  "lower s = map lower_char s"

text \<open>\<open>str.strip\<close>: the whitespace characters of Latin-1.\<close>

definition is_space :: "char \<Rightarrow> bool" where
  "is_space c = (let n = of_char c :: nat in (9 \<le> n \<and> n \<le> 13) \<or> (28 \<le> n \<and> n \<le> 32) \<or> n = 133 \<or> n = 160)"

definition strip :: "string \<Rightarrow> string" where
  "strip s = rev (dropWhile is_space (rev (dropWhile is_space s)))"

section \<open>F-strings\<close>

text \<open>
  A message is kept as the list of the pieces of its f-string: literal text, a character
  outside ASCII by its code point, and each interpolated value with its format
  specification. Rendering the pieces to text is not modelled.
\<close>

datatype fpiece =
    Lit string
  | Uni nat
  | Fix nat rat
  | Grp rat
  | GrpFix nat rat
  | Num rat
  | Txt string
  | Pct nat rat
  | Sgn nat rat
  | SgnPct nat rat

type_synonym fstring = "fpiece list"

section \<open>JSON values\<close>

datatype json =
    JNull | JBool bool | JInt int | JFloat rat | JStr string
  | JList "json list" | JObj "(string \<times> json) list"

text \<open>Python's truth of a value.\<close>

fun truthy :: "json \<Rightarrow> bool" where
  "truthy JNull = False"
| "truthy (JBool b) = b"
| "truthy (JInt n) = (n \<noteq> 0)"
| "truthy (JFloat x) = (x \<noteq> 0)"
| "truthy (JStr s) = (s \<noteq> [])"
| "truthy (JList vs) = (vs \<noteq> [])"
| "truthy (JObj ps) = (ps \<noteq> [])"

section \<open>Rows in the order of a query\<close>

text \<open>\<open>ORDER BY\<close> a column: the rows sorted by it, equal ones in any order.\<close>

definition orders_by :: "('row \<Rightarrow> int) \<Rightarrow> ('row list \<Rightarrow> 'row list) \<Rightarrow> bool" where
  "orders_by k f \<longleftrightarrow> (\<forall>rows. mset (f rows) = mset rows \<and> sorted (map k (f rows)))"

lemma orders_by_set: "orders_by k f \<Longrightarrow> set (f rows) = set rows"
  unfolding orders_by_def by (metis mset_eq_setD)

lemma orders_by_length: "orders_by k f \<Longrightarrow> length (f rows) = length rows"
  unfolding orders_by_def by (metis mset_eq_length)

section \<open>The first greatest element\<close>

text \<open>\<open>max(xs, key=k)\<close> of a list that is not empty: the first element with the greatest key.\<close>

fun first_max_from :: "('a \<Rightarrow> 'k::linorder) \<Rightarrow> 'a \<Rightarrow> 'a list \<Rightarrow> 'a" where
  "first_max_from k b [] = b"
| "first_max_from k b (x # xs) = first_max_from k (if k b < k x then x else b) xs"

definition first_max :: "('a \<Rightarrow> 'k::linorder) \<Rightarrow> 'a list \<Rightarrow> 'a" where
  "first_max k xs = first_max_from k (hd xs) (tl xs)"

lemma first_max_from_mem: "first_max_from k b xs \<in> insert b (set xs)"
proof (induction xs arbitrary: b)
  case (Cons x xs)
  show ?case using Cons.IH [of "if k b < k x then x else b"] by (auto split: if_splits)
qed simp

lemma first_max_from_max: "x \<in> insert b (set xs) \<Longrightarrow> k x \<le> k (first_max_from k b xs)"
proof (induction xs arbitrary: b x)
  case (Cons y ys)
  show ?case
  proof (cases "x \<in> set ys")
    case True
    then show ?thesis using Cons.IH [of x "if k b < k y then y else b"] by simp
  next
    case False
    have "k x \<le> k (if k b < k y then y else b)" using False Cons.prems by auto
    also have "\<dots> \<le> k (first_max_from k (if k b < k y then y else b) ys)" by (rule Cons.IH) simp
    finally show ?thesis by simp
  qed
qed simp

lemma first_max_mem: "xs \<noteq> [] \<Longrightarrow> first_max k xs \<in> set xs"
  using first_max_from_mem [of k "hd xs" "tl xs"] by (cases xs) (auto simp: first_max_def)

lemma first_max_max: "x \<in> set xs \<Longrightarrow> k x \<le> k (first_max k xs)"
  using first_max_from_max [of x "hd xs" "tl xs" k] by (cases xs) (auto simp: first_max_def)

end
