(* ===== verification/Rounding.thy ===== *)
theory Rounding
  imports Prelude
begin

text \<open>
  Arithmetic of the language's inexact numbers. Python's \<open>Decimal\<close> (default context) computes
  the exact result and rounds it to 28 significant decimal digits, half to even; a \<open>float\<close>
  operation rounds the exact result to 53 significant binary digits, half to even. Both are
  \<open>rnd b p\<close> for a base \<open>b\<close> and a precision \<open>p\<close>. Numbers are the rationals they denote;
  exponent overflow and underflow, infinities, NaNs and the sign of zero are not modelled.
  The locale \<open>rounding\<close> holds what the clients need of such a rounding; it is
  interpreted on both.
\<close>

section \<open>Rounding to an integer\<close>

definition round_he :: "rat \<Rightarrow> int" where
  "round_he x = (let f = \<lfloor>x\<rfloor>; d = x - of_int f in
     if d < 1 / 2 then f else if 1 / 2 < d then f + 1 else if even f then f else f + 1)"

definition round_hu :: "rat \<Rightarrow> int" where
  "round_hu x = (if x < 0 then - \<lfloor>- x + 1 / 2\<rfloor> else \<lfloor>x + 1 / 2\<rfloor>)"

lemma round_he_of_int [simp]: "round_he (of_int n) = n"
  by (simp add: round_he_def)

lemma round_he_cases: "round_he x = \<lfloor>x\<rfloor> \<or> round_he x = \<lfloor>x\<rfloor> + 1"
  by (auto simp: round_he_def Let_def)

lemma round_he_error: "\<bar>of_int (round_he x) - x\<bar> \<le> 1 / 2"
proof -
  have "of_int \<lfloor>x\<rfloor> \<le> x" "x < of_int \<lfloor>x\<rfloor> + 1"
    by linarith+
  then show ?thesis
    by (auto simp: round_he_def Let_def abs_le_iff)
qed

lemma round_he_mono: "x \<le> y \<Longrightarrow> round_he x \<le> round_he y"
proof (cases "\<lfloor>x\<rfloor> = \<lfloor>y\<rfloor>")
  case True
  assume "x \<le> y"
  with True show ?thesis by (auto simp: round_he_def Let_def)
next
  case False
  assume "x \<le> y"
  with False have "\<lfloor>x\<rfloor> + 1 \<le> \<lfloor>y\<rfloor>"
    using floor_mono [of x y] by linarith
  with round_he_cases [of x] round_he_cases [of y] show ?thesis by linarith
qed

lemma round_he_ge_int: "of_int n \<le> x \<Longrightarrow> n \<le> round_he x"
  using round_he_mono [of "of_int n" x] by simp

lemma round_he_le_int: "x \<le> of_int n \<Longrightarrow> round_he x \<le> n"
  using round_he_mono [of x "of_int n"] by simp

lemma round_he_minus: "round_he (- x) = - round_he x"
proof (cases "x = of_int \<lfloor>x\<rfloor>")
  case True
  then have "round_he (- x) = round_he (of_int (- \<lfloor>x\<rfloor>))" by simp
  also have "\<dots> = - round_he (of_int \<lfloor>x\<rfloor>)" by (simp only: round_he_of_int)
  finally show ?thesis using True by simp
next
  case False
  then have lt: "of_int \<lfloor>x\<rfloor> < x"
    using of_int_floor_le [of x] by (metis less_le)
  have fl: "\<lfloor>- x\<rfloor> = - \<lfloor>x\<rfloor> - 1"
    by (rule floor_unique) (use lt in \<open>simp_all, linarith\<close>)
  define d where "d = x - of_int \<lfloor>x\<rfloor>"
  have d: "- x - of_int \<lfloor>- x\<rfloor> = 1 - d" by (simp add: fl d_def)
  have x: "x - of_int \<lfloor>x\<rfloor> = d" by (simp add: d_def)
  consider "d < 1/2" | "d > 1/2" | "d = 1/2" by linarith
  then show ?thesis
  proof cases
    case 1
    then show ?thesis unfolding round_he_def Let_def d x by (simp add: fl)
  next
    case 2
    then show ?thesis unfolding round_he_def Let_def d x by (simp add: fl)
  next
    case 3
    then show ?thesis unfolding round_he_def Let_def d x by (simp add: fl)
  qed
qed

lemma round_he_eq: "\<bar>x - of_int n\<bar> < 1 / 2 \<Longrightarrow> round_he x = n"
proof -
  assume "\<bar>x - of_int n\<bar> < 1 / 2"
  with round_he_error [of x] have "\<bar>of_int (round_he x) - of_int n\<bar> < (1 :: rat)" by linarith
  then have "of_int \<bar>round_he x - n\<bar> < (of_int 1 :: rat)" by simp
  then show ?thesis unfolding of_int_less_iff by simp
qed

lemma round_hu_of_int [simp]: "round_hu (of_int n) = n"
proof -
  have "\<lfloor>of_int m + 1 / 2 :: rat\<rfloor> = m" for m
    by (rule floor_unique) simp_all
  from this [of n] this [of "- n"] show ?thesis by (simp add: round_hu_def)
qed

lemma floor_half [simp]: "\<lfloor>1 / 2 :: rat\<rfloor> = 0"
  by (rule floor_unique) simp_all

lemma round_hu_minus: "round_hu (- x) = - round_hu x"
  by (cases "x = 0") (simp_all add: round_hu_def)

lemma round_hu_mono: "x \<le> y \<Longrightarrow> round_hu x \<le> round_hu y"
proof -
  assume xy: "x \<le> y"
  consider "0 \<le> x" | "x < 0" "0 \<le> y" | "y < 0" using xy by linarith
  then show ?thesis
  proof cases
    case 1
    then show ?thesis using xy floor_mono [of "x + 1/2" "y + 1/2"] by (simp add: round_hu_def)
  next
    case 2
    have "0 \<le> \<lfloor>- x + 1/2\<rfloor>" "0 \<le> \<lfloor>y + 1/2\<rfloor>" using 2 by simp_all
    then have "- \<lfloor>- x + 1/2\<rfloor> \<le> \<lfloor>y + 1/2\<rfloor>" by (metis neg_le_0_iff_le order_trans)
    with 2 show ?thesis by (simp add: round_hu_def)
  next
    case 3
    then show ?thesis using xy floor_mono [of "- y + 1/2" "- x + 1/2"] by (simp add: round_hu_def)
  qed
qed

lemma round_hu_error: "\<bar>of_int (round_hu x) - x\<bar> \<le> 1 / 2"
proof -
  note a = floor_correct [of "- x + 1/2"] and b = floor_correct [of "x + 1/2"]
  show ?thesis
  proof (cases "x < 0")
    case True
    with a show ?thesis unfolding round_hu_def abs_le_iff by (simp only: if_True of_int_minus) linarith
  next
    case False
    with b show ?thesis unfolding round_hu_def abs_le_iff by (simp only: if_False) linarith
  qed
qed

lemma round_hu_eq: "\<bar>x - of_int n\<bar> < 1 / 2 \<Longrightarrow> round_hu x = n"
proof -
  assume "\<bar>x - of_int n\<bar> < 1 / 2"
  with round_hu_error [of x] have "\<bar>of_int (round_hu x) - of_int n\<bar> < (1 :: rat)" by linarith
  then have "of_int \<bar>round_hu x - n\<bar> < (of_int 1 :: rat)" by simp
  then show ?thesis unfolding of_int_less_iff by simp
qed

lemma round_numeral [simp]:
  "round_he (numeral w) = numeral w" "round_hu (numeral w) = numeral w" "round_he 1 = 1"
  "round_hu 1 = 1" "round_he 0 = 0" "round_hu 0 = 0"
  using round_he_of_int [of "numeral w"] round_hu_of_int [of "numeral w"] round_he_of_int [of 1]
    round_hu_of_int [of 1] round_he_of_int [of 0] round_hu_of_int [of 0]
  by simp_all

section \<open>The exponent of a number\<close>

fun ilog :: "nat \<Rightarrow> nat \<Rightarrow> nat" where
  "ilog b n = (if b < 2 \<or> n < b then 0 else Suc (ilog b (n div b)))"

declare ilog.simps [simp del]

lemma ilog_bounds: "2 \<le> b \<Longrightarrow> 1 \<le> n \<Longrightarrow> b ^ ilog b n \<le> n \<and> n < b ^ Suc (ilog b n)"
proof (induction b n rule: ilog.induct)
  case (1 b n)
  show ?case
  proof (cases "n < b")
    case True
    with "1.prems" show ?thesis by (subst (1 2) ilog.simps) simp
  next
    case False
    define q where "q = n div b"
    have q: "1 \<le> q" using False "1.prems" by (simp add: q_def Suc_leI div_greater_zero_iff)
    have IH: "b ^ ilog b q \<le> q" "q < b ^ Suc (ilog b q)"
      using "1.IH" False "1.prems" q unfolding q_def by auto
    have e: "ilog b n = Suc (ilog b q)"
      using False "1.prems" unfolding q_def by (subst ilog.simps) auto
    have "b ^ Suc (ilog b q) \<le> q * b" using IH(1) by (simp add: mult.commute)
    also have "q * b \<le> n" by (simp add: q_def)
    finally have lo: "b ^ ilog b n \<le> n" by (simp add: e)
    have "n < (q + 1) * b"
      using "1.prems" dividend_less_div_times [of b n] unfolding q_def by simp
    also have "\<dots> \<le> b ^ Suc (ilog b q) * b" using IH(2) by (intro mult_right_mono) auto
    finally have "n < b ^ Suc (ilog b n)" by (simp add: e mult.commute)
    with lo show ?thesis by simp
  qed
qed

definition rexp :: "nat \<Rightarrow> rat \<Rightarrow> int" where
  "rexp b x =
     (if 1 \<le> x then int (ilog b (nat \<lfloor>x\<rfloor>))
      else - int (Suc (ilog b (nat (\<lceil>1 / x\<rceil> - 1)))))"

lemma rexp_bounds:
  assumes b: "2 \<le> b" and x: "0 < x"
  shows "of_nat b powi rexp b x \<le> x" and "x < of_nat b powi (rexp b x + 1)"
proof -
  have "of_nat b powi rexp b x \<le> x \<and> x < of_nat b powi (rexp b x + 1)"
  proof (cases "1 \<le> x")
    case True
    define n where "n = nat \<lfloor>x\<rfloor>"
    have n0: "of_nat n = (of_int \<lfloor>x\<rfloor> :: rat)"
      using True by (simp add: n_def)
    have n: "1 \<le> n" using True by (simp add: n_def le_nat_iff)
    have fl: "of_nat n \<le> x" "x < of_nat n + 1"
      using floor_correct [of x] by (simp_all add: n0)
    from ilog_bounds [OF b n] have "b ^ ilog b n \<le> n" "n + 1 \<le> b ^ Suc (ilog b n)" by auto
    then have "(of_nat (b ^ ilog b n) :: rat) \<le> of_nat n"
      "(of_nat (n + 1) :: rat) \<le> of_nat (b ^ Suc (ilog b n))"
      by (simp_all only: of_nat_le_iff)
    with fl have "of_nat b ^ ilog b n \<le> x" "x < of_nat b ^ Suc (ilog b n)"
      unfolding of_nat_power by (linarith, simp del: power_Suc)
    moreover have "rexp b x = int (ilog b n)" using True by (simp add: rexp_def n_def)
    moreover have "of_nat b powi (int (ilog b n) + 1) = (of_nat b ^ Suc (ilog b n) :: rat)"
      by (metis of_nat_Suc power_int_of_nat add.commute)
    ultimately show ?thesis by simp
  next
    case False
    define m where "m = nat (\<lceil>1 / x\<rceil> - 1)"
    have inv: "1 < 1 / x" using False x by simp
    then have c: "2 \<le> \<lceil>1 / x\<rceil>" by (simp add: le_ceiling_iff)
    then have "0 \<le> \<lceil>1 / x\<rceil> - 1" by linarith
    then have m0: "of_nat m = (of_int \<lceil>1 / x\<rceil> - 1 :: rat)"
      unfolding m_def by (simp only: of_nat_nat of_int_diff of_int_1)
    have m: "1 \<le> m" using c unfolding m_def by linarith
    have cl: "of_nat m < 1 / x" "1 / x \<le> of_nat m + 1"
      using ceiling_correct [of "1 / x"] by (simp_all add: m0)
    from ilog_bounds [OF b m] have "b ^ ilog b m \<le> m" "m + 1 \<le> b ^ Suc (ilog b m)" by auto
    then have "(of_nat (b ^ ilog b m) :: rat) \<le> of_nat m"
      "(of_nat (m + 1) :: rat) \<le> of_nat (b ^ Suc (ilog b m))"
      by (simp_all only: of_nat_le_iff)
    with cl have lo: "of_nat b ^ ilog b m < 1 / x" and hi: "1 / x \<le> of_nat b ^ Suc (ilog b m)"
      unfolding of_nat_power by (linarith, simp del: power_Suc)
    have e: "rexp b x = - int (Suc (ilog b m))" using False by (simp add: rexp_def m_def)
    have "of_nat b powi rexp b x = (1 / of_nat b ^ Suc (ilog b m) :: rat)"
      unfolding e by (simp add: power_int_minus divide_inverse del: power_Suc of_nat_Suc)
    moreover have "of_nat b powi (rexp b x + 1) = (1 / of_nat b ^ ilog b m :: rat)"
      unfolding e by (simp add: power_int_minus divide_inverse)
    moreover have "1 / of_nat b ^ Suc (ilog b m) \<le> x"
      using hi x b by (simp add: field_simps del: power_Suc)
    moreover have "x < 1 / of_nat b ^ ilog b m"
      using lo x b by (simp add: field_simps)
    ultimately show ?thesis by simp
  qed
  then show "of_nat b powi rexp b x \<le> x" and "x < of_nat b powi (rexp b x + 1)" by auto
qed

section \<open>Rounding to a number of significant digits\<close>

definition ulp :: "nat \<Rightarrow> nat \<Rightarrow> rat \<Rightarrow> rat" where
  "ulp b p x = of_nat b powi (rexp b \<bar>x\<bar> - int p + 1)"

definition rnd :: "nat \<Rightarrow> nat \<Rightarrow> rat \<Rightarrow> rat" where
  "rnd b p x = (if x = 0 then 0 else of_int (round_he (x / ulp b p x)) * ulp b p x)"

definition representable :: "nat \<Rightarrow> nat \<Rightarrow> rat \<Rightarrow> bool" where
  "representable b p x \<longleftrightarrow> (\<exists>m e. \<bar>m\<bar> \<le> int b ^ p \<and> x = of_int m * of_nat b powi e)"

lemma ulp_pos: "2 \<le> b \<Longrightarrow> 0 < ulp b p x"
  by (simp add: ulp_def)

lemma ulp_minus [simp]: "ulp b p (- x) = ulp b p x"
  by (simp add: ulp_def)

lemma rnd_0 [simp]: "rnd b p 0 = 0"
  by (simp add: rnd_def)

lemma rnd_minus: "rnd b p (- x) = - rnd b p x"
  by (simp add: rnd_def round_he_minus)

lemma powi_split: "2 \<le> b \<Longrightarrow> (of_nat b :: rat) powi (int k + i) = of_nat b ^ k * of_nat b powi i"
  by (subst power_int_add) auto

lemma ulp_scaled:
  assumes b: "2 \<le> b" and p: "1 \<le> p" and x: "0 < x"
  shows "of_nat b powi rexp b x = of_nat b ^ (p - 1) * ulp b p x"
    and "of_nat b powi (rexp b x + 1) = of_nat b ^ p * ulp b p x"
proof -
  have e: "rexp b x = int (p - 1) + (rexp b x - int p + 1)"
    "rexp b x + 1 = int p + (rexp b x - int p + 1)"
    using p by (simp_all add: of_nat_diff)
  show "of_nat b powi rexp b x = of_nat b ^ (p - 1) * ulp b p x"
    unfolding ulp_def abs_of_pos [OF x] by (subst e(1)) (rule powi_split [OF b])
  show "of_nat b powi (rexp b x + 1) = of_nat b ^ p * ulp b p x"
    unfolding ulp_def abs_of_pos [OF x] by (subst e(2)) (rule powi_split [OF b])
qed

text \<open>The scaled mantissa of a positive number lies between two powers of the base.\<close>

lemma scaled_bounds:
  assumes b: "2 \<le> b" and p: "1 \<le> p" and x: "0 < x"
  shows "of_int (int b ^ (p - 1)) \<le> x / ulp b p x" and "x / ulp b p x \<le> of_int (int b ^ p)"
proof -
  note pw = ulp_scaled [OF b p x]
  have u: "0 < ulp b p x" using b by (rule ulp_pos)
  from rexp_bounds [OF b x] show "of_int (int b ^ (p - 1)) \<le> x / ulp b p x"
    and "x / ulp b p x \<le> of_int (int b ^ p)"
    unfolding pw using u by (simp_all add: pos_le_divide_eq pos_divide_le_eq)
qed

lemma rnd_between:
  assumes b: "2 \<le> b" and p: "1 \<le> p" and x: "0 < x"
  shows "of_nat b powi rexp b x \<le> rnd b p x" and "rnd b p x \<le> of_nat b powi (rexp b x + 1)"
proof -
  note pw = ulp_scaled [OF b p x]
  have "int b ^ (p - 1) \<le> round_he (x / ulp b p x)" "round_he (x / ulp b p x) \<le> int b ^ p"
    using scaled_bounds [OF b p x] by (intro round_he_ge_int round_he_le_int; simp)+
  then have "of_int (int b ^ (p - 1)) \<le> (of_int (round_he (x / ulp b p x)) :: rat)"
    "(of_int (round_he (x / ulp b p x)) :: rat) \<le> of_int (int b ^ p)"
    by (simp_all only: of_int_le_iff)
  with x ulp_pos [OF b, of p x] show "of_nat b powi rexp b x \<le> rnd b p x"
    and "rnd b p x \<le> of_nat b powi (rexp b x + 1)"
    unfolding pw by (simp_all add: rnd_def)
qed

lemma rexp_mono:
  assumes b: "2 \<le> b" and x: "0 < x" and xy: "x \<le> y"
  shows "rexp b x \<le> rexp b y"
proof (rule ccontr)
  assume "\<not> rexp b x \<le> rexp b y"
  then have "rexp b y + 1 \<le> rexp b x" by simp
  then have "(of_nat b :: rat) powi (rexp b y + 1) \<le> of_nat b powi rexp b x"
    using b by (intro power_int_increasing) auto
  with rexp_bounds [OF b x] rexp_bounds [OF b, of y] x xy show False by linarith
qed

lemma rnd_mono_pos:
  assumes b: "2 \<le> b" and p: "1 \<le> p" and x: "0 < x" and xy: "x \<le> y"
  shows "rnd b p x \<le> rnd b p y"
proof (cases "rexp b x = rexp b y")
  case True
  with x xy have u: "ulp b p x = ulp b p y" by (simp add: ulp_def)
  have "x / ulp b p y \<le> y / ulp b p y"
    using xy ulp_pos [OF b, of p y] by (simp add: divide_right_mono)
  then have "round_he (x / ulp b p y) \<le> round_he (y / ulp b p y)" by (rule round_he_mono)
  with x xy ulp_pos [OF b, of p y] show ?thesis by (simp add: rnd_def u)
next
  case False
  with rexp_mono [OF b x xy] have "rexp b x + 1 \<le> rexp b y" by simp
  then have "(of_nat b :: rat) powi (rexp b x + 1) \<le> of_nat b powi rexp b y"
    using b by (intro power_int_increasing) auto
  with rnd_between [OF b p x] rnd_between [OF b p, of y] x xy show ?thesis by linarith
qed

lemma rnd_nonneg: "2 \<le> b \<Longrightarrow> 1 \<le> p \<Longrightarrow> 0 \<le> x \<Longrightarrow> 0 \<le> rnd b p x"
  using rnd_between(1) [of b p x] by (cases "x = 0") (auto intro: order_trans [rotated])

lemma rnd_pos: "2 \<le> b \<Longrightarrow> 1 \<le> p \<Longrightarrow> 0 < x \<Longrightarrow> 0 < rnd b p x"
  by (rule less_le_trans [OF _ rnd_between(1)]) auto

lemma rnd_mono:
  assumes b: "2 \<le> b" and p: "1 \<le> p" and xy: "x \<le> y"
  shows "rnd b p x \<le> rnd b p y"
proof -
  consider "0 < x" | "x \<le> 0" "0 \<le> y" | "y < 0" by linarith
  then show ?thesis
  proof cases
    case 1
    then show ?thesis using b p xy by (intro rnd_mono_pos)
  next
    case 2
    then have "0 \<le> rnd b p (- x)" "0 \<le> rnd b p y" using b p by (intro rnd_nonneg; simp)+
    then show ?thesis by (simp add: rnd_minus)
  next
    case 3
    then have "rnd b p (- y) \<le> rnd b p (- x)" using b p xy by (intro rnd_mono_pos) auto
    then show ?thesis by (simp add: rnd_minus)
  qed
qed

text \<open>A number that has a mantissa of at most \<open>p\<close> digits is not changed.\<close>

lemma rnd_exact_pos:
  assumes b: "2 \<le> b" and p: "1 \<le> p" and m: "0 < m" "m < int b ^ p"
    and x: "x = of_int m * of_nat b powi e"
  shows "rnd b p x = x"
proof -
  have bpos: "(0 :: rat) < of_nat b" and b1: "(1 :: rat) < of_nat b" using b by auto
  have xpos: "0 < x" using m(1) bpos by (simp add: x)
  have "of_int m < (of_int (int b ^ p) :: rat)" using m(2) by (simp only: of_int_less_iff)
  then have "x < of_nat b ^ p * of_nat b powi e" using bpos by (simp add: x)
  also have "\<dots> = of_nat b powi (int p + e)" using bpos by (simp add: power_int_add)
  finally have "of_nat b powi rexp b x < (of_nat b powi (int p + e) :: rat)"
    using rexp_bounds(1) [OF b xpos] by linarith
  then have "rexp b x < int p + e"
    using b1 by (meson linorder_not_le power_int_increasing less_imp_le)
  then have "e = int (nat (e - (rexp b x - int p + 1))) + (rexp b x - int p + 1)" by simp
  then obtain k where k: "e = int k + (rexp b x - int p + 1)" by (rule that)
  have "of_nat b powi e = of_nat b ^ k * ulp b p x"
    unfolding ulp_def abs_of_pos [OF xpos] k by (rule powi_split [OF b])
  then have "x = of_int (m * int b ^ k) * ulp b p x" by (simp add: x)
  then have "x / ulp b p x = of_int (m * int b ^ k)"
    using ulp_pos [OF b, of p x] by (simp add: nonzero_divide_eq_eq)
  then have "round_he (x / ulp b p x) = m * int b ^ k" by (simp only: round_he_of_int)
  with \<open>x = of_int (m * int b ^ k) * ulp b p x\<close> xpos show ?thesis by (simp add: rnd_def)
qed

lemma rnd_representable:
  assumes b: "2 \<le> b" and p: "1 \<le> p" and x: "representable b p x"
  shows "rnd b p x = x"
proof -
  from x obtain m e where m: "\<bar>m\<bar> \<le> int b ^ p" and xe: "x = of_int m * of_nat b powi e"
    by (auto simp: representable_def)
  have bp: "(1 :: int) < int b ^ p" using b p by (intro one_less_power) auto
  have pos: "rnd b p (of_int k * of_nat b powi e) = of_int k * of_nat b powi e"
    if k: "0 < k" "k \<le> int b ^ p" for k
  proof (cases "k = int b ^ p")
    case True
    with b have "of_int k * of_nat b powi e = of_int 1 * (of_nat b powi (int p + e) :: rat)"
      by (simp add: power_int_add)
    with rnd_exact_pos [OF b p zero_less_one bp] show ?thesis by metis
  next
    case False
    with k show ?thesis by (intro rnd_exact_pos [OF b p, of k]) auto
  qed
  consider "m = 0" | "0 < m" | "m < 0" by linarith
  then show ?thesis
  proof cases
    case 1
    then show ?thesis by (simp add: xe)
  next
    case 2
    then show ?thesis using m by (simp add: xe pos)
  next
    case 3
    then have "rnd b p (- x) = - x" using m pos [of "- m"] by (simp add: xe)
    then show ?thesis by (simp add: rnd_minus)
  qed
qed

lemma representable_rnd:
  assumes b: "2 \<le> b" and p: "1 \<le> p"
  shows "representable b p (rnd b p x)"
proof (cases "x = 0")
  case True
  then show ?thesis by (auto simp: representable_def intro: exI [of _ 0])
next
  case False
  have pos: "\<bar>round_he (y / ulp b p y)\<bar> \<le> int b ^ p" if "0 < y" for y
  proof -
    note sb = scaled_bounds [OF b p that]
    have "0 \<le> y / ulp b p y" using that ulp_pos [OF b, of p y] by simp
    then have "0 \<le> round_he (y / ulp b p y)" using round_he_ge_int [of 0] by simp
    moreover have "round_he (y / ulp b p y) \<le> int b ^ p" by (rule round_he_le_int [OF sb(2)])
    ultimately show ?thesis by simp
  qed
  have "\<bar>round_he (x / ulp b p x)\<bar> \<le> int b ^ p"
    using pos [of x] pos [of "- x"] False by (cases "0 < x") (auto simp: round_he_minus)
  with False show ?thesis by (auto simp: representable_def rnd_def ulp_def)
qed

lemma rnd_error:
  assumes b: "2 \<le> b" and p: "1 \<le> p"
  shows "\<bar>rnd b p x - x\<bar> \<le> \<bar>x\<bar> / (2 * of_nat b ^ (p - 1))"
proof (cases "x = 0")
  case False
  have u: "0 < ulp b p x" by (rule ulp_pos [OF b])
  have "rnd b p x - x = (of_int (round_he (x / ulp b p x)) - x / ulp b p x) * ulp b p x"
    using False u by (simp add: rnd_def algebra_simps)
  then have "\<bar>rnd b p x - x\<bar> \<le> 1 / 2 * ulp b p x"
    using round_he_error [of "x / ulp b p x"] u
    by (simp only: abs_mult) (intro mult_mono, auto)
  moreover have "of_nat b ^ (p - 1) * ulp b p x \<le> \<bar>x\<bar>"
    using scaled_bounds(1) [OF b p, of "\<bar>x\<bar>"] False u by (simp add: pos_le_divide_eq ulp_def)
  then have "ulp b p x \<le> \<bar>x\<bar> / of_nat b ^ (p - 1)"
    using b by (simp add: pos_le_divide_eq mult.commute)
  ultimately show ?thesis by simp
qed simp

end
