(* ===== verification/Numbers.thy ===== *)
theory Numbers
  imports Rounding
begin

text \<open>
  Python's \<open>Decimal\<close> and \<open>float\<close> operations over the rounding of theory \<open>Rounding\<close>: the
  contract \<open>rounding\<close> that clients use, its interpretations for 28 decimal digits
  (\<open>decr\<close>) and 53 binary digits (\<open>flr\<close>), \<open>quantize\<close> with its \<open>InvalidOperation\<close>,
  division with its errors, the shortest decimal text of a float, and the accumulation of a
  weighted average in rounded arithmetic.
\<close>

section \<open>The contract of a rounding\<close>

locale rounding =
  fixes r :: "rat \<Rightarrow> rat" and rep :: "rat \<Rightarrow> bool"
  assumes r_mono: "x \<le> y \<Longrightarrow> r x \<le> r y"
    and r_fix: "rep x \<Longrightarrow> r x = x"
    and rep_r: "rep (r x)"
    and r_minus: "r (- x) = - r x"
    and r_pos: "0 < x \<Longrightarrow> 0 < r x"
    and rep_0: "rep 0"
    and rep_1: "rep 1"
begin

lemma r_0 [simp]: "r 0 = 0"
  by (rule r_fix [OF rep_0])

lemma r_1 [simp]: "r 1 = 1"
  by (rule r_fix [OF rep_1])

lemma r_idem: "r (r x) = r x"
  by (rule r_fix [OF rep_r])

lemma r_ge: "rep c \<Longrightarrow> c \<le> x \<Longrightarrow> c \<le> r x"
  using r_mono [of c x] by (simp add: r_fix)

lemma r_le: "rep c \<Longrightarrow> x \<le> c \<Longrightarrow> r x \<le> c"
  using r_mono [of x c] by (simp add: r_fix)

lemma r_nonneg: "0 \<le> x \<Longrightarrow> 0 \<le> r x"
  by (rule r_ge [OF rep_0])

lemma r_pos_iff: "0 < r x \<longleftrightarrow> 0 < x"
  using r_pos [of x] r_le [OF rep_0, of x] by linarith

lemma r_neg_iff: "r x < 0 \<longleftrightarrow> x < 0"
  using r_pos_iff [of "- x"] by (simp add: r_minus)

lemma r_eq_0_iff: "r x = 0 \<longleftrightarrow> x = 0"
  using r_pos_iff [of x] r_neg_iff [of x] by (metis less_linear less_irrefl)

lemma r_sub_pos: "0 < r (x - y) \<longleftrightarrow> y < x"
  by (simp add: r_pos_iff)

lemma r_unit: "0 \<le> x \<Longrightarrow> x \<le> 1 \<Longrightarrow> 0 \<le> r x \<and> r x \<le> 1"
  by (simp add: r_nonneg r_le rep_1)

lemma r_ratio_unit:
  assumes "0 \<le> t" and "t \<le> w" and "0 < w"
  shows "0 \<le> r (t / w)" and "r (t / w) \<le> 1"
  using assms r_unit [of "t / w"] by simp_all

end

subsection \<open>Weighted sums in rounded arithmetic\<close>

text \<open>
  The loop \<open>t += s * k; w += k\<close> over pairs of a score and a weight, each operation rounded.
\<close>

fun wacc :: "(rat \<Rightarrow> rat) \<Rightarrow> rat \<times> rat \<Rightarrow> (rat \<times> rat) list \<Rightarrow> rat \<times> rat" where
  "wacc r (t, w) [] = (t, w)"
| "wacc r (t, w) ((s, k) # xs) = wacc r (r (t + r (s * k)), r (w + k)) xs"

lemma snd_wacc: "snd (wacc r (t, w) xs) = snd (wacc r (t', w) xs')"
  if "map snd xs = map snd xs'"
  using that
proof (induction xs arbitrary: t t' w xs')
  case (Cons x xs)
  then obtain x' ys where "xs' = x' # ys" "snd x = snd x'" "map snd xs = map snd ys" by auto
  with Cons.IH [of ys] show ?case by (cases x; cases x') simp
qed simp

context rounding
begin

lemma wacc_bounds:
  assumes "\<forall>(s, k) \<in> set xs. 0 \<le> s \<and> s \<le> 1 \<and> 0 \<le> k \<and> rep k" and "0 \<le> t" and "t \<le> w"
  shows "0 \<le> fst (wacc r (t, w) xs) \<and> fst (wacc r (t, w) xs) \<le> snd (wacc r (t, w) xs)"
  using assms
proof (induction xs arbitrary: t w)
  case (Cons x xs)
  obtain s k where x: "x = (s, k)" by (cases x)
  with Cons.prems have s: "0 \<le> s" "s \<le> 1" and k: "0 \<le> k" "rep k" by auto
  have "s * k \<le> k" using s k mult_right_mono [of s 1 k] by simp
  then have "r (s * k) \<le> k" using k by (simp add: r_le)
  moreover have "0 \<le> r (s * k)" using s k by (simp add: r_nonneg)
  ultimately have "0 \<le> r (t + r (s * k))" "r (t + r (s * k)) \<le> r (w + k)"
    using Cons.prems by (auto intro!: r_nonneg r_mono)
  with Cons.IH [of "r (t + r (s * k))" "r (w + k)"] Cons.prems(1) show ?case by (simp add: x)
qed simp

lemma wacc_mono:
  assumes "list_all2 (\<lambda>(s, k) (s', k'). s \<le> s' \<and> k = k' \<and> 0 \<le> k) xs ys" and "t \<le> t'"
  shows "fst (wacc r (t, w) xs) \<le> fst (wacc r (t', w) ys)
     \<and> snd (wacc r (t, w) xs) = snd (wacc r (t', w) ys)"
  using assms
proof (induction xs ys arbitrary: t t' w rule: list_all2_induct)
  case (Cons x xs y ys)
  obtain s s' k where xy: "x = (s, k)" "y = (s', k)" "s \<le> s'" "0 \<le> k"
    using Cons.hyps(1) by (cases x; cases y) auto
  then have "r (s * k) \<le> r (s' * k)" by (intro r_mono mult_right_mono)
  then have "r (t + r (s * k)) \<le> r (t' + r (s' * k))"
    using Cons.prems by (intro r_mono) (simp add: add_mono)
  from Cons.IH [OF this, of "r (w + k)"] show ?case by (simp add: xy)
qed simp

lemma wacc_weight_pos:
  assumes "\<forall>(s, k) \<in> set xs. 0 \<le> k \<and> rep k" and "0 \<le> w" and "0 < w \<or> (\<exists>(s, k) \<in> set xs. 0 < k)"
  shows "0 < snd (wacc r (t, w) xs)"
  using assms
proof (induction xs arbitrary: t w)
  case (Cons x xs)
  obtain s k where x: "x = (s, k)" by (cases x)
  with Cons.prems have k: "0 \<le> k" by auto
  show ?case
  proof (cases "0 < w + k")
    case True
    with Cons.IH [of "r (w + k)"] Cons.prems r_pos_iff [of "w + k"] show ?thesis
      by (simp add: x)
  next
    case False
    with k Cons.prems have "w + k = 0" "k = 0" "w = 0" by auto
    with Cons.IH [of 0] Cons.prems show ?thesis by (simp add: x)
  qed
qed auto

end

section \<open>Decimal\<close>

definition dec :: "rat \<Rightarrow> rat" where
  "dec = rnd 10 28"

definition dec_rep :: "rat \<Rightarrow> bool" where
  "dec_rep = representable 10 28"

lemma representable_of_int: "\<bar>m\<bar> \<le> int b ^ p \<Longrightarrow> representable b p (of_int m)"
  unfolding representable_def by (rule exI [of _ m], rule exI [of _ 0]) simp

interpretation decr: rounding dec dec_rep
proof unfold_locales
  show "dec_rep 0" "dec_rep 1"
    using representable_of_int [of 0 10 28] representable_of_int [of 1 10 28]
    by (simp_all add: dec_rep_def)
qed (simp_all add: dec_def dec_rep_def rnd_mono rnd_representable representable_rnd rnd_minus
       rnd_pos)

definition dadd :: "rat \<Rightarrow> rat \<Rightarrow> rat" where "dadd x y = dec (x + y)"
definition dsub :: "rat \<Rightarrow> rat \<Rightarrow> rat" where "dsub x y = dec (x - y)"
definition dmul :: "rat \<Rightarrow> rat \<Rightarrow> rat" where "dmul x y = dec (x * y)"
definition ddiv :: "rat \<Rightarrow> rat \<Rightarrow> rat" where "ddiv x y = dec (x / y)"
definition dneg :: "rat \<Rightarrow> rat" where "dneg x = dec (- x)"

lemma dec_ops_0 [simp]:
  "dmul 0 y = 0" "dmul x 0 = 0" "ddiv 0 y = 0" "dneg 0 = 0" "dec 0 = 0"
  by (simp_all add: dmul_def ddiv_def dneg_def)

text \<open>Division where the divisor is not known to be nonzero.\<close>

definition ddivE :: "rat \<Rightarrow> rat \<Rightarrow> rat py" where
  "ddivE x y = (if y = 0 then Inl (if x = 0 then InvalidOperation else DivisionByZero)
     else Inr (ddiv x y))"

text \<open>
  \<open>x.quantize(Decimal(10) ** -k)\<close>: rounding to \<open>k\<close> places, an error when the result needs
  more than 28 digits. \<open>round_he\<close> is the default context's rounding, which \<open>round(x, k)\<close>
  uses too; \<open>round_hu\<close> is \<open>ROUND_HALF_UP\<close>.
\<close>

definition quantize :: "(rat \<Rightarrow> int) \<Rightarrow> nat \<Rightarrow> rat \<Rightarrow> rat py" where
  "quantize rd k x = (let c = rd (x * 10 ^ k) in
     if \<bar>c\<bar> < 10 ^ 28 then Inr (of_int c / 10 ^ k) else Inl InvalidOperation)"

lemma quantize_Inr:
  "quantize rd k x = Inr y \<longleftrightarrow> \<bar>rd (x * 10 ^ k)\<bar> < 10 ^ 28 \<and> y = of_int (rd (x * 10 ^ k)) / 10 ^ k"
  by (auto simp: quantize_def Let_def)

lemma quantize_Inl:
  "quantize rd k x = Inl e \<longleftrightarrow> 10 ^ 28 \<le> \<bar>rd (x * 10 ^ k)\<bar> \<and> e = InvalidOperation"
  by (auto simp: quantize_def Let_def)

text \<open>Numbers with \<open>k\<close> decimal places: where arithmetic on them is exact.\<close>

definition on_grid :: "nat \<Rightarrow> rat \<Rightarrow> bool" where
  "on_grid k x \<longleftrightarrow> x * 10 ^ k \<in> \<int>"

lemma on_grid_quantize: "quantize rd k x = Inr y \<Longrightarrow> on_grid k y"
  by (auto simp: quantize_Inr on_grid_def)

lemma on_grid_of_int [simp]: "on_grid k (of_int n)"
  by (simp add: on_grid_def)

lemma on_grid_of_nat [simp]: "on_grid k (of_nat n)"
  by (simp add: on_grid_def)

lemma on_grid_numeral [simp]: "on_grid k 0" "on_grid k 1" "on_grid k (numeral w)"
  by (simp_all add: on_grid_def)

lemma on_grid_add: "on_grid k x \<Longrightarrow> on_grid k y \<Longrightarrow> on_grid k (x + y)"
  by (simp add: on_grid_def distrib_right)

lemma on_grid_diff: "on_grid k x \<Longrightarrow> on_grid k y \<Longrightarrow> on_grid k (x - y)"
  by (simp add: on_grid_def left_diff_distrib)

lemma on_grid_minus: "on_grid k x \<Longrightarrow> on_grid k (- x)"
  by (simp add: on_grid_def)

lemma on_grid_mult: "on_grid j x \<Longrightarrow> on_grid k y \<Longrightarrow> on_grid (j + k) (x * y)"
proof -
  assume "on_grid j x" "on_grid k y"
  then have "x * 10 ^ j * (y * 10 ^ k) \<in> \<int>" unfolding on_grid_def by (rule Ints_mult)
  then show ?thesis by (simp add: on_grid_def power_add ac_simps)
qed

lemma on_grid_div100: "on_grid k x \<Longrightarrow> on_grid (k + 2) (x / 100)"
  by (simp add: on_grid_def power_add)

lemma on_grid_mono: "on_grid j x \<Longrightarrow> j \<le> k \<Longrightarrow> on_grid k x"
proof -
  assume "on_grid j x" "j \<le> k"
  then have "x * 10 ^ j * 10 ^ (k - j) \<in> \<int>" unfolding on_grid_def by (rule_tac Ints_mult) auto
  with \<open>j \<le> k\<close> show ?thesis by (simp add: on_grid_def mult.assoc flip: power_add)
qed

lemma dec_exact:
  assumes "on_grid k x" and "\<bar>x\<bar> \<le> 10 ^ (28 - k)" and "k \<le> 28"
  shows "dec x = x"
proof -
  from assms(1) obtain m where m: "x * 10 ^ k = of_int m" by (auto simp: on_grid_def Ints_def)
  have "\<bar>x\<bar> * 10 ^ k \<le> 10 ^ (28 - k) * 10 ^ k" using assms(2) by (intro mult_right_mono) auto
  also have "\<dots> = (10 ^ 28 :: rat)" using assms(3) by (simp flip: power_add)
  finally have "\<bar>x * 10 ^ k\<bar> \<le> 10 ^ 28" by (simp add: abs_mult)
  then have "of_int \<bar>m\<bar> \<le> (of_int (10 ^ 28) :: rat)" unfolding m by simp
  then have "\<bar>m\<bar> \<le> int 10 ^ 28" by (simp only: of_int_le_iff) simp
  moreover have "x = of_int m * of_nat 10 powi (- int k)"
    unfolding m [symmetric] by (simp add: power_int_minus)
  ultimately have "representable 10 28 x" unfolding representable_def by blast
  then show ?thesis by (simp add: dec_def rnd_representable)
qed

text \<open>Literals with up to ten decimals evaluate to themselves.\<close>

lemma dec_literal: "on_grid 10 x \<Longrightarrow> \<bar>x\<bar> \<le> 10 ^ 18 \<Longrightarrow> dec x = x"
  using dec_exact [of 10 x] by simp

lemma dec_error: "\<bar>dec x - x\<bar> \<le> \<bar>x\<bar> / (2 * 10 ^ 27)"
  using rnd_error [of 10 28 x] by (simp add: dec_def)

subsection \<open>Small numbers: a grid and a bound\<close>

definition small :: "nat \<Rightarrow> rat \<Rightarrow> rat \<Rightarrow> bool" where
  "small k B x \<longleftrightarrow> on_grid k x \<and> \<bar>x\<bar> \<le> B"

lemma small_add: "small k A x \<Longrightarrow> small k B y \<Longrightarrow> small k (A + B) (x + y)"
  unfolding small_def using abs_triangle_ineq [of x y] by (auto simp: on_grid_add)

lemma small_diff: "small k A x \<Longrightarrow> small k B y \<Longrightarrow> small k (A + B) (x - y)"
  unfolding small_def using abs_triangle_ineq4 [of x y] by (auto simp: on_grid_diff)

lemma small_minus: "small k A x \<Longrightarrow> small k A (- x)"
  by (simp add: small_def on_grid_minus)

lemma small_mult: "small j A x \<Longrightarrow> small k B y \<Longrightarrow> small (j + k) (A * B) (x * y)"
  unfolding small_def abs_mult by (auto simp: on_grid_mult intro!: mult_mono)

lemma small_div100: "small k A x \<Longrightarrow> small (k + 2) (A / 100) (x / 100)"
  using on_grid_div100 [of k x] unfolding small_def by (auto simp del: add_2_eq_Suc')

lemma small_max: "small k A x \<Longrightarrow> small k A y \<Longrightarrow> small k A (max x y)"
  by (simp add: small_def max_def)

lemma small_mono: "small j A x \<Longrightarrow> j \<le> k \<Longrightarrow> A \<le> B \<Longrightarrow> small k B x"
  by (auto simp: small_def intro: on_grid_mono)

lemma small_0 [simp]: "0 \<le> B \<Longrightarrow> small k B 0"
  by (simp add: small_def)

lemma dec_small: "small k B x \<Longrightarrow> k \<le> 28 \<Longrightarrow> B \<le> 10 ^ (28 - k) \<Longrightarrow> dec x = x"
  by (rule dec_exact) (auto simp: small_def)

text \<open>The cent a half-up rounding goes to.\<close>

definition cents :: "rat \<Rightarrow> rat" where
  "cents x = of_int (round_hu (x * 100)) / 100"

lemma cents_0 [simp]: "cents 0 = 0"
  using round_hu_of_int [of 0] by (simp add: cents_def)

lemma cents_nonneg: "0 \<le> x \<Longrightarrow> 0 \<le> cents x"
  using round_hu_mono [of 0 "x * 100"] round_hu_of_int [of 0] by (simp add: cents_def)

lemma cents_error: "\<bar>cents x - x\<bar> \<le> 1 / 200"
proof -
  have "cents x - x = (of_int (round_hu (x * 100)) - x * 100) / 100"
    by (simp add: cents_def diff_divide_distrib)
  then have "\<bar>cents x - x\<bar> = \<bar>of_int (round_hu (x * 100)) - x * 100\<bar> / 100"
    by (simp only: abs_divide abs_numeral)
  also have "\<dots> \<le> 1 / 2 / 100"
    using round_hu_error [of "x * 100"] by (intro divide_right_mono) auto
  finally show ?thesis by simp
qed

lemma small_cents: "\<bar>x\<bar> \<le> B \<Longrightarrow> small 2 (B + 1) (cents x)"
proof -
  assume x: "\<bar>x\<bar> \<le> B"
  have "\<bar>cents x\<bar> \<le> B + 1" using cents_error [of x] x by linarith
  then show ?thesis by (simp add: small_def on_grid_def) (simp add: cents_def)
qed

lemma quantize_cents: "\<bar>x\<bar> \<le> 10 ^ 25 \<Longrightarrow> quantize round_hu 2 x = Inr (cents x)"
proof -
  assume x: "\<bar>x\<bar> \<le> 10 ^ 25"
  have "\<bar>of_int (round_hu (x * 100))\<bar> \<le> \<bar>x * 100\<bar> + (1 / 2 :: rat)"
    using round_hu_error [of "x * 100"] by linarith
  also have "\<dots> < 10 ^ 28" using x by (simp add: abs_mult)
  finally have "of_int \<bar>round_hu (x * 100)\<bar> < (of_int (10 ^ 28) :: rat)" by simp
  then have "\<bar>round_hu (x * 100)\<bar> < 10 ^ 28" by (simp only: of_int_less_iff)
  then show ?thesis by (simp add: quantize_def cents_def)
qed

lemma quantize_he_total:
  assumes "\<bar>x\<bar> * 10 ^ k \<le> 10 ^ 27"
  shows "\<exists>y. quantize round_he k x = Inr y"
proof -
  have "\<bar>x * 10 ^ k\<bar> \<le> 10 ^ 27" using assms by (simp add: abs_mult)
  then have "\<bar>of_int (round_he (x * 10 ^ k))\<bar> < (10 ^ 28 :: rat)"
    using round_he_error [of "x * 10 ^ k"] by (simp, linarith)
  then have "of_int \<bar>round_he (x * 10 ^ k)\<bar> < (of_int (10 ^ 28) :: rat)" by simp
  then have "\<bar>round_he (x * 10 ^ k)\<bar> < 10 ^ 28" by (simp only: of_int_less_iff)
  then show ?thesis by (simp add: quantize_def)
qed

lemma dec_rep_pow10: "dec_rep (10 ^ n)"
  unfolding dec_rep_def representable_def
  by (rule exI [of _ 1], rule exI [of _ "int n"]) simp

lemma dec_abs_le: "\<bar>z\<bar> \<le> 10 ^ n \<Longrightarrow> \<bar>dec z\<bar> \<le> 10 ^ n"
  using decr.r_le [OF dec_rep_pow10, of z n] decr.r_le [OF dec_rep_pow10, of "- z" n]
  by (simp add: abs_le_iff decr.r_minus)

lemma dadd_small:
  "small k A x \<Longrightarrow> small k B y \<Longrightarrow> k \<le> 28 \<Longrightarrow> A + B \<le> 10 ^ (28 - k) \<Longrightarrow> dadd x y = x + y"
  unfolding dadd_def by (rule dec_small [OF small_add])

lemma dsub_small:
  "small k A x \<Longrightarrow> small k B y \<Longrightarrow> k \<le> 28 \<Longrightarrow> A + B \<le> 10 ^ (28 - k) \<Longrightarrow> dsub x y = x - y"
  unfolding dsub_def by (rule dec_small [OF small_diff])

lemma small_positive: "small k B x \<Longrightarrow> 0 < x \<Longrightarrow> 1 / 10 ^ k \<le> x"
proof -
  assume s: "small k B x" and x: "0 < x"
  then obtain m where m: "x * 10 ^ k = of_int m" by (auto simp: small_def on_grid_def Ints_def)
  have "0 < x * 10 ^ k" using x by simp
  then have "0 < m" unfolding m by simp
  then have "1 \<le> x * 10 ^ k" unfolding m by simp
  then show ?thesis by (simp add: divide_le_eq)
qed

section \<open>Float\<close>

definition fl :: "rat \<Rightarrow> rat" where
  "fl = rnd 2 53"

definition fl_rep :: "rat \<Rightarrow> bool" where
  "fl_rep = representable 2 53"

interpretation flr: rounding fl fl_rep
proof unfold_locales
  show "fl_rep 0" "fl_rep 1"
    using representable_of_int [of 0 2 53] representable_of_int [of 1 2 53]
    by (simp_all add: fl_rep_def)
qed (simp_all add: fl_def fl_rep_def rnd_mono rnd_representable representable_rnd rnd_minus
       rnd_pos)

lemma fl_error: "\<bar>fl x - x\<bar> \<le> \<bar>x\<bar> / 2 ^ 53"
  using rnd_error [of 2 53 x] by (simp add: fl_def)

lemma fl_rep_int: "\<bar>n\<bar> \<le> 2 ^ 53 \<Longrightarrow> fl_rep (of_int n)"
  using representable_of_int [of n 2 53] by (simp add: fl_rep_def)

lemma fl_rep_half: "\<bar>n\<bar> \<le> 2 ^ 53 \<Longrightarrow> fl_rep (of_int n / 2)"
  unfolding fl_rep_def representable_def
  by (rule exI [of _ n], rule exI [of _ "- 1"]) (simp add: power_int_minus)

lemma fl_int: "\<bar>n\<bar> \<le> 2 ^ 53 \<Longrightarrow> fl (of_int n) = of_int n"
  by (simp add: flr.r_fix fl_rep_int)

lemma fl_numeral [simp]:
  "numeral w \<le> (2 ^ 53 :: int) \<Longrightarrow> fl (numeral w) = numeral w"
  "numeral w \<le> (2 ^ 53 :: int) \<Longrightarrow> fl (- numeral w) = - numeral w" "fl (- 1) = - 1"
  using fl_int [of "numeral w"] fl_int [of "- numeral w"] fl_int [of "- 1"] by simp_all

text \<open>\<open>round(x, k)\<close> of a float\<close>

definition round_float :: "nat \<Rightarrow> rat \<Rightarrow> rat" where
  "round_float k x = fl (of_int (round_he (x * 10 ^ k)) / 10 ^ k)"

lemma round_float_mono: "x \<le> y \<Longrightarrow> round_float k x \<le> round_float k y"
  unfolding round_float_def by (intro flr.r_mono divide_right_mono) (simp_all add: round_he_mono mult_right_mono)

lemma round_float_minus: "round_float k (- x) = - round_float k x"
  by (simp add: round_float_def round_he_minus flr.r_minus flip: minus_divide_left)

lemma round_float_0 [simp]: "round_float k 0 = 0"
  using round_he_of_int [of 0] by (simp add: round_float_def)

lemma round_float_1 [simp]: "round_float k 1 = 1"
  using round_he_of_int [of "10 ^ k"] by (simp add: round_float_def)

lemma round_float_close:
  assumes "\<bar>x\<bar> \<le> 4"
  shows "\<bar>round_float 4 x - x\<bar> \<le> 1 / 10000"
proof -
  define y where "y = rat_of_int (round_he (x * 10 ^ 4)) / 10 ^ 4"
  have "y - x = (of_int (round_he (x * 10 ^ 4)) - x * 10 ^ 4) / 10 ^ 4" by (simp add: y_def field_simps)
  then have y: "\<bar>y - x\<bar> \<le> 1 / 20000"
    using round_he_error [of "x * 10 ^ 4"] by (simp only: abs_divide) simp
  have "\<bar>fl y - y\<bar> \<le> 5 / 2 ^ 53"
  proof -
    have "\<bar>y\<bar> \<le> 5" using abs_triangle_ineq [of "y - x" x] y assms by simp
    then show ?thesis using fl_error [of y] by simp
  qed
  then have "\<bar>fl y - x\<bar> \<le> 1 / 10000" using y abs_triangle_ineq [of "fl y - y" "y - x"] by simp
  then show ?thesis unfolding round_float_def y_def [symmetric] .
qed

text \<open>
  \<open>repr\<close> of a float: the shortest decimal that rounds back to it, the nearest one of that
  length. \<open>Decimal(str(x))\<close> is its value.
\<close>

definition repr_digits :: "nat \<Rightarrow> rat \<Rightarrow> rat option" where
  "repr_digits n x =
     (let u = ulp 10 n x; lo = of_int \<lfloor>x / u\<rfloor> * u; hi = lo + u in
      if fl lo = x \<and> fl hi = x then Some (of_int (round_he (x / u)) * u)
      else if fl lo = x then Some lo
      else if fl hi = x then Some hi
      else None)"

fun repr_from :: "nat list \<Rightarrow> rat \<Rightarrow> rat" where
  "repr_from [] x = x"
| "repr_from (n # ns) x = (case repr_digits n x of Some d \<Rightarrow> d | None \<Rightarrow> repr_from ns x)"

definition float_repr :: "rat \<Rightarrow> rat" where
  "float_repr x = (if x = 0 then 0 else repr_from [1..<18] x)"

lemma repr_digits_sound: "repr_digits n x = Some d \<Longrightarrow> fl d = x"
proof -
  assume d: "repr_digits n x = Some d"
  define u where "u = ulp 10 n x"
  have cases: "of_int (round_he (x / u)) * u = of_int \<lfloor>x / u\<rfloor> * u
      \<or> of_int (round_he (x / u)) * u = of_int \<lfloor>x / u\<rfloor> * u + u"
    using round_he_cases [of "x / u"] by (auto simp: distrib_right)
  with d show ?thesis
    unfolding repr_digits_def Let_def u_def [symmetric] by (auto split: if_splits)
qed

lemma float_repr_roundtrip: "fl_rep x \<Longrightarrow> fl (float_repr x) = x"
proof -
  assume x: "fl_rep x"
  have "fl (repr_from ns x) = x" for ns
    by (induction ns) (auto simp: flr.r_fix [OF x] repr_digits_sound split: option.splits)
  then show ?thesis by (simp add: float_repr_def)
qed

text \<open>\<open>int(x)\<close> truncates towards zero.\<close>

definition trunc :: "rat \<Rightarrow> int" where
  "trunc x = (if x < 0 then - \<lfloor>- x\<rfloor> else \<lfloor>x\<rfloor>)"

lemma trunc_nonneg: "0 \<le> x \<Longrightarrow> 0 \<le> trunc x"
  by (simp add: trunc_def)

lemma trunc_of_int [simp]: "trunc (of_int n) = n"
proof -
  have "\<lfloor>- of_int n :: rat\<rfloor> = - n" by (rule floor_unique) simp_all
  then show ?thesis by (simp add: trunc_def)
qed

end
