(* ===== verification/ProfitModel.thy ===== *)
theory ProfitModel
  imports Numbers
begin

text \<open>
  The data of the profit engine: \<open>app/profit/models.py\<close> (input, output, fee components, with
  the field constraints that validation enforces) and \<open>app/profit/config.py\<close> (fee schedule,
  default rates, the lookup of a category's referral fee). Amounts are \<open>Decimal\<close>s.
\<close>

section \<open>Fee components\<close>

datatype fee_category = FIXED | PERCENTAGE | VARIABLE

record fee_component =
  fc_name :: string
  fc_category :: fee_category
  fc_amount :: rat
  fc_description :: fstring

section \<open>Input\<close>

record profit_input =
  amazon_price :: rat
  quantity :: int
  supplier_price :: rat
  shipping_cost :: rat
  prep_cost :: rat
  other_costs :: rat
  referral_fee_percent :: "rat option"
  referral_fee_min :: "rat option"
  fba_fulfillment_fee :: "rat option"
  fba_storage_fee :: "rat option"
  closing_fee :: rat
  sales_tax_percent :: rat
  coupon_discount :: rat
  cashback_percent :: rat
  credit_card_rewards_percent :: rat
  supplier_discount_percent :: rat
  capital_invested :: "rat option"
  currency :: string

definition percent_ok :: "rat \<Rightarrow> bool" where
  "percent_ok x \<longleftrightarrow> 0 \<le> x \<and> x \<le> 100"

definition profit_input_ok :: "profit_input \<Rightarrow> bool" where
  "profit_input_ok i \<longleftrightarrow>
     0 < amazon_price i \<and> 1 \<le> quantity i \<and> 0 < supplier_price i
     \<and> 0 \<le> shipping_cost i \<and> 0 \<le> prep_cost i \<and> 0 \<le> other_costs i
     \<and> 0 \<le> closing_fee i \<and> percent_ok (sales_tax_percent i) \<and> 0 \<le> coupon_discount i
     \<and> percent_ok (cashback_percent i) \<and> percent_ok (credit_card_rewards_percent i)
     \<and> percent_ok (supplier_discount_percent i)"

text \<open>Construction of the model: the field defaults, and validation.\<close>

definition default_input :: "rat \<Rightarrow> rat \<Rightarrow> profit_input" where
  "default_input price cost =
     \<lparr>amazon_price = price, quantity = 1, supplier_price = cost, shipping_cost = 0,
      prep_cost = 0, other_costs = 0, referral_fee_percent = None, referral_fee_min = None,
      fba_fulfillment_fee = None, fba_storage_fee = None, closing_fee = 0,
      sales_tax_percent = 0, coupon_discount = 0, cashback_percent = 0,
      credit_card_rewards_percent = 0, supplier_discount_percent = 0,
      capital_invested = None, currency = ''USD''\<rparr>"

definition validate_input :: "profit_input \<Rightarrow> profit_input py" where
  "validate_input i = (if profit_input_ok i then Inr i else Inl ValidationError)"

section \<open>Output\<close>

record profit_output =
  total_revenue :: rat
  revenue_per_unit :: rat
  total_cost :: rat
  cost_per_unit :: rat
  cost_breakdown :: "fee_component list"
  gross_profit :: rat
  net_profit :: rat
  net_profit_per_unit :: rat
  margin_percentage :: rat
  roi_percentage :: rat
  markup_percentage :: rat
  break_even_price :: rat
  break_even_quantity :: int
  return_on_capital :: rat
  out_capital_invested :: rat
  amazon_fees_per_unit :: rat
  taxes_per_unit :: rat
  discounts_per_unit :: rat
  out_currency :: string
  is_profitable :: bool

section \<open>Configuration\<close>

record fee_schedule =
  fs_category :: string
  fs_referral_fee_percent :: rat
  fs_referral_fee_min :: rat
  fs_closing_fee :: rat

record fee_config =
  default_referral_fee_percent :: rat
  default_referral_fee_min :: rat
  small_standard_fulfillment :: rat
  large_standard_fulfillment :: rat
  small_oversize_fulfillment :: rat
  large_oversize_fulfillment :: rat
  standard_monthly_storage :: rat
  oversize_monthly_storage :: rat
  default_sales_tax_percent :: rat
  default_coupon_discount :: rat
  default_cashback_percent :: rat
  default_credit_card_rewards_percent :: rat

record profit_config =
  pc_fees :: fee_config
  category_schedules :: "fee_schedule list"

fun find_schedule :: "fee_schedule list \<Rightarrow> string \<Rightarrow> (rat \<times> rat) option" where
  "find_schedule [] c = None"
| "find_schedule (s # ss) c =
     (if lower (fs_category s) = lower c
      then Some (fs_referral_fee_percent s, fs_referral_fee_min s)
      else find_schedule ss c)"

definition get_referral_fee :: "profit_config \<Rightarrow> string option \<Rightarrow> rat \<times> rat" where
  "get_referral_fee cfg category =
     (let dflt = (default_referral_fee_percent (pc_fees cfg),
                  default_referral_fee_min (pc_fees cfg)) in
      case category of
        None \<Rightarrow> dflt
      | Some c \<Rightarrow>
          if c = [] then dflt
          else (case find_schedule (category_schedules cfg) c of
                  None \<Rightarrow> dflt
                | Some r \<Rightarrow> r))"

definition default_fees :: fee_config where
  "default_fees =
     \<lparr>default_referral_fee_percent = 15, default_referral_fee_min = 0,
      small_standard_fulfillment = 35 / 10, large_standard_fulfillment = 55 / 10,
      small_oversize_fulfillment = 85 / 10, large_oversize_fulfillment = 125 / 10,
      standard_monthly_storage = 87 / 100, oversize_monthly_storage = 56 / 100,
      default_sales_tax_percent = 0, default_coupon_discount = 0,
      default_cashback_percent = 0, default_credit_card_rewards_percent = 0\<rparr>"

definition schedule :: "string \<Rightarrow> rat \<Rightarrow> rat \<Rightarrow> rat \<Rightarrow> fee_schedule" where
  "schedule c p m cl = \<lparr>fs_category = c, fs_referral_fee_percent = p,
     fs_referral_fee_min = m, fs_closing_fee = cl\<rparr>"

definition default_schedules :: "fee_schedule list" where
  "default_schedules =
     [schedule ''Electronics'' 8 (30 / 100) 0,
      schedule ''Cell Phone Accessories'' 15 (30 / 100) 0,
      schedule ''Home & Kitchen'' 15 (30 / 100) 0,
      schedule ''Sports & Outdoors'' 15 (30 / 100) 0,
      schedule ''Toys & Games'' 15 (30 / 100) 0,
      schedule ''Books'' 15 0 (180 / 100),
      schedule ''Clothing & Accessories'' 17 (30 / 100) 0,
      schedule ''Health & Personal Care'' 15 (30 / 100) 0,
      schedule ''Beauty'' 15 (30 / 100) 0,
      schedule ''Automotive'' 15 (30 / 100) 0,
      schedule ''Pet Supplies'' 15 (30 / 100) 0,
      schedule ''Musical Instruments'' 15 (30 / 100) 0,
      schedule ''Office Products'' 15 (30 / 100) 0,
      schedule ''Video Games'' 15 0 0,
      schedule ''Grocery & Gourmet Food'' 15 (30 / 100) 0]"

definition DEFAULT_PROFIT_CONFIG :: profit_config where
  "DEFAULT_PROFIT_CONFIG = \<lparr>pc_fees = default_fees, category_schedules = default_schedules\<rparr>"

lemma lower_idem: "lower (lower s) = lower s"
proof -
  have "lower_char (lower_char c) = lower_char c" for c
    by (auto simp: lower_char_def Let_def)
  then show ?thesis by (simp add: lower_def)
qed

text \<open>The lookup does not depend on the case of the category.\<close>

lemma find_schedule_lower: "lower c = lower d \<Longrightarrow> find_schedule ss c = find_schedule ss d"
  by (induction ss) auto

lemma find_schedule_cases:
  "find_schedule ss c = Some r \<Longrightarrow>
     \<exists>s \<in> set ss. lower (fs_category s) = lower c
       \<and> r = (fs_referral_fee_percent s, fs_referral_fee_min s)"
  by (induction ss) (auto split: if_splits)

lemma get_referral_fee_cases:
  "get_referral_fee cfg category =
     (default_referral_fee_percent (pc_fees cfg), default_referral_fee_min (pc_fees cfg))
   \<or> (\<exists>s \<in> set (category_schedules cfg).
        get_referral_fee cfg category = (fs_referral_fee_percent s, fs_referral_fee_min s))"
  by (auto simp: get_referral_fee_def Let_def dest!: find_schedule_cases split: option.splits)

end
