(* ===== verification/Profit.thy ===== *)
theory Profit
  imports ProfitModel
begin

text \<open>
  The profit engine, \<open>app/profit/engine.py\<close>: the itemised fees, the totals, the ratios and
  the two break-even computations, in \<open>Decimal\<close> arithmetic, every \<open>quantize\<close> a possible
  \<open>InvalidOperation\<close>.
\<close>

section \<open>The calculation\<close>

text \<open>\<open>_money\<close>\<close>

definition money :: "rat \<Rightarrow> rat py" where
  "money x = quantize round_hu 2 x"

text \<open>\<open>_get_referral_fee\<close>\<close>

definition engine_referral_fee ::
  "profit_config \<Rightarrow> profit_input \<Rightarrow> string option \<Rightarrow> rat \<times> rat" where
  "engine_referral_fee cfg i category =
     (case referral_fee_percent i of
        Some p \<Rightarrow> (p, or_num (referral_fee_min i) 0)
      | None \<Rightarrow> get_referral_fee cfg category)"

text \<open>The totals of the numbered fee sections 1 to 9 and of the two incentives.\<close>

record fee_totals =
  t_ref_pct :: rat
  t_ref_min :: rat
  t_referral :: rat
  t_fba_unit :: rat
  t_fba :: rat
  t_storage_unit :: rat
  t_storage :: rat
  t_closing :: rat
  t_shipping :: rat
  t_prep :: rat
  t_other :: rat
  t_tax :: rat
  t_coupon :: rat
  t_cashback :: rat
  t_rewards :: rat

definition revenue_of :: "profit_input \<Rightarrow> rat" where
  "revenue_of i = dmul (amazon_price i) (of_int (quantity i))"

definition effective_cost :: "profit_input \<Rightarrow> rat" where
  "effective_cost i = dmul (supplier_price i) (dsub 1 (ddiv (supplier_discount_percent i) 100))"

definition supplier_cost :: "profit_input \<Rightarrow> rat" where
  "supplier_cost i = dmul (effective_cost i) (of_int (quantity i))"

definition fee_totals_of ::
  "profit_config \<Rightarrow> profit_input \<Rightarrow> string option \<Rightarrow> fee_totals py" where
  "fee_totals_of cfg i category =
     (let qty = of_int (quantity i); rev = revenue_of i;
          (pct, mn) = engine_referral_fee cfg i category in
      bindR (money (max (ddiv (dmul (amazon_price i) pct) 100) mn)) (\<lambda>ref.
      bindR (money (or_num (fba_fulfillment_fee i)
                     (large_standard_fulfillment (pc_fees cfg)))) (\<lambda>fba.
      bindR (money (or_num (fba_storage_fee i) 0)) (\<lambda>sto.
      bindR (money (dmul (closing_fee i) qty)) (\<lambda>clo.
      bindR (money (dmul (shipping_cost i) qty)) (\<lambda>shi.
      bindR (money (dmul (prep_cost i) qty)) (\<lambda>pre.
      bindR (money (dmul (other_costs i) qty)) (\<lambda>oth.
      bindR (money (ddiv (dmul rev (sales_tax_percent i)) 100)) (\<lambda>tax.
      bindR (money (dmul (coupon_discount i) qty)) (\<lambda>cou.
      bindR (money (ddiv (dmul rev (cashback_percent i)) 100)) (\<lambda>cas.
      bindR (money (ddiv (dmul rev (credit_card_rewards_percent i)) 100)) (\<lambda>rew.
      Inr \<lparr>t_ref_pct = pct, t_ref_min = mn, t_referral = dmul ref qty,
           t_fba_unit = fba, t_fba = dmul fba qty,
           t_storage_unit = sto, t_storage = dmul sto qty,
           t_closing = clo, t_shipping = shi, t_prep = pre, t_other = oth, t_tax = tax,
           t_coupon = cou, t_cashback = cas, t_rewards = rew\<rparr>))))))))))))"

text \<open>The itemised list \<open>fees\<close>: which components are appended, and in which order.\<close>

definition fee :: "string \<Rightarrow> fee_category \<Rightarrow> rat \<Rightarrow> fstring \<Rightarrow> fee_component" where
  "fee n c a d = \<lparr>fc_name = n, fc_category = c, fc_amount = a, fc_description = d\<rparr>"

definition per_unit_note :: "rat \<Rightarrow> int \<Rightarrow> fstring" where
  "per_unit_note a qty =
     [Lit ''$'', Num a, Lit '' per unit '', Uni 215, Lit '' '', Num (of_int qty), Lit '' units'']"

definition percent_note :: "rat \<Rightarrow> rat \<Rightarrow> string \<Rightarrow> rat \<Rightarrow> fstring" where
  "percent_note p base eq amt = [Num p, Lit ''% of $'', Num base, Lit eq, Fix 2 amt]"

definition fee_breakdown :: "profit_input \<Rightarrow> fee_totals \<Rightarrow> fee_component list" where
  "fee_breakdown i t =
     (let qty = quantity i; rev = revenue_of i; price = amazon_price i in
      [fee ''Referral Fee'' PERCENTAGE (t_referral t)
         (percent_note (t_ref_pct t) price '' = $'' (ddiv (dmul price (t_ref_pct t)) 100)
          @ (if 0 < t_ref_min t then [Lit '' (min: $'', Num (t_ref_min t), Lit '')''] else []))]
      @ (if 0 < t_fba_unit t
         then [fee ''FBA Fulfillment Fee'' FIXED (t_fba t) (per_unit_note (t_fba_unit t) qty)]
         else [])
      @ (if 0 < t_storage_unit t
         then [fee ''FBA Storage Fee'' FIXED (t_storage t) (per_unit_note (t_storage_unit t) qty)]
         else [])
      @ (if 0 < closing_fee i
         then [fee ''Closing Fee'' FIXED (t_closing t) (per_unit_note (closing_fee i) qty)]
         else [])
      @ (if 0 < shipping_cost i
         then [fee ''Shipping Cost'' FIXED (t_shipping t) (per_unit_note (shipping_cost i) qty)]
         else [])
      @ (if 0 < prep_cost i
         then [fee ''Prep/Labeling Cost'' FIXED (t_prep t) (per_unit_note (prep_cost i) qty)]
         else [])
      @ (if 0 < other_costs i
         then [fee ''Other Costs'' FIXED (t_other t) (per_unit_note (other_costs i) qty)]
         else [])
      @ (if 0 < sales_tax_percent i
         then [fee ''Sales Tax'' PERCENTAGE (t_tax t)
                 (percent_note (sales_tax_percent i) rev '' = $'' (t_tax t))]
         else [])
      @ (if 0 < coupon_discount i
         then [fee ''Coupon Discount'' FIXED (t_coupon t) (per_unit_note (coupon_discount i) qty)]
         else [])
      @ (if 0 < cashback_percent i
         then [fee ''Cashback (savings)'' PERCENTAGE (dneg (t_cashback t))
                 (percent_note (cashback_percent i) rev '' = -$'' (t_cashback t))]
         else [])
      @ (if 0 < credit_card_rewards_percent i
         then [fee ''Credit Card Rewards (savings)'' PERCENTAGE (dneg (t_rewards t))
                 (percent_note (credit_card_rewards_percent i) rev '' = -$'' (t_rewards t))]
         else []))"

definition amazon_fees :: "fee_totals \<Rightarrow> rat" where
  "amazon_fees t = dadd (dadd (dadd (t_referral t) (t_fba t)) (t_storage t)) (t_closing t)"

definition total_cost_of :: "profit_input \<Rightarrow> fee_totals \<Rightarrow> rat" where
  "total_cost_of i t =
     dsub (dadd (dadd (dadd (dadd (dadd (dadd
       (supplier_cost i) (t_shipping t)) (t_prep t)) (t_other t)) (amazon_fees t)) (t_tax t))
       (t_coupon t)) (dadd (t_cashback t) (t_rewards t))"

text \<open>The closed-form break-even price, and the break-even quantity.\<close>

definition simple_break_even :: "profit_input \<Rightarrow> fee_totals \<Rightarrow> rat" where
  "simple_break_even i t =
     (let var = dadd (dadd (dadd (effective_cost i) (shipping_cost i)) (prep_cost i))
                  (other_costs i);
          rate = dadd (ddiv (t_ref_pct t) 100) (ddiv (sales_tax_percent i) 100) in
      if rate < 1 then ddiv (dadd var (t_ref_min t)) (dsub 1 rate)
      else dadd var (t_ref_min t))"

definition break_even_qty :: "rat \<Rightarrow> int" where
  "break_even_qty per_unit =
     (if 0 < per_unit then 1
      else (let contribution = per_unit in if 0 < contribution then 1 else 0))"

definition calculate ::
  "profit_config \<Rightarrow> profit_input \<Rightarrow> string option \<Rightarrow> profit_output py" where
  "calculate cfg i category =
     bindR (fee_totals_of cfg i category) (\<lambda>t.
     let qty = of_int (quantity i); rev = revenue_of i; sup = supplier_cost i;
         cost = total_cost_of i t;
         per = (\<lambda>x. if 0 < quantity i then ddiv x qty else 0);
         net = dsub rev cost;
         net_unit = per net;
         margin = (if 0 < rev then dmul (ddiv net rev) 100 else 0);
         markup = (if 0 < cost then dmul (ddiv (dsub rev cost) cost) 100 else 0);
         capital = or_num (capital_invested i) (dadd sup (t_shipping t));
         roi = (if 0 < capital then dmul (ddiv net capital) 100 else 0);
         roc = (if 0 < capital then ddiv net capital else 0) in
     bindR (quantize round_he 2 margin) (\<lambda>margin'.
     bindR (quantize round_he 2 roi) (\<lambda>roi'.
     bindR (quantize round_he 2 markup) (\<lambda>markup'.
     bindR (quantize round_he 2 (simple_break_even i t)) (\<lambda>be'.
     bindR (quantize round_he 4 roc) (\<lambda>roc'.
     Inr \<lparr>total_revenue = rev, revenue_per_unit = amazon_price i, total_cost = cost,
          cost_per_unit = per cost, cost_breakdown = fee_breakdown i t,
          gross_profit = dsub rev sup, net_profit = net, net_profit_per_unit = net_unit,
          margin_percentage = margin', roi_percentage = roi', markup_percentage = markup',
          break_even_price = be', break_even_quantity = max 1 (break_even_qty net_unit),
          return_on_capital = roc', out_capital_invested = capital,
          amazon_fees_per_unit = per (amazon_fees t), taxes_per_unit = per (t_tax t),
          discounts_per_unit = per (t_coupon t), out_currency = currency i,
          is_profitable = 0 < net\<rparr>))))))"

definition calculate_batch ::
  "profit_config \<Rightarrow> profit_input list \<Rightarrow> string option \<Rightarrow> profit_output list py" where
  "calculate_batch cfg is category = mapR (\<lambda>i. calculate cfg i category) is"

text \<open>
  \<open>find_break_even_price\<close>. The loop's test on the price is an argument of the search;
  \<open>None\<close> is running out of fuel.
\<close>

fun be_search :: "(rat \<Rightarrow> bool py) \<Rightarrow> rat \<Rightarrow> nat \<Rightarrow> rat \<Rightarrow> rat \<Rightarrow> rat py option" where
  "be_search prof prec 0 low high = None"
| "be_search prof prec (Suc n) low high =
     (if prec < dsub high low then
        (let mid = ddiv (dadd low high) 2 in
         case prof mid of
           Inl e \<Rightarrow> Some (Inl e)
         | Inr b \<Rightarrow> if b then be_search prof prec n low mid else be_search prof prec n mid high)
      else Some (Inr high))"

definition price_profitable ::
  "profit_config \<Rightarrow> profit_input \<Rightarrow> string option \<Rightarrow> rat \<Rightarrow> bool py" where
  "price_profitable cfg i category p =
     bindR (calculate cfg (i\<lparr>amazon_price := p\<rparr>) category) (\<lambda>o'. Inr (is_profitable o'))"

definition find_break_even_price ::
  "nat \<Rightarrow> profit_config \<Rightarrow> profit_input \<Rightarrow> string option \<Rightarrow> rat \<Rightarrow> rat py option" where
  "find_break_even_price n cfg i category prec =
     be_search (price_profitable cfg i category) prec n (1 / 100) (dmul (supplier_price i) 10)"

section \<open>The break-even search\<close>

lemma be_search_sound:
  "be_search prof prec n low high = Some (Inr r) \<Longrightarrow>
     (r = high \<or> prof r = Inr True)
     \<and> (\<exists>l. (l = low \<or> prof l = Inr False) \<and> dsub r l \<le> prec)"
proof (induction n arbitrary: low high)
  case (Suc n)
  show ?case
  proof (cases "prec < dsub high low")
    case True
    define mid where "mid = ddiv (dadd low high) 2"
    from True Suc.prems obtain b where b: "prof mid = Inr b"
      by (cases "prof mid") (auto simp: mid_def)
    show ?thesis
    proof (cases b)
      case True
      with \<open>prec < dsub high low\<close> b Suc.prems
      have "be_search prof prec n low mid = Some (Inr r)" by (simp add: mid_def)
      from Suc.IH [OF this] b True show ?thesis by auto
    next
      case False
      with \<open>prec < dsub high low\<close> b Suc.prems
      have "be_search prof prec n mid high = Some (Inr r)" by (simp add: mid_def)
      from Suc.IH [OF this] b False show ?thesis by auto
    qed
  next
    case False
    with Suc.prems show ?thesis by auto
  qed
qed simp

lemma be_search_fuel_mono:
  "be_search prof prec n low high = Some r \<Longrightarrow> be_search prof prec (Suc n) low high = Some r"
proof (induction n arbitrary: low high)
  case (Suc n)
  note unf = be_search.simps(2) [of prof prec n low high]
    be_search.simps(2) [of prof prec "Suc n" low high]
  from Suc.prems show ?case
    unfolding unf Let_def
    by (auto simp del: be_search.simps intro: Suc.IH split: if_splits sum.splits)
qed simp

text \<open>One halving, with the two roundings of the midpoint.\<close>

lemma midpoint:
  assumes l: "0 \<le> l" "l \<le> 10 ^ 20" and h: "0 \<le> h" "h \<le> 10 ^ 20"
  shows "\<bar>ddiv (dadd l h) 2 - (l + h) / 2\<bar> \<le> 1 / 10 ^ 6"
    and "0 \<le> ddiv (dadd l h) 2" and "ddiv (dadd l h) 2 \<le> 10 ^ 20"
proof -
  define s where "s = dadd l h"
  have s_le: "s \<le> 2 * 10 ^ 20"
    unfolding s_def dadd_def
    by (rule decr.r_le) (use l h representable_of_int [of "2 * 10 ^ 20" 10 28] in \<open>simp_all add: dec_rep_def\<close>)
  have s_ge: "0 \<le> s" using l h by (simp add: s_def dadd_def decr.r_nonneg)
  have "\<bar>s - (l + h)\<bar> \<le> \<bar>l + h\<bar> / (2 * 10 ^ 27)" unfolding s_def dadd_def by (rule dec_error)
  moreover have "\<bar>l + h\<bar> / (2 * 10 ^ 27) \<le> 2 * 10 ^ 20 / (2 * 10 ^ 27)"
    using l h by (intro divide_right_mono) auto
  ultimately have e1: "\<bar>s - (l + h)\<bar> \<le> 1 / 10 ^ 7" by simp
  have "\<bar>ddiv s 2 - s / 2\<bar> \<le> \<bar>s / 2\<bar> / (2 * 10 ^ 27)" unfolding ddiv_def by (rule dec_error)
  moreover have "\<bar>s / 2\<bar> / (2 * 10 ^ 27) \<le> 2 * 10 ^ 20 / (2 * 10 ^ 27)"
    using s_ge s_le by (intro divide_right_mono) auto
  ultimately have e2: "\<bar>ddiv s 2 - s / 2\<bar> \<le> 1 / 10 ^ 7" by simp
  have "ddiv s 2 - (l + h) / 2 = (ddiv s 2 - s / 2) + (s - (l + h)) / 2"
    by (simp add: field_simps)
  then have "\<bar>ddiv s 2 - (l + h) / 2\<bar> \<le> \<bar>ddiv s 2 - s / 2\<bar> + \<bar>s - (l + h)\<bar> / 2"
    using abs_triangle_ineq [of "ddiv s 2 - s / 2" "(s - (l + h)) / 2"] by simp
  with e1 e2 show "\<bar>ddiv (dadd l h) 2 - (l + h) / 2\<bar> \<le> 1 / 10 ^ 6" by (simp add: s_def)
  show "0 \<le> ddiv (dadd l h) 2" using s_ge by (simp add: s_def ddiv_def decr.r_nonneg)
  show "ddiv (dadd l h) 2 \<le> 10 ^ 20"
    unfolding s_def [symmetric] ddiv_def
    by (rule decr.r_le) (use s_le representable_of_int [of "10 ^ 20" 10 28] in \<open>simp_all add: dec_rep_def\<close>)
qed

text \<open>While the gap is wider than the precision, the midpoint lies strictly inside.\<close>

lemma midpoint_inside:
  assumes prec: "1 / 100 \<le> prec" and l: "0 \<le> low" "low \<le> 10 ^ 20" and h: "0 \<le> high" "high \<le> 10 ^ 20"
    and wide: "prec < dsub high low"
  defines "mid \<equiv> ddiv (dadd low high) 2"
  shows "1 / 200 < high - low" and "\<bar>mid - (low + high) / 2\<bar> \<le> (high - low) / 6" and "low < mid" and "mid < high"
proof -
  show gap: "1 / 200 < high - low"
  proof (rule ccontr)
    assume "\<not> 1 / 200 < high - low"
    then have "high - low \<le> 1 / 200" by simp
    then have "dsub high low \<le> dec (1 / 100)" unfolding dsub_def by (intro decr.r_mono) simp
    also have "dec (1 / 100) = 1 / 100"
      by (rule dec_exact [of 2]) (auto simp: on_grid_def)
    finally show False using wide prec by simp
  qed
  show near: "\<bar>mid - (low + high) / 2\<bar> \<le> (high - low) / 6"
    using midpoint(1) [OF l h] gap by (simp add: mid_def)
  show "low < mid" "mid < high" using near gap unfolding abs_le_iff by (simp_all add: field_simps)
qed

lemma be_search_bracket:
  assumes prec: "1 / 100 \<le> prec"
  shows "0 \<le> low \<Longrightarrow> low \<le> high \<Longrightarrow> high \<le> 10 ^ 20 \<Longrightarrow> be_search prof prec n low high = Some (Inr r) \<Longrightarrow>
     (r = high \<or> prof r = Inr True)
     \<and> (\<exists>l. (l = low \<or> prof l = Inr False) \<and> low \<le> l \<and> l \<le> r \<and> dsub r l \<le> prec)"
proof (induction n arbitrary: low high)
  case (Suc n)
  show ?case
  proof (cases "prec < dsub high low")
    case True
    define mid where "mid = ddiv (dadd low high) 2"
    have m: "low < mid" "mid < high"
      using midpoint_inside(3,4) [OF prec _ _ _ _ True] Suc.prems(1-3) unfolding mid_def by simp_all
    from True Suc.prems(4) obtain b where b: "prof mid = Inr b"
      by (cases "prof mid") (auto simp: mid_def)
    show ?thesis
    proof (cases b)
      case True
      with \<open>prec < dsub high low\<close> b Suc.prems(4)
      have s: "be_search prof prec n low mid = Some (Inr r)" by (simp add: mid_def)
      have "low \<le> mid" "mid \<le> 10 ^ 20" using m Suc.prems(3) by simp_all
      from Suc.IH [OF Suc.prems(1) this s] b True show ?thesis by auto
    next
      case False
      with \<open>prec < dsub high low\<close> b Suc.prems(4)
      have s: "be_search prof prec n mid high = Some (Inr r)" by (simp add: mid_def)
      have "0 \<le> mid" "mid \<le> high" using m Suc.prems(1) by simp_all
      from Suc.IH [OF this Suc.prems(3) s] obtain l where
        "r = high \<or> prof r = Inr True" "l = mid \<or> prof l = Inr False" "mid \<le> l" "l \<le> r" "dsub r l \<le> prec"
        by blast
      with b False m(1) show ?thesis by (intro conjI exI [of _ l]) auto
    qed
  next
    case False
    with Suc.prems show ?thesis by auto
  qed
qed simp

lemma be_search_enough:
  assumes prec: "1 / 100 \<le> prec"
  shows "0 \<le> low \<Longrightarrow> low \<le> 10 ^ 20 \<Longrightarrow> 0 \<le> high \<Longrightarrow> high \<le> 10 ^ 20 \<Longrightarrow>
     high - low \<le> (3 / 2) ^ n / 200 \<Longrightarrow> \<exists>r. be_search prof prec (Suc n) low high = Some r"
proof (induction n arbitrary: low high)
  case 0
  have "dsub high low \<le> 1 / 100"
    unfolding dsub_def
  proof (rule decr.r_le)
    show "dec_rep (1 / 100)"
      unfolding dec_rep_def representable_def
      by (rule exI [of _ 1], rule exI [of _ "- 2"]) (simp add: power_int_minus)
  qed (use "0.prems" in simp)
  with prec show ?case by simp
next
  case (Suc n)
  define mid where "mid = ddiv (dadd low high) 2"
  note m = midpoint [OF Suc.prems(1-4), folded mid_def]
  show ?case
  proof (cases "prec < dsub high low")
    case True
    have "\<bar>mid - (low + high) / 2\<bar> \<le> (high - low) / 6"
      using midpoint_inside(2) [OF prec Suc.prems(1-4) True] by (simp add: mid_def)
    then have "mid - low \<le> 2 / 3 * (high - low)" "high - mid \<le> 2 / 3 * (high - low)"
      unfolding abs_le_iff by (simp_all add: field_simps)
    moreover have "2 / 3 * (high - low) \<le> (3 / 2) ^ n / 200" using Suc.prems(5) by simp
    ultimately have "mid - low \<le> (3 / 2) ^ n / 200" "high - mid \<le> (3 / 2) ^ n / 200" by linarith+
    with Suc.IH Suc.prems m(2,3) have ex: "\<exists>r. be_search prof prec (Suc n) low mid = Some r"
      "\<exists>r. be_search prof prec (Suc n) mid high = Some r" by blast+
    show ?thesis
      using ex True by (subst be_search.simps(2)) (auto simp: Let_def mid_def [symmetric] simp del: be_search.simps split: sum.splits)
  next
    case False
    then show ?thesis by simp
  qed
qed

section \<open>What a successful calculation returns\<close>

lemma calculate_Inr:
  "calculate cfg i category = Inr out \<Longrightarrow>
     \<exists>t. fee_totals_of cfg i category = Inr t
       \<and> total_revenue out = revenue_of i \<and> total_cost out = total_cost_of i t
       \<and> cost_breakdown out = fee_breakdown i t
       \<and> gross_profit out = dsub (revenue_of i) (supplier_cost i)
       \<and> net_profit out = dsub (revenue_of i) (total_cost_of i t)
       \<and> quantize round_he 2 (simple_break_even i t) = Inr (break_even_price out)
       \<and> is_profitable out = (0 < net_profit out) \<and> break_even_quantity out = 1"
  by (auto simp: calculate_def Let_def result_simps break_even_qty_def split: if_splits)

end
