(* ===== verification/ProfitExact.thy ===== *)
theory ProfitExact
  imports Profit
begin

text \<open>
  The accounting of the profit engine. On inputs in whole cents and of bounded size no
  \<open>Decimal\<close> operation of the calculation rounds (apart from the cents of each fee), so that
  the returned totals satisfy the exact equations; and the properties of the engine.
\<close>

section \<open>Where the arithmetic is exact\<close>

text \<open>
  Prices and costs in whole cents up to a million, percentages with at most three decimals,
  quantities up to a million: no operation of the calculation has to round, apart from the
  cents of the fees.
\<close>

definition amount_ok :: "rat \<Rightarrow> bool" where
  "amount_ok x \<longleftrightarrow> 0 \<le> x \<and> small 2 (10 ^ 6) x"

definition pct_ok :: "rat \<Rightarrow> bool" where
  "pct_ok x \<longleftrightarrow> 0 \<le> x \<and> small 3 100 x"

definition config_small :: "profit_config \<Rightarrow> bool" where
  "config_small cfg \<longleftrightarrow>
     pct_ok (default_referral_fee_percent (pc_fees cfg))
     \<and> amount_ok (default_referral_fee_min (pc_fees cfg))
     \<and> amount_ok (large_standard_fulfillment (pc_fees cfg))
     \<and> (\<forall>s \<in> set (category_schedules cfg).
          pct_ok (fs_referral_fee_percent s) \<and> amount_ok (fs_referral_fee_min s))"

definition input_small :: "profit_input \<Rightarrow> bool" where
  "input_small i \<longleftrightarrow>
     profit_input_ok i \<and> quantity i \<le> 10 ^ 6
     \<and> amount_ok (amazon_price i) \<and> amount_ok (supplier_price i) \<and> amount_ok (shipping_cost i)
     \<and> amount_ok (prep_cost i) \<and> amount_ok (other_costs i) \<and> amount_ok (closing_fee i)
     \<and> amount_ok (coupon_discount i)
     \<and> pred_option pct_ok (referral_fee_percent i) \<and> pred_option amount_ok (referral_fee_min i)
     \<and> pred_option amount_ok (fba_fulfillment_fee i) \<and> pred_option amount_ok (fba_storage_fee i)
     \<and> pct_ok (sales_tax_percent i) \<and> pct_ok (cashback_percent i)
     \<and> pct_ok (credit_card_rewards_percent i) \<and> pct_ok (supplier_discount_percent i)
     \<and> pred_option amount_ok (capital_invested i)"

lemma amount_0 [simp]: "amount_ok 0" and pct_0 [simp]: "pct_ok 0"
  by (simp_all add: amount_ok_def pct_ok_def)

lemma amount_or_num: "pred_option amount_ok x \<Longrightarrow> amount_ok d \<Longrightarrow> amount_ok (or_num x d)"
  by (cases x) simp_all

lemma small_qty: "1 \<le> q \<Longrightarrow> q \<le> 10 ^ 6 \<Longrightarrow> small 0 (10 ^ 6) (of_int q)"
  using of_int_le_iff [of q "10 ^ 6", where ?'a = rat] by (simp add: small_def)

text \<open>Products of an amount, a quantity and a percentage are exact.\<close>

lemma times_qty:
  assumes "0 \<le> x" "small k B x" "k \<le> 7" "B \<le> 10 ^ 7" "1 \<le> q" "q \<le> 10 ^ 6"
  shows "dmul x (of_int q) = x * of_int q" and "small k (B * 10 ^ 6) (x * of_int q)"
    and "0 \<le> x * of_int q"
proof -
  show s: "small k (B * 10 ^ 6) (x * of_int q)"
    using small_mult [OF assms(2) small_qty [OF assms(5,6)]] by simp
  have "(10 :: rat) ^ 21 \<le> 10 ^ (28 - k)" using assms(3) by (intro power_increasing) auto
  then have "B * 10 ^ 6 \<le> 10 ^ (28 - k)" using assms(4) by simp
  with s assms(3) show "dmul x (of_int q) = x * of_int q"
    unfolding dmul_def by (intro dec_small) auto
  show "0 \<le> x * of_int q" using assms by simp
qed

lemma times_pct:
  assumes "0 \<le> x" "small 2 (10 ^ 12) x" "pct_ok p"
  shows "ddiv (dmul x p) 100 = x * p / 100" and "small 7 (10 ^ 12) (x * p / 100)"
    and "0 \<le> x * p / 100"
proof -
  have "small (2 + 3) (10 ^ 12 * 100) (x * p)"
    using assms by (intro small_mult) (auto simp: pct_ok_def)
  then have s5: "small 5 (10 ^ 14) (x * p)" by simp
  then have e: "dmul x p = x * p" unfolding dmul_def by (rule dec_small) auto
  from small_div100 [OF s5] show s7: "small 7 (10 ^ 12) (x * p / 100)" by simp
  then have "dec (x * p / 100) = x * p / 100" by (rule dec_small) auto
  then show "ddiv (dmul x p) 100 = x * p / 100" by (simp add: ddiv_def e)
  show "0 \<le> x * p / 100" using assms by (simp add: pct_ok_def)
qed

lemma money_cents: "\<bar>x\<bar> \<le> 10 ^ 25 \<Longrightarrow> money x = Inr (cents x)"
  by (simp add: money_def quantize_cents)

lemma referral_ok:
  assumes "input_small i" "config_small cfg" and e: "engine_referral_fee cfg i category = (p, m)"
  shows "pct_ok p \<and> amount_ok m"
proof (cases "referral_fee_percent i")
  case None
  with e have "get_referral_fee cfg category = (p, m)" by (simp add: engine_referral_fee_def)
  with get_referral_fee_cases [of cfg category] assms(2) show ?thesis
    by (auto simp: config_small_def)
next
  case (Some q)
  with e assms(1) show ?thesis
    by (auto simp: engine_referral_fee_def input_small_def intro: amount_or_num)
qed

definition fee_bound :: rat where
  "fee_bound = 10 ^ 13"

text \<open>What holds of the fee totals of a small input.\<close>

definition totals_exact :: "profit_input \<Rightarrow> fee_totals \<Rightarrow> bool" where
  "totals_exact i t \<longleftrightarrow>
     (\<forall>x \<in> {t_referral t, t_fba t, t_storage t, t_closing t, t_shipping t, t_prep t, t_other t,
            t_tax t, t_coupon t, t_cashback t, t_rewards t}. 0 \<le> x \<and> small 2 fee_bound x)
     \<and> 0 \<le> t_fba_unit t \<and> 0 \<le> t_storage_unit t
     \<and> (t_fba_unit t = 0 \<longrightarrow> t_fba t = 0) \<and> (t_storage_unit t = 0 \<longrightarrow> t_storage t = 0)
     \<and> (closing_fee i = 0 \<longrightarrow> t_closing t = 0) \<and> (shipping_cost i = 0 \<longrightarrow> t_shipping t = 0)
     \<and> (prep_cost i = 0 \<longrightarrow> t_prep t = 0) \<and> (other_costs i = 0 \<longrightarrow> t_other t = 0)
     \<and> (sales_tax_percent i = 0 \<longrightarrow> t_tax t = 0) \<and> (coupon_discount i = 0 \<longrightarrow> t_coupon t = 0)
     \<and> (cashback_percent i = 0 \<longrightarrow> t_cashback t = 0)
     \<and> (credit_card_rewards_percent i = 0 \<longrightarrow> t_rewards t = 0)
     \<and> pct_ok (t_ref_pct t) \<and> amount_ok (t_ref_min t)"

lemma cents_small: "0 \<le> x \<Longrightarrow> \<bar>x\<bar> \<le> 10 ^ 12 \<Longrightarrow> 0 \<le> cents x \<and> small 2 fee_bound (cents x)"
  using small_cents [of x "10 ^ 12"] unfolding fee_bound_def
  by (auto intro: cents_nonneg small_mono)

lemma unit_fee:
  assumes x: "0 \<le> x" "\<bar>x\<bar> \<le> 10 ^ 6" and q: "1 \<le> q" "q \<le> 10 ^ 6"
  shows "money x = Inr (cents x)" and "0 \<le> dmul (cents x) (of_int q)"
    and "small 2 fee_bound (dmul (cents x) (of_int q))"
proof -
  show "money x = Inr (cents x)" using x by (intro money_cents) simp
  note c = small_cents [OF x(2)]
  have "10 ^ 6 + 1 \<le> (10 ^ 7 :: rat)" by simp
  note tq = times_qty [OF cents_nonneg [OF x(1)] c _ this q]
  show "0 \<le> dmul (cents x) (of_int q)" "small 2 fee_bound (dmul (cents x) (of_int q))"
    using tq unfolding fee_bound_def by (auto intro: small_mono)
qed

lemma qty_fee:
  assumes "amount_ok x" and "1 \<le> q" "q \<le> 10 ^ 6"
  shows "money (dmul x (of_int q)) = Inr (cents (x * of_int q))"
    and "0 \<le> cents (x * of_int q)" and "small 2 fee_bound (cents (x * of_int q))"
proof -
  from assms(1) have x: "0 \<le> x" "small 2 (10 ^ 6) x" by (auto simp: amount_ok_def)
  note tq = times_qty [OF x _ _ assms(2,3)]
  have b: "\<bar>x * of_int q\<bar> \<le> 10 ^ 12" "0 \<le> x * of_int q"
    using tq(2,3) by (auto simp: small_def)
  then show "money (dmul x (of_int q)) = Inr (cents (x * of_int q))"
    using tq(1) by (simp add: money_cents)
  show "0 \<le> cents (x * of_int q)" "small 2 fee_bound (cents (x * of_int q))"
    using cents_small [OF b(2,1)] by simp_all
qed

lemma pct_fee:
  assumes "0 \<le> x" "small 2 (10 ^ 12) x" "pct_ok p"
  shows "money (ddiv (dmul x p) 100) = Inr (cents (x * p / 100))"
    and "0 \<le> cents (x * p / 100)" and "small 2 fee_bound (cents (x * p / 100))"
proof -
  note tp = times_pct [OF assms]
  have b: "\<bar>x * p / 100\<bar> \<le> 10 ^ 12" using tp(2) by (simp add: small_def)
  then show "money (ddiv (dmul x p) 100) = Inr (cents (x * p / 100))"
    unfolding tp(1) by (intro money_cents) simp
  show "0 \<le> cents (x * p / 100)" "small 2 fee_bound (cents (x * p / 100))"
    using cents_small [OF tp(3) b] by simp_all
qed

lemma fee_totals_small:
  assumes i: "input_small i" and c: "config_small cfg"
  shows "\<exists>t. fee_totals_of cfg i category = Inr t \<and> totals_exact i t"
proof -
  obtain p m where pm: "engine_referral_fee cfg i category = (p, m)" by fastforce
  note ref = referral_ok [OF i c pm]
  define q where "q = quantity i"
  have q: "1 \<le> q" "q \<le> 10 ^ 6" using i by (auto simp: input_small_def profit_input_ok_def q_def)
  have pr: "0 \<le> amazon_price i" "small 2 (10 ^ 6) (amazon_price i)"
    using i by (auto simp: input_small_def amount_ok_def)
  have rev: "revenue_of i = amazon_price i * of_int q" "small 2 (10 ^ 12) (revenue_of i)"
    "0 \<le> revenue_of i"
    using times_qty [OF pr _ _ q] by (simp_all add: revenue_of_def q_def)
  note qf = qty_fee [OF _ q] and pf = pct_fee [OF rev(3,2)]
  define x where "x = max (ddiv (dmul (amazon_price i) p) 100) m"
  have "ddiv (dmul (amazon_price i) p) 100 = amazon_price i * p / 100"
    using pr ref by (intro times_pct) (auto intro: small_mono)
  moreover have "amazon_price i * p / 100 \<le> 10 ^ 6 * 100 / 100"
    using pr ref by (intro divide_right_mono mult_mono) (auto simp: small_def pct_ok_def)
  ultimately have x: "0 \<le> x" "\<bar>x\<bar> \<le> 10 ^ 6"
    using pr ref unfolding x_def by (auto simp: amount_ok_def pct_ok_def small_def max_def)
  define f where "f = or_num (fba_fulfillment_fee i) (large_standard_fulfillment (pc_fees cfg))"
  define s where "s = or_num (fba_storage_fee i) 0"
  have "amount_ok f" "amount_ok s"
    unfolding f_def s_def using i c
    by (auto simp: input_small_def config_small_def intro: amount_or_num)
  then have f: "0 \<le> f" "\<bar>f\<bar> \<le> 10 ^ 6" and s: "0 \<le> s" "\<bar>s\<bar> \<le> 10 ^ 6"
    unfolding amount_ok_def small_def by auto
  note uf = unit_fee [OF x q] unit_fee [OF f q] unit_fee [OF s q]
  have am: "amount_ok (closing_fee i)" "amount_ok (shipping_cost i)" "amount_ok (prep_cost i)"
    "amount_ok (other_costs i)" "amount_ok (coupon_discount i)"
    and pc: "pct_ok (sales_tax_percent i)" "pct_ok (cashback_percent i)"
    "pct_ok (credit_card_rewards_percent i)"
    using i by (auto simp: input_small_def)
  show ?thesis
    unfolding fee_totals_of_def Let_def pm prod.case x_def [symmetric] f_def [symmetric]
      s_def [symmetric] q_def [symmetric] uf qf(1) [OF am(1)] qf(1) [OF am(2)] qf(1) [OF am(3)]
      qf(1) [OF am(4)] qf(1) [OF am(5)] pf(1) [OF pc(1)] pf(1) [OF pc(2)] pf(1) [OF pc(3)]
      bindR.simps
    by (rule exI, rule conjI, rule refl)
       (simp add: totals_exact_def uf(2,3,5,6,8,9) qf(2,3) am pf(2,3) pc ref
          cents_nonneg [OF f(1)] cents_nonneg [OF s(1)])
qed

text \<open>The totals, exactly.\<close>

lemma totals_small:
  assumes "totals_exact i t"
  shows "small 2 (10 ^ 13) (t_referral t)" "small 2 (10 ^ 13) (t_fba t)"
    "small 2 (10 ^ 13) (t_storage t)" "small 2 (10 ^ 13) (t_closing t)"
    "small 2 (10 ^ 13) (t_shipping t)" "small 2 (10 ^ 13) (t_prep t)"
    "small 2 (10 ^ 13) (t_other t)" "small 2 (10 ^ 13) (t_tax t)" "small 2 (10 ^ 13) (t_coupon t)"
    "small 2 (10 ^ 13) (t_cashback t)" "small 2 (10 ^ 13) (t_rewards t)"
  using assms unfolding totals_exact_def fee_bound_def by blast+

lemma supplier_cost_exact:
  assumes "input_small i"
  shows "effective_cost i = supplier_price i * (1 - supplier_discount_percent i / 100)"
    and "supplier_cost i
      = supplier_price i * (1 - supplier_discount_percent i / 100) * of_int (quantity i)"
    and "0 \<le> effective_cost i" and "0 \<le> supplier_cost i"
    and "small 7 (10 ^ 7) (effective_cost i)" and "small 7 (10 ^ 13) (supplier_cost i)"
proof -
  define d where "d = supplier_discount_percent i"
  have d: "0 \<le> d" "d \<le> 100" "small 3 100 d" and c: "0 \<le> supplier_price i"
    "small 2 (10 ^ 6) (supplier_price i)" and q: "1 \<le> quantity i" "quantity i \<le> 10 ^ 6"
    using assms by (auto simp: input_small_def pct_ok_def amount_ok_def d_def profit_input_ok_def
        percent_ok_def)
  have d5: "small 5 1 (d / 100)" using small_div100 [OF d(3)] by simp
  have "dec (d / 100) = d / 100" by (rule dec_small [OF d5]) auto
  then have e1: "ddiv d 100 = d / 100" by (simp add: ddiv_def)
  have one: "small 5 1 1" by (simp add: small_def)
  have e2: "dsub 1 (d / 100) = 1 - d / 100" by (rule dsub_small [OF one d5]) auto
  have "small (2 + 5) (10 ^ 6 * (1 + 1)) (supplier_price i * (1 - d / 100))"
    by (rule small_mult [OF c(2) small_diff [OF one d5]])
  then have s7: "small 7 (2 * 10 ^ 6) (supplier_price i * (1 - d / 100))" by simp
  then have "dmul (supplier_price i) (1 - d / 100) = supplier_price i * (1 - d / 100)"
    unfolding dmul_def by (rule dec_small) auto
  then have eff: "effective_cost i = supplier_price i * (1 - d / 100)"
    by (simp add: effective_cost_def e1 e2 flip: d_def)
  have nn: "0 \<le> supplier_price i * (1 - d / 100)" using c d by simp
  note tq = times_qty [OF nn s7 _ _ q]
  show "effective_cost i = supplier_price i * (1 - supplier_discount_percent i / 100)"
    using eff by (simp add: d_def)
  show "supplier_cost i
      = supplier_price i * (1 - supplier_discount_percent i / 100) * of_int (quantity i)"
    unfolding supplier_cost_def eff by (simp add: tq(1) flip: d_def)
  show "0 \<le> effective_cost i" "small 7 (10 ^ 7) (effective_cost i)"
    unfolding eff using nn s7 by (auto intro: small_mono)
  have sc: "supplier_cost i = supplier_price i * (1 - d / 100) * of_int (quantity i)"
    unfolding supplier_cost_def eff by (simp add: tq(1))
  show "0 \<le> supplier_cost i" "small 7 (10 ^ 13) (supplier_cost i)"
    unfolding sc using tq(2,3) by (auto intro: small_mono)
qed

lemma amazon_fees_exact:
  assumes "totals_exact i t"
  shows "amazon_fees t = t_referral t + t_fba t + t_storage t + t_closing t"
    and "small 7 (10 ^ 14) (amazon_fees t)"
proof -
  note s = totals_small(1-4) [OF assms]
  note s2 = small_add [OF s(1,2)] note s3 = small_add [OF s2 s(3)] note s4 = small_add [OF s3 s(4)]
  have "dadd (t_referral t) (t_fba t) = t_referral t + t_fba t"
    by (rule dadd_small [OF s(1,2)]) auto
  moreover have "dadd (t_referral t + t_fba t) (t_storage t)
      = t_referral t + t_fba t + t_storage t"
    by (rule dadd_small [OF s2 s(3)]) auto
  moreover have "dadd (t_referral t + t_fba t + t_storage t) (t_closing t)
      = t_referral t + t_fba t + t_storage t + t_closing t"
    by (rule dadd_small [OF s3 s(4)]) auto
  ultimately show e: "amazon_fees t = t_referral t + t_fba t + t_storage t + t_closing t"
    by (simp add: amazon_fees_def)
  show "small 7 (10 ^ 14) (amazon_fees t)"
    unfolding e by (rule small_mono [OF s4]) auto
qed

definition exact_cost :: "profit_input \<Rightarrow> fee_totals \<Rightarrow> rat" where
  "exact_cost i t = supplier_cost i + t_shipping t + t_prep t + t_other t
     + (t_referral t + t_fba t + t_storage t + t_closing t) + t_tax t + t_coupon t
     - (t_cashback t + t_rewards t)"

lemma total_cost_exact:
  assumes i: "input_small i" and t: "totals_exact i t"
  shows "total_cost_of i t = exact_cost i t" and "small 7 (10 ^ 15) (exact_cost i t)"
proof -
  note ts = totals_small(5-11) [OF t, THEN small_mono [where k = 7 and B = "10 ^ 13"],
    simplified]
  note s0 = supplier_cost_exact(6) [OF i]
  note s1 = small_add [OF s0 ts(1)] note s2 = small_add [OF s1 ts(2)]
  note s3 = small_add [OF s2 ts(3)] note s4 = small_add [OF s3 amazon_fees_exact(2) [OF t]]
  note s5 = small_add [OF s4 ts(4)] note s6 = small_add [OF s5 ts(5)]
  note sv = small_add [OF ts(6,7)] note s7 = small_diff [OF s6 sv]
  have "total_cost_of i t = supplier_cost i + t_shipping t + t_prep t + t_other t + amazon_fees t
      + t_tax t + t_coupon t - (t_cashback t + t_rewards t)"
    unfolding total_cost_of_def
    apply (subst dadd_small [OF s0 ts(1)], simp, simp)
    apply (subst dadd_small [OF s1 ts(2)], simp, simp)
    apply (subst dadd_small [OF s2 ts(3)], simp, simp)
    apply (subst dadd_small [OF s3 amazon_fees_exact(2) [OF t]], simp, simp)
    apply (subst dadd_small [OF s4 ts(4)], simp, simp)
    apply (subst dadd_small [OF s5 ts(5)], simp, simp)
    apply (subst dadd_small [OF ts(6,7)], simp, simp)
    apply (subst dsub_small [OF s6 sv], simp, simp)
    apply (rule refl)
    done
  then show e: "total_cost_of i t = exact_cost i t"
    by (simp add: exact_cost_def amazon_fees_exact(1) [OF t])
  show "small 7 (10 ^ 15) (exact_cost i t)"
    unfolding exact_cost_def amazon_fees_exact(1) [OF t, symmetric]
    by (rule small_mono [OF s7]) auto
qed

lemma revenue_exact:
  assumes "input_small i"
  shows "revenue_of i = amazon_price i * of_int (quantity i)"
    and "small 2 (10 ^ 12) (revenue_of i)" and "1 / 100 \<le> revenue_of i"
proof -
  have p: "0 < amazon_price i" "small 2 (10 ^ 6) (amazon_price i)"
    and q: "1 \<le> quantity i" "quantity i \<le> 10 ^ 6"
    using assms by (auto simp: input_small_def amount_ok_def profit_input_ok_def)
  note tq = times_qty [OF less_imp_le [OF p(1)] p(2) _ _ q]
  show e: "revenue_of i = amazon_price i * of_int (quantity i)"
    and s: "small 2 (10 ^ 12) (revenue_of i)"
    using tq by (simp_all add: revenue_of_def)
  have "0 < revenue_of i" unfolding e using p q by simp
  from small_positive [OF s this] show "1 / 100 \<le> revenue_of i" by simp
qed

lemma net_exact:
  assumes i: "input_small i" and t: "totals_exact i t"
  shows "dsub (revenue_of i) (total_cost_of i t) = revenue_of i - exact_cost i t"
    and "\<bar>revenue_of i - exact_cost i t\<bar> \<le> 10 ^ 16"
proof -
  have r: "small 7 (10 ^ 12) (revenue_of i)"
    using revenue_exact(2) [OF i] by (rule small_mono) auto
  note c = total_cost_exact [OF i t]
  show "dsub (revenue_of i) (total_cost_of i t) = revenue_of i - exact_cost i t"
    unfolding c(1) by (rule dsub_small [OF r c(2)]) auto
  show "\<bar>revenue_of i - exact_cost i t\<bar> \<le> 10 ^ 16"
    using small_mono [OF small_diff [OF r c(2)], of 7 "10 ^ 16"] by (simp add: small_def)
qed

lemma sum_optional_fee:
  "c \<or> a = 0 \<Longrightarrow> sum_list (map fc_amount (if c then [fee n k a d] else [])) = a"
  by (auto simp: fee_def)

lemma pos_or_zero: "0 \<le> (x :: rat) \<Longrightarrow> x = 0 \<longrightarrow> y = 0 \<Longrightarrow> 0 < x \<or> y = 0"
  by (auto simp: less_le)

lemma totals_zero:
  assumes "totals_exact i t"
  shows "0 \<le> t_fba_unit t" "0 \<le> t_storage_unit t"
    "t_fba_unit t = 0 \<longrightarrow> t_fba t = 0" "t_storage_unit t = 0 \<longrightarrow> t_storage t = 0"
    "closing_fee i = 0 \<longrightarrow> t_closing t = 0" "shipping_cost i = 0 \<longrightarrow> t_shipping t = 0"
    "prep_cost i = 0 \<longrightarrow> t_prep t = 0" "other_costs i = 0 \<longrightarrow> t_other t = 0"
    "sales_tax_percent i = 0 \<longrightarrow> t_tax t = 0" "coupon_discount i = 0 \<longrightarrow> t_coupon t = 0"
    "cashback_percent i = 0 \<longrightarrow> t_cashback t = 0"
    "credit_card_rewards_percent i = 0 \<longrightarrow> t_rewards t = 0"
  using assms unfolding totals_exact_def by blast+

lemma breakdown_sum:
  assumes i: "input_small i" and t: "totals_exact i t"
  shows "supplier_cost i + sum_list (map fc_amount (fee_breakdown i t)) = exact_cost i t"
proof -
  have nn: "0 \<le> closing_fee i" "0 \<le> shipping_cost i" "0 \<le> prep_cost i" "0 \<le> other_costs i"
    "0 \<le> sales_tax_percent i" "0 \<le> coupon_discount i" "0 \<le> cashback_percent i"
    "0 \<le> credit_card_rewards_percent i"
    using i by (auto simp: input_small_def profit_input_ok_def percent_ok_def)
  note tz = totals_zero [OF t]
  note z = pos_or_zero [OF tz(1,3)] pos_or_zero [OF tz(2,4)] pos_or_zero [OF nn(1) tz(5)]
    pos_or_zero [OF nn(2) tz(6)] pos_or_zero [OF nn(3) tz(7)] pos_or_zero [OF nn(4) tz(8)]
    pos_or_zero [OF nn(5) tz(9)] pos_or_zero [OF nn(6) tz(10)]
  have "cashback_percent i = 0 \<longrightarrow> dneg (t_cashback t) = 0"
    "credit_card_rewards_percent i = 0 \<longrightarrow> dneg (t_rewards t) = 0"
    using tz(11,12) by auto
  note z' = pos_or_zero [OF nn(7) this(1)] pos_or_zero [OF nn(8) this(2)]
  have neg: "dneg (t_cashback t) = - t_cashback t" "dneg (t_rewards t) = - t_rewards t"
    unfolding dneg_def
    by (rule dec_small [OF small_minus [OF totals_small(10) [OF t]]], simp, simp)
       (rule dec_small [OF small_minus [OF totals_small(11) [OF t]]], simp, simp)
  show ?thesis
    unfolding fee_breakdown_def Let_def map_append sum_list_append
      sum_optional_fee [OF z(1)] sum_optional_fee [OF z(2)] sum_optional_fee [OF z(3)]
      sum_optional_fee [OF z(4)] sum_optional_fee [OF z(5)] sum_optional_fee [OF z(6)]
      sum_optional_fee [OF z(7)] sum_optional_fee [OF z(8)] sum_optional_fee [OF z'(1)]
      sum_optional_fee [OF z'(2)]
    by (simp add: fee_def exact_cost_def neg)
qed

text \<open>The ratios stay far below the limit of \<open>quantize\<close>.\<close>

lemma ratio_bound:
  assumes n: "\<bar>n\<bar> \<le> 10 ^ 16" and d: "1 / 10 ^ 7 \<le> d"
  shows "\<bar>ddiv n d\<bar> \<le> 10 ^ 23" and "\<bar>dmul (ddiv n d) 100\<bar> \<le> 10 ^ 25"
proof -
  have pos: "0 < d" using d by (rule less_le_trans [rotated]) simp
  have "\<bar>n\<bar> / d \<le> 10 ^ 16 / (1 / 10 ^ 7)"
    using n d pos by (intro frac_le) auto
  then have "\<bar>n / d\<bar> \<le> 10 ^ 23" using pos by (simp add: abs_divide)
  then show b: "\<bar>ddiv n d\<bar> \<le> 10 ^ 23" unfolding ddiv_def by (rule dec_abs_le)
  have "\<bar>ddiv n d * 100\<bar> \<le> 10 ^ 25" using b by (simp add: abs_mult)
  then show "\<bar>dmul (ddiv n d) 100\<bar> \<le> 10 ^ 25" unfolding dmul_def by (rule dec_abs_le)
qed

lemma quantize_guarded:
  assumes "c \<Longrightarrow> \<bar>x\<bar> \<le> 10 ^ 25"
  shows "\<exists>y. quantize round_he 2 (if c then x else 0) = Inr y"
  by (rule quantize_he_total) (use assms in auto)

lemma quantize_guarded4:
  assumes "c \<Longrightarrow> \<bar>x\<bar> \<le> 10 ^ 23"
  shows "\<exists>y. quantize round_he 4 (if c then x else 0) = Inr y"
  by (rule quantize_he_total) (use assms in auto)

lemma simple_break_even_bound:
  assumes i: "input_small i" and t: "totals_exact i t"
  shows "\<bar>simple_break_even i t\<bar> \<le> 10 ^ 23"
proof -
  define p where "p = t_ref_pct t"
  define x where "x = sales_tax_percent i"
  have px: "0 \<le> p" "small 3 100 p" "0 \<le> x" "small 3 100 x" "amount_ok (t_ref_min t)"
    using i t by (auto simp: p_def x_def totals_exact_def pct_ok_def input_small_def)
  have am: "small 2 (10 ^ 6) (shipping_cost i)" "small 2 (10 ^ 6) (prep_cost i)"
    "small 2 (10 ^ 6) (other_costs i)" "small 2 (10 ^ 6) (t_ref_min t)"
    using i px(5) by (auto simp: input_small_def amount_ok_def)
  note am7 = am [THEN small_mono [where k = 7 and B = "10 ^ 6"], simplified]
  note e = supplier_cost_exact(5) [OF i]
  note s1 = small_add [OF e am7(1)] note s2 = small_add [OF s1 am7(2)]
  note s3 = small_add [OF s2 am7(3)] note s4 = small_add [OF s3 am7(4)]
  have v: "dadd (dadd (dadd (dadd (effective_cost i) (shipping_cost i)) (prep_cost i))
      (other_costs i)) (t_ref_min t)
    = effective_cost i + shipping_cost i + prep_cost i + other_costs i + t_ref_min t" (is "?v = ?w")
    apply (subst dadd_small [OF e am7(1)], simp, simp)
    apply (subst dadd_small [OF s1 am7(2)], simp, simp)
    apply (subst dadd_small [OF s2 am7(3)], simp, simp)
    apply (subst dadd_small [OF s3 am7(4)], simp, simp)
    apply (rule refl)
    done
  have w: "\<bar>?w\<bar> \<le> 10 ^ 16" using s4 by (auto simp: small_def)
  have p5: "small 5 1 (p / 100)" "small 5 1 (x / 100)"
    using small_div100 [OF px(2)] small_div100 [OF px(4)] by simp_all
  have d: "ddiv p 100 = p / 100" "ddiv x 100 = x / 100"
    unfolding ddiv_def by (rule dec_small [OF p5(1)], simp, simp) (rule dec_small [OF p5(2)], simp, simp)
  have r: "dadd (p / 100) (x / 100) = p / 100 + x / 100"
    by (rule dadd_small [OF p5]) auto
  have one: "small 5 1 1" by (simp add: small_def)
  have dr: "dsub 1 (p / 100 + x / 100) = 1 - (p / 100 + x / 100)"
    by (rule dsub_small [OF one small_add [OF p5]]) auto
  show ?thesis
  proof (cases "p / 100 + x / 100 < 1")
    case True
    have "1 / 10 ^ 5 \<le> 1 - (p / 100 + x / 100)"
      using True by (intro small_positive [OF small_diff [OF one small_add [OF p5]]]) simp
    then have "1 / 10 ^ 7 \<le> 1 - (p / 100 + x / 100)" by simp
    from ratio_bound(1) [OF w this] True show ?thesis
      by (simp add: simple_break_even_def Let_def d r dr v flip: p_def x_def)
  next
    case False
    have "\<bar>?w\<bar> \<le> 10 ^ 23" using w by simp
    with False show ?thesis
      by (simp add: simple_break_even_def Let_def d r v flip: p_def x_def)
  qed
qed

lemma calculate_total:
  assumes i: "input_small i" and t: "totals_exact i t"
    and f: "fee_totals_of cfg i category = Inr t"
  shows "\<exists>out. calculate cfg i category = Inr out"
proof -
  define net where "net = dsub (revenue_of i) (total_cost_of i t)"
  define cap where "cap = or_num (capital_invested i) (dadd (supplier_cost i) (t_shipping t))"
  define cost where "cost = total_cost_of i t"
  have net: "\<bar>net\<bar> \<le> 10 ^ 16" unfolding net_def net_exact(1) [OF i t] by (rule net_exact(2) [OF i t])
  have rev: "1 / 10 ^ 7 \<le> revenue_of i" using revenue_exact(3) [OF i] by simp
  have cost: "0 < cost \<Longrightarrow> 1 / 10 ^ 7 \<le> cost"
    unfolding cost_def total_cost_exact(1) [OF i t]
    by (rule small_positive [OF total_cost_exact(2) [OF i t]])
  note ts = small_mono [OF totals_small(5) [OF t], of 7 "10 ^ 13", simplified]
  note sc = supplier_cost_exact(6) [OF i]
  have "dadd (supplier_cost i) (t_shipping t) = supplier_cost i + t_shipping t"
    by (rule dadd_small [OF sc ts]) auto
  then have d7: "small 7 (10 ^ 14) (dadd (supplier_cost i) (t_shipping t))"
    by simp (rule small_mono [OF small_add [OF sc ts]], simp, simp)
  have "small 7 (10 ^ 14) cap"
  proof (cases "capital_invested i")
    case None
    with d7 show ?thesis by (simp add: cap_def)
  next
    case (Some v)
    with i have "small 2 (10 ^ 6) v" by (simp add: input_small_def amount_ok_def)
    then have "small 7 (10 ^ 14) v" by (rule small_mono) auto
    with Some d7 show ?thesis by (simp add: cap_def)
  qed
  then have cap: "0 < cap \<Longrightarrow> 1 / 10 ^ 7 \<le> cap" by (rule small_positive)
  note rb = ratio_bound [OF net]
  obtain m where m: "quantize round_he 2 (if 0 < revenue_of i then dmul (ddiv net (revenue_of i)) 100 else 0) = Inr m"
    using quantize_guarded [of "0 < revenue_of i"] rb(2) [OF rev] by blast
  obtain r where r: "quantize round_he 2 (if 0 < cap then dmul (ddiv net cap) 100 else 0) = Inr r"
    using quantize_guarded [of "0 < cap"] rb(2) [OF cap] by blast
  obtain k where k: "quantize round_he 2 (if 0 < cost then dmul (ddiv net cost) 100 else 0) = Inr k"
    using quantize_guarded [of "0 < cost"] rb(2) [OF cost] by blast
  obtain b where b: "quantize round_he 2 (simple_break_even i t) = Inr b"
    using quantize_guarded [of True "simple_break_even i t"] simple_break_even_bound [OF i t] by auto
  obtain c where c: "quantize round_he 4 (if 0 < cap then ddiv net cap else 0) = Inr c"
    using quantize_guarded4 [of "0 < cap"] rb(1) [OF cap] by blast
  show ?thesis
    unfolding calculate_def f bindR.simps Let_def
    unfolding cap_def [symmetric] net_def [symmetric]
    unfolding cost_def [symmetric] m r k b c bindR.simps
    by (rule exI, rule refl)
qed

lemma calculate_accounts_total:
  assumes "input_small i" and "config_small cfg"
  shows "\<exists>out. calculate cfg i category = Inr out"
  using fee_totals_small [OF assms] calculate_total [OF assms(1)] by blast

section \<open>Properties\<close>

text \<open>C25: For inputs and fee schedules in whole cents and bounded size, the engine never raises
  and its books balance exactly: revenue is price times quantity, the total cost is the
  discounted supplier cost plus the sum of the itemised fee components (incentives negative),
  and the net profit is revenue minus total cost.\<close>

theorem calculate_accounts:
  assumes "input_small i" and "config_small cfg"
  shows "\<exists>out. calculate cfg i category = Inr out
    \<and> total_revenue out = amazon_price i * of_int (quantity i)
    \<and> total_cost out
        = supplier_price i * (1 - supplier_discount_percent i / 100) * of_int (quantity i)
          + sum_list (map fc_amount (cost_breakdown out))
    \<and> net_profit out = total_revenue out - total_cost out"
proof -
  from fee_totals_small [OF assms] obtain t
    where f: "fee_totals_of cfg i category = Inr t" and t: "totals_exact i t" by blast
  from calculate_total [OF assms(1) t f] obtain out where out: "calculate cfg i category = Inr out" ..
  from calculate_Inr [OF out] f have e: "total_revenue out = revenue_of i"
    "total_cost out = total_cost_of i t" "cost_breakdown out = fee_breakdown i t"
    "net_profit out = dsub (revenue_of i) (total_cost_of i t)"
    by auto
  show ?thesis
    using out revenue_exact(1) [OF assms(1)] breakdown_sum [OF assms(1) t]
      net_exact(1) [OF assms(1) t] total_cost_exact(1) [OF assms(1) t]
      supplier_cost_exact(2) [OF assms(1)]
    by (intro exI [of _ out]) (simp add: e)
qed

lemma default_input_small:
  assumes "0 < price" "amount_ok price" "0 < cost" "amount_ok cost"
  shows "input_small (default_input price cost)"
  using assms by (simp add: input_small_def default_input_def profit_input_ok_def percent_ok_def)

lemma amount_numeral: "(numeral w :: rat) \<le> 10 ^ 6 \<Longrightarrow> amount_ok (numeral w)"
  by (simp add: amount_ok_def small_def)

lemma default_config_small: "config_small DEFAULT_PROFIT_CONFIG"
  by (simp add: config_small_def DEFAULT_PROFIT_CONFIG_def default_fees_def default_schedules_def
      schedule_def amount_ok_def pct_ok_def small_def on_grid_def)

theorem calculate_accounts_witness:
  "\<exists>out. calculate DEFAULT_PROFIT_CONFIG (default_input 30 10) (Some ''Electronics'') = Inr out
    \<and> total_cost out = 10 * (1 - 0 / 100) * of_int 1
          + sum_list (map fc_amount (cost_breakdown out))"
proof -
  have "input_small (default_input 30 10)"
    by (rule default_input_small) (simp_all add: amount_numeral)
  from calculate_accounts [OF this default_config_small, of "Some ''Electronics''"]
  show ?thesis by (auto simp: default_input_def)
qed

text \<open>C26: Whatever the input, a calculation that returns flags the product as profitable exactly
  when its total cost is below its revenue (rounding cannot turn a loss into a profit), and the
  reported break-even quantity is always 1.\<close>

theorem calculate_profitable_iff:
  assumes "calculate cfg i category = Inr out"
  shows "(is_profitable out \<longleftrightarrow> total_cost out < total_revenue out)
    \<and> break_even_quantity out = 1"
  using calculate_Inr [OF assms] by (auto simp: dsub_def decr.r_sub_pos)

theorem calculate_profitable_iff_witness:
  "\<exists>out. calculate DEFAULT_PROFIT_CONFIG (default_input 12 10) None = Inr out
     \<and> (is_profitable out \<longleftrightarrow> total_cost out < total_revenue out) \<and> break_even_quantity out = 1"
proof -
  have "input_small (default_input 12 10)"
    by (rule default_input_small) (simp_all add: amount_numeral)
  from calculate_accounts_total [OF this default_config_small] obtain out
    where "calculate DEFAULT_PROFIT_CONFIG (default_input 12 10) None = Inr out" by blast
  with calculate_profitable_iff [OF this] show ?thesis by blast
qed

text \<open>C27: The break-even search returns within 128 rounds for every supplier price up to 10^19 and
  every precision of a cent or more, whatever the fee configuration. A returned price is the
  upper bound of ten supplier prices or a price at which the engine reports a profit, and a price
  at most the precision below it is the lower bound of a cent or reported as not profitable; that
  price lies between a cent and the result unless the upper bound is itself below a cent.\<close>

theorem find_break_even_price_brackets:
  assumes "0 < supplier_price i" and "supplier_price i \<le> 10 ^ 19" and "1 / 100 \<le> prec"
  shows "\<exists>r. find_break_even_price 128 cfg i category prec = Some r
    \<and> (\<forall>p. r = Inr p \<longrightarrow>
         (p = dmul (supplier_price i) 10 \<or> price_profitable cfg i category p = Inr True)
         \<and> (\<exists>l. (l = 1 / 100 \<or> price_profitable cfg i category l = Inr False)
               \<and> dsub p l \<le> prec \<and> (1 / 100 \<le> dmul (supplier_price i) 10 \<longrightarrow> 1 / 100 \<le> l \<and> l \<le> p)))"
proof -
  define high where "high = dmul (supplier_price i) 10"
  have h: "0 \<le> high" "high \<le> 10 ^ 20"
    unfolding high_def dmul_def
    using assms(1,2) by (simp add: decr.r_nonneg) (rule decr.r_le [OF dec_rep_pow10], use assms in simp)
  have "high - 1 / 100 \<le> (3 / 2) ^ 127 / 200"
  proof -
    have "high - 1 / 100 \<le> 10 ^ 20" using h(2) by simp
    also have "(10 :: rat) ^ 20 \<le> (3 / 2) ^ 127 / 200" by (simp add: power_divide)
    finally show ?thesis .
  qed
  then have "\<exists>r. find_break_even_price (Suc 127) cfg i category prec = Some r"
    unfolding find_break_even_price_def high_def [symmetric]
    using h by (intro be_search_enough [OF assms(3)]) auto
  then obtain r where r: "find_break_even_price 128 cfg i category prec = Some r" by auto
  have "\<forall>p. r = Inr p \<longrightarrow> (p = high \<or> price_profitable cfg i category p = Inr True)
      \<and> (\<exists>l. (l = 1 / 100 \<or> price_profitable cfg i category l = Inr False) \<and> dsub p l \<le> prec
            \<and> (1 / 100 \<le> high \<longrightarrow> 1 / 100 \<le> l \<and> l \<le> p))"
  proof (cases "1 / 100 \<le> high")
    case True
    then show ?thesis
      using r be_search_bracket [OF assms(3) _ True h(2), of "price_profitable cfg i category" 128]
      unfolding find_break_even_price_def high_def [symmetric] by force
  next
    case False
    then show ?thesis
      using r be_search_sound [of "price_profitable cfg i category" prec 128 "1 / 100" high]
      unfolding find_break_even_price_def high_def [symmetric] by blast
  qed
  with r show ?thesis unfolding high_def by blast
qed

theorem find_break_even_price_brackets_witness:
  "\<exists>r. find_break_even_price 128 DEFAULT_PROFIT_CONFIG (default_input 30 10) None (1 / 100) = Some r"
  using find_break_even_price_brackets
    [of "default_input 30 10" "1 / 100" DEFAULT_PROFIT_CONFIG None]
  by (simp add: default_input_def) blast

lemma default_totals:
  assumes "0 < price" "amount_ok price" "amount_ok cost" and "on_grid 8 (price * 15)"
  shows "fee_totals_of DEFAULT_PROFIT_CONFIG (default_input price cost) None =
    Inr \<lparr>t_ref_pct = 15, t_ref_min = 0, t_referral = cents (price * 15 / 100),
         t_fba_unit = 55 / 10, t_fba = 55 / 10, t_storage_unit = 0, t_storage = 0, t_closing = 0,
         t_shipping = 0, t_prep = 0, t_other = 0, t_tax = 0, t_coupon = 0, t_cashback = 0,
         t_rewards = 0\<rparr>"
proof -
  have p: "0 \<le> price" "small 2 (10 ^ 12) price" "pct_ok 15" "price \<le> 10 ^ 6" "small 2 (10 ^ 6) price"
    using assms by (auto simp: amount_ok_def pct_ok_def small_def)
  note tp = times_pct [OF p(1,2,3)]
  have c: "\<bar>price * 15 / 100\<bar> \<le> 10 ^ 6" using p by simp
  have "small 2 (10 ^ 6 + 1) (cents (price * 15 / 100))" by (rule small_cents [OF c])
  then have d: "dec (cents (price * 15 / 100)) = cents (price * 15 / 100)"
    by (rule dec_small) auto
  have m: "money (price * 15 / 100) = Inr (cents (price * 15 / 100))"
    using c by (intro money_cents) simp
  define y where "y = price * 15 / 100"
  have y: "ddiv (dmul price 15) 100 = y" "0 \<le> y" "money y = Inr (cents y)"
    "dmul (cents y) 1 = cents y"
    using tp(1,3) d m by (simp_all add: y_def dmul_def)
  have z: "money 0 = Inr 0" "money (11 / 2) = Inr (11 / 2)"
    using money_cents [of 0] money_cents [of "11 / 2"] by (simp_all add: cents_def)
  have f: "dmul (11 / 2) 1 = 11 / 2"
    unfolding dmul_def by (simp add: dec_literal on_grid_def)
  have mx: "max y 0 = y" using y(2) by simp
  show ?thesis
    unfolding y_def [symmetric]
    by (simp add: fee_totals_of_def Let_def engine_referral_fee_def get_referral_fee_def
        default_input_def DEFAULT_PROFIT_CONFIG_def default_fees_def mx y z f)
qed

text \<open>The closed-form break-even price leaves out the fulfilment fee: for a product bought at
  10 and sold at 30 under the default fees it is 11.76, and selling at 11.76 loses 5.50 a unit.\<close>

theorem break_even_price_omits_fulfilment:
  "\<exists>out out'. calculate DEFAULT_PROFIT_CONFIG (default_input 30 10) None = Inr out
     \<and> break_even_price out = 1176 / 100
     \<and> calculate DEFAULT_PROFIT_CONFIG (default_input (break_even_price out) 10) None = Inr out'
     \<and> net_profit out' = - 550 / 100 \<and> \<not> is_profitable out'"
proof -
  have am: "amount_ok 30" "amount_ok 10" "amount_ok (294 / 25)"
    by (simp_all add: amount_ok_def small_def on_grid_def)
  have i: "input_small (default_input 30 10)" "input_small (default_input (294 / 25) 10)"
    by (rule default_input_small; simp add: am)+
  obtain out out' where out: "calculate DEFAULT_PROFIT_CONFIG (default_input 30 10) None = Inr out"
    and out': "calculate DEFAULT_PROFIT_CONFIG (default_input (294 / 25) 10) None = Inr out'"
    using calculate_accounts_total [OF i(1) default_config_small]
      calculate_accounts_total [OF i(2) default_config_small] by blast
  have t: "fee_totals_of DEFAULT_PROFIT_CONFIG (default_input 30 10) None =
    Inr \<lparr>t_ref_pct = 15, t_ref_min = 0, t_referral = 450 / 100,
         t_fba_unit = 55 / 10, t_fba = 55 / 10, t_storage_unit = 0, t_storage = 0, t_closing = 0,
         t_shipping = 0, t_prep = 0, t_other = 0, t_tax = 0, t_coupon = 0, t_cashback = 0,
         t_rewards = 0\<rparr>"
    by (subst default_totals) (simp_all add: am on_grid_def cents_def)
  have "round_hu (1176 * 15 / 100) = 176" by (rule round_hu_eq) simp
  then have "cents (294 / 25 * 15 / 100) = 176 / 100" by (simp add: cents_def)
  then have t': "fee_totals_of DEFAULT_PROFIT_CONFIG (default_input (294 / 25) 10) None =
    Inr \<lparr>t_ref_pct = 15, t_ref_min = 0, t_referral = 176 / 100,
         t_fba_unit = 55 / 10, t_fba = 55 / 10, t_storage_unit = 0, t_storage = 0, t_closing = 0,
         t_shipping = 0, t_prep = 0, t_other = 0, t_tax = 0, t_coupon = 0, t_cashback = 0,
         t_rewards = 0\<rparr>"
    by (subst default_totals) (simp_all add: am on_grid_def)
  define be where "be = dec (200 / 17)"
  have "\<bar>be - 200 / 17\<bar> \<le> 1 / 10 ^ 6"
    unfolding be_def by (rule order_trans [OF dec_error]) simp
  then have "be \<le> 200 / 17 + 1 / 10 ^ 6" "200 / 17 - 1 / 10 ^ 6 \<le> be"
    unfolding abs_le_iff by linarith+
  then have "\<bar>be * 100 - of_int 1176\<bar> < 1 / 2"
    unfolding abs_less_iff by simp
  then have "round_he (be * 100) = 1176" by (rule round_he_eq)
  moreover have "quantize round_he 2 be = Inr (break_even_price out)"
    using calculate_Inr [OF out] t
    by (auto simp: be_def simple_break_even_def effective_cost_def dmul_def dsub_def ddiv_def
        dadd_def default_input_def dec_literal on_grid_def)
  ultimately have be: "break_even_price out = 294 / 25" by (simp add: quantize_Inr)
  have net: "net_profit out' = - 550 / 100"
  proof -
    have "net_profit out' = dsub (revenue_of (default_input (294 / 25) 10))
        (total_cost_of (default_input (294 / 25) 10) (projr
          (fee_totals_of DEFAULT_PROFIT_CONFIG (default_input (294 / 25) 10) None)))"
      using calculate_Inr [OF out'] by auto
    moreover have "revenue_of (default_input (294 / 25) 10) = 294 / 25"
      "supplier_cost (default_input (294 / 25) 10) = 10"
      unfolding revenue_exact(1) [OF i(2)] supplier_cost_exact(2) [OF i(2)]
      by (simp_all add: default_input_def)
    ultimately show ?thesis
      unfolding t' total_cost_of_def amazon_fees_def dadd_def dsub_def
      by (simp add: dec_literal on_grid_def)
  qed
  have "\<not> is_profitable out'" using calculate_Inr [OF out'] net by auto
  then show ?thesis
    by (intro exI [of _ out] exI [of _ out'] conjI) (simp_all add: out out' be net)
qed

end
