(* ===== verification/SourcingModel.thy ===== *)
theory SourcingModel
  imports Numbers
begin

text \<open>
  The data of the sourcing engine, \<open>app/sourcing/models.py\<close>: levels, weights and thresholds
  with their defaults and field constraints, rule results and scores whose construction is
  validated, evaluations. The dictionary of metrics that the rules read is a map from names to
  Python values.
\<close>

section \<open>Levels\<close>

datatype confidence_level = ConfVeryHigh | ConfHigh | ConfMedium | ConfLow | ConfVeryLow

datatype risk_level = RiskVeryLow | RiskLow | RiskMedium | RiskHigh | RiskVeryHigh

datatype rule_severity = Critical | Major | Minor | Info

text \<open>The order the list \<open>risk_order\<close> of the engine fixes.\<close>

fun risk_rank :: "risk_level \<Rightarrow> nat" where
  "risk_rank RiskVeryLow = 0"
| "risk_rank RiskLow = 1"
| "risk_rank RiskMedium = 2"
| "risk_rank RiskHigh = 3"
| "risk_rank RiskVeryHigh = 4"

lemma risk_rank_inj: "risk_rank a = risk_rank b \<Longrightarrow> a = b"
  by (cases a; cases b) simp_all

instantiation risk_level :: linorder
begin

definition less_eq_risk_level :: "risk_level \<Rightarrow> risk_level \<Rightarrow> bool" where
  "a \<le> b \<longleftrightarrow> risk_rank a \<le> risk_rank b"

definition less_risk_level :: "risk_level \<Rightarrow> risk_level \<Rightarrow> bool" where
  "a < b \<longleftrightarrow> risk_rank a < risk_rank b"

instance
  by intro_classes (auto simp: less_eq_risk_level_def less_risk_level_def intro: risk_rank_inj)

end

fun confidence_rank :: "confidence_level \<Rightarrow> nat" where
  "confidence_rank ConfVeryLow = 0"
| "confidence_rank ConfLow = 1"
| "confidence_rank ConfMedium = 2"
| "confidence_rank ConfHigh = 3"
| "confidence_rank ConfVeryHigh = 4"

lemma confidence_rank_inj: "confidence_rank a = confidence_rank b \<Longrightarrow> a = b"
  by (cases a; cases b) simp_all

instantiation confidence_level :: linorder
begin

definition less_eq_confidence_level :: "confidence_level \<Rightarrow> confidence_level \<Rightarrow> bool" where
  "a \<le> b \<longleftrightarrow> confidence_rank a \<le> confidence_rank b"

definition less_confidence_level :: "confidence_level \<Rightarrow> confidence_level \<Rightarrow> bool" where
  "a < b \<longleftrightarrow> confidence_rank a < confidence_rank b"

instance
  by intro_classes
     (auto simp: less_eq_confidence_level_def less_confidence_level_def intro: confidence_rank_inj)

end

section \<open>Configuration\<close>

record sourcing_weights =
  roi_weight :: rat
  profit_weight :: rat
  sales_weight :: rat
  competition_weight :: rat
  buy_box_weight :: rat
  price_stability_weight :: rat
  inventory_weight :: rat

definition weights_total :: "sourcing_weights \<Rightarrow> rat" where
  "weights_total w =
     dadd (dadd (dadd (dadd (dadd (dadd (roi_weight w) (profit_weight w)) (sales_weight w))
       (competition_weight w)) (buy_box_weight w)) (price_stability_weight w)) (inventory_weight w)"

record sourcing_config =
  weights :: sourcing_weights
  min_roi_percentage :: rat
  target_roi_percentage :: rat
  roi_severity :: rule_severity
  min_net_profit :: rat
  target_net_profit :: rat
  profit_severity :: rule_severity
  min_monthly_sales :: int
  target_monthly_sales :: int
  sales_severity :: rule_severity
  max_new_sellers :: int
  min_new_sellers :: int
  target_new_sellers :: int
  max_fba_percentage :: rat
  competition_severity :: rule_severity
  min_buy_box_win_rate :: rat
  buy_box_severity :: rule_severity
  max_price_volatility :: rat
  price_stability_severity :: rule_severity
  min_days_of_stock :: int
  inventory_severity :: rule_severity
  minimum_opportunity_score :: rat
  critical_rule_fail_threshold :: int

definition default_weights :: sourcing_weights where
  "default_weights =
     \<lparr>roi_weight = 25 / 100, profit_weight = 20 / 100, sales_weight = 15 / 100,
      competition_weight = 15 / 100, buy_box_weight = 10 / 100,
      price_stability_weight = 8 / 100, inventory_weight = 7 / 100\<rparr>"

definition default_sourcing_config :: sourcing_config where
  "default_sourcing_config =
     \<lparr>weights = default_weights,
      min_roi_percentage = 20, target_roi_percentage = 50, roi_severity = Critical,
      min_net_profit = 2, target_net_profit = 10, profit_severity = Critical,
      min_monthly_sales = 300, target_monthly_sales = 2000, sales_severity = Major,
      max_new_sellers = 20, min_new_sellers = 1, target_new_sellers = 5,
      max_fba_percentage = 70, competition_severity = Major,
      min_buy_box_win_rate = 60, buy_box_severity = Minor,
      max_price_volatility = 15, price_stability_severity = Minor,
      min_days_of_stock = 30, inventory_severity = Major,
      minimum_opportunity_score = 40, critical_rule_fail_threshold = 1\<rparr>"

definition unit_ok :: "rat \<Rightarrow> bool" where
  "unit_ok x \<longleftrightarrow> 0 \<le> x \<and> x \<le> 1"

definition weights_ok :: "sourcing_weights \<Rightarrow> bool" where
  "weights_ok w \<longleftrightarrow>
     unit_ok (roi_weight w) \<and> unit_ok (profit_weight w) \<and> unit_ok (sales_weight w)
     \<and> unit_ok (competition_weight w) \<and> unit_ok (buy_box_weight w)
     \<and> unit_ok (price_stability_weight w) \<and> unit_ok (inventory_weight w)"

definition hundred_ok :: "rat \<Rightarrow> bool" where
  "hundred_ok x \<longleftrightarrow> 0 \<le> x \<and> x \<le> 100"

text \<open>The field constraints (\<open>ge\<close>, \<open>le\<close>) of \<open>SourcingConfig\<close>.\<close>

definition sourcing_config_ok :: "sourcing_config \<Rightarrow> bool" where
  "sourcing_config_ok c \<longleftrightarrow>
     weights_ok (weights c)
     \<and> 0 \<le> min_roi_percentage c \<and> 0 \<le> target_roi_percentage c
     \<and> 0 \<le> min_net_profit c \<and> 0 \<le> target_net_profit c
     \<and> 0 \<le> min_monthly_sales c \<and> 0 \<le> target_monthly_sales c
     \<and> 0 \<le> max_new_sellers c \<and> 0 \<le> min_new_sellers c \<and> 0 \<le> target_new_sellers c
     \<and> hundred_ok (max_fba_percentage c) \<and> hundred_ok (min_buy_box_win_rate c)
     \<and> hundred_ok (max_price_volatility c) \<and> 0 \<le> min_days_of_stock c
     \<and> hundred_ok (minimum_opportunity_score c) \<and> 0 \<le> critical_rule_fail_threshold c"

section \<open>The metrics dictionary\<close>

datatype pyval = VInt int | VDec rat | VFloat rat | VNone

type_synonym product_data = "string \<rightharpoonup> pyval"

text \<open>\<open>data.get(key, default)\<close>\<close>

definition dget :: "product_data \<Rightarrow> string \<Rightarrow> pyval \<Rightarrow> pyval" where
  "dget d k v = (case d k of None \<Rightarrow> v | Some x \<Rightarrow> x)"

text \<open>
  The two idioms the rules use: \<open>if isinstance(v, (int, float)): v = Decimal(str(v))\<close>, and
  \<open>if not isinstance(v, (int, Decimal)): v = int(v)\<close>. A value \<open>None\<close> is left alone by the
  first and makes the next comparison raise, and makes the second raise at once.
\<close>

fun as_decimal :: "pyval \<Rightarrow> rat py" where
  "as_decimal (VInt n) = Inr (of_int n)"
| "as_decimal (VDec d) = Inr d"
| "as_decimal (VFloat x) = Inr (float_repr x)"
| "as_decimal VNone = Inl TypeError"

fun as_count :: "pyval \<Rightarrow> pyval py" where
  "as_count (VInt n) = Inr (VInt n)"
| "as_count (VDec d) = Inr (VDec d)"
| "as_count (VFloat x) = Inr (VInt (trunc x))"
| "as_count VNone = Inl TypeError"

text \<open>The number a value denotes.\<close>

fun val :: "pyval \<Rightarrow> rat" where
  "val (VInt n) = of_int n"
| "val (VDec d) = d"
| "val (VFloat x) = x"
| "val VNone = 0"

section \<open>Results\<close>

record rule_result =
  rule_name :: string
  display_name :: string
  severity :: rule_severity
  weight :: rat
  score :: rat
  passed :: bool
  is_critical_failure :: bool
  actual_value :: fstring
  threshold_value :: fstring
  target_value :: fstring
  summary :: fstring
  details :: fstring
  data_quality :: string

definition rule_result_ok :: "rule_result \<Rightarrow> bool" where
  "rule_result_ok r \<longleftrightarrow> unit_ok (weight r) \<and> unit_ok (score r)"

definition validate_rule_result :: "rule_result \<Rightarrow> rule_result py" where
  "validate_rule_result r = (if rule_result_ok r then Inr r else Inl ValidationError)"

record opportunity_score =
  total_score :: rat
  weighted_score :: rat
  rule_results :: "rule_result list"
  critical_failures :: int
  is_viable :: bool

definition validate_opportunity :: "opportunity_score \<Rightarrow> opportunity_score py" where
  "validate_opportunity p =
     (if hundred_ok (total_score p) \<and> unit_ok (weighted_score p) then Inr p
      else Inl ValidationError)"

record ('pid, 'ai) product_evaluation =
  pe_product_id :: 'pid
  pe_asin :: string
  pe_title :: string
  pe_opportunity :: opportunity_score
  pe_confidence :: confidence_level
  pe_risk :: risk_level
  pe_summary :: fstring
  pe_strengths :: "fstring list"
  pe_weaknesses :: "fstring list"
  pe_recommendations :: "fstring list"
  pe_data_points :: int
  pe_quality_note :: fstring
  pe_ai_recommendation :: "'ai option"

record ('pid, 'ai) sourcing_result =
  sr_evaluations :: "('pid, 'ai) product_evaluation list"
  sr_total_evaluated :: nat
  sr_viable_count :: nat
  sr_non_viable_count :: nat
  sr_config :: sourcing_config
  sr_version :: string

lemma default_config_ok: "sourcing_config_ok default_sourcing_config"
  by (simp add: sourcing_config_ok_def default_sourcing_config_def default_weights_def
      weights_ok_def unit_ok_def hundred_ok_def)

lemma default_weights_total: "weights_total default_weights = 1"
  by (simp add: weights_total_def default_weights_def dadd_def dec_literal on_grid_def)

end
