(* ===== verification/SourcingRules.thy ===== *)
theory SourcingRules
  imports SourcingModel
begin

text \<open>
  The seven scoring rules, \<open>app/sourcing/rules.py\<close>. Each \<open>evaluate\<close> method is one
  definition: it reads its metrics from the dictionary, normalises them to a score, decides
  whether the threshold is met, words the result and builds a validated \<open>rule_result\<close>.
\<close>

section \<open>Normalisation\<close>

text \<open>\<open>_normalize_score\<close>\<close>

definition normalize_score :: "rat \<Rightarrow> rat \<Rightarrow> rat \<Rightarrow> rat py" where
  "normalize_score actual minimum target =
     (if actual \<le> 0 then Inr 0
      else if actual < minimum then
        bindR (ddivE actual minimum) (\<lambda>q. quantize round_he 4 (dmul q (5 / 10)))
      else if target \<le> actual then Inr 1
      else bindR (ddivE (dsub actual minimum) (dsub target minimum)) (\<lambda>progress.
             quantize round_he 4 (dadd (5 / 10) (dmul progress (5 / 10)))))"

section \<open>The rules\<close>

definition eval_roi :: "sourcing_config \<Rightarrow> product_data \<Rightarrow> rule_result py" where
  "eval_roi c data =
     bindR (as_decimal (dget data ''roi_percentage'' (VDec 0))) (\<lambda>roi.
     bindR (normalize_score roi (min_roi_percentage c) (target_roi_percentage c)) (\<lambda>s.
     let ok = min_roi_percentage c \<le> roi;
         mn = Fix 0 (min_roi_percentage c); tg = Fix 0 (target_roi_percentage c) in
     validate_rule_result
       \<lparr>rule_name = ''minimum_roi'', display_name = ''Minimum ROI'',
        severity = roi_severity c, weight = roi_weight (weights c), score = s, passed = ok,
        is_critical_failure = (roi_severity c = Critical \<and> \<not> ok),
        actual_value = [Fix 1 roi, Lit ''%''], threshold_value = [mn, Lit ''%''],
        target_value = [tg, Lit ''%''],
        summary =
          (if ok then
             (if target_roi_percentage c \<le> roi
              then [Lit ''Excellent ROI of '', Fix 1 roi, Lit ''% (target: '', tg, Lit ''%)'']
              else [Lit ''Good ROI of '', Fix 1 roi, Lit ''% (minimum: '', mn, Lit ''%)''])
           else [Lit ''ROI of '', Fix 1 roi, Lit ''% is below minimum of '', mn, Lit ''%'']),
        details =
          [Lit ''ROI measures return on capital invested. At '', Fix 1 roi,
           Lit ''%, each $100 invested returns $'', Fix 1 roi, Lit '' in profit. Target ROI is '',
           tg, Lit ''% for a perfect score.''],
        data_quality = ''Calculated from latest Amazon price and supplier cost data''\<rparr>))"

definition eval_profit :: "sourcing_config \<Rightarrow> product_data \<Rightarrow> rule_result py" where
  "eval_profit c data =
     bindR (as_decimal (dget data ''net_profit'' (VDec 0))) (\<lambda>net.
     bindR (normalize_score net (min_net_profit c) (target_net_profit c)) (\<lambda>s.
     let ok = min_net_profit c \<le> net;
         mn = Fix 2 (min_net_profit c); tg = Fix 2 (target_net_profit c) in
     validate_rule_result
       \<lparr>rule_name = ''minimum_profit'', display_name = ''Minimum Profit'',
        severity = profit_severity c, weight = profit_weight (weights c), score = s, passed = ok,
        is_critical_failure = (profit_severity c = Critical \<and> \<not> ok),
        actual_value = [Lit ''$'', Fix 2 net], threshold_value = [Lit ''$'', mn],
        target_value = [Lit ''$'', tg],
        summary =
          (if ok then
             (if target_net_profit c \<le> net
              then [Lit ''Strong profit of $'', Fix 2 net, Lit ''/unit (target: $'', tg, Lit '')'']
              else [Lit ''Profit of $'', Fix 2 net, Lit ''/unit meets minimum of $'', mn])
           else [Lit ''Profit of $'', Fix 2 net, Lit ''/unit is below minimum of $'', mn]),
        details =
          [Lit ''Net profit per unit after all costs including Amazon fees, shipping, and cost of goods. At $'',
           Fix 2 net, Lit ''/unit, selling 1000 units yields $'', Fix 2 (dmul net 1000),
           Lit '' total profit.''],
        data_quality = ''Calculated from latest price, cost, and fee data''\<rparr>))"

text \<open>
  The sales rule multiplies the sales by the float of the profit for its text, which raises for
  a \<open>Decimal\<close> number of sales and for a missing profit.
\<close>

fun as_float :: "pyval \<Rightarrow> rat py" where
  "as_float (VInt n) = Inr (fl (of_int n))"
| "as_float (VDec d) = Inr (fl d)"
| "as_float (VFloat x) = Inr x"
| "as_float VNone = Inl TypeError"

fun int_times_float :: "pyval \<Rightarrow> rat \<Rightarrow> rat py" where
  "int_times_float (VInt n) x = Inr (fl (fl (of_int n) * x))"
| "int_times_float v x = Inl TypeError"

definition eval_sales :: "sourcing_config \<Rightarrow> product_data \<Rightarrow> rule_result py" where
  "eval_sales c data =
     bindR (as_count (dget data ''estimated_monthly_sales'' (VInt 0))) (\<lambda>sales.
     let n = val sales; np = dget data ''net_profit'' (VInt 0) in
     bindR (normalize_score n (of_int (min_monthly_sales c)) (of_int (target_monthly_sales c)))
       (\<lambda>s.
     bindR (as_float np) (\<lambda>npf.
     bindR (int_times_float sales npf) (\<lambda>potential.
     let ok = of_int (min_monthly_sales c) \<le> n;
         daily = (if 0 < n then fl (n / 30) else 0);
         mn = Grp (of_int (min_monthly_sales c)); tg = Grp (of_int (target_monthly_sales c)) in
     validate_rule_result
       \<lparr>rule_name = ''minimum_sales'', display_name = ''Minimum Sales Volume'',
        severity = sales_severity c, weight = sales_weight (weights c), score = s, passed = ok,
        is_critical_failure = (sales_severity c = Critical \<and> \<not> ok),
        actual_value = [Grp n, Lit ''/month''], threshold_value = [mn, Lit ''/month''],
        target_value = [tg, Lit ''/month''],
        summary =
          (if ok then
             (if of_int (target_monthly_sales c) \<le> n
              then [Lit ''High demand: ~'', Grp n, Lit ''/month (target: '', tg, Lit '')'']
              else [Lit ''Moderate demand: ~'', Grp n, Lit ''/month (minimum: '', mn, Lit '')''])
           else [Lit ''Low demand: ~'', Grp n, Lit ''/month is below minimum of '', mn]),
        details =
          [Lit ''Estimated '', Grp n, Lit '' units sold per month (~'', Fix 0 daily,
           Lit ''/day). At $'', Fix 2 (val np), Lit '' profit/unit, this represents ~$'',
           GrpFix 0 potential, Lit ''/month in potential profit.''],
        data_quality = ''Estimated from Keepa sales data (may vary by season)''\<rparr>))))"

text \<open>\<open>new_sellers - config.target_new_sellers\<close>: exact on integers, rounded on \<open>Decimal\<close>s.\<close>

fun count_minus :: "pyval \<Rightarrow> int \<Rightarrow> rat" where
  "count_minus (VDec d) t = dsub d (of_int t)"
| "count_minus v t = val v - of_int t"

text \<open>The two parts of the competition score.\<close>

definition seller_count_score :: "sourcing_config \<Rightarrow> pyval \<Rightarrow> rat py" where
  "seller_count_score c sellers =
     bindR (normalize_score (val sellers) (of_int (min_new_sellers c))
              (of_int (target_new_sellers c))) (\<lambda>s.
     if of_int (target_new_sellers c) < val sellers then
       (let excess = count_minus sellers (target_new_sellers c);
            max_excess = max (max_new_sellers c - target_new_sellers c) 1;
            over_penalty = min (ddiv excess (of_int max_excess)) 1 in
        Inr (dmul (dsub 1 over_penalty) s))
     else Inr s)"

definition fba_percentage :: "pyval \<Rightarrow> pyval \<Rightarrow> rat" where
  "fba_percentage sellers fba =
     (if 0 < val sellers then dmul (ddiv (val fba) (val sellers)) 100 else 0)"

definition fba_saturation_score :: "sourcing_config \<Rightarrow> rat \<Rightarrow> rat py" where
  "fba_saturation_score c fba_pct =
     (if max_fba_percentage c < fba_pct then
        bindR (ddivE (dsub fba_pct (max_fba_percentage c)) (dsub 100 (max_fba_percentage c)))
          (\<lambda>fba_excess. Inr (dsub 1 fba_excess))
      else Inr 1)"

definition eval_competition :: "sourcing_config \<Rightarrow> product_data \<Rightarrow> rule_result py" where
  "eval_competition c data =
     bindR (as_count (dget data ''new_seller_count'' (VInt 0))) (\<lambda>sellers.
     bindR (as_count (dget data ''fba_seller_count'' (VInt 0))) (\<lambda>fba.
     let n = val sellers; pct = fba_percentage sellers fba in
     bindR (seller_count_score c sellers) (\<lambda>cs.
     bindR (fba_saturation_score c pct) (\<lambda>fs.
     bindR (quantize round_he 4 (dadd (dmul cs (7 / 10)) (dmul fs (3 / 10)))) (\<lambda>s.
     let ok = n \<le> of_int (max_new_sellers c) \<and> pct \<le> max_fba_percentage c;
         mx = Num (of_int (max_new_sellers c)); mf = Fix 0 (max_fba_percentage c) in
     validate_rule_result
       \<lparr>rule_name = ''competition'', display_name = ''Competition Level'',
        severity = competition_severity c, weight = competition_weight (weights c),
        score = s, passed = ok,
        is_critical_failure = (competition_severity c = Critical \<and> \<not> ok),
        actual_value = [Num n, Lit '' sellers ('', Fix 0 pct, Lit ''% FBA)''],
        threshold_value = [Uni 8804, mx, Lit '' sellers, '', Uni 8804, mf, Lit ''% FBA''],
        target_value = [Num (of_int (target_new_sellers c)), Lit '' sellers''],
        summary =
          (if ok then
             [Lit ''Healthy competition: '', Num n, Lit '' sellers ('', Fix 0 pct, Lit ''% FBA)'']
           else if of_int (max_new_sellers c) < n then
             [Lit ''High competition: '', Num n, Lit '' sellers exceeds limit of '', mx]
           else
             [Lit ''High FBA saturation: '', Fix 0 pct, Lit ''% FBA exceeds limit of '', mf,
              Lit ''%'']),
        details =
          [Num n, Lit '' new-condition sellers, '', Num (val fba), Lit '' FBA sellers ('',
           Fix 0 pct, Lit ''% FBA saturation). Ideal range: '',
           Num (of_int (min_new_sellers c)), Lit ''-'', Num (of_int (target_new_sellers c)),
           Lit '' sellers with <'', mf, Lit ''% FBA.''],
        data_quality = ''Based on latest seller count snapshot''\<rparr>)))))"

definition eval_buy_box :: "sourcing_config \<Rightarrow> product_data \<Rightarrow> rule_result py" where
  "eval_buy_box c data =
     bindR (as_decimal (dget data ''buy_box_win_rate'' (VDec 50))) (\<lambda>rate.
     bindR (normalize_score rate (min_buy_box_win_rate c) 95) (\<lambda>s.
     let ok = min_buy_box_win_rate c \<le> rate; mn = Fix 0 (min_buy_box_win_rate c) in
     validate_rule_result
       \<lparr>rule_name = ''buy_box_stability'', display_name = ''Buy Box Stability'',
        severity = buy_box_severity c, weight = buy_box_weight (weights c), score = s,
        passed = ok, is_critical_failure = (buy_box_severity c = Critical \<and> \<not> ok),
        actual_value = [Fix 0 rate, Lit ''%''], threshold_value = [Uni 8805, mn, Lit ''%''],
        target_value = [Lit ''95%''],
        summary =
          (if ok then
             [Lit ''Stable Buy Box: ~'', Fix 0 rate, Lit ''% win rate (minimum: '', mn, Lit ''%)'']
           else
             [Lit ''Unstable Buy Box: '', Fix 0 rate, Lit ''% win rate is below '', mn, Lit ''%'']),
        details =
          [Lit ''Buy Box win rate of '', Fix 0 rate, Lit ''% indicates '',
           Lit (if ok then ''stable'' else ''unstable''),
           Lit '' pricing environment. Low win rates suggest aggressive repricing or seller churn.''],
        data_quality = ''Based on Buy Box price history over the analysis window''\<rparr>))"

definition price_stability_score :: "sourcing_config \<Rightarrow> rat \<Rightarrow> rat py" where
  "price_stability_score c cv_pct =
     (if cv_pct \<le> 0 then Inr 1
      else if max_price_volatility c \<le> cv_pct then Inr 0
      else bindR (ddivE cv_pct (max_price_volatility c)) (\<lambda>q. quantize round_he 4 (dsub 1 q)))"

definition eval_price_stability :: "sourcing_config \<Rightarrow> product_data \<Rightarrow> rule_result py" where
  "eval_price_stability c data =
     bindR (as_decimal (dget data ''price_cv'' (VDec 0))) (\<lambda>cv.
     let cv_pct = dmul cv 100 in
     bindR (price_stability_score c cv_pct) (\<lambda>s.
     let ok = cv_pct \<le> max_price_volatility c; mx = Fix 0 (max_price_volatility c) in
     validate_rule_result
       \<lparr>rule_name = ''price_stability'', display_name = ''Price Stability'',
        severity = price_stability_severity c, weight = price_stability_weight (weights c),
        score = s, passed = ok,
        is_critical_failure = (price_stability_severity c = Critical \<and> \<not> ok),
        actual_value = [Fix 1 cv_pct, Lit ''% CV''],
        threshold_value = [Uni 8804, mx, Lit ''% CV''], target_value = [Lit ''0% CV''],
        summary =
          (if ok then
             [Lit ''Stable pricing: CV of '', Fix 1 cv_pct, Lit ''% (threshold: '', mx, Lit ''%)'']
           else
             [Lit ''Volatile pricing: CV of '', Fix 1 cv_pct, Lit ''% exceeds '', mx, Lit ''%'']),
        details =
          [Lit ''Coefficient of Variation (CV) = '', Fix 1 cv_pct,
           Lit ''%. CV measures price dispersion relative to the mean. Lower values indicate more stable, predictable prices. CV < '',
           mx, Lit ''% is considered stable.''],
        data_quality = ''Calculated from Amazon price history over the analysis window''\<rparr>))"

definition eval_inventory :: "sourcing_config \<Rightarrow> product_data \<Rightarrow> rule_result py" where
  "eval_inventory c data =
     bindR (as_count (dget data ''days_of_stock'' (VInt 0))) (\<lambda>days.
     bindR (as_count (dget data ''quantity_available'' (VInt 0))) (\<lambda>qty.
     let n = val days; q = val qty in
     bindR (normalize_score n (of_int (min_days_of_stock c)) 90) (\<lambda>s.
     let ok = of_int (min_days_of_stock c) \<le> n; mn = Num (of_int (min_days_of_stock c)) in
     validate_rule_result
       \<lparr>rule_name = ''inventory_availability'', display_name = ''Inventory Availability'',
        severity = inventory_severity c, weight = inventory_weight (weights c), score = s,
        passed = ok, is_critical_failure = (inventory_severity c = Critical \<and> \<not> ok),
        actual_value = [Num n, Lit '' days ('', Num q, Lit '' units)''],
        threshold_value = [Uni 8805, mn, Lit '' days''], target_value = [Lit ''90 days''],
        summary =
          (if ok then
             (if 90 \<le> n
              then [Lit ''Well-stocked: ~'', Num n, Lit '' days of inventory ('', Num q,
                    Lit '' units available)'']
              else [Lit ''Adequate stock: ~'', Num n, Lit '' days (minimum: '', mn, Lit '')''])
           else [Lit ''Low stock: ~'', Num n, Lit '' days is below minimum of '', mn]),
        details =
          [Num q, Lit '' units available, estimated '', Num n,
           Lit '' days of stock at current sales rate. Target is '', Fix 0 90,
           Lit '' days of stock for a perfect score.''],
        data_quality = ''Based on latest inventory snapshot and sales estimate''\<rparr>)))"

end
