(* ===== verification/SourcingEngine.thy ===== *)
theory SourcingEngine
  imports SourcingRules Profit
begin

text \<open>
  The sourcing engine, \<open>app/sourcing/engine.py\<close>: gathering the metrics of a product from the
  answers of the analytics repository, computing its profit, running the rules, aggregating the
  scores, deriving confidence and risk, wording the result, and ranking a batch.
\<close>

section \<open>Scoring\<close>

text \<open>The accumulation loop and the whole of \<open>_calculate_opportunity_score\<close>.\<close>

fun score_loop :: "rat \<times> rat \<times> int \<Rightarrow> rule_result list \<Rightarrow> rat \<times> rat \<times> int" where
  "score_loop (tw, w, cf) [] = (tw, w, cf)"
| "score_loop (tw, w, cf) (r # rs) =
     score_loop (dadd tw (dmul (score r) (weight r)), dadd w (weight r),
                 if is_critical_failure r then cf + 1 else cf) rs"

definition calculate_opportunity_score ::
  "sourcing_config \<Rightarrow> rule_result list \<Rightarrow> opportunity_score py" where
  "calculate_opportunity_score c rs =
     (case score_loop (0, 0, 0) rs of (tw, w, cf) \<Rightarrow>
      let ws = (if 0 < w then ddiv tw w else 0) in
      bindR (quantize round_he 2 (dmul ws 100)) (\<lambda>ts.
      validate_opportunity
        \<lparr>total_score = ts, weighted_score = ws, rule_results = rs, critical_failures = cf,
         is_viable = (cf < critical_rule_fail_threshold c
                      \<and> minimum_opportunity_score c \<le> ts)\<rparr>))"

section \<open>Confidence and risk\<close>

definition CONFIDENCE_THRESHOLDS :: "(int \<times> confidence_level) list" where
  "CONFIDENCE_THRESHOLDS =
     [(500, ConfVeryHigh), (200, ConfHigh), (50, ConfMedium), (10, ConfLow), (0, ConfVeryLow)]"

definition RISK_THRESHOLDS :: "(rat \<times> risk_level) list" where
  "RISK_THRESHOLDS =
     [(85, RiskVeryLow), (70, RiskLow), (50, RiskMedium), (30, RiskHigh), (0, RiskVeryHigh)]"

text \<open>The first level whose threshold is reached, and the value after the loop.\<close>

fun first_reached :: "('n::linorder \<times> 'l) list \<Rightarrow> 'n \<Rightarrow> 'l \<Rightarrow> 'l" where
  "first_reached [] x d = d"
| "first_reached ((t, l) # ts) x d = (if t \<le> x then l else first_reached ts x d)"

definition determine_confidence :: "int \<Rightarrow> confidence_level" where
  "determine_confidence n = first_reached CONFIDENCE_THRESHOLDS n ConfVeryLow"

definition base_risk :: "rat \<Rightarrow> risk_level" where
  "base_risk ts = first_reached RISK_THRESHOLDS ts RiskVeryHigh"

definition risk_order :: "risk_level list" where
  "risk_order = [RiskVeryLow, RiskLow, RiskMedium, RiskHigh, RiskVeryHigh]"

definition elevate :: "risk_level \<Rightarrow> risk_level" where
  "elevate r = risk_order ! min (risk_rank r + 1) (length risk_order - 1)"

definition critical_fails :: "rule_result list \<Rightarrow> nat" where
  "critical_fails rs = length (filter is_critical_failure rs)"

definition major_fails :: "rule_result list \<Rightarrow> nat" where
  "major_fails rs = length (filter (\<lambda>r. severity r = Major \<and> \<not> passed r) rs)"

definition determine_risk :: "rat \<Rightarrow> rule_result list \<Rightarrow> risk_level" where
  "determine_risk ts rs =
     (if 0 < critical_fails rs then RiskVeryHigh
      else if 2 \<le> major_fails rs then RiskHigh
      else if major_fails rs = 1 then elevate (base_risk ts)
      else base_risk ts)"

section \<open>Wording\<close>

definition generate_summary :: "string \<Rightarrow> opportunity_score \<Rightarrow> fstring" where
  "generate_summary title p =
     (let s = total_score p; q = [Lit [CHR 0x22], Txt title, Lit [CHR 0x22]] in
      if \<not> is_viable p then
        q @ [Lit '' scored '', Fix 1 s, Lit ''/100 and is not currently viable. '',
             Num (of_int (critical_failures p)), Lit '' critical rule(s) failed. Review the weaknesses below for specific issues to address.'']
      else if 80 \<le> s then
        q @ [Lit '' is a strong sourcing opportunity with a score of '', Fix 1 s,
             Lit ''/100. Strong performance across most metrics. Consider adding this product to your watchlist.'']
      else if 60 \<le> s then
        q @ [Lit '' is a viable opportunity scoring '', Fix 1 s,
             Lit ''/100. Some areas need monitoring, but overall metrics are solid. Review the recommendations below for optimization opportunities.'']
      else
        q @ [Lit '' scores '', Fix 1 s, Lit ''/100 '', Uni 8212,
             Lit '' marginal opportunity. It meets minimum criteria but has significant room for improvement. Consider only if you can address the specific weaknesses noted.''])"

definition labelled :: "rule_result \<Rightarrow> fstring" where
  "labelled r = [Txt (display_name r), Lit '': ''] @ summary r"

definition identify_strengths :: "rule_result list \<Rightarrow> fstring list" where
  "identify_strengths rs = take 5 (map labelled (filter (\<lambda>r. 8 / 10 \<le> score r) rs))"

definition identify_weaknesses :: "rule_result list \<Rightarrow> fstring list" where
  "identify_weaknesses rs = take 5 (map labelled (filter (\<lambda>r. score r < 5 / 10) rs))"

definition recommendation_for :: "rule_result \<Rightarrow> fstring list" where
  "recommendation_for r =
     (let v = actual_value r; n = rule_name r in
      if n = ''minimum_roi'' then
        [[Lit ''Improve ROI by negotiating better supplier pricing or finding alternative suppliers. Current ROI: ''] @ v]
      else if n = ''minimum_profit'' then
        [[Lit ''Increase profit margin by reducing costs or differentiating to command a higher price. Current profit: ''] @ v]
      else if n = ''minimum_sales'' then
        [[Lit ''Low sales volume (''] @ v @ [Lit ''). Consider if this is seasonal or if demand can be increased through better listing optimization.'']]
      else if n = ''competition'' then
        [[Lit ''High competition (''] @ v @ [Lit ''). Differentiate through bundling, better listings, or targeting a niche within this category.'']]
      else if n = ''buy_box_stability'' then
        [[Lit ''Unstable Buy Box (''] @ v @ [Lit ''). Monitor repricing strategies and consider automated repricing tools.'']]
      else if n = ''price_stability'' then
        [[Lit ''Volatile pricing (''] @ v @ [Lit ''). Price fluctuations make profit forecasting unreliable. Consider shorter inventory cycles.'']]
      else if n = ''inventory_availability'' then
        [[Lit ''Insufficient inventory (''] @ v @ [Lit ''). Secure reliable supplier with shorter lead times or increase order quantity.'']]
      else [])"

definition generate_recommendations :: "rule_result list \<Rightarrow> fstring list" where
  "generate_recommendations rs = concat (map (\<lambda>r. if passed r then [] else recommendation_for r) rs)"

definition data_quality_note :: "int \<Rightarrow> fstring" where
  "data_quality_note n =
     (if 500 \<le> n then [Lit ''Excellent data coverage '', Uni 8212, Lit '' evaluation is based on extensive historical data'']
      else if 100 \<le> n then [Lit ''Good data coverage '', Uni 8212, Lit '' evaluation is based on adequate historical data'']
      else if 20 \<le> n then [Lit ''Moderate data coverage '', Uni 8212, Lit '' some metrics may be less reliable'']
      else if 0 < n then [Lit ''Limited data '', Uni 8212, Lit '' evaluation should be treated as preliminary'']
      else [Lit ''No historical data available '', Uni 8212, Lit '' evaluation is based on current snapshot only''])"

section \<open>Gathering the metrics\<close>

text \<open>
  What the analytics repository (SQL queries) answers about one product: each field is the
  result of one of its calls, \<open>None\<close> when there is no row, \<open>Inl ()\<close> when the call raises
  inside one of the engine's \<open>try\<close> blocks.
\<close>

record price_summary =
  ps_mean :: rat
  ps_stddev :: rat
  ps_min :: rat
  ps_max :: rat
  ps_count :: int

record product_facts =
  pf_asin :: string
  pf_title :: string
  pf_amazon_price :: "rat option"
  pf_buy_box_price :: "rat option"
  pf_supplier_prices :: "rat list"
  pf_sellers :: "(int \<times> int \<times> int) option"
  pf_sales :: "(int \<times> rat \<times> int option) option"
  pf_fees :: "(rat \<times> rat \<times> rat \<times> rat) option"
  pf_inventory :: "(int \<times> int \<times> int \<times> int) option"
  pf_price_summary :: "unit + price_summary option"
  pf_count :: "string \<Rightarrow> unit + int"

definition gather_prices :: "product_facts \<Rightarrow> product_data" where
  "gather_prices f =
     [''amazon_price'' \<mapsto> VDec (case pf_amazon_price f of Some p \<Rightarrow> p | None \<Rightarrow> 0),
      ''buy_box_price'' \<mapsto> (case pf_buy_box_price f of Some p \<Rightarrow> VDec p | None \<Rightarrow> VNone)]
     ++ (let ps = pf_supplier_prices f in
         if ps \<noteq> [] then
           [''lowest_supplier_price'' \<mapsto> VDec (Min (set ps)),
            ''average_supplier_price'' \<mapsto> VDec (ddiv (foldl dadd 0 ps) (of_nat (length ps))),
            ''supplier_count'' \<mapsto> VInt (int (length ps))]
         else
           [''lowest_supplier_price'' \<mapsto> VDec 0, ''average_supplier_price'' \<mapsto> VDec 0,
            ''supplier_count'' \<mapsto> VInt 0])"

definition gather_sellers :: "product_facts \<Rightarrow> product_data" where
  "gather_sellers f =
     (case pf_sellers f of
        Some (new, used, fba) \<Rightarrow>
          [''new_seller_count'' \<mapsto> VInt new, ''used_seller_count'' \<mapsto> VInt used,
           ''fba_seller_count'' \<mapsto> VInt fba, ''total_offer_count'' \<mapsto> VInt (new + used)]
      | None \<Rightarrow>
          [''new_seller_count'' \<mapsto> VInt 0, ''used_seller_count'' \<mapsto> VInt 0,
           ''fba_seller_count'' \<mapsto> VInt 0, ''total_offer_count'' \<mapsto> VInt 0])
     ++ (case pf_sales f of
           Some (monthly, daily, rank) \<Rightarrow>
             [''estimated_monthly_sales'' \<mapsto> VInt monthly,
              ''estimated_daily_sales'' \<mapsto> VDec daily,
              ''sales_rank'' \<mapsto> (case rank of Some r \<Rightarrow> VInt r | None \<Rightarrow> VNone)]
         | None \<Rightarrow>
             [''estimated_monthly_sales'' \<mapsto> VInt 0, ''estimated_daily_sales'' \<mapsto> VDec 0,
              ''sales_rank'' \<mapsto> VNone])"

definition gather_fees :: "product_facts \<Rightarrow> product_data" where
  "gather_fees f =
     (case pf_fees f of
        Some (referral, fulfillment, storage, ttl) \<Rightarrow>
          [''referral_fee'' \<mapsto> VDec referral, ''fulfillment_fee'' \<mapsto> VDec fulfillment,
           ''storage_fee'' \<mapsto> VDec storage, ''total_fees'' \<mapsto> VDec ttl]
      | None \<Rightarrow>
          [''referral_fee'' \<mapsto> VDec 0, ''fulfillment_fee'' \<mapsto> VDec 0, ''storage_fee'' \<mapsto> VDec 0,
           ''total_fees'' \<mapsto> VDec 0])
     ++ (case pf_inventory f of
           Some (on_hand, reserved, inbound, available) \<Rightarrow>
             [''quantity_on_hand'' \<mapsto> VInt on_hand, ''quantity_reserved'' \<mapsto> VInt reserved,
              ''quantity_inbound'' \<mapsto> VInt inbound, ''quantity_available'' \<mapsto> VInt available]
         | None \<Rightarrow>
             [''quantity_on_hand'' \<mapsto> VInt 0, ''quantity_reserved'' \<mapsto> VInt 0,
              ''quantity_inbound'' \<mapsto> VInt 0, ''quantity_available'' \<mapsto> VInt 0])"

definition days_of_stock :: "product_data \<Rightarrow> pyval" where
  "days_of_stock d =
     (case dget d ''estimated_daily_sales'' (VDec 0) of
        VDec daily \<Rightarrow>
          (let available = val (dget d ''quantity_available'' (VInt 0)) in
           if 0 < daily \<and> 0 < available then VInt (trunc (ddiv available daily)) else VInt 0)
      | _ \<Rightarrow> VInt 0)"

definition gather_summary :: "product_facts \<Rightarrow> product_data" where
  "gather_summary f =
     (case pf_price_summary f of
        Inr (Some s) \<Rightarrow>
          [''price_mean'' \<mapsto> VFloat (ps_mean s), ''price_stddev'' \<mapsto> VFloat (ps_stddev s),
           ''price_min'' \<mapsto> VFloat (ps_min s), ''price_max'' \<mapsto> VFloat (ps_max s),
           ''price_count'' \<mapsto> VInt (ps_count s),
           ''price_cv'' \<mapsto> VDec (if 0 < ps_mean s
                                 then float_repr (fl (ps_stddev s / ps_mean s)) else 0)]
      | _ \<Rightarrow> [''price_cv'' \<mapsto> VDec 0, ''price_count'' \<mapsto> VInt 0])"

definition gather_buy_box :: "product_facts \<Rightarrow> product_data" where
  "gather_buy_box f =
     (case pf_price_summary f of
        Inl _ \<Rightarrow> [''buy_box_win_rate'' \<mapsto> VDec 50]
      | Inr _ \<Rightarrow>
          (case pf_count f ''amazon_prices'' of
             Inl _ \<Rightarrow> [''buy_box_win_rate'' \<mapsto> VDec 50]
           | Inr n \<Rightarrow> [''buy_box_win_rate'' \<mapsto> VDec 50, ''price_count'' \<mapsto> VInt n]))"

definition count_tables :: "string list" where
  "count_tables = [''amazon_prices'', ''product_prices'', ''seller_counts'', ''historical_fees'',
     ''historical_inventory'', ''sales_estimates'']"

definition total_data_points :: "product_facts \<Rightarrow> int" where
  "total_data_points f = sum_list (collectR (pf_count f) count_tables)"

definition gather_data :: "product_facts \<Rightarrow> product_data" where
  "gather_data f =
     (let d = gather_prices f ++ gather_sellers f ++ gather_fees f;
          d = d(''days_of_stock'' \<mapsto> days_of_stock d);
          d = d ++ gather_summary f ++ gather_buy_box f in
      d(''total_data_points'' \<mapsto> VInt (total_data_points f)))"

section \<open>Profit metrics\<close>

fun fee_argument :: "pyval \<Rightarrow> rat option" where
  "fee_argument (VInt n) = Some (of_int n)"
| "fee_argument (VDec d) = Some d"
| "fee_argument (VFloat x) = Some (float_repr x)"
| "fee_argument VNone = None"

definition profit_metrics :: "rat \<Rightarrow> rat \<Rightarrow> rat \<Rightarrow> rat \<Rightarrow> product_data" where
  "profit_metrics net gross roi margin =
     [''net_profit'' \<mapsto> VDec net, ''gross_profit'' \<mapsto> VDec gross,
      ''roi_percentage'' \<mapsto> VDec roi, ''margin_percentage'' \<mapsto> VDec margin]"

definition calculate_profit :: "profit_config \<Rightarrow> product_data \<Rightarrow> product_data py" where
  "calculate_profit pc d =
     bindR (as_decimal (dget d ''amazon_price'' (VDec 0))) (\<lambda>price.
     bindR (as_decimal (dget d ''lowest_supplier_price'' (VDec 0))) (\<lambda>cost.
     if price \<le> 0 \<or> cost \<le> 0 then Inr (profit_metrics 0 0 0 0)
     else
       bindR (validate_input ((default_input price cost)
                \<lparr>fba_fulfillment_fee := fee_argument (dget d ''fulfillment_fee'' (VDec 0))\<rparr>)) (\<lambda>i.
       bindR (calculate pc i None) (\<lambda>out.
       Inr (profit_metrics (net_profit_per_unit out) (gross_profit out) (roi_percentage out)
              (margin_percentage out))))))"

section \<open>Evaluation\<close>

type_synonym rule = "sourcing_config \<Rightarrow> product_data \<Rightarrow> rule_result py"

definition DEFAULT_RULES :: "rule list" where
  "DEFAULT_RULES = [eval_roi, eval_profit, eval_sales, eval_competition, eval_buy_box,
     eval_price_stability, eval_inventory]"

text \<open>
  The AI block calls \<open>build_product_data(evaluation)\<close> where no variable \<open>evaluation\<close> is
  bound; the \<open>NameError\<close> is caught and logged.
\<close>

datatype name_error = NameError

definition ai_block :: "'ai option \<Rightarrow> 'ai option" where
  "ai_block reasoning =
     (case reasoning of
        None \<Rightarrow> None
      | Some _ \<Rightarrow> (case (Inl NameError :: name_error + 'ai) of Inl _ \<Rightarrow> None | Inr r \<Rightarrow> Some r))"

definition evaluate_single ::
  "sourcing_config \<Rightarrow> profit_config \<Rightarrow> rule list \<Rightarrow> 'ai option \<Rightarrow> ('pid \<rightharpoonup> product_facts)
   \<Rightarrow> 'pid \<Rightarrow> ('pid, 'ai) product_evaluation py" where
  "evaluate_single c pc rules ai repo pid =
     (case repo pid of
        None \<Rightarrow> Inl ValueError
      | Some f \<Rightarrow>
          (let data = gather_data f in
           bindR (calculate_profit pc data) (\<lambda>profit_data.
           let data = data ++ profit_data in
           bindR (mapR (\<lambda>rule. rule c data) rules) (\<lambda>rs.
           bindR (calculate_opportunity_score c rs) (\<lambda>opp.
           let n = total_data_points f in
           Inr \<lparr>pe_product_id = pid, pe_asin = pf_asin f, pe_title = pf_title f,
                pe_opportunity = opp, pe_confidence = determine_confidence n,
                pe_risk = determine_risk (total_score opp) rs,
                pe_summary = generate_summary (pf_title f) opp,
                pe_strengths = identify_strengths rs, pe_weaknesses = identify_weaknesses rs,
                pe_recommendations = generate_recommendations rs,
                pe_data_points = n, pe_quality_note = data_quality_note n,
                pe_ai_recommendation = ai_block ai\<rparr>)))))"

definition evaluate_product ::
  "sourcing_config \<Rightarrow> profit_config \<Rightarrow> rule list \<Rightarrow> 'ai option \<Rightarrow> ('pid \<rightharpoonup> product_facts)
   \<Rightarrow> 'pid \<Rightarrow> ('pid, 'ai) product_evaluation option" where
  "evaluate_product c pc rules ai repo pid =
     (case evaluate_single c pc rules ai repo pid of Inl _ \<Rightarrow> None | Inr e \<Rightarrow> Some e)"

definition eval_score :: "('pid, 'ai) product_evaluation \<Rightarrow> rat" where
  "eval_score e = total_score (pe_opportunity e)"

definition evaluate_products ::
  "sourcing_config \<Rightarrow> profit_config \<Rightarrow> rule list \<Rightarrow> 'ai option \<Rightarrow> ('pid \<rightharpoonup> product_facts)
   \<Rightarrow> 'pid list \<Rightarrow> ('pid, 'ai) sourcing_result" where
  "evaluate_products c pc rules ai repo pids =
     (let es = sort_desc eval_score (collectR (evaluate_single c pc rules ai repo) pids);
          viable = length (filter (\<lambda>e. is_viable (pe_opportunity e)) es) in
      \<lparr>sr_evaluations = es, sr_total_evaluated = length es, sr_viable_count = viable,
       sr_non_viable_count = length es - viable, sr_config = c, sr_version = ''1.0.0''\<rparr>)"

end
