(* ===== verification/SourcingProps.thy ===== *)
theory SourcingProps
  imports SourcingEngine ProfitExact
begin

text \<open>
  The properties of the sourcing rules and of the engine that ranks products with them: the
  normalisation, the contract every rule keeps (as a locale, interpreted on the rules the engine
  installs), the aggregation of scores, risk and confidence, the evaluation of a product and of
  a batch.
\<close>

section \<open>Rounding into an interval\<close>

lemma quantize_between:
  assumes "of_int lo / 10 ^ k \<le> x" and "x \<le> of_int hi / 10 ^ k"
    and "\<bar>lo\<bar> < 10 ^ 28" and "\<bar>hi\<bar> < 10 ^ 28"
  shows "\<exists>y. quantize round_he k x = Inr y \<and> of_int lo / 10 ^ k \<le> y \<and> y \<le> of_int hi / 10 ^ k"
proof -
  define n where "n = round_he (x * 10 ^ k)"
  have "lo \<le> n" "n \<le> hi"
    unfolding n_def using assms(1,2)
    by (auto simp: field_simps intro!: round_he_ge_int round_he_le_int)
  with assms(3,4) show ?thesis
    unfolding quantize_def Let_def n_def [symmetric]
    by (auto intro!: divide_right_mono)
qed

lemma quantize_mono:
  "quantize round_he k x = Inr u \<Longrightarrow> quantize round_he k y = Inr v \<Longrightarrow> x \<le> y \<Longrightarrow> u \<le> v"
  unfolding quantize_Inr by (auto intro!: divide_right_mono round_he_mono mult_right_mono)

lemma dec_rep_tenths: "\<bar>n\<bar> \<le> 10 ^ 28 \<Longrightarrow> dec_rep (of_int n / 10)"
  unfolding dec_rep_def representable_def
  by (rule exI [of _ n], rule exI [of _ "- 1"]) (simp add: power_int_minus)

lemma dec_rep_half [simp]: "dec_rep (1 / 2)" and dec_rep_5 [simp]: "dec_rep (5 / 10)"
  and dec_rep_7 [simp]: "dec_rep (7 / 10)" and dec_rep_3 [simp]: "dec_rep (3 / 10)"
  using dec_rep_tenths [of 5] dec_rep_tenths [of 7] dec_rep_tenths [of 3] by simp_all

lemma dec_rep_of_int: "\<bar>n\<bar> \<le> 10 ^ 28 \<Longrightarrow> dec_rep (of_int n)"
  using representable_of_int [of n 10 28] by (simp add: dec_rep_def)

lemma dec_rep_100 [simp]: "dec_rep 100"
  using dec_rep_of_int [of 100] by simp

text \<open>A product of two numbers of the unit interval, and a fraction of an interval.\<close>

lemma dmul_unit: "0 \<le> x \<Longrightarrow> x \<le> 1 \<Longrightarrow> 0 \<le> y \<Longrightarrow> dec_rep y \<Longrightarrow> 0 \<le> dmul x y \<and> dmul x y \<le> y"
  unfolding dmul_def
  using mult_right_mono [of x 1 y] by (auto intro!: decr.r_nonneg decr.r_le)

lemma dmul_mono: "x \<le> x' \<Longrightarrow> 0 \<le> y \<Longrightarrow> dmul x y \<le> dmul x' y"
  unfolding dmul_def by (intro decr.r_mono mult_right_mono)

lemma dadd_mono: "x \<le> x' \<Longrightarrow> y \<le> y' \<Longrightarrow> dadd x y \<le> dadd x' y'"
  unfolding dadd_def by (intro decr.r_mono add_mono)

lemma dsub_mono: "x \<le> x' \<Longrightarrow> y' \<le> y \<Longrightarrow> dsub x y \<le> dsub x' y'"
  unfolding dsub_def by (intro decr.r_mono diff_mono)

lemma ddiv_mono: "x \<le> x' \<Longrightarrow> 0 \<le> y \<Longrightarrow> ddiv x y \<le> ddiv x' y"
  unfolding ddiv_def by (intro decr.r_mono divide_right_mono)

lemma ddiv_unit: "0 \<le> x \<Longrightarrow> x \<le> y \<Longrightarrow> 0 < y \<Longrightarrow> 0 \<le> ddiv x y \<and> ddiv x y \<le> 1"
  unfolding ddiv_def by (simp add: decr.r_ratio_unit)

lemma dsub_pos_iff: "0 < dsub x y \<longleftrightarrow> y < x"
  by (simp add: dsub_def decr.r_sub_pos)

lemma dsub_nonneg: "y \<le> x \<Longrightarrow> 0 \<le> dsub x y"
  unfolding dsub_def by (rule decr.r_nonneg) simp

section \<open>Normalisation\<close>

text \<open>The two interior branches.\<close>

lemma below_minimum:
  assumes "0 < a" and "a < m"
  shows "\<exists>s. normalize_score a m t = Inr s \<and> quantize round_he 4 (dmul (ddiv a m) (5 / 10)) = Inr s
    \<and> 0 \<le> s \<and> s \<le> 1 / 2"
proof -
  have "0 \<le> ddiv a m \<and> ddiv a m \<le> 1" using assms by (intro ddiv_unit) auto
  then have "0 \<le> dmul (ddiv a m) (5 / 10) \<and> dmul (ddiv a m) (5 / 10) \<le> 5 / 10"
    by (intro dmul_unit) auto
  then have "\<exists>s. quantize round_he 4 (dmul (ddiv a m) (5 / 10)) = Inr s \<and> 0 \<le> s \<and> s \<le> 1 / 2"
    using quantize_between [of 0 4 "dmul (ddiv a m) (5 / 10)" 5000] by simp
  with assms show ?thesis by (auto simp: normalize_score_def ddivE_def)
qed

definition progress :: "rat \<Rightarrow> rat \<Rightarrow> rat \<Rightarrow> rat" where
  "progress a m t = dadd (5 / 10) (dmul (ddiv (dsub a m) (dsub t m)) (5 / 10))"

lemma above_minimum:
  assumes "0 < a" and "m \<le> a" and "a < t"
  shows "\<exists>s. normalize_score a m t = Inr s \<and> quantize round_he 4 (progress a m t) = Inr s
    \<and> 1 / 2 \<le> s \<and> s \<le> 1"
proof -
  have pos: "0 < dsub t m" using assms by (simp add: dsub_pos_iff)
  have "0 \<le> ddiv (dsub a m) (dsub t m) \<and> ddiv (dsub a m) (dsub t m) \<le> 1"
    using assms pos by (intro ddiv_unit dsub_nonneg dsub_mono) auto
  moreover define z where "z = dmul (ddiv (dsub a m) (dsub t m)) (5 / 10)"
  ultimately have z: "0 \<le> z" "z \<le> 1 / 2"
    using dmul_unit [of "ddiv (dsub a m) (dsub t m)" "5 / 10"] by auto
  have "1 / 2 \<le> dec (5 / 10 + z)" using z by (intro decr.r_ge) auto
  moreover have "dec (5 / 10 + z) \<le> 1" using z by (intro decr.r_le decr.rep_1) auto
  ultimately have "1 / 2 \<le> progress a m t \<and> progress a m t \<le> 1"
    unfolding progress_def dadd_def z_def by simp
  then have "\<exists>s. quantize round_he 4 (progress a m t) = Inr s \<and> 1 / 2 \<le> s \<and> s \<le> 1"
    using quantize_between [of 5000 4 "progress a m t" 10000] by simp
  with assms pos show ?thesis
    by (auto simp: normalize_score_def ddivE_def progress_def)
qed

lemma normalize_cases:
  obtains (zero) "a \<le> 0" "normalize_score a m t = Inr 0"
    | (below) "0 < a" "a < m"
    | (between) "0 < a" "m \<le> a" "a < t"
    | (target) "0 < a" "m \<le> a" "t \<le> a" "normalize_score a m t = Inr 1"
  by (metis normalize_score_def not_le)

lemma normalize_unit: "\<exists>s. normalize_score a m t = Inr s \<and> 0 \<le> s \<and> s \<le> 1"
proof (cases rule: normalize_cases [of a m t])
  case below
  with below_minimum [of a m t] show ?thesis by fastforce
next
  case between
  with above_minimum [of a m t] show ?thesis by fastforce
qed auto

lemma normalize_mono:
  assumes "a \<le> a'" and s: "normalize_score a m t = Inr s" and s': "normalize_score a' m t = Inr s'"
  shows "s \<le> s'"
proof -
  have u: "0 \<le> s'" "s \<le> 1" using normalize_unit [of a' m t] normalize_unit [of a m t] s s' by auto
  show ?thesis
  proof (cases rule: normalize_cases [of a m t])
    case below
    then obtain b: "quantize round_he 4 (dmul (ddiv a m) (5 / 10)) = Inr s" and h: "s \<le> 1 / 2"
      using below_minimum [of a m t] s by auto
    show ?thesis
    proof (cases rule: normalize_cases [of a' m t])
      case zero
      with below \<open>a \<le> a'\<close> show ?thesis by simp
    next
      case below': below
      then have b': "quantize round_he 4 (dmul (ddiv a' m) (5 / 10)) = Inr s'"
        using below_minimum [of a' m t] s' by auto
      show ?thesis
        by (rule quantize_mono [OF b b']) (use below \<open>a \<le> a'\<close> in \<open>auto intro!: dmul_mono ddiv_mono\<close>)
    next
      case between
      with above_minimum [of a' m t] s' h show ?thesis by auto
    next
      case target
      with s' u show ?thesis by simp
    qed
  next
    case between
    then have b: "quantize round_he 4 (progress a m t) = Inr s"
      using above_minimum [of a m t] s by auto
    show ?thesis
    proof (cases "a' < t")
      case True
      then have b': "quantize round_he 4 (progress a' m t) = Inr s'"
        using above_minimum [of a' m t] between \<open>a \<le> a'\<close> s' by auto
      have "0 \<le> dsub t m" using between by (intro dsub_nonneg) auto
      then have "progress a m t \<le> progress a' m t"
        unfolding progress_def using \<open>a \<le> a'\<close>
        by (intro dadd_mono dmul_mono ddiv_mono dsub_mono) auto
      with quantize_mono [OF b b'] show ?thesis .
    next
      case False
      with between \<open>a \<le> a'\<close> s' u show ?thesis by (simp add: normalize_score_def)
    qed
  next
    case zero
    with s u show ?thesis by simp
  next
    case target
    with s' s \<open>a \<le> a'\<close> show ?thesis by (auto simp: normalize_score_def)
  qed
qed

section \<open>The contract of a rule\<close>

text \<open>
  Every result is in range, carries one of the configured weights, and is a critical failure
  exactly when a rule of critical severity is not passed.
\<close>

definition sound_result :: "rule_result \<Rightarrow> bool" where
  "sound_result x \<longleftrightarrow> unit_ok (score x) \<and> unit_ok (weight x) \<and> dec_rep (weight x)
     \<and> is_critical_failure x = (severity x = Critical \<and> \<not> passed x)"

text \<open>Weights that fit into the 28 digits of the context.\<close>

definition weights_rep :: "sourcing_weights \<Rightarrow> bool" where
  "weights_rep w \<longleftrightarrow> dec_rep (roi_weight w) \<and> dec_rep (profit_weight w) \<and> dec_rep (sales_weight w)
     \<and> dec_rep (competition_weight w) \<and> dec_rep (buy_box_weight w)
     \<and> dec_rep (price_stability_weight w) \<and> dec_rep (inventory_weight w)"

lemma dec_rep_literal: "on_grid 10 x \<Longrightarrow> \<bar>x\<bar> \<le> 10 ^ 18 \<Longrightarrow> dec_rep x"
  using decr.rep_r [of x] by (simp add: dec_literal)

lemma default_weights_rep: "weights_rep default_weights"
  by (simp add: weights_rep_def default_weights_def dec_rep_literal on_grid_def)

lemma validate_Inr [result_simps]:
  "validate_rule_result r = Inr x \<longleftrightarrow> unit_ok (weight r) \<and> unit_ok (score r) \<and> x = r"
  by (auto simp: validate_rule_result_def rule_result_ok_def)

locale rule_contract =
  fixes rules :: "rule list"
  assumes rules_sound:
    "rl \<in> set rules \<Longrightarrow> weights_rep (weights c) \<Longrightarrow> rl c d = Inr x \<Longrightarrow> sound_result x"
begin

lemma results_sound:
  assumes "weights_rep (weights c)" and "mapR (\<lambda>rl. rl c d) rules = Inr rs"
  shows "\<forall>x \<in> set rs. sound_result x"
proof
  fix x assume "x \<in> set rs"
  with mapR_set [OF assms(2)] obtain rl where "rl \<in> set rules" "rl c d = Inr x" by auto
  with rules_sound assms(1) show "sound_result x" by blast
qed

end

lemma eval_roi_sound: "weights_rep (weights c) \<Longrightarrow> eval_roi c d = Inr x \<Longrightarrow> sound_result x"
  by (auto simp: eval_roi_def sound_result_def weights_rep_def result_simps Let_def)

lemma eval_profit_sound: "weights_rep (weights c) \<Longrightarrow> eval_profit c d = Inr x \<Longrightarrow> sound_result x"
  by (auto simp: eval_profit_def sound_result_def weights_rep_def result_simps Let_def)

lemma eval_sales_sound: "weights_rep (weights c) \<Longrightarrow> eval_sales c d = Inr x \<Longrightarrow> sound_result x"
  by (auto simp: eval_sales_def sound_result_def weights_rep_def result_simps Let_def)

lemma eval_competition_sound:
  "weights_rep (weights c) \<Longrightarrow> eval_competition c d = Inr x \<Longrightarrow> sound_result x"
  unfolding eval_competition_def Let_def result_simps
  by (elim exE conjE) (simp add: sound_result_def weights_rep_def)

lemma eval_buy_box_sound:
  "weights_rep (weights c) \<Longrightarrow> eval_buy_box c d = Inr x \<Longrightarrow> sound_result x"
  by (auto simp: eval_buy_box_def sound_result_def weights_rep_def result_simps Let_def)

lemma eval_price_stability_sound:
  "weights_rep (weights c) \<Longrightarrow> eval_price_stability c d = Inr x \<Longrightarrow> sound_result x"
  by (auto simp: eval_price_stability_def sound_result_def weights_rep_def result_simps Let_def)

lemma eval_inventory_sound:
  "weights_rep (weights c) \<Longrightarrow> eval_inventory c d = Inr x \<Longrightarrow> sound_result x"
  by (auto simp: eval_inventory_def sound_result_def weights_rep_def result_simps Let_def)

lemmas eval_sound = eval_roi_sound eval_profit_sound eval_sales_sound eval_competition_sound
  eval_buy_box_sound eval_price_stability_sound eval_inventory_sound

interpretation default_rules: rule_contract DEFAULT_RULES
  by unfold_locales (auto simp: DEFAULT_RULES_def intro: eval_sound)

section \<open>When the rules return\<close>

text \<open>
  The metrics the rules read have the types the engine stores, and there are no more FBA
  sellers than sellers.
\<close>

fun numeric :: "pyval \<Rightarrow> bool" where
  "numeric VNone = False"
| "numeric v = True"

definition metrics_ok :: "product_data \<Rightarrow> bool" where
  "metrics_ok d \<longleftrightarrow>
     numeric (dget d ''roi_percentage'' (VDec 0)) \<and> numeric (dget d ''net_profit'' (VDec 0))
     \<and> numeric (dget d ''net_profit'' (VInt 0))
     \<and> (\<exists>n. dget d ''estimated_monthly_sales'' (VInt 0) = VInt n)
     \<and> (\<exists>n k. dget d ''new_seller_count'' (VInt 0) = VInt n
           \<and> dget d ''fba_seller_count'' (VInt 0) = VInt k \<and> k \<le> n)
     \<and> numeric (dget d ''buy_box_win_rate'' (VDec 50)) \<and> numeric (dget d ''price_cv'' (VDec 0))
     \<and> numeric (dget d ''days_of_stock'' (VInt 0)) \<and> numeric (dget d ''quantity_available'' (VInt 0))"

lemma as_decimal_numeric: "numeric v \<Longrightarrow> \<exists>x. as_decimal v = Inr x"
  by (cases v) auto

lemma as_count_numeric: "numeric v \<Longrightarrow> \<exists>x. as_count v = Inr x"
  by (cases v) auto

lemma as_float_numeric: "numeric v \<Longrightarrow> \<exists>x. as_float v = Inr x"
  by (cases v) auto

lemma seller_count_unit: "\<exists>s. seller_count_score c (VInt n) = Inr s \<and> 0 \<le> s \<and> s \<le> 1"
proof -
  obtain s where s: "normalize_score (of_int n) (of_int (min_new_sellers c))
      (of_int (target_new_sellers c)) = Inr s" "0 \<le> s" "s \<le> 1"
    using normalize_unit by blast
  define e where "e = ddiv (of_int n - of_int (target_new_sellers c))
      (of_int (max (max_new_sellers c - target_new_sellers c) 1))"
  have u: "0 \<le> dmul (dsub 1 (min e 1)) s \<and> dmul (dsub 1 (min e 1)) s \<le> 1"
    if "target_new_sellers c < n"
  proof -
    have "0 \<le> e" unfolding e_def ddiv_def using that by (intro decr.r_nonneg divide_nonneg_nonneg) auto
    then have "0 \<le> dsub 1 (min e 1)" "dsub 1 (min e 1) \<le> 1"
      unfolding dsub_def using decr.r_unit [of "1 - min e 1"] by auto
    then have "0 \<le> dsub 1 (min e 1) * s" "dsub 1 (min e 1) * s \<le> 1"
      using s mult_le_one by auto
    then show ?thesis unfolding dmul_def using decr.r_unit by blast
  qed
  show ?thesis
    using s u by (simp add: seller_count_score_def Let_def e_def)
qed

lemma fba_percentage_le: "k \<le> n \<Longrightarrow> fba_percentage (VInt n) (VInt k) \<le> 100"
proof -
  assume k: "k \<le> n"
  have "dmul (ddiv (of_int k) (of_int n)) 100 \<le> 100" if n: "0 < n"
  proof -
    have "ddiv (of_int k) (of_int n) \<le> 1"
      unfolding ddiv_def using k n by (intro decr.r_le decr.rep_1) (simp add: divide_le_eq)
    then show ?thesis unfolding dmul_def by (intro decr.r_le) auto
  qed
  then show ?thesis by (simp add: fba_percentage_def)
qed

lemma fba_saturation_unit:
  assumes "p \<le> 100" and "0 \<le> max_fba_percentage c"
  shows "\<exists>s. fba_saturation_score c p = Inr s \<and> 0 \<le> s \<and> s \<le> 1"
proof (cases "max_fba_percentage c < p")
  case True
  define e where "e = ddiv (dsub p (max_fba_percentage c)) (dsub 100 (max_fba_percentage c))"
  have pos: "0 < dsub 100 (max_fba_percentage c)" using True assms by (simp add: dsub_pos_iff)
  have "0 \<le> e \<and> e \<le> 1"
    unfolding e_def using True assms pos by (intro ddiv_unit dsub_nonneg dsub_mono) auto
  then have "0 \<le> dsub 1 e \<and> dsub 1 e \<le> 1"
    unfolding dsub_def by (intro decr.r_unit) auto
  then show ?thesis using True pos by (simp add: fba_saturation_score_def ddivE_def e_def)
qed (simp add: fba_saturation_score_def)

lemma competition_total:
  assumes "k \<le> n" and "0 \<le> max_fba_percentage c" and "unit_ok (competition_weight (weights c))"
    and d: "dget d ''new_seller_count'' (VInt 0) = VInt n" "dget d ''fba_seller_count'' (VInt 0) = VInt k"
  shows "\<exists>x. eval_competition c d = Inr x"
proof -
  obtain cs where cs: "seller_count_score c (VInt n) = Inr cs" "0 \<le> cs" "cs \<le> 1"
    using seller_count_unit by blast
  obtain fs where fs: "fba_saturation_score c (fba_percentage (VInt n) (VInt k)) = Inr fs"
    "0 \<le> fs" "fs \<le> 1"
    using fba_saturation_unit [OF fba_percentage_le [OF assms(1)] assms(2)] by blast
  define z where "z = dadd (dmul cs (7 / 10)) (dmul fs (3 / 10))"
  have "0 \<le> dmul cs (7 / 10) \<and> dmul cs (7 / 10) \<le> 7 / 10"
    "0 \<le> dmul fs (3 / 10) \<and> dmul fs (3 / 10) \<le> 3 / 10"
    using cs fs by (intro dmul_unit; simp)+
  then have "0 \<le> z \<and> z \<le> 1" unfolding z_def dadd_def by (intro decr.r_unit) auto
  then obtain s where "quantize round_he 4 z = Inr s" "0 \<le> s" "s \<le> 1"
    using quantize_between [of 0 4 z 10000] by auto
  with cs fs assms(3) show ?thesis
    by (simp add: eval_competition_def d Let_def validate_rule_result_def rule_result_ok_def
        unit_ok_def flip: z_def)
qed

lemma stability_unit: "\<exists>s. price_stability_score c v = Inr s \<and> 0 \<le> s \<and> s \<le> 1"
proof (cases "0 < v \<and> v < max_price_volatility c")
  case True
  have "0 \<le> ddiv v (max_price_volatility c) \<and> ddiv v (max_price_volatility c) \<le> 1"
    using True by (intro ddiv_unit) auto
  then have "0 \<le> dsub 1 (ddiv v (max_price_volatility c)) \<and> dsub 1 (ddiv v (max_price_volatility c)) \<le> 1"
    unfolding dsub_def by (intro decr.r_unit) auto
  with True quantize_between [of 0 4 "dsub 1 (ddiv v (max_price_volatility c))" 10000]
  show ?thesis by (simp add: price_stability_score_def ddivE_def)
qed (auto simp: price_stability_score_def)

lemma scored_total:
  assumes "\<exists>x. m = Inr x" and "\<And>x. \<exists>s. n x = Inr s \<and> 0 \<le> s \<and> s \<le> 1"
    and "\<And>x s. 0 \<le> s \<Longrightarrow> s \<le> 1 \<Longrightarrow> \<exists>y. g x s = Inr y"
  shows "\<exists>y. bindR m (\<lambda>x. bindR (n x) (g x)) = Inr y"
  using assms by (fastforce simp: result_simps)

text \<open>A rule whose metric is there builds its result.\<close>

lemma roi_total:
  assumes "unit_ok (roi_weight (weights c))" and "numeric (dget d ''roi_percentage'' (VDec 0))"
  shows "\<exists>x. eval_roi c d = Inr x"
  unfolding eval_roi_def
  by (rule scored_total [OF as_decimal_numeric [OF assms(2)] normalize_unit])
     (use assms(1) in \<open>simp add: Let_def validate_rule_result_def rule_result_ok_def unit_ok_def\<close>)

lemma profit_total:
  assumes "unit_ok (profit_weight (weights c))" and "numeric (dget d ''net_profit'' (VDec 0))"
  shows "\<exists>x. eval_profit c d = Inr x"
  unfolding eval_profit_def
  by (rule scored_total [OF as_decimal_numeric [OF assms(2)] normalize_unit])
     (use assms(1) in \<open>simp add: Let_def validate_rule_result_def rule_result_ok_def unit_ok_def\<close>)

lemma sales_total:
  assumes "unit_ok (sales_weight (weights c))" and "numeric (dget d ''net_profit'' (VInt 0))"
    and "dget d ''estimated_monthly_sales'' (VInt 0) = VInt n"
  shows "\<exists>x. eval_sales c d = Inr x"
proof -
  obtain s where "normalize_score (of_int n) (of_int (min_monthly_sales c))
      (of_int (target_monthly_sales c)) = Inr s" "0 \<le> s" "s \<le> 1" using normalize_unit by blast
  moreover obtain p where "as_float (dget d ''net_profit'' (VInt 0)) = Inr p"
    using as_float_numeric [OF assms(2)] by blast
  ultimately show ?thesis
    using assms by (simp add: eval_sales_def Let_def validate_rule_result_def rule_result_ok_def
        unit_ok_def)
qed

lemma buy_box_total:
  assumes "unit_ok (buy_box_weight (weights c))" and "numeric (dget d ''buy_box_win_rate'' (VDec 50))"
  shows "\<exists>x. eval_buy_box c d = Inr x"
  unfolding eval_buy_box_def
  by (rule scored_total [OF as_decimal_numeric [OF assms(2)] normalize_unit])
     (use assms(1) in \<open>simp add: Let_def validate_rule_result_def rule_result_ok_def unit_ok_def\<close>)

lemma price_stability_total:
  assumes "unit_ok (price_stability_weight (weights c))" and "numeric (dget d ''price_cv'' (VDec 0))"
  shows "\<exists>x. eval_price_stability c d = Inr x"
  unfolding eval_price_stability_def Let_def
  by (rule scored_total [OF as_decimal_numeric [OF assms(2)] stability_unit])
     (use assms(1) in \<open>simp add: validate_rule_result_def rule_result_ok_def unit_ok_def\<close>)

lemma inventory_total:
  assumes "unit_ok (inventory_weight (weights c))" and "numeric (dget d ''days_of_stock'' (VInt 0))"
    and "numeric (dget d ''quantity_available'' (VInt 0))"
  shows "\<exists>x. eval_inventory c d = Inr x"
proof -
  obtain v where v: "as_count (dget d ''days_of_stock'' (VInt 0)) = Inr v"
    using as_count_numeric [OF assms(2)] by blast
  obtain q where q: "as_count (dget d ''quantity_available'' (VInt 0)) = Inr q"
    using as_count_numeric [OF assms(3)] by blast
  obtain s where "normalize_score (val v) (of_int (min_days_of_stock c)) 90 = Inr s" "0 \<le> s" "s \<le> 1"
    using normalize_unit by blast
  with v q assms show ?thesis
    by (simp add: eval_inventory_def Let_def validate_rule_result_def rule_result_ok_def unit_ok_def)
qed

lemma rules_total:
  assumes "sourcing_config_ok c" and "metrics_ok d"
  shows "\<exists>rs. mapR (\<lambda>rl. rl c d) DEFAULT_RULES = Inr rs"
proof (rule mapR_total)
  have w: "weights_ok (weights c)" and m: "0 \<le> max_fba_percentage c"
    using assms(1) by (auto simp: sourcing_config_ok_def hundred_ok_def)
  obtain n where n: "dget d ''estimated_monthly_sales'' (VInt 0) = VInt n"
    using assms(2) unfolding metrics_ok_def by blast
  obtain a k where a: "dget d ''new_seller_count'' (VInt 0) = VInt a"
    "dget d ''fba_seller_count'' (VInt 0) = VInt k" "k \<le> a"
    using assms(2) unfolding metrics_ok_def by blast
  have "\<exists>y. eval_roi c d = Inr y" "\<exists>y. eval_profit c d = Inr y" "\<exists>y. eval_buy_box c d = Inr y"
    "\<exists>y. eval_price_stability c d = Inr y" "\<exists>y. eval_inventory c d = Inr y"
    "\<exists>y. eval_sales c d = Inr y"
    using assms(2) w
    by (auto simp: metrics_ok_def weights_ok_def
        intro!: roi_total profit_total buy_box_total price_stability_total inventory_total sales_total)
  moreover have "\<exists>y. eval_competition c d = Inr y"
    using competition_total [OF a(3) m _ a(1,2)] w by (simp add: weights_ok_def)
  ultimately show "\<forall>rl \<in> set DEFAULT_RULES. \<exists>y. rl c d = Inr y"
    by (simp add: DEFAULT_RULES_def)
qed

section \<open>Aggregation\<close>

lemma score_loop_wacc:
  "score_loop (t, w, n) rs =
     (let (t', w') = wacc dec (t, w) (map (\<lambda>r. (score r, weight r)) rs)
      in (t', w', n + int (critical_fails rs)))"
  by (induction rs arbitrary: t w n)
     (simp_all add: critical_fails_def dadd_def dmul_def split: prod.split)

definition aggregate :: "rule_result list \<Rightarrow> rat \<times> rat" where
  "aggregate rs = wacc dec (0, 0) (map (\<lambda>r. (score r, weight r)) rs)"

definition weighted_mean :: "rule_result list \<Rightarrow> rat" where
  "weighted_mean rs = (if 0 < snd (aggregate rs) then ddiv (fst (aggregate rs)) (snd (aggregate rs)) else 0)"

lemma opportunity_unfold:
  "calculate_opportunity_score c rs =
     bindR (quantize round_he 2 (dmul (weighted_mean rs) 100)) (\<lambda>ts.
       validate_opportunity
        \<lparr>total_score = ts, weighted_score = weighted_mean rs, rule_results = rs,
         critical_failures = int (critical_fails rs),
         is_viable = (int (critical_fails rs) < critical_rule_fail_threshold c
                      \<and> minimum_opportunity_score c \<le> ts)\<rparr>)"
  by (simp add: calculate_opportunity_score_def score_loop_wacc aggregate_def [symmetric]
      weighted_mean_def Let_def split: prod.split)

lemma weighted_mean_unit:
  assumes "\<forall>x \<in> set rs. sound_result x"
  shows "0 \<le> weighted_mean rs \<and> weighted_mean rs \<le> 1"
proof -
  have "\<forall>(s, k) \<in> set (map (\<lambda>r. (score r, weight r)) rs). 0 \<le> s \<and> s \<le> 1 \<and> 0 \<le> k \<and> dec_rep k"
    using assms by (auto simp: sound_result_def unit_ok_def)
  from decr.wacc_bounds [OF this, of 0 0]
  have "0 \<le> fst (aggregate rs)" "fst (aggregate rs) \<le> snd (aggregate rs)"
    by (simp_all add: aggregate_def)
  then show ?thesis by (auto simp: weighted_mean_def dest: ddiv_unit)
qed

lemma opportunity_returns:
  assumes "\<forall>x \<in> set rs. sound_result x"
  shows "\<exists>p. calculate_opportunity_score c rs = Inr p
    \<and> quantize round_he 2 (dmul (weighted_mean rs) 100) = Inr (total_score p)
    \<and> 0 \<le> total_score p \<and> total_score p \<le> 100 \<and> rule_results p = rs
    \<and> weighted_score p = weighted_mean rs
    \<and> critical_failures p = int (critical_fails rs)
    \<and> is_viable p = (critical_failures p < critical_rule_fail_threshold c
                     \<and> minimum_opportunity_score c \<le> total_score p)"
proof -
  note u = weighted_mean_unit [OF assms]
  then have "0 \<le> dmul (weighted_mean rs) 100 \<and> dmul (weighted_mean rs) 100 \<le> 100"
    by (intro dmul_unit) auto
  with quantize_between [of 0 2 "dmul (weighted_mean rs) 100" 10000]
  obtain ts where ts: "quantize round_he 2 (dmul (weighted_mean rs) 100) = Inr ts"
    "0 \<le> ts" "ts \<le> 100" by auto
  with u show ?thesis
    by (simp add: opportunity_unfold validate_opportunity_def hundred_ok_def unit_ok_def)
qed

text \<open>A better score of one rule cannot lower the total.\<close>

definition no_worse :: "rule_result \<Rightarrow> rule_result \<Rightarrow> bool" where
  "no_worse x y \<longleftrightarrow> score x \<le> score y \<and> weight x = weight y \<and> 0 \<le> weight x"

lemma weighted_mean_mono:
  assumes "list_all2 no_worse rs rs'"
  shows "weighted_mean rs \<le> weighted_mean rs'"
proof -
  have "list_all2 (\<lambda>(s, k) (s', k'). s \<le> s' \<and> k = k' \<and> 0 \<le> k)
      (map (\<lambda>r. (score r, weight r)) rs) (map (\<lambda>r. (score r, weight r)) rs')"
    using assms by (auto simp: list_all2_map1 list_all2_map2 no_worse_def elim!: list_all2_mono)
  from decr.wacc_mono [OF this, of 0 0 0]
  have "fst (aggregate rs) \<le> fst (aggregate rs')" "snd (aggregate rs) = snd (aggregate rs')"
    by (simp_all add: aggregate_def)
  then show ?thesis by (simp add: weighted_mean_def ddiv_mono)
qed

section \<open>Risk and confidence\<close>

lemma base_risk_antimono: "s \<le> s' \<Longrightarrow> base_risk s' \<le> base_risk s"
  by (simp add: base_risk_def RISK_THRESHOLDS_def less_eq_risk_level_def)

lemma elevate_rank: "risk_rank (elevate r) = min (risk_rank r + 1) 4"
  by (cases r) (simp_all add: elevate_def risk_order_def numeral_eq_Suc)

lemma elevate_mono: "a \<le> b \<Longrightarrow> elevate a \<le> elevate b"
  by (simp add: less_eq_risk_level_def elevate_rank)

lemma elevate_ge: "a \<le> elevate a"
  by (cases a) (simp_all add: less_eq_risk_level_def elevate_rank)

lemma determine_confidence_mono: "m \<le> n \<Longrightarrow> determine_confidence m \<le> determine_confidence n"
  by (simp add: determine_confidence_def CONFIDENCE_THRESHOLDS_def less_eq_confidence_level_def)

section \<open>The metrics of a product\<close>

lemma dget_add: "dget (m ++ n) k v = (case n k of Some x \<Rightarrow> x | None \<Rightarrow> dget m k v)"
  by (auto simp: dget_def map_add_def split: option.split)

lemma dget_upd: "dget (m(a \<mapsto> x)) k v = (if k = a then x else dget m k v)"
  by (simp add: dget_def)

definition sellers_ok :: "product_facts \<Rightarrow> bool" where
  "sellers_ok f \<longleftrightarrow> (case pf_sellers f of None \<Rightarrow> True | Some (new, used, fba) \<Rightarrow> fba \<le> new)"

lemma calculate_profit_Inr:
  "calculate_profit pc d = Inr pd \<Longrightarrow> \<exists>a b c e. pd = profit_metrics a b c e"
  by (auto simp: calculate_profit_def result_simps split: if_splits)

lemma gathered_rates:
  fixes f a b c e
  defines "d \<equiv> gather_data f ++ profit_metrics a b c e"
  shows "dget d ''buy_box_win_rate'' v = VDec 50" and "numeric (dget d ''price_cv'' v)"
    and "dget d ''roi_percentage'' v = VDec c" and "dget d ''net_profit'' v = VDec a"
  unfolding d_def
  by (simp_all add: gather_data_def Let_def dget_add dget_upd profit_metrics_def gather_buy_box_def
      gather_summary_def split: sum.splits option.splits)

text \<open>The metrics that the later parts of the dictionary do not touch.\<close>

definition base_key :: "string \<Rightarrow> bool" where
  "base_key k \<longleftrightarrow> k \<in> {''estimated_monthly_sales'', ''new_seller_count'', ''fba_seller_count'',
     ''quantity_available'', ''amazon_price'', ''lowest_supplier_price'',
     ''fulfillment_fee''}"

lemma later_keys:
  assumes "base_key k"
  shows "gather_summary f k = None" and "gather_buy_box f k = None"
    and "profit_metrics a b c e k = None" and "k \<noteq> ''days_of_stock''" and "k \<noteq> ''total_data_points''"
  using assms unfolding base_key_def
  by (auto simp: gather_summary_def gather_buy_box_def profit_metrics_def split: sum.split option.split)

lemma gathered_base:
  assumes "base_key k"
  shows "dget (gather_data f ++ profit_metrics a b c e) k v
    = dget (gather_prices f ++ gather_sellers f ++ gather_fees f) k v"
    and "dget (gather_data f) k v = dget (gather_prices f ++ gather_sellers f ++ gather_fees f) k v"
  using later_keys [OF assms] by (simp_all add: gather_data_def Let_def dget_add dget_upd)

lemma gathered_counts:
  fixes f a b c e
  defines "d \<equiv> gather_data f ++ profit_metrics a b c e"
  shows "dget d ''estimated_monthly_sales'' v = VInt (case pf_sales f of Some (m, _, _) \<Rightarrow> m | None \<Rightarrow> 0)"
    and "dget d ''new_seller_count'' v = VInt (case pf_sellers f of Some (n, _, _) \<Rightarrow> n | None \<Rightarrow> 0)"
    and "dget d ''fba_seller_count'' v = VInt (case pf_sellers f of Some (_, _, k) \<Rightarrow> k | None \<Rightarrow> 0)"
    and "dget d ''quantity_available'' v = VInt (case pf_inventory f of Some (_, _, _, q) \<Rightarrow> q | None \<Rightarrow> 0)"
proof -
  have k: "base_key ''estimated_monthly_sales''" "base_key ''new_seller_count''"
    "base_key ''fba_seller_count''" "base_key ''quantity_available''"
    by (simp_all add: base_key_def)
  have fees: "gather_fees f ''estimated_monthly_sales'' = None" "gather_fees f ''new_seller_count'' = None"
    "gather_fees f ''fba_seller_count'' = None"
    "gather_fees f ''quantity_available'' = Some (VInt (case pf_inventory f of Some (_, _, _, q) \<Rightarrow> q | None \<Rightarrow> 0))"
    by (simp_all add: gather_fees_def split: option.split prod.split)
  have sel: "gather_sellers f ''estimated_monthly_sales'' = Some (VInt (case pf_sales f of Some (m, _, _) \<Rightarrow> m | None \<Rightarrow> 0))"
    "gather_sellers f ''new_seller_count'' = Some (VInt (case pf_sellers f of Some (n, _, _) \<Rightarrow> n | None \<Rightarrow> 0))"
    "gather_sellers f ''fba_seller_count'' = Some (VInt (case pf_sellers f of Some (_, _, k) \<Rightarrow> k | None \<Rightarrow> 0))"
    by (simp_all add: gather_sellers_def map_add_def split: option.split prod.split)
  show "dget d ''estimated_monthly_sales'' v = VInt (case pf_sales f of Some (m, _, _) \<Rightarrow> m | None \<Rightarrow> 0)"
    "dget d ''new_seller_count'' v = VInt (case pf_sellers f of Some (n, _, _) \<Rightarrow> n | None \<Rightarrow> 0)"
    "dget d ''fba_seller_count'' v = VInt (case pf_sellers f of Some (_, _, k) \<Rightarrow> k | None \<Rightarrow> 0)"
    "dget d ''quantity_available'' v = VInt (case pf_inventory f of Some (_, _, _, q) \<Rightarrow> q | None \<Rightarrow> 0)"
    unfolding d_def gathered_base(1) [OF k(1)] gathered_base(1) [OF k(2)] gathered_base(1) [OF k(3)]
      gathered_base(1) [OF k(4)]
    by (simp_all add: dget_add fees sel)
qed

lemma gathered_stock: "numeric (dget (gather_data f ++ profit_metrics a b c e) ''days_of_stock'' v)"
proof -
  have n: "numeric (days_of_stock x)" for x
    by (simp add: days_of_stock_def Let_def split: pyval.split)
  show ?thesis
    by (simp add: gather_data_def Let_def dget_add dget_upd profit_metrics_def gather_buy_box_def
      gather_summary_def n split: sum.split option.split)
qed

lemma metrics_gathered:
  assumes "sellers_ok f"
  shows "metrics_ok (gather_data f ++ profit_metrics a b c e)"
  using assms
  by (simp add: metrics_ok_def gathered_rates gathered_counts gathered_stock sellers_ok_def
      split: option.splits prod.splits)

text \<open>The saturation score of many FBA sellers.\<close>

lemma mapR_raises: "\<exists>e. f x d = Inl e \<Longrightarrow> x \<in> set xs \<Longrightarrow> \<exists>e. mapR (\<lambda>x. f x d) xs = Inl e"
  by (induction xs) (auto simp: result_simps, metis (no_types, lifting) bindR.simps(2) old.sum.exhaust)

lemma competition_rejects:
  assumes d: "dget d ''new_seller_count'' (VInt 0) = VInt n" "dget d ''fba_seller_count'' (VInt 0) = VInt k"
    and n: "0 < n" "2 * n \<le> k"
  shows "\<exists>e. eval_competition default_sourcing_config d = Inl e"
proof -
  let ?c = default_sourcing_config
  obtain cs where cs: "seller_count_score ?c (VInt n) = Inr cs" "0 \<le> cs" "cs \<le> 1"
    using seller_count_unit by blast
  define p where "p = fba_percentage (VInt n) (VInt k)"
  have r: "dec_rep 2" "dec_rep 200" "dec_rep 130" "dec_rep 4" "dec_rep 30" "dec_rep (- 3)" "dec_rep (- 9 / 10)" "dec_rep (- 1 / 5)"
    by (rule dec_rep_literal; simp add: on_grid_def)+
  have "2 \<le> of_int k / (of_int n :: rat)"
    using n of_int_le_iff [of "2 * n" k, where ?'a = rat] by (simp add: le_divide_eq)
  then have "2 \<le> ddiv (of_int k) (of_int n)" unfolding ddiv_def by (rule decr.r_ge [OF r(1)])
  then have p: "200 \<le> p" using n(1)
    unfolding p_def fba_percentage_def dmul_def by (auto intro!: decr.r_ge [OF r(2)])
  define x where "x = ddiv (dsub p 70) 30"
  have "130 \<le> dsub p 70" unfolding dsub_def by (rule decr.r_ge [OF r(3)]) (use p in simp)
  then have x: "4 \<le> x" unfolding x_def ddiv_def by (intro decr.r_ge [OF r(4)]) simp
  have fs: "dsub 1 x \<le> - 3" unfolding dsub_def by (rule decr.r_le [OF r(6)]) (use x in simp)
  have e30: "dsub 100 70 = 30" unfolding dsub_def using decr.r_fix [OF r(5)] by simp
  define z where "z = dadd (dmul cs (7 / 10)) (dmul (dsub 1 x) (3 / 10))"
  have "dmul cs (7 / 10) \<le> 7 / 10" using cs dmul_unit [of cs "7 / 10"] by simp
  moreover have "dmul (dsub 1 x) (3 / 10) \<le> - 9 / 10"
    unfolding dmul_def by (rule decr.r_le [OF r(7)]) (use fs in simp)
  ultimately have z: "z \<le> - 1 / 5" unfolding z_def dadd_def by (intro decr.r_le [OF r(8)]) simp
  have neg: "s < 0" if "quantize round_he 4 z = Inr s" for s
  proof -
    have "round_he (z * 10 ^ 4) \<le> - 2000" using z by (intro round_he_le_int) simp
    with that show ?thesis by (auto simp: quantize_Inr)
  qed
  have sat: "fba_saturation_score ?c p = Inr (dsub 1 x)"
    using p by (simp add: fba_saturation_score_def default_sourcing_config_def ddivE_def e30 x_def)
  have "unit_ok (score y)" if "validate_rule_result y = Inr w" for y w
    using that by (simp add: result_simps)
  then show ?thesis
    using neg by (cases "quantize round_he 4 z")
      (fastforce simp: eval_competition_def d Let_def cs sat validate_rule_result_def
        rule_result_ok_def unit_ok_def simp flip: p_def z_def)+
qed

section \<open>Properties\<close>

text \<open>The normalisation of a metric always returns a score in the unit interval, never decreases
  when the metric grows, stays at or below one half for a metric below its minimum, and is at
  least one half for a positive metric that meets it, in the rounded arithmetic of the code and
  for every minimum and target.\<close>

theorem normalize_score_monotone:
  assumes "a \<le> a'"
  shows "\<exists>s s'. normalize_score a m t = Inr s \<and> normalize_score a' m t = Inr s'
    \<and> 0 \<le> s \<and> s \<le> s' \<and> s' \<le> 1
    \<and> (a < m \<longrightarrow> s \<le> 1 / 2) \<and> (0 < a \<and> m \<le> a \<longrightarrow> 1 / 2 \<le> s)
    \<and> (0 < a \<and> m \<le> a \<and> t \<le> a \<longrightarrow> s = 1)"
proof -
  obtain s where s: "normalize_score a m t = Inr s" "0 \<le> s" "s \<le> 1" using normalize_unit by blast
  obtain s' where s': "normalize_score a' m t = Inr s'" "s' \<le> 1" using normalize_unit by blast
  have "s \<le> s'" by (rule normalize_mono [OF assms s(1) s'(1)])
  moreover have "a < m \<longrightarrow> s \<le> 1 / 2"
    using below_minimum [of a m t] s by (cases "0 < a") (auto simp: normalize_score_def)
  moreover have "0 < a \<and> m \<le> a \<longrightarrow> 1 / 2 \<le> s"
    using above_minimum [of a m t] s by (cases "a < t") (auto simp: normalize_score_def)
  moreover have "0 < a \<and> m \<le> a \<and> t \<le> a \<longrightarrow> s = 1" using s by (auto simp: normalize_score_def)
  ultimately show ?thesis using s s' by blast
qed

theorem normalize_score_monotone_witness:
  "\<exists>s s'. normalize_score 10 20 50 = Inr s \<and> normalize_score 35 20 50 = Inr s' \<and> 0 \<le> s \<and> s \<le> s'"
  using normalize_score_monotone [of 10 35 20 50] by auto

text \<open>C33: For a valid configuration and a known product whose FBA sellers are among its sellers, the
  evaluation returns whenever its profit can be calculated: no rule raises on the gathered
  metrics, the seven results are aggregated to a score between 0 and 100 that is never rejected
  by the validation of the model, the critical failures are exactly the failed rules of
  critical severity, and the product is viable exactly when there are fewer of them than the
  configured limit and the score reaches the configured minimum.\<close>

theorem evaluate_single_returns:
  assumes "sourcing_config_ok c" and "weights_rep (weights c)"
    and "repo pid = Some f" and "sellers_ok f" and "calculate_profit pc (gather_data f) = Inr pd"
  shows "\<exists>e rs. evaluate_single c pc DEFAULT_RULES ai repo pid = Inr e
    \<and> mapR (\<lambda>rl. rl c (gather_data f ++ pd)) DEFAULT_RULES = Inr rs
    \<and> rule_results (pe_opportunity e) = rs \<and> length rs = 7
    \<and> 0 \<le> eval_score e \<and> eval_score e \<le> 100
    \<and> critical_failures (pe_opportunity e)
        = int (length (filter (\<lambda>r. severity r = Critical \<and> \<not> passed r) rs))
    \<and> is_viable (pe_opportunity e)
        = (critical_failures (pe_opportunity e) < critical_rule_fail_threshold c
           \<and> minimum_opportunity_score c \<le> eval_score e)
    \<and> pe_risk e = determine_risk (eval_score e) rs"
proof -
  obtain a b r g where pd: "pd = profit_metrics a b r g"
    using calculate_profit_Inr [OF assms(5)] by auto
  obtain rs where rs: "mapR (\<lambda>rl. rl c (gather_data f ++ pd)) DEFAULT_RULES = Inr rs"
    using rules_total [OF assms(1)] metrics_gathered [OF assms(4)] pd by blast
  have sound: "\<forall>x \<in> set rs. sound_result x"
    by (rule default_rules.results_sound [OF assms(2) rs])
  then have "filter is_critical_failure rs = filter (\<lambda>r. severity r = Critical \<and> \<not> passed r) rs"
    by (intro filter_cong) (auto simp: sound_result_def)
  then have cf: "critical_fails rs = length (filter (\<lambda>r. severity r = Critical \<and> \<not> passed r) rs)"
    by (simp add: critical_fails_def)
  have len: "length rs = 7" using mapR_length [OF rs] by (simp add: DEFAULT_RULES_def)
  from opportunity_returns [OF sound, of c] obtain p
    where p: "calculate_opportunity_score c rs = Inr p" "0 \<le> total_score p" "total_score p \<le> 100"
      "rule_results p = rs" "critical_failures p = int (critical_fails rs)"
      "is_viable p = (critical_failures p < critical_rule_fail_threshold c
                     \<and> minimum_opportunity_score c \<le> total_score p)" by blast
  show ?thesis
    using assms(3,5) rs p len
    by (simp add: evaluate_single_def Let_def eval_score_def flip: cf)
qed

text \<open>A product with a price, a supplier and sellers, and its profit.\<close>

definition plain_facts :: product_facts where
  "plain_facts = \<lparr>pf_asin = ''B000TEST01'', pf_title = ''Kettle'', pf_amazon_price = Some 30,
     pf_buy_box_price = None, pf_supplier_prices = [10], pf_sellers = Some (5, 1, 3),
     pf_sales = Some (400, 13, None), pf_fees = None, pf_inventory = None,
     pf_price_summary = Inr None, pf_count = (\<lambda>_. Inr 4)\<rparr>"

lemma plain_metrics:
  "dget (gather_data plain_facts) ''amazon_price'' (VDec 0) = VDec 30"
  "dget (gather_data plain_facts) ''lowest_supplier_price'' (VDec 0) = VDec 10"
  "dget (gather_data plain_facts) ''fulfillment_fee'' (VDec 0) = VDec 0"
proof -
  have k: "base_key ''amazon_price''" "base_key ''lowest_supplier_price''" "base_key ''fulfillment_fee''"
    by (simp_all add: base_key_def)
  have fees: "gather_fees plain_facts ''amazon_price'' = None"
    "gather_fees plain_facts ''lowest_supplier_price'' = None"
    "gather_fees plain_facts ''fulfillment_fee'' = Some (VDec 0)"
    by (simp_all add: gather_fees_def plain_facts_def)
  have sel: "gather_sellers plain_facts ''amazon_price'' = None"
    "gather_sellers plain_facts ''lowest_supplier_price'' = None"
    by (simp_all add: gather_sellers_def plain_facts_def)
  have pr: "gather_prices plain_facts ''amazon_price'' = Some (VDec 30)"
    "gather_prices plain_facts ''lowest_supplier_price'' = Some (VDec 10)"
    by (simp_all add: gather_prices_def plain_facts_def Let_def)
  show "dget (gather_data plain_facts) ''amazon_price'' (VDec 0) = VDec 30"
    "dget (gather_data plain_facts) ''lowest_supplier_price'' (VDec 0) = VDec 10"
    "dget (gather_data plain_facts) ''fulfillment_fee'' (VDec 0) = VDec 0"
    unfolding gathered_base(2) [OF k(1)] gathered_base(2) [OF k(2)] gathered_base(2) [OF k(3)]
    by (simp_all add: dget_add fees sel) (simp_all add: dget_def pr)
qed

lemma plain_profit: "\<exists>pd. calculate_profit DEFAULT_PROFIT_CONFIG (gather_data plain_facts) = Inr pd"
proof -
  let ?i = "(default_input 30 10)\<lparr>fba_fulfillment_fee := Some 0\<rparr>"
  have "input_small (default_input 30 10)"
    by (rule default_input_small) (simp_all add: amount_numeral)
  then have s: "input_small ?i" by (simp add: input_small_def profit_input_ok_def)
  then have "profit_input_ok ?i" by (simp add: input_small_def)
  then have "validate_input ?i = Inr ?i" by (simp add: validate_input_def)
  then show ?thesis
    using calculate_accounts_total [OF s default_config_small, of None]
    by (auto simp: calculate_profit_def plain_metrics)
qed

theorem evaluate_single_returns_witness:
  "\<exists>e. evaluate_single default_sourcing_config DEFAULT_PROFIT_CONFIG DEFAULT_RULES
         (None :: unit option) [1 :: nat \<mapsto> plain_facts] 1 = Inr e
     \<and> 0 \<le> eval_score e \<and> eval_score e \<le> 100"
proof -
  obtain pd where "calculate_profit DEFAULT_PROFIT_CONFIG (gather_data plain_facts) = Inr pd"
    using plain_profit by blast
  from evaluate_single_returns [OF default_config_ok _ _ _ this,
      of "[1 :: nat \<mapsto> plain_facts]" 1 "None :: unit option"] default_weights_rep
  show ?thesis by (auto simp: plain_facts_def sellers_ok_def default_sourcing_config_def)
qed

text \<open>Raising the score of any rule, with everything else unchanged, never lowers the total
  score, in the rounded arithmetic of the code: the two aggregations return and are ordered.\<close>

theorem total_score_monotone:
  fixes rs rs' :: "rule_result list"
  assumes "\<forall>x \<in> set rs. sound_result x" and "\<forall>x \<in> set rs'. sound_result x"
    and "list_all2 (\<lambda>x y. score x \<le> score y \<and> weight x = weight y) rs rs'"
  shows "\<exists>p p'. calculate_opportunity_score c rs = Inr p
    \<and> calculate_opportunity_score c rs' = Inr p' \<and> total_score p \<le> total_score p'"
proof -
  have "list_all2 no_worse rs rs'"
    using assms(3)
  proof (rule list.rel_mono_strong)
    fix x y :: rule_result assume "x \<in> set rs" "score x \<le> score y \<and> weight x = weight y"
    with assms(1) show "no_worse x y" by (auto simp: no_worse_def sound_result_def unit_ok_def)
  qed
  note m = weighted_mean_mono [OF this]
  obtain p where p: "calculate_opportunity_score c rs = Inr p"
    "quantize round_he 2 (dmul (weighted_mean rs) 100) = Inr (total_score p)"
    using opportunity_returns [OF assms(1)] by blast
  obtain p' where p': "calculate_opportunity_score c rs' = Inr p'"
    "quantize round_he 2 (dmul (weighted_mean rs') 100) = Inr (total_score p')"
    using opportunity_returns [OF assms(2)] by blast
  have "total_score p \<le> total_score p'"
    by (rule quantize_mono [OF p(2) p'(2)]) (use m in \<open>auto intro: dmul_mono\<close>)
  with p(1) p'(1) show ?thesis by blast
qed

definition one_result :: "rat \<Rightarrow> rule_result" where
  "one_result s = \<lparr>rule_name = ''minimum_sales'', display_name = ''Minimum Sales Volume'',
     severity = Major, weight = 15 / 100, score = s, passed = (1 / 2 \<le> s),
     is_critical_failure = False, actual_value = [], threshold_value = [], target_value = [],
     summary = [], details = [], data_quality = []\<rparr>"

lemma one_result_sound: "unit_ok s \<Longrightarrow> sound_result (one_result s)"
  by (simp add: sound_result_def one_result_def unit_ok_def dec_rep_literal on_grid_def)

theorem total_score_monotone_witness:
  "\<exists>p p'. calculate_opportunity_score default_sourcing_config [one_result (1 / 4)] = Inr p
    \<and> calculate_opportunity_score default_sourcing_config [one_result (3 / 4)] = Inr p'
    \<and> total_score p \<le> total_score p'"
proof -
  have "sound_result (one_result (1 / 4))" "sound_result (one_result (3 / 4))"
    by (simp_all add: one_result_sound unit_ok_def)
  then show ?thesis
    using total_score_monotone [of "[one_result (1 / 4)]" "[one_result (3 / 4)]"]
    by (simp add: one_result_def)
qed

text \<open>A batch evaluation keeps exactly the products whose evaluation returns, orders them by
  descending total score with equal scores in the order of the request, and its counts add up.\<close>

theorem evaluate_products_ranked:
  "let res = evaluate_products c pc rules ai repo pids in
    sorted_wrt (\<lambda>x y. eval_score y \<le> eval_score x) (sr_evaluations res)
    \<and> mset (sr_evaluations res) = mset (collectR (evaluate_single c pc rules ai repo) pids)
    \<and> filter (\<lambda>e. eval_score e = v) (sr_evaluations res)
        = filter (\<lambda>e. eval_score e = v) (collectR (evaluate_single c pc rules ai repo) pids)
    \<and> sr_total_evaluated res = length (sr_evaluations res)
    \<and> sr_viable_count res + sr_non_viable_count res = sr_total_evaluated res
    \<and> sr_total_evaluated res \<le> length pids"
proof -
  define es where "es = sort_desc eval_score (collectR (evaluate_single c pc rules ai repo) pids)"
  have "length es \<le> length pids" by (simp add: es_def collectR_length)
  then show ?thesis
    unfolding evaluate_products_def Let_def es_def [symmetric]
    using length_filter_le [of "\<lambda>e. is_viable (pe_opportunity e)" es]
    by (simp add: es_def sort_desc_sorted sort_desc_stable)
qed

text \<open>Below a score of 30 the adjustment of the risk runs backwards: with no critical failure,
  one failed major rule keeps the risk very high, and two or more lower it to high.\<close>

theorem more_major_failures_lower_risk:
  assumes "ts < 30" and "critical_fails rs = 0"
  shows "(major_fails rs \<le> 1 \<longrightarrow> determine_risk ts rs = RiskVeryHigh)
    \<and> (2 \<le> major_fails rs \<longrightarrow> determine_risk ts rs = RiskHigh)"
proof -
  have "base_risk ts = RiskVeryHigh" using assms(1) by (simp add: base_risk_def RISK_THRESHOLDS_def)
  moreover have "elevate RiskVeryHigh = RiskVeryHigh" by (simp add: elevate_def risk_order_def)
  ultimately show ?thesis using assms(2) by (auto simp: determine_risk_def)
qed

theorem more_major_failures_lower_risk_witness:
  "determine_risk 20 [one_result 0] = RiskVeryHigh
    \<and> determine_risk 20 [one_result 0, one_result 0] = RiskHigh"
  using more_major_failures_lower_risk [of 20 "[one_result 0]"]
    more_major_failures_lower_risk [of 20 "[one_result 0, one_result 0]"]
  by (simp add: critical_fails_def major_fails_def one_result_def)

text \<open>The gathered metrics carry a constant Buy Box win rate of 50, so for every configured minimum
  above 50 (the default is 60) the Buy Box rule fails for every product.\<close>

theorem buy_box_never_passes:
  assumes "50 < min_buy_box_win_rate c" and "calculate_profit pc (gather_data f) = Inr pd"
    and "eval_buy_box c (gather_data f ++ pd) = Inr x"
  shows "\<not> passed x \<and> actual_value x = [Fix 0 50, Lit ''%'']"
proof -
  obtain a b r g where "pd = profit_metrics a b r g" using calculate_profit_Inr [OF assms(2)] by auto
  then have "dget (gather_data f ++ pd) ''buy_box_win_rate'' (VDec 50) = VDec 50"
    by (simp add: gathered_rates)
  with assms(1,3) show ?thesis by (auto simp: eval_buy_box_def result_simps Let_def)
qed

theorem buy_box_never_passes_witness:
  "\<exists>pd x. calculate_profit DEFAULT_PROFIT_CONFIG (gather_data plain_facts) = Inr pd
    \<and> eval_buy_box default_sourcing_config (gather_data plain_facts ++ pd) = Inr x \<and> \<not> passed x"
proof -
  obtain pd where pd: "calculate_profit DEFAULT_PROFIT_CONFIG (gather_data plain_facts) = Inr pd"
    using plain_profit by blast
  then obtain a b r g where "pd = profit_metrics a b r g" using calculate_profit_Inr by blast
  then have "\<exists>x. eval_buy_box default_sourcing_config (gather_data plain_facts ++ pd) = Inr x"
    by (intro buy_box_total)
       (simp_all add: gathered_rates unit_ok_def default_sourcing_config_def default_weights_def)
  then obtain x where x: "eval_buy_box default_sourcing_config (gather_data plain_facts ++ pd) = Inr x" ..
  with buy_box_never_passes [OF _ pd x] pd show ?thesis by (auto simp: default_sourcing_config_def)
qed

text \<open>A product counted with at least twice as many FBA sellers as sellers makes the saturation
  part of the competition score so negative that the rule's own result is rejected: under the
  default thresholds the evaluation raises and the product disappears from every batch.\<close>

theorem fba_excess_drops_product:
  assumes "repo pid = Some f" and "pf_sellers f = Some (n, used, k)" and "0 < n" and "2 * n \<le> k"
  shows "evaluate_product default_sourcing_config pc DEFAULT_RULES ai repo pid = None"
proof -
  have "\<exists>e. evaluate_single default_sourcing_config pc DEFAULT_RULES ai repo pid = Inl e"
  proof (cases "calculate_profit pc (gather_data f)")
    case (Inr pd)
    then obtain a b r g where "pd = profit_metrics a b r g" using calculate_profit_Inr by blast
    then have "\<exists>e. eval_competition default_sourcing_config (gather_data f ++ pd) = Inl e"
      using assms(2-4) by (intro competition_rejects [of _ n k]) (simp_all add: gathered_counts)
    moreover have "eval_competition \<in> set DEFAULT_RULES" by (simp add: DEFAULT_RULES_def)
    ultimately have "\<exists>e. mapR (\<lambda>rl. rl default_sourcing_config (gather_data f ++ pd)) DEFAULT_RULES = Inl e"
      by (rule mapR_raises)
    with Inr assms(1) show ?thesis by (auto simp: evaluate_single_def Let_def)
  qed (simp add: evaluate_single_def assms(1))
  then show ?thesis by (auto simp: evaluate_product_def)
qed

theorem fba_excess_drops_product_witness:
  "evaluate_product default_sourcing_config DEFAULT_PROFIT_CONFIG DEFAULT_RULES
     (None :: unit option) [1 :: nat \<mapsto> plain_facts\<lparr>pf_sellers := Some (1, 0, 5)\<rparr>] 1 = None"
  by (rule fba_excess_drops_product [of _ _ "plain_facts\<lparr>pf_sellers := Some (1, 0, 5)\<rparr>" 1 0 5]) simp_all

end
