(* ===== verification/StateMachine.thy ===== *)
theory StateMachine
  imports Prelude
begin

text \<open>
  Generic machinery for stateful services: actions that either raise or return and in both
  cases leave a state, and the interface of a transition table whose states descend a rank.
\<close>

section \<open>Actions\<close>

text \<open>
  An action reads and writes a state and ends with an exception or a value. The state is kept
  when the action raises: what was written before the exception stays written.
\<close>

type_synonym ('s, 'e, 'a) act = "'s \<Rightarrow> ('e + 'a) \<times> 's"

definition retA :: "'a \<Rightarrow> ('s, 'e, 'a) act" where
  "retA x s = (Inr x, s)"

definition failA :: "'e \<Rightarrow> ('s, 'e, 'a) act" where
  "failA e s = (Inl e, s)"

definition readA :: "('s \<Rightarrow> 'a) \<Rightarrow> ('s, 'e, 'a) act" where
  "readA f s = (Inr (f s), s)"

definition bindA :: "('s, 'e, 'a) act \<Rightarrow> ('a \<Rightarrow> ('s, 'e, 'b) act) \<Rightarrow> ('s, 'e, 'b) act" where
  "bindA m f s = (case m s of (Inl e, s') \<Rightarrow> (Inl e, s') | (Inr x, s') \<Rightarrow> f x s')"

lemma run_ret [simp]: "retA x s = (Inr x, s)" and run_fail [simp]: "failA e s = (Inl e, s)"
  and run_read [simp]: "readA f s = (Inr (f s), s)"
  by (simp_all add: retA_def failA_def readA_def)

lemma bindA_simps [simp]:
  "m s = (Inl e, s') \<Longrightarrow> bindA m f s = (Inl e, s')"
  "m s = (Inr x, s') \<Longrightarrow> bindA m f s = f x s'"
  by (simp_all add: bindA_def)

lemma bindA_read [simp]: "bindA (readA g) f s = f (g s) s"
  and bindA_ret [simp]: "bindA (retA x) f s = f x s"
  and bindA_fail [simp]: "bindA (failA e) f s = (Inl e, s)"
  by (simp_all add: bindA_def)

lemma bindA_Inr [result_simps]:
  "bindA m f s = (Inr y, s'') \<longleftrightarrow> (\<exists>x s'. m s = (Inr x, s') \<and> f x s' = (Inr y, s''))"
  by (auto simp: bindA_def split: prod.splits sum.splits)

lemma bindA_Inl [result_simps]:
  "bindA m f s = (Inl e, s'')
    \<longleftrightarrow> m s = (Inl e, s'') \<or> (\<exists>x s'. m s = (Inr x, s') \<and> f x s' = (Inl e, s''))"
  by (auto simp: bindA_def split: prod.splits sum.splits)

text \<open>What every intermediate state of an action satisfies.\<close>

lemma bindA_invariant:
  assumes "I s" and "\<And>s r s'. I s \<Longrightarrow> m s = (r, s') \<Longrightarrow> I s'"
    and "\<And>x s r s'. I s \<Longrightarrow> f x s = (r, s') \<Longrightarrow> I s'"
    and "bindA m f s = (r, s')"
  shows "I s'"
  using assms(2) [OF assms(1)] assms(3,4)
  by (auto simp: bindA_def split: prod.splits sum.splits)

text \<open>
  \<open>try\<close> with an \<open>except\<close> clause that sees every exception; \<open>contextlib.suppress\<close> and a clause
  that replaces the result.
\<close>

definition catchA :: "('s, 'e, 'a) act \<Rightarrow> ('e \<Rightarrow> ('s, 'e, 'a) act) \<Rightarrow> ('s, 'e, 'a) act" where
  "catchA m h s = (case m s of (Inl e, s') \<Rightarrow> h e s' | (Inr x, s') \<Rightarrow> (Inr x, s'))"

definition suppressA :: "('s, 'e, 'a) act \<Rightarrow> ('s, 'e, unit) act" where
  "suppressA m s = (Inr (), snd (m s))"

definition orelseA :: "('s, 'e, 'a) act \<Rightarrow> 'a \<Rightarrow> ('s, 'e, 'a) act" where
  "orelseA m d = catchA m (\<lambda>_. retA d)"

text \<open>A relation between the states that every action of a program keeps.\<close>

definition keeps :: "('s \<Rightarrow> 's \<Rightarrow> bool) \<Rightarrow> ('s, 'e, 'a) act \<Rightarrow> bool" where
  "keeps R m \<longleftrightarrow> (\<forall>s. R s (snd (m s)))"

lemma keepsD: "keeps R m \<Longrightarrow> m s = (r, s') \<Longrightarrow> R s s'"
  by (metis keeps_def snd_conv)

lemma keeps_bind: "transp R \<Longrightarrow> keeps R m \<Longrightarrow> (\<And>x. keeps R (f x)) \<Longrightarrow> keeps R (bindA m f)"
  unfolding keeps_def bindA_def by (auto split: prod.splits sum.splits) (metis snd_conv transpD)+

lemma keeps_catch: "transp R \<Longrightarrow> keeps R m \<Longrightarrow> (\<And>e. keeps R (h e)) \<Longrightarrow> keeps R (catchA m h)"
  unfolding keeps_def catchA_def by (auto split: prod.splits sum.splits) (metis snd_conv transpD)+

lemma keeps_suppress: "keeps R m \<Longrightarrow> keeps R (suppressA m)"
  by (simp add: keeps_def suppressA_def)

lemma keeps_pure: "reflp R \<Longrightarrow> keeps R (retA x)" "reflp R \<Longrightarrow> keeps R (failA e)" "reflp R \<Longrightarrow> keeps R (readA f)"
  by (simp_all add: keeps_def reflpD)

lemma keeps_orelse: "transp R \<Longrightarrow> reflp R \<Longrightarrow> keeps R m \<Longrightarrow> keeps R (orelseA m d)"
  unfolding orelseA_def by (intro keeps_catch keeps_pure)

section \<open>Ranked transition tables\<close>

text \<open>
  The interface of a table of allowed transitions in which every transition lowers a rank: runs
  are bounded, no run returns to a state it has left, states of rank zero are final.
\<close>

locale ranked_transitions =
  fixes allowed :: "'s \<Rightarrow> 's list" and rank :: "'s \<Rightarrow> nat"
  assumes descends: "t \<in> set (allowed s) \<Longrightarrow> rank t < rank s"
begin

inductive run :: "'s \<Rightarrow> 's list \<Rightarrow> 's \<Rightarrow> bool" where
  stay: "run s [] s"
| move: "t \<in> set (allowed s) \<Longrightarrow> run t ts u \<Longrightarrow> run s (t # ts) u"

inductive_cases run_ConsE: "run s (t # ts) u"

lemma run_length: "run s ts u \<Longrightarrow> length ts + rank u \<le> rank s"
  by (induction rule: run.induct) (auto dest: descends)

lemma run_rank: "run s ts u \<Longrightarrow> t \<in> set ts \<Longrightarrow> rank t < rank s"
  by (induction rule: run.induct) (auto dest: descends intro: less_trans)

lemma no_return: "run s ts u \<Longrightarrow> s \<notin> set ts"
  by (auto dest: run_rank)

lemma run_append: "run s ts u \<Longrightarrow> run u us v \<Longrightarrow> run s (ts @ us) v"
  by (induction rule: run.induct) (auto intro: run.intros)

lemma final: "rank s = 0 \<Longrightarrow> allowed s = []"
  using descends [of _ s] by (cases "allowed s") auto

end

end
