(* ===== verification/Commerce.thy ===== *)
theory Commerce
  imports StateMachine Numbers
begin

text \<open>
  Orders and products: the domain models, the generic repository with its order and product
  instances, and the two services (\<open>app/domain/models\<close>, \<open>app/domain/services\<close>,
  \<open>app/infrastructure/repositories\<close>). The SQLAlchemy session is a parameter, a record of the
  operations the repositories call on it for each table.
\<close>

section \<open>Models\<close>

type_synonym uuid = nat

datatype commerce_error =
    OrderNotFoundError uuid
  | InvalidOrderStatusTransitionError string string
  | ProductNotFoundError uuid
  | ProductASINConflictError string
  | InsufficientStockError uuid int
  | DatabaseError

record order =
  o_id :: uuid
  o_customer_id :: uuid
  o_status :: string
  o_total_amount :: rat
  o_currency :: string
  o_shipping_address :: "string option"
  o_notes :: "string option"

record order_item =
  i_order_id :: uuid
  i_product_id :: uuid
  i_quantity :: int
  i_unit_price :: rat
  i_currency :: string

record product =
  p_id :: uuid
  p_asin :: string
  p_title :: string
  p_description :: "string option"
  p_price :: rat
  p_currency :: string
  p_upc :: "string option"
  p_ean :: "string option"
  p_gtin :: "string option"
  p_brand_id :: "string option"
  p_category_id :: "string option"
  p_main_image_url :: "string option"
  p_image_urls :: "string option"
  p_weight :: "rat option"
  p_weight_unit :: "string option"
  p_dimensions :: "string option"
  p_is_active :: bool
  p_is_amazon_fba :: bool
  p_is_amazon_brand :: bool

definition subtotal :: "order_item \<Rightarrow> rat" where
  "subtotal it = dmul (i_unit_price it) (of_int (i_quantity it))"

text \<open>\<open>Order.recalculate_total\<close>\<close>

definition recalculate_total :: "order_item list \<Rightarrow> order \<Rightarrow> order" where
  "recalculate_total its o' = o'\<lparr>o_total_amount := foldl dadd 0 (map subtotal its)\<rparr>"

text \<open>The stock methods of \<open>Product\<close>: the check is constantly true, the changes do nothing.\<close>

definition has_available_stock :: "product \<Rightarrow> int \<Rightarrow> bool" where
  "has_available_stock p q = True"

definition reduce_stock :: "product \<Rightarrow> int \<Rightarrow> product" where
  "reduce_stock p q = p"

definition increase_stock :: "product \<Rightarrow> int \<Rightarrow> product" where
  "increase_stock p q = p"

subsection \<open>Attributes by name\<close>

text \<open>
  The repository reads and writes attributes by name (\<open>getattr\<close>, \<open>setattr\<close>, \<open>hasattr\<close>): a model
  is a finite map from attribute names to accessors. Writing a value of another type is only
  noticed when the row is flushed; a setter then gives \<open>None\<close>.
\<close>

datatype colval = CNull | CStr string | CDec rat | CId uuid | CBool bool

record 'row attr =
  a_get :: "'row \<Rightarrow> colval"
  a_set :: "colval \<Rightarrow> 'row \<Rightarrow> 'row option"

type_synonym 'row model = "string \<rightharpoonup> 'row attr"

fun set_str :: "(string \<Rightarrow> 'row \<Rightarrow> 'row) \<Rightarrow> colval \<Rightarrow> 'row \<Rightarrow> 'row option" where
  "set_str f (CStr s) r = Some (f s r)"
| "set_str f v r = None"

fun set_opt_str :: "(string option \<Rightarrow> 'row \<Rightarrow> 'row) \<Rightarrow> colval \<Rightarrow> 'row \<Rightarrow> 'row option" where
  "set_opt_str f (CStr s) r = Some (f (Some s) r)"
| "set_opt_str f CNull r = Some (f None r)"
| "set_opt_str f v r = None"

fun set_dec :: "(rat \<Rightarrow> 'row \<Rightarrow> 'row) \<Rightarrow> colval \<Rightarrow> 'row \<Rightarrow> 'row option" where
  "set_dec f (CDec d) r = Some (f d r)"
| "set_dec f v r = None"

fun set_opt_dec :: "(rat option \<Rightarrow> 'row \<Rightarrow> 'row) \<Rightarrow> colval \<Rightarrow> 'row \<Rightarrow> 'row option" where
  "set_opt_dec f (CDec d) r = Some (f (Some d) r)"
| "set_opt_dec f CNull r = Some (f None r)"
| "set_opt_dec f v r = None"

fun set_uuid :: "(uuid \<Rightarrow> 'row \<Rightarrow> 'row) \<Rightarrow> colval \<Rightarrow> 'row \<Rightarrow> 'row option" where
  "set_uuid f (CId i) r = Some (f i r)"
| "set_uuid f v r = None"

fun set_bool :: "(bool \<Rightarrow> 'row \<Rightarrow> 'row) \<Rightarrow> colval \<Rightarrow> 'row \<Rightarrow> 'row option" where
  "set_bool f (CBool b) r = Some (f b r)"
| "set_bool f v r = None"

definition opt_str :: "string option \<Rightarrow> colval" where
  "opt_str v = (case v of None \<Rightarrow> CNull | Some s \<Rightarrow> CStr s)"

definition opt_dec :: "rat option \<Rightarrow> colval" where
  "opt_dec v = (case v of None \<Rightarrow> CNull | Some d \<Rightarrow> CDec d)"

definition attr :: "('row \<Rightarrow> colval) \<Rightarrow> (colval \<Rightarrow> 'row \<Rightarrow> 'row option) \<Rightarrow> 'row attr" where
  "attr g s = \<lparr>a_get = g, a_set = s\<rparr>"

definition Order :: "order model" where
  "Order =
     [''id'' \<mapsto> attr (CId \<circ> o_id) (set_uuid (\<lambda>v r. r\<lparr>o_id := v\<rparr>)),
      ''customer_id'' \<mapsto> attr (CId \<circ> o_customer_id) (set_uuid (\<lambda>v r. r\<lparr>o_customer_id := v\<rparr>)),
      ''status'' \<mapsto> attr (CStr \<circ> o_status) (set_str (\<lambda>v r. r\<lparr>o_status := v\<rparr>)),
      ''total_amount'' \<mapsto> attr (CDec \<circ> o_total_amount) (set_dec (\<lambda>v r. r\<lparr>o_total_amount := v\<rparr>)),
      ''currency'' \<mapsto> attr (CStr \<circ> o_currency) (set_str (\<lambda>v r. r\<lparr>o_currency := v\<rparr>)),
      ''shipping_address'' \<mapsto> attr (opt_str \<circ> o_shipping_address)
         (set_opt_str (\<lambda>v r. r\<lparr>o_shipping_address := v\<rparr>)),
      ''notes'' \<mapsto> attr (opt_str \<circ> o_notes) (set_opt_str (\<lambda>v r. r\<lparr>o_notes := v\<rparr>))]"

definition Product :: "product model" where
  "Product =
     [''id'' \<mapsto> attr (CId \<circ> p_id) (set_uuid (\<lambda>v r. r\<lparr>p_id := v\<rparr>)),
      ''asin'' \<mapsto> attr (CStr \<circ> p_asin) (set_str (\<lambda>v r. r\<lparr>p_asin := v\<rparr>)),
      ''title'' \<mapsto> attr (CStr \<circ> p_title) (set_str (\<lambda>v r. r\<lparr>p_title := v\<rparr>)),
      ''description'' \<mapsto> attr (opt_str \<circ> p_description) (set_opt_str (\<lambda>v r. r\<lparr>p_description := v\<rparr>)),
      ''price'' \<mapsto> attr (CDec \<circ> p_price) (set_dec (\<lambda>v r. r\<lparr>p_price := v\<rparr>)),
      ''currency'' \<mapsto> attr (CStr \<circ> p_currency) (set_str (\<lambda>v r. r\<lparr>p_currency := v\<rparr>)),
      ''upc'' \<mapsto> attr (opt_str \<circ> p_upc) (set_opt_str (\<lambda>v r. r\<lparr>p_upc := v\<rparr>)),
      ''ean'' \<mapsto> attr (opt_str \<circ> p_ean) (set_opt_str (\<lambda>v r. r\<lparr>p_ean := v\<rparr>)),
      ''gtin'' \<mapsto> attr (opt_str \<circ> p_gtin) (set_opt_str (\<lambda>v r. r\<lparr>p_gtin := v\<rparr>)),
      ''brand_id'' \<mapsto> attr (opt_str \<circ> p_brand_id) (set_opt_str (\<lambda>v r. r\<lparr>p_brand_id := v\<rparr>)),
      ''category_id'' \<mapsto> attr (opt_str \<circ> p_category_id) (set_opt_str (\<lambda>v r. r\<lparr>p_category_id := v\<rparr>)),
      ''main_image_url'' \<mapsto> attr (opt_str \<circ> p_main_image_url)
         (set_opt_str (\<lambda>v r. r\<lparr>p_main_image_url := v\<rparr>)),
      ''image_urls'' \<mapsto> attr (opt_str \<circ> p_image_urls) (set_opt_str (\<lambda>v r. r\<lparr>p_image_urls := v\<rparr>)),
      ''weight'' \<mapsto> attr (opt_dec \<circ> p_weight) (set_opt_dec (\<lambda>v r. r\<lparr>p_weight := v\<rparr>)),
      ''weight_unit'' \<mapsto> attr (opt_str \<circ> p_weight_unit) (set_opt_str (\<lambda>v r. r\<lparr>p_weight_unit := v\<rparr>)),
      ''dimensions'' \<mapsto> attr (opt_str \<circ> p_dimensions) (set_opt_str (\<lambda>v r. r\<lparr>p_dimensions := v\<rparr>)),
      ''is_active'' \<mapsto> attr (CBool \<circ> p_is_active) (set_bool (\<lambda>v r. r\<lparr>p_is_active := v\<rparr>)),
      ''is_amazon_fba'' \<mapsto> attr (CBool \<circ> p_is_amazon_fba) (set_bool (\<lambda>v r. r\<lparr>p_is_amazon_fba := v\<rparr>)),
      ''is_amazon_brand'' \<mapsto> attr (CBool \<circ> p_is_amazon_brand)
         (set_bool (\<lambda>v r. r\<lparr>p_is_amazon_brand := v\<rparr>))]"

section \<open>The session\<close>

text \<open>
  What the code asks of SQLAlchemy for one table in a database state: the row of a primary key,
  the rows a \<open>SELECT\<close> with a condition and an optional \<open>ORDER BY\<close> delivers in their order,
  flushing a new or changed row, deleting a row. Flushing may raise.
\<close>

type_synonym ('db, 'a) db_act = "('db, commerce_error, 'a) act"

record ('db, 'row) table =
  t_get :: "'db \<Rightarrow> uuid \<Rightarrow> 'row option"
  t_select :: "'db \<Rightarrow> ('row \<Rightarrow> bool) \<Rightarrow> (string \<times> bool) option \<Rightarrow> 'row list"
  t_put :: "uuid \<Rightarrow> 'row \<Rightarrow> ('db, unit) db_act"
  t_del :: "uuid \<Rightarrow> ('db, unit) db_act"

record 'db store =
  orders :: "('db, order) table"
  products :: "('db, product) table"
  items_of :: "'db \<Rightarrow> uuid \<Rightarrow> order_item list"
  items_add :: "order_item \<Rightarrow> ('db, unit) db_act"
  fresh_uuid :: "'db \<Rightarrow> uuid"

end
