(* ===== verification/CommerceServices.thy ===== *)
theory CommerceServices
  imports Commerce
begin

text \<open>
  The generic repository, the order and product repositories, the order and product services,
  and the transaction that a request runs them in.
\<close>

section \<open>The generic repository\<close>

definition repo_get :: "('db, 'row) table \<Rightarrow> uuid \<Rightarrow> ('db, 'row option) db_act" where
  "repo_get T i = readA (\<lambda>db. t_get T db i)"

text \<open>\<open>session.refresh\<close> reads the row back and raises when there is none.\<close>

definition refresh :: "('db, 'row) table \<Rightarrow> uuid \<Rightarrow> ('db, 'row) db_act" where
  "refresh T i = bindA (repo_get T i) (\<lambda>x. case x of None \<Rightarrow> failA DatabaseError | Some r \<Rightarrow> retA r)"

definition repo_create :: "('db, 'row) table \<Rightarrow> uuid \<Rightarrow> 'row \<Rightarrow> ('db, 'row) db_act" where
  "repo_create T i r = bindA (t_put T i r) (\<lambda>_. refresh T i)"

text \<open>Keyword arguments that are \<open>None\<close> or name no attribute are skipped.\<close>

fun set_attrs :: "'row model \<Rightarrow> (string \<times> colval) list \<Rightarrow> 'row \<Rightarrow> 'row option" where
  "set_attrs M [] r = Some r"
| "set_attrs M ((k, v) # kvs) r =
     (if v \<noteq> CNull then
        (case M k of
           None \<Rightarrow> set_attrs M kvs r
         | Some a \<Rightarrow> (case a_set a v r of None \<Rightarrow> None | Some r' \<Rightarrow> set_attrs M kvs r'))
      else set_attrs M kvs r)"

definition repo_update ::
  "'row model \<Rightarrow> ('db, 'row) table \<Rightarrow> uuid \<Rightarrow> (string \<times> colval) list \<Rightarrow> ('db, 'row option) db_act" where
  "repo_update M T i kvs =
     bindA (repo_get T i) (\<lambda>x. case x of
       None \<Rightarrow> retA None
     | Some r \<Rightarrow> (case set_attrs M kvs r of
         None \<Rightarrow> failA DatabaseError
       | Some r' \<Rightarrow> bindA (t_put T i r') (\<lambda>_. bindA (refresh T i) (\<lambda>r''. retA (Some r'')))))"

definition repo_delete :: "('db, 'row) table \<Rightarrow> uuid \<Rightarrow> ('db, bool) db_act" where
  "repo_delete T i =
     bindA (repo_get T i) (\<lambda>x. case x of
       None \<Rightarrow> retA False
     | Some r \<Rightarrow> bindA (t_del T i) (\<lambda>_. retA True))"

text \<open>\<open>_apply_filters\<close>: a value, \<open>None\<close> or a list per attribute; unknown names are ignored.\<close>

datatype fval = FEq colval | FIn "colval list"

fun matches :: "colval \<Rightarrow> fval \<Rightarrow> bool" where
  "matches c (FEq v) = (c = v)"
| "matches c (FIn vs) = (c \<noteq> CNull \<and> c \<in> set vs)"

fun apply_filters :: "'row model \<Rightarrow> (string \<times> fval) list \<Rightarrow> 'row \<Rightarrow> bool" where
  "apply_filters M [] r = True"
| "apply_filters M ((k, f) # fs) r =
     ((case M k of None \<Rightarrow> True | Some a \<Rightarrow> matches (a_get a r) f) \<and> apply_filters M fs r)"

definition page_of :: "int \<Rightarrow> int \<Rightarrow> 'row list \<Rightarrow> 'row list" where
  "page_of skip limit rows = take (nat limit) (drop (nat skip) rows)"

text \<open>
  The timestamp columns of every model are written by the database and are not part of a row
  here; they can be ordered by.
\<close>

definition has_column :: "'row model \<Rightarrow> string \<Rightarrow> bool" where
  "has_column M k \<longleftrightarrow> M k \<noteq> None \<or> k = ''created_at'' \<or> k = ''updated_at''"

definition get_many ::
  "'row model \<Rightarrow> ('db, 'row) table \<Rightarrow> int \<Rightarrow> int \<Rightarrow> (string \<times> fval) list \<Rightarrow> (string \<times> bool) option
   \<Rightarrow> ('db, 'row list \<times> nat) db_act" where
  "get_many M T skip limit filters order_by db =
     (let c = apply_filters M filters;
          total_rows = length (t_select T db c None);
          ord = (case order_by of Some (k, d) \<Rightarrow> if has_column M k then order_by else None | None \<Rightarrow> None) in
      if skip < 0 \<or> limit < 0 then (Inl DatabaseError, db)
      else (Inr (page_of skip limit (t_select T db c ord), total_rows), db))"

definition repo_exists :: "'row model \<Rightarrow> ('db, 'row) table \<Rightarrow> (string \<times> fval) list \<Rightarrow> ('db, bool) db_act" where
  "repo_exists M T filters = readA (\<lambda>db. t_select T db (apply_filters M filters) None \<noteq> [])"

section \<open>The order repository\<close>

definition get_with_items :: "'db store \<Rightarrow> uuid \<Rightarrow> ('db, (order \<times> order_item list) option) db_act" where
  "get_with_items S i = readA (\<lambda>db. map_option (\<lambda>o'. (o', items_of S db i)) (t_get (orders S) db i))"

definition find_by_customer :: "'db store \<Rightarrow> uuid \<Rightarrow> int \<Rightarrow> int \<Rightarrow> ('db, order list \<times> nat) db_act" where
  "find_by_customer S c skip limit =
     get_many Order (orders S) skip limit [(''customer_id'', FEq (CId c))] (Some (''created_at'', True))"

definition find_by_status :: "'db store \<Rightarrow> string \<Rightarrow> int \<Rightarrow> int \<Rightarrow> ('db, order list \<times> nat) db_act" where
  "find_by_status S st skip limit =
     get_many Order (orders S) skip limit [(''status'', FEq (CStr st))] (Some (''created_at'', True))"

definition add_order_item :: "'db store \<Rightarrow> uuid \<Rightarrow> uuid \<Rightarrow> int \<Rightarrow> rat \<Rightarrow> string \<Rightarrow> ('db, order_item) db_act" where
  "add_order_item S oid pid q price cur =
     (let it = \<lparr>i_order_id = oid, i_product_id = pid, i_quantity = q, i_unit_price = price,
                i_currency = cur\<rparr> in
      bindA (items_add S it) (\<lambda>_. retA it))"

definition update_status :: "'db store \<Rightarrow> uuid \<Rightarrow> string \<Rightarrow> ('db, order option) db_act" where
  "update_status S i st = repo_update Order (orders S) i [(''status'', CStr st)]"

section \<open>The product repository\<close>

text \<open>\<open>scalar_one_or_none\<close> raises when there are several rows.\<close>

definition one_or_none :: "'row list \<Rightarrow> ('db, 'row option) db_act" where
  "one_or_none rows = (case rows of [] \<Rightarrow> retA None | [r] \<Rightarrow> retA (Some r) | _ \<Rightarrow> failA DatabaseError)"

definition find_by_asin :: "'db store \<Rightarrow> string \<Rightarrow> ('db, product option) db_act" where
  "find_by_asin S a db = one_or_none (t_select (products S) db (\<lambda>p. p_asin p = a) None) db"

definition find_by_upc :: "'db store \<Rightarrow> string \<Rightarrow> ('db, product option) db_act" where
  "find_by_upc S u db = one_or_none (t_select (products S) db (\<lambda>p. p_upc p = Some u) None) db"

definition find_by_category_id :: "'db store \<Rightarrow> string \<Rightarrow> int \<Rightarrow> int \<Rightarrow> ('db, product list \<times> nat) db_act" where
  "find_by_category_id S c skip limit =
     get_many Product (products S) skip limit
       [(''category_id'', FEq (CStr c)), (''is_active'', FEq (CBool True))] None"

definition get_active_products :: "'db store \<Rightarrow> int \<Rightarrow> int \<Rightarrow> ('db, product list \<times> nat) db_act" where
  "get_active_products S skip limit =
     get_many Product (products S) skip limit [(''is_active'', FEq (CBool True))] (Some (''title'', False))"

definition find_by_brand :: "'db store \<Rightarrow> string \<Rightarrow> int \<Rightarrow> int \<Rightarrow> ('db, product list \<times> nat) db_act" where
  "find_by_brand S b skip limit =
     get_many Product (products S) skip limit
       [(''brand_id'', FEq (CStr b)), (''is_active'', FEq (CBool True))] None"

text \<open>\<open>ILIKE\<close> is the database's: an argument.\<close>

definition search_products ::
  "(string \<Rightarrow> string \<Rightarrow> bool) \<Rightarrow> 'db store \<Rightarrow> string \<Rightarrow> int \<Rightarrow> int \<Rightarrow> ('db, product list \<times> nat) db_act" where
  "search_products ilike S q skip limit db =
     (let pat = ''%'' @ q @ ''%'';
          c = (\<lambda>p. ilike (p_title p) pat
                 \<or> (case p_description p of None \<Rightarrow> False | Some d \<Rightarrow> ilike d pat)) in
      if skip < 0 \<or> limit < 0 then (Inl DatabaseError, db)
      else (Inr (page_of skip limit (t_select (products S) db c None),
                 length (t_select (products S) db c None)), db))"

section \<open>The product service\<close>

definition create_product ::
  "'db store \<Rightarrow> product \<Rightarrow> ('db, product) db_act" where
  "create_product S data =
     bindA (find_by_asin S (p_asin data)) (\<lambda>existing.
     case existing of
       Some _ \<Rightarrow> failA (ProductASINConflictError (p_asin data))
     | None \<Rightarrow>
         bindA (readA (fresh_uuid S)) (\<lambda>i.
         repo_create (products S) i
           (data\<lparr>p_id := i, p_image_urls := None, p_is_active := True, p_is_amazon_fba := False,
                 p_is_amazon_brand := False\<rparr>)))"

definition get_product :: "'db store \<Rightarrow> uuid \<Rightarrow> ('db, product) db_act" where
  "get_product S i =
     bindA (repo_get (products S) i) (\<lambda>x. case x of
       None \<Rightarrow> failA (ProductNotFoundError i) | Some p \<Rightarrow> retA p)"

definition get_product_by_asin :: "'db store \<Rightarrow> string \<Rightarrow> ('db, product) db_act" where
  "get_product_by_asin S a =
     bindA (find_by_asin S a) (\<lambda>x. case x of
       None \<Rightarrow> failA (ProductNotFoundError 0) | Some p \<Rightarrow> retA p)"

text \<open>Empty strings are falsy: the first non-empty argument selects the query.\<close>

definition list_products ::
  "(string \<Rightarrow> string \<Rightarrow> bool) \<Rightarrow> 'db store \<Rightarrow> int \<Rightarrow> int \<Rightarrow> string \<Rightarrow> string \<Rightarrow> string
   \<Rightarrow> ('db, product list \<times> nat) db_act" where
  "list_products ilike S page page_size category_id search brand_id =
     (let skip = (page - 1) * page_size in
      if search \<noteq> [] then search_products ilike S search skip page_size
      else if category_id \<noteq> [] then find_by_category_id S category_id skip page_size
      else if brand_id \<noteq> [] then find_by_brand S brand_id skip page_size
      else get_active_products S skip page_size)"

definition update_product :: "'db store \<Rightarrow> uuid \<Rightarrow> (string \<times> colval) list \<Rightarrow> ('db, product) db_act" where
  "update_product S i kvs =
     bindA (repo_get (products S) i) (\<lambda>x. case x of
       None \<Rightarrow> failA (ProductNotFoundError i)
     | Some _ \<Rightarrow> bindA (repo_update Product (products S) i kvs) (\<lambda>u. case u of
         None \<Rightarrow> failA (ProductNotFoundError i) | Some p \<Rightarrow> retA p))"

definition delete_product :: "'db store \<Rightarrow> uuid \<Rightarrow> ('db, unit) db_act" where
  "delete_product S i =
     bindA (repo_delete (products S) i) (\<lambda>d. if d then retA () else failA (ProductNotFoundError i))"

definition check_stock :: "'db store \<Rightarrow> uuid \<Rightarrow> int \<Rightarrow> ('db, product) db_act" where
  "check_stock S i q =
     bindA (get_product S i) (\<lambda>p.
       if \<not> has_available_stock p q then failA (InsufficientStockError i q) else retA p)"

section \<open>The order service\<close>

definition VALID_STATUSES :: "string list" where
  "VALID_STATUSES = [''pending'', ''confirmed'', ''processing'', ''shipped'', ''delivered'',
     ''cancelled'', ''refunded'']"

text \<open>The validator of \<open>OrderStatusUpdate.status\<close>.\<close>

definition validate_status :: "string \<Rightarrow> string py" where
  "validate_status v = (let n = lower (strip v) in
     if length v \<le> 50 \<and> n \<in> set VALID_STATUSES then Inr n else Inl ValidationError)"

definition ALLOWED_TRANSITIONS :: "string \<rightharpoonup> string list" where
  "ALLOWED_TRANSITIONS =
     [''pending'' \<mapsto> [''confirmed'', ''cancelled''],
      ''confirmed'' \<mapsto> [''processing'', ''cancelled''],
      ''processing'' \<mapsto> [''shipped'', ''cancelled''],
      ''shipped'' \<mapsto> [''delivered'', ''cancelled''],
      ''delivered'' \<mapsto> [''refunded''],
      ''cancelled'' \<mapsto> [],
      ''refunded'' \<mapsto> []]"

definition allowed_from :: "string \<Rightarrow> string list" where
  "allowed_from s = (case ALLOWED_TRANSITIONS s of None \<Rightarrow> [] | Some ts \<Rightarrow> ts)"

record order_create =
  oc_customer_id :: uuid
  oc_items :: "(uuid \<times> int) list"
  oc_shipping_address :: "string option"
  oc_notes :: "string option"

text \<open>The constraints of the schema \<open>OrderCreate\<close>.\<close>

definition order_create_ok :: "order_create \<Rightarrow> bool" where
  "order_create_ok d \<longleftrightarrow>
     1 \<le> length (oc_items d) \<and> length (oc_items d) \<le> 100 \<and> distinct (map fst (oc_items d))
     \<and> (case oc_shipping_address d of None \<Rightarrow> True | Some a \<Rightarrow> length a \<le> 10000)
     \<and> (case oc_notes d of None \<Rightarrow> True | Some n \<Rightarrow> length n \<le> 5000)
     \<and> (\<forall>(i, q) \<in> set (oc_items d). 0 < q \<and> q \<le> 10000)"

text \<open>The validation loop before the order is created.\<close>

fun check_items :: "'db store \<Rightarrow> (uuid \<times> int) list \<Rightarrow> ('db, unit) db_act" where
  "check_items S [] = retA ()"
| "check_items S ((i, q) # its) =
     bindA (repo_get (products S) i) (\<lambda>x. case x of
       None \<Rightarrow> failA (ProductNotFoundError i)
     | Some p \<Rightarrow>
         if \<not> has_available_stock p q then failA (InsufficientStockError i q)
         else check_items S its)"

text \<open>The loop that adds the line items and accumulates the total.\<close>

fun add_items :: "'db store \<Rightarrow> uuid \<Rightarrow> rat \<Rightarrow> (uuid \<times> int) list \<Rightarrow> ('db, rat) db_act" where
  "add_items S oid ttl [] = retA ttl"
| "add_items S oid ttl ((i, q) # its) =
     bindA (repo_get (products S) i) (\<lambda>x. case x of
       None \<Rightarrow> failA (ProductNotFoundError i)
     | Some p \<Rightarrow>
         bindA (add_order_item S oid i q (p_price p) (p_currency p)) (\<lambda>_.
         add_items S oid (dadd ttl (dmul (p_price p) (of_int q))) its))"

definition create_order :: "'db store \<Rightarrow> order_create \<Rightarrow> ('db, order \<times> order_item list) db_act" where
  "create_order S d =
     bindA (check_items S (oc_items d)) (\<lambda>_.
     bindA (readA (fresh_uuid S)) (\<lambda>i.
     bindA (repo_create (orders S) i
       \<lparr>o_id = i, o_customer_id = oc_customer_id d, o_status = ''pending'', o_total_amount = 0,
        o_currency = ''USD'', o_shipping_address = oc_shipping_address d, o_notes = oc_notes d\<rparr>) (\<lambda>o'.
     bindA (add_items S (o_id o') 0 (oc_items d)) (\<lambda>ttl.
     bindA (repo_update Order (orders S) (o_id o') [(''total_amount'', CDec ttl)]) (\<lambda>_.
     bindA (get_with_items S (o_id o')) (\<lambda>x. case x of
       None \<Rightarrow> failA (OrderNotFoundError (o_id o')) | Some r \<Rightarrow> retA r))))))"

definition get_order :: "'db store \<Rightarrow> uuid \<Rightarrow> ('db, order \<times> order_item list) db_act" where
  "get_order S i =
     bindA (get_with_items S i) (\<lambda>x. case x of
       None \<Rightarrow> failA (OrderNotFoundError i) | Some r \<Rightarrow> retA r)"

definition list_orders ::
  "'db store \<Rightarrow> int \<Rightarrow> int \<Rightarrow> uuid option \<Rightarrow> string \<Rightarrow> ('db, order list \<times> nat) db_act" where
  "list_orders S page page_size customer_id st =
     (let skip = (page - 1) * page_size in
      case customer_id of
        Some c \<Rightarrow> find_by_customer S c skip page_size
      | None \<Rightarrow>
          if st \<noteq> [] then find_by_status S st skip page_size
          else get_many Order (orders S) skip page_size [] (Some (''created_at'', True)))"

text \<open>The loop of the confirmation: each product is read and its stock reduced.\<close>

fun reduce_stocks :: "'db store \<Rightarrow> order_item list \<Rightarrow> ('db, unit) db_act" where
  "reduce_stocks S [] = retA ()"
| "reduce_stocks S (it # its) =
     bindA (repo_get (products S) (i_product_id it)) (\<lambda>x. case x of
       None \<Rightarrow> reduce_stocks S its
     | Some p \<Rightarrow>
         (if reduce_stock p (i_quantity it) = p then reduce_stocks S its
          else bindA (t_put (products S) (i_product_id it) (reduce_stock p (i_quantity it)))
                 (\<lambda>_. reduce_stocks S its)))"

definition update_order_status ::
  "'db store \<Rightarrow> uuid \<Rightarrow> string \<Rightarrow> string option \<Rightarrow> ('db, order) db_act" where
  "update_order_status S i st notes =
     bindA (repo_get (orders S) i) (\<lambda>x. case x of
       None \<Rightarrow> failA (OrderNotFoundError i)
     | Some o' \<Rightarrow>
         if st \<notin> set (allowed_from (o_status o'))
         then failA (InvalidOrderStatusTransitionError (o_status o') st)
         else
           bindA
             (if st = ''confirmed'' \<and> o_status o' = ''pending''
              then bindA (get_with_items S i) (\<lambda>y. case y of
                     None \<Rightarrow> failA (OrderNotFoundError i)
                   | Some (_, its) \<Rightarrow> reduce_stocks S its)
              else retA ()) (\<lambda>_.
           bindA (repo_update Order (orders S) i
             ((''status'', CStr st)
              # (case notes of Some n \<Rightarrow> if n = [] then [] else [(''notes'', CStr n)] | None \<Rightarrow> [])))
             (\<lambda>u. case u of None \<Rightarrow> failA (OrderNotFoundError i) | Some r \<Rightarrow> retA r)))"

definition cancel_order :: "'db store \<Rightarrow> uuid \<Rightarrow> ('db, order) db_act" where
  "cancel_order S i = update_order_status S i ''cancelled'' None"

section \<open>The transaction of a request\<close>

text \<open>\<open>get_db\<close>: commit when the handler returns, roll back when it raises.\<close>

definition in_request :: "('db, 'a) db_act \<Rightarrow> ('db, 'a) db_act" where
  "in_request m db = (case m db of (Inl e, _) \<Rightarrow> (Inl e, db) | (Inr x, db') \<Rightarrow> (Inr x, db'))"

text \<open>\<open>max(1, math.ceil(total / page_size))\<close>: a float division.\<close>

definition total_pages :: "nat \<Rightarrow> int \<Rightarrow> int" where
  "total_pages n page_size = max 1 \<lceil>fl (of_nat n / of_int page_size)\<rceil>"

end
