(* ===== verification/CommerceProps.thy ===== *)
theory CommerceProps
  imports CommerceServices
begin

text \<open>
  The properties of the order service: the books of a created order, the state machine of the
  statuses over whole histories of requests, what an update changes, pagination.
\<close>

section \<open>What the code relies on from the session\<close>

text \<open>
  A flushed row is read back by its key, other keys and other tables are untouched, a deleted
  row is gone, a \<open>SELECT\<close> delivers the rows that satisfy the condition and an \<open>ORDER BY\<close> only
  permutes them. \<open>fits\<close> says that a value is within the scale of its column; the amount columns
  have two decimals.
\<close>

definition lawful_table :: "('row \<Rightarrow> bool) \<Rightarrow> ('db, 'row) table \<Rightarrow> bool" where
  "lawful_table fits T \<longleftrightarrow>
     (\<forall>db i r db'. fits r \<longrightarrow> t_put T i r db = (Inr (), db') \<longrightarrow> t_get T db' = (t_get T db)(i \<mapsto> r))
     \<and> (\<forall>db i db'. t_del T i db = (Inr (), db') \<longrightarrow> t_get T db' = (t_get T db)(i := None))
     \<and> (\<forall>db c k. mset (t_select T db c k) = mset (t_select T db c None))
     \<and> (\<forall>db c k. set (t_select T db c k) = {r. (\<exists>i. t_get T db i = Some r) \<and> c r})"

definition order_fits :: "order \<Rightarrow> bool" where
  "order_fits o' \<longleftrightarrow> on_grid 2 (o_total_amount o')"

definition product_fits :: "product \<Rightarrow> bool" where
  "product_fits p \<longleftrightarrow> on_grid 2 (p_price p)"

definition lawful_store :: "'db store \<Rightarrow> bool" where
  "lawful_store S \<longleftrightarrow>
     lawful_table order_fits (orders S) \<and> lawful_table product_fits (products S)
     \<and> (\<forall>db i r db'. t_put (orders S) i r db = (Inr (), db') \<longrightarrow>
          t_get (products S) db' = t_get (products S) db \<and> items_of S db' = items_of S db)
     \<and> (\<forall>db it db'. items_add S it db = (Inr (), db') \<longrightarrow>
          t_get (products S) db' = t_get (products S) db
          \<and> t_get (orders S) db' = t_get (orders S) db
          \<and> items_of S db' = (items_of S db)
               (i_order_id it := items_of S db (i_order_id it) @ [it]))
     \<and> (\<forall>db. t_get (orders S) db (fresh_uuid S db) = None \<and> items_of S db (fresh_uuid S db) = [])"

lemma put_order:
  assumes "lawful_store S" and "t_put (orders S) i r db = (Inr (), db')"
  shows "order_fits r \<longrightarrow> t_get (orders S) db' = (t_get (orders S) db)(i \<mapsto> r)"
    and "t_get (products S) db' = t_get (products S) db" and "items_of S db' = items_of S db"
proof -
  have "lawful_table order_fits (orders S)" using assms(1) by (simp add: lawful_store_def)
  then show "order_fits r \<longrightarrow> t_get (orders S) db' = (t_get (orders S) db)(i \<mapsto> r)"
    using assms(2) by (simp add: lawful_table_def)
  show "t_get (products S) db' = t_get (products S) db" "items_of S db' = items_of S db"
    using assms unfolding lawful_store_def by blast+
qed

lemma add_item:
  assumes "lawful_store S" and "items_add S it db = (Inr (), db')"
  shows "t_get (products S) db' = t_get (products S) db" and "t_get (orders S) db' = t_get (orders S) db"
    and "items_of S db' = (items_of S db)(i_order_id it := items_of S db (i_order_id it) @ [it])"
  using assms unfolding lawful_store_def by blast+

lemma fresh:
  assumes "lawful_store S"
  shows "t_get (orders S) db (fresh_uuid S db) = None" and "items_of S db (fresh_uuid S db) = []"
  using assms unfolding lawful_store_def by blast+

section \<open>Repository operations\<close>

lemma run_get [simp]: "repo_get T i db = (Inr (t_get T db i), db)"
  by (simp add: repo_get_def)

lemma run_refresh: "refresh T i db = (Inr r, db') \<longleftrightarrow> db' = db \<and> t_get T db i = Some r"
  by (auto simp: refresh_def result_simps split: option.splits)

lemma create_order_row:
  assumes S: "lawful_store S" and "order_fits r" and "repo_create (orders S) i r db = (Inr r', db')"
  shows "r' = r \<and> t_get (orders S) db' = (t_get (orders S) db)(i \<mapsto> r)
    \<and> t_get (products S) db' = t_get (products S) db \<and> items_of S db' = items_of S db"
proof -
  from assms(3) have p: "t_put (orders S) i r db = (Inr (), db')" and g: "t_get (orders S) db' i = Some r'"
    by (auto simp: repo_create_def result_simps run_refresh)
  with put_order [OF S p] assms(2) show ?thesis by simp
qed

lemma update_order_row:
  assumes S: "lawful_store S" and "t_get (orders S) db i = Some r"
    and "set_attrs Order kvs r = Some r'" and "order_fits r'"
    and "repo_update Order (orders S) i kvs db = (Inr u, db')"
  shows "u = Some r' \<and> t_get (orders S) db' = (t_get (orders S) db)(i \<mapsto> r')
    \<and> t_get (products S) db' = t_get (products S) db \<and> items_of S db' = items_of S db"
proof -
  from assms(2,3,5) obtain r'' where p: "t_put (orders S) i r' db = (Inr (), db')"
    and g: "t_get (orders S) db' i = Some r''" "u = Some r''"
    by (auto simp: repo_update_def result_simps run_refresh)
  with put_order [OF S p] assms(4) show ?thesis by simp
qed

section \<open>Creating an order\<close>

lemma check_items_state: "check_items S its db = (r, db') \<Longrightarrow> db' = db"
  by (induction S its arbitrary: r db' rule: check_items.induct)
     (auto simp: has_available_stock_def bindA_def split: option.splits)

lemma check_items_Inr:
  "check_items S its db = (Inr (), db)
    \<longleftrightarrow> (\<forall>(i, q) \<in> set its. t_get (products S) db i \<noteq> None)"
  by (induction S its rule: check_items.induct)
     (auto simp: has_available_stock_def bindA_def split: option.splits)

lemma check_items_Inl:
  assumes "\<exists>(i, q) \<in> set its. t_get (products S) db i = None"
  shows "\<exists>i. i \<in> fst ` set its \<and> t_get (products S) db i = None
    \<and> check_items S its db = (Inl (ProductNotFoundError i), db)"
  using assms
  by (induction S its rule: check_items.induct)
     (auto simp: has_available_stock_def bindA_def split: option.splits)

text \<open>The line a request item becomes.\<close>

definition line_of :: "'db store \<Rightarrow> 'db \<Rightarrow> uuid \<Rightarrow> uuid \<times> int \<Rightarrow> order_item" where
  "line_of S db oid = (\<lambda>(i, q). let p = the (t_get (products S) db i) in
     \<lparr>i_order_id = oid, i_product_id = i, i_quantity = q, i_unit_price = p_price p,
      i_currency = p_currency p\<rparr>)"

lemma line_of_cong: "t_get (products S) db = t_get (products S) db' \<Longrightarrow> line_of S db = line_of S db'"
  by (simp add: line_of_def fun_eq_iff)

lemma add_items_Inr:
  assumes "lawful_store S" and "add_items S oid ttl its db = (Inr v, db')"
  shows "t_get (products S) db' = t_get (products S) db
    \<and> t_get (orders S) db' = t_get (orders S) db
    \<and> items_of S db' = (items_of S db)(oid := items_of S db oid @ map (line_of S db oid) its)
    \<and> v = foldl (\<lambda>t it. dadd t (subtotal it)) ttl (map (line_of S db oid) its)"
  using assms(2)
proof (induction its arbitrary: ttl db)
  case (Cons x its)
  obtain i q where x: "x = (i, q)" by (cases x)
  from Cons.prems obtain p db1 where p: "t_get (products S) db i = Some p"
    and a: "items_add S (line_of S db oid (i, q)) db = (Inr (), db1)"
    and r: "add_items S oid (dadd ttl (dmul (p_price p) (of_int q))) its db1 = (Inr v, db')"
    by (auto simp: x result_simps add_order_item_def Let_def line_of_def split: option.splits)
  note ad = add_item [OF assms(1) a]
  from Cons.IH [OF r] ad line_of_cong [OF ad(1)] p show ?case
    by (simp add: x line_of_def subtotal_def fun_eq_iff)
qed simp

text \<open>Prices in whole cents below ten billion, as the column \<open>Numeric(12, 2)\<close> holds them.\<close>

definition priced :: "'db store \<Rightarrow> 'db \<Rightarrow> bool" where
  "priced S db \<longleftrightarrow> (\<forall>i p. t_get (products S) db i = Some p \<longrightarrow> 0 \<le> p_price p \<and> small 2 (10 ^ 10) (p_price p))"

lemma foldl_exact:
  assumes "\<forall>x \<in> set xs. small 2 (10 ^ 14) x" and "small 2 A t" and "A + of_nat (length xs) * 10 ^ 14 \<le> 10 ^ 26"
  shows "foldl dadd t xs = t + sum_list xs \<and> small 2 (A + of_nat (length xs) * 10 ^ 14) (t + sum_list xs)"
  using assms
proof (induction xs arbitrary: A t)
  case (Cons x xs)
  have x: "small 2 (10 ^ 14) x" using Cons.prems(1) by simp
  have l: "(0 :: rat) \<le> of_nat (length xs)" by simp
  have b: "A + 10 ^ 14 + of_nat (length xs) * 10 ^ 14 \<le> 10 ^ 26"
    using Cons.prems(3) by (simp add: distrib_right)
  then have "A + 10 ^ 14 \<le> 10 ^ (28 - 2)" using l by simp
  then have e: "dadd t x = t + x" by (intro dadd_small [OF Cons.prems(2) x]) simp_all
  from Cons.IH [OF _ small_add [OF Cons.prems(2) x] b] Cons.prems(1) show ?case
    by (simp add: e add.assoc distrib_right)
qed simp

lemma subtotal_exact:
  assumes "0 \<le> i_unit_price it" "small 2 (10 ^ 10) (i_unit_price it)" "0 < i_quantity it" "i_quantity it \<le> 10000"
  shows "subtotal it = i_unit_price it * of_int (i_quantity it)" and "small 2 (10 ^ 14) (subtotal it)"
proof -
  have "of_int (i_quantity it) \<le> (of_int 10000 :: rat)" using assms(4) by (simp only: of_int_le_iff)
  then have "small 0 10000 (of_int (i_quantity it))" using assms(3) by (simp add: small_def)
  from small_mult [OF assms(2) this] have s: "small 2 (10 ^ 14) (i_unit_price it * of_int (i_quantity it))"
    by simp
  then have "dec (i_unit_price it * of_int (i_quantity it)) = i_unit_price it * of_int (i_quantity it)"
    by (rule dec_small) simp_all
  then show "subtotal it = i_unit_price it * of_int (i_quantity it)" by (simp add: subtotal_def dmul_def)
  with s show "small 2 (10 ^ 14) (subtotal it)" by simp
qed

lemma order_total_exact:
  fixes oid :: uuid
  assumes "order_create_ok d" and "priced S db" and "\<forall>(i, q) \<in> set (oc_items d). t_get (products S) db i \<noteq> None"
  defines "its \<equiv> map (line_of S db oid) (oc_items d)"
  shows "foldl (\<lambda>t it. dadd t (subtotal it)) 0 its
      = (\<Sum>it \<leftarrow> its. i_unit_price it * of_int (i_quantity it))"
    and "on_grid 2 (foldl (\<lambda>t it. dadd t (subtotal it)) 0 its)"
proof -
  have it: "0 \<le> i_unit_price it \<and> small 2 (10 ^ 10) (i_unit_price it) \<and> 0 < i_quantity it
      \<and> i_quantity it \<le> 10000" if it: "it \<in> set its" for it
  proof -
    from it obtain i q where iq: "(i, q) \<in> set (oc_items d)" "it = line_of S db oid (i, q)"
      by (auto simp: its_def)
    then obtain p where "t_get (products S) db i = Some p" using assms(3) by fastforce
    with iq assms(1,2) show ?thesis
      by (auto simp: line_of_def Let_def order_create_ok_def priced_def)
  qed
  then have "\<forall>x \<in> set its. small 2 (10 ^ 14) (subtotal x)"
    using subtotal_exact(2) by blast
  then have "\<forall>x \<in> set (map subtotal its). small 2 (10 ^ 14) x" by simp
  moreover have "length its \<le> 100" using assms(1) by (simp add: its_def order_create_ok_def)
  then have "of_nat (length its) \<le> (of_nat 100 :: rat)" by (simp only: of_nat_le_iff)
  then have "0 + of_nat (length (map subtotal its)) * 10 ^ 14 \<le> (10 ^ 26 :: rat)" by simp
  ultimately have f: "foldl dadd 0 (map subtotal its) = sum_list (map subtotal its)"
    "on_grid 2 (sum_list (map subtotal its))"
    using foldl_exact [of "map subtotal its" 0 0] by (simp_all add: small_def)
  have "map subtotal its = map (\<lambda>it. i_unit_price it * of_int (i_quantity it)) its"
    using it subtotal_exact(1) by (intro map_cong refl) blast
  moreover have "foldl (\<lambda>t it. dadd t (subtotal it)) 0 its = foldl dadd 0 (map subtotal its)"
    by (simp add: foldl_map)
  ultimately show "foldl (\<lambda>t it. dadd t (subtotal it)) 0 its
      = (\<Sum>it \<leftarrow> its. i_unit_price it * of_int (i_quantity it))"
    "on_grid 2 (foldl (\<lambda>t it. dadd t (subtotal it)) 0 its)"
    using f by (simp_all only:)
qed

lemma set_total [simp]:
  "set_attrs Order [(''total_amount'', CDec v)] r = Some (r\<lparr>o_total_amount := v\<rparr>)"
  by (simp add: Order_def attr_def)

text \<open>The run of a creation, step by step.\<close>

lemma create_order_run:
  assumes S: "lawful_store S" and ok: "order_create_ok d" "priced S db"
    and run: "create_order S d db = (Inr (o', its), db')"
  shows "(\<forall>(i, q) \<in> set (oc_items d). t_get (products S) db i \<noteq> None)
    \<and> o_id o' = fresh_uuid S db \<and> its = map (line_of S db (o_id o')) (oc_items d)
    \<and> o' = \<lparr>o_id = fresh_uuid S db, o_customer_id = oc_customer_id d, o_status = ''pending'',
            o_total_amount = foldl (\<lambda>t it. dadd t (subtotal it)) 0 its, o_currency = ''USD'',
            o_shipping_address = oc_shipping_address d, o_notes = oc_notes d\<rparr>
    \<and> t_get (orders S) db' = (t_get (orders S) db)(o_id o' \<mapsto> o')
    \<and> t_get (products S) db' = t_get (products S) db
    \<and> items_of S db' = (items_of S db)(o_id o' := its)"
proof -
  define new where "new = \<lparr>o_id = fresh_uuid S db, o_customer_id = oc_customer_id d,
    o_status = ''pending'', o_total_amount = 0, o_currency = ''USD'',
    o_shipping_address = oc_shipping_address d, o_notes = oc_notes d\<rparr>"
  from run obtain r1 db1 ttl db2 u db3 where
    c: "check_items S (oc_items d) db = (Inr (), db)"
    and r1: "repo_create (orders S) (fresh_uuid S db) new db = (Inr r1, db1)"
    and a: "add_items S (o_id r1) 0 (oc_items d) db1 = (Inr ttl, db2)"
    and u: "repo_update Order (orders S) (o_id r1) [(''total_amount'', CDec ttl)] db2 = (Inr u, db3)"
    and g: "get_with_items S (o_id r1) db3 = (Inr (Some (o', its)), db')"
    unfolding new_def
    by (auto simp: create_order_def result_simps dest: check_items_state split: option.splits)
  have all: "\<forall>(i, q) \<in> set (oc_items d). t_get (products S) db i \<noteq> None"
    using c by (simp add: check_items_Inr)
  have "order_fits new" by (simp add: order_fits_def new_def)
  from create_order_row [OF S this r1] have 1: "r1 = new"
    "t_get (orders S) db1 = (t_get (orders S) db)(fresh_uuid S db \<mapsto> new)"
    "t_get (products S) db1 = t_get (products S) db" "items_of S db1 = items_of S db" by auto
  have id: "o_id new = fresh_uuid S db" by (simp add: new_def)
  define ls where "ls = map (line_of S db (fresh_uuid S db)) (oc_items d)"
  from add_items_Inr [OF S a] have 2: "t_get (products S) db2 = t_get (products S) db"
    "t_get (orders S) db2 = t_get (orders S) db1"
    "items_of S db2 = (items_of S db)(fresh_uuid S db := ls)"
    "ttl = foldl (\<lambda>t it. dadd t (subtotal it)) 0 ls"
    unfolding 1(1) id ls_def using 1 fresh(2) [OF S] line_of_cong [OF 1(3)] by auto
  have fits: "order_fits (new\<lparr>o_total_amount := ttl\<rparr>)"
    using order_total_exact(2) [OF ok all] 2(4) by (simp add: order_fits_def ls_def)
  have row: "t_get (orders S) db2 (fresh_uuid S db) = Some new" using 1 2 by simp
  from update_order_row [OF S row set_total fits] u
  have 3: "t_get (orders S) db3 = (t_get (orders S) db)(fresh_uuid S db \<mapsto> new\<lparr>o_total_amount := ttl\<rparr>)"
    "t_get (products S) db3 = t_get (products S) db" "items_of S db3 = (items_of S db)(fresh_uuid S db := ls)"
    unfolding 1(1) id using 1 2 by auto
  from g have "db' = db3" "o' = new\<lparr>o_total_amount := ttl\<rparr>" "its = ls"
    unfolding 1(1) id using 3 by (auto simp: get_with_items_def)
  with all 3 2(4) show ?thesis by (simp add: new_def ls_def)
qed

section \<open>Changing the status\<close>

lemma reduce_stocks_nop: "reduce_stocks S its db = (Inr (), db)"
  by (induction S its rule: reduce_stocks.induct)
     (simp_all add: reduce_stock_def bindA_def split: option.splits)

definition with_status :: "string \<Rightarrow> string option \<Rightarrow> order \<Rightarrow> order" where
  "with_status st nt o' = o'\<lparr>o_status := st,
     o_notes := (case nt of Some n \<Rightarrow> if n = [] then o_notes o' else Some n | None \<Rightarrow> o_notes o')\<rparr>"

lemma set_status:
  "set_attrs Order ((''status'', CStr st)
     # (case nt of Some n \<Rightarrow> if n = [] then [] else [(''notes'', CStr n)] | None \<Rightarrow> [])) r
   = Some (with_status st nt r)"
  by (simp add: Order_def attr_def with_status_def split: option.split)

lemma update_order_status_unfold:
  assumes "t_get (orders S) db i = Some o'" and "st \<in> set (allowed_from (o_status o'))"
  shows "update_order_status S i st nt db =
    bindA (repo_update Order (orders S) i ((''status'', CStr st)
      # (case nt of Some n \<Rightarrow> if n = [] then [] else [(''notes'', CStr n)] | None \<Rightarrow> [])))
      (\<lambda>u. case u of None \<Rightarrow> failA (OrderNotFoundError i) | Some r \<Rightarrow> retA r) db"
  using assms
  by (cases "st = ''confirmed'' \<and> o_status o' = ''pending''")
     (simp_all add: update_order_status_def bindA_def get_with_items_def reduce_stocks_nop)

lemma update_order_status_Inr:
  assumes S: "lawful_store S" and o': "t_get (orders S) db i = Some o'" "order_fits o'"
    and run: "update_order_status S i st nt db = (Inr r, db')"
  shows "st \<in> set (allowed_from (o_status o')) \<and> r = with_status st nt o'
    \<and> t_get (orders S) db' = (t_get (orders S) db)(i \<mapsto> r)
    \<and> t_get (products S) db' = t_get (products S) db \<and> items_of S db' = items_of S db"
proof -
  have a: "st \<in> set (allowed_from (o_status o'))"
    using run o'(1) by (auto simp: update_order_status_def result_simps split: if_splits)
  obtain u where u: "repo_update Order (orders S) i ((''status'', CStr st)
      # (case nt of Some n \<Rightarrow> if n = [] then [] else [(''notes'', CStr n)] | None \<Rightarrow> [])) db = (Inr u, db')"
    "u = Some r"
    using run unfolding update_order_status_unfold [OF o'(1) a]
    by (auto simp: result_simps split: option.splits)
  have f: "order_fits (with_status st nt o')" using o'(2) by (simp add: order_fits_def with_status_def)
  from a update_order_row [OF S o'(1) set_status f u(1)] u(2) show ?thesis by simp
qed

lemma update_order_status_refused:
  assumes "t_get (orders S) db i = Some o'" and "st \<notin> set (allowed_from (o_status o'))"
  shows "update_order_status S i st nt db
    = (Inl (InvalidOrderStatusTransitionError (o_status o') st), db)"
  using assms by (simp add: update_order_status_def bindA_def)

lemma update_order_status_missing:
  "t_get (orders S) db i = None \<Longrightarrow> update_order_status S i st nt db = (Inl (OrderNotFoundError i), db)"
  by (simp add: update_order_status_def bindA_def)

section \<open>The state machine of an order\<close>

fun status_rank :: "string \<Rightarrow> nat" where
  "status_rank s =
     (if s = ''pending'' then 5 else if s = ''confirmed'' then 4 else if s = ''processing'' then 3
      else if s = ''shipped'' then 2 else if s = ''delivered'' then 1 else 0)"

lemma allowed_cases:
  "t \<in> set (allowed_from s) \<longleftrightarrow>
     (s = ''pending'' \<and> (t = ''confirmed'' \<or> t = ''cancelled''))
     \<or> (s = ''confirmed'' \<and> (t = ''processing'' \<or> t = ''cancelled''))
     \<or> (s = ''processing'' \<and> (t = ''shipped'' \<or> t = ''cancelled''))
     \<or> (s = ''shipped'' \<and> (t = ''delivered'' \<or> t = ''cancelled''))
     \<or> (s = ''delivered'' \<and> t = ''refunded'')"
  unfolding allowed_from_def ALLOWED_TRANSITIONS_def
  apply (cases "s = ''pending''", simp)
  apply (cases "s = ''confirmed''", simp)
  apply (cases "s = ''processing''", simp)
  apply (cases "s = ''shipped''", simp)
  apply (cases "s = ''delivered''", simp)
  apply simp
  done

interpretation order_flow: ranked_transitions allowed_from status_rank
  by unfold_locales (drule allowed_cases [THEN iffD1], elim disjE conjE, simp_all)

text \<open>A sequence of statuses each allowed after the one before it.\<close>

fun status_path :: "string \<Rightarrow> string list \<Rightarrow> bool" where
  "status_path s [] = True"
| "status_path s (t # ts) = (t \<in> set (allowed_from s) \<and> status_path t ts)"

lemma status_path_run: "status_path s ts \<longleftrightarrow> order_flow.run s ts (last (s # ts))"
  by (induction s ts rule: status_path.induct)
     (auto intro: order_flow.run.intros elim: order_flow.run_ConsE)

lemma status_path_append: "status_path s (ts @ us) \<longleftrightarrow> status_path s ts \<and> status_path (last (s # ts)) us"
  by (induction ts arbitrary: s) auto

lemma status_path_bounds:
  assumes "status_path s ts"
  shows "length ts \<le> 5" and "s \<notin> set ts"
proof -
  have r: "order_flow.run s ts (last (s # ts))" using assms by (simp add: status_path_run)
  show "length ts \<le> 5" using order_flow.run_length [OF r] by (auto split: if_splits)
  show "s \<notin> set ts" by (rule order_flow.no_return [OF r])
qed

text \<open>The requests of the order API, each in its transaction.\<close>

datatype order_request =
    CreateOrder order_create
  | SetStatus uuid string "string option"
  | CancelOrder uuid

fun serve :: "'db store \<Rightarrow> order_request \<Rightarrow> 'db \<Rightarrow> 'db" where
  "serve S (CreateOrder d) db =
     (if order_create_ok d then snd (in_request (create_order S d) db) else db)"
| "serve S (SetStatus i v nt) db =
     (case validate_status v of
        Inl _ \<Rightarrow> db
      | Inr st \<Rightarrow> snd (in_request (update_order_status S i st nt) db))"
| "serve S (CancelOrder i) db = snd (in_request (cancel_order S i) db)"

definition serve_all :: "'db store \<Rightarrow> order_request list \<Rightarrow> 'db \<Rightarrow> 'db" where
  "serve_all S rs db = fold (serve S) rs db"

definition orders_ok :: "'db store \<Rightarrow> 'db \<Rightarrow> bool" where
  "orders_ok S db \<longleftrightarrow> (\<forall>i o'. t_get (orders S) db i = Some o' \<longrightarrow>
     order_fits o' \<and> o_status o' \<in> set VALID_STATUSES)"

lemma allowed_valid: "t \<in> set (allowed_from s) \<Longrightarrow> t \<in> set VALID_STATUSES"
  by (drule allowed_cases [THEN iffD1], elim disjE conjE, simp_all add: VALID_STATUSES_def)

lemma in_request_cases:
  assumes "snd (in_request m db) = db'"
  shows "db' = db \<or> (\<exists>x. m db = (Inr x, db'))"
  using assms by (auto simp: in_request_def split: prod.splits sum.splits)

text \<open>What one request can do to the orders: nothing, add one, or move one along the table.\<close>

definition order_effect :: "'db store \<Rightarrow> 'db \<Rightarrow> 'db \<Rightarrow> bool" where
  "order_effect S db db' \<longleftrightarrow> t_get (products S) db' = t_get (products S) db
     \<and> (t_get (orders S) db' = t_get (orders S) db
        \<or> (\<exists>i o'. t_get (orders S) db i = None \<and> order_fits o' \<and> o_status o' = ''pending''
             \<and> t_get (orders S) db' = (t_get (orders S) db)(i \<mapsto> o'))
        \<or> (\<exists>i o' st nt. t_get (orders S) db i = Some o' \<and> st \<in> set (allowed_from (o_status o'))
             \<and> t_get (orders S) db' = (t_get (orders S) db)(i \<mapsto> with_status st nt o')))"

lemma update_effect:
  assumes "lawful_store S" and "orders_ok S db"
    and "snd (in_request (update_order_status S i st nt) db) = db'"
  shows "order_effect S db db'"
proof (cases "db' = db")
  case False
  with in_request_cases [OF assms(3)] obtain r where
    r: "update_order_status S i st nt db = (Inr r, db')" by blast
  then obtain o' where o': "t_get (orders S) db i = Some o'"
    using update_order_status_missing [of S db i st nt] by (cases "t_get (orders S) db i") auto
  then have "order_fits o'" using assms(2) by (simp add: orders_ok_def)
  from update_order_status_Inr [OF assms(1) o' this r] o' show ?thesis
    unfolding order_effect_def by blast
qed (simp add: order_effect_def)

lemma serve_effect:
  assumes S: "lawful_store S" and ok: "orders_ok S db" "priced S db"
  shows "order_effect S db (serve S req db)"
proof (cases req)
  case (CreateOrder d)
  show ?thesis
  proof (cases "order_create_ok d \<and> serve S req db \<noteq> db")
    case True
    with CreateOrder in_request_cases [of "create_order S d" db] obtain o' its
      where run: "create_order S d db = (Inr (o', its), serve S req db)" by fastforce
    have d: "order_create_ok d" using True by simp
    note c = create_order_run [OF S d ok(2) run]
    have all: "\<forall>(i, q) \<in> set (oc_items d). t_get (products S) db i \<noteq> None"
      and its: "its = map (line_of S db (o_id o')) (oc_items d)" using c by blast+
    have "order_fits o'" "o_status o' = ''pending''"
      using c order_total_exact(2) [OF d ok(2) all, of "o_id o'"] unfolding its order_fits_def by auto
    with c fresh(1) [OF S] show ?thesis unfolding order_effect_def by metis
  qed (auto simp: order_effect_def CreateOrder)
next
  case (SetStatus i v nt)
  with update_effect [OF S ok(1)] show ?thesis
    by (auto simp: order_effect_def split: sum.split)
next
  case (CancelOrder i)
  with update_effect [OF S ok(1)] show ?thesis by (simp add: cancel_order_def)
qed

lemma effect_ok:
  assumes "order_effect S db db'" and "orders_ok S db" and "priced S db"
  shows "orders_ok S db' \<and> priced S db'"
proof -
  have "''pending'' \<in> set VALID_STATUSES" by (simp add: VALID_STATUSES_def)
  then have "orders_ok S db'"
    using assms(1,2) allowed_valid unfolding order_effect_def orders_ok_def
    by (elim conjE disjE exE) (fastforce simp: order_fits_def with_status_def split: if_splits)+
  with assms(1,3) show ?thesis by (simp add: priced_def order_effect_def)
qed

text \<open>What stays the same in an order.\<close>

definition same_order :: "order \<Rightarrow> order \<Rightarrow> bool" where
  "same_order a b \<longleftrightarrow> o_id b = o_id a \<and> o_customer_id b = o_customer_id a
     \<and> o_total_amount b = o_total_amount a \<and> o_currency b = o_currency a
     \<and> o_shipping_address b = o_shipping_address a"

definition moved :: "order \<Rightarrow> string list \<Rightarrow> order \<Rightarrow> bool" where
  "moved a ts b \<longleftrightarrow> status_path (o_status a) ts \<and> o_status b = last (o_status a # ts)
     \<and> same_order a b \<and> (ts = [] \<longrightarrow> b = a)"

lemma effect_moved:
  assumes "order_effect S db db'" and "t_get (orders S) db i = Some a"
  shows "\<exists>ts b. t_get (orders S) db' i = Some b \<and> moved a ts b"
proof -
  have stay: "moved a [] a" by (simp add: moved_def same_order_def)
  have step: "moved a [st] (with_status st nt a)" if "st \<in> set (allowed_from (o_status a))" for st nt
    using that by (simp add: moved_def same_order_def with_status_def)
  have "t_get (orders S) db' i = Some a \<or> (\<exists>st nt. st \<in> set (allowed_from (o_status a))
      \<and> t_get (orders S) db' i = Some (with_status st nt a))"
    using assms unfolding order_effect_def by (elim conjE disjE exE) (fastforce split: if_split)+
  then show ?thesis using stay step by blast
qed

lemma moved_trans:
  assumes "moved a ts b" and "moved b us c"
  shows "moved a (ts @ us) c"
  using assms unfolding moved_def same_order_def by (auto simp: status_path_append)

lemma serve_all_moved:
  assumes "lawful_store S" and "orders_ok S db" and "priced S db" and "t_get (orders S) db i = Some a"
  shows "\<exists>ts b. t_get (orders S) (serve_all S reqs db) i = Some b \<and> moved a ts b"
  using assms(2-4)
proof (induction reqs arbitrary: db a)
  case Nil
  then show ?case
    by (auto simp: serve_all_def moved_def same_order_def intro!: exI [of _ "[]"])
next
  case (Cons req reqs)
  note e = serve_effect [OF assms(1) Cons.prems(1,2), of req]
  obtain ts b where b: "t_get (orders S) (serve S req db) i = Some b" "moved a ts b"
    using effect_moved [OF e Cons.prems(3)] by blast
  from effect_ok [OF e Cons.prems(1,2)] Cons.IH [OF _ _ b(1)] b(2) moved_trans show ?case
    by (fastforce simp: serve_all_def)
qed

section \<open>Pagination\<close>

lemma pages_concat: "concat (map (\<lambda>k. take s (drop (k * s) xs)) [0..<m]) = take (m * s) xs"
  by (induction m) (simp_all add: take_add [symmetric] add.commute)

lemma ceil_float_quotient:
  assumes "n \<le> 2 ^ 40" and "1 \<le> s" and "s \<le> (100 :: int)"
  shows "of_nat n \<le> (of_int \<lceil>fl (of_nat n / of_int s)\<rceil> * of_int s :: rat)"
proof -
  define x where "x = (of_nat n / of_int s :: rat)"
  define q where "q = \<lceil>x\<rceil>"
  have s: "(0 :: rat) < of_int s" using assms(2) by simp
  have n40: "(of_nat n :: rat) \<le> 2 ^ 40" using assms(1) of_nat_le_iff [of n "2 ^ 40", where ?'a = rat] by simp
  have x: "0 \<le> x" "x \<le> 2 ^ 40" unfolding x_def using s n40 assms(2)
    by (auto simp: divide_le_eq intro: order_trans mult_left_mono [of 1 "of_int s" "2 ^ 40", simplified])
  have "of_int q - 1 < x" unfolding q_def by linarith
  then have "(of_int q - 1) * of_int s < (of_nat n :: rat)" using s by (simp add: x_def less_divide_eq)
  then have "of_int ((q - 1) * s) < (of_int (int n) :: rat)" by (simp only: of_int_mult of_int_diff of_int_1 of_int_of_nat_eq)
  then have "(q - 1) * s + 1 \<le> int n" by (simp only: of_int_less_iff)
  then have "of_int ((q - 1) * s + 1) \<le> (of_int (int n) :: rat)" by (simp only: of_int_le_iff)
  then have "(of_int q - 1 + 1 / of_int s) * of_int s \<le> (of_nat n :: rat)"
    using s by (simp add: distrib_right)
  then have "of_int q - 1 + 1 / of_int s \<le> x" using s by (simp add: x_def le_divide_eq)
  moreover have "1 / 100 \<le> (1 / of_int s :: rat)"
    using assms(3) s by (intro divide_left_mono) auto
  ultimately have gap: "of_int q - 1 + 1 / 100 \<le> x" by linarith
  have "\<bar>fl x - x\<bar> \<le> \<bar>x\<bar> / (2 * of_nat 2 ^ 52)" using fl_error [of x] by simp
  also have "\<dots> \<le> 2 ^ 40 / (2 * of_nat 2 ^ 52)" using x by (intro divide_right_mono) auto
  also have "\<dots> < (1 / 100 :: rat)" by simp
  finally have "x - 1 / 100 < fl x" unfolding abs_less_iff by linarith
  then have "of_int (q - 1) < fl x" using gap by simp
  then have "q \<le> \<lceil>fl x\<rceil>" by linarith
  then have "x \<le> of_int \<lceil>fl x\<rceil>" unfolding q_def by linarith
  then show ?thesis using s by (simp add: x_def divide_le_eq)
qed

lemma pages_all:
  assumes "1 \<le> ps" and "ps \<le> 100" and "length rows \<le> 2 ^ 40"
  shows "concat (map (\<lambda>k. page_of ((k - 1) * ps) ps rows) [1 .. total_pages (length rows) ps]) = rows"
proof -
  define m where "m = nat (total_pages (length rows) ps)"
  have m: "total_pages (length rows) ps = int m" unfolding m_def total_pages_def by simp
  have "of_nat (length rows) \<le> (of_int (\<lceil>fl (of_nat (length rows) / of_int ps)\<rceil> * ps) :: rat)"
    using ceil_float_quotient [OF assms(3,1,2)] by simp
  then have "int (length rows) \<le> \<lceil>fl (of_nat (length rows) / of_int ps)\<rceil> * ps"
    by (metis of_int_le_iff of_int_of_nat_eq)
  also have "\<dots> \<le> int m * ps"
    unfolding m [symmetric] total_pages_def using assms(1) by (intro mult_right_mono) auto
  finally have "int (length rows) \<le> int (m * nat ps)" using assms(1) by simp
  then have len: "length rows \<le> m * nat ps" by (simp only: of_nat_le_iff)
  have "[1 .. int m] = map (\<lambda>k. int k + 1) [0..<m]"
    by (induction m) (simp_all add: upto_rec2)
  then have "map (\<lambda>k. page_of ((k - 1) * ps) ps rows) [1 .. int m]
      = map (\<lambda>k. take (nat ps) (drop (k * nat ps) rows)) [0..<m]"
    by (simp add: page_of_def nat_mult_distrib)
  with pages_concat [of "nat ps" rows m] len show ?thesis by (simp add: m)
qed

section \<open>A store that satisfies the laws\<close>

text \<open>Association lists, the newest row first.\<close>

record mem_db =
  m_orders :: "(uuid \<times> order) list"
  m_products :: "(uuid \<times> product) list"
  m_items :: "order_item list"

definition rows_where :: "('row \<Rightarrow> bool) \<Rightarrow> (uuid \<times> 'row) list \<Rightarrow> 'row list" where
  "rows_where c al = filter c (map (\<lambda>i. the (map_of al i)) (remdups (map fst al)))"

definition mem_store :: "mem_db store" where
  "mem_store =
     \<lparr>orders = \<lparr>t_get = (\<lambda>db. map_of (m_orders db)), t_select = (\<lambda>db c k. rows_where c (m_orders db)),
        t_put = (\<lambda>i r db. (Inr (), db\<lparr>m_orders := (i, r) # m_orders db\<rparr>)),
        t_del = (\<lambda>i db. (Inr (), db\<lparr>m_orders := filter (\<lambda>x. fst x \<noteq> i) (m_orders db)\<rparr>))\<rparr>,
      products = \<lparr>t_get = (\<lambda>db. map_of (m_products db)), t_select = (\<lambda>db c k. rows_where c (m_products db)),
        t_put = (\<lambda>i r db. (Inr (), db\<lparr>m_products := (i, r) # m_products db\<rparr>)),
        t_del = (\<lambda>i db. (Inr (), db\<lparr>m_products := filter (\<lambda>x. fst x \<noteq> i) (m_products db)\<rparr>))\<rparr>,
      items_of = (\<lambda>db i. filter (\<lambda>it. i_order_id it = i) (m_items db)),
      items_add = (\<lambda>it db. (Inr (), db\<lparr>m_items := m_items db @ [it]\<rparr>)),
      fresh_uuid = (\<lambda>db. Suc (sum_list (map fst (m_orders db)) + sum_list (map i_order_id (m_items db))))\<rparr>"

lemma rows_where_set: "set (rows_where c al) = {r. (\<exists>i. map_of al i = Some r) \<and> c r}"
proof -
  have "set (rows_where c al) = {r \<in> (\<lambda>i. the (map_of al i)) ` dom (map_of al). c r}"
    by (auto simp: rows_where_def dom_map_of_conv_image_fst)
  then show ?thesis by (force simp: dom_def)
qed

lemma map_of_remove: "map_of (filter (\<lambda>x. fst x \<noteq> i) al) = (map_of al)(i := None)"
  by (induction al) (auto simp: fun_eq_iff)

lemma fresh_key: "map_of (al :: (uuid \<times> 'a) list) (Suc (sum_list (map fst al) + n)) = None"
proof -
  have "x \<le> sum_list (map fst al)" if "x \<in> fst ` set al" for x
    using that by (intro member_le_sum_list) simp_all
  then have "Suc (sum_list (map fst al) + n) \<notin> fst ` set al" by fastforce
  then show ?thesis by (simp add: map_of_eq_None_iff)
qed

lemma fresh_item: "it \<in> set its \<Longrightarrow> i_order_id it \<noteq> Suc (n + sum_list (map i_order_id its))"
proof -
  assume "it \<in> set its"
  then have "i_order_id it \<le> sum_list (map i_order_id its)" by (intro member_le_sum_list) simp_all
  then show ?thesis by simp
qed

lemma mem_store_lawful: "lawful_store mem_store"
  unfolding lawful_store_def lawful_table_def mem_store_def
  by (auto simp: rows_where_set map_of_remove fresh_key filter_empty_conv fresh_item fun_eq_iff)

definition kettle :: product where
  "kettle = \<lparr>p_id = 7, p_asin = ''B000TEST01'', p_title = ''Kettle'', p_description = None,
     p_price = 1999 / 100, p_currency = ''USD'', p_upc = None, p_ean = None, p_gtin = None,
     p_brand_id = None, p_category_id = None, p_main_image_url = None, p_image_urls = None,
     p_weight = None, p_weight_unit = None, p_dimensions = None, p_is_active = True,
     p_is_amazon_fba = False, p_is_amazon_brand = False\<rparr>"

definition shop :: mem_db where
  "shop = \<lparr>m_orders = [], m_products = [(7, kettle)], m_items = []\<rparr>"

definition two_kettles :: order_create where
  "two_kettles = \<lparr>oc_customer_id = 3, oc_items = [(7, 2)], oc_shipping_address = None, oc_notes = None\<rparr>"

lemma shop_priced: "priced mem_store shop"
  by (simp add: priced_def mem_store_def shop_def kettle_def small_def on_grid_def)

lemma shop_order:
  "\<exists>db'. create_order mem_store two_kettles shop
    = (Inr (\<lparr>o_id = 1, o_customer_id = 3, o_status = ''pending'', o_total_amount = 3998 / 100,
             o_currency = ''USD'', o_shipping_address = None, o_notes = None\<rparr>,
       [\<lparr>i_order_id = 1, i_product_id = 7, i_quantity = 2, i_unit_price = 1999 / 100, i_currency = ''USD''\<rparr>]), db')"
proof -
  have "dadd 0 (dmul (1999 / 100) 2) = 3998 / 100"
    by (simp add: dadd_def dmul_def dec_literal on_grid_def)
  then show ?thesis
    by (simp add: create_order_def two_kettles_def shop_def mem_store_def repo_create_def refresh_def
        bindA_def repo_get_def repo_update_def get_with_items_def add_order_item_def
        has_available_stock_def Let_def kettle_def Order_def attr_def)
qed

section \<open>Properties\<close>

text \<open>C2: A successful creation adds exactly one pending order under a new key: its lines are the
  requested products in order, at the price and currency of the product row, its total is the
  exact sum of price times quantity (the Decimal accumulation does not round), recalculating
  it from the lines changes nothing, and no other order, no line of another order and no
  product is touched.\<close>

theorem create_order_books:
  assumes "lawful_store S" and "order_create_ok d" and "priced S db"
    and "create_order S d db = (Inr (o', its), db')"
  shows "t_get (orders S) db (o_id o') = None \<and> o_status o' = ''pending''
    \<and> its = map (line_of S db (o_id o')) (oc_items d)
    \<and> o_total_amount o' = (\<Sum>it \<leftarrow> its. i_unit_price it * of_int (i_quantity it))
    \<and> recalculate_total its o' = o'
    \<and> t_get (orders S) db' = (t_get (orders S) db)(o_id o' \<mapsto> o')
    \<and> items_of S db' = (items_of S db)(o_id o' := its)
    \<and> t_get (products S) db' = t_get (products S) db"
proof -
  note run = create_order_run [OF assms]
  then have its: "its = map (line_of S db (o_id o')) (oc_items d)"
    and all: "\<forall>(i, q) \<in> set (oc_items d). t_get (products S) db i \<noteq> None"
    and row: "o' = \<lparr>o_id = fresh_uuid S db, o_customer_id = oc_customer_id d, o_status = ''pending'',
            o_total_amount = foldl (\<lambda>t it. dadd t (subtotal it)) 0 its, o_currency = ''USD'',
            o_shipping_address = oc_shipping_address d, o_notes = oc_notes d\<rparr>" by blast+
  have ttl: "o_total_amount o' = foldl (\<lambda>t it. dadd t (subtotal it)) 0 its" by (subst row) simp
  have "o_total_amount o' = (\<Sum>it \<leftarrow> its. i_unit_price it * of_int (i_quantity it))"
    unfolding ttl using order_total_exact(1) [OF assms(2,3) all, of "o_id o'"] unfolding its .
  moreover have "recalculate_total its o' = o'"
    using ttl by (simp add: recalculate_total_def foldl_map)
  moreover have "o_status o' = ''pending''" by (subst row) simp
  moreover have i: "o_id o' = fresh_uuid S db" "items_of S db' = (items_of S db)(o_id o' := its)"
    "t_get (orders S) db' = (t_get (orders S) db)(o_id o' \<mapsto> o')"
    "t_get (products S) db' = t_get (products S) db"
    using run by blast+
  moreover have "t_get (orders S) db (o_id o') = None" unfolding i(1) by (rule fresh(1) [OF assms(1)])
  ultimately show ?thesis using its by blast
qed

theorem create_order_books_witness:
  "\<exists>o' its db'. create_order mem_store two_kettles shop = (Inr (o', its), db')
    \<and> o_total_amount o' = 3998 / 100 \<and> recalculate_total its o' = o'
    \<and> o_total_amount o' = (\<Sum>it \<leftarrow> its. i_unit_price it * of_int (i_quantity it))"
proof -
  obtain o' its db' where run: "create_order mem_store two_kettles shop = (Inr (o', its), db')"
    and t: "o_total_amount o' = 3998 / 100" using shop_order by fastforce
  have "order_create_ok two_kettles" by (simp add: order_create_ok_def two_kettles_def)
  from create_order_books [OF mem_store_lawful this shop_priced run] run t show ?thesis by blast
qed

text \<open>An order for a product that does not exist raises ProductNotFoundError for one of the
  missing products before anything is written.\<close>

theorem create_order_missing_product:
  assumes "\<exists>(i, q) \<in> set (oc_items d). t_get (products S) db i = None"
  shows "\<exists>i \<in> fst ` set (oc_items d). t_get (products S) db i = None
    \<and> create_order S d db = (Inl (ProductNotFoundError i), db)"
  using check_items_Inl [OF assms] by (auto simp: create_order_def intro!: bindA_simps(1))

theorem create_order_missing_product_witness:
  "create_order mem_store (two_kettles\<lparr>oc_items := [(7, 1), (8, 1)]\<rparr>) shop
     = (Inl (ProductNotFoundError 8), shop)"
  using create_order_missing_product [of "two_kettles\<lparr>oc_items := [(7, 1), (8, 1)]\<rparr>" mem_store shop]
  by (auto simp: mem_store_def shop_def two_kettles_def)

text \<open>C35: Updating the status of an existing order raises and changes nothing when the transition is not in
  the table; otherwise, if it returns, exactly that order has the new status (and the new notes
  when they are not empty) and no product row changes, so confirming takes nothing from the
  stock and cancelling restores nothing.\<close>

theorem update_order_status_result:
  assumes "lawful_store S" and "t_get (orders S) db i = Some a" and "order_fits a"
  shows "case update_order_status S i st nt db of
      (Inl e, db') \<Rightarrow>
        st \<notin> set (allowed_from (o_status a)) \<longrightarrow>
          e = InvalidOrderStatusTransitionError (o_status a) st \<and> db' = db
    | (Inr r, db') \<Rightarrow>
        st \<in> set (allowed_from (o_status a)) \<and> r = with_status st nt a
        \<and> t_get (orders S) db' = (t_get (orders S) db)(i \<mapsto> r)
        \<and> t_get (products S) db' = t_get (products S) db \<and> items_of S db' = items_of S db"
proof (cases "update_order_status S i st nt db")
  case (Pair res db')
  then show ?thesis
    using update_order_status_Inr [OF assms, of st nt] update_order_status_refused [OF assms(2), of st nt]
    by (cases res) auto
qed

definition one_order :: "string \<Rightarrow> mem_db" where
  "one_order st = \<lparr>m_orders = [(1, \<lparr>o_id = 1, o_customer_id = 3, o_status = st, o_total_amount = 20,
     o_currency = ''USD'', o_shipping_address = None, o_notes = None\<rparr>)],
     m_products = [(7, kettle)], m_items = []\<rparr>"

theorem update_order_status_result_witness:
  "fst (update_order_status mem_store 1 ''shipped'' None (one_order ''pending''))
     = Inl (InvalidOrderStatusTransitionError ''pending'' ''shipped'')"
proof -
  have "''shipped'' \<notin> set (allowed_from ''pending'')"
    by (simp add: allowed_from_def ALLOWED_TRANSITIONS_def)
  then show ?thesis
    using update_order_status_result [OF mem_store_lawful, of "one_order ''pending''" 1
        "snd (hd (m_orders (one_order ''pending'')))" "''shipped''" None]
    by (auto simp: one_order_def mem_store_def order_fits_def split: prod.splits sum.splits)
qed

text \<open>C1: Over every history of requests to create orders, set statuses and cancel, each existing order
  keeps its customer, total, currency and address, its status moves along a path of the
  transition table, at most five steps long and never back to its first status, and an order
  whose status did not move is unchanged in every field.\<close>

theorem order_history:
  assumes "lawful_store S" and "orders_ok S db" and "priced S db" and "t_get (orders S) db i = Some a"
  shows "\<exists>ts b. t_get (orders S) (serve_all S reqs db) i = Some b
    \<and> status_path (o_status a) ts \<and> o_status b = last (o_status a # ts)
    \<and> length ts \<le> 5 \<and> o_status a \<notin> set ts \<and> same_order a b \<and> (ts = [] \<longrightarrow> b = a)"
  using serve_all_moved [OF assms, of reqs] status_path_bounds unfolding moved_def by blast

theorem order_history_witness:
  "\<exists>b. t_get (orders mem_store) (serve_all mem_store [CancelOrder 1, SetStatus 1 ''Pending '' None]
         (one_order ''pending'')) 1 = Some b \<and> o_total_amount b = 20"
proof -
  let ?a = "snd (hd (m_orders (one_order ''pending'')))"
  have "orders_ok mem_store (one_order ''pending'')" "priced mem_store (one_order ''pending'')"
    "t_get (orders mem_store) (one_order ''pending'') 1 = Some ?a"
    by (simp_all add: orders_ok_def order_fits_def priced_def one_order_def mem_store_def
        VALID_STATUSES_def kettle_def small_def on_grid_def)
  from order_history [OF mem_store_lawful this, of "[CancelOrder 1, SetStatus 1 ''Pending '' None]"]
  show ?thesis by (auto simp: same_order_def one_order_def)
qed

text \<open>A cancelled order is final: no requested status is accepted, refunding included; only a
  delivered order can be refunded.\<close>

theorem cancelled_is_final:
  "(\<forall>s. ''refunded'' \<in> set (allowed_from s) = (s = ''delivered''))
   \<and> allowed_from ''cancelled'' = [] \<and> allowed_from ''refunded'' = []"
  using order_flow.final [of "''cancelled''"] order_flow.final [of "''refunded''"]
  by (simp add: allowed_cases)

text \<open>The pages that the reported page count announces are, one after the other, all the rows of the
  query in its order, each once, and every page reports the number of rows; the ceiling of the
  float quotient is never too small for up to 2^40 rows.\<close>

theorem list_orders_pages:
  assumes "lawful_store S" and "1 \<le> ps" and "ps \<le> 100"
    and "length (t_select (orders S) db (\<lambda>_. True) (Some (''created_at'', True))) \<le> 2 ^ 40"
  shows "\<exists>rows n. rows = t_select (orders S) db (\<lambda>_. True) (Some (''created_at'', True))
    \<and> n = length rows
    \<and> (\<forall>k \<ge> 1. list_orders S k ps None [] db = (Inr (page_of ((k - 1) * ps) ps rows, n), db))
    \<and> concat (map (\<lambda>k. page_of ((k - 1) * ps) ps rows) [1 .. total_pages n ps]) = rows"
proof -
  define rows where "rows = t_select (orders S) db (\<lambda>_. True) (Some (''created_at'', True))"
  have "lawful_table order_fits (orders S)" using assms(1) by (simp add: lawful_store_def)
  then have "mset (t_select (orders S) db (\<lambda>_. True) None) = mset rows"
    unfolding lawful_table_def rows_def by metis
  then have len: "length (t_select (orders S) db (\<lambda>_. True) None) = length rows" by (metis size_mset)
  have ap: "apply_filters Order [] = (\<lambda>_. True)" by (simp add: fun_eq_iff)
  have "list_orders S k ps None [] db = (Inr (page_of ((k - 1) * ps) ps rows, length rows), db)"
    if "1 \<le> k" for k
  proof -
    have "\<not> (k - 1) * ps < 0" using that assms(2) mult_nonneg_nonneg [of "k - 1" ps] by linarith
    with assms(2) len show ?thesis
      by (simp add: list_orders_def get_many_def ap has_column_def rows_def Let_def)
  qed
  moreover have "concat (map (\<lambda>k. page_of ((k - 1) * ps) ps rows) [1 .. total_pages (length rows) ps]) = rows"
    using pages_all [OF assms(2,3)] assms(4) by (simp add: rows_def)
  ultimately show ?thesis unfolding rows_def by blast
qed

theorem list_orders_pages_witness:
  "\<exists>rows n. rows = t_select (orders mem_store) (one_order ''pending'') (\<lambda>_. True) (Some (''created_at'', True))
    \<and> n = length rows
    \<and> concat (map (\<lambda>k. page_of ((k - 1) * 20) 20 rows) [1 .. total_pages n 20]) = rows"
proof -
  have "length (t_select (orders mem_store) (one_order ''pending'') (\<lambda>_. True) (Some (''created_at'', True)))
      \<le> 2 ^ 40"
    by (simp add: mem_store_def one_order_def rows_where_def)
  from list_orders_pages [OF mem_store_lawful _ _ this, of 20] show ?thesis by auto
qed

end
