(* ===== verification/QueueSpec.thy ===== *)
theory QueueSpec
  imports Prelude
begin

text \<open>
  The interface of a stable priority queue: \<open>put\<close> adds an element, \<open>take_out\<close> removes the next
  one, and the elements in the order in which they will be served are those of a stable sort by
  a key. The event bus and the task queue of the agent provide it.
\<close>

text \<open>Draining a queue by removing its next element as long as there is one.\<close>

fun drain :: "('q \<Rightarrow> ('a \<times> 'q) option) \<Rightarrow> nat \<Rightarrow> 'q \<Rightarrow> 'a list" where
  "drain tk 0 q = []"
| "drain tk (Suc n) q = (case tk q of None \<Rightarrow> [] | Some (x, q') \<Rightarrow> x # drain tk n q')"

lemma sort_key_snoc_key: "sort_key k (sort_key k xs @ [x]) = sort_key k (xs @ [x])"
proof (rule properties_for_sort_key)
  show "mset (sort_key k (xs @ [x])) = mset (sort_key k xs @ [x])" by simp
  show "sorted (map k (sort_key k (xs @ [x])))" by simp
  show "filter (\<lambda>y. k z = k y) (sort_key k (xs @ [x])) = filter (\<lambda>y. k z = k y) (sort_key k xs @ [x])"
    if "z \<in> set (sort_key k (xs @ [x]))" for z
    using sort_key_stable [of k "k z"] by (simp add: eq_commute [of "k z"])
qed

lemma sort_key_min:
  assumes "\<forall>a \<in> set as. k e < k a" and "\<forall>b \<in> set bs. k e \<le> k b"
  shows "sort_key k (as @ e # bs) = e # sort_key k (as @ bs)"
proof (rule properties_for_sort_key)
  show "mset (e # sort_key k (as @ bs)) = mset (as @ e # bs)" by simp
  show "sorted (map k (e # sort_key k (as @ bs)))" using assms by auto
  have "filter (\<lambda>y. k z = k y) as = []" if "k z = k e" for z
    using assms(1) that by (auto simp: filter_empty_conv)
  then show "filter (\<lambda>y. k z = k y) (e # sort_key k (as @ bs)) = filter (\<lambda>y. k z = k y) (as @ e # bs)" for z
    using sort_key_stable [of k "k z" "as @ bs"] by (auto simp: eq_commute [of "k z"])
qed

text \<open>The first element of a sorted list: minimal, and the first of the minimal ones.\<close>

lemma hd_sort_key:
  assumes "xs \<noteq> []"
  shows "hd (sort_key k xs) \<in> set xs" and "\<forall>y \<in> set xs. k (hd (sort_key k xs)) \<le> k y"
    and "hd (filter (\<lambda>y. k y = k (hd (sort_key k xs))) xs) = hd (sort_key k xs)"
proof -
  obtain x ys where s: "sort_key k xs = x # ys"
    using assms by (cases "sort_key k xs") (metis length_0_conv length_sort)
  have st: "set (x # ys) = set xs" by (metis s set_sort)
  then show "hd (sort_key k xs) \<in> set xs" by (auto simp: s)
  have "sorted (map k (x # ys))" by (metis s sorted_sort_key)
  then show "\<forall>y \<in> set xs. k (hd (sort_key k xs)) \<le> k y" using st by (auto simp: s)
  have "filter (\<lambda>y. k y = k x) xs = filter (\<lambda>y. k y = k x) (x # ys)"
    using sort_key_stable [of k "k x" xs] by (simp add: s)
  then show "hd (filter (\<lambda>y. k y = k (hd (sort_key k xs))) xs) = hd (sort_key k xs)" by (simp add: s)
qed

text \<open>The removing side: \<open>served\<close> is what the queue will hand out, in order.\<close>

locale served_queue =
  fixes take_out :: "'q \<Rightarrow> ('a \<times> 'q) option" and served :: "'q \<Rightarrow> 'a list" and inv :: "'q \<Rightarrow> bool"
  assumes inv_take: "inv q \<Longrightarrow> take_out q = Some (x, q') \<Longrightarrow> inv q'"
    and take_None: "inv q \<Longrightarrow> take_out q = None \<longleftrightarrow> served q = []"
    and take_Some: "inv q \<Longrightarrow> take_out q = Some (x, q') \<Longrightarrow> served q = x # served q'"
begin

lemma drain_take: "inv q \<Longrightarrow> drain take_out n q = take n (served q)"
proof (induction n arbitrary: q)
  case (Suc n)
  show ?case
  proof (cases "take_out q")
    case None
    moreover from this have "served q = []" using take_None [OF Suc.prems] by simp
    ultimately show ?thesis by simp
  next
    case (Some p)
    then obtain x q' where p: "take_out q = Some (x, q')" by (cases p) simp
    from take_Some [OF Suc.prems p] Suc.IH [OF inv_take [OF Suc.prems p]] p
    show ?thesis by simp
  qed
qed simp

lemma drain_served: "inv q \<Longrightarrow> length (served q) \<le> n \<Longrightarrow> drain take_out n q = served q"
  by (simp add: drain_take)

end

text \<open>The adding side: elements are served by the key, and first in, first out among equals.\<close>

locale stable_queue = served_queue take_out served inv
  for take_out :: "'q \<Rightarrow> ('a \<times> 'q) option" and served :: "'q \<Rightarrow> 'a list" and inv :: "'q \<Rightarrow> bool" +
  fixes put :: "'a \<Rightarrow> 'q \<Rightarrow> 'q" and key :: "'a \<Rightarrow> int"
  assumes inv_put: "inv q \<Longrightarrow> inv (put x q)"
    and served_put: "inv q \<Longrightarrow> served (put x q) = sort_key key (served q @ [x])"
begin

lemma inv_fold: "inv q \<Longrightarrow> inv (fold put xs q)"
  by (induction xs arbitrary: q) (simp_all add: inv_put)

lemma served_fold: "inv q \<Longrightarrow> served q = sort_key key ys \<Longrightarrow> served (fold put xs q) = sort_key key (ys @ xs)"
proof (induction xs arbitrary: q ys)
  case (Cons x xs)
  have "served (put x q) = sort_key key (ys @ [x])"
    using Cons.prems by (simp add: served_put sort_key_snoc_key)
  from Cons.IH [OF inv_put [OF Cons.prems(1)] this] show ?case by simp
qed simp

text \<open>What is put into an empty queue comes out in the order of the stable sort.\<close>

lemma drain_fold:
  assumes "inv q" and "served q = []"
  shows "drain take_out (length xs) (fold put xs q) = sort_key key xs"
proof -
  have s: "served (fold put xs q) = sort_key key xs"
    using served_fold [OF assms(1), of "[]" xs] assms(2) by simp
  with drain_served [OF inv_fold [OF assms(1)], of xs "length xs"] show ?thesis by simp
qed

end

end
