(* ===== verification/Events.thy ===== *)
theory Events
  imports StateMachine QueueSpec Numbers
begin

text \<open>
  The event bus, \<open>app/events\<close>: events and their registry, the dead letter queue, the in-memory
  bus with delivery, retries, dispatch, background queue and replay, the in-memory broker.
  Handlers are arbitrary: what a call of a handler does to the whole bus, and how it ends, is a
  parameter. Not modelled: a handler that ends with a BaseException other than an Exception (a
  cancellation), which leaves the loops at once, and a handler that changes the event itself, a
  shared object in the source and a value here.
\<close>

section \<open>Events\<close>

datatype event_priority = CRITICAL | HIGH | NORMAL | LOW

fun prio :: "event_priority \<Rightarrow> int" where
  "prio CRITICAL = 0" | "prio HIGH = 1" | "prio NORMAL = 2" | "prio LOW = 3"

datatype event_type =
    PRICE_CHANGED | INVENTORY_CHANGED | SUPPLIER_UPDATED | COUPON_FOUND | BUYBOX_CHANGED
  | OPPORTUNITY_DETECTED | PRODUCT_MATCHED | PRODUCT_CREATED | AI_RECOMMENDATION_CREATED
  | NOTIFICATION_SENT

fun topic :: "event_type \<Rightarrow> string" where
  "topic PRICE_CHANGED = ''price.changed''"
| "topic INVENTORY_CHANGED = ''inventory.changed''"
| "topic SUPPLIER_UPDATED = ''supplier.updated''"
| "topic COUPON_FOUND = ''coupon.found''"
| "topic BUYBOX_CHANGED = ''buybox.changed''"
| "topic OPPORTUNITY_DETECTED = ''opportunity.detected''"
| "topic PRODUCT_MATCHED = ''product.matched''"
| "topic PRODUCT_CREATED = ''product.created''"
| "topic AI_RECOMMENDATION_CREATED = ''ai.recommendation.created''"
| "topic NOTIFICATION_SENT = ''notification.sent''"

text \<open>The typed payloads of the concrete event classes.\<close>

datatype event_body =
    PriceChanged string string "rat option" rat string
  | InventoryChanged string string "int option" int "string option"
  | SupplierUpdated string string string string
  | CouponFound string string string "rat option" "int option"
  | BuyBoxChanged string string "string option" string "rat option"
  | OpportunityDetected string string rat string "rat option"
  | ProductMatched string string rat string
  | ProductCreated string "string option" string
  | AIRecommendationCreated string string string
  | NotificationSent string string string string

text \<open>\<open>event_registry\<close>: the default event type of each class.\<close>

fun event_registry :: "event_body \<Rightarrow> event_type" where
  "event_registry (PriceChanged _ _ _ _ _) = PRICE_CHANGED"
| "event_registry (InventoryChanged _ _ _ _ _) = INVENTORY_CHANGED"
| "event_registry (SupplierUpdated _ _ _ _) = SUPPLIER_UPDATED"
| "event_registry (CouponFound _ _ _ _ _) = COUPON_FOUND"
| "event_registry (BuyBoxChanged _ _ _ _ _) = BUYBOX_CHANGED"
| "event_registry (OpportunityDetected _ _ _ _ _) = OPPORTUNITY_DETECTED"
| "event_registry (ProductMatched _ _ _ _) = PRODUCT_MATCHED"
| "event_registry (ProductCreated _ _ _) = PRODUCT_CREATED"
| "event_registry (AIRecommendationCreated _ _ _) = AI_RECOMMENDATION_CREATED"
| "event_registry (NotificationSent _ _ _ _) = NOTIFICATION_SENT"

record event =
  e_id :: string
  e_type :: event_type
  e_priority :: event_priority
  e_correlation_id :: "string option"
  e_source :: string
  e_version :: int
  e_body :: event_body

definition with_priority :: "event_priority option \<Rightarrow> event \<Rightarrow> event" where
  "with_priority p e = (case p of None \<Rightarrow> e | Some q \<Rightarrow> e\<lparr>e_priority := q\<rparr>)"

section \<open>The dead letter queue\<close>

record dead_letter =
  dl_event_id :: string
  dl_event_type :: event_type
  dl_handler :: string
  dl_error :: string
  dl_attempts :: nat
  dl_priority :: event_priority
  dl_event :: event

text \<open>The eviction loop, and the operations on the records, oldest first.\<close>

fun evict :: "nat \<Rightarrow> 'r list \<Rightarrow> 'r list" where
  "evict cap [] = []"
| "evict cap (r # rs) = (if cap < length (r # rs) then evict cap rs else r # rs)"

definition dlq_put :: "nat \<Rightarrow> 'r \<Rightarrow> 'r list \<Rightarrow> 'r list" where
  "dlq_put cap r rs = evict cap (rs @ [r])"

definition dlq_list :: "'r list \<Rightarrow> 'r list" where
  "dlq_list rs = rev rs"

definition of_type :: "event_type option \<Rightarrow> dead_letter \<Rightarrow> bool" where
  "of_type t r \<longleftrightarrow> (case t of None \<Rightarrow> True | Some et \<Rightarrow> dl_event_type r = et)"

definition dlq_purge :: "event_type option \<Rightarrow> dead_letter list \<Rightarrow> dead_letter list \<times> nat" where
  "dlq_purge t rs = (let kept = filter (\<lambda>r. \<not> of_type t r) rs in (kept, length rs - length kept))"

section \<open>The bus\<close>

datatype bus_error = EventBusClosedError | EventBusNotStartedError | BrokerError

datatype outcome = Returned | HandlerError string | Raised string string

record 'h entry =
  en_id :: nat
  en_handler :: 'h
  en_name :: string
  max_retries :: int
  backoff_base_ms :: int
  backoff_max_ms :: int
  en_jitter :: bool
  priority_filter :: "event_priority list option"

definition accepts :: "'h entry \<Rightarrow> event_priority \<Rightarrow> bool" where
  "accepts en p \<longleftrightarrow> (case priority_filter en of None \<Rightarrow> True | Some ps \<Rightarrow> p \<in> set ps)"

text \<open>
  The state of \<open>InMemoryEventBus\<close>. The flag \<open>active\<close> of an entry is kept as the list of
  unsubscribed entry numbers; \<open>sleeps\<close> records the delays slept, \<open>draws\<close> counts the random
  numbers drawn, \<open>world\<close> is whatever the handlers work on.
\<close>

record ('h, 'w) bus =
  subscribers :: "event_type \<Rightarrow> 'h entry list"
  unsubscribed :: "nat list"
  next_entry :: nat
  dlq :: "dead_letter list"
  dlq_cap :: nat
  background :: "(int \<times> nat \<times> event) list option"
  next_seq :: nat
  publish_count :: nat
  closed :: bool
  default_max_retries :: int
  default_backoff_base_ms :: int
  default_backoff_max_ms :: int
  default_jitter :: bool
  sleeps :: "rat list"
  draws :: nat
  world :: 'w

type_synonym ('h, 'w, 'a) bus_act = "(('h, 'w) bus, bus_error, 'a) act"

text \<open>The surroundings: the handlers, the random source, the broker if there is one.\<close>

record ('h, 'w) env =
  run_handler :: "'h \<Rightarrow> event \<Rightarrow> ('h, 'w) bus \<Rightarrow> outcome \<times> ('h, 'w) bus"
  random :: "nat \<Rightarrow> rat"
  broker :: "(event \<Rightarrow> ('h, 'w, unit) bus_act) option"

subsection \<open>Subscribing\<close>

definition opt_default :: "'a option \<Rightarrow> 'a \<Rightarrow> 'a" where
  "opt_default v d = (case v of None \<Rightarrow> d | Some x \<Rightarrow> x)"

definition subscribe ::
  "event_type \<Rightarrow> 'h \<Rightarrow> string \<Rightarrow> int option \<Rightarrow> int option \<Rightarrow> int option \<Rightarrow> bool option
   \<Rightarrow> event_priority list option \<Rightarrow> ('h, 'w, nat) bus_act" where
  "subscribe t h nm retries base mx jit flt b =
     (if closed b then (Inl EventBusClosedError, b)
      else
        (let en = \<lparr>en_id = next_entry b, en_handler = h, en_name = nm,
                   max_retries = opt_default retries (default_max_retries b),
                   backoff_base_ms = opt_default base (default_backoff_base_ms b),
                   backoff_max_ms = opt_default mx (default_backoff_max_ms b),
                   en_jitter = opt_default jit (default_jitter b), priority_filter = flt\<rparr> in
         (Inr (en_id en),
          b\<lparr>subscribers := (subscribers b)(t := subscribers b t @ [en]),
            next_entry := Suc (next_entry b)\<rparr>)))"

definition unsubscribe :: "nat \<Rightarrow> ('h, 'w) bus \<Rightarrow> ('h, 'w) bus" where
  "unsubscribe i b = b\<lparr>unsubscribed := i # unsubscribed b\<rparr>"

definition is_active :: "('h, 'w) bus \<Rightarrow> 'h entry \<Rightarrow> bool" where
  "is_active b en \<longleftrightarrow> en_id en \<notin> set (unsubscribed b)"

definition subscriber_count :: "('h, 'w) bus \<Rightarrow> event_type \<Rightarrow> nat" where
  "subscriber_count b t = length (filter (is_active b) (subscribers b t))"

subsection \<open>Delivery\<close>

text \<open>\<open>_backoff\<close>, in float seconds; \<open>u\<close> is the draw of \<open>random.uniform\<close>.\<close>

definition backoff_ms :: "'h entry \<Rightarrow> nat \<Rightarrow> int" where
  "backoff_ms en attempt = min (backoff_base_ms en * 2 ^ (attempt - 1)) (backoff_max_ms en)"

definition backoff :: "'h entry \<Rightarrow> nat \<Rightarrow> rat \<Rightarrow> rat" where
  "backoff en attempt u =
     (let delay = fl (of_int (backoff_ms en attempt));
          delay = (if en_jitter en
                   then (let lo = fl (delay * (1 / 2)) in fl (lo + fl (fl (delay - lo) * u)))
                   else delay) in
      fl (delay / 1000))"

definition sleep_backoff :: "('h, 'w) env \<Rightarrow> 'h entry \<Rightarrow> nat \<Rightarrow> ('h, 'w) bus \<Rightarrow> ('h, 'w) bus" where
  "sleep_backoff E en attempt b =
     b\<lparr>sleeps := sleeps b @ [backoff en attempt (random E (draws b))],
       draws := (if en_jitter en then Suc (draws b) else draws b)\<rparr>"

fun error_text :: "outcome \<Rightarrow> string" where
  "error_text Returned = []"
| "error_text (HandlerError m) = ''EventHandlerError: '' @ m"
| "error_text (Raised t m) = t @ '': '' @ m"

definition send_dead_letter :: "'h entry \<Rightarrow> event \<Rightarrow> outcome \<Rightarrow> nat \<Rightarrow> ('h, 'w) bus \<Rightarrow> ('h, 'w) bus" where
  "send_dead_letter en e out attempts b =
     b\<lparr>dlq := dlq_put (dlq_cap b)
        \<lparr>dl_event_id = e_id e, dl_event_type = e_type e, dl_handler = en_name en,
         dl_error = error_text out, dl_attempts = attempts, dl_priority = e_priority e,
         dl_event = e\<rparr> (dlq b)\<rparr>"

text \<open>The retry loop of \<open>_deliver\<close> after \<open>n\<close> attempts.\<close>

function deliver :: "('h, 'w) env \<Rightarrow> 'h entry \<Rightarrow> event \<Rightarrow> nat \<Rightarrow> ('h, 'w) bus \<Rightarrow> ('h, 'w) bus" where
  "deliver E en e n b =
     (case run_handler E (en_handler en) e b of
        (Returned, b') \<Rightarrow> b'
      | (HandlerError m, b') \<Rightarrow> send_dead_letter en e (HandlerError m) (Suc n) b'
      | (Raised t m, b') \<Rightarrow>
          if max_retries en < int (Suc n) then send_dead_letter en e (Raised t m) (Suc n) b'
          else deliver E en e (Suc n) (sleep_backoff E en (Suc n) b'))"
  by pat_completeness auto

termination
  by (relation "measure (\<lambda>(E, en, e, n, b). nat (max_retries en + 1 - int n))") auto

declare deliver.simps [simp del]

subsection \<open>Dispatch and publishing\<close>

text \<open>
  The loop over the snapshot of the subscribers; whether an entry is still active is read when
  its turn comes.
\<close>

fun dispatch_to :: "('h, 'w) env \<Rightarrow> event \<Rightarrow> 'h entry list \<Rightarrow> ('h, 'w) bus \<Rightarrow> ('h, 'w) bus" where
  "dispatch_to E e [] b = b"
| "dispatch_to E e (en # ens) b =
     dispatch_to E e ens
       (if is_active b en \<and> accepts en (e_priority e) then deliver E en e 0 b else b)"

definition dispatch_local :: "('h, 'w) env \<Rightarrow> event \<Rightarrow> ('h, 'w, unit) bus_act" where
  "dispatch_local E e b =
     (if closed b then (Inl EventBusClosedError, b)
      else (let b' = dispatch_to E e (subscribers b (e_type e)) b in
            (Inr (), b'\<lparr>publish_count := publish_count b' + 1\<rparr>)))"

definition publish :: "('h, 'w) env \<Rightarrow> event \<Rightarrow> event_priority option \<Rightarrow> ('h, 'w, string) bus_act" where
  "publish E e p =
     (let e = with_priority p e in
      bindA (case broker E of Some f \<Rightarrow> f e | None \<Rightarrow> dispatch_local E e) (\<lambda>_. retA (e_id e)))"

subsection \<open>The background queue\<close>

text \<open>
  \<open>asyncio.PriorityQueue\<close> delivers its smallest tuple; the sequence numbers differ, so that
  events are never compared.
\<close>

definition publish_async :: "event \<Rightarrow> event_priority option \<Rightarrow> ('h, 'w, unit) bus_act" where
  "publish_async e p b =
     (case background b of
        None \<Rightarrow> (Inl EventBusNotStartedError, b)
      | Some q \<Rightarrow>
          (let e = with_priority p e in
           (Inr (), b\<lparr>next_seq := next_seq b + 1,
                      background := Some ((prio (e_priority e), next_seq b, e) # q)\<rparr>)))"

definition start_background :: "('h, 'w, unit) bus_act" where
  "start_background b =
     (if closed b then (Inl EventBusClosedError, b)
      else (Inr (), b\<lparr>background := (case background b of None \<Rightarrow> Some [] | Some q \<Rightarrow> Some q)\<rparr>))"

definition tuple_le :: "int \<times> nat \<times> 'e \<Rightarrow> int \<times> nat \<times> 'e \<Rightarrow> bool" where
  "tuple_le x y \<longleftrightarrow> fst x < fst y \<or> fst x = fst y \<and> fst (snd x) \<le> fst (snd y)"

fun smallest :: "(int \<times> nat \<times> 'e) list \<Rightarrow> (int \<times> nat \<times> 'e) option" where
  "smallest [] = None"
| "smallest (x # xs) = (case smallest xs of None \<Rightarrow> Some x | Some y \<Rightarrow> if tuple_le x y then Some x else Some y)"

definition pq_get :: "(int \<times> nat \<times> 'e) list \<Rightarrow> ('e \<times> (int \<times> nat \<times> 'e) list) option" where
  "pq_get q = (case smallest q of None \<Rightarrow> None
     | Some x \<Rightarrow> Some (snd (snd x), filter (\<lambda>y. fst (snd y) \<noteq> fst (snd x)) q))"

text \<open>One round of \<open>_worker\<close>: take an event, dispatch it; \<open>None\<close> is waiting.\<close>

definition worker_step :: "('h, 'w) env \<Rightarrow> ('h, 'w) bus \<Rightarrow> ((bus_error + unit) \<times> ('h, 'w) bus) option" where
  "worker_step E b =
     (case background b of
        None \<Rightarrow> None
      | Some q \<Rightarrow> (case pq_get q of
          None \<Rightarrow> None
        | Some (e, q') \<Rightarrow> Some (dispatch_local E e (b\<lparr>background := Some q'\<rparr>))))"

subsection \<open>Replay, statistics, closing\<close>

fun publish_all :: "('h, 'w) env \<Rightarrow> dead_letter list \<Rightarrow> ('h, 'w, unit) bus_act" where
  "publish_all E [] = retA ()"
| "publish_all E (r # rs) = bindA (publish E (dl_event r) None) (\<lambda>_. publish_all E rs)"

definition replay_dead_letters :: "('h, 'w) env \<Rightarrow> event_type option \<Rightarrow> ('h, 'w, nat) bus_act" where
  "replay_dead_letters E t b =
     (let records = filter (of_type t) (dlq_list (dlq b)) in
      bindA (publish_all E records) (\<lambda>_. retA (length records))
        (b\<lparr>dlq := fst (dlq_purge t (dlq b))\<rparr>))"

definition purge_dead_letters :: "event_type option \<Rightarrow> ('h, 'w, nat) bus_act" where
  "purge_dead_letters t b =
     (case dlq_purge t (dlq b) of (kept, n) \<Rightarrow> (Inr n, b\<lparr>dlq := kept\<rparr>))"

record bus_stats =
  st_publish_count :: nat
  st_subscriber_count :: nat
  st_dead_letter_count :: nat
  st_closed :: bool

definition all_event_types :: "event_type list" where
  "all_event_types = [PRICE_CHANGED, INVENTORY_CHANGED, SUPPLIER_UPDATED, COUPON_FOUND,
     BUYBOX_CHANGED, OPPORTUNITY_DETECTED, PRODUCT_MATCHED, PRODUCT_CREATED,
     AI_RECOMMENDATION_CREATED, NOTIFICATION_SENT]"

definition stats :: "('h, 'w) bus \<Rightarrow> bus_stats" where
  "stats b = \<lparr>st_publish_count = publish_count b,
     st_subscriber_count = sum_list (map (subscriber_count b) all_event_types),
     st_dead_letter_count = length (dlq b), st_closed = closed b\<rparr>"

text \<open>\<open>aclose\<close>: the workers are cancelled; the queue stays.\<close>

definition aclose :: "('h, 'w) bus \<Rightarrow> ('h, 'w) bus" where
  "aclose b = (if closed b then b else b\<lparr>closed := True\<rparr>)"

definition init_bus :: "nat \<Rightarrow> int \<Rightarrow> int \<Rightarrow> int \<Rightarrow> bool \<Rightarrow> 'w \<Rightarrow> ('h, 'w) bus" where
  "init_bus cap retries base mx jit w =
     \<lparr>subscribers = (\<lambda>_. []), unsubscribed = [], next_entry = 0, dlq = [], dlq_cap = cap,
      background = None, next_seq = 0, publish_count = 0, closed = False,
      default_max_retries = retries, default_backoff_base_ms = base,
      default_backoff_max_ms = mx, default_jitter = jit, sleeps = [], draws = 0, world = w\<rparr>"

section \<open>The in-memory broker\<close>

text \<open>Per topic the queues of its consumers, by consumer number.\<close>

record 'm in_memory_broker =
  br_topics :: "string \<Rightarrow> (nat \<times> 'm list) list"
  br_closed :: bool

definition broker_publish :: "string \<Rightarrow> 'm \<Rightarrow> 'm in_memory_broker \<Rightarrow> (bus_error + unit) \<times> 'm in_memory_broker" where
  "broker_publish t m br =
     (if br_closed br then (Inl BrokerError, br)
      else (Inr (), br\<lparr>br_topics := (br_topics br)(t := map (\<lambda>(c, q). (c, q @ [m])) (br_topics br t))\<rparr>))"

definition broker_subscribe :: "string \<Rightarrow> nat \<Rightarrow> 'm in_memory_broker \<Rightarrow> 'm in_memory_broker" where
  "broker_subscribe t c br = br\<lparr>br_topics := (br_topics br)(t := br_topics br t @ [(c, [])])\<rparr>"

fun pop_queue :: "nat \<Rightarrow> (nat \<times> 'm list) list \<Rightarrow> ('m \<times> (nat \<times> 'm list) list) option" where
  "pop_queue c [] = None"
| "pop_queue c ((d, q) # qs) =
     (if d = c then (case q of [] \<Rightarrow> None | m # ms \<Rightarrow> Some (m, (d, ms) # qs))
      else map_option (\<lambda>(m, qs'). (m, (d, q) # qs')) (pop_queue c qs))"

definition broker_next :: "string \<Rightarrow> nat \<Rightarrow> 'm in_memory_broker \<Rightarrow> ('m \<times> 'm in_memory_broker) option" where
  "broker_next t c br =
     (if br_closed br then None
      else map_option (\<lambda>(m, qs). (m, br\<lparr>br_topics := (br_topics br)(t := qs)\<rparr>)) (pop_queue c (br_topics br t)))"

definition broker_leave :: "string \<Rightarrow> nat \<Rightarrow> 'm in_memory_broker \<Rightarrow> 'm in_memory_broker" where
  "broker_leave t c br =
     br\<lparr>br_topics := (br_topics br)(t := filter (\<lambda>q. fst q \<noteq> c) (br_topics br t))\<rparr>"

definition broker_aclose :: "'m in_memory_broker \<Rightarrow> 'm in_memory_broker" where
  "broker_aclose br = br\<lparr>br_closed := True\<rparr>"

end
