(* ===== verification/EventProps.thy ===== *)
theory EventProps
  imports Events "HOL-Library.Sublist"
begin

text \<open>
  The properties of the event bus: what a delivery does for any behaviour of the handler, the
  turns of a publication whatever the handlers do to the bus, the bounds of backoff and dead
  letter queue, the order of the background queue, replay.
\<close>

section \<open>Delivery\<close>

text \<open>The bus before the attempt with index \<open>k\<close> (from 0), and the outcome of that attempt.\<close>

fun before :: "('h, 'w) env \<Rightarrow> 'h entry \<Rightarrow> event \<Rightarrow> nat \<Rightarrow> ('h, 'w) bus \<Rightarrow> nat \<Rightarrow> ('h, 'w) bus" where
  "before E en e n b 0 = b"
| "before E en e n b (Suc k) =
     sleep_backoff E en (n + Suc k) (snd (run_handler E (en_handler en) e (before E en e n b k)))"

definition attempt :: "('h, 'w) env \<Rightarrow> 'h entry \<Rightarrow> event \<Rightarrow> nat \<Rightarrow> ('h, 'w) bus \<Rightarrow> nat \<Rightarrow> outcome \<times> ('h, 'w) bus" where
  "attempt E en e n b k = run_handler E (en_handler en) e (before E en e n b k)"

definition retryable :: "outcome \<Rightarrow> bool" where
  "retryable out \<longleftrightarrow> (\<exists>t m. out = Raised t m)"

definition settle :: "'h entry \<Rightarrow> event \<Rightarrow> nat \<Rightarrow> outcome \<times> ('h, 'w) bus \<Rightarrow> ('h, 'w) bus" where
  "settle en e attempts r = (case fst r of Returned \<Rightarrow> snd r | out \<Rightarrow> send_dead_letter en e out attempts (snd r))"

text \<open>The most attempts an entry gets.\<close>

definition attempts_max :: "'h entry \<Rightarrow> nat" where
  "attempts_max en = Suc (nat (max_retries en))"

lemma before_shift:
  "before E en e n b (Suc k)
    = before E en e (Suc n) (sleep_backoff E en (Suc n) (snd (run_handler E (en_handler en) e b))) k"
  by (induction k) simp_all

lemma attempt_shift:
  "attempt E en e n b (Suc k)
    = attempt E en e (Suc n) (sleep_backoff E en (Suc n) (snd (attempt E en e n b 0))) k"
  by (simp add: attempt_def before_shift del: before.simps(2))

lemma deliver_from:
  "\<exists>k. n + k < max (Suc n) (attempts_max en)
     \<and> (\<forall>j < k. retryable (fst (attempt E en e n b j)))
     \<and> (\<not> retryable (fst (attempt E en e n b k)) \<or> attempts_max en \<le> Suc (n + k))
     \<and> deliver E en e n b = settle en e (Suc (n + k)) (attempt E en e n b k)"
proof (induction E en e n b rule: deliver.induct)
  case (1 E en e n b)
  obtain out b' where r: "run_handler E (en_handler en) e b = (out, b')" by fastforce
  have a0: "attempt E en e n b 0 = (out, b')" by (simp add: attempt_def r)
  show ?case
  proof (cases "retryable out \<and> \<not> max_retries en < int (Suc n)")
    case False
    then have "deliver E en e n b = settle en e (Suc n) (out, b')"
      by (subst deliver.simps) (auto simp: r settle_def retryable_def split: outcome.splits)
    moreover have "\<not> retryable out \<or> attempts_max en \<le> Suc n"
      using False by (auto simp: attempts_max_def)
    ultimately show ?thesis
      by (intro exI [of _ 0]) (simp add: a0)
  next
    case True
    then obtain t m where out: "out = Raised t m" by (auto simp: retryable_def)
    define c where "c = sleep_backoff E en (Suc n) b'"
    from "1.IH" [of out b' t m] True r out obtain k where k:
      "Suc n + k < max (Suc (Suc n)) (attempts_max en)"
      "\<forall>j < k. retryable (fst (attempt E en e (Suc n) c j))"
      "\<not> retryable (fst (attempt E en e (Suc n) c k)) \<or> attempts_max en \<le> Suc (Suc n + k)"
      "deliver E en e (Suc n) c = settle en e (Suc (Suc n + k)) (attempt E en e (Suc n) c k)"
      unfolding c_def by auto
    have sh: "attempt E en e n b (Suc j) = attempt E en e (Suc n) c j" for j
      by (simp add: attempt_shift a0 c_def)
    have "deliver E en e n b = deliver E en e (Suc n) c"
      using True by (subst deliver.simps) (simp add: r out c_def)
    moreover have "\<forall>j < Suc k. retryable (fst (attempt E en e n b j))"
      using k(2) True by (auto simp: sh a0 less_Suc_eq_0_disj)
    moreover have "n + Suc k < max (Suc n) (attempts_max en)"
      using k(1) True by (auto simp: attempts_max_def)
    ultimately show ?thesis using k(3,4) by (intro exI [of _ "Suc k"]) (simp add: sh)
  qed
qed

section \<open>Backoff\<close>

lemma backoff_bounds_lemma:
  assumes "0 \<le> backoff_ms en k" and "backoff_ms en k \<le> 2 ^ 53" and u: "0 \<le> u" "u \<le> 1"
  shows "fl (of_int (backoff_ms en k) / 2000) \<le> backoff en k u
    \<and> backoff en k u \<le> fl (of_int (backoff_ms en k) / 1000)"
proof -
  define d where "d = (of_int (backoff_ms en k) :: rat)"
  have d: "0 \<le> d" using assms(1) by (simp add: d_def)
  have r: "fl_rep d" "fl_rep (d / 2)"
    using fl_rep_int [of "backoff_ms en k"] fl_rep_half [of "backoff_ms en k"] assms by (simp_all add: d_def)
  have fd: "fl d = d" and fh: "fl (d * (1 / 2)) = d / 2"
    using flr.r_fix [OF r(1)] flr.r_fix [OF r(2)] by simp_all
  have fh2: "fl (d - d / 2) = d / 2" using flr.r_fix [OF r(2)] by simp
  define s where "s = fl (d / 2 * u)"
  have "d / 2 * u \<le> d / 2" using u d mult_left_mono [of u 1 "d / 2"] by simp
  then have s: "0 \<le> s" "s \<le> d / 2"
    unfolding s_def using u d by (simp add: flr.r_nonneg, intro flr.r_le [OF r(2)])
  have j: "d / 2 \<le> fl (d / 2 + s)" "fl (d / 2 + s) \<le> d"
    by (rule flr.r_ge [OF r(2)], use s in simp) (rule flr.r_le [OF r(1)], use s in simp)
  have "backoff en k u = fl ((if en_jitter en then fl (d / 2 + s) else d) / 1000)"
    unfolding backoff_def Let_def d_def [symmetric] fd fh fh2 s_def by simp
  moreover have "d / 2 \<le> (if en_jitter en then fl (d / 2 + s) else d)"
    "(if en_jitter en then fl (d / 2 + s) else d) \<le> d" using j d by auto
  ultimately show ?thesis
    unfolding d_def [symmetric] by (auto intro!: flr.r_mono simp: divide_le_eq)
qed

section \<open>The dead letter queue\<close>

lemma evict_drop: "evict cap rs = drop (length rs - cap) rs"
  by (induction cap rs rule: evict.induct) (auto simp: Suc_diff_le not_less)

lemma dlq_put_length: "length (dlq_put cap r rs) \<le> cap"
  by (simp add: dlq_put_def evict_drop)

lemma dlq_puts: "fold (dlq_put cap) xs [] = drop (length xs - cap) xs"
proof (induction xs rule: rev_induct)
  case (snoc x xs)
  have "fold (dlq_put cap) (xs @ [x]) [] = evict cap (drop (length xs - cap) xs @ [x])"
    by (simp add: snoc dlq_put_def)
  also have "\<dots> = drop (length (xs @ [x]) - cap) (xs @ [x])"
    by (cases "length xs < cap") (auto simp: evict_drop Suc_diff_le)
  finally show ?case .
qed simp

section \<open>Dispatch\<close>

text \<open>
  One turn of the loop, for an arbitrary handler: the attempts of an entry that is subscribed
  and accepts the event in the state \<open>b\<close> it finds, nothing otherwise.
\<close>

definition turn :: "('h, 'w) env \<Rightarrow> event \<Rightarrow> 'h entry \<Rightarrow> ('h, 'w) bus \<Rightarrow> ('h, 'w) bus \<Rightarrow> bool" where
  "turn E e en b b' \<longleftrightarrow>
     (if is_active b en \<and> accepts en (e_priority e)
      then \<exists>k < attempts_max en.
             (\<forall>j < k. retryable (fst (attempt E en e 0 b j)))
             \<and> (\<not> retryable (fst (attempt E en e 0 b k)) \<or> Suc k = attempts_max en)
             \<and> b' = settle en e (Suc k) (attempt E en e 0 b k)
      else b' = b)"

lemma turn_taken:
  "turn E e en b (if is_active b en \<and> accepts en (e_priority e) then deliver E en e 0 b else b)"
proof (cases "is_active b en \<and> accepts en (e_priority e)")
  case True
  obtain k where k: "k < attempts_max en" "\<forall>j < k. retryable (fst (attempt E en e 0 b j))"
    "\<not> retryable (fst (attempt E en e 0 b k)) \<or> attempts_max en \<le> Suc k"
    "deliver E en e 0 b = settle en e (Suc k) (attempt E en e 0 b k)"
    using deliver_from [of 0 en E e b] by (auto simp: attempts_max_def)
  from k(1,3) have "\<not> retryable (fst (attempt E en e 0 b k)) \<or> Suc k = attempts_max en"
    by linarith
  with k True show ?thesis unfolding turn_def by auto
qed (auto simp: turn_def)

text \<open>The states between the turns.\<close>

lemma dispatch_turns:
  "\<exists>bs. length bs = Suc (length ens) \<and> hd bs = b \<and> last bs = dispatch_to E e ens b
     \<and> (\<forall>i < length ens. turn E e (ens ! i) (bs ! i) (bs ! Suc i))"
proof (induction ens arbitrary: b)
  case Nil
  show ?case by (rule exI [of _ "[b]"]) simp
next
  case (Cons en ens)
  define c where "c = (if is_active b en \<and> accepts en (e_priority e) then deliver E en e 0 b else b)"
  from Cons.IH [of c] obtain bs where bs: "length bs = Suc (length ens)" "hd bs = c"
    "last bs = dispatch_to E e ens c" "\<forall>i < length ens. turn E e (ens ! i) (bs ! i) (bs ! Suc i)" by blast
  then have "bs ! 0 = c" by (cases bs) auto
  moreover have "turn E e en b c" unfolding c_def by (rule turn_taken)
  ultimately have "\<forall>i < length (en # ens). turn E e ((en # ens) ! i) ((b # bs) ! i) ((b # bs) ! Suc i)"
    using bs(4) by (auto simp: less_Suc_eq_0_disj)
  moreover have "last (b # bs) = dispatch_to E e (en # ens) b"
    using bs(1,3) by (auto simp: c_def)
  ultimately show ?case using bs(1) by (intro exI [of _ "b # bs"]) simp
qed

text \<open>
  Handlers that do not touch the bus themselves: each call is noted in the world, here the log
  of calls.
\<close>

definition logging :: "('h, ('h \<times> event) list) env \<Rightarrow> bool" where
  "logging E \<longleftrightarrow> broker E = None
     \<and> (\<forall>h e b. snd (run_handler E h e b) = b\<lparr>world := world b @ [(h, e)]\<rparr>)"

text \<open>What deliveries leave alone.\<close>

definition same_bus :: "('h, 'w) bus \<Rightarrow> ('h, 'w) bus \<Rightarrow> bool" where
  "same_bus b b' \<longleftrightarrow> subscribers b' = subscribers b \<and> unsubscribed b' = unsubscribed b
     \<and> dlq_cap b' = dlq_cap b \<and> closed b' = closed b \<and> publish_count b' = publish_count b
     \<and> background b' = background b \<and> next_seq b' = next_seq b \<and> next_entry b' = next_entry b"

lemma same_bus_refl [simp]: "same_bus b b"
  by (simp add: same_bus_def)

lemma same_bus_trans: "same_bus a b \<Longrightarrow> same_bus b c \<Longrightarrow> same_bus a c"
  by (simp add: same_bus_def)

lemma before_logging:
  assumes "logging E"
  shows "world (before E en e n b k) = world b @ replicate k (en_handler en, e)
    \<and> dlq (before E en e n b k) = dlq b \<and> same_bus b (before E en e n b k)"
proof (induction k)
  case (Suc k)
  with assms show ?case
    by (simp add: logging_def sleep_backoff_def same_bus_def replicate_append_same [symmetric]
        del: replicate_append_same)
qed simp

lemma deliver_logging:
  assumes "logging E"
  shows "\<exists>k new. 1 \<le> k \<and> k \<le> attempts_max en
    \<and> world (deliver E en e 0 b) = world b @ replicate k (en_handler en, e)
    \<and> dlq (deliver E en e 0 b) = fold (dlq_put (dlq_cap b)) new (dlq b)
    \<and> (new = [] \<or> (\<exists>r. new = [r] \<and> dl_handler r = en_name en \<and> dl_event r = e \<and> dl_attempts r = k))
    \<and> same_bus b (deliver E en e 0 b)"
proof -
  obtain k where k: "k < attempts_max en" "deliver E en e 0 b = settle en e (Suc k) (attempt E en e 0 b k)"
    using deliver_from [of 0 en E e b] by (auto simp: attempts_max_def)
  obtain out c where a: "attempt E en e 0 b k = (out, c)" by fastforce
  then have "c = snd (run_handler E (en_handler en) e (before E en e 0 b k))"
    by (simp add: attempt_def)
  then have c: "world c = world b @ replicate (Suc k) (en_handler en, e)" "dlq c = dlq b" "same_bus b c"
    using assms before_logging [OF assms, of en e 0 b k]
    by (auto simp: logging_def same_bus_def replicate_append_same)
  show ?thesis
  proof (cases "out = Returned")
    case True
    with k a c show ?thesis
      by (intro exI [of _ "Suc k"] exI [of _ "[]"]) (simp add: settle_def)
  next
    case False
    then have "deliver E en e 0 b = send_dead_letter en e out (Suc k) c"
      using k(2) a by (simp add: settle_def split: outcome.splits)
    with k(1) c show ?thesis
      by (intro exI [of _ "Suc k"] exI [of _ "[\<lparr>dl_event_id = e_id e, dl_event_type = e_type e,
           dl_handler = en_name en, dl_error = error_text out, dl_attempts = Suc k,
           dl_priority = e_priority e, dl_event = e\<rparr>]"])
         (simp add: send_dead_letter_def same_bus_def)
  qed
qed

definition receivers :: "('h, 'w) bus \<Rightarrow> event \<Rightarrow> 'h entry list \<Rightarrow> 'h entry list" where
  "receivers b e ens = filter (\<lambda>en. is_active b en \<and> accepts en (e_priority e)) ens"

lemma receivers_same: "same_bus b b' \<Longrightarrow> receivers b' e ens = receivers b e ens"
  by (simp add: receivers_def is_active_def same_bus_def)

text \<open>The calls: each receiver in turn, a number of times within its policy.\<close>

definition calls_of :: "event \<Rightarrow> ('h entry \<times> nat) list \<Rightarrow> ('h \<times> event) list" where
  "calls_of e ks = concat (map (\<lambda>(en, k). replicate k (en_handler en, e)) ks)"

lemma dispatch_logging:
  assumes "logging E"
  shows "\<exists>ks new. map fst ks = receivers b e ens
    \<and> (\<forall>(en, k) \<in> set ks. 1 \<le> k \<and> k \<le> attempts_max en)
    \<and> world (dispatch_to E e ens b) = world b @ calls_of e ks
    \<and> dlq (dispatch_to E e ens b) = fold (dlq_put (dlq_cap b)) new (dlq b)
    \<and> subseq (map dl_handler new) (map en_name (receivers b e ens))
    \<and> same_bus b (dispatch_to E e ens b)"
proof (induction ens arbitrary: b)
  case Nil
  then show ?case by (auto simp: receivers_def calls_of_def intro!: exI [of _ "[]"])
next
  case (Cons en ens)
  show ?case
  proof (cases "is_active b en \<and> accepts en (e_priority e)")
    case False
    then have "receivers b e (en # ens) = receivers b e ens"
      "dispatch_to E e (en # ens) b = dispatch_to E e ens b" by (auto simp: receivers_def)
    with Cons.IH [of b] show ?thesis by (simp only:)
  next
    case True
    define c where "c = deliver E en e 0 b"
    from deliver_logging [OF assms] obtain k n1 where d: "1 \<le> k" "k \<le> attempts_max en"
      "world c = world b @ replicate k (en_handler en, e)"
      "dlq c = fold (dlq_put (dlq_cap b)) n1 (dlq b)"
      "n1 = [] \<or> (\<exists>r. n1 = [r] \<and> dl_handler r = en_name en)" "same_bus b c"
      unfolding c_def by blast
    from Cons.IH [of c] obtain ks new where i: "map fst ks = receivers c e ens"
      "\<forall>(en, k) \<in> set ks. 1 \<le> k \<and> k \<le> attempts_max en"
      "world (dispatch_to E e ens c) = world c @ calls_of e ks"
      "dlq (dispatch_to E e ens c) = fold (dlq_put (dlq_cap c)) new (dlq c)"
      "subseq (map dl_handler new) (map en_name (receivers c e ens))"
      "same_bus c (dispatch_to E e ens c)" by blast
    have cap: "dlq_cap c = dlq_cap b" using d(6) by (simp add: same_bus_def)
    have rc: "receivers b e (en # ens) = en # receivers c e ens"
      using True receivers_same [OF d(6)] by (simp add: receivers_def)
    have "subseq (map dl_handler (n1 @ new)) (map en_name (receivers b e (en # ens)))"
      using d(5) i(5) by (auto simp: rc)
    moreover have "dispatch_to E e (en # ens) b = dispatch_to E e ens c" using True by (simp add: c_def)
    ultimately show ?thesis
      using d i same_bus_trans [OF d(6) i(6)]
      by (intro exI [of _ "(en, k) # ks"] exI [of _ "n1 @ new"]) (simp add: rc calls_of_def cap)
  qed
qed

section \<open>The background queue\<close>

text \<open>The queue with its sequence counter.\<close>

type_synonym event_queue = "nat \<times> (int \<times> nat \<times> event) list"

definition eq_put :: "event \<Rightarrow> event_queue \<Rightarrow> event_queue" where
  "eq_put e q = (Suc (fst q), (prio (e_priority e), fst q, e) # snd q)"

definition eq_take :: "event_queue \<Rightarrow> (event \<times> event_queue) option" where
  "eq_take q = map_option (\<lambda>(e, l). (e, fst q, l)) (pq_get (snd q))"

lemma publish_async_put:
  "background b = Some q \<Longrightarrow> publish_async e p b =
     (let q' = eq_put (with_priority p e) (next_seq b, q) in
      (Inr (), b\<lparr>next_seq := fst q', background := Some (snd q')\<rparr>))"
  by (simp add: publish_async_def eq_put_def Let_def)

definition event_key :: "event \<Rightarrow> int" where
  "event_key e = prio (e_priority e)"

definition eq_inv :: "event_queue \<Rightarrow> bool" where
  "eq_inv q \<longleftrightarrow> sorted_wrt (\<lambda>x y. fst (snd y) < fst (snd x)) (snd q)
     \<and> (\<forall>x \<in> set (snd q). fst (snd x) < fst q \<and> fst x = event_key (snd (snd x)))"

definition eq_served :: "event_queue \<Rightarrow> event list" where
  "eq_served q = sort_key event_key (map (snd \<circ> snd) (rev (snd q)))"

lemma smallest_None: "smallest q = None \<longleftrightarrow> q = []"
  by (cases q) (auto split: option.splits if_splits)

lemma tuple_le_linear: "tuple_le x y \<or> tuple_le y x" and tuple_le_trans: "tuple_le x y \<Longrightarrow> tuple_le y z \<Longrightarrow> tuple_le x z"
  by (auto simp: tuple_le_def)

lemma smallest_Some: "smallest q = Some x \<Longrightarrow> x \<in> set q \<and> (\<forall>y \<in> set q. tuple_le x y)"
proof (induction q arbitrary: x)
  case (Cons z q)
  show ?case
  proof (cases "smallest q")
    case None
    with Cons.prems show ?thesis by (simp add: smallest_None tuple_le_def)
  next
    case (Some y)
    with Cons.IH [OF Some] Cons.prems tuple_le_linear [of z y] tuple_le_trans [of z y] show ?thesis
      by (auto simp: tuple_le_def split: if_splits)
  qed
qed simp

lemma eq_take_Some:
  assumes inv: "eq_inv q" and tk: "eq_take q = Some (e, q')"
  shows "eq_inv q' \<and> eq_served q = e # eq_served q'"
proof -
  obtain p s where x: "smallest (snd q) = Some (p, s, e)"
    and q': "q' = (fst q, filter (\<lambda>y. fst (snd y) \<noteq> s) (snd q))"
    using tk by (auto simp: eq_take_def pq_get_def split: option.splits)
  note sm = smallest_Some [OF x]
  then obtain bs as where q: "snd q = bs @ (p, s, e) # as" by (meson split_list)
  have lt: "\<forall>y \<in> set as. fst (snd y) < s" "\<forall>y \<in> set bs. s < fst (snd y)"
    using inv by (auto simp: eq_inv_def q sorted_wrt_append)
  then have "filter (\<lambda>y. fst (snd y) \<noteq> s) bs = bs" "filter (\<lambda>y. fst (snd y) \<noteq> s) as = as"
    unfolding filter_id_conv by fastforce+
  then have f: "filter (\<lambda>y. fst (snd y) \<noteq> s) (snd q) = bs @ as" by (simp add: q)
  have k: "\<forall>y \<in> set (snd q). fst y = event_key (snd (snd y))" using inv by (simp add: eq_inv_def)
  then have ke: "event_key e = p" using q by simp
  have "p < fst y" if "y \<in> set as" for y
  proof -
    have "tuple_le (p, s, e) y" "fst (snd y) < s" using that sm lt by (auto simp: q)
    then show ?thesis by (auto simp: tuple_le_def)
  qed
  moreover have "p \<le> fst y" if "y \<in> set bs" for y
  proof -
    have "tuple_le (p, s, e) y" using that sm by (auto simp: q)
    then show ?thesis by (auto simp: tuple_le_def)
  qed
  ultimately have ps: "\<forall>y \<in> set as. p < fst y" "\<forall>y \<in> set bs. p \<le> fst y" by blast+
  then have ord: "\<forall>a \<in> set (map (snd \<circ> snd) (rev as)). event_key e < event_key a"
    "\<forall>b \<in> set (map (snd \<circ> snd) (rev bs)). event_key e \<le> event_key b"
    using k ps by (auto simp: q ke)
  have "eq_served q = e # eq_served q'"
    using sort_key_min [OF ord] by (simp add: eq_served_def q' f) (simp add: q)
  moreover have "eq_inv q'"
    using inv unfolding eq_inv_def q' f by (auto simp: q sorted_wrt_append)
  ultimately show ?thesis by blast
qed

interpretation background_queue: stable_queue eq_take eq_served eq_inv eq_put event_key
proof unfold_locales
  fix q x assume inv: "eq_inv q"
  then show "eq_inv (eq_put x q)" by (auto simp: eq_inv_def eq_put_def event_key_def)
  show "eq_served (eq_put x q) = sort_key event_key (eq_served q @ [x])"
    by (simp add: eq_served_def eq_put_def sort_key_snoc_key)
  have "eq_served q = [] \<longleftrightarrow> snd q = []"
    by (simp add: eq_served_def flip: length_0_conv)
  then show "eq_take q = None \<longleftrightarrow> eq_served q = []"
    by (auto simp: eq_take_def pq_get_def smallest_None split: option.split)
next
  fix q x q' assume "eq_inv q" "eq_take q = Some (x, q')"
  from eq_take_Some [OF this] show "eq_inv q'" "eq_served q = x # eq_served q'" by simp_all
qed

section \<open>Properties\<close>

text \<open>C3: Whatever a handler does and however often it fails, one delivery makes attempts until the first
  that returns or raises a terminal error, at most one more than the configured retries (one if
  they are negative); it leaves a dead letter, with the number of attempts, exactly when the last
  attempt failed, and nothing else is done to the bus after that attempt. Handlers end by returning
  or with an Exception; BaseExceptions are not modelled.\<close>

theorem deliver_attempts:
  "\<exists>k < attempts_max en.
     (\<forall>j < k. retryable (fst (attempt E en e 0 b j)))
     \<and> (\<not> retryable (fst (attempt E en e 0 b k)) \<or> Suc k = attempts_max en)
     \<and> deliver E en e 0 b =
         (case attempt E en e 0 b k of
            (Returned, b') \<Rightarrow> b'
          | (out, b') \<Rightarrow> send_dead_letter en e out (Suc k) b')"
proof -
  obtain k where k: "k < attempts_max en" "\<forall>j < k. retryable (fst (attempt E en e 0 b j))"
    "\<not> retryable (fst (attempt E en e 0 b k)) \<or> attempts_max en \<le> Suc k"
    "deliver E en e 0 b = settle en e (Suc k) (attempt E en e 0 b k)"
    using deliver_from [of 0 en E e b] by (auto simp: attempts_max_def)
  then show ?thesis
    by (intro exI [of _ k]) (auto simp: settle_def split: prod.split outcome.split)
qed

text \<open>C4: Publishing to an open bus without a broker goes once through the subscribers the event type
  had when it was published, in subscription order, whatever their handlers do to the bus (fail,
  subscribe, unsubscribe, publish, close it). Each entry that is still subscribed when its turn
  comes and accepts the priority gets its attempts, at least one and at most its retries allow,
  starting in the state the turns before it left, and leaves a dead letter exactly when its last
  attempt failed; every other entry is passed over without a trace. The publication is then
  counted and the id of the event returned, without an error. A handler that ends with a
  BaseException or changes the event in place is outside the model.\<close>

theorem publish_reaches_all:
  assumes "broker E = None" and "\<not> closed b"
  shows "\<exists>bs. length bs = Suc (length (subscribers b (e_type e))) \<and> hd bs = b
    \<and> publish E e p b = (Inr (e_id e), (last bs)\<lparr>publish_count := publish_count (last bs) + 1\<rparr>)
    \<and> (\<forall>i < length (subscribers b (e_type e)).
         let en = subscribers b (e_type e) ! i; e' = with_priority p e in
         if is_active (bs ! i) en \<and> accepts en (e_priority e')
         then \<exists>k < attempts_max en.
                (\<forall>j < k. retryable (fst (attempt E en e' 0 (bs ! i) j)))
                \<and> (\<not> retryable (fst (attempt E en e' 0 (bs ! i) k)) \<or> Suc k = attempts_max en)
                \<and> bs ! Suc i = settle en e' (Suc k) (attempt E en e' 0 (bs ! i) k)
         else bs ! Suc i = bs ! i)"
proof -
  define e' where "e' = with_priority p e"
  have e': "e_id e' = e_id e" "e_type e' = e_type e"
    by (simp_all add: e'_def with_priority_def split: option.split)
  obtain bs where bs: "length bs = Suc (length (subscribers b (e_type e)))" "hd bs = b"
    "last bs = dispatch_to E e' (subscribers b (e_type e)) b"
    "\<forall>i < length (subscribers b (e_type e)). turn E e' (subscribers b (e_type e) ! i) (bs ! i) (bs ! Suc i)"
    using dispatch_turns by blast
  have "publish E e p b = (Inr (e_id e), (last bs)\<lparr>publish_count := publish_count (last bs) + 1\<rparr>)"
    using assms by (simp add: publish_def dispatch_local_def e' bs(3) Let_def bindA_def flip: e'_def)
  with bs show ?thesis unfolding turn_def Let_def e'_def by blast
qed

text \<open>A bus with a flaky and a reliable subscriber.\<close>

definition log_env :: "(bool, (bool \<times> event) list) env" where
  "log_env = \<lparr>run_handler = (\<lambda>h e b. (if h then Returned else Raised ''KeyError'' ''x'',
       b\<lparr>world := world b @ [(h, e)]\<rparr>)), random = (\<lambda>_. 1 / 2), broker = None\<rparr>"

definition sold :: event where
  "sold = \<lparr>e_id = ''e1'', e_type = PRODUCT_CREATED, e_priority = NORMAL, e_correlation_id = None,
     e_source = [], e_version = 1, e_body = ProductCreated ''p1'' None ''Widget''\<rparr>"

definition two_handlers :: "(bool, (bool \<times> event) list) bus" where
  "two_handlers = snd (subscribe PRODUCT_CREATED True ''good'' None None None None None
     (snd (subscribe PRODUCT_CREATED False ''bad'' (Some 1) None None None None
       (init_bus 1000 3 200 5000 False []))))"

lemma log_env_logging: "logging log_env"
  by (simp add: logging_def log_env_def)

theorem deliver_attempts_witness:
  "dl_attempts (hd (dlq (deliver log_env (hd (subscribers two_handlers PRODUCT_CREATED)) sold 0 two_handlers))) = 2"
proof -
  let ?en = "hd (subscribers two_handlers PRODUCT_CREATED)"
  have en: "en_handler ?en = False" "attempts_max ?en = 2" "dlq two_handlers = []" "dlq_cap two_handlers = 1000"
    by (simp_all add: two_handlers_def subscribe_def init_bus_def opt_default_def attempts_max_def)
  have a: "attempt log_env ?en sold 0 two_handlers k = (Raised ''KeyError'' ''x'',
      (before log_env ?en sold 0 two_handlers k)
        \<lparr>world := world (before log_env ?en sold 0 two_handlers k) @ [(False, sold)]\<rparr>)" for k
    by (simp add: attempt_def log_env_def en)
  obtain k where "k < attempts_max ?en" "Suc k = attempts_max ?en"
    "deliver log_env ?en sold 0 two_handlers = (case attempt log_env ?en sold 0 two_handlers k of
        (Returned, b') \<Rightarrow> b' | (out, b') \<Rightarrow> send_dead_letter ?en sold out (Suc k) b')"
    using deliver_attempts [of ?en log_env sold two_handlers] by (auto simp: a retryable_def)
  then show ?thesis
    using before_logging [OF log_env_logging, of ?en sold 0 two_handlers k]
    by (simp add: a en send_dead_letter_def same_bus_def dlq_put_def)
qed

text \<open>A handler that unsubscribes the next entry, and two that note their calls.\<close>

definition coup_env :: "(nat, nat list) env" where
  "coup_env = \<lparr>run_handler = (\<lambda>h e b. (Returned,
       if h = 0 then unsubscribe 1 b else b\<lparr>world := world b @ [h]\<rparr>)), random = (\<lambda>_. 1 / 2), broker = None\<rparr>"

definition coup_bus :: "(nat, nat list) bus" where
  "coup_bus = fold (\<lambda>h b. snd (subscribe PRODUCT_CREATED h ''h'' None None None None None b)) [0, 1, 2]
     (init_bus 1000 3 200 5000 False [])"

lemma coup_bus_entries:
  "map en_handler (subscribers coup_bus PRODUCT_CREATED) = [0, 1, 2]"
  "map en_id (subscribers coup_bus PRODUCT_CREATED) = [0, 1, 2]"
  "map priority_filter (subscribers coup_bus PRODUCT_CREATED) = [None, None, None]"
  "unsubscribed coup_bus = []" "world coup_bus = []" "\<not> closed coup_bus"
  by (simp_all add: coup_bus_def subscribe_def init_bus_def opt_default_def)

theorem publish_reaches_all_witness:
  "\<exists>b'. publish coup_env sold None coup_bus = (Inr ''e1'', b') \<and> world b' = [2]"
proof -
  let ?ens = "subscribers coup_bus PRODUCT_CREATED"
  have s: "e_type sold = PRODUCT_CREATED" "e_id sold = ''e1''" "with_priority None sold = sold"
    by (simp_all add: sold_def with_priority_def)
  have len: "length ?ens = 3" using arg_cong [OF coup_bus_entries(1), of length] by simp
  have en: "en_handler (?ens ! i) = i" "en_id (?ens ! i) = i" "priority_filter (?ens ! i) = None" if "i < 3" for i
    using that coup_bus_entries(1-3) len nth_map [of i ?ens en_handler] nth_map [of i ?ens en_id]
      nth_map [of i ?ens priority_filter]
    by (simp_all add: less_Suc_eq numeral_3_eq_3) (elim disjE; simp)+
  have at: "fst (attempt coup_env x sold 0 c j) = Returned"
    "attempt coup_env x sold 0 c 0 = (Returned, if en_handler x = 0 then unsubscribe 1 c
       else c\<lparr>world := world c @ [en_handler x]\<rparr>)" for x c j
    by (simp_all add: attempt_def coup_env_def)
  obtain bs where bs: "hd bs = coup_bus" "length bs = Suc 3"
    "publish coup_env sold None coup_bus = (Inr ''e1'', (last bs)\<lparr>publish_count := publish_count (last bs) + 1\<rparr>)"
    "\<forall>i < 3. let en = ?ens ! i; e' = sold in
       if is_active (bs ! i) en \<and> accepts en (e_priority e')
       then \<exists>k < attempts_max en. (\<forall>j < k. retryable (fst (attempt coup_env en e' 0 (bs ! i) j)))
         \<and> (\<not> retryable (fst (attempt coup_env en e' 0 (bs ! i) k)) \<or> Suc k = attempts_max en)
         \<and> bs ! Suc i = settle en e' (Suc k) (attempt coup_env en e' 0 (bs ! i) k)
       else bs ! Suc i = bs ! i"
    using publish_reaches_all [of coup_env coup_bus sold None] coup_bus_entries(6)
    unfolding s len by (auto simp: coup_env_def)
  have step: "bs ! Suc i = (if i \<in> set (unsubscribed (bs ! i)) then bs ! i
      else if i = 0 then unsubscribe 1 (bs ! i) else (bs ! i)\<lparr>world := world (bs ! i) @ [i]\<rparr>)" if i: "i < 3" for i
  proof (cases "i \<in> set (unsubscribed (bs ! i))")
    case True
    then show ?thesis using mp [OF spec [OF bs(4), of i] i] en [OF i] by (simp add: is_active_def Let_def)
  next
    case False
    then obtain k where k: "\<forall>j < k. retryable (fst (attempt coup_env (?ens ! i) sold 0 (bs ! i) j))"
      "bs ! Suc i = settle (?ens ! i) sold (Suc k) (attempt coup_env (?ens ! i) sold 0 (bs ! i) k)"
      using mp [OF spec [OF bs(4), of i] i] en [OF i] by (auto simp: is_active_def accepts_def Let_def)
    then have "k = 0" by (cases k) (auto simp: at retryable_def)
    with k(2) False show ?thesis by (simp add: at(2) settle_def en [OF i])
  qed
  have "bs ! 0 = coup_bus" using bs(1,2) by (cases bs) auto
  then have "bs ! 1 = unsubscribe 1 coup_bus" using step [of 0] coup_bus_entries by simp
  moreover from this have "bs ! 2 = unsubscribe 1 coup_bus"
    using step [of 1] by (simp add: unsubscribe_def numeral_2_eq_2)
  ultimately have "world (bs ! 3) = [2]"
    using step [of 2] coup_bus_entries by (simp add: unsubscribe_def numeral_3_eq_3)
  moreover have "last bs = bs ! 3" using bs(2) by (cases bs) (auto simp: last_conv_nth)
  ultimately show ?thesis using bs(3) by simp
qed

text \<open>
  For handlers that only note their calls, the turns add up: each active subscriber that
  accepts the priority is called in turn between once and its most attempts, and the dead
  letters come from a subsequence of them.
\<close>

theorem logged_calls:
  assumes "logging E" and "\<not> closed b"
  shows "\<exists>b' ks new. publish E e None b = (Inr (e_id e), b')
    \<and> map fst ks = receivers b e (subscribers b (e_type e))
    \<and> (\<forall>(en, k) \<in> set ks. 1 \<le> k \<and> k \<le> attempts_max en)
    \<and> world b' = world b @ calls_of e ks
    \<and> dlq b' = fold (dlq_put (dlq_cap b)) new (dlq b)
    \<and> subseq (map dl_handler new) (map en_name (receivers b e (subscribers b (e_type e))))
    \<and> publish_count b' = publish_count b + 1"
proof -
  define c where "c = dispatch_to E e (subscribers b (e_type e)) b"
  from dispatch_logging [OF assms(1), of b e "subscribers b (e_type e)"]
  obtain ks new where d: "map fst ks = receivers b e (subscribers b (e_type e))"
    "\<forall>(en, k) \<in> set ks. 1 \<le> k \<and> k \<le> attempts_max en"
    "world c = world b @ calls_of e ks" "dlq c = fold (dlq_put (dlq_cap b)) new (dlq b)"
    "subseq (map dl_handler new) (map en_name (receivers b e (subscribers b (e_type e))))"
    "same_bus b c" unfolding c_def by blast
  have "publish E e None b = (Inr (e_id e), c\<lparr>publish_count := publish_count c + 1\<rparr>)"
    using assms by (simp add: publish_def with_priority_def logging_def dispatch_local_def c_def Let_def bindA_def)
  with d show ?thesis
    by (intro exI [of _ "c\<lparr>publish_count := publish_count c + 1\<rparr>"] exI [of _ ks] exI [of _ new])
       (simp add: same_bus_def)
qed

text \<open>The dead letter queue never holds more records than its capacity and keeps the most recent ones,
  in order, for every sequence of failed deliveries.\<close>

theorem dead_letters_bounded:
  "length (dlq (send_dead_letter en e out n b)) \<le> dlq_cap b
   \<and> fold (dlq_put cap) rs [] = drop (length rs - cap) rs"
  by (simp add: send_dead_letter_def dlq_put_length dlq_puts)

text \<open>Every delay slept lies between half the capped exponential delay and that delay, in rounded
  float arithmetic and for every random draw of the unit interval, and the capped delay never
  exceeds the configured maximum.\<close>

theorem backoff_bounds:
  assumes "0 \<le> backoff_base_ms en" and "0 \<le> backoff_max_ms en" and "backoff_max_ms en \<le> 2 ^ 53"
    and "0 \<le> u" and "u \<le> 1"
  shows "fl (of_int (backoff_ms en k) / 2000) \<le> backoff en k u
    \<and> backoff en k u \<le> fl (of_int (backoff_ms en k) / 1000)
    \<and> backoff_ms en k \<le> backoff_max_ms en"
  using backoff_bounds_lemma [of en k u] assms by (simp add: backoff_ms_def)

theorem backoff_bounds_witness:
  "backoff \<lparr>en_id = 0, en_handler = (), en_name = ''h'', max_retries = 3, backoff_base_ms = 200,
     backoff_max_ms = 5000, en_jitter = True, priority_filter = None\<rparr> 9 (1 / 3) \<le> fl (of_int 5000 / 1000)"
  using backoff_bounds [of "\<lparr>en_id = 0, en_handler = (), en_name = ''h'', max_retries = 3,
     backoff_base_ms = 200, backoff_max_ms = 5000, en_jitter = True, priority_filter = None\<rparr>" "1 / 3" 9]
  by (simp add: backoff_ms_def)

text \<open>Events put into the background queue are taken out by ascending priority value (critical first)
  and, among equal priorities, in the order in which they were published.\<close>

theorem background_order:
  assumes "background b = Some []"
  shows "\<exists>b'. fold (\<lambda>e b. snd (publish_async e None b)) es b = b'
    \<and> (\<exists>q. background b' = Some q
        \<and> drain eq_take (length es) (next_seq b', q) = sort_key event_key es)"
proof -
  have step: "\<exists>q'. background (fold (\<lambda>e b. snd (publish_async e None b)) es b) = Some q'
      \<and> (next_seq (fold (\<lambda>e b. snd (publish_async e None b)) es b), q') = fold eq_put es (next_seq b, q)"
    if "background b = Some q" for b :: "('a, 'b) bus" and q es
    using that
  proof (induction es arbitrary: b q)
    case (Cons e es)
    define b1 where "b1 = snd (publish_async e None b)"
    have "background b1 = Some (snd (eq_put e (next_seq b, q)))" "next_seq b1 = fst (eq_put e (next_seq b, q))"
      using publish_async_put [OF Cons.prems] by (simp_all add: b1_def Let_def with_priority_def)
    with Cons.IH [of b1] show ?case by (simp flip: b1_def)
  qed simp
  have "eq_inv (next_seq b, [])" "eq_served (next_seq b, []) = []"
    by (simp_all add: eq_inv_def eq_served_def)
  from background_queue.drain_fold [OF this, of es] step [OF assms, of es] show ?thesis by metis
qed

theorem background_order_witness:
  "\<exists>q. background (fold (\<lambda>e b. snd (publish_async e None b)) [sold, sold\<lparr>e_priority := CRITICAL\<rparr>]
      (snd (start_background two_handlers))) = Some q
    \<and> length q = 2"
  using background_order [of "snd (start_background two_handlers)" "[sold, sold\<lparr>e_priority := CRITICAL\<rparr>]"]
  by (auto simp: start_background_def two_handlers_def subscribe_def init_bus_def publish_async_def
      with_priority_def)

text \<open>Replaying dead letters on a closed bus without a broker destroys them: the matching records are
  purged before the first publication raises.\<close>

theorem replay_on_closed_bus:
  assumes "closed b" and "broker E = None" and "filter (of_type t) (dlq b) \<noteq> []"
  shows "replay_dead_letters E t b
    = (Inl EventBusClosedError, b\<lparr>dlq := filter (\<lambda>r. \<not> of_type t r) (dlq b)\<rparr>)"
proof -
  obtain r rs where r: "filter (of_type t) (dlq_list (dlq b)) = r # rs"
    using assms(3) by (cases "filter (of_type t) (dlq_list (dlq b))")
      (auto simp: dlq_list_def filter_empty_conv)
  then show ?thesis
    using assms(1,2)
    by (simp add: replay_dead_letters_def dlq_purge_def Let_def bindA_def publish_def dispatch_local_def)
qed

theorem replay_on_closed_bus_witness:
  "\<exists>b. dlq b \<noteq> [] \<and> dlq (snd (replay_dead_letters log_env None (aclose b))) = []"
proof -
  define b where "b = send_dead_letter (hd (subscribers two_handlers PRODUCT_CREATED)) sold (HandlerError []) 1
    two_handlers"
  have b: "dlq b \<noteq> []" "dlq (aclose b) = dlq b" "closed (aclose b)"
    by (simp_all add: b_def send_dead_letter_def dlq_put_def aclose_def two_handlers_def subscribe_def init_bus_def)
  then have "filter (of_type None) (dlq (aclose b)) \<noteq> []" by (simp add: of_type_def)
  moreover have "broker log_env = None" by (simp add: log_env_def)
  ultimately have "snd (replay_dead_letters log_env None (aclose b))
      = (aclose b)\<lparr>dlq := filter (\<lambda>r. \<not> of_type None r) (dlq (aclose b))\<rparr>"
    using replay_on_closed_bus [OF b(3), of log_env None] by simp
  then have "dlq (snd (replay_dead_letters log_env None (aclose b))) = []" by (simp add: of_type_def)
  with b(1) show ?thesis by blast
qed

end
