(* ===== verification/AgentQueue.thy ===== *)
theory AgentQueue
  imports StateMachine QueueSpec Texts
begin

text \<open>
  The task queue of the agent, \<open>app/agent/queue.py\<close>: its Redis implementation over a record of
  Redis commands (a parameter) and its in-memory fallback. A task is stored as its JSON text;
  writing and reading it back is taken to be lossless. Time stamps are not modelled. Each
  operation is one step on the server: commands that other clients send between the commands of
  an operation are not modelled. The time to live is passed on to the command; what it does, that
  the key is gone after a while, is a step of the histories in \<open>AgentQueueProps\<close>.
\<close>

section \<open>Tasks\<close>

datatype task_type =
    SCAN_SUPPLIER | RETRIEVE_AMAZON | CALCULATE_PROFIT | SCORE_OPPORTUNITY
  | GENERATE_RECOMMENDATION | FULL_PIPELINE | SUPPLIER_CYCLE

datatype task_status = PENDING | RUNNING | SUCCESS | FAILED | RETRYING | CANCELLED | SKIPPED

record ('p, 'x) task =
  t_id :: string
  t_type :: task_type
  t_status :: task_status
  t_priority :: int
  t_retry_count :: int
  t_max_retries :: int
  t_worker_id :: "string option"
  t_payload :: 'p
  t_result :: "'x option"
  t_error :: "string option"

text \<open>The field constraints of \<open>Task\<close>.\<close>

definition task_ok :: "('p, 'x) task \<Rightarrow> bool" where
  "task_ok t \<longleftrightarrow> 0 \<le> t_priority t \<and> t_priority t \<le> 10 \<and> 0 \<le> t_retry_count t \<and> 0 \<le> t_max_retries t"

section \<open>Redis\<close>

text \<open>The commands the queue sends, each on the state of the server.\<close>

datatype ('p, 'x) stored = StoredTask "('p, 'x) task" | StoredText string

record ('r, 'p, 'x) redis =
  r_set :: "string \<Rightarrow> ('p, 'x) stored \<Rightarrow> int \<Rightarrow> 'r \<Rightarrow> 'r"
  r_get :: "string \<Rightarrow> 'r \<Rightarrow> ('p, 'x) stored option"
  r_delete :: "string \<Rightarrow> 'r \<Rightarrow> 'r"
  r_lpush :: "string \<Rightarrow> string \<Rightarrow> 'r \<Rightarrow> 'r"
  r_blpop :: "string list \<Rightarrow> 'r \<Rightarrow> (string \<times> string) option \<times> 'r"
  r_sadd :: "string \<Rightarrow> string \<Rightarrow> 'r \<Rightarrow> 'r"
  r_srem :: "string \<Rightarrow> string \<Rightarrow> 'r \<Rightarrow> 'r"
  r_smembers :: "string \<Rightarrow> 'r \<Rightarrow> string list"
  r_scard :: "string \<Rightarrow> 'r \<Rightarrow> nat"
  r_incr :: "string \<Rightarrow> 'r \<Rightarrow> 'r"
  r_counter :: "string \<Rightarrow> 'r \<Rightarrow> int"

definition level_key :: "int \<Rightarrow> string" where
  "level_key p = ''agent:queue:p'' @ digits (nat p)"

definition task_key :: "string \<Rightarrow> string" where
  "task_key i = ''agent:queue:task:'' @ i"

definition retry_key :: "string \<Rightarrow> string" where
  "retry_key i = ''agent:queue:retry:'' @ i"

definition scheduled_key :: "string \<Rightarrow> string" where
  "scheduled_key i = ''agent:queue:scheduled:'' @ i"

definition PENDING_SET_KEY :: string where "PENDING_SET_KEY = ''agent:queue:pending''"
definition RUNNING_SET_KEY :: string where "RUNNING_SET_KEY = ''agent:queue:running''"
definition counter_key :: "string \<Rightarrow> string" where "counter_key n = ''agent:queue:counter:'' @ n"

definition level_keys :: "string list" where
  "level_keys = map level_key [0..10]"

section \<open>The Redis queue\<close>

text \<open>\<open>new_id\<close> stands for \<open>uuid4\<close>, used when the task has no id yet.\<close>

definition with_id :: "string \<Rightarrow> ('p, 'x) task \<Rightarrow> ('p, 'x) task" where
  "with_id new_id t = (if t_id t = [] then t\<lparr>t_id := new_id\<rparr> else t)"

definition enqueue_redis :: "('r, 'p, 'x) redis \<Rightarrow> string \<Rightarrow> ('p, 'x) task \<Rightarrow> 'r \<Rightarrow> string \<times> 'r" where
  "enqueue_redis R new_id task r =
     (let t = with_id new_id task;
          r = r_set R (task_key (t_id t)) (StoredTask t) 86400 r;
          r = r_lpush R (level_key (t_priority t)) (t_id t) r;
          r = r_sadd R PENDING_SET_KEY (t_id t) r;
          r = r_incr R (counter_key ''enqueued'') r in
      (t_id t, r))"

definition load_task :: "('r, 'p, 'x) redis \<Rightarrow> string \<Rightarrow> 'r \<Rightarrow> ('p, 'x) task option" where
  "load_task R i r = (case r_get R (task_key i) r of Some (StoredTask t) \<Rightarrow> Some t | _ \<Rightarrow> None)"

text \<open>What a dequeue sets on the task it hands to a worker.\<close>

definition started :: "string \<Rightarrow> ('p, 'x) task \<Rightarrow> ('p, 'x) task" where
  "started worker t = t\<lparr>t_status := RUNNING, t_worker_id := Some worker\<rparr>"

definition dequeue_redis :: "('r, 'p, 'x) redis \<Rightarrow> string \<Rightarrow> 'r \<Rightarrow> ('p, 'x) task option \<times> 'r" where
  "dequeue_redis R worker r =
     (case r_blpop R level_keys r of
        (None, r) \<Rightarrow> (None, r)
      | (Some (_, i), r) \<Rightarrow>
          (case load_task R i r of
             None \<Rightarrow> (None, r)
           | Some t \<Rightarrow>
               (let t = started worker t;
                    r = r_srem R PENDING_SET_KEY i r;
                    r = r_sadd R RUNNING_SET_KEY i r;
                    r = r_set R (task_key i) (StoredTask t) 86400 r in
                (Some t, r))))"

definition complete_redis :: "('r, 'p, 'x) redis \<Rightarrow> string \<Rightarrow> 'x option \<Rightarrow> 'r \<Rightarrow> 'r" where
  "complete_redis R i res r =
     (case load_task R i r of
        None \<Rightarrow> r
      | Some t \<Rightarrow>
          (let r = r_set R (task_key i) (StoredTask (t\<lparr>t_status := SUCCESS, t_result := res\<rparr>)) 86400 r;
               r = r_srem R RUNNING_SET_KEY i r in
           r_incr R (counter_key ''completed'') r))"

definition fail_redis ::
  "('r, 'p, 'x) redis \<Rightarrow> string \<Rightarrow> string \<Rightarrow> bool \<Rightarrow> 'r \<Rightarrow> ('p, 'x) task option \<times> 'r" where
  "fail_redis R i err should_retry r =
     (case load_task R i r of
        None \<Rightarrow> (None, r)
      | Some t \<Rightarrow>
          (let t = t\<lparr>t_retry_count := t_retry_count t + 1, t_error := Some err\<rparr> in
           if should_retry \<and> t_retry_count t < t_max_retries t then
             (let t = t\<lparr>t_status := RETRYING\<rparr>;
                  delay = t_retry_count t * 10;
                  r = r_set R (retry_key i) (StoredTask t) (delay + 60) r;
                  r = r_set R (scheduled_key i) (StoredText i) delay r in
              (Some t, r))
           else
             (let t = t\<lparr>t_status := FAILED\<rparr>;
                  r = r_set R (task_key i) (StoredTask t) 86400 r;
                  r = r_srem R RUNNING_SET_KEY i r;
                  r = r_incr R (counter_key ''failed'') r in
              (Some t, r))))"

definition cancel_redis :: "('r, 'p, 'x) redis \<Rightarrow> string \<Rightarrow> 'r \<Rightarrow> bool \<times> 'r" where
  "cancel_redis R i r =
     (case load_task R i r of
        None \<Rightarrow> (False, r)
      | Some t \<Rightarrow>
          if t_status t \<noteq> PENDING then (False, r)
          else (let r = r_set R (task_key i) (StoredTask (t\<lparr>t_status := CANCELLED\<rparr>)) 86400 r in
                (True, r_srem R PENDING_SET_KEY i r)))"

definition depth_redis :: "('r, 'p, 'x) redis \<Rightarrow> 'r \<Rightarrow> nat" where
  "depth_redis R = r_scard R PENDING_SET_KEY"

definition running_redis :: "('r, 'p, 'x) redis \<Rightarrow> 'r \<Rightarrow> nat" where
  "running_redis R = r_scard R RUNNING_SET_KEY"

record queue_stats =
  q_depth :: nat
  q_running :: nat
  q_enqueued :: int
  q_completed :: int
  q_failed :: int

definition stats_redis :: "('r, 'p, 'x) redis \<Rightarrow> 'r \<Rightarrow> queue_stats" where
  "stats_redis R r = \<lparr>q_depth = depth_redis R r, q_running = running_redis R r,
     q_enqueued = r_counter R (counter_key ''enqueued'') r,
     q_completed = r_counter R (counter_key ''completed'') r,
     q_failed = r_counter R (counter_key ''failed'') r\<rparr>"

definition clear_redis :: "('r, 'p, 'x) redis \<Rightarrow> 'r \<Rightarrow> nat \<times> 'r" where
  "clear_redis R r =
     (let pending = r_smembers R PENDING_SET_KEY r in
      if pending = [] then (0, r)
      else
        (let r = fold (r_delete R) (map task_key pending) r;
             r = r_delete R PENDING_SET_KEY r;
             r = fold (r_delete R) level_keys r in
         (length pending, r)))"

text \<open>Tasks enqueued one after the other, each with the id it would be given.\<close>

fun enqueue_many_redis ::
  "('r, 'p, 'x) redis \<Rightarrow> (string \<times> ('p, 'x) task) list \<Rightarrow> 'r \<Rightarrow> string list \<times> 'r" where
  "enqueue_many_redis R [] r = ([], r)"
| "enqueue_many_redis R ((n, t) # ts) r =
     (let (i, r) = enqueue_redis R n t r; (is, r) = enqueue_many_redis R ts r in (i # is, r))"

section \<open>The in-memory fallback\<close>

text \<open>The index of the first task of highest priority: \<open>best\<close> is the best so far.\<close>

fun best_index :: "('p, 'x) task list \<Rightarrow> nat \<Rightarrow> nat \<Rightarrow> ('p, 'x) task list \<Rightarrow> nat" where
  "best_index q best i [] = best"
| "best_index q best i (t # ts) =
     best_index q (if t_priority (q ! best) < t_priority t then i else best) (Suc i) ts"

definition append_local :: "('p, 'x) task \<Rightarrow> ('p, 'x) task list \<Rightarrow> ('p, 'x) task list" where
  "append_local t q = q @ [t]"

definition enqueue_local ::
  "string \<Rightarrow> ('p, 'x) task \<Rightarrow> ('p, 'x) task list \<Rightarrow> string \<times> ('p, 'x) task list" where
  "enqueue_local new_id task q = (let t = with_id new_id task in (t_id t, append_local t q))"

fun enqueue_many_local ::
  "(string \<times> ('p, 'x) task) list \<Rightarrow> ('p, 'x) task list \<Rightarrow> string list \<times> ('p, 'x) task list" where
  "enqueue_many_local [] q = ([], q)"
| "enqueue_many_local ((n, t) # ts) q =
     (let (i, q) = enqueue_local n t q; (is, q) = enqueue_many_local ts q in (i # is, q))"

definition pop_best :: "('p, 'x) task list \<Rightarrow> (('p, 'x) task \<times> ('p, 'x) task list) option" where
  "pop_best q = (if q = [] then None
     else (let k = best_index q 0 0 q in Some (q ! k, take k q @ drop (Suc k) q)))"

definition dequeue_local ::
  "string \<Rightarrow> ('p, 'x) task list \<Rightarrow> (('p, 'x) task \<times> ('p, 'x) task list) option" where
  "dequeue_local worker q =
     map_option (\<lambda>(t, q'). (started worker t, q')) (pop_best q)"

text \<open>Without Redis nothing is ever running, failing and cancelling have no effect.\<close>

definition clear_local :: "('p, 'x) task list \<Rightarrow> nat \<times> ('p, 'x) task list" where
  "clear_local q = (length q, [])"

definition stats_local :: "('p, 'x) task list \<Rightarrow> queue_stats" where
  "stats_local q = \<lparr>q_depth = length q, q_running = 0, q_enqueued = 0, q_completed = 0, q_failed = 0\<rparr>"

end
