(* ===== verification/AgentQueueProps.thy ===== *)
theory AgentQueueProps
  imports AgentQueue
begin

text \<open>
  The properties of the task queue: the order in which the two implementations serve, which
  disagree; what cancelling and retrying do on Redis; over histories with expiring keys, what
  links the tasks enqueued, handed out, queued and counted as pending.
\<close>

section \<open>The in-memory queue\<close>

lemma drop_Cons_split: "t # ts = drop i q \<Longrightarrow> i < length q \<and> t = q ! i \<and> ts = drop (Suc i) q"
  by (metis Cons_nth_drop_Suc drop_all list.discI list.inject not_le_imp_less)

lemma best_index_spec:
  assumes "best < length q" and "i + length ts = length q" and "ts = drop i q" and "best \<le> i"
    and "\<forall>j < best. t_priority (q ! j) < t_priority (q ! best)"
    and "\<forall>j < i. t_priority (q ! j) \<le> t_priority (q ! best)"
  shows "let k = best_index q best i ts in k < length q
    \<and> (\<forall>j < k. t_priority (q ! j) < t_priority (q ! k))
    \<and> (\<forall>j < length q. t_priority (q ! j) \<le> t_priority (q ! k))"
  using assms
proof (induction ts arbitrary: best i)
  case (Cons t ts)
  have i: "i < length q" "t = q ! i" "ts = drop (Suc i) q"
    using drop_Cons_split [OF Cons.prems(3)] by simp_all
  show ?case
  proof (cases "t_priority (q ! best) < t_priority t")
    case True
    have "\<forall>j < i. t_priority (q ! j) < t_priority (q ! i)"
      using Cons.prems(6) True i(2) by (meson le_less_trans)
    moreover from this have "\<forall>j < Suc i. t_priority (q ! j) \<le> t_priority (q ! i)"
      by (auto simp: less_Suc_eq intro: less_imp_le)
    ultimately show ?thesis
      using Cons.IH [of i "Suc i"] i True Cons.prems(2) by (simp add: Let_def)
  next
    case False
    then have "\<forall>j < Suc i. t_priority (q ! j) \<le> t_priority (q ! best)"
      using Cons.prems(6) i(2) by (auto simp: less_Suc_eq)
    then show ?thesis
      using Cons.IH [of best "Suc i"] i False Cons.prems(1,2,4,5) by (simp add: Let_def)
  qed
qed (simp add: Let_def)

definition by_priority :: "('p, 'x) task \<Rightarrow> int" where
  "by_priority t = - t_priority t"

definition local_served :: "('p, 'x) task list \<Rightarrow> ('p, 'x) task list" where
  "local_served q = sort_key by_priority q"

lemma sort_key_Nil_iff [simp]: "sort_key k xs = [] \<longleftrightarrow> xs = []"
  by (metis length_0_conv length_sort)

lemma pop_best_Some:
  assumes "pop_best q = Some (t, q')"
  shows "local_served q = t # local_served q'"
proof -
  have "q \<noteq> []" using assms by (auto simp: pop_best_def)
  define k where "k = best_index q 0 0 q"
  have k: "k < length q" "\<forall>j < k. t_priority (q ! j) < t_priority (q ! k)"
    "\<forall>j < length q. t_priority (q ! j) \<le> t_priority (q ! k)"
    using best_index_spec [of 0 q 0 q] \<open>q \<noteq> []\<close> by (simp_all add: k_def Let_def)
  have t: "t = q ! k" "q' = take k q @ drop (Suc k) q"
    using assms \<open>q \<noteq> []\<close> by (auto simp: pop_best_def k_def Let_def)
  have q: "q = take k q @ t # drop (Suc k) q" using k(1) t(1) by (simp add: id_take_nth_drop)
  have "\<forall>a \<in> set (take k q). by_priority t < by_priority a"
    using k(2) t(1) by (auto simp: by_priority_def in_set_conv_nth)
  moreover have "\<forall>b \<in> set (drop (Suc k) q). by_priority t \<le> by_priority b"
    using k(3) t(1) by (auto simp: by_priority_def in_set_conv_nth)
  ultimately have "sort_key by_priority (take k q @ t # drop (Suc k) q) = t # sort_key by_priority (take k q @ drop (Suc k) q)"
    by (rule sort_key_min)
  with q show ?thesis by (simp add: local_served_def t(2))
qed

lemma pop_best_None: "pop_best q = None \<longleftrightarrow> q = []"
  by (simp add: pop_best_def Let_def)

interpretation local_queue: stable_queue pop_best local_served "\<lambda>_. True" append_local by_priority
proof unfold_locales
  fix q :: "('a, 'b) task list" and x
  show "local_served (append_local x q) = sort_key by_priority (local_served q @ [x])"
    by (simp add: local_served_def append_local_def sort_key_snoc_key)
  show "pop_best q = None \<longleftrightarrow> local_served q = []"
    by (simp add: pop_best_None local_served_def)
qed (simp_all add: pop_best_Some)

lemma enqueue_many_local:
  "snd (enqueue_many_local ts q) = fold append_local (map (\<lambda>(n, t). with_id n t) ts) q"
  by (induction ts arbitrary: q) (auto simp: enqueue_local_def Let_def split_beta)

lemma drain_dequeue_local: "drain (dequeue_local w) n q = map (started w) (drain pop_best n q)"
  by (induction n arbitrary: q) (auto simp: dequeue_local_def split: option.split)

section \<open>The commands of Redis\<close>

text \<open>
  The documented effect of the commands on lists, values, sets and counters; that a key may
  expire between them is a step of its own below (\<open>expires\<close>): \<open>LPUSH\<close> adds at the head, \<open>BLPOP\<close> takes the head of the first non-empty list.
\<close>

record ('p, 'x) redis_view =
  v_lists :: "string \<Rightarrow> string list"
  v_vals :: "string \<Rightarrow> ('p, 'x) stored option"
  v_sets :: "string \<Rightarrow> string set"
  v_ints :: "string \<Rightarrow> int"

definition view_blpop ::
  "string list \<Rightarrow> ('p, 'x) redis_view \<Rightarrow> (string \<times> string) option \<times> ('p, 'x) redis_view" where
  "view_blpop ks v = (case List.find (\<lambda>k. v_lists v k \<noteq> []) ks of
     None \<Rightarrow> (None, v)
   | Some k \<Rightarrow> (Some (k, hd (v_lists v k)), v\<lparr>v_lists := (v_lists v)(k := tl (v_lists v k))\<rparr>))"

definition lawful_values :: "('r, 'p, 'x) redis \<Rightarrow> ('r \<Rightarrow> ('p, 'x) redis_view) \<Rightarrow> bool" where
  "lawful_values R V \<longleftrightarrow>
     (\<forall>k v t r. V (r_set R k v t r) = (V r)\<lparr>v_vals := (v_vals (V r))(k \<mapsto> v)\<rparr>)
     \<and> (\<forall>k r. r_get R k r = v_vals (V r) k)
     \<and> (\<forall>k r. V (r_delete R k r) = \<lparr>v_lists = (v_lists (V r))(k := []), v_vals = (v_vals (V r))(k := None),
           v_sets = (v_sets (V r))(k := {}), v_ints = (v_ints (V r))(k := 0)\<rparr>)"

definition lawful_lists :: "('r, 'p, 'x) redis \<Rightarrow> ('r \<Rightarrow> ('p, 'x) redis_view) \<Rightarrow> bool" where
  "lawful_lists R V \<longleftrightarrow>
     (\<forall>k x r. V (r_lpush R k x r) = (V r)\<lparr>v_lists := (v_lists (V r))(k := x # v_lists (V r) k)\<rparr>)
     \<and> (\<forall>ks r. fst (r_blpop R ks r) = fst (view_blpop ks (V r)))
     \<and> (\<forall>ks r. V (snd (r_blpop R ks r)) = snd (view_blpop ks (V r)))"

definition lawful_sets :: "('r, 'p, 'x) redis \<Rightarrow> ('r \<Rightarrow> ('p, 'x) redis_view) \<Rightarrow> bool" where
  "lawful_sets R V \<longleftrightarrow>
     (\<forall>k x r. V (r_sadd R k x r) = (V r)\<lparr>v_sets := (v_sets (V r))(k := insert x (v_sets (V r) k))\<rparr>)
     \<and> (\<forall>k x r. V (r_srem R k x r) = (V r)\<lparr>v_sets := (v_sets (V r))(k := v_sets (V r) k - {x})\<rparr>)
     \<and> (\<forall>k r. set (r_smembers R k r) = v_sets (V r) k)
     \<and> (\<forall>k r. r_scard R k r = card (v_sets (V r) k))"

definition lawful_counters :: "('r, 'p, 'x) redis \<Rightarrow> ('r \<Rightarrow> ('p, 'x) redis_view) \<Rightarrow> bool" where
  "lawful_counters R V \<longleftrightarrow>
     (\<forall>k r. V (r_incr R k r) = (V r)\<lparr>v_ints := (v_ints (V r))(k := v_ints (V r) k + 1)\<rparr>)
     \<and> (\<forall>k r. r_counter R k r = v_ints (V r) k)"

definition lawful_redis :: "('r, 'p, 'x) redis \<Rightarrow> ('r \<Rightarrow> ('p, 'x) redis_view) \<Rightarrow> bool" where
  "lawful_redis R V \<longleftrightarrow> lawful_values R V \<and> lawful_lists R V \<and> lawful_sets R V \<and> lawful_counters R V"

lemma redis_simps:
  assumes "lawful_redis R V"
  shows "V (r_set R k v t r) = (V r)\<lparr>v_vals := (v_vals (V r))(k \<mapsto> v)\<rparr>"
    and "r_get R k r = v_vals (V r) k"
    and "V (r_delete R k r) = \<lparr>v_lists = (v_lists (V r))(k := []), v_vals = (v_vals (V r))(k := None),
           v_sets = (v_sets (V r))(k := {}), v_ints = (v_ints (V r))(k := 0)\<rparr>"
    and "V (r_lpush R k x r) = (V r)\<lparr>v_lists := (v_lists (V r))(k := x # v_lists (V r) k)\<rparr>"
    and "fst (r_blpop R ks r) = fst (view_blpop ks (V r))"
    and "V (snd (r_blpop R ks r)) = snd (view_blpop ks (V r))"
    and "V (r_sadd R k x r) = (V r)\<lparr>v_sets := (v_sets (V r))(k := insert x (v_sets (V r) k))\<rparr>"
    and "V (r_srem R k x r) = (V r)\<lparr>v_sets := (v_sets (V r))(k := v_sets (V r) k - {x})\<rparr>"
    and "set (r_smembers R k r) = v_sets (V r) k"
    and "r_scard R k r = card (v_sets (V r) k)"
    and "V (r_incr R k r) = (V r)\<lparr>v_ints := (v_ints (V r))(k := v_ints (V r) k + 1)\<rparr>"
    and "r_counter R k r = v_ints (V r) k"
  using assms by (simp_all add: lawful_redis_def lawful_values_def lawful_lists_def lawful_sets_def
      lawful_counters_def)

lemma level_keys_distinct: "distinct level_keys"
  by (simp add: level_keys_def level_key_def upto_rec1 digits.simps)

lemma view_blpop_None: "fst (view_blpop ks v) = None \<longleftrightarrow> concat (map (v_lists v) ks) = []"
proof (cases "List.find (\<lambda>k. v_lists v k \<noteq> []) ks")
  case None
  moreover from this have "\<forall>k \<in> set ks. v_lists v k = []" by (simp add: find_None_iff)
  ultimately show ?thesis by (simp add: view_blpop_def)
next
  case (Some k)
  then have "k \<in> set ks \<and> v_lists v k \<noteq> []" by (auto simp: find_Some_iff)
  with Some show ?thesis by (auto simp: view_blpop_def)
qed

lemma view_blpop_Some:
  assumes "view_blpop ks v = (Some (k, i), v')" and "distinct ks"
  shows "concat (map (v_lists v) ks) = i # concat (map (v_lists v') ks)"
    and "k \<in> set ks" and "v_lists v k = i # tl (v_lists v k)"
    and "v' = v\<lparr>v_lists := (v_lists v)(k := tl (v_lists v k))\<rparr>"
proof -
  have f: "List.find (\<lambda>k. v_lists v k \<noteq> []) ks = Some k" and i: "i = hd (v_lists v k)"
    and v': "v' = v\<lparr>v_lists := (v_lists v)(k := tl (v_lists v k))\<rparr>"
    using assms(1) by (auto simp: view_blpop_def split: option.splits)
  from f obtain j where j: "j < length ks" "v_lists v (ks ! j) \<noteq> []" "k = ks ! j"
    "\<forall>j' < j. v_lists v (ks ! j') = []" by (auto simp: find_Some_iff)
  then show "k \<in> set ks" and k: "v_lists v k = i # tl (v_lists v k)" by (simp_all add: i)
  show "v' = v\<lparr>v_lists := (v_lists v)(k := tl (v_lists v k))\<rparr>" by (rule v')
  have ks: "ks = take j ks @ k # drop (Suc j) ks" using j by (simp add: id_take_nth_drop)
  have e: "concat (map (v_lists v) (take j ks)) = []" using j by (auto simp: in_set_conv_nth)
  have "k \<notin> set (take j ks)" "k \<notin> set (drop (Suc j) ks)"
    using assms(2) ks by (metis distinct_append distinct.simps(2) not_distinct_conv_prefix, metis distinct_append distinct.simps(2) ks)
  then have m: "map (v_lists v') (take j ks) = map (v_lists v) (take j ks)"
    "map (v_lists v') (drop (Suc j) ks) = map (v_lists v) (drop (Suc j) ks)"
    by (auto simp: v')
  have "concat (map (v_lists v) ks) = v_lists v k @ concat (map (v_lists v) (drop (Suc j) ks))"
    using e by (subst ks) simp
  moreover have "concat (map (v_lists v') ks) = tl (v_lists v k) @ concat (map (v_lists v) (drop (Suc j) ks))"
    using e by (subst ks) (simp add: m, simp add: v')
  ultimately show "concat (map (v_lists v) ks) = i # concat (map (v_lists v') ks)"
    using k by (metis append_Cons)
qed

section \<open>What the Redis queue will serve\<close>

definition view_task :: "('p, 'x) redis_view \<Rightarrow> string \<Rightarrow> ('p, 'x) task option" where
  "view_task v i = (case v_vals v (task_key i) of Some (StoredTask t) \<Rightarrow> Some t | _ \<Rightarrow> None)"

definition queued_ids :: "('p, 'x) redis_view \<Rightarrow> string list" where
  "queued_ids v = concat (map (v_lists v) level_keys)"

definition redis_served :: "string \<Rightarrow> ('r \<Rightarrow> ('p, 'x) redis_view) \<Rightarrow> 'r \<Rightarrow> ('p, 'x) task list" where
  "redis_served w V r = map (\<lambda>i. started w (the (view_task (V r) i))) (queued_ids (V r))"

text \<open>Every entry of a level's list is the id of a stored task of that level, and occurs once.\<close>

definition view_inv :: "('p, 'x) redis_view \<Rightarrow> bool" where
  "view_inv v \<longleftrightarrow> distinct (queued_ids v)
     \<and> (\<forall>p \<in> {0..10}. \<forall>i \<in> set (v_lists v (level_key p)).
          \<exists>t. view_task v i = Some t \<and> t_id t = i \<and> t_priority t = p)
     \<and> v_sets v PENDING_SET_KEY \<subseteq> set (queued_ids v)"

definition redis_take :: "('r, 'p, 'x) redis \<Rightarrow> string \<Rightarrow> 'r \<Rightarrow> (('p, 'x) task \<times> 'r) option" where
  "redis_take R w r = (case dequeue_redis R w r of (None, _) \<Rightarrow> None | (Some t, r') \<Rightarrow> Some (t, r'))"

lemma task_key_inject [simp]: "task_key i = task_key j \<longleftrightarrow> i = j"
  by (simp add: task_key_def)

lemma task_key_other [simp]: "task_key i \<noteq> retry_key j" "task_key i \<noteq> scheduled_key j"
  "retry_key j \<noteq> task_key i" "scheduled_key j \<noteq> task_key i"
  by (simp_all add: task_key_def retry_key_def scheduled_key_def)

lemma set_keys [simp]: "PENDING_SET_KEY \<noteq> RUNNING_SET_KEY" "RUNNING_SET_KEY \<noteq> PENDING_SET_KEY"
  by (simp_all add: PENDING_SET_KEY_def RUNNING_SET_KEY_def)

lemma load_task_view: "lawful_redis R V \<Longrightarrow> load_task R i r = view_task (V r) i"
  by (simp add: load_task_def view_task_def redis_simps)

lemma view_task_upd [simp]:
  "view_task (v\<lparr>v_vals := (v_vals v)(k \<mapsto> s)\<rparr>) i =
     (if k = task_key i then (case s of StoredTask t \<Rightarrow> Some t | _ \<Rightarrow> None) else view_task v i)"
  "view_task (v\<lparr>v_lists := l\<rparr>) i = view_task v i"
  "view_task (v\<lparr>v_sets := z\<rparr>) i = view_task v i"
  "view_task (v\<lparr>v_ints := n\<rparr>) i = view_task v i"
  by (auto simp: view_task_def split: stored.split)

lemma queued_ids_upd [simp]:
  "queued_ids (v\<lparr>v_vals := l\<rparr>) = queued_ids v" "queued_ids (v\<lparr>v_sets := z\<rparr>) = queued_ids v"
  "queued_ids (v\<lparr>v_ints := n\<rparr>) = queued_ids v"
  by (simp_all add: queued_ids_def)

lemma in_queued_ids: "i \<in> set (queued_ids v) \<longleftrightarrow> (\<exists>p \<in> {0..10}. i \<in> set (v_lists v (level_key p)))"
  by (auto simp: queued_ids_def level_keys_def)

lemma view_inv_task: "view_inv v \<Longrightarrow> i \<in> set (queued_ids v) \<Longrightarrow> \<exists>t. view_task v i = Some t \<and> t_id t = i"
  unfolding view_inv_def in_queued_ids by blast

lemma view_inv_lists:
  assumes "view_inv v" and "\<forall>p \<in> {0..10}. set (v_lists v' (level_key p)) \<subseteq> set (v_lists v (level_key p))"
    and "distinct (queued_ids v')" and "v_sets v' PENDING_SET_KEY \<subseteq> set (queued_ids v')"
    and "\<forall>i t. i \<in> set (queued_ids v') \<and> view_task v i = Some t \<longrightarrow>
      (\<exists>t'. view_task v' i = Some t' \<and> t_id t' = t_id t \<and> t_priority t' = t_priority t)"
  shows "view_inv v'"
  unfolding view_inv_def
proof (intro conjI ballI)
  fix p i assume pi: "p \<in> {0..10}" "i \<in> set (v_lists v' (level_key p))"
  then have "i \<in> set (v_lists v (level_key p))" using assms(2) by blast
  then obtain t where t: "view_task v i = Some t" "t_id t = i" "t_priority t = p"
    using assms(1) pi(1) unfolding view_inv_def by blast
  have "i \<in> set (queued_ids v')" using pi in_queued_ids by blast
  with assms(5) t show "\<exists>t. view_task v' i = Some t \<and> t_id t = i \<and> t_priority t = p" by blast
qed (use assms in blast)+

lemma redis_take_cases:
  assumes law: "lawful_redis R V" and inv: "view_inv (V r)"
  shows "(redis_take R w r = None \<and> queued_ids (V r) = [])
    \<or> (\<exists>k i s v' r'. view_blpop level_keys (V r) = (Some (k, i), v') \<and> view_task (V r) i = Some s
        \<and> redis_take R w r = Some (started w s, r')
        \<and> V r' = v'\<lparr>v_vals := (v_vals (V r))(task_key i \<mapsto> StoredTask (started w s)),
             v_sets := (v_sets (V r))(PENDING_SET_KEY := v_sets (V r) PENDING_SET_KEY - {i},
                                      RUNNING_SET_KEY := insert i (v_sets (V r) RUNNING_SET_KEY))\<rparr>)"
proof (cases "view_blpop level_keys (V r)")
  case (Pair o' v')
  obtain b r1 where b: "r_blpop R level_keys r = (b, r1)" by (cases "r_blpop R level_keys r")
  have bv: "b = o'" "V r1 = v'"
    using redis_simps(5,6) [OF law, of level_keys r] Pair b by simp_all
  show ?thesis
  proof (cases o')
    case None
    have "redis_take R w r = None" using b bv None by (simp add: redis_take_def dequeue_redis_def)
    moreover have "queued_ids (V r) = []"
      using view_blpop_None [of level_keys "V r"] Pair None by (simp add: queued_ids_def)
    ultimately show ?thesis by blast
  next
    case (Some ki)
    then obtain k i where ki: "o' = Some (k, i)" by (cases ki) simp
    note pop = view_blpop_Some [OF Pair [unfolded ki] level_keys_distinct]
    have "i \<in> set (queued_ids (V r))" using pop(1) by (simp add: queued_ids_def)
    then obtain s where s: "view_task (V r) i = Some s" using view_inv_task [OF inv] by blast
    have s1: "load_task R i r1 = Some s"
      using s by (simp add: load_task_view [OF law] bv pop(4))
    have "\<exists>r'. redis_take R w r = Some (started w s, r')
        \<and> V r' = v'\<lparr>v_vals := (v_vals (V r))(task_key i \<mapsto> StoredTask (started w s)),
             v_sets := (v_sets (V r))(PENDING_SET_KEY := v_sets (V r) PENDING_SET_KEY - {i},
                                      RUNNING_SET_KEY := insert i (v_sets (V r) RUNNING_SET_KEY))\<rparr>"
      using b bv ki s1 by (simp add: redis_take_def dequeue_redis_def redis_simps [OF law] pop(4) Let_def)
    then show ?thesis using Pair ki s by blast
  qed
qed

lemma redis_take_inv:
  assumes "lawful_redis R V" and "view_inv (V r)" and "redis_take R w r = Some (t, r')"
  shows "view_inv (V r') \<and> redis_served w V r = t # redis_served w V r'"
proof -
  obtain k i s v' where b: "view_blpop level_keys (V r) = (Some (k, i), v')"
    and s: "view_task (V r) i = Some s" and t: "t = started w s"
    and r': "V r' = v'\<lparr>v_vals := (v_vals (V r))(task_key i \<mapsto> StoredTask (started w s)),
             v_sets := (v_sets (V r))(PENDING_SET_KEY := v_sets (V r) PENDING_SET_KEY - {i},
                                      RUNNING_SET_KEY := insert i (v_sets (V r) RUNNING_SET_KEY))\<rparr>"
    using redis_take_cases [OF assms(1,2), of w] assms(3) by auto
  note pop = view_blpop_Some [OF b level_keys_distinct]
  have q: "queued_ids (V r) = i # queued_ids (V r')" using pop(1) by (simp add: queued_ids_def r')
  have d: "distinct (queued_ids (V r))" "v_sets (V r) PENDING_SET_KEY \<subseteq> set (queued_ids (V r))"
    using assms(2) unfolding view_inv_def by blast+
  have other: "view_task (V r') j = view_task (V r) j" if "j \<in> set (queued_ids (V r'))" for j
    using that q d by (auto simp: r' view_task_def pop(4))
  have "redis_served w V r = t # redis_served w V r'"
    using q s other by (simp add: redis_served_def t)
  moreover have "view_inv (V r')"
  proof (rule view_inv_lists [OF assms(2)])
    show "\<forall>p \<in> {0..10}. set (v_lists (V r') (level_key p)) \<subseteq> set (v_lists (V r) (level_key p))"
      using pop(3) by (auto simp: r' pop(4) dest: list.set_sel(2) [rotated])
    show "distinct (queued_ids (V r'))" using d q by simp
    show "v_sets (V r') PENDING_SET_KEY \<subseteq> set (queued_ids (V r'))" using d q by (auto simp: r')
  qed (use other in simp)
  ultimately show ?thesis by blast
qed

interpretation redis_queue: served_queue "redis_take R w" "redis_served w V"
  "\<lambda>r. lawful_redis R V \<and> view_inv (V r)" for R :: "('r, 'p, 'x) redis" and w V
proof unfold_locales
  fix r :: 'r assume inv: "lawful_redis R V \<and> view_inv (V r)"
  show "redis_take R w r = None \<longleftrightarrow> redis_served w V r = []"
    using redis_take_cases [of R V r w] inv view_blpop_Some(1) [OF _ level_keys_distinct, of "V r"]
    by (fastforce simp: redis_served_def queued_ids_def)
next
  fix r r' :: 'r and t
  assume "lawful_redis R V \<and> view_inv (V r)" "redis_take R w r = Some (t, r')"
  with redis_take_inv [of R V r w t r']
  show "lawful_redis R V \<and> view_inv (V r')" "redis_served w V r = t # redis_served w V r'" by simp_all
qed

section \<open>The other operations\<close>

lemma level_key_inject: "p \<in> {0..10} \<Longrightarrow> p' \<in> {0..10} \<Longrightarrow> level_key p = level_key p' \<longleftrightarrow> p = p'"
  using level_keys_distinct unfolding level_keys_def distinct_map inj_on_def by (metis set_upto)

lemma view_inv_vals:
  assumes "view_inv v" and "view_task v i = Some t" and "t_id t' = t_id t" "t_priority t' = t_priority t"
    and "z PENDING_SET_KEY \<subseteq> v_sets v PENDING_SET_KEY"
  shows "view_inv (v\<lparr>v_vals := (v_vals v)(task_key i \<mapsto> StoredTask t'), v_sets := z, v_ints := n\<rparr>)"
    and "view_inv (v\<lparr>v_vals := (v_vals v)(task_key i \<mapsto> StoredTask t'), v_sets := z\<rparr>)"
proof -
  have "distinct (queued_ids v)" "v_sets v PENDING_SET_KEY \<subseteq> set (queued_ids v)"
    using assms(1) unfolding view_inv_def by blast+
  moreover from this assms(5) have "z PENDING_SET_KEY \<subseteq> set (queued_ids v)" by blast
  ultimately show "view_inv (v\<lparr>v_vals := (v_vals v)(task_key i \<mapsto> StoredTask t'), v_sets := z, v_ints := n\<rparr>)"
    "view_inv (v\<lparr>v_vals := (v_vals v)(task_key i \<mapsto> StoredTask t'), v_sets := z\<rparr>)"
    using assms(2-4) by (auto intro!: view_inv_lists [OF assms(1)] simp: view_task_def)
qed

lemma complete_redis_inv:
  assumes "lawful_redis R V" and "view_inv (V r)"
  shows "view_inv (V (complete_redis R i res r))"
proof (cases "view_task (V r) i")
  case None
  with assms show ?thesis by (simp add: complete_redis_def load_task_view [OF assms(1)])
next
  case (Some t)
  have "V (complete_redis R i res r) = (V r)\<lparr>v_vals := (v_vals (V r))(task_key i \<mapsto> StoredTask (t\<lparr>t_status := SUCCESS, t_result := res\<rparr>)),
      v_sets := (v_sets (V r))(RUNNING_SET_KEY := v_sets (V r) RUNNING_SET_KEY - {i}),
      v_ints := (v_ints (V r))(counter_key ''completed'' := v_ints (V r) (counter_key ''completed'') + 1)\<rparr>"
    by (simp add: complete_redis_def load_task_view [OF assms(1)] Some redis_simps [OF assms(1)] Let_def)
  with view_inv_vals(1) [OF assms(2) Some] show ?thesis by simp
qed

lemma cancel_redis_True:
  assumes "lawful_redis R V" and "cancel_redis R i r = (True, r')"
  obtains t where "view_task (V r) i = Some t"
    and "V r' = (V r)\<lparr>v_vals := (v_vals (V r))(task_key i \<mapsto> StoredTask (t\<lparr>t_status := CANCELLED\<rparr>)),
      v_sets := (v_sets (V r))(PENDING_SET_KEY := v_sets (V r) PENDING_SET_KEY - {i})\<rparr>"
  using assms by (auto simp: cancel_redis_def load_task_view redis_simps Let_def split: option.splits if_splits)

lemma cancel_redis_inv:
  assumes "lawful_redis R V" and "view_inv (V r)" and "cancel_redis R i r = (b, r')"
  shows "view_inv (V r')"
proof (cases b)
  case True
  with assms(3) cancel_redis_True [OF assms(1)] obtain t where "view_task (V r) i = Some t"
    "V r' = (V r)\<lparr>v_vals := (v_vals (V r))(task_key i \<mapsto> StoredTask (t\<lparr>t_status := CANCELLED\<rparr>)),
      v_sets := (v_sets (V r))(PENDING_SET_KEY := v_sets (V r) PENDING_SET_KEY - {i})\<rparr>" by metis
  with view_inv_vals(2) [OF assms(2), of i t] show ?thesis by auto
next
  case False
  then have "r' = r" using assms(3) by (auto simp: cancel_redis_def Let_def split: option.splits if_splits)
  with assms(2) show ?thesis by simp
qed

text \<open>The two outcomes of a failure: a retry, which touches only the two keys of the retry.\<close>

definition failed_once :: "string \<Rightarrow> ('p, 'x) task \<Rightarrow> ('p, 'x) task" where
  "failed_once err t = t\<lparr>t_retry_count := t_retry_count t + 1, t_error := Some err\<rparr>"

lemma fail_redis_retry:
  assumes "lawful_redis R V" and "view_task (V r) i = Some t" and "t_retry_count t + 1 < t_max_retries t"
  shows "\<exists>r'. fail_redis R i err True r = (Some ((failed_once err t)\<lparr>t_status := RETRYING\<rparr>), r')
    \<and> V r' = (V r)\<lparr>v_vals := (v_vals (V r))(retry_key i \<mapsto> StoredTask ((failed_once err t)\<lparr>t_status := RETRYING\<rparr>),
        scheduled_key i \<mapsto> StoredText i)\<rparr>"
  using assms by (simp add: fail_redis_def failed_once_def load_task_view redis_simps Let_def)

lemma fail_redis_final:
  assumes "lawful_redis R V" and "view_task (V r) i = Some t" and "\<not> (b \<and> t_retry_count t + 1 < t_max_retries t)"
  shows "\<exists>r'. fail_redis R i err b r = (Some ((failed_once err t)\<lparr>t_status := FAILED\<rparr>), r')
    \<and> V r' = (V r)\<lparr>v_vals := (v_vals (V r))(task_key i \<mapsto> StoredTask ((failed_once err t)\<lparr>t_status := FAILED\<rparr>)),
        v_sets := (v_sets (V r))(RUNNING_SET_KEY := v_sets (V r) RUNNING_SET_KEY - {i}),
        v_ints := (v_ints (V r))(counter_key ''failed'' := v_ints (V r) (counter_key ''failed'') + 1)\<rparr>"
  using assms by (auto simp: fail_redis_def failed_once_def load_task_view redis_simps Let_def)

lemma view_inv_retry:
  assumes "view_inv v"
  shows "view_inv (v\<lparr>v_vals := (v_vals v)(retry_key i \<mapsto> s, scheduled_key i \<mapsto> s')\<rparr>)"
  by (rule view_inv_lists [OF assms])
    (use assms in \<open>auto simp: view_inv_def view_task_def queued_ids_def\<close>)

lemma fail_redis_inv:
  assumes "lawful_redis R V" and "view_inv (V r)" and "fail_redis R i err b r = (t', r')"
  shows "view_inv (V r')"
proof (cases "view_task (V r) i")
  case None
  with assms show ?thesis by (simp add: fail_redis_def load_task_view [OF assms(1)])
next
  case (Some t)
  show ?thesis
  proof (cases "b \<and> t_retry_count t + 1 < t_max_retries t")
    case True
    then show ?thesis
      using fail_redis_retry [OF assms(1) Some, of err] assms(3) view_inv_retry [OF assms(2)] by auto
  next
    case False
    then obtain r1 where "fail_redis R i err b r = (Some ((failed_once err t)\<lparr>t_status := FAILED\<rparr>), r1)"
      "V r1 = (V r)\<lparr>v_vals := (v_vals (V r))(task_key i \<mapsto> StoredTask ((failed_once err t)\<lparr>t_status := FAILED\<rparr>)),
        v_sets := (v_sets (V r))(RUNNING_SET_KEY := v_sets (V r) RUNNING_SET_KEY - {i}),
        v_ints := (v_ints (V r))(counter_key ''failed'' := v_ints (V r) (counter_key ''failed'') + 1)\<rparr>"
      using fail_redis_final [OF assms(1) Some False, of err] by blast
    with assms(3) view_inv_vals(1) [OF assms(2) Some] show ?thesis by (simp add: failed_once_def)
  qed
qed

lemma mset_concat_Cons:
  assumes "distinct ks" and "k \<in> set ks"
  shows "mset (concat (map (f(k := x # f k)) ks)) = add_mset x (mset (concat (map f ks)))"
  using assms
proof (induction ks)
  case (Cons j ks)
  show ?case
  proof (cases "j = k")
    case True
    then have m: "map (f(k := x # f k)) ks = map f ks" using Cons.prems(1) by (intro map_cong) auto
    show ?thesis unfolding list.map m using True by simp
  next
    case False
    with Cons show ?thesis by simp
  qed
qed simp

lemma enqueue_redis_view:
  assumes "lawful_redis R V"
  shows "V (snd (enqueue_redis R n t r)) = (let t = with_id n t; k = level_key (t_priority t) in
    (V r)\<lparr>v_lists := (v_lists (V r))(k := t_id t # v_lists (V r) k),
      v_vals := (v_vals (V r))(task_key (t_id t) \<mapsto> StoredTask t),
      v_sets := (v_sets (V r))(PENDING_SET_KEY := insert (t_id t) (v_sets (V r) PENDING_SET_KEY)),
      v_ints := (v_ints (V r))(counter_key ''enqueued'' := v_ints (V r) (counter_key ''enqueued'') + 1)\<rparr>)"
  by (simp add: enqueue_redis_def redis_simps [OF assms] Let_def)

lemma with_id_priority [simp]: "t_priority (with_id n t) = t_priority t"
  by (simp add: with_id_def)

lemma enqueue_redis_ids:
  assumes "lawful_redis R V" and "t_priority t \<in> {0..10}"
  shows "mset (queued_ids (V (snd (enqueue_redis R n t r)))) = mset (t_id (with_id n t) # queued_ids (V r))"
proof -
  have "level_key (t_priority t) \<in> set level_keys" using assms(2) by (auto simp: level_keys_def)
  from mset_concat_Cons [OF level_keys_distinct this] show ?thesis
    by (simp add: queued_ids_def enqueue_redis_view [OF assms(1)] Let_def)
qed

lemma enqueue_redis_inv:
  assumes law: "lawful_redis R V" and inv: "view_inv (V r)"
    and p: "t_priority t \<in> {0..10}" and fresh: "t_id (with_id n t) \<notin> set (queued_ids (V r))"
  shows "view_inv (V (snd (enqueue_redis R n t r)))"
proof -
  let ?t = "with_id n t" and ?v = "V r" and ?v' = "V (snd (enqueue_redis R n t r))"
  let ?k = "level_key (t_priority t)"
  note v' = enqueue_redis_view [OF law, of n t r, simplified Let_def with_id_priority]
  note m = enqueue_redis_ids [OF law p, of n r]
  have d: "distinct (queued_ids ?v)" "v_sets ?v PENDING_SET_KEY \<subseteq> set (queued_ids ?v)"
    using inv unfolding view_inv_def by blast+
  have "distinct (queued_ids ?v')"
    using mset_eq_imp_distinct_iff [OF m] d(1) fresh by simp
  moreover have s: "set (queued_ids ?v') = insert (t_id ?t) (set (queued_ids ?v))"
    using mset_eq_setD [OF m] by simp
  moreover have "\<exists>s. view_task ?v' i = Some s \<and> t_id s = i \<and> t_priority s = q"
    if q: "q \<in> {0..10}" "i \<in> set (v_lists ?v' (level_key q))" for q i
  proof (cases "i = t_id ?t")
    case True
    have "q = t_priority t"
    proof (rule ccontr)
      assume "q \<noteq> t_priority t"
      then have "i \<in> set (v_lists ?v (level_key q))"
        using q level_key_inject [OF q(1) p] by (simp add: v')
      then have "i \<in> set (queued_ids ?v)" using q(1) in_queued_ids by blast
      with True fresh show False by simp
    qed
    with True show ?thesis by (simp add: v' view_task_def)
  next
    case False
    then have "i \<in> set (v_lists ?v (level_key q))" using q by (auto simp: v' split: if_splits)
    then obtain s where "view_task ?v i = Some s" "t_id s = i" "t_priority s = q"
      using inv q(1) unfolding view_inv_def by blast
    with False show ?thesis by (simp add: v' view_task_def)
  qed
  moreover have "v_sets ?v' PENDING_SET_KEY \<subseteq> set (queued_ids ?v')"
    unfolding s using d(2) by (auto simp: v')
  ultimately show ?thesis unfolding view_inv_def by blast
qed

lemma fold_delete_view:
  assumes "lawful_redis R V"
  shows "v_lists (V (fold (r_delete R) ks r)) k = (if k \<in> set ks then [] else v_lists (V r) k)"
    and "v_sets (V (fold (r_delete R) ks r)) k = (if k \<in> set ks then {} else v_sets (V r) k)"
proof -
  show "v_lists (V (fold (r_delete R) ks r)) k = (if k \<in> set ks then [] else v_lists (V r) k)"
    by (induction ks arbitrary: r) (simp_all add: redis_simps [OF assms])
  show "v_sets (V (fold (r_delete R) ks r)) k = (if k \<in> set ks then {} else v_sets (V r) k)"
    by (induction ks arbitrary: r) (simp_all add: redis_simps [OF assms])
qed

lemma fold_delete_vals:
  assumes "lawful_redis R V"
  shows "v_vals (V (fold (r_delete R) ks r)) k = (if k \<in> set ks then None else v_vals (V r) k)"
  by (induction ks arbitrary: r) (simp_all add: redis_simps [OF assms])

lemma clear_redis_inv:
  assumes "lawful_redis R V" and "view_inv (V r)"
  shows "view_inv (V (snd (clear_redis R r)))"
proof (cases "r_smembers R PENDING_SET_KEY r = []")
  case True
  with assms show ?thesis by (simp add: clear_redis_def)
next
  case False
  let ?v' = "V (snd (clear_redis R r))"
  have l: "v_lists ?v' k = []" if "k \<in> set level_keys" for k
    using False that by (simp add: clear_redis_def Let_def fold_delete_view [OF assms(1)])
  have "v_sets ?v' PENDING_SET_KEY = {}"
    using False by (simp add: clear_redis_def Let_def fold_delete_view [OF assms(1)] redis_simps [OF assms(1)])
  moreover have "queued_ids ?v' = []" using l by (simp add: queued_ids_def)
  moreover have "\<forall>p \<in> {0..10}. v_lists ?v' (level_key p) = []" using l by (simp add: level_keys_def)
  ultimately show ?thesis unfolding view_inv_def by simp
qed

section \<open>A server in memory\<close>

text \<open>The laws can be met: the view itself, with its sets as lists.\<close>

type_synonym ('p, 'x) mem = "('p, 'x) redis_view \<times> (string \<Rightarrow> string list)"

definition mem_view :: "('p, 'x) mem \<Rightarrow> ('p, 'x) redis_view" where
  "mem_view m = (fst m)\<lparr>v_sets := set \<circ> snd m\<rparr>"

definition mem_empty :: "('p, 'x) mem" where
  "mem_empty = (\<lparr>v_lists = (\<lambda>_. []), v_vals = (\<lambda>_. None), v_sets = (\<lambda>_. {}), v_ints = (\<lambda>_. 0)\<rparr>, \<lambda>_. [])"

definition mem_redis :: "(('p, 'x) mem, 'p, 'x) redis" where
  "mem_redis = \<lparr>
     r_set = \<lambda>k v t (r, s). (r\<lparr>v_vals := (v_vals r)(k \<mapsto> v)\<rparr>, s),
     r_get = \<lambda>k (r, s). v_vals r k,
     r_delete = \<lambda>k (r, s). (r\<lparr>v_lists := (v_lists r)(k := []), v_vals := (v_vals r)(k := None),
       v_ints := (v_ints r)(k := 0)\<rparr>, s(k := [])),
     r_lpush = \<lambda>k x (r, s). (r\<lparr>v_lists := (v_lists r)(k := x # v_lists r k)\<rparr>, s),
     r_blpop = \<lambda>ks (r, s). (case view_blpop ks r of (b, r) \<Rightarrow> (b, (r, s))),
     r_sadd = \<lambda>k x (r, s). (r, s(k := List.insert x (s k))),
     r_srem = \<lambda>k x (r, s). (r, s(k := filter (\<lambda>y. y \<noteq> x) (s k))),
     r_smembers = \<lambda>k (r, s). s k,
     r_scard = \<lambda>k (r, s). card (set (s k)),
     r_incr = \<lambda>k (r, s). (r\<lparr>v_ints := (v_ints r)(k := v_ints r k + 1)\<rparr>, s),
     r_counter = \<lambda>k (r, s). v_ints r k\<rparr>"

lemma mem_view_simps [simp]:
  "v_lists (mem_view m) = v_lists (fst m)" "v_vals (mem_view m) = v_vals (fst m)"
  "v_sets (mem_view m) = set \<circ> snd m" "v_ints (mem_view m) = v_ints (fst m)"
  by (simp_all add: mem_view_def)

lemma view_blpop_mem: "fst (view_blpop ks (v\<lparr>v_sets := s\<rparr>)) = fst (view_blpop ks v)"
  "snd (view_blpop ks (v\<lparr>v_sets := s\<rparr>)) = (snd (view_blpop ks v))\<lparr>v_sets := s\<rparr>"
  by (auto simp: view_blpop_def split: option.split)

lemma set_upd: "set \<circ> s(k := l) = (set \<circ> s)(k := set l)" "set (filter (\<lambda>y. y \<noteq> x) l) = set l - {x}"
  by (auto simp: fun_eq_iff)

lemma mem_redis_lawful: "lawful_redis mem_redis mem_view"
  unfolding lawful_redis_def
proof (intro conjI)
  show "lawful_values mem_redis mem_view"
    by (auto simp: lawful_values_def mem_redis_def mem_view_def fun_eq_iff split_beta)
  show "lawful_lists mem_redis mem_view"
    by (auto simp: lawful_lists_def mem_redis_def mem_view_def split_beta view_blpop_mem)
  show "lawful_sets mem_redis mem_view"
    by (auto simp: lawful_sets_def mem_redis_def mem_view_def set_upd split_beta simp del: set_filter)
  show "lawful_counters mem_redis mem_view"
    by (simp add: lawful_counters_def mem_redis_def mem_view_def split_beta)
qed

lemma mem_empty_view [simp]: "queued_ids (mem_view mem_empty) = []" "v_sets (mem_view mem_empty) = (\<lambda>_. {})"
  "view_task (mem_view mem_empty) i = None"
  by (simp_all add: queued_ids_def level_keys_def mem_empty_def view_task_def comp_def)

lemma mem_empty_sets [simp]: "snd mem_empty k = []"
  by (simp add: mem_empty_def)

lemma mem_empty_inv: "view_inv (mem_view mem_empty)"
  by (simp add: view_inv_def) (simp add: mem_empty_def)

text \<open>Two tasks of the example, and the queue that holds them.\<close>

definition example_task :: "string \<Rightarrow> int \<Rightarrow> (unit, unit) task" where
  "example_task i p = \<lparr>t_id = i, t_type = FULL_PIPELINE, t_status = PENDING, t_priority = p, t_retry_count = 0,
     t_max_retries = 3, t_worker_id = None, t_payload = (), t_result = None, t_error = None\<rparr>"

lemma example_task_simps [simp]:
  "t_id (example_task i p) = i" "t_priority (example_task i p) = p" "t_status (example_task i p) = PENDING"
  "t_retry_count (example_task i p) = 0" "t_max_retries (example_task i p) = 3"
  by (simp_all add: example_task_def)

definition example_queue :: "(unit, unit) mem" where
  "example_queue = snd (enqueue_redis mem_redis [] (example_task ''a'' 2) mem_empty)"

lemma example_queue_view:
  "view_inv (mem_view example_queue)" "queued_ids (mem_view example_queue) = [''a'']"
  "view_task (mem_view example_queue) ''a'' = Some (example_task ''a'' 2)"
proof -
  have t: "t_id (with_id [] (example_task ''a'' 2)) = ''a''" "t_priority (example_task ''a'' 2) \<in> {0..10}"
    "t_priority (example_task ''a'' 2) = 2" "with_id [] (example_task ''a'' 2) = example_task ''a'' 2"
    by (simp_all add: with_id_def example_task_def)
  show "view_inv (mem_view example_queue)"
    unfolding example_queue_def
    by (rule enqueue_redis_inv [OF mem_redis_lawful mem_empty_inv t(2)]) (simp add: t(1))
  have "mset (queued_ids (mem_view example_queue)) = {#''a''#}"
    using enqueue_redis_ids [OF mem_redis_lawful t(2), of "[]" mem_empty] t by (simp add: example_queue_def)
  then show "queued_ids (mem_view example_queue) = [''a'']" by simp
  show "view_task (mem_view example_queue) ''a'' = Some (example_task ''a'' 2)"
    by (simp add: example_queue_def enqueue_redis_view [OF mem_redis_lawful] Let_def t(4) view_task_def t(1) [unfolded t(4)])
qed

section \<open>Properties\<close>

lemma started_priority [simp]: "t_priority (started w t) = t_priority t"
  by (simp add: started_def)

lemma insort_skip: "\<forall>y \<in> set ys. f y < f x \<Longrightarrow> insort_key f x (ys @ zs) = ys @ insort_key f x zs"
  by (induction ys) (auto dest: leD)

text \<open>One element in front of the group of its key, among sorted groups.\<close>

lemma insort_groups:
  assumes "sorted_wrt (<) ks" and "\<forall>p \<in> set ks. \<forall>y \<in> set (S p). f y = p" and "f x \<in> set ks"
  shows "insort_key f x (concat (map S ks)) = concat (map (S(f x := x # S (f x))) ks)"
  using assms
proof (induction ks)
  case (Cons q ks)
  show ?case
  proof (cases "f x = q")
    case True
    have m: "map (S(f x := x # S (f x))) ks = map S ks"
      using Cons.prems(1) True by (intro map_cong) auto
    have "\<forall>y \<in> set (S q @ concat (map S ks)). f x \<le> f y" using Cons.prems(1,2) True by fastforce
    then show ?thesis unfolding list.map m using True by (simp add: insort_is_Cons)
  next
    case False
    then have "q < f x" using Cons.prems(1,3) by auto
    then have "\<forall>y \<in> set (S q). f y < f x" using Cons.prems(2) by simp
    with Cons False show ?thesis by (simp add: insort_skip)
  qed
qed simp

definition level_group :: "string \<Rightarrow> ('p, 'x) redis_view \<Rightarrow> int \<Rightarrow> ('p, 'x) task list" where
  "level_group w v p = map (\<lambda>i. started w (the (view_task v i))) (v_lists v (level_key p))"

lemma redis_served_groups: "redis_served w V r = concat (map (level_group w (V r)) [0..10])"
  by (simp add: redis_served_def queued_ids_def level_keys_def level_group_def [abs_def] map_concat comp_def)

lemma enqueue_redis_served:
  assumes law: "lawful_redis R V" and inv: "view_inv (V r)"
    and p: "t_priority t \<in> {0..10}" and fresh: "t_id (with_id n t) \<notin> set (queued_ids (V r))"
  shows "redis_served w V (snd (enqueue_redis R n t r)) =
    insort_key t_priority (started w (with_id n t)) (redis_served w V r)"
proof -
  let ?t = "with_id n t" and ?v = "V r" and ?v' = "V (snd (enqueue_redis R n t r))"
  let ?S = "level_group w ?v"
  note v' = enqueue_redis_view [OF law, of n t r, simplified Let_def with_id_priority]
  have g: "level_group w ?v' q = (?S(t_priority t := started w ?t # ?S (t_priority t))) q" if q: "q \<in> {0..10}" for q
  proof -
    have "t_id ?t \<notin> set (v_lists ?v (level_key q))" using q fresh in_queued_ids by blast
    then show ?thesis
      using level_key_inject [OF q p] by (auto simp: level_group_def v' view_task_def)
  qed
  have pr: "\<forall>q \<in> set [0..10]. \<forall>y \<in> set (?S q). t_priority y = q"
  proof (intro ballI)
    fix q y assume "q \<in> set [0..10]" "y \<in> set (?S q)"
    then obtain i where i: "i \<in> set (v_lists ?v (level_key q))" "y = started w (the (view_task ?v i))" "q \<in> {0..10}"
      by (auto simp: level_group_def)
    then obtain s where "view_task ?v i = Some s" "t_priority s = q"
      using inv unfolding view_inv_def by blast
    with i show "t_priority y = q" by simp
  qed
  have "redis_served w V (snd (enqueue_redis R n t r)) =
      concat (map (?S(t_priority t := started w ?t # ?S (t_priority t))) [0..10])"
    unfolding redis_served_groups using g by (intro arg_cong [where f = concat] map_cong) simp_all
  also have "\<dots> = insort_key t_priority (started w ?t) (concat (map ?S [0..10]))"
    using insort_groups [OF _ pr, of "started w ?t"] p by simp
  finally show ?thesis by (simp add: redis_served_groups)
qed

text \<open>The tasks as they will be stored, with their ids.\<close>

abbreviation identified :: "(string \<times> ('p, 'x) task) list \<Rightarrow> ('p, 'x) task list" where
  "identified ts \<equiv> map (\<lambda>(n, t). with_id n t) ts"

lemma enqueue_many_redis_served:
  assumes "lawful_redis R V" and "view_inv (V r)"
    and "\<forall>(n, t) \<in> set ts. t_priority t \<in> {0..10}"
    and "distinct (map t_id (identified ts) @ queued_ids (V r))"
  shows "view_inv (V (snd (enqueue_many_redis R ts r)))
    \<and> redis_served w V (snd (enqueue_many_redis R ts r)) =
        fold (insort_key t_priority) (map (started w) (identified ts)) (redis_served w V r)"
  using assms
proof (induction ts arbitrary: r)
  case (Cons nt ts)
  obtain n t where nt: "nt = (n, t)" by (cases nt)
  let ?r = "snd (enqueue_redis R n t r)"
  have p: "t_priority t \<in> {0..10}" and f: "t_id (with_id n t) \<notin> set (queued_ids (V r))"
    using Cons.prems by (auto simp: nt)
  have ids: "distinct (map t_id (identified ts))" "t_id (with_id n t) \<notin> set (map t_id (identified ts))"
    "set (map t_id (identified ts)) \<inter> set (queued_ids (V r)) = {}"
    using Cons.prems(4) by (auto simp: nt)
  have "set (queued_ids (V ?r)) \<subseteq> insert (t_id (with_id n t)) (set (queued_ids (V r)))"
    using mset_eq_setD [OF enqueue_redis_ids [OF Cons.prems(1) p, of n r]] by simp
  moreover have i: "view_inv (V ?r)" by (rule enqueue_redis_inv [OF Cons.prems(1,2) p f])
  moreover from this have "distinct (queued_ids (V ?r))" by (simp add: view_inv_def)
  ultimately have "distinct (map t_id (identified ts) @ queued_ids (V ?r))"
    using ids unfolding distinct_append by blast
  from Cons.IH [OF Cons.prems(1) i _ this] Cons.prems(3)
  show ?case by (simp add: nt split_beta enqueue_redis_served [OF Cons.prems(1,2) p f])
qed simp

lemma sort_key_as_fold: "fold (insort_key f) xs [] = sort_key f (rev xs)"
  by (simp add: sort_key_def foldr_conv_fold)

lemma sort_key_map: "sort_key f (map g xs) = map g (sort_key (f \<circ> g) xs)"
proof -
  have "insort_key f (g x) (map g ys) = map g (insort_key (f \<circ> g) x ys)" for x ys
    by (induction ys) simp_all
  then show ?thesis by (induction xs) simp_all
qed

lemma started_comp [simp]: "t_priority \<circ> started w = t_priority"
  by (simp add: fun_eq_iff)

lemma redis_drain:
  assumes "lawful_redis R V" and "view_inv (V r)" and "queued_ids (V r) = []"
    and "\<forall>(n, t) \<in> set ts. t_priority t \<in> {0..10}" and "distinct (map t_id (identified ts))"
  shows "drain (redis_take R w) (length ts) (snd (enqueue_many_redis R ts r)) =
    map (started w) (sort_key t_priority (rev (identified ts)))"
proof -
  have "redis_served w V r = []" using assms(3) by (simp add: redis_served_def)
  with enqueue_many_redis_served [OF assms(1,2,4), of w] assms(3,5)
  have "lawful_redis R V \<and> view_inv (V (snd (enqueue_many_redis R ts r)))"
    "redis_served w V (snd (enqueue_many_redis R ts r)) = map (started w) (sort_key t_priority (rev (identified ts)))"
    using assms(1) by (simp_all add: sort_key_as_fold rev_map sort_key_map del: map_map)
  with redis_queue.drain_served [of R V "snd (enqueue_many_redis R ts r)" w "length ts"] show ?thesis by simp
qed

text \<open>Sorting by the negated key and reversing is sorting the reversed list.\<close>

lemma rev_sort_key_uminus: "rev (sort_key (\<lambda>x. - k x :: int) xs) = sort_key k (rev xs)"
proof (rule properties_for_sort_key [symmetric])
  show "mset (rev (sort_key (\<lambda>x. - k x) xs)) = mset (rev xs)" by simp
  have "sorted (map (\<lambda>x. - k x) (sort_key (\<lambda>x. - k x) xs))" by simp
  then have "sorted_wrt (\<lambda>x y. k y \<le> k x) (sort_key (\<lambda>x. - k x) xs)"
    by (simp add: sorted_map)
  then show "sorted (map k (rev (sort_key (\<lambda>x. - k x) xs)))"
    by (simp add: sorted_map sorted_wrt_rev)
  show "filter (\<lambda>y. k z = k y) (rev (sort_key (\<lambda>x. - k x) xs)) = filter (\<lambda>y. k z = k y) (rev xs)"
    if "z \<in> set (rev (sort_key (\<lambda>x. - k x) xs))" for z
    using sort_key_stable [of "\<lambda>x. - k x" "- k z" xs] by (simp add: rev_filter [symmetric] eq_commute [of "k z"])
qed

text \<open>Tasks put into the empty in-memory queue are handed out, marked as running for the asking
  worker, in the order of their priority, highest number first, and first in, first out among
  those of one priority; a task without id has been given one.\<close>

theorem local_queue_order:
  "drain (dequeue_local w) (length ts) (snd (enqueue_many_local ts [])) =
    map (started w) (sort_key by_priority (map (\<lambda>(n, t). with_id n t) ts))"
  using local_queue.drain_fold [of "[]" "identified ts"]
  by (simp add: drain_dequeue_local enqueue_many_local local_served_def)

text \<open>C18: With Redis the same tasks come out in exactly the reverse of that order, lowest number
  first and last in, first out among those of one priority, whenever the queue starts empty, the
  ids differ and no task expires (a day after it was stored) before it is taken: the two
  implementations of the queue disagree on every pair of tasks.\<close>

theorem redis_queue_reversed:
  assumes "lawful_redis R V" and "queued_ids (V r) = []" and "v_sets (V r) PENDING_SET_KEY = {}"
    and "\<forall>(n, t) \<in> set ts. task_ok t" and "distinct (map (\<lambda>(n, t). t_id (with_id n t)) ts)"
  shows "drain (redis_take R w) (length ts) (snd (enqueue_many_redis R ts r)) =
    rev (drain (dequeue_local w) (length ts) (snd (enqueue_many_local ts [])))"
proof -
  have "\<forall>p \<in> {0..10}. v_lists (V r) (level_key p) = []"
    using assms(2) by (simp add: queued_ids_def level_keys_def)
  then have inv: "view_inv (V r)" using assms(2,3) by (simp add: view_inv_def)
  have pr: "\<forall>(n, t) \<in> set ts. t_priority t \<in> {0..10}" using assms(4) by (auto simp: task_ok_def)
  have "map t_id (identified ts) = map (\<lambda>(n, t). t_id (with_id n t)) ts" by auto
  then have "distinct (map t_id (identified ts))" using assms(5) by (simp only:)
  from redis_drain [OF assms(1) inv assms(2) pr this]
  have "drain (redis_take R w) (length ts) (snd (enqueue_many_redis R ts r)) =
      map (started w) (sort_key t_priority (rev (identified ts)))" .
  moreover have "drain (dequeue_local w) (length ts) (snd (enqueue_many_local ts [])) =
      map (started w) (sort_key by_priority (identified ts))"
    using local_queue.drain_fold [of "[]" "identified ts"]
    by (simp add: drain_dequeue_local enqueue_many_local local_served_def)
  ultimately show ?thesis
    using rev_sort_key_uminus [of t_priority "identified ts"]
    by (simp add: rev_map by_priority_def [abs_def])
qed

lemma redis_queue_reversed_witness:
  "drain (redis_take mem_redis ''w'') 2
      (snd (enqueue_many_redis mem_redis [([], example_task ''a'' 3), ([], example_task ''b'' 7)] mem_empty)) =
    rev (drain (dequeue_local ''w'') 2
      (snd (enqueue_many_local [([], example_task ''a'' 3), ([], example_task ''b'' 7)] [])))"
  using redis_queue_reversed [OF mem_redis_lawful, of mem_empty "[([], example_task ''a'' 3), ([], example_task ''b'' 7)]" "''w''"]
  by (simp add: task_ok_def with_id_def numeral_2_eq_2
      del: drain.simps enqueue_many_redis.simps enqueue_many_local.simps)

lemma drain_redis_served:
  "lawful_redis R V \<Longrightarrow> view_inv (V r) \<Longrightarrow> drain (redis_take R w) n r = take n (redis_served w V r)"
  using redis_queue.drain_take [of R V r w n] by simp

text \<open>Cancelling a queued task takes it out of the pending set, and changes nothing of what the
  Redis queue hands out: the same tasks, in the same order, each marked as running, the cancelled
  one among them.\<close>

theorem cancel_keeps_queue:
  assumes "lawful_redis R V" and "view_inv (V r)" and "i \<in> set (queued_ids (V r))"
    and "cancel_redis R i r = (True, r')"
  shows "i \<notin> v_sets (V r') PENDING_SET_KEY
    \<and> drain (redis_take R w) n r' = drain (redis_take R w) n r
    \<and> (\<exists>t \<in> set (drain (redis_take R w) (length (queued_ids (V r))) r'). t_id t = i \<and> t_status t = RUNNING)"
proof -
  obtain t where t: "view_task (V r) i = Some t"
    and r': "V r' = (V r)\<lparr>v_vals := (v_vals (V r))(task_key i \<mapsto> StoredTask (t\<lparr>t_status := CANCELLED\<rparr>)),
      v_sets := (v_sets (V r))(PENDING_SET_KEY := v_sets (V r) PENDING_SET_KEY - {i})\<rparr>"
    using cancel_redis_True [OF assms(1,4)] by blast
  have inv': "view_inv (V r')" using cancel_redis_inv [OF assms(1,2,4)] .
  have q: "queued_ids (V r') = queued_ids (V r)" by (simp add: r')
  have s: "redis_served w V r' = redis_served w V r"
    using t unfolding redis_served_def q by (intro map_cong) (auto simp: r' view_task_def started_def)
  have "t_id t = i" using view_inv_task [OF assms(2,3)] t by simp
  then have "t_id (started w t) = i \<and> t_status (started w t) = RUNNING" by (simp add: started_def)
  moreover have "started w t \<in> set (redis_served w V r')"
    using imageI [OF assms(3), of "\<lambda>j. started w (the (view_task (V r) j))"] t s by (simp add: redis_served_def [of w V r])
  moreover have "length (redis_served w V r') = length (queued_ids (V r))" by (simp add: redis_served_def q)
  ultimately show ?thesis
    using drain_redis_served [OF assms(1,2)] drain_redis_served [OF assms(1) inv'] s
    by (auto simp: r' simp del: set_keys)
qed

lemma cancel_keeps_queue_witness:
  "\<exists>r'. cancel_redis mem_redis ''a'' example_queue = (True, r')
    \<and> (\<exists>t \<in> set (drain (redis_take mem_redis ''w'') 1 r'). t_id t = ''a'' \<and> t_status t = RUNNING)"
proof -
  have "\<exists>r'. cancel_redis mem_redis ''a'' example_queue = (True, r')"
    using example_queue_view(3)
    by (simp add: cancel_redis_def load_task_view [OF mem_redis_lawful] Let_def)
  then obtain r' where r': "cancel_redis mem_redis ''a'' example_queue = (True, r')" ..
  have "''a'' \<in> set (queued_ids (mem_view example_queue))" by (simp add: example_queue_view(2))
  from cancel_keeps_queue [OF mem_redis_lawful example_queue_view(1) this r', of "''w''" 1]
  have "\<exists>t \<in> set (drain (redis_take mem_redis ''w'') (length (queued_ids (mem_view example_queue))) r').
      t_id t = ''a'' \<and> t_status t = RUNNING" by blast
  then have "\<exists>t \<in> set (drain (redis_take mem_redis ''w'') 1 r'). t_id t = ''a'' \<and> t_status t = RUNNING"
    by (simp add: example_queue_view(2) del: drain.simps)
  with r' show ?thesis by blast
qed

text \<open>C40: However often a task that may still be retried fails, it is never put back: what the Redis
  queue hands out, the pending and the running set and the stored task itself stay as they were,
  so that the task keeps being counted as running, and every failure reports the first retry. The
  queue is consistent in the sense of view_inv and no key expires between the failures.\<close>

theorem retry_never_queued:
  assumes "lawful_redis R V" and "view_inv (V r)" and "view_task (V r) i = Some t"
    and "t_retry_count t + 1 < t_max_retries t"
  shows "\<exists>r'. ((\<lambda>r. snd (fail_redis R i err True r)) ^^ k) r = r'
    \<and> drain (redis_take R w) n r' = drain (redis_take R w) n r
    \<and> v_sets (V r') = v_sets (V r) \<and> view_task (V r') i = Some t
    \<and> fst (fail_redis R i err True r') =
        Some (t\<lparr>t_retry_count := t_retry_count t + 1, t_error := Some err, t_status := RETRYING\<rparr>)"
proof -
  let ?step = "\<lambda>r. snd (fail_redis R i err True r)"
  have "v_lists (V ((?step ^^ k) r)) = v_lists (V r) \<and> v_sets (V ((?step ^^ k) r)) = v_sets (V r)
    \<and> (\<forall>j. view_task (V ((?step ^^ k) r)) j = view_task (V r) j) \<and> view_inv (V ((?step ^^ k) r))"
  proof (induction k)
    case (Suc k)
    let ?r = "(?step ^^ k) r"
    have "view_task (V ?r) i = Some t" using Suc assms(3) by simp
    from fail_redis_retry [OF assms(1) this assms(4), of err] Suc fail_redis_inv [OF assms(1), of ?r i err True]
    show ?case by (fastforce simp: view_task_def)
  qed (use assms(2) in simp)
  then have "redis_served w V ((?step ^^ k) r) = redis_served w V r" "view_inv (V ((?step ^^ k) r))"
    "v_sets (V ((?step ^^ k) r)) = v_sets (V r)" "view_task (V ((?step ^^ k) r)) i = Some t"
    using assms(3) by (simp_all add: redis_served_def queued_ids_def)
  moreover from fail_redis_retry [OF assms(1) this(4) assms(4), of err]
  have "fst (fail_redis R i err True ((?step ^^ k) r)) =
      Some (t\<lparr>t_retry_count := t_retry_count t + 1, t_error := Some err, t_status := RETRYING\<rparr>)"
    by (auto simp: failed_once_def)
  ultimately show ?thesis
    using drain_redis_served [OF assms(1,2)] drain_redis_served [OF assms(1), of "(?step ^^ k) r"] by simp
qed

lemma retry_never_queued_witness:
  "\<exists>r'. ((\<lambda>r. snd (fail_redis mem_redis ''a'' ''boom'' True r)) ^^ 5) example_queue = r'
    \<and> drain (redis_take mem_redis ''w'') 1 r' = drain (redis_take mem_redis ''w'') 1 example_queue
    \<and> v_sets (mem_view r') = v_sets (mem_view example_queue)
    \<and> view_task (mem_view r') ''a'' = Some (example_task ''a'' 2)
    \<and> fst (fail_redis mem_redis ''a'' ''boom'' True r') =
        Some ((example_task ''a'' 2)\<lparr>t_retry_count := 1, t_error := Some ''boom'', t_status := RETRYING\<rparr>)"
  using retry_never_queued [OF mem_redis_lawful example_queue_view(1,3), where err = "''boom''" and k = 5 and w = "''w''" and n = 1]
  by simp

section \<open>Histories\<close>

text \<open>
  A key with a time to live may be gone at any time between two operations: only values are
  stored with one. An id may be enqueued again while it is queued or running.
\<close>

definition expires :: "('r \<Rightarrow> ('p, 'x) redis_view) \<Rightarrow> string \<Rightarrow> 'r \<Rightarrow> 'r \<Rightarrow> bool" where
  "expires V k r r' \<longleftrightarrow> V r' = (V r)\<lparr>v_vals := (v_vals (V r))(k := None)\<rparr>"

text \<open>
  The histories of a queue: the ids enqueued, the ids handed out, whether a key has expired or
  the queue been cleared, and the state reached.
\<close>

inductive queue_run :: "('r, 'p, 'x) redis \<Rightarrow> ('r \<Rightarrow> ('p, 'x) redis_view) \<Rightarrow> 'r
    \<Rightarrow> string list \<Rightarrow> string list \<Rightarrow> bool \<Rightarrow> 'r \<Rightarrow> bool" for R V r0 where
  start: "queue_run R V r0 [] [] False r0"
| enqueue: "queue_run R V r0 ins outs lost r \<Longrightarrow> task_ok t \<Longrightarrow> enqueue_redis R n t r = (i, r') \<Longrightarrow>
    queue_run R V r0 (i # ins) outs lost r'"
| dequeue: "queue_run R V r0 ins outs lost r \<Longrightarrow> dequeue_redis R w r = (Some t, r') \<Longrightarrow>
    queue_run R V r0 ins (t_id t # outs) lost r'"
| dequeue_none: "queue_run R V r0 ins outs lost r \<Longrightarrow> dequeue_redis R w r = (None, r') \<Longrightarrow>
    queue_run R V r0 ins outs lost r'"
| complete: "queue_run R V r0 ins outs lost r \<Longrightarrow> queue_run R V r0 ins outs lost (complete_redis R i res r)"
| fail: "queue_run R V r0 ins outs lost r \<Longrightarrow> queue_run R V r0 ins outs lost (snd (fail_redis R i err b r))"
| cancel: "queue_run R V r0 ins outs lost r \<Longrightarrow> queue_run R V r0 ins outs lost (snd (cancel_redis R i r))"
| clear: "queue_run R V r0 ins outs lost r \<Longrightarrow> queue_run R V r0 ins outs True (snd (clear_redis R r))"
| expire: "queue_run R V r0 ins outs lost r \<Longrightarrow> expires V k r r' \<Longrightarrow> queue_run R V r0 ins outs True r'"

text \<open>
  What every history keeps: a stored task is stored under its own id, a pending id whose task is
  still stored is queued, and nothing is handed out or queued more often than it was enqueued.
  As long as nothing was lost, every queued id has its task, every pending id is queued and
  everything enqueued is handed out or queued.
\<close>

definition run_inv :: "string list \<Rightarrow> string list \<Rightarrow> bool \<Rightarrow> ('p, 'x) redis_view \<Rightarrow> bool" where
  "run_inv ins outs lost v \<longleftrightarrow>
     (\<forall>i t. view_task v i = Some t \<longrightarrow> t_id t = i)
     \<and> (\<forall>i \<in> v_sets v PENDING_SET_KEY. view_task v i \<noteq> None \<longrightarrow> i \<in> set (queued_ids v))
     \<and> mset outs + mset (queued_ids v) \<subseteq># mset ins
     \<and> (\<not> lost \<longrightarrow> mset outs + mset (queued_ids v) = mset ins
          \<and> (\<forall>i \<in> set (queued_ids v). view_task v i \<noteq> None)
          \<and> v_sets v PENDING_SET_KEY \<subseteq> set (queued_ids v))"

lemma run_inv_mono:
  assumes "run_inv ins outs lost v" and "queued_ids v' = queued_ids v"
    and "v_sets v' PENDING_SET_KEY \<subseteq> v_sets v PENDING_SET_KEY"
    and "\<And>i t. view_task v' i = Some t \<Longrightarrow> \<exists>s. view_task v i = Some s \<and> t_id t = t_id s"
    and "\<not> lost \<Longrightarrow> \<forall>i. view_task v' i = None \<longrightarrow> view_task v i = None"
  shows "run_inv ins outs lost v'"
proof -
  have "t_id t = i" if "view_task v' i = Some t" for i t
    using assms(1,4) that unfolding run_inv_def by metis
  moreover have "i \<in> set (queued_ids v)" if "i \<in> v_sets v' PENDING_SET_KEY" "view_task v' i \<noteq> None" for i
  proof -
    from that(2) assms(4) [of i] have "view_task v i \<noteq> None" by auto
    then show ?thesis using that(1) assms(1,3) unfolding run_inv_def by blast
  qed
  ultimately show ?thesis
    using assms(1,3,5) unfolding run_inv_def assms(2) by blast
qed

lemma run_inv_vals:
  assumes "run_inv ins outs lost v" and "view_task v i = Some t" and "t_id t' = t_id t"
    and "z PENDING_SET_KEY \<subseteq> v_sets v PENDING_SET_KEY"
  shows "run_inv ins outs lost (v\<lparr>v_vals := (v_vals v)(task_key i \<mapsto> StoredTask t'), v_sets := z, v_ints := n\<rparr>)"
    and "run_inv ins outs lost (v\<lparr>v_vals := (v_vals v)(task_key i \<mapsto> StoredTask t'), v_sets := z\<rparr>)"
  by (rule run_inv_mono [OF assms(1)]; use assms(2-4) in \<open>auto split: if_splits\<close>)+

lemma run_inv_complete:
  assumes "lawful_redis R V" and "run_inv ins outs lost (V r)"
  shows "run_inv ins outs lost (V (complete_redis R i res r))"
proof (cases "view_task (V r) i")
  case None
  with assms show ?thesis by (simp add: complete_redis_def load_task_view [OF assms(1)])
next
  case (Some t)
  have "V (complete_redis R i res r) = (V r)\<lparr>v_vals := (v_vals (V r))(task_key i \<mapsto> StoredTask (t\<lparr>t_status := SUCCESS, t_result := res\<rparr>)),
      v_sets := (v_sets (V r))(RUNNING_SET_KEY := v_sets (V r) RUNNING_SET_KEY - {i}),
      v_ints := (v_ints (V r))(counter_key ''completed'' := v_ints (V r) (counter_key ''completed'') + 1)\<rparr>"
    by (simp add: complete_redis_def load_task_view [OF assms(1)] Some redis_simps [OF assms(1)] Let_def)
  with run_inv_vals(1) [OF assms(2) Some] show ?thesis by simp
qed

lemma run_inv_cancel:
  assumes "lawful_redis R V" and "run_inv ins outs lost (V r)"
  shows "run_inv ins outs lost (V (snd (cancel_redis R i r)))"
proof (cases "fst (cancel_redis R i r)")
  case True
  then have "cancel_redis R i r = (True, snd (cancel_redis R i r))" by (metis prod.collapse)
  from cancel_redis_True [OF assms(1) this] obtain t where "view_task (V r) i = Some t"
    "V (snd (cancel_redis R i r)) = (V r)\<lparr>v_vals := (v_vals (V r))(task_key i \<mapsto> StoredTask (t\<lparr>t_status := CANCELLED\<rparr>)),
      v_sets := (v_sets (V r))(PENDING_SET_KEY := v_sets (V r) PENDING_SET_KEY - {i})\<rparr>" .
  with run_inv_vals(2) [OF assms(2), of i t] show ?thesis by auto
next
  case False
  then have "snd (cancel_redis R i r) = r" by (auto simp: cancel_redis_def Let_def split: option.splits if_splits)
  with assms(2) show ?thesis by simp
qed

lemma run_inv_fail:
  assumes "lawful_redis R V" and "run_inv ins outs lost (V r)"
  shows "run_inv ins outs lost (V (snd (fail_redis R i err b r)))"
proof (cases "view_task (V r) i")
  case None
  with assms show ?thesis by (simp add: fail_redis_def load_task_view [OF assms(1)])
next
  case (Some t)
  show ?thesis
  proof (cases "b \<and> t_retry_count t + 1 < t_max_retries t")
    case True
    with fail_redis_retry [OF assms(1) Some, of err] obtain s where
      "V (snd (fail_redis R i err b r)) = (V r)\<lparr>v_vals := (v_vals (V r))(retry_key i \<mapsto> s, scheduled_key i \<mapsto> StoredText i)\<rparr>"
      by auto
    then show ?thesis by (intro run_inv_mono [OF assms(2)]) (auto simp: view_task_def)
  next
    case False
    with fail_redis_final [OF assms(1) Some False, of err] run_inv_vals(1) [OF assms(2) Some]
    show ?thesis by (auto simp: failed_once_def)
  qed
qed

lemma run_inv_enqueue:
  assumes law: "lawful_redis R V" and inv: "run_inv ins outs lost (V r)" and t: "task_ok t"
    and enq: "enqueue_redis R n t r = (i, r')"
  shows "run_inv (i # ins) outs lost (V r')"
proof -
  have i: "i = t_id (with_id n t)" and r': "r' = snd (enqueue_redis R n t r)"
    using enq by (auto simp: enqueue_redis_def Let_def)
  have m: "mset (queued_ids (V r')) = add_mset i (mset (queued_ids (V r)))"
    using enqueue_redis_ids [OF law, of t n r] t by (simp add: task_ok_def i r')
  then have s: "set (queued_ids (V r')) = insert i (set (queued_ids (V r)))" by (metis set_mset_add_mset_insert set_mset_mset)
  have v: "view_task (V r') j = (if j = i then Some (with_id n t) else view_task (V r) j)"
    "v_sets (V r') PENDING_SET_KEY = insert i (v_sets (V r) PENDING_SET_KEY)" for j
    by (auto simp: r' enqueue_redis_view [OF law] Let_def view_task_def i)
  show ?thesis using inv unfolding run_inv_def s v m by (auto simp: i)
qed

lemma run_inv_clear:
  assumes law: "lawful_redis R V" and inv: "run_inv ins outs lost (V r)"
  shows "run_inv ins outs True (V (snd (clear_redis R r)))"
proof (cases "r_smembers R PENDING_SET_KEY r = []")
  case True
  with inv show ?thesis by (simp add: clear_redis_def run_inv_def)
next
  case False
  let ?v' = "V (snd (clear_redis R r))"
  have "v_lists ?v' k = []" if "k \<in> set level_keys" for k
    using False that by (simp add: clear_redis_def Let_def fold_delete_view [OF law])
  then have q: "queued_ids ?v' = []" by (simp add: queued_ids_def)
  have p: "v_sets ?v' PENDING_SET_KEY = {}"
    using False by (simp add: clear_redis_def Let_def fold_delete_view [OF law] redis_simps [OF law])
  have "view_task ?v' i = Some t \<Longrightarrow> view_task (V r) i = Some t" for i t
    using False by (simp add: clear_redis_def Let_def view_task_def fold_delete_vals [OF law] redis_simps [OF law] split: if_splits)
  moreover have "mset outs \<subseteq># mset ins"
    using inv mset_subset_eq_add_left [of "mset outs" "mset (queued_ids (V r))"]
    unfolding run_inv_def by (blast intro: subset_mset.order_trans)
  ultimately show ?thesis using inv unfolding run_inv_def q p by simp
qed

lemma dequeue_redis_view:
  assumes law: "lawful_redis R V"
  shows "queued_ids (V r) = [] \<and> fst (dequeue_redis R w r) = None \<and> V (snd (dequeue_redis R w r)) = V r
    \<or> (\<exists>i v'. queued_ids (V r) = i # queued_ids v' \<and> (\<exists>l. v' = (V r)\<lparr>v_lists := l\<rparr>)
        \<and> (case view_task (V r) i of
             None \<Rightarrow> fst (dequeue_redis R w r) = None \<and> V (snd (dequeue_redis R w r)) = v'
           | Some t \<Rightarrow> fst (dequeue_redis R w r) = Some (started w t)
               \<and> V (snd (dequeue_redis R w r)) = v'\<lparr>v_vals := (v_vals (V r))(task_key i \<mapsto> StoredTask (started w t)),
                   v_sets := (v_sets (V r))(PENDING_SET_KEY := v_sets (V r) PENDING_SET_KEY - {i},
                                            RUNNING_SET_KEY := insert i (v_sets (V r) RUNNING_SET_KEY))\<rparr>))"
proof (cases "view_blpop level_keys (V r)")
  case (Pair o' v')
  obtain b r1 where b: "r_blpop R level_keys r = (b, r1)" by (cases "r_blpop R level_keys r")
  have bv: "b = o'" "V r1 = v'"
    using redis_simps(5,6) [OF law, of level_keys r] Pair b by simp_all
  show ?thesis
  proof (cases o')
    case None
    then have "queued_ids (V r) = []" "V r1 = V r"
      using view_blpop_None [of level_keys "V r"] Pair
      by (auto simp: queued_ids_def bv(2) view_blpop_def split: option.splits)
    then show ?thesis using b bv(1) None by (simp add: dequeue_redis_def)
  next
    case (Some ki)
    then obtain k i where ki: "o' = Some (k, i)" by (cases ki) simp
    note pop = view_blpop_Some [OF Pair [unfolded ki] level_keys_distinct]
    have q: "queued_ids (V r) = i # queued_ids v'" using pop(1) by (simp add: queued_ids_def)
    have s: "load_task R i r1 = view_task (V r) i" by (simp add: load_task_view [OF law] bv(2) pop(4))
    show ?thesis
      using b bv ki s q pop(4)
      by (intro disjI2 exI [of _ i] exI [of _ v'])
         (auto simp: dequeue_redis_def redis_simps [OF law] Let_def split: option.split)
  qed
qed

lemma run_inv_dequeue:
  assumes law: "lawful_redis R V" and inv: "run_inv ins outs lost (V r)" and d: "dequeue_redis R w r = (x, r')"
  shows "run_inv ins ((case x of None \<Rightarrow> [] | Some t \<Rightarrow> [t_id t]) @ outs) lost (V r')"
  using dequeue_redis_view [OF law, of r w]
proof (elim disjE exE conjE)
  assume "fst (dequeue_redis R w r) = None" "V (snd (dequeue_redis R w r)) = V r"
  with inv d show ?thesis by simp
next
  fix i v' l assume q: "queued_ids (V r) = i # queued_ids v'" and v': "v' = (V r)\<lparr>v_lists := l\<rparr>"
    and c: "case view_task (V r) i of
        None \<Rightarrow> fst (dequeue_redis R w r) = None \<and> V (snd (dequeue_redis R w r)) = v'
      | Some t \<Rightarrow> fst (dequeue_redis R w r) = Some (started w t)
          \<and> V (snd (dequeue_redis R w r)) = v'\<lparr>v_vals := (v_vals (V r))(task_key i \<mapsto> StoredTask (started w t)),
              v_sets := (v_sets (V r))(PENDING_SET_KEY := v_sets (V r) PENDING_SET_KEY - {i},
                                       RUNNING_SET_KEY := insert i (v_sets (V r) RUNNING_SET_KEY))\<rparr>"
  have sub: "mset outs + mset (queued_ids v') \<subseteq># mset ins"
    using inv subset_mset.order_trans [of "mset outs + mset (queued_ids v')" "mset outs + mset (queued_ids (V r))"]
    unfolding run_inv_def by (simp add: q)
  show ?thesis
  proof (cases "view_task (V r) i")
    case None
    then have "x = None" "V r' = v'" "lost" using c d inv unfolding run_inv_def by (auto simp: q)
    moreover have "j \<noteq> i" if "view_task (V r) j \<noteq> None" for j using None that by auto
    ultimately show ?thesis using inv sub unfolding run_inv_def by (auto simp: v' q)
  next
    case (Some t)
    then have x: "x = Some (started w t)" "V r' = v'\<lparr>v_vals := (v_vals (V r))(task_key i \<mapsto> StoredTask (started w t)),
              v_sets := (v_sets (V r))(PENDING_SET_KEY := v_sets (V r) PENDING_SET_KEY - {i},
                                       RUNNING_SET_KEY := insert i (v_sets (V r) RUNNING_SET_KEY))\<rparr>"
      using c d by simp_all
    have i: "t_id (started w t) = i" using inv Some unfolding run_inv_def by (simp add: started_def)
    have vt: "view_task (V r') j = (if j = i then Some (started w t) else view_task (V r) j)" for j
      by (auto simp: x(2) v' view_task_def)
    have p: "v_sets (V r') PENDING_SET_KEY = v_sets (V r) PENDING_SET_KEY - {i}" "queued_ids (V r') = queued_ids v'"
      by (simp_all add: x(2) v')
    show ?thesis
      using inv unfolding run_inv_def vt p x(1) q by (auto simp: i)
  qed
qed

lemma queue_run_inv:
  assumes "queue_run R V r0 ins outs lost r" and "lawful_redis R V" and "run_inv [] [] False (V r0)"
  shows "run_inv ins outs lost (V r)"
  using assms(1)
proof (induction rule: queue_run.induct)
  case (enqueue ins outs lost r t n i r')
  then show ?case using run_inv_enqueue [OF assms(2)] by blast
next
  case (dequeue ins outs lost r w t r')
  then show ?case using run_inv_dequeue [OF assms(2)] by fastforce
next
  case (dequeue_none ins outs lost r w r')
  then show ?case using run_inv_dequeue [OF assms(2)] by fastforce
next
  case (expire ins outs lost r k r')
  then show ?case
    by (auto simp: run_inv_def expires_def view_task_def queued_ids_def split: if_splits)
next
  case (complete ins outs lost r i res)
  show ?case by (rule run_inv_complete [OF assms(2) complete.IH])
next
  case (fail ins outs lost r i err b)
  show ?case by (rule run_inv_fail [OF assms(2) fail.IH])
next
  case (cancel ins outs lost r i)
  show ?case by (rule run_inv_cancel [OF assms(2) cancel.IH])
next
  case (clear ins outs lost r)
  show ?case by (rule run_inv_clear [OF assms(2) clear.IH])
qed (rule assms(3))

text \<open>C19: Over every history of a queue that starts empty, with no task stored - tasks enqueued under any ids, also ids
  still queued, dequeued, completed, failed, cancelled, cleared, and keys expiring at any time
  between the operations - nothing is handed out more often than it was enqueued, every stored
  task is stored under its own id, and every pending id whose task has not expired is in a list.
  Without expiry and clearing nothing is lost: what was enqueued is what was handed out and
  what is queued, every queued id has its task, and the depth is at most their number. Each
  operation is one step here; commands of other clients in between are not modelled.\<close>

theorem queue_consistent:
  assumes "lawful_redis R V" and "queued_ids (V r0) = []" and "v_sets (V r0) PENDING_SET_KEY = {}"
    and "\<forall>i. view_task (V r0) i = None" and "queue_run R V r0 ins outs lost r"
  shows "mset outs + mset (queued_ids (V r)) \<subseteq># mset ins
    \<and> (\<forall>i t. load_task R i r = Some t \<longrightarrow> t_id t = i)
    \<and> (\<forall>i \<in> v_sets (V r) PENDING_SET_KEY. load_task R i r \<noteq> None \<longrightarrow> i \<in> set (queued_ids (V r)))
    \<and> (\<not> lost \<longrightarrow> mset outs + mset (queued_ids (V r)) = mset ins
         \<and> (\<forall>i \<in> set (queued_ids (V r)). load_task R i r \<noteq> None)
         \<and> depth_redis R r \<le> length (queued_ids (V r)))"
proof -
  have "run_inv [] [] False (V r0)" using assms(2-4) by (simp add: run_inv_def)
  from queue_run_inv [OF assms(5,1) this] have inv: "run_inv ins outs lost (V r)" .
  have "depth_redis R r \<le> length (queued_ids (V r))" if "\<not> lost"
  proof -
    have "card (v_sets (V r) PENDING_SET_KEY) \<le> card (set (queued_ids (V r)))"
      using inv that unfolding run_inv_def by (intro card_mono) simp_all
    also have "\<dots> \<le> length (queued_ids (V r))" by (rule card_length)
    finally show ?thesis by (simp add: depth_redis_def redis_simps [OF assms(1)])
  qed
  with inv show ?thesis unfolding run_inv_def load_task_view [OF assms(1)] by blast
qed

text \<open>A task enqueued twice and handed out once.\<close>

lemma example_queue_served:
  "\<exists>r :: (unit, unit) mem. queue_run mem_redis mem_view mem_empty [''a'', ''a''] [''a''] False r"
proof -
  let ?t = "example_task ''a'' 2"
  have t: "task_ok ?t" by (simp add: task_ok_def)
  have e: "enqueue_redis mem_redis [] ?t r = (''a'', snd (enqueue_redis mem_redis [] ?t r))" for r
    by (simp add: enqueue_redis_def Let_def with_id_def)
  define r where "r = snd (enqueue_redis mem_redis [] ?t (snd (enqueue_redis mem_redis [] ?t mem_empty)))"
  have run: "queue_run mem_redis mem_view mem_empty [''a'', ''a''] [] False r"
    unfolding r_def
    by (rule queue_run.enqueue [OF queue_run.enqueue [OF queue_run.start t e] t e])
  have inv: "run_inv [] [] False (mem_view mem_empty)" by (simp add: run_inv_def)
  have m: "mset (queued_ids (mem_view r)) = {#''a'', ''a''#}"
    using queue_run_inv [OF run mem_redis_lawful inv] by (simp add: run_inv_def)
  from dequeue_redis_view [OF mem_redis_lawful, of r "''w''"]
  obtain s r' where d: "dequeue_redis mem_redis ''w'' r = (Some s, r')"
  proof (elim disjE exE conjE)
    fix i v'
    assume q: "queued_ids (mem_view r) = i # queued_ids v'"
      and c: "case view_task (mem_view r) i of
          None \<Rightarrow> fst (dequeue_redis mem_redis ''w'' r) = None \<and> mem_view (snd (dequeue_redis mem_redis ''w'' r)) = v'
        | Some t \<Rightarrow> fst (dequeue_redis mem_redis ''w'' r) = Some (started ''w'' t)
            \<and> mem_view (snd (dequeue_redis mem_redis ''w'' r)) =
                v'\<lparr>v_vals := (v_vals (mem_view r))(task_key i \<mapsto> StoredTask (started ''w'' t)),
                   v_sets := (v_sets (mem_view r))(PENDING_SET_KEY := v_sets (mem_view r) PENDING_SET_KEY - {i},
                                            RUNNING_SET_KEY := insert i (v_sets (mem_view r) RUNNING_SET_KEY))\<rparr>"
    have "view_task (mem_view r) i \<noteq> None"
      using queue_run_inv [OF run mem_redis_lawful inv] q unfolding run_inv_def by (metis list.set_intros(1))
    then obtain t where "fst (dequeue_redis mem_redis ''w'' r) = Some (started ''w'' t)" using c by auto
    then show thesis using that by (metis prod.collapse)
  qed (use m in simp)
  have "mset [t_id s] \<subseteq># mset [''a'', ''a'']"
    using queue_run_inv [OF queue_run.dequeue [OF run d] mem_redis_lawful inv] unfolding run_inv_def
    by (metis add.commute mset_subset_eq_add_right)
  then have "t_id s = ''a''" by (auto dest!: mset_subset_eqD)
  with queue_run.dequeue [OF run d] show ?thesis by (intro exI [of _ r']) simp
qed

lemma queue_consistent_witness:
  "\<exists>r :: (unit, unit) mem. queued_ids (mem_view r) = [''a''] \<and> load_task mem_redis ''a'' r \<noteq> None \<and> depth_redis mem_redis r \<le> 1"
proof -
  obtain r :: "(unit, unit) mem" where r: "queue_run mem_redis mem_view mem_empty [''a'', ''a''] [''a''] False r"
    using example_queue_served by blast
  have c: "mset [''a''] + mset (queued_ids (mem_view r)) = mset [''a'', ''a'']"
    "\<forall>i \<in> set (queued_ids (mem_view r)). load_task mem_redis i r \<noteq> None"
    "depth_redis mem_redis r \<le> length (queued_ids (mem_view r))"
    using queue_consistent [OF mem_redis_lawful mem_empty_view(1) _ _ r] unfolding mem_empty_view by blast+
  from c(1) have q: "queued_ids (mem_view r) = [''a'']" by simp
  with c(2,3) show ?thesis by (intro exI [of _ r]) simp
qed

text \<open>
  A queued task that expires is lost, and its id stays in the pending set for good: the worker
  that takes it gets nothing, and the depth goes on counting it.
\<close>

theorem expired_task_counted:
  assumes law: "lawful_redis R V" and "queued_ids (V r) = []" and "v_sets (V r) PENDING_SET_KEY = {}" and "task_ok t"
    and "enqueue_redis R n t r = (i, r1)" and "expires V (task_key i) r1 r2" and "dequeue_redis R w r2 = (x, r3)"
  shows "x = None \<and> queued_ids (V r3) = [] \<and> depth_redis R r3 = 1"
proof -
  have i: "i = t_id (with_id n t)" and r1: "r1 = snd (enqueue_redis R n t r)"
    using assms(5) by (auto simp: enqueue_redis_def Let_def)
  have "mset (queued_ids (V r1)) = {#i#}"
    using enqueue_redis_ids [OF law, of t n r] assms(2,4) by (simp add: task_ok_def i r1)
  then have q: "queued_ids (V r2) = [i]" using assms(6) by (simp add: expires_def queued_ids_def)
  have p: "v_sets (V r2) PENDING_SET_KEY = {i}"
    using assms(3,6) by (simp add: expires_def r1 enqueue_redis_view [OF law] Let_def i)
  have "view_task (V r2) i = None" using assms(6) by (simp add: expires_def view_task_def)
  then have "x = None \<and> queued_ids (V r3) = [] \<and> v_sets (V r3) PENDING_SET_KEY = {i}"
    using dequeue_redis_view [OF law, of r2 w] unfolding assms(7) q
    by (elim disjE exE conjE) (auto simp: p)
  then show ?thesis by (simp add: depth_redis_def redis_simps(10) [OF law])
qed

end
