(* ===== verification/Graph.thy ===== *)
theory Graph
  imports Numbers "HOL-Library.AList" "HOL-Library.Product_Lexorder" "HOL-Library.Monad_Syntax"
begin

text \<open>
  The algorithms of the knowledge graph, \<open>app/knowledge_graph/engine.py\<close>: adjacency maps,
  breadth-first search, Dijkstra's shortest path, connected components, PageRank, label
  propagation, Jaccard similarity. A dict is the list of its entries in the order of insertion;
  node ids are of any linearly ordered type (the code orders them in heap entries and in
  \<open>sorted\<close>). Weights are floats, without overflow. The ranking and the communities are read on
  maps whose neighbours are all keys, as those built with \<open>directed=False\<close> are.
\<close>

section \<open>Adjacency maps\<close>

type_synonym 'a neighbour = "'a \<times> rat \<times> string"
type_synonym 'a adj = "('a \<times> 'a neighbour list) list"

record 'a edge =
  source_id :: 'a
  target_id :: 'a
  edge_type :: string
  weight :: "rat option"

text \<open>\<open>adj.setdefault(k, []).append(x)\<close> and \<open>adj.get(k, [])\<close>\<close>

definition neighbours :: "'a adj \<Rightarrow> 'a \<Rightarrow> 'a neighbour list" where
  "neighbours A k = (case map_of A k of None \<Rightarrow> [] | Some ns \<Rightarrow> ns)"

definition add_neighbour :: "'a \<Rightarrow> 'a neighbour \<Rightarrow> 'a adj \<Rightarrow> 'a adj" where
  "add_neighbour k x A = AList.update k (neighbours A k @ [x]) A"

definition edge_weight :: "'a edge \<Rightarrow> rat" where
  "edge_weight e = (case weight e of None \<Rightarrow> 1 | Some w \<Rightarrow> w)"

definition add_edge :: "bool \<Rightarrow> 'a edge \<Rightarrow> 'a adj \<Rightarrow> 'a adj" where
  "add_edge directed e A =
     (let w = edge_weight e;
          A = add_neighbour (source_id e) (target_id e, w, edge_type e) A in
      if directed then A else add_neighbour (target_id e) (source_id e, w, edge_type e) A)"

definition adjacency_map :: "'a list \<Rightarrow> 'a edge list \<Rightarrow> bool \<Rightarrow> 'a adj" where
  "adjacency_map nodes edges directed =
     fold (add_edge directed) edges (fold (\<lambda>i A. AList.update i [] A) nodes [])"

text \<open>Every node that occurs as a neighbour.\<close>

definition vertices :: "'a adj \<Rightarrow> 'a set" where
  "vertices A = (\<Union>(k, ns) \<in> set A. fst ` set ns)"

lemma finite_vertices [simp]: "finite (vertices A)"
  by (auto simp: vertices_def)

lemma neighbours_vertices: "(v, x) \<in> set (neighbours A u) \<Longrightarrow> v \<in> vertices A"
proof (cases "map_of A u")
  case (Some ns)
  assume "(v, x) \<in> set (neighbours A u)"
  then have "v \<in> fst ` set ns" using Some by (force simp: neighbours_def)
  moreover have "(u, ns) \<in> set A" using Some by (rule map_of_SomeD)
  ultimately show ?thesis unfolding vertices_def by blast
qed (simp add: neighbours_def)

lemma neighbours_subset: "fst ` set (neighbours A u) \<subseteq> vertices A"
  using neighbours_vertices by (auto simp: image_subset_iff)

section \<open>Breadth-first search\<close>

text \<open>The dict of depths, the dict of parents (the start has none) and the queue.\<close>

type_synonym 'a bfs_state = "('a \<times> nat) list \<times> ('a \<Rightarrow> 'a option) \<times> 'a list"

fun bfs_scan :: "'a \<Rightarrow> 'a neighbour list \<Rightarrow> 'a bfs_state \<Rightarrow> 'a bfs_state" where
  "bfs_scan cur [] (depth, parent, queue) = (depth, parent, queue)"
| "bfs_scan cur ((nbr, _, _) # ns) (depth, parent, queue) =
     (if map_of depth nbr = None
      then bfs_scan cur ns
        (AList.update nbr (the (map_of depth cur) + 1) depth, parent(nbr \<mapsto> cur), queue @ [nbr])
      else bfs_scan cur ns (depth, parent, queue))"

lemma bfs_scan_progress:
  assumes "bfs_scan cur ns (d, p, q) = (d', p', q')"
  shows "dom (map_of d) \<subseteq> dom (map_of d')" and "dom (map_of d') \<subseteq> dom (map_of d) \<union> fst ` set ns"
    and "dom (map_of d') = dom (map_of d) \<Longrightarrow> q' = q"
proof -
  have "dom (map_of d) \<subseteq> dom (map_of d') \<and> dom (map_of d') \<subseteq> dom (map_of d) \<union> fst ` set ns
    \<and> (dom (map_of d') = dom (map_of d) \<longrightarrow> q' = q)"
    using assms
  proof (induction cur ns "(d, p, q)" arbitrary: d p q rule: bfs_scan.induct)
    case (2 cur nbr w t ns d p q)
    show ?case
    proof (cases "map_of d nbr = None")
      case True
      from 2 True have "insert nbr (dom (map_of d)) \<subseteq> dom (map_of d')"
        "dom (map_of d') \<subseteq> insert nbr (dom (map_of d)) \<union> fst ` set ns"
        by (auto simp: update_conv')
      moreover have "nbr \<notin> dom (map_of d)" using True by blast
      ultimately show ?thesis by auto
    next
      case False
      with 2 show ?thesis by auto
    qed
  qed simp
  then show "dom (map_of d) \<subseteq> dom (map_of d')" "dom (map_of d') \<subseteq> dom (map_of d) \<union> fst ` set ns"
    "dom (map_of d') = dom (map_of d) \<Longrightarrow> q' = q" by blast+
qed

function bfs_loop ::
  "'a adj \<Rightarrow> int option \<Rightarrow> 'a list \<Rightarrow> 'a bfs_state \<Rightarrow> ('a \<times> nat) list \<times> ('a \<Rightarrow> 'a option) \<times> 'a list" where
  "bfs_loop A max_depth order (depth, parent, []) = (depth, parent, order)"
| "bfs_loop A max_depth order (depth, parent, cur # queue) =
     (if (case max_depth of None \<Rightarrow> False | Some m \<Rightarrow> m \<le> int (the (map_of depth cur)))
      then bfs_loop A max_depth (order @ [cur]) (depth, parent, queue)
      else bfs_loop A max_depth (order @ [cur]) (bfs_scan cur (neighbours A cur) (depth, parent, queue)))"
  by pat_completeness auto

definition bfs_todo :: "'a adj \<Rightarrow> 'a bfs_state \<Rightarrow> nat" where
  "bfs_todo A s = card (vertices A - dom (map_of (fst s)))"

termination bfs_loop
proof (relation "measures [\<lambda>(A, _, _, s). bfs_todo A s, \<lambda>(_, _, _, s). length (snd (snd s))]")
  fix A :: "'a adj" and m order depth cur queue and parent :: "'a \<Rightarrow> 'a option"
  obtain d p q where s: "bfs_scan cur (neighbours A cur) (depth, parent, queue) = (d, p, q)"
    by (metis prod_cases3)
  note pr = bfs_scan_progress [OF s]
  have "dom (map_of d) \<subseteq> dom (map_of depth) \<union> vertices A"
    using pr(2) neighbours_subset [of A cur] by (meson Un_mono order_refl order_trans)
  then have "vertices A - dom (map_of d) \<subset> vertices A - dom (map_of depth) \<or> dom (map_of d) = dom (map_of depth)"
    using pr(1) by blast
  then have "bfs_todo A (d, p, q) < bfs_todo A (depth, parent, cur # queue)
      \<or> (bfs_todo A (d, p, q) = bfs_todo A (depth, parent, cur # queue) \<and> q = queue)"
    using pr(3) by (auto simp only: bfs_todo_def fst_conv intro!: psubset_card_mono finite_Diff finite_vertices)
  then show "((A, m, order @ [cur], bfs_scan cur (neighbours A cur) (depth, parent, queue)),
      A, m, order, depth, parent, cur # queue)
    \<in> measures [\<lambda>(A, _, _, s). bfs_todo A s, \<lambda>(_, _, _, s). length (snd (snd s))]"
    unfolding s in_measures prod.case snd_conv by (elim disjE conjE) (blast, simp)
qed (simp_all add: bfs_todo_def)

definition bfs ::
  "'a adj \<Rightarrow> 'a \<Rightarrow> int option \<Rightarrow> ('a \<times> nat) list \<times> ('a \<Rightarrow> 'a option) \<times> 'a list" where
  "bfs A start max_depth = bfs_loop A max_depth [] ([(start, 0)], \<lambda>_. None, [start])"

section \<open>Dijkstra's algorithm\<close>

text \<open>
  \<open>heappop\<close> removes the least entry, compared by distance and then by node. \<open>visited\<close> is the
  list of its elements in the order in which they were added; \<open>dist\<close> and \<open>prev\<close> have the same
  keys, and \<open>prev\<close> is \<open>None\<close> for the start.
\<close>

type_synonym 'a dijkstra_state = "('a \<rightharpoonup> rat) \<times> ('a \<Rightarrow> 'a option) \<times> (rat \<times> 'a) list"

fun relax :: "'a \<Rightarrow> rat \<Rightarrow> 'a neighbour list \<Rightarrow> 'a dijkstra_state \<Rightarrow> 'a dijkstra_state" where
  "relax u d [] (dst, prev, pq) = (dst, prev, pq)"
| "relax u d ((nbr, w, _) # ns) (dst, prev, pq) =
     (let nd = fl (d + w) in
      if (case dst nbr of None \<Rightarrow> True | Some x \<Rightarrow> nd < x)
      then relax u d ns (dst(nbr \<mapsto> nd), prev(nbr \<mapsto> u), pq @ [(nd, nbr)])
      else relax u d ns (dst, prev, pq))"

lemma relax_queue: "snd ` set (snd (snd (relax u d ns (dst, prev, pq)))) \<subseteq> snd ` set pq \<union> fst ` set ns"
proof (induction u d ns "(dst, prev, pq)" arbitrary: dst prev pq rule: relax.induct)
  case (2 u d nbr w t ns dst prev pq)
  let ?nd = "fl (d + w)"
  show ?case
  proof (cases "case dst nbr of None \<Rightarrow> True | Some x \<Rightarrow> ?nd < x")
    case True
    with 2(1) [OF refl True] show ?thesis by (auto simp: Let_def)
  next
    case False
    with 2(2) [OF refl False] show ?thesis by (auto simp: Let_def)
  qed
qed simp

lemma heap_min: "(pq :: (rat \<times> 'a::linorder) list) \<noteq> [] \<Longrightarrow> min_list pq \<in> set pq"
  by (simp add: min_list_Min)

function dijkstra_loop ::
  "'a::linorder adj \<Rightarrow> 'a \<Rightarrow> 'a list \<Rightarrow> 'a dijkstra_state \<Rightarrow> ('a \<rightharpoonup> rat) \<times> ('a \<Rightarrow> 'a option)" where
  "dijkstra_loop A target visited (dst, prev, pq) =
     (if pq = [] then (dst, prev)
      else
        (let (d, u) = min_list pq; rest = remove1 (d, u) pq in
         if u \<in> set visited then dijkstra_loop A target visited (dst, prev, rest)
         else if u = target then (dst, prev)
         else dijkstra_loop A target (visited @ [u]) (relax u d (neighbours A u) (dst, prev, rest))))"
  by pat_completeness auto

definition dijkstra_todo :: "'a adj \<Rightarrow> 'a list \<Rightarrow> 'a dijkstra_state \<Rightarrow> nat" where
  "dijkstra_todo A visited s = card (vertices A \<union> snd ` set (snd (snd s)) - set visited)"

termination dijkstra_loop
proof (relation "measures [\<lambda>(A, _, v, s). dijkstra_todo A v s, \<lambda>(_, _, _, s). length (snd (snd s))]")
  fix A :: "'a::linorder adj" and target visited dst prev and pq rest :: "(rat \<times> 'a) list" and x d u
  assume pq: "pq \<noteq> []" and x: "x = min_list pq" "(d, u) = x" and rest: "rest = remove1 (d, u) pq"
  have mem: "(d, u) \<in> set pq" using pq x heap_min by metis
  {
    have "set rest \<subseteq> set pq" using rest by (simp add: set_remove1_subset)
    then have "dijkstra_todo A visited (dst, prev, rest) \<le> dijkstra_todo A visited (dst, prev, pq)"
      unfolding dijkstra_todo_def by (intro card_mono) auto
    moreover have "length rest < length pq" using mem rest pq by (simp add: length_remove1)
    ultimately show "((A, target, visited, dst, prev, rest), A, target, visited, dst, prev, pq)
      \<in> measures [\<lambda>(A, _, v, s). dijkstra_todo A v s, \<lambda>(_, _, _, s). length (snd (snd s))]" by auto
  next
    assume u: "u \<notin> set visited"
    let ?s = "relax u d (neighbours A u) (dst, prev, rest)"
    have "snd ` set (snd (snd ?s)) \<subseteq> snd ` set rest \<union> fst ` set (neighbours A u)" by (rule relax_queue)
    moreover have "set rest \<subseteq> set pq" using rest by (simp add: set_remove1_subset)
    moreover have "fst ` set (neighbours A u) \<subseteq> vertices A" by (rule neighbours_subset)
    ultimately have "vertices A \<union> snd ` set (snd (snd ?s)) \<subseteq> vertices A \<union> snd ` set pq" by blast
    moreover have "u \<in> snd ` set pq" using mem by force
    ultimately have "dijkstra_todo A (visited @ [u]) ?s < dijkstra_todo A visited (dst, prev, pq)"
      unfolding dijkstra_todo_def using u by (intro psubset_card_mono) auto
    then show "((A, target, visited @ [u], ?s), A, target, visited, dst, prev, pq)
      \<in> measures [\<lambda>(A, _, v, s). dijkstra_todo A v s, \<lambda>(_, _, _, s). length (snd (snd s))]" by auto
  }
qed (rule wf_measures)

text \<open>The loop that follows \<open>prev\<close> from the target; it may not end, which is \<open>None\<close>.\<close>

partial_function (option) path_loop :: "('a \<Rightarrow> 'a option) \<Rightarrow> 'a \<Rightarrow> 'a list \<Rightarrow> 'a list option" where
  "path_loop prev u path =
     (case prev u of None \<Rightarrow> Some (path @ [u]) | Some x \<Rightarrow> path_loop prev x (path @ [u]))"

text \<open>\<open>None\<close>: does not return. \<open>Some None\<close>: returns \<open>None\<close>, the target is not reachable.\<close>

definition shortest_path :: "'a::linorder adj \<Rightarrow> 'a \<Rightarrow> 'a \<Rightarrow> ('a list \<times> rat) option option" where
  "shortest_path A start target =
     (let (dst, prev) = dijkstra_loop A target [] ([start \<mapsto> 0], \<lambda>_. None, [(0, start)]) in
      case dst target of
        None \<Rightarrow> Some None
      | Some d \<Rightarrow> do { path \<leftarrow> path_loop prev target []; Some (Some (rev path, d)) })"

section \<open>Connected components\<close>

text \<open>The stack grows at its end; \<open>seen\<close> and the component are sets.\<close>

function component_loop :: "'a adj \<Rightarrow> 'a list \<Rightarrow> 'a set \<times> 'a set \<Rightarrow> 'a set \<times> 'a set" where
  "component_loop A stack (seen, cc) =
     (if stack = [] then (seen, cc)
      else
        (let cur = last stack; stack = butlast stack in
         if cur \<in> seen then component_loop A stack (seen, cc)
         else component_loop A (stack @ map fst (neighbours A cur)) (insert cur seen, insert cur cc)))"
  by pat_completeness auto

definition component_todo :: "'a adj \<Rightarrow> 'a list \<Rightarrow> 'a set \<Rightarrow> nat" where
  "component_todo A stack seen = card (vertices A \<union> set stack - seen)"

termination component_loop
proof (relation "measures [\<lambda>(A, k, s). component_todo A k (fst s), \<lambda>(_, k, _). length k]")
  fix A :: "'a adj" and stack rest :: "'a list" and seen cc cur
  assume ne: "stack \<noteq> []" and cur: "cur = last stack" and rest: "rest = butlast stack"
  have st: "set stack = insert cur (set rest)"
    using append_butlast_last_id [OF ne] cur rest by (metis list.set(1,2) set_append Un_insert_right sup_bot.right_neutral)
  {
    have "component_todo A rest seen \<le> component_todo A stack seen"
      unfolding component_todo_def st by (intro card_mono) auto
    moreover have "length rest < length stack" using ne rest by (cases stack rule: rev_cases) simp_all
    ultimately show "((A, rest, seen, cc), A, stack, seen, cc)
      \<in> measures [\<lambda>(A, k, s). component_todo A k (fst s), \<lambda>(_, k, _). length k]" by auto
  next
    assume new: "cur \<notin> seen"
    let ?k = "rest @ map fst (neighbours A cur)"
    have "vertices A \<union> set ?k \<subseteq> vertices A \<union> set stack" using neighbours_subset [of A cur] st by auto
    then have "vertices A \<union> set ?k - insert cur seen \<subset> vertices A \<union> set stack - seen" using new st by blast
    then have "component_todo A ?k (insert cur seen) < component_todo A stack seen"
      unfolding component_todo_def by (intro psubset_card_mono) auto
    then show "((A, ?k, insert cur seen, insert cur cc), A, stack, seen, cc)
      \<in> measures [\<lambda>(A, k, s). component_todo A k (fst s), \<lambda>(_, k, _). length k]" by simp
  }
qed (rule wf_measures)

fun components_from :: "'a adj \<Rightarrow> 'a list \<Rightarrow> 'a set \<Rightarrow> 'a set list" where
  "components_from A [] seen = []"
| "components_from A (node # nodes) seen =
     (if node \<in> seen then components_from A nodes seen
      else (let (seen, cc) = component_loop A [node] (seen, {}) in cc # components_from A nodes seen))"

definition connected_components :: "'a adj \<Rightarrow> 'a set list" where
  "connected_components A = components_from A (map fst A) {}"

section \<open>Ranking and communities\<close>

definition out_degree :: "'a adj \<Rightarrow> 'a \<Rightarrow> nat" where
  "out_degree A node = length (neighbours A node)"

text \<open>Python's \<open>sum\<close> over floats, from left to right.\<close>

definition fsum :: "rat list \<Rightarrow> rat" where
  "fsum xs = foldl (\<lambda>t x. fl (t + x)) 0 xs"

definition page_rank_step :: "'a adj \<Rightarrow> rat \<Rightarrow> ('a \<Rightarrow> rat) \<Rightarrow> 'a \<Rightarrow> rat" where
  "page_rank_step A damping rank node =
     (let n = of_nat (length A);
          dangling = fsum (map rank (filter (\<lambda>i. out_degree A i = 0) (map fst A)));
          contrib = fsum (map (\<lambda>(nbr, _, _). fl (rank nbr / of_nat (max 1 (out_degree A nbr)))) (neighbours A node)) in
      fl (fl (fl (1 - damping) / n) + fl (damping * fl (contrib + fl (dangling / n)))))"

definition page_rank :: "'a adj \<Rightarrow> nat \<Rightarrow> rat \<Rightarrow> ('a \<times> rat) list" where
  "page_rank A iterations damping =
     (let rank = (page_rank_step A damping ^^ iterations) (\<lambda>_. fl (1 / of_nat (length A))) in
      map (\<lambda>(k, _). (k, rank k)) A)"

text \<open>\<open>max(tally, key=tally.get)\<close>: the first key with the greatest value.\<close>

fun argmax :: "('k \<times> rat) list \<Rightarrow> 'k \<times> rat \<Rightarrow> 'k" where
  "argmax [] best = fst best"
| "argmax ((k, v) # kvs) best = argmax kvs (if snd best < v then (k, v) else best)"

definition tally_add :: "('a \<Rightarrow> nat) \<Rightarrow> 'a neighbour \<Rightarrow> (nat \<times> rat) list \<Rightarrow> (nat \<times> rat) list" where
  "tally_add labels = (\<lambda>(nbr, w, _) tally.
     AList.update (labels nbr) (fl ((case map_of tally (labels nbr) of None \<Rightarrow> 0 | Some x \<Rightarrow> x) + w)) tally)"

definition relabel :: "'a adj \<Rightarrow> 'a \<Rightarrow> ('a \<Rightarrow> nat) \<Rightarrow> 'a \<Rightarrow> nat" where
  "relabel A node labels =
     (case fold (tally_add labels) (neighbours A node) [] of
        [] \<Rightarrow> labels
      | kv # kvs \<Rightarrow> labels(node := argmax kvs kv))"

fun index_of :: "'a list \<Rightarrow> 'a \<Rightarrow> nat" where
  "index_of [] x = 0"
| "index_of (y # ys) x = (if x = y then 0 else Suc (index_of ys x))"

text \<open>\<open>mapping\<close> numbers the labels in the order in which the sorted nodes show them.\<close>

fun canonicalize ::
  "('a \<Rightarrow> nat) \<Rightarrow> 'a list \<Rightarrow> (nat \<times> nat) list \<Rightarrow> (nat \<times> 'a list) list \<Rightarrow> (nat \<times> 'a list) list" where
  "canonicalize labels [] mapping communities = communities"
| "canonicalize labels (node # nodes) mapping communities =
     (let lab = labels node;
          mapping = (if map_of mapping lab = None then AList.update lab (length mapping) mapping else mapping);
          c = the (map_of mapping lab) in
      canonicalize labels nodes mapping
        (AList.update c ((case map_of communities c of None \<Rightarrow> [] | Some ms \<Rightarrow> ms) @ [node]) communities))"

definition label_propagation :: "'a::linorder adj \<Rightarrow> nat \<Rightarrow> (nat \<times> 'a list) list" where
  "label_propagation A iterations =
     (let nodes = sort (map fst A);
          labels = ((\<lambda>l. fold (relabel A) nodes l) ^^ iterations) (index_of nodes) in
      canonicalize labels nodes [] [])"

section \<open>Similarity\<close>

definition jaccard :: "'a set \<Rightarrow> 'a set \<Rightarrow> rat" where
  "jaccard a b = (if a = {} \<and> b = {} then 0 else fl (of_nat (card (a \<inter> b)) / of_nat (card (a \<union> b))))"

definition neighbor_similarity :: "'a adj \<Rightarrow> 'a \<Rightarrow> 'a \<Rightarrow> rat" where
  "neighbor_similarity A a b = jaccard (fst ` set (neighbours A a)) (fst ` set (neighbours A b))"

end
