(* ===== verification/GraphProps.thy ===== *)
theory GraphProps
  imports Graph
begin

text \<open>
  The properties of the graph algorithms: breadth-first search finds least numbers of hops,
  Dijkstra's algorithm least costs when no weight is negative (and may run forever otherwise),
  the connected components partition the nodes into the classes of connectedness.
\<close>

section \<open>Breadth-first search\<close>

text \<open>\<open>hops A s n v\<close>: some walk of \<open>n\<close> edges leads from \<open>s\<close> to \<open>v\<close>.\<close>

inductive hops :: "'a adj \<Rightarrow> 'a \<Rightarrow> nat \<Rightarrow> 'a \<Rightarrow> bool" for A s where
  zero: "hops A s 0 s"
| step: "hops A s n u \<Longrightarrow> v \<in> fst ` set (neighbours A u) \<Longrightarrow> hops A s (Suc n) v"

inductive_simps hops_0 [simp]: "hops A s 0 v"
inductive_cases hops_SucE: "hops A s (Suc n) v"

definition expands :: "int option \<Rightarrow> nat \<Rightarrow> bool" where
  "expands m k \<longleftrightarrow> (case m of None \<Rightarrow> True | Some M \<Rightarrow> int k < M)"

definition in_depth :: "int option \<Rightarrow> nat \<Rightarrow> bool" where
  "in_depth m k \<longleftrightarrow> k = 0 \<or> expands m (k - 1)"

lemma expands_mono: "expands m k \<Longrightarrow> j \<le> k \<Longrightarrow> expands m j"
  by (auto simp: expands_def split: option.splits)

lemma in_depth_Suc: "in_depth m (Suc k) \<longleftrightarrow> expands m k"
  by (simp add: in_depth_def)

lemma expands_in_depth: "expands m k \<Longrightarrow> in_depth m k"
  using expands_mono [of m k "k - 1"] by (auto simp: in_depth_def)

lemma update_fresh: "map_of d v = None \<Longrightarrow> AList.update v x d = d @ [(v, x)]"
  by (induction d) (auto split: if_splits)

lemma bfs_scan_result:
  assumes "bfs_scan cur ns (d, p, q) = (d', p', q')" and "map_of d cur = Some k"
  shows "\<exists>new. d' = d @ map (\<lambda>v. (v, Suc k)) new \<and> q' = q @ new \<and> distinct new
    \<and> set new = fst ` set ns - dom (map_of d) \<and> p' = (\<lambda>v. if v \<in> set new then Some cur else p v)"
  using assms
proof (induction cur ns "(d, p, q)" arbitrary: d p q rule: bfs_scan.induct)
  case (2 cur nbr w t ns d p q)
  show ?case
  proof (cases "map_of d nbr = None")
    case True
    let ?d = "AList.update nbr (the (map_of d cur) + 1) d"
    have d: "?d = d @ [(nbr, Suc k)]" using True 2(4) by (simp add: update_fresh)
    have "map_of ?d cur = Some k" using True 2(4) by (auto simp: update_conv')
    with 2(1) [OF True _ this] 2(3) True obtain new where
      new: "d' = ?d @ map (\<lambda>v. (v, Suc k)) new" "q' = (q @ [nbr]) @ new" "distinct new"
        "set new = fst ` set ns - dom (map_of ?d)"
        "p' = (\<lambda>v. if v \<in> set new then Some cur else (p(nbr \<mapsto> cur)) v)" by auto
    have "nbr \<notin> set new" using new(4) by (simp add: update_conv')
    then have "d' = d @ map (\<lambda>v. (v, Suc k)) (nbr # new) \<and> q' = q @ (nbr # new) \<and> distinct (nbr # new)
      \<and> set (nbr # new) = fst ` set ((nbr, w, t) # ns) - dom (map_of d)
      \<and> p' = (\<lambda>v. if v \<in> set (nbr # new) then Some cur else p v)"
      using new d True by (auto simp: update_conv' fun_eq_iff)
    then show ?thesis by blast
  next
    case False
    with 2(2) [OF False _ 2(4)] 2(3) obtain new where
      "d' = d @ map (\<lambda>v. (v, Suc k)) new" "q' = q @ new" "distinct new"
        "set new = fst ` set ns - dom (map_of d)" "p' = (\<lambda>v. if v \<in> set new then Some cur else p v)" by auto
    with False show ?thesis by (intro exI [of _ new]) auto
  qed
qed auto

text \<open>The invariant of the loop, by parts: the dict and the queue, the depths, the parents.\<close>

definition bfs_queue :: "('a \<times> nat) list \<Rightarrow> 'a list \<Rightarrow> 'a list \<Rightarrow> bool" where
  "bfs_queue d order q \<longleftrightarrow> map fst d = order @ q \<and> distinct (map fst d) \<and> sorted (map snd d)
     \<and> (\<forall>u \<in> set (take 1 q). \<forall>(v, k) \<in> set d. k \<le> Suc (the (map_of d u)))"

definition bfs_depths :: "'a adj \<Rightarrow> 'a \<Rightarrow> int option \<Rightarrow> ('a \<times> nat) list \<Rightarrow> 'a list \<Rightarrow> bool" where
  "bfs_depths A s m d order \<longleftrightarrow> map_of d s = Some 0
     \<and> (\<forall>(v, k) \<in> set d. hops A s k v \<and> in_depth m k)
     \<and> (\<forall>u \<in> set order. \<forall>k. map_of d u = Some k \<longrightarrow> expands m k \<longrightarrow>
          (\<forall>v \<in> fst ` set (neighbours A u). \<exists>j \<le> Suc k. map_of d v = Some j))"

definition bfs_parents :: "'a adj \<Rightarrow> 'a \<Rightarrow> ('a \<times> nat) list \<Rightarrow> ('a \<Rightarrow> 'a option) \<Rightarrow> bool" where
  "bfs_parents A s d p \<longleftrightarrow> (\<forall>v. map_of d v \<noteq> None \<longrightarrow> v \<noteq> s \<longrightarrow> p v \<noteq> None)
     \<and> (\<forall>v u. p v = Some u \<longrightarrow> v \<in> fst ` set (neighbours A u)
          \<and> (\<exists>k. map_of d u = Some k \<and> map_of d v = Some (Suc k)))"

lemma bfs_queue_next:
  assumes "bfs_queue d order (cur # u # q)"
  shows "\<exists>k j. map_of d cur = Some k \<and> map_of d u = Some j \<and> k \<le> j"
proof -
  define i where "i = length order"
  have fs: "map fst d = order @ cur # u # q" "distinct (map fst d)" "sorted (map snd d)"
    using assms unfolding bfs_queue_def by blast+
  have len: "Suc i < length d" using arg_cong [OF fs(1), of length] by (simp add: i_def)
  have "map fst d ! i = cur" "map fst d ! Suc i = u" by (simp_all add: fs(1) i_def nth_append)
  then have "d ! i = (cur, snd (d ! i))" "d ! Suc i = (u, snd (d ! Suc i))"
    using len by (simp_all add: prod_eq_iff)
  then have "map_of d cur = Some (snd (d ! i))" "map_of d u = Some (snd (d ! Suc i))"
    using fs(2) len by (metis Suc_lessD map_of_is_SomeI nth_mem)+
  moreover have "snd (d ! i) \<le> snd (d ! Suc i)"
    using sorted_nth_mono [OF fs(3), of i "Suc i"] len by simp
  ultimately show ?thesis by blast
qed

lemma bfs_queue_skip:
  assumes "bfs_queue d order (cur # q)"
  shows "bfs_queue d (order @ [cur]) q"
proof -
  have "k \<le> Suc (the (map_of d u))" if u: "u \<in> set (take 1 q)" and v: "(v, k) \<in> set d" for u v k
  proof -
    obtain q2 where "q = u # q2" using u by (cases q) auto
    then obtain i j where "map_of d cur = Some i" "map_of d u = Some j" "i \<le> j"
      using bfs_queue_next assms by metis
    moreover have "k \<le> Suc (the (map_of d cur))" using assms v by (auto simp: bfs_queue_def)
    ultimately show ?thesis by simp
  qed
  then show ?thesis using assms by (auto simp: bfs_queue_def)
qed

lemma in_dict: "distinct (map fst d) \<Longrightarrow> (v, k) \<in> set d \<longleftrightarrow> map_of d v = Some k"
  by (metis map_of_SomeD map_of_is_SomeI)

lemma map_of_new:
  assumes "set new \<inter> dom (map_of d) = {}"
  shows "map_of (d @ map (\<lambda>v. (v, j)) new) v = (if v \<in> set new then Some j else map_of d v)"
proof (cases "v \<in> set new")
  case True
  then have "map_of d v = None" using assms by blast
  with True show ?thesis by (simp add: map_add_def map_of_map_restrict)
next
  case False
  then have "map_of (map (\<lambda>v. (v, j)) new) v = None" by (simp add: map_of_eq_None_iff image_image)
  with False show ?thesis by (cases "map_of d v") (simp_all add: map_add_def)
qed

lemma bfs_queue_scan:
  assumes q: "bfs_queue d order (cur # q)" and k: "map_of d cur = Some k"
    and new: "distinct new" "set new \<inter> dom (map_of d) = {}"
  shows "bfs_queue (d @ map (\<lambda>v. (v, Suc k)) new) (order @ [cur]) (q @ new)"
proof -
  let ?d = "d @ map (\<lambda>v. (v, Suc k)) new"
  have le: "\<forall>(v, j) \<in> set d. j \<le> Suc k" using q k by (simp add: bfs_queue_def)
  have keys: "set new \<inter> fst ` set d = {}" using new(2) by (simp add: dom_map_of_conv_image_fst)
  have "sorted (map snd ?d)" using q le by (auto simp: bfs_queue_def sorted_append sorted_map sorted_wrt_map)
  moreover have "\<forall>(v, j) \<in> set ?d. j \<le> Suc (the (map_of ?d u))" if "u \<in> set (take 1 (q @ new))" for u
  proof (cases q)
    case Nil
    then have "u \<in> set new" using that by (cases new) auto
    then have "map_of ?d u = Some (Suc k)"
      using map_of_new [OF new(2)] by simp
    with le show ?thesis by fastforce
  next
    case (Cons u' q2)
    then have u: "u' = u" using that by simp
    have skip: "bfs_queue d (order @ [cur]) q" by (rule bfs_queue_skip [OF q])
    obtain j where j: "map_of d u = Some j" and "k \<le> j"
      using bfs_queue_next q k Cons u by (metis option.inject)
    moreover have "map_of ?d u = Some j" using j by simp
    moreover have "\<forall>(v, i) \<in> set d. i \<le> Suc j" using skip j Cons u by (simp add: bfs_queue_def)
    ultimately show ?thesis by auto
  qed
  moreover have "map fst d = order @ cur # q" and "distinct (map fst d)" using q unfolding bfs_queue_def by blast+
  moreover have kd: "map fst ?d = map fst d @ new" by (simp add: comp_def)
  moreover have "distinct (map fst d @ new)"
    using \<open>distinct (map fst d)\<close> new(1) keys by (simp only: distinct_append set_map) blast
  ultimately show ?thesis unfolding bfs_queue_def kd by simp
qed

lemma bfs_depths_skip:
  assumes "bfs_depths A s m d order" and "map_of d cur = Some k" and "\<not> expands m k"
  shows "bfs_depths A s m d (order @ [cur])"
  using assms by (auto simp: bfs_depths_def)

lemma bfs_depths_scan:
  assumes inv: "bfs_depths A s m d order" "bfs_queue d order (cur # q)"
    and k: "map_of d cur = Some k" "expands m k"
    and new: "set new = fst ` set (neighbours A cur) - dom (map_of d)"
  shows "bfs_depths A s m (d @ map (\<lambda>v. (v, Suc k)) new) (order @ [cur])"
proof -
  let ?d = "d @ map (\<lambda>v. (v, Suc k)) new"
  have mo: "map_of ?d v = (if v \<in> set new then Some (Suc k) else map_of d v)" for v
    using new by (intro map_of_new) blast
  have "(cur, k) \<in> set d" using k(1) by (rule map_of_SomeD)
  then have "hops A s k cur" using inv(1) by (auto simp: bfs_depths_def)
  then have "\<forall>v \<in> set new. hops A s (Suc k) v \<and> in_depth m (Suc k)"
    using new k(2) by (auto simp: in_depth_Suc intro: hops.step)
  then have "\<forall>(v, j) \<in> set ?d. hops A s j v \<and> in_depth m j" using inv(1) by (auto simp: bfs_depths_def)
  moreover have "\<exists>j \<le> Suc i. map_of ?d v = Some j"
    if u: "u \<in> set (order @ [cur])" "map_of ?d u = Some i" "expands m i" "v \<in> fst ` set (neighbours A u)" for u i v
  proof -
    have "u \<in> fst ` set d" using u(1) inv(2) unfolding bfs_queue_def by (metis Un_iff append_Cons append_Nil append_assoc set_append set_map)
    then have un: "u \<notin> set new" using new by (auto simp: dom_map_of_conv_image_fst)
    then have i: "map_of d u = Some i" using u(2) mo by simp
    show ?thesis
    proof (cases "u = cur")
      case True
      then have "i = k" using i k by simp
      have "\<exists>j \<le> Suc k. map_of d v = Some j" if "v \<notin> set new"
      proof -
        have "v \<in> dom (map_of d)" using that u(4) new True by blast
        then obtain j where j: "map_of d v = Some j" by blast
        then have "j \<le> Suc k" using inv(2) k(1) map_of_SomeD [OF j] by (auto simp: bfs_queue_def)
        with j show ?thesis by blast
      qed
      then show ?thesis using mo \<open>i = k\<close> by auto
    next
      case False
      then have "u \<in> set order" using u(1) by simp
      then obtain j where "j \<le> Suc i" "map_of d v = Some j"
        using inv(1) i u(3,4) unfolding bfs_depths_def by blast
      moreover from this have "v \<notin> set new" using new by blast
      ultimately show ?thesis using mo by auto
    qed
  qed
  moreover have "map_of ?d s = Some 0" using inv(1) by (simp add: bfs_depths_def)
  ultimately show ?thesis unfolding bfs_depths_def by blast
qed

lemma bfs_parents_scan:
  assumes inv: "bfs_parents A s d p" and k: "map_of d cur = Some k"
    and new: "set new = fst ` set (neighbours A cur) - dom (map_of d)"
  shows "bfs_parents A s (d @ map (\<lambda>v. (v, Suc k)) new) (\<lambda>v. if v \<in> set new then Some cur else p v)"
proof -
  have mo: "map_of (d @ map (\<lambda>v. (v, Suc k)) new) v = (if v \<in> set new then Some (Suc k) else map_of d v)" for v
    using new by (intro map_of_new) blast
  have cn: "cur \<notin> set new" using k new by blast
  have old: "v \<in> fst ` set (neighbours A u) \<and> (\<exists>k. map_of d u = Some k \<and> map_of d v = Some (Suc k))
      \<and> v \<notin> set new \<and> u \<notin> set new" if "p v = Some u" for u v
  proof -
    from inv that obtain k where "v \<in> fst ` set (neighbours A u)" "map_of d u = Some k" "map_of d v = Some (Suc k)"
      unfolding bfs_parents_def by blast
    with new show ?thesis by blast
  qed
  show ?thesis
    unfolding bfs_parents_def mo
  proof (intro conjI allI impI)
    fix v assume "(if v \<in> set new then Some (Suc k) else map_of d v) \<noteq> None" "v \<noteq> s"
    then show "(if v \<in> set new then Some cur else p v) \<noteq> None"
      using inv by (cases "v \<in> set new") (simp_all add: bfs_parents_def)
  next
    fix v u assume vu: "(if v \<in> set new then Some cur else p v) = Some u"
    have "(v \<in> set new \<and> u = cur) \<or> (v \<notin> set new \<and> p v = Some u)" using vu by (simp split: if_splits)
    then have "v \<in> fst ` set (neighbours A u) \<and> (\<exists>j. (if u \<in> set new then Some (Suc k) else map_of d u) = Some j
        \<and> (if v \<in> set new then Some (Suc k) else map_of d v) = Some (Suc j))"
      using cn k new old by (elim disjE) (simp_all, blast+)
    then show "v \<in> fst ` set (neighbours A u)" "\<exists>j. (if u \<in> set new then Some (Suc k) else map_of d u) = Some j
        \<and> (if v \<in> set new then Some (Suc k) else map_of d v) = Some (Suc j)" by blast+
  qed
qed

lemma bfs_loop_inv:
  assumes "bfs_queue d order q" and "bfs_depths A s m d order" and "bfs_parents A s d p"
    and "bfs_loop A m order (d, p, q) = (d', p', order')"
  shows "bfs_queue d' order' [] \<and> bfs_depths A s m d' order' \<and> bfs_parents A s d' p'"
  using assms
proof (induction A m order "(d, p, q)" arbitrary: d p q rule: bfs_loop.induct)
  case (2 A m order d p cur q)
  have "cur \<in> fst ` set d" using 2(3) unfolding bfs_queue_def by (metis in_set_conv_decomp set_map)
  then obtain k where k: "map_of d cur = Some k" by (metis map_of_eq_None_iff not_None_eq)
  have ex: "(case m of None \<Rightarrow> False | Some M \<Rightarrow> M \<le> int (the (map_of d cur))) \<longleftrightarrow> \<not> expands m k"
    using k by (auto simp: expands_def split: option.split)
  show ?case
  proof (cases "expands m k")
    case False
    then have "bfs_loop A m (order @ [cur]) (d, p, q) = (d', p', order')" using 2(6) ex by simp
    with 2(1) ex False show ?thesis
      using bfs_queue_skip [OF 2(3)] bfs_depths_skip [OF 2(4) k False] 2(5) by blast
  next
    case True
    obtain d1 p1 q1 where s1: "bfs_scan cur (neighbours A cur) (d, p, q) = (d1, p1, q1)" by (metis prod_cases3)
    from bfs_scan_result [OF s1 k] obtain new where new: "d1 = d @ map (\<lambda>v. (v, Suc k)) new"
      "q1 = q @ new" "distinct new" "set new = fst ` set (neighbours A cur) - dom (map_of d)"
      "p1 = (\<lambda>v. if v \<in> set new then Some cur else p v)" by blast
    have "set new \<inter> dom (map_of d) = {}" using new(4) by blast
    from bfs_queue_scan [OF 2(3) k new(3) this] bfs_depths_scan [OF 2(4,3) k True new(4)]
      bfs_parents_scan [OF 2(5) k new(4)]
    have "bfs_queue d1 (order @ [cur]) q1" "bfs_depths A s m d1 (order @ [cur])" "bfs_parents A s d1 p1"
      by (simp_all only: new)
    moreover have "bfs_loop A m (order @ [cur]) (d1, p1, q1) = (d', p', order')" using 2(6) ex True s1 by simp
    ultimately show ?thesis using 2(2) [of d1 p1 q1] ex True s1 by simp
  qed
qed simp

lemma bfs_complete:
  assumes "bfs_depths A s m d order" and "map fst d = order" and "hops A s n v" and "in_depth m n"
  shows "\<exists>k \<le> n. map_of d v = Some k"
  using assms(3,4)
proof (induction rule: hops.induct)
  case zero
  then show ?case using assms(1) by (simp add: bfs_depths_def)
next
  case (step n u v)
  have ex: "expands m n" using step.prems by (simp add: in_depth_Suc)
  then obtain k where k: "k \<le> n" "map_of d u = Some k" using step.IH expands_in_depth by blast
  have "u \<in> set order" using map_of_SomeD [OF k(2)] assms(2) by force
  with assms(1) k expands_mono [OF ex k(1)] step.hyps(2) obtain j where "j \<le> Suc k" "map_of d v = Some j"
    unfolding bfs_depths_def by blast
  with k(1) show ?case by (meson Suc_le_mono order_trans)
qed

lemma bfs_least:
  "\<exists>depth parent order. bfs A s m = (depth, parent, order)
    \<and> (\<forall>v k. map_of depth v = Some k \<longleftrightarrow> hops A s k v \<and> (\<forall>j. hops A s j v \<longrightarrow> k \<le> j)
        \<and> (k = 0 \<or> m = None \<or> int k \<le> the m))
    \<and> map fst depth = order \<and> distinct order \<and> sorted (map snd depth)
    \<and> (\<forall>v u. parent v = Some u \<longrightarrow> v \<in> fst ` set (neighbours A u)
        \<and> (\<exists>k. map_of depth u = Some k \<and> map_of depth v = Some (Suc k)))"
proof -
  obtain d p ord where r: "bfs A s m = (d, p, ord)" by (metis prod_cases3)
  have "bfs_queue d ord [] \<and> bfs_depths A s m d ord \<and> bfs_parents A s d p"
    by (rule bfs_loop_inv [OF _ _ _ r [unfolded bfs_def]])
      (simp_all add: bfs_queue_def bfs_depths_def bfs_parents_def in_depth_def)
  then have q: "map fst d = ord" "distinct ord" "sorted (map snd d)"
    and dp: "bfs_depths A s m d ord" and pa: "bfs_parents A s d p" by (auto simp: bfs_queue_def)
  have least: "map_of d v = Some k \<longleftrightarrow> hops A s k v \<and> (\<forall>j. hops A s j v \<longrightarrow> k \<le> j) \<and> in_depth m k" for v k
  proof
    assume k: "map_of d v = Some k"
    then have hk: "hops A s k v" "in_depth m k" using dp map_of_SomeD [OF k] by (auto simp: bfs_depths_def)
    have "k \<le> j" if "hops A s j v" for j
    proof (rule ccontr)
      assume "\<not> k \<le> j"
      then have "in_depth m j" using hk(2) expands_mono [of m "k - 1" "j - 1"] by (auto simp: in_depth_def)
      then show False using bfs_complete [OF dp q(1) that] k \<open>\<not> k \<le> j\<close> by auto
    qed
    with hk show "hops A s k v \<and> (\<forall>j. hops A s j v \<longrightarrow> k \<le> j) \<and> in_depth m k" by blast
  next
    assume k: "hops A s k v \<and> (\<forall>j. hops A s j v \<longrightarrow> k \<le> j) \<and> in_depth m k"
    then obtain j where j: "j \<le> k" "map_of d v = Some j" using bfs_complete [OF dp q(1)] by blast
    then have "hops A s j v" using dp map_of_SomeD [OF j(2)] by (auto simp: bfs_depths_def)
    with j k show "map_of d v = Some k" by (metis le_antisym)
  qed
  have "in_depth m k \<longleftrightarrow> k = 0 \<or> m = None \<or> int k \<le> the m" for k
    by (cases k) (auto simp: in_depth_def expands_def split: option.split)
  note least [unfolded this]
  moreover have "\<forall>v u. p v = Some u \<longrightarrow> v \<in> fst ` set (neighbours A u)
      \<and> (\<exists>k. map_of d u = Some k \<and> map_of d v = Some (Suc k))"
    using pa unfolding bfs_parents_def by blast
  ultimately show ?thesis using q r by (intro exI conjI) (assumption | intro allI, assumption)+
qed

text \<open>C36: Breadth-first search returns for every graph, start and limit; the depth it gives a node is
  the least number of edges of a walk from the start to it, it gives one to exactly the nodes that
  some walk within the limit reaches, visits each of them once in the order of the depths, and
  the parent of a node is a neighbour one step nearer to the start.\<close>

theorem bfs_least_hops:
  "\<exists>depth parent order. bfs A s m = (depth, parent, order)
    \<and> (\<forall>v k. map_of depth v = Some k \<longleftrightarrow> hops A s k v \<and> (\<forall>j. hops A s j v \<longrightarrow> k \<le> j)
        \<and> (k = 0 \<or> m = None \<or> int k \<le> the m))
    \<and> map fst depth = order \<and> distinct order \<and> sorted (map snd depth)
    \<and> (\<forall>v u. parent v = Some u \<longrightarrow> v \<in> fst ` set (neighbours A u)
        \<and> (\<exists>k. map_of depth u = Some k \<and> map_of depth v = Some (Suc k)))"
  by (rule bfs_least)

text \<open>Node 1 to node 2 with weight -1, node 2 to node 3 with weight 1, both ways.\<close>

definition cheap_edge :: "nat adj" where
  "cheap_edge = adjacency_map [1, 2, 3]
     [\<lparr>source_id = 1, target_id = 2, edge_type = ''RELATED_TO'', weight = Some (- 1)\<rparr>,
      \<lparr>source_id = 2, target_id = 3, edge_type = ''RELATED_TO'', weight = Some 1\<rparr>] False"

lemma cheap_edge: "cheap_edge = [(1, [(2, -1, ''RELATED_TO'')]), (2, [(1, -1, ''RELATED_TO''), (3, 1, ''RELATED_TO'')]),
   (3, [(2, 1, ''RELATED_TO'')])]"
  by (simp add: cheap_edge_def adjacency_map_def add_edge_def Let_def add_neighbour_def neighbours_def edge_weight_def)

theorem bfs_least_hops_witness:
  "map_of (fst (bfs cheap_edge 1 (Some 2))) 3 = Some 2 \<and> hops cheap_edge 1 2 3 \<and> \<not> hops cheap_edge 1 1 3"
proof -
  have r: "fst (bfs cheap_edge 1 (Some 2)) = [(1, 0), (2, 1), (3, 2)]"
    by (simp add: bfs_def cheap_edge neighbours_def)
  obtain depth parent order where e: "bfs cheap_edge 1 (Some 2) = (depth, parent, order)"
    and "\<forall>v k. map_of depth v = Some k \<longleftrightarrow> hops cheap_edge 1 k v \<and> (\<forall>j. hops cheap_edge 1 j v \<longrightarrow> k \<le> j)
        \<and> (k = 0 \<or> Some 2 = (None :: int option) \<or> int k \<le> the (Some 2))"
    using bfs_least_hops [of cheap_edge 1 "Some 2"] by blast
  moreover have "map_of depth 3 = Some 2" using r e by simp
  ultimately have "hops cheap_edge 1 2 3 \<and> (\<forall>j. hops cheap_edge 1 j 3 \<longrightarrow> 2 \<le> j)" by blast
  with r show ?thesis by fastforce
qed

end
