(* ===== verification/ShortestPath.thy ===== *)
theory ShortestPath
  imports GraphProps
begin

text \<open>
  Dijkstra's algorithm of the knowledge graph: with weights that are not negative it returns a
  path of least cost, the cost of a walk being the float sum of its weights in their order; with
  a negative weight the reconstruction of the path may run forever.
\<close>

section \<open>Walks and their costs\<close>

inductive walk_cost :: "'a adj \<Rightarrow> 'a \<Rightarrow> 'a list \<Rightarrow> 'a \<Rightarrow> rat \<Rightarrow> bool" for A s where
  here: "walk_cost A s [s] s 0"
| go: "walk_cost A s p u c \<Longrightarrow> (v, w, t) \<in> set (neighbours A u) \<Longrightarrow> walk_cost A s (p @ [v]) v (fl (c + w))"

definition nonneg_weights :: "'a adj \<Rightarrow> bool" where
  "nonneg_weights A \<longleftrightarrow> (\<forall>u. \<forall>(v, w, t) \<in> set (neighbours A u). 0 \<le> w)"

lemma walk_rep: "walk_cost A s p v c \<Longrightarrow> fl_rep c"
  by (induction rule: walk_cost.induct) (simp_all add: flr.rep_0 flr.rep_r)

lemma cost_grows: "fl_rep c \<Longrightarrow> 0 \<le> w \<Longrightarrow> c \<le> fl (c + w)"
  by (rule flr.r_ge) simp_all

lemma cost_mono: "c \<le> c' \<Longrightarrow> fl (c + w) \<le> fl (c' + w)"
  by (rule flr.r_mono) simp

section \<open>Relaxing the edges of a node\<close>

definition relaxed :: "'a \<Rightarrow> rat \<Rightarrow> 'a neighbour list \<Rightarrow> 'a dijkstra_state \<Rightarrow> 'a dijkstra_state \<Rightarrow> bool" where
  "relaxed u d ns s s' \<longleftrightarrow> (case (s, s') of ((dst, prev, pq), (dst', prev', pq')) \<Rightarrow>
     set pq \<subseteq> set pq'
     \<and> (\<forall>(c, v) \<in> set pq' - set pq. \<exists>w t. (v, w, t) \<in> set ns \<and> c = fl (d + w) \<and> (\<exists>c' \<le> c. dst' v = Some c'))
     \<and> (\<forall>v c. dst v = Some c \<longrightarrow> (\<exists>c' \<le> c. dst' v = Some c'))
     \<and> (\<forall>(v, w, t) \<in> set ns. \<exists>c' \<le> fl (d + w). dst' v = Some c')
     \<and> (\<forall>v. (dst' v = dst v \<and> prev' v = prev v)
          \<or> (\<exists>w t. (v, w, t) \<in> set ns \<and> dst' v = Some (fl (d + w)) \<and> prev' v = Some u
               \<and> (fl (d + w), v) \<in> set pq' \<and> (\<forall>c. dst v = Some c \<longrightarrow> fl (d + w) < c))))"

lemma relaxed_refl: "relaxed u d [] s s"
  by (auto simp: relaxed_def split: prod.split)

lemma relax_relaxed: "relaxed u d ns (dst, prev, pq) (relax u d ns (dst, prev, pq))"
proof (induction u d ns "(dst, prev, pq)" arbitrary: dst prev pq rule: relax.induct)
  case (1 u d dst prev pq)
  show ?case by (simp add: relaxed_refl)
next
  case (2 u d nbr w t ns dst prev pq)
  let ?nd = "fl (d + w)"
  obtain dst' prev' pq' where r: "relax u d ((nbr, w, t) # ns) (dst, prev, pq) = (dst', prev', pq')"
    by (metis prod_cases3)
  show ?case
  proof (cases "case dst nbr of None \<Rightarrow> True | Some x \<Rightarrow> ?nd < x")
    case True
    have less: "\<forall>c. dst nbr = Some c \<longrightarrow> ?nd < c" using True by auto
    have "relaxed u d ns (dst(nbr \<mapsto> ?nd), prev(nbr \<mapsto> u), pq @ [(?nd, nbr)]) (dst', prev', pq')"
      using 2(1) [OF refl True] r True by (simp add: Let_def)
    then have IH: "set pq \<subseteq> set pq'" "(?nd, nbr) \<in> set pq'"
      "\<forall>(c, v) \<in> set pq' - insert (?nd, nbr) (set pq). \<exists>w t. (v, w, t) \<in> set ns \<and> c = fl (d + w) \<and> (\<exists>c' \<le> c. dst' v = Some c')"
      "\<And>v c. (dst(nbr \<mapsto> ?nd)) v = Some c \<Longrightarrow> \<exists>c' \<le> c. dst' v = Some c'"
      "\<forall>(v, w, t) \<in> set ns. \<exists>c' \<le> fl (d + w). dst' v = Some c'"
      "\<And>v. (dst' v = (dst(nbr \<mapsto> ?nd)) v \<and> prev' v = (prev(nbr \<mapsto> u)) v)
          \<or> (\<exists>w t. (v, w, t) \<in> set ns \<and> dst' v = Some (fl (d + w)) \<and> prev' v = Some u
               \<and> (fl (d + w), v) \<in> set pq' \<and> (\<forall>c. (dst(nbr \<mapsto> ?nd)) v = Some c \<longrightarrow> fl (d + w) < c))"
      unfolding relaxed_def by auto
    have n: "\<exists>c' \<le> ?nd. dst' nbr = Some c'" using IH(4) [of nbr ?nd] by simp
    have "\<exists>c' \<le> c. dst' v = Some c'" if "dst v = Some c" for v c
    proof (cases "v = nbr")
      case True
      with that less n show ?thesis by (meson less_imp_le order_trans)
    next
      case False
      with that IH(4) [of v c] show ?thesis by simp
    qed
    moreover have "(dst' v = dst v \<and> prev' v = prev v)
          \<or> (\<exists>w' t'. (v, w', t') \<in> set ((nbr, w, t) # ns) \<and> dst' v = Some (fl (d + w')) \<and> prev' v = Some u
               \<and> (fl (d + w'), v) \<in> set pq' \<and> (\<forall>c. dst v = Some c \<longrightarrow> fl (d + w') < c))" for v
    proof (cases "v = nbr")
      case True
      with IH(6) [of v] IH(2) less show ?thesis by (auto intro: less_trans)
    next
      case False
      with IH(6) [of v] show ?thesis by auto
    qed
    moreover have "\<exists>w' t'. (v, w', t') \<in> set ((nbr, w, t) # ns) \<and> c = fl (d + w') \<and> (\<exists>c' \<le> c. dst' v = Some c')"
      if "(c, v) \<in> set pq'" "(c, v) \<notin> set pq" for c v
    proof (cases "(c, v) = (?nd, nbr)")
      case True
      with n show ?thesis by auto
    next
      case False
      with that IH(3) have "\<exists>w t. (v, w, t) \<in> set ns \<and> c = fl (d + w) \<and> (\<exists>c' \<le> c. dst' v = Some c')" by blast
      then show ?thesis by auto
    qed
    moreover have "\<exists>c' \<le> fl (d + w'). dst' v = Some c'" if "(v, w', t') \<in> set ((nbr, w, t) # ns)" for v w' t'
      using that IH(5) n by auto
    ultimately show ?thesis
      unfolding r relaxed_def prod.case using IH(1) by blast
  next
    case False
    then obtain x where x: "dst nbr = Some x" "x \<le> ?nd" by (auto split: option.splits)
    have R: "relaxed u d ns (dst, prev, pq) (dst', prev', pq')"
      using 2(2) [OF refl False] r False by (simp add: Let_def)
    then have "\<exists>c' \<le> x. dst' nbr = Some c'" using x(1) unfolding relaxed_def prod.case by blast
    then have "\<exists>c' \<le> ?nd. dst' nbr = Some c'" using x(2) by (meson order_trans)
    then have "\<forall>(v, w', t') \<in> set ((nbr, w, t) # ns). \<exists>c' \<le> fl (d + w'). dst' v = Some c'"
      using R unfolding relaxed_def prod.case by simp
    moreover have "set ns \<subseteq> set ((nbr, w, t) # ns)" by auto
    ultimately show ?thesis
      using R unfolding r relaxed_def prod.case by blast
  qed
qed

section \<open>The invariant\<close>

text \<open>
  By parts: the start; the heap holds the unvisited nodes, none better than recorded; the visited
  nodes are settled and relaxed; every other node is reached from the one before it, visited
  earlier.
\<close>

definition heap_ok :: "'a list \<Rightarrow> ('a \<rightharpoonup> rat) \<Rightarrow> (rat \<times> 'a) list \<Rightarrow> bool" where
  "heap_ok visited dst pq \<longleftrightarrow> (\<forall>v c. dst v = Some c \<longrightarrow> v \<notin> set visited \<longrightarrow> (c, v) \<in> set pq)
     \<and> (\<forall>(c, v) \<in> set pq. \<exists>c' \<le> c. dst v = Some c')"

definition settled :: "'a adj \<Rightarrow> 'a list \<Rightarrow> ('a \<rightharpoonup> rat) \<Rightarrow> (rat \<times> 'a) list \<Rightarrow> bool" where
  "settled A visited dst pq \<longleftrightarrow> (\<forall>u \<in> set visited. \<exists>c. dst u = Some c \<and> (\<forall>(c', v) \<in> set pq. c \<le> c')
     \<and> (\<forall>(v, w, t) \<in> set (neighbours A u). \<exists>c' \<le> fl (c + w). dst v = Some c'))"

definition traced :: "'a adj \<Rightarrow> 'a \<Rightarrow> 'a list \<Rightarrow> ('a \<rightharpoonup> rat) \<Rightarrow> ('a \<Rightarrow> 'a option) \<Rightarrow> bool" where
  "traced A s visited dst prev \<longleftrightarrow> dst s = Some 0 \<and> prev s = None
     \<and> (\<forall>v c. dst v = Some c \<longrightarrow> fl_rep c \<and> 0 \<le> c)
     \<and> (\<forall>v c. dst v = Some c \<longrightarrow> v \<noteq> s \<longrightarrow> (\<exists>u w t cu. prev v = Some u \<and> u \<in> set visited
          \<and> (v, w, t) \<in> set (neighbours A u) \<and> dst u = Some cu \<and> c = fl (cu + w)))
     \<and> (\<forall>i < length visited. \<forall>u. prev (visited ! i) = Some u \<longrightarrow> u \<in> set (take i visited))"

definition dijkstra_inv :: "'a adj \<Rightarrow> 'a \<Rightarrow> 'a list \<Rightarrow> 'a dijkstra_state \<Rightarrow> bool" where
  "dijkstra_inv A s visited st \<longleftrightarrow> (case st of (dst, prev, pq) \<Rightarrow>
     heap_ok visited dst pq \<and> settled A visited dst pq \<and> traced A s visited dst prev)"

lemma dijkstra_init: "dijkstra_inv A s [] ([s \<mapsto> 0], \<lambda>_. None, [(0, s)])"
  by (simp add: dijkstra_inv_def heap_ok_def settled_def traced_def flr.rep_0)

lemma dijkstra_skip:
  assumes "dijkstra_inv A s visited (dst, prev, pq)" and "u \<in> set visited"
  shows "dijkstra_inv A s visited (dst, prev, remove1 (d, u) pq)"
proof -
  have sub: "set (remove1 (d, u) pq) \<subseteq> set pq" by (rule set_remove1_subset)
  have keep: "(c, v) \<in> set (remove1 (d, u) pq)" if "(c, v) \<in> set pq" "v \<notin> set visited" for c v
    using that assms(2) by (metis in_set_remove1 prod.inject)
  have inv: "heap_ok visited dst pq" "settled A visited dst pq" "traced A s visited dst prev"
    using assms(1) by (simp_all add: dijkstra_inv_def)
  have "heap_ok visited dst (remove1 (d, u) pq)" using inv(1) sub keep unfolding heap_ok_def by blast
  moreover have "settled A visited dst (remove1 (d, u) pq)"
    unfolding settled_def
  proof
    fix x assume "x \<in> set visited"
    with inv(2) obtain c where "dst x = Some c" "\<forall>(c', v) \<in> set pq. c \<le> c'"
      "\<forall>(v, w, t) \<in> set (neighbours A x). \<exists>c' \<le> fl (c + w). dst v = Some c'" unfolding settled_def by blast
    moreover from this(2) have "\<forall>(c', v) \<in> set (remove1 (d, u) pq). c \<le> c'" using sub by blast
    ultimately show "\<exists>c. dst x = Some c \<and> (\<forall>(c', v) \<in> set (remove1 (d, u) pq). c \<le> c')
      \<and> (\<forall>(v, w, t) \<in> set (neighbours A x). \<exists>c' \<le> fl (c + w). dst v = Some c')" by blast
  qed
  ultimately show ?thesis using inv(3) by (simp add: dijkstra_inv_def)
qed

lemma heap_le:
  fixes pq :: "(rat \<times> 'a::linorder) list"
  assumes "(d, u) = min_list pq" and "(c, v) \<in> set pq"
  shows "d \<le> c"
proof -
  have "pq \<noteq> []" using assms(2) by auto
  then have "min_list pq \<le> (c, v)" using assms(2) by (simp add: min_list_Min)
  then have "(d, u) \<le> (c, v)" by (simp only: assms(1))
  then show "d \<le> c" by (auto simp: less_eq_prod_def)
qed

lemma dijkstra_top:
  fixes pq :: "(rat \<times> 'a::linorder) list"
  assumes "dijkstra_inv A s visited (dst, prev, pq)" and "(d, u) = min_list pq" and "pq \<noteq> []"
    and "u \<notin> set visited"
  shows "dst u = Some d" and "(d, u) \<in> set pq" and "\<forall>(c, v) \<in> set pq. d \<le> c"
proof -
  show m: "(d, u) \<in> set pq" unfolding assms(2) by (rule heap_min [OF assms(3)])
  show le: "\<forall>(c, v) \<in> set pq. d \<le> c" using heap_le [OF assms(2)] by blast
  have "heap_ok visited dst pq" using assms(1) by (simp add: dijkstra_inv_def)
  moreover from this obtain c where c: "c \<le> d" "dst u = Some c" using m unfolding heap_ok_def by blast
  ultimately have "(c, u) \<in> set pq" using assms(4) unfolding heap_ok_def by blast
  with le have "d \<le> c" by blast
  with c show "dst u = Some d" by simp
qed

lemma dijkstra_step:
  fixes pq :: "(rat \<times> 'a::linorder) list"
  assumes inv: "dijkstra_inv A s visited (dst, prev, pq)" and top: "(d, u) = min_list pq" "pq \<noteq> []"
    and new: "u \<notin> set visited" and pos: "nonneg_weights A"
  shows "dijkstra_inv A s (visited @ [u]) (relax u d (neighbours A u) (dst, prev, remove1 (d, u) pq))"
proof -
  let ?ns = "neighbours A u" and ?rest = "remove1 (d, u) pq"
  obtain dst' prev' pq' where r: "relax u d ?ns (dst, prev, ?rest) = (dst', prev', pq')" by (metis prod_cases3)
  have heap: "heap_ok visited dst pq" and sett: "settled A visited dst pq" and tr: "traced A s visited dst prev"
    using inv by (simp_all add: dijkstra_inv_def)
  note t = dijkstra_top [OF inv top new]
  have sub: "set ?rest \<subseteq> set pq" by (rule set_remove1_subset)
  from relax_relaxed [of u d ?ns dst prev ?rest, unfolded r]
  have keep: "set ?rest \<subseteq> set pq'"
    and fresh: "\<And>c v. (c, v) \<in> set pq' \<Longrightarrow> (c, v) \<notin> set ?rest \<Longrightarrow>
      \<exists>w t. (v, w, t) \<in> set ?ns \<and> c = fl (d + w) \<and> (\<exists>c' \<le> c. dst' v = Some c')"
    and down: "\<And>v c. dst v = Some c \<Longrightarrow> \<exists>c' \<le> c. dst' v = Some c'"
    and edges: "\<forall>(v, w, t) \<in> set ?ns. \<exists>c' \<le> fl (d + w). dst' v = Some c'"
    and upd: "\<And>v. (dst' v = dst v \<and> prev' v = prev v)
          \<or> (\<exists>w t. (v, w, t) \<in> set ?ns \<and> dst' v = Some (fl (d + w)) \<and> prev' v = Some u
               \<and> (fl (d + w), v) \<in> set pq' \<and> (\<forall>c. dst v = Some c \<longrightarrow> fl (d + w) < c))"
    unfolding relaxed_def prod.case by blast+
  have d: "fl_rep d" "0 \<le> d" using tr t(1) unfolding traced_def by blast+
  have grow: "d \<le> fl (d + w)" if "(v, w, t) \<in> set ?ns" for v w t
    using that pos d(1) cost_grows unfolding nonneg_weights_def by blast
  have same: "dst' v = dst v \<and> prev' v = prev v" if "dst v = Some c" "c \<le> d" for v c
    using upd [of v] grow that by (meson leD order_trans)
  have fin: "\<exists>c. dst x = Some c \<and> c \<le> d" if "x \<in> set (visited @ [u])" for x
  proof (cases "x = u")
    case False
    with that obtain c where "dst x = Some c" "\<forall>(c', v) \<in> set pq. c \<le> c'"
      using sett unfolding settled_def by fastforce
    with t(2) show ?thesis by blast
  qed (use t(1) in simp)
  have lower: "d \<le> c" if "(c, v) \<in> set pq'" for c v
    using fresh [OF that] sub t(3) grow by blast
  have "heap_ok (visited @ [u]) dst' pq'"
    unfolding heap_ok_def
  proof (intro conjI allI impI ballI)
    fix v c assume v: "dst' v = Some c" "v \<notin> set (visited @ [u])"
    from upd [of v] show "(c, v) \<in> set pq'"
    proof
      assume "dst' v = dst v \<and> prev' v = prev v"
      then have "(c, v) \<in> set pq" using heap v unfolding heap_ok_def by simp
      moreover have "(c, v) \<noteq> (d, u)" using v(2) by simp
      ultimately show ?thesis using keep by (meson in_set_remove1 subsetD)
    qed (use v(1) in auto)
  next
    fix x assume x: "x \<in> set pq'"
    obtain c v where cv: "x = (c, v)" by (cases x)
    have "\<exists>c' \<le> c. dst' v = Some c'"
    proof (cases "(c, v) \<in> set ?rest")
      case True
      then obtain c' where c': "c' \<le> c" "dst v = Some c'" using sub heap unfolding heap_ok_def by blast
      from down [OF c'(2)] c'(1) show ?thesis by (meson order_trans)
    qed (use fresh x cv in blast)
    then show "case x of (c, v) \<Rightarrow> \<exists>c' \<le> c. dst' v = Some c'" by (simp add: cv)
  qed
  moreover have "settled A (visited @ [u]) dst' pq'"
    unfolding settled_def
  proof
    fix x assume x: "x \<in> set (visited @ [u])"
    then obtain c where c: "dst x = Some c" "c \<le> d" using fin by blast
    have "\<exists>c' \<le> fl (c + w). dst' v = Some c'" if e: "(v, w, t) \<in> set (neighbours A x)" for v w t
    proof (cases "x = u")
      case True
      with c t(1) have "c = d" by simp
      with True e edges show ?thesis by blast
    next
      case False
      then obtain c' where c': "c' \<le> fl (c + w)" "dst v = Some c'"
        using x sett e c(1) unfolding settled_def by fastforce
      from down [OF c'(2)] c'(1) show ?thesis by (meson order_trans)
    qed
    moreover have "dst' x = Some c" using same c by simp
    moreover have "\<forall>(c', v) \<in> set pq'. c \<le> c'" using lower c(2) by (auto intro: order_trans)
    ultimately show "\<exists>c. dst' x = Some c \<and> (\<forall>(c', v) \<in> set pq'. c \<le> c')
      \<and> (\<forall>(v, w, t) \<in> set (neighbours A x). \<exists>c' \<le> fl (c + w). dst' v = Some c')" by blast
  qed
  moreover have "traced A s (visited @ [u]) dst' prev'"
    unfolding traced_def
  proof (intro conjI allI impI)
    show "dst' s = Some 0" "prev' s = None" using same [of s 0] tr d(2) unfolding traced_def by simp_all
  next
    fix v c assume v: "dst' v = Some c"
    have "fl_rep c \<and> 0 \<le> c"
      using upd [of v] v tr grow d(2) unfolding traced_def by (auto intro: order_trans simp: flr.rep_r)
    then show "fl_rep c" "0 \<le> c" by simp_all
  next
    fix v c assume v: "dst' v = Some c" "v \<noteq> s"
    from upd [of v] show "\<exists>x w t cx. prev' v = Some x \<and> x \<in> set (visited @ [u])
          \<and> (v, w, t) \<in> set (neighbours A x) \<and> dst' x = Some cx \<and> c = fl (cx + w)"
    proof
      assume k: "dst' v = dst v \<and> prev' v = prev v"
      then obtain x w t' cx where "prev v = Some x" "x \<in> set visited" "(v, w, t') \<in> set (neighbours A x)"
        "dst x = Some cx" "c = fl (cx + w)"
        using tr v unfolding traced_def by metis
      moreover have "dst' x = Some cx" using fin [of x] same [of x] calculation by auto
      ultimately show ?thesis using k by auto
    next
      assume "\<exists>w t. (v, w, t) \<in> set ?ns \<and> dst' v = Some (fl (d + w)) \<and> prev' v = Some u
               \<and> (fl (d + w), v) \<in> set pq' \<and> (\<forall>c. dst v = Some c \<longrightarrow> fl (d + w) < c)"
      moreover have "dst' u = Some d" using same [OF t(1)] t(1) by simp
      ultimately show ?thesis using v(1) by auto
    qed
  next
    fix i x assume i: "i < length (visited @ [u])" "prev' ((visited @ [u]) ! i) = Some x"
    show "x \<in> set (take i (visited @ [u]))"
    proof (cases "i < length visited")
      case True
      have "prev' (visited ! i) = prev (visited ! i)" using fin [of "visited ! i"] same True by auto
      then show ?thesis using tr i True unfolding traced_def by (simp add: nth_append)
    next
      case False
      then have "i = length visited" using i(1) by simp
      moreover have "x \<in> set visited"
      proof -
        have "prev u = Some x" using i(2) \<open>i = length visited\<close> same [OF t(1)] by simp
        moreover from this have "u \<noteq> s" using tr unfolding traced_def by auto
        ultimately show ?thesis using tr t(1) unfolding traced_def by fastforce
      qed
      ultimately show ?thesis by simp
    qed
  qed
  ultimately show ?thesis unfolding r dijkstra_inv_def by simp
qed

declare dijkstra_loop.simps [simp del]

lemma dijkstra_loop_inv:
  assumes "nonneg_weights A" and "dijkstra_inv A s visited (dst, prev, pq)" and "target \<notin> set visited"
    and "dijkstra_loop A target visited (dst, prev, pq) = (dst', prev')"
  shows "\<exists>visited' pq'. dijkstra_inv A s visited' (dst', prev', pq')
    \<and> (pq' = [] \<or> (target \<notin> set visited' \<and> snd (min_list pq') = target \<and> pq' \<noteq> []))"
  using assms
proof (induction A target visited "(dst, prev, pq)" arbitrary: dst prev pq rule: dijkstra_loop.induct)
  case (1 A target visited dst prev pq)
  show ?case
  proof (cases "pq = []")
    case True
    with 1(6) have "dst' = dst \<and> prev' = prev" by (simp add: dijkstra_loop.simps)
    with True 1(4) show ?thesis by blast
  next
    case False
    obtain d u where top: "(d, u) = min_list pq" by (metis surj_pair)
    let ?rest = "remove1 (d, u) pq"
    obtain dst1 prev1 pq1 where r: "relax u d (neighbours A u) (dst, prev, ?rest) = (dst1, prev1, pq1)"
      by (metis prod_cases3)
    note loop = 1(6) [unfolded dijkstra_loop.simps [of A target visited dst prev pq] Let_def
      if_not_P [OF False] top [symmetric] prod.case r]
    consider "u \<in> set visited" | "u \<notin> set visited" "u = target" | "u \<notin> set visited" "u \<noteq> target" by blast
    then show ?thesis
    proof cases
      case 1
      with loop have "dijkstra_loop A target visited (dst, prev, ?rest) = (dst', prev')" by simp
      with "1.hyps"(1) [OF False top refl refl 1 "1.prems"(1) dijkstra_skip [OF "1.prems"(2) 1] "1.prems"(3)]
      show ?thesis by blast
    next
      case 2
      with loop have "dst' = dst \<and> prev' = prev" by simp
      moreover have "snd (min_list pq) = target" using top 2 by (metis snd_conv)
      ultimately show ?thesis using "1.prems"(2,3) False by blast
    next
      case 3
      with loop have "dijkstra_loop A target (visited @ [u]) (dst1, prev1, pq1) = (dst', prev')" by simp
      moreover have "dijkstra_inv A s (visited @ [u]) (dst1, prev1, pq1)"
        using dijkstra_step [OF "1.prems"(2) top False 3(1) "1.prems"(1)] r by simp
      moreover have "target \<notin> set (visited @ [u])" using 3 "1.prems"(3) by simp
      ultimately show ?thesis using "1.hyps"(2) [OF False top refl refl 3] "1.prems"(1) r by metis
    qed
  qed
qed

section \<open>Optimality\<close>

lemma walk_covered:
  assumes inv: "dijkstra_inv A s visited (dst, prev, pq)" and pos: "nonneg_weights A"
    and "walk_cost A s p v c"
  shows "(v \<in> set visited \<and> (\<exists>c' \<le> c. dst v = Some c')) \<or> (\<exists>(x, y) \<in> set pq. x \<le> c)"
proof -
  have heap: "heap_ok visited dst pq" and sett: "settled A visited dst pq" and tr: "traced A s visited dst prev"
    using inv by (simp_all add: dijkstra_inv_def)
  from assms(3) show ?thesis
  proof (induction rule: walk_cost.induct)
    case here
    have "dst s = Some 0" using tr by (simp add: traced_def)
    then show ?case using heap unfolding heap_ok_def by blast
  next
    case (go p u c v w t)
    have "0 \<le> w" using go.hyps(2) pos unfolding nonneg_weights_def by blast
    then have grow: "c \<le> fl (c + w)" by (rule cost_grows [OF walk_rep [OF go.hyps(1)]])
    from go.IH show ?case
    proof
      assume "u \<in> set visited \<and> (\<exists>c' \<le> c. dst u = Some c')"
      then obtain c' where c': "u \<in> set visited" "c' \<le> c" "dst u = Some c'" by blast
      then obtain c1 where c1: "dst v = Some c1" "c1 \<le> fl (c' + w)"
        using sett go.hyps(2) unfolding settled_def by fastforce
      then have "c1 \<le> fl (c + w)" using cost_mono [OF c'(2)] by (meson order_trans)
      with c1(1) show ?thesis using heap unfolding heap_ok_def by blast
    next
      assume "\<exists>(x, y) \<in> set pq. x \<le> c"
      with grow show ?thesis by (blast intro: order_trans)
    qed
  qed
qed

lemma path_trace:
  assumes tr: "traced A s visited dst prev" and "dst v = Some c" and "\<forall>u. prev v = Some u \<longrightarrow> u \<in> set (take n visited)"
  shows "\<exists>p. walk_cost A s p v c \<and> (\<forall>acc. path_loop prev v acc = Some (acc @ rev p))"
  using assms(2,3)
proof (induction n arbitrary: v c rule: less_induct)
  case (less n)
  show ?case
  proof (cases "v = s")
    case True
    then have "c = 0" "prev v = None" using tr less.prems(1) unfolding traced_def by simp_all
    then show ?thesis using True walk_cost.here [of A s] by (intro exI [of _ "[s]"]) (simp add: path_loop.simps)
  next
    case False
    then obtain u w t cu where u: "prev v = Some u" "(v, w, t) \<in> set (neighbours A u)" "dst u = Some cu" "c = fl (cu + w)"
      using tr less.prems(1) unfolding traced_def by metis
    then obtain i where i: "i < n" "i < length visited" "u = visited ! i"
      using less.prems(2) by (auto simp: in_set_conv_nth)
    then have "\<forall>x. prev u = Some x \<longrightarrow> x \<in> set (take i visited)" using tr unfolding traced_def by blast
    from less.IH [OF i(1) u(3) this] obtain p where
      p: "walk_cost A s p u cu" "\<forall>acc. path_loop prev u acc = Some (acc @ rev p)" by blast
    have "walk_cost A s (p @ [v]) v c" unfolding u(4) by (rule walk_cost.go [OF p(1) u(2)])
    moreover have "\<forall>acc. path_loop prev v acc = Some (acc @ rev (p @ [v]))"
      using p(2) u(1) by (simp add: path_loop.simps [of prev v])
    ultimately show ?thesis by blast
  qed
qed

text \<open>C5: When no weight is negative, the search for a shortest path returns: None exactly when no
  walk leads from the start to the target, and otherwise a walk between them together with its
  cost, which is least among the costs of all walks, the cost of a walk being the float sum of
  its weights in their order.\<close>

theorem shortest_path_optimal:
  assumes "nonneg_weights A"
  shows "(shortest_path A s t = Some None \<and> (\<nexists>p c. walk_cost A s p t c))
    \<or> (\<exists>p c. shortest_path A s t = Some (Some (p, c)) \<and> walk_cost A s p t c
         \<and> (\<forall>p' c'. walk_cost A s p' t c' \<longrightarrow> c \<le> c'))"
proof -
  obtain dst prev where r: "dijkstra_loop A t [] ([s \<mapsto> 0], \<lambda>_. None, [(0, s)]) = (dst, prev)" by (metis surj_pair)
  from dijkstra_loop_inv [OF assms dijkstra_init _ r] obtain visited pq where
    inv: "dijkstra_inv A s visited (dst, prev, pq)"
    and stop: "pq = [] \<or> (t \<notin> set visited \<and> snd (min_list pq) = t \<and> pq \<noteq> [])" by auto
  have heap: "heap_ok visited dst pq" and tr: "traced A s visited dst prev"
    using inv by (simp_all add: dijkstra_inv_def)
  have best: "\<exists>c' \<le> c. dst t = Some c'" if w: "walk_cost A s p t c" for p c
  proof (cases "pq = []")
    case True
    with walk_covered [OF inv assms w] show ?thesis by simp
  next
    case False
    with stop have t: "t \<notin> set visited" "snd (min_list pq) = t" by simp_all
    then obtain d where top: "(d, t) = min_list pq" by (metis prod.collapse)
    note m = dijkstra_top [OF inv top False t(1)]
    obtain x y where "(x, y) \<in> set pq" "x \<le> c" using walk_covered [OF inv assms w] t(1) by blast
    with m(3) have "d \<le> c" by (blast intro: order_trans)
    with m(1) show ?thesis by blast
  qed
  show ?thesis
  proof (cases "dst t")
    case None
    with best have "\<nexists>p c. walk_cost A s p t c" by fastforce
    then show ?thesis using None r by (simp add: shortest_path_def)
  next
    case (Some c)
    have "\<forall>u. prev t = Some u \<longrightarrow> u \<in> set (take (length visited) visited)"
      using tr Some unfolding traced_def by (cases "t = s") fastforce+
    from path_trace [OF tr Some this] obtain p where
      p: "walk_cost A s p t c" "path_loop prev t [] = Some (rev p)" by fastforce
    have "shortest_path A s t = Some (Some (p, c))" using Some r p(2) by (simp add: shortest_path_def)
    moreover have "\<forall>p' c'. walk_cost A s p' t c' \<longrightarrow> c \<le> c'" using best Some by fastforce
    ultimately show ?thesis using p(1) by blast
  qed
qed

text \<open>A graph in which the direct edge is not the best way.\<close>

definition detour :: "nat adj" where
  "detour = adjacency_map [1, 2, 3]
     [\<lparr>source_id = 1, target_id = 3, edge_type = ''RELATED_TO'', weight = Some 5\<rparr>,
      \<lparr>source_id = 1, target_id = 2, edge_type = ''RELATED_TO'', weight = None\<rparr>,
      \<lparr>source_id = 2, target_id = 3, edge_type = ''RELATED_TO'', weight = Some 1\<rparr>] True"

lemma detour: "detour = [(1, [(3, 5, ''RELATED_TO''), (2, 1, ''RELATED_TO'')]), (2, [(3, 1, ''RELATED_TO'')]), (3, [])]"
  by (simp add: detour_def adjacency_map_def add_edge_def Let_def add_neighbour_def neighbours_def edge_weight_def)

theorem shortest_path_optimal_witness:
  "shortest_path detour 1 3 = Some (Some ([1, 2, 3], 2)) \<and> walk_cost detour 1 [1, 2, 3] 3 2
   \<and> (\<nexists>p c. walk_cost detour 1 p 3 c \<and> c < 2)"
proof -
  have r: "shortest_path detour 1 3 = Some (Some ([1, 2, 3], 2))"
    by (simp add: shortest_path_def detour dijkstra_loop.simps path_loop.simps neighbours_def Let_def less_eq_prod_def)
  have "nonneg_weights detour" by (auto simp add: nonneg_weights_def detour neighbours_def)
  from shortest_path_optimal [OF this, of 1 3] r show ?thesis by fastforce
qed

section \<open>Negative weights\<close>

lemma path_loop_ends:
  assumes "path_loop prev u acc = Some r" and "\<forall>u \<in> S. \<exists>x \<in> S. prev u = Some x"
  shows "u \<notin> S"
proof -
  have "(\<forall>u \<in> S. \<exists>x \<in> S. prev u = Some x) \<longrightarrow> u \<notin> S"
    using assms(1)
    by (rule path_loop.raw_induct [rotated]) (fastforce split: option.splits)
  with assms(2) show ?thesis by blast
qed

lemma cheap_edge_loop: "\<exists>dst prev. dijkstra_loop cheap_edge 3 [] ([1 \<mapsto> 0], \<lambda>_. None, [(0, 1)]) = (dst, prev)
   \<and> dst 3 = Some 0 \<and> prev 3 = Some 2 \<and> prev 2 = Some 1 \<and> prev 1 = Some 2"
  by (simp add: cheap_edge dijkstra_loop.simps neighbours_def Let_def less_eq_prod_def)

text \<open>A negative weight can make the search for a shortest path run forever: the nodes 1 and 2
  become each other's predecessor, and the loop that follows the predecessors back from the
  target never reaches the start.\<close>

theorem shortest_path_may_not_return: "shortest_path cheap_edge 1 3 = None"
proof -
  obtain dst prev where r: "dijkstra_loop cheap_edge 3 [] ([1 \<mapsto> 0], \<lambda>_. None, [(0, 1)]) = (dst, prev)"
    and p: "dst 3 = Some 0" "prev 3 = Some 2" "prev 2 = Some 1" "prev 1 = Some 2" using cheap_edge_loop by blast
  have "path_loop prev 3 [] = None"
    using path_loop_ends [of prev 3 "[]" _ "{1, 2, 3}"] p by (cases "path_loop prev 3 []") auto
  then show ?thesis using r p(1) by (simp add: shortest_path_def)
qed

end
