(* ===== verification/GraphStore.thy ===== *)
theory GraphStore
  imports Graph StateMachine
begin

text \<open>
  The store of the knowledge graph (\<open>app/knowledge_graph/store.py\<close>, \<open>repository.py\<close>) and the
  manager in front of it (\<open>manager.py\<close>). The manager talks to the store through the operations
  of the interface \<open>GraphStore\<close>, a record; \<open>PostgresGraphStore\<close> is one value of it, over the two
  tables. Ids are UUIDs: \<open>u n\<close> is the \<open>n\<close>-th that is drawn. The text of a JSON column is taken
  to be lossless, \<open>None\<close> being SQL's null. A failed flush leaves the tables as they were.
\<close>

section \<open>Rows\<close>

record 'i node_row =
  node_id :: 'i
  node_type :: string
  node_key :: string
  node_label :: string
  node_attributes :: "json option"
  node_embedding :: "rat list option"

record 'i edge_row = "'i edge" +
  edge_id :: 'i
  edge_attributes :: "json option"

datatype graph_error = NotFoundError | GraphValidationError | IntegrityError | KeyError

section \<open>The interface of the store\<close>

record ('i, 's) graph_store_ops =
  op_get_node :: "string \<Rightarrow> string \<Rightarrow> 's \<Rightarrow> 'i node_row option"
  op_get_node_by_id :: "'i \<Rightarrow> 's \<Rightarrow> 'i node_row option"
  op_upsert_node :: "string \<Rightarrow> string \<Rightarrow> string \<Rightarrow> json option \<Rightarrow> rat list option \<Rightarrow> ('s, graph_error, 'i node_row) act"
  op_delete_node :: "'i \<Rightarrow> ('s, graph_error, bool) act"
  op_all_nodes :: "'s \<Rightarrow> 'i node_row list"
  op_get_edge :: "'i \<Rightarrow> 'i \<Rightarrow> string \<Rightarrow> 's \<Rightarrow> 'i edge_row option"
  op_create_edge :: "'i \<Rightarrow> 'i \<Rightarrow> string \<Rightarrow> rat \<Rightarrow> json option \<Rightarrow> ('s, graph_error, 'i edge_row) act"
  op_delete_edge :: "'i \<Rightarrow> ('s, graph_error, bool) act"
  op_all_edges :: "'s \<Rightarrow> 'i edge_row list"

section \<open>The relational store\<close>

text \<open>The two tables and the number of UUIDs drawn.\<close>

record 'i graph_db =
  graph_nodes :: "'i node_row list"
  graph_edges :: "'i edge_row list"
  drawn :: nat

definition pg_get_node :: "string \<Rightarrow> string \<Rightarrow> 'i graph_db \<Rightarrow> 'i node_row option" where
  "pg_get_node nt k db = find (\<lambda>n. node_type n = nt \<and> node_key n = k) (graph_nodes db)"

definition pg_get_node_by_id :: "'i \<Rightarrow> 'i graph_db \<Rightarrow> 'i node_row option" where
  "pg_get_node_by_id i db = find (\<lambda>n. node_id n = i) (graph_nodes db)"

definition pg_upsert_node ::
  "(nat \<Rightarrow> 'i) \<Rightarrow> string \<Rightarrow> string \<Rightarrow> string \<Rightarrow> json option \<Rightarrow> rat list option
    \<Rightarrow> ('i graph_db, graph_error, 'i node_row) act" where
  "pg_upsert_node u nt k label attributes embedding db =
     (case pg_get_node nt k db of
        None \<Rightarrow>
          (let node = \<lparr>node_id = u (drawn db), node_type = nt, node_key = k, node_label = label,
                       node_attributes = attributes, node_embedding = embedding\<rparr> in
           (Inr node, db\<lparr>graph_nodes := graph_nodes db @ [node], drawn := Suc (drawn db)\<rparr>))
      | Some node \<Rightarrow>
          (let node = node\<lparr>node_label := label, node_attributes := attributes, node_embedding := embedding\<rparr> in
           (Inr node, db\<lparr>graph_nodes := map (\<lambda>n. if node_id n = node_id node then node else n) (graph_nodes db)\<rparr>)))"

text \<open>The edges of a node go with it, \<open>ondelete="CASCADE"\<close>.\<close>

definition pg_delete_node :: "'i \<Rightarrow> ('i graph_db, graph_error, bool) act" where
  "pg_delete_node i db =
     (case pg_get_node_by_id i db of
        None \<Rightarrow> (Inr False, db)
      | Some node \<Rightarrow>
          (Inr True, db\<lparr>graph_nodes := filter (\<lambda>n. node_id n \<noteq> node_id node) (graph_nodes db),
             graph_edges := filter (\<lambda>e. source_id e \<noteq> node_id node \<and> target_id e \<noteq> node_id node) (graph_edges db)\<rparr>))"

definition pg_get_edge :: "'i \<Rightarrow> 'i \<Rightarrow> string \<Rightarrow> 'i graph_db \<Rightarrow> 'i edge_row option" where
  "pg_get_edge s t et db = find (\<lambda>e. source_id e = s \<and> target_id e = t \<and> edge_type e = et) (graph_edges db)"

text \<open>The foreign keys refuse an edge between rows that do not exist.\<close>

definition pg_create_edge ::
  "(nat \<Rightarrow> 'i) \<Rightarrow> 'i \<Rightarrow> 'i \<Rightarrow> string \<Rightarrow> rat \<Rightarrow> json option \<Rightarrow> ('i graph_db, graph_error, 'i edge_row) act" where
  "pg_create_edge u s t et w attributes db =
     (case pg_get_edge s t et db of
        None \<Rightarrow>
          (if pg_get_node_by_id s db = None \<or> pg_get_node_by_id t db = None then (Inl IntegrityError, db)
           else
             (let edge = \<lparr>source_id = s, target_id = t, edge_type = et, weight = Some w,
                          edge_id = u (drawn db), edge_attributes = attributes\<rparr> in
              (Inr edge, db\<lparr>graph_edges := graph_edges db @ [edge], drawn := Suc (drawn db)\<rparr>)))
      | Some edge \<Rightarrow>
          (let edge = edge\<lparr>weight := Some w, edge_attributes := attributes\<rparr> in
           (Inr edge, db\<lparr>graph_edges := map (\<lambda>e. if edge_id e = edge_id edge then edge else e) (graph_edges db)\<rparr>)))"

definition pg_delete_edge :: "'i \<Rightarrow> ('i graph_db, graph_error, bool) act" where
  "pg_delete_edge i db =
     (case find (\<lambda>e. edge_id e = i) (graph_edges db) of
        None \<Rightarrow> (Inr False, db)
      | Some edge \<Rightarrow> (Inr True, db\<lparr>graph_edges := filter (\<lambda>e. edge_id e \<noteq> edge_id edge) (graph_edges db)\<rparr>))"

definition postgres_store :: "(nat \<Rightarrow> 'i) \<Rightarrow> ('i, 'i graph_db) graph_store_ops" where
  "postgres_store u =
     \<lparr>op_get_node = pg_get_node, op_get_node_by_id = pg_get_node_by_id, op_upsert_node = pg_upsert_node u,
      op_delete_node = pg_delete_node, op_all_nodes = graph_nodes, op_get_edge = pg_get_edge,
      op_create_edge = pg_create_edge u, op_delete_edge = pg_delete_edge, op_all_edges = graph_edges\<rparr>"

section \<open>The manager\<close>

record node_create =
  nc_node_type :: string
  nc_key :: string
  nc_label :: string
  nc_attributes :: json
  nc_embedding :: "rat list option"

record 'i edge_create =
  ec_source :: 'i
  ec_target :: 'i
  ec_edge_type :: string
  ec_weight :: rat
  ec_attributes :: json

definition create_node :: "('i, 's) graph_store_ops \<Rightarrow> node_create \<Rightarrow> ('s, graph_error, 'i node_row) act" where
  "create_node G r = op_upsert_node G (nc_node_type r) (nc_key r) (nc_label r) (Some (nc_attributes r)) (nc_embedding r)"

fun mapA :: "('a \<Rightarrow> ('s, 'e, 'b) act) \<Rightarrow> 'a list \<Rightarrow> ('s, 'e, 'b list) act" where
  "mapA f [] = retA []"
| "mapA f (x # xs) = bindA (f x) (\<lambda>y. bindA (mapA f xs) (\<lambda>ys. retA (y # ys)))"

definition bulk_create_nodes ::
  "nat \<Rightarrow> ('i, 's) graph_store_ops \<Rightarrow> node_create list \<Rightarrow> ('s, graph_error, 'i node_row list) act" where
  "bulk_create_nodes max_batch_size G rs =
     (if max_batch_size < length rs then failA GraphValidationError else mapA (create_node G) rs)"

definition get_node :: "('i, 's) graph_store_ops \<Rightarrow> string \<Rightarrow> string \<Rightarrow> ('s, graph_error, 'i node_row) act" where
  "get_node G nt k = bindA (readA (op_get_node G nt k)) (\<lambda>n. case n of None \<Rightarrow> failA NotFoundError | Some n \<Rightarrow> retA n)"

definition add_edge_request :: "('i, 's) graph_store_ops \<Rightarrow> 'i edge_create \<Rightarrow> ('s, graph_error, 'i edge_row) act" where
  "add_edge_request G r =
     bindA (readA (op_get_node_by_id G (ec_source r))) (\<lambda>src.
     bindA (readA (op_get_node_by_id G (ec_target r))) (\<lambda>tgt.
       case (src, tgt) of
         (Some src, Some tgt) \<Rightarrow>
           if node_id src = node_id tgt then failA GraphValidationError
           else op_create_edge G (node_id src) (node_id tgt) (ec_edge_type r) (ec_weight r) (Some (ec_attributes r))
       | _ \<Rightarrow> failA NotFoundError))"

definition bulk_create_edges ::
  "nat \<Rightarrow> ('i, 's) graph_store_ops \<Rightarrow> 'i edge_create list \<Rightarrow> ('s, graph_error, 'i edge_row list) act" where
  "bulk_create_edges max_batch_size G rs =
     (if max_batch_size < length rs then failA GraphValidationError else mapA (add_edge_request G) rs)"

text \<open>\<open>edges[offset:offset + limit]\<close>, the API passing values that are not negative\<close>

definition list_edges :: "('i, 's) graph_store_ops \<Rightarrow> nat \<Rightarrow> nat \<Rightarrow> 's \<Rightarrow> 'i edge_row list \<times> nat" where
  "list_edges G limit offset s =
     (let edges = op_all_edges G s in (take limit (drop offset edges), length edges))"

definition load_graph :: "('i, 's) graph_store_ops \<Rightarrow> 's \<Rightarrow> 'i adj" where
  "load_graph G s = adjacency_map (map node_id (op_all_nodes G s)) (map edge.truncate (op_all_edges G s)) False"

definition label_for :: "'i node_row \<Rightarrow> string" where
  "label_for n = (if node_label n \<noteq> [] then node_label n else node_key n)"

text \<open>\<open>nodes_by_id[nid]\<close>\<close>

definition row_of :: "('i, 's) graph_store_ops \<Rightarrow> 's \<Rightarrow> 'i \<Rightarrow> graph_error + 'i node_row" where
  "row_of G s i = (case map_of (rev (map (\<lambda>n. (node_id n, n)) (op_all_nodes G s))) i of
     None \<Rightarrow> Inl KeyError | Some n \<Rightarrow> Inr n)"

text \<open>Node id, type, label and depth, in a stable order of the depths.\<close>

definition traversal ::
  "int \<Rightarrow> ('i, 's) graph_store_ops \<Rightarrow> string \<Rightarrow> string \<Rightarrow> int option
    \<Rightarrow> ('s, graph_error, ('i \<times> string \<times> string \<times> nat) list) act" where
  "traversal traversal_max_depth G nt k max_depth =
     bindA (get_node G nt k) (\<lambda>node s.
       let depth = (case max_depth of None \<Rightarrow> traversal_max_depth | Some m \<Rightarrow> m);
           (depth_map, _, _) = bfs (load_graph G s) (node_id node) (Some depth) in
       (mapR (\<lambda>(i, d). bindR (row_of G s i) (\<lambda>n. Inr (i, node_type n, label_for n, d)))
          (sort_key snd depth_map), s))"

text \<open>The outer \<open>None\<close>: does not return. The path found, if any, with its rounded weight.\<close>

definition path_request ::
  "('i::linorder, 's) graph_store_ops \<Rightarrow> 'i \<Rightarrow> 'i \<Rightarrow> 's
    \<Rightarrow> (graph_error + ((nat \<times> 'i \<times> string \<times> string) list \<times> rat) option) option" where
  "path_request G source target s =
     (case (op_get_node_by_id G source s, op_get_node_by_id G target s) of
        (Some src, Some tgt) \<Rightarrow>
          do { r \<leftarrow> shortest_path (load_graph G s) (node_id src) (node_id tgt);
               Some (case r of
                 None \<Rightarrow> Inr None
               | Some (path, w) \<Rightarrow>
                   bindR (mapR (\<lambda>(i, v). bindR (row_of G s v) (\<lambda>n. Inr (i, v, node_type n, label_for n)))
                            (enumerate 0 path))
                     (\<lambda>steps. Inr (Some (steps, round_float 4 w)))) }
      | _ \<Rightarrow> Some (Inl NotFoundError))"

text \<open>Without embeddings on both sides, \<open>similarity\<close> compares the neighbourhoods.\<close>

definition neighbourhood_similarity ::
  "('i, 's) graph_store_ops \<Rightarrow> 'i \<Rightarrow> 'i \<Rightarrow> ('s, graph_error, rat) act" where
  "neighbourhood_similarity G source target =
     bindA (readA (op_get_node_by_id G source)) (\<lambda>src.
     bindA (readA (op_get_node_by_id G target)) (\<lambda>tgt.
       case (src, tgt) of
         (Some src, Some tgt) \<Rightarrow>
           readA (\<lambda>s. round_float 4 (neighbor_similarity (load_graph G s) (node_id src) (node_id tgt)))
       | _ \<Rightarrow> failA NotFoundError))"

text \<open>The numbers of nodes and edges, of each type and in all, and of components.\<close>

definition graph_stats ::
  "('i, 's) graph_store_ops \<Rightarrow> 's \<Rightarrow> nat \<times> nat \<times> (string \<Rightarrow> nat) \<times> (string \<Rightarrow> nat) \<times> nat" where
  "graph_stats G s =
     (let nodes = op_all_nodes G s; edges = op_all_edges G s in
      (length nodes, length edges,
       \<lambda>t. length (filter (\<lambda>n. node_type n = t) nodes), \<lambda>t. length (filter (\<lambda>e. edge_type e = t) edges),
       length (connected_components (load_graph G s))))"

end
