(* ===== verification/Components.thy ===== *)
theory Components
  imports GraphProps
begin

text \<open>
  The connected components of an undirected graph are the classes of connectedness, each
  reported once.
\<close>

section \<open>The adjacency map of an undirected graph\<close>

definition adjacent :: "'a adj \<Rightarrow> 'a \<Rightarrow> 'a set" where
  "adjacent A u = fst ` set (neighbours A u)"

lemma neighbours_add: "neighbours (add_neighbour k x A) j = (if j = k then neighbours A j @ [x] else neighbours A j)"
  by (simp add: add_neighbour_def neighbours_def update_conv')

lemma adjacent_add: "adjacent (add_neighbour k x A) j = (if j = k then insert (fst x) (adjacent A j) else adjacent A j)"
  by (simp add: adjacent_def neighbours_add)

lemma keys_add: "fst ` set (add_neighbour k x A) = insert k (fst ` set A)"
  by (simp add: add_neighbour_def dom_update)

definition undirected :: "'a adj \<Rightarrow> bool" where
  "undirected A \<longleftrightarrow> (\<forall>u v. v \<in> adjacent A u \<longrightarrow> u \<in> adjacent A v \<and> u \<in> fst ` set A \<and> v \<in> fst ` set A)"

lemma undirected_add_edge: "undirected A \<Longrightarrow> undirected (add_edge False e A)"
  unfolding undirected_def by (auto simp: add_edge_def Let_def adjacent_add keys_add)

lemma keys_add_edge: "fst ` set (add_edge False e A) = {source_id e, target_id e} \<union> fst ` set A"
  by (auto simp: add_edge_def Let_def keys_add)

lemma init_nodes:
  "fst ` set (fold (\<lambda>i A. AList.update i [] A) nodes A) = set nodes \<union> fst ` set A"
  "\<forall>u. neighbours A u = [] \<Longrightarrow> neighbours (fold (\<lambda>i A. AList.update i [] A) nodes A) u = []"
proof (induction nodes arbitrary: A)
  case (Cons x nodes)
  {
    case 1
    show ?case using Cons(1) [of "AList.update x [] A"] by (auto simp: dom_update)
  next
    case 2
    have "\<forall>u. neighbours (AList.update x [] A) u = []"
      using 2 by (auto simp: neighbours_def update_conv')
    with Cons(2) show ?case by simp
  }
qed simp_all

lemma adjacency_keys:
  "fst ` set (fold (add_edge False) edges A) = source_id ` set edges \<union> target_id ` set edges \<union> fst ` set A"
  by (induction edges arbitrary: A) (auto simp: keys_add_edge)

lemma adjacency_undirected: "undirected A \<Longrightarrow> undirected (fold (add_edge False) edges A)"
  by (induction edges arbitrary: A) (simp_all add: undirected_add_edge)

section \<open>Connectedness\<close>

definition class_of :: "'a adj \<Rightarrow> 'a \<Rightarrow> 'a set" where
  "class_of A u = {v. \<exists>n. hops A u n v}"

definition closed_under :: "'a adj \<Rightarrow> 'a set \<Rightarrow> bool" where
  "closed_under A S \<longleftrightarrow> (\<forall>u \<in> S. adjacent A u \<subseteq> S)"

lemma class_self [simp]: "u \<in> class_of A u"
  unfolding class_of_def by (blast intro: hops.zero)

lemma class_step: "v \<in> class_of A u \<Longrightarrow> w \<in> adjacent A v \<Longrightarrow> w \<in> class_of A u"
  unfolding class_of_def adjacent_def by (blast intro: hops.step)

lemma class_closed: "closed_under A (class_of A u)"
  unfolding closed_under_def by (intro ballI subsetI) (rule class_step)

lemma closed_class: "closed_under A S \<Longrightarrow> u \<in> S \<Longrightarrow> class_of A u \<subseteq> S"
proof
  fix v assume S: "closed_under A S" "u \<in> S" and "v \<in> class_of A u"
  then obtain n where "hops A u n v" unfolding class_of_def by blast
  then show "v \<in> S"
  proof (induction rule: hops.induct)
    case (step n x w)
    have "adjacent A x \<subseteq> S" using S(1) step.IH unfolding closed_under_def by simp
    with step.hyps(2) show ?case unfolding adjacent_def by (rule subsetD [rotated])
  qed (rule S(2))
qed

lemma class_trans: "v \<in> class_of A u \<Longrightarrow> class_of A v \<subseteq> class_of A u"
  by (rule closed_class [OF class_closed])

lemma class_sym:
  assumes "undirected A" and "v \<in> class_of A u"
  shows "u \<in> class_of A v"
proof -
  obtain n where "hops A u n v" using assms(2) unfolding class_of_def by blast
  then show ?thesis
  proof (induction rule: hops.induct)
    case (step n x w)
    then have "x \<in> adjacent A w" using assms(1) by (auto simp: undirected_def adjacent_def)
    then have "x \<in> class_of A w" by (rule class_step [OF class_self])
    then show ?case using step.IH by (rule subsetD [OF class_trans])
  qed simp
qed

lemma class_eq: "undirected A \<Longrightarrow> v \<in> class_of A u \<Longrightarrow> class_of A v = class_of A u"
  by (rule antisym) (erule class_trans, rule class_trans, erule (1) class_sym)

section \<open>The search\<close>

declare component_loop.simps [simp del]

lemma component_loop_result:
  "component_loop A stack (seen, cc) = (seen', cc') \<Longrightarrow>
   \<exists>new. seen' = seen \<union> new \<and> cc' = cc \<union> new \<and> new \<inter> seen = {} \<and> set stack \<subseteq> seen'
     \<and> (\<forall>u \<in> new. adjacent A u \<subseteq> seen' \<and> (\<exists>x \<in> set stack. u \<in> class_of A x))"
proof (induction A stack "(seen, cc)" arbitrary: seen cc rule: component_loop.induct)
  case (1 A stack seen cc)
  show ?case
  proof (cases "stack = []")
    case True
    then show ?thesis using 1(3) by (simp add: component_loop.simps)
  next
    case False
    let ?cur = "last stack" and ?rest = "butlast stack"
    have st: "set stack = insert ?cur (set ?rest)"
      using arg_cong [OF append_butlast_last_id [OF False], of set] by simp
    note loop = 1(3) [unfolded component_loop.simps [of A stack seen cc] if_not_P [OF False] Let_def]
    show ?thesis
    proof (cases "?cur \<in> seen")
      case True
      with loop have "component_loop A ?rest (seen, cc) = (seen', cc')" by simp
      from 1(1) [OF False refl refl True this] obtain new where "seen' = seen \<union> new" "cc' = cc \<union> new"
        "new \<inter> seen = {}" "set ?rest \<subseteq> seen'"
        "\<forall>u \<in> new. adjacent A u \<subseteq> seen' \<and> (\<exists>x \<in> set ?rest. u \<in> class_of A x)" by blast
      with True st show ?thesis by (intro exI [of _ new]) auto
    next
      case new: False
      with loop have "component_loop A (?rest @ map fst (neighbours A ?cur)) (insert ?cur seen, insert ?cur cc) = (seen', cc')"
        by simp
      from 1(2) [OF False refl refl new this] obtain N where
        N: "seen' = insert ?cur seen \<union> N" "cc' = insert ?cur cc \<union> N" "N \<inter> insert ?cur seen = {}"
          "set ?rest \<union> adjacent A ?cur \<subseteq> seen'"
          "\<forall>u \<in> N. adjacent A u \<subseteq> seen' \<and> (\<exists>x \<in> set ?rest \<union> adjacent A ?cur. u \<in> class_of A x)"
        by (auto simp: adjacent_def)
      have "\<exists>x \<in> set stack. u \<in> class_of A x" if "u \<in> insert ?cur N" for u
      proof (cases "u = ?cur")
        case False
        with that N(5) obtain x where x: "x \<in> set ?rest \<union> adjacent A ?cur" "u \<in> class_of A x" by blast
        have "u \<in> class_of A ?cur" if "x \<in> adjacent A ?cur"
          using subsetD [OF class_trans [OF class_step [OF class_self that]] x(2)] .
        with x(1) have "x \<in> set ?rest \<or> u \<in> class_of A ?cur" by blast
        with x(2) st show ?thesis by blast
      qed (use st in auto)
      with N st new show ?thesis by (intro exI [of _ "insert ?cur N"]) auto
    qed
  qed
qed

lemma component_loop_class:
  assumes A: "undirected A" and seen: "closed_under A seen" "node \<notin> seen"
  shows "component_loop A [node] (seen, {}) = (seen \<union> class_of A node, class_of A node)"
proof -
  obtain seen' cc' where r: "component_loop A [node] (seen, {}) = (seen', cc')" by (metis surj_pair)
  from component_loop_result [OF r] obtain new where
    new: "seen' = seen \<union> new" "cc' = new" "new \<inter> seen = {}" "node \<in> seen'"
      "\<forall>u \<in> new. adjacent A u \<subseteq> seen' \<and> u \<in> class_of A node" by auto
  have "closed_under A seen'" using new(1,5) seen(1) unfolding closed_under_def by blast
  then have "class_of A node \<subseteq> seen'" using new(4) by (rule closed_class)
  moreover have "class_of A node \<inter> seen = {}"
  proof (rule ccontr)
    assume "class_of A node \<inter> seen \<noteq> {}"
    then obtain x where "x \<in> class_of A node" "x \<in> seen" by blast
    with class_sym [OF A this(1)] closed_class [OF seen(1) this(2)] seen(2) show False by (metis subsetD)
  qed
  ultimately have "new = class_of A node" using new(1,5) by blast
  with r new(1,2) show ?thesis by simp
qed

lemma closed_Un: "closed_under A S \<Longrightarrow> closed_under A T \<Longrightarrow> closed_under A (S \<union> T)"
  by (auto simp: closed_under_def)

lemma components_from_classes:
  assumes "undirected A"
  shows "closed_under A seen \<Longrightarrow> set (components_from A nodes seen) = class_of A ` (set nodes - seen)
    \<and> distinct (components_from A nodes seen)"
proof (induction nodes arbitrary: seen)
  case (Cons node nodes)
  show ?case
  proof (cases "node \<in> seen")
    case False
    let ?seen = "seen \<union> class_of A node"
    have eq: "components_from A (node # nodes) seen = class_of A node # components_from A nodes ?seen"
      using False component_loop_class [OF assms Cons(2) False] by simp
    have IH: "set (components_from A nodes ?seen) = class_of A ` (set nodes - ?seen)"
      "distinct (components_from A nodes ?seen)"
      using Cons(1) closed_Un [OF Cons(2) class_closed] by blast+
    have "class_of A node \<notin> class_of A ` (set nodes - ?seen)" using class_self by fastforce
    moreover have "class_of A ` (set (node # nodes) - seen) = insert (class_of A node) (class_of A ` (set nodes - ?seen))"
      using False class_eq [OF assms] by auto
    ultimately show ?thesis using IH eq by simp
  qed (use Cons in simp)
qed simp

text \<open>C11: The connected components of an undirected graph are the classes of connectedness of all
  the nodes, those that only edges name included, and each is reported once.\<close>

theorem connected_components_classes:
  "distinct (connected_components (adjacency_map nodes edges False))
   \<and> set (connected_components (adjacency_map nodes edges False))
     = (\<lambda>u. {v. \<exists>n. hops (adjacency_map nodes edges False) u n v})
         ` (set nodes \<union> source_id ` set edges \<union> target_id ` set edges)"
proof -
  let ?A = "adjacency_map nodes edges False"
  have init: "undirected (fold (\<lambda>i A. AList.update i [] A) nodes ([] :: 'a adj))"
    using init_nodes(2) [of "[]" nodes] by (simp add: undirected_def adjacent_def neighbours_def)
  have "undirected ?A" unfolding adjacency_map_def by (rule adjacency_undirected [OF init])
  moreover have "set (map fst ?A) = set nodes \<union> source_id ` set edges \<union> target_id ` set edges"
    using init_nodes(1) [of nodes "[]"] by (auto simp: adjacency_map_def adjacency_keys)
  moreover have "closed_under ?A {}" by (simp add: closed_under_def)
  ultimately show ?thesis
    using components_from_classes [of ?A "{}" "map fst ?A"]
    by (simp add: connected_components_def class_of_def)
qed

end
