(* ===== verification/GraphStoreProps.thy ===== *)
theory GraphStoreProps
  imports GraphStore Components
begin

text \<open>
  The relational graph store implements an abstract graph in which a node is known by its type
  and key and an edge by its ends and its type; the traversal of the manager finds exactly the
  nodes within the depth.
\<close>

section \<open>Rows found by a key\<close>

lemma find_key:
  assumes "distinct (map k xs)"
  shows "find (\<lambda>x. k x = h) xs = Some x \<longleftrightarrow> x \<in> set xs \<and> k x = h"
  using assms by (induction xs) auto

lemma find_key_None: "find (\<lambda>x. k x = h) xs = None \<longleftrightarrow> h \<notin> k ` set xs"
  by (auto simp: find_None_iff)

lemma map_of_key:
  assumes "distinct (map k xs)"
  shows "map_of (map (\<lambda>x. (k x, v x)) xs) h = Some y \<longleftrightarrow> (\<exists>x \<in> set xs. k x = h \<and> v x = y)"
proof -
  have "distinct (map fst (map (\<lambda>x. (k x, v x)) xs))" using assms by (simp add: comp_def)
  then show ?thesis by (auto simp: map_of_eq_Some_iff)
qed

lemma map_eqI: "(\<And>k v. m k = Some v \<longleftrightarrow> m' k = Some v) \<Longrightarrow> m = m'"
  by (rule ext) (metis not_Some_eq)

lemma map_keep: "(\<And>x. x \<in> set xs \<Longrightarrow> g (f x) = g x) \<Longrightarrow> map g (map f xs) = map g xs"
  by simp

lemma key_absent: "h \<notin> k ` S \<Longrightarrow> {x \<in> S. k x \<noteq> h} = S"
  by auto

section \<open>The invariant of the tables\<close>

definition handle :: "'i node_row \<Rightarrow> string \<times> string" where
  "handle n = (node_type n, node_key n)"

definition edge_key :: "'i edge_row \<Rightarrow> 'i \<times> 'i \<times> string" where
  "edge_key e = (source_id e, target_id e, edge_type e)"

definition ids_used :: "'i graph_db \<Rightarrow> 'i set" where
  "ids_used db = node_id ` set (graph_nodes db) \<union> edge_id ` set (graph_edges db)"

definition graph_inv :: "(nat \<Rightarrow> 'i) \<Rightarrow> 'i graph_db \<Rightarrow> bool" where
  "graph_inv u db \<longleftrightarrow>
     distinct (map node_id (graph_nodes db)) \<and> distinct (map handle (graph_nodes db))
     \<and> distinct (map edge_id (graph_edges db)) \<and> distinct (map edge_key (graph_edges db))
     \<and> (\<forall>e \<in> set (graph_edges db). source_id e \<in> node_id ` set (graph_nodes db)
          \<and> target_id e \<in> node_id ` set (graph_nodes db) \<and> source_id e \<noteq> target_id e \<and> weight e \<noteq> None)
     \<and> ids_used db \<subseteq> u ` {..<drawn db}"

definition empty_graph :: "'i graph_db" where
  "empty_graph = \<lparr>graph_nodes = [], graph_edges = [], drawn = 0\<rparr>"

lemma empty_graph_inv [simp]: "graph_inv u empty_graph"
  by (simp add: graph_inv_def empty_graph_def ids_used_def)

lemma fresh_id: "inj u \<Longrightarrow> graph_inv u db \<Longrightarrow> u (drawn db) \<notin> ids_used db"
  unfolding graph_inv_def by (auto dest: injD)

lemma used_Suc: "S \<subseteq> u ` {..<n} \<Longrightarrow> insert (u n) S \<subseteq> u ` {..<Suc n}"
  by auto

lemma find_node:
  assumes "graph_inv u db"
  shows "pg_get_node nt k db = Some n \<longleftrightarrow> n \<in> set (graph_nodes db) \<and> handle n = (nt, k)"
  using find_key [of handle "graph_nodes db" "(nt, k)"] assms by (simp add: pg_get_node_def handle_def graph_inv_def)

lemma find_node_id:
  assumes "graph_inv u db"
  shows "pg_get_node_by_id i db = Some n \<longleftrightarrow> n \<in> set (graph_nodes db) \<and> node_id n = i"
  using find_key [of node_id "graph_nodes db" i] assms by (simp add: pg_get_node_by_id_def graph_inv_def)

lemma find_edge:
  assumes "graph_inv u db"
  shows "pg_get_edge s t et db = Some e \<longleftrightarrow> e \<in> set (graph_edges db) \<and> edge_key e = (s, t, et)"
  using find_key [of edge_key "graph_edges db" "(s, t, et)"] assms by (simp add: pg_get_edge_def edge_key_def graph_inv_def)

section \<open>The operations in terms of the sets of rows\<close>

lemma upsert_result:
  assumes "inj u" and inv: "graph_inv u db" and "pg_upsert_node u nt k l a e db = (r, db')"
  shows "graph_inv u db' \<and> graph_edges db' = graph_edges db
    \<and> (\<exists>n. r = Inr n \<and> handle n = (nt, k) \<and> node_label n = l \<and> node_attributes n = a \<and> node_embedding n = e
         \<and> set (graph_nodes db') = {m \<in> set (graph_nodes db). handle m \<noteq> (nt, k)} \<union> {n}
         \<and> (\<forall>m \<in> set (graph_nodes db). handle m = (nt, k) \<longrightarrow> node_id m = node_id n))"
proof (cases "pg_get_node nt k db")
  case None
  let ?n = "\<lparr>node_id = u (drawn db), node_type = nt, node_key = k, node_label = l, node_attributes = a, node_embedding = e\<rparr>"
  have r: "r = Inr ?n" "db' = db\<lparr>graph_nodes := graph_nodes db @ [?n], drawn := Suc (drawn db)\<rparr>"
    using assms(3) None by (simp_all add: pg_upsert_node_def Let_def)
  have new: "(nt, k) \<notin> handle ` set (graph_nodes db)"
    using None find_node [OF inv, of nt k] by (metis (no_types, lifting) imageE option.distinct(1))
  have fr: "u (drawn db) \<notin> ids_used db" by (rule fresh_id [OF assms(1) inv])
  have h: "handle ?n = (nt, k)" by (simp add: handle_def)
  have used: "ids_used db' = insert (u (drawn db)) (ids_used db)" by (auto simp: r ids_used_def)
  have "graph_inv u db'"
    using inv new fr used_Suc [of "ids_used db" u "drawn db"] unfolding graph_inv_def used
    by (simp add: r h) (auto simp: ids_used_def)
  moreover have "set (graph_nodes db') = {m \<in> set (graph_nodes db). handle m \<noteq> (nt, k)} \<union> {?n}"
    unfolding key_absent [OF new] by (simp add: r)
  moreover have "\<forall>m \<in> set (graph_nodes db). handle m = (nt, k) \<longrightarrow> node_id m = node_id ?n"
    using new by (metis imageI)
  ultimately show ?thesis using h by (intro conjI exI [of _ ?n]) (simp_all add: r)
next
  case (Some n0)
  let ?n = "n0\<lparr>node_label := l, node_attributes := a, node_embedding := e\<rparr>"
  let ?f = "\<lambda>n. if node_id n = node_id n0 then ?n else n"
  have r: "r = Inr ?n" "db' = db\<lparr>graph_nodes := map ?f (graph_nodes db)\<rparr>"
    using assms(3) Some by (simp_all add: pg_upsert_node_def Let_def)
  have n0: "n0 \<in> set (graph_nodes db)" "handle n0 = (nt, k)" using Some find_node [OF inv] by simp_all
  have h: "handle ?n = (nt, k)" using n0(2) by (simp add: handle_def)
  have eq: "m = n0" if "m \<in> set (graph_nodes db)" "node_id m = node_id n0 \<or> handle m = (nt, k)" for m
    using that n0 inv unfolding graph_inv_def distinct_map inj_on_def by metis
  have keep: "node_id (?f m) = node_id m" "handle (?f m) = handle m" if "m \<in> set (graph_nodes db)" for m
    using eq [OF that] h n0 by auto
  have rows: "graph_nodes db' = map ?f (graph_nodes db)" by (simp add: r)
  have maps: "map node_id (graph_nodes db') = map node_id (graph_nodes db)"
      "map handle (graph_nodes db') = map handle (graph_nodes db)"
    unfolding rows by (rule map_keep, erule keep)+
  have ids: "node_id ` set (graph_nodes db') = node_id ` set (graph_nodes db)"
    by (metis maps(1) set_map)
  have "graph_inv u db'"
    using inv unfolding graph_inv_def ids_used_def ids maps by (simp add: r)
  moreover have "set (graph_nodes db') = {m \<in> set (graph_nodes db). handle m \<noteq> (nt, k)} \<union> {?n}"
    using n0 eq by (auto simp: r)
  moreover have "\<forall>m \<in> set (graph_nodes db). handle m = (nt, k) \<longrightarrow> node_id m = node_id ?n" using eq by auto
  ultimately show ?thesis using h Some by (intro conjI exI [of _ ?n]) (simp_all add: r)
qed

lemma delete_node_result:
  assumes inv: "graph_inv u db" and "pg_delete_node i db = (r, db')"
  shows "graph_inv u db' \<and> set (graph_nodes db') = {n \<in> set (graph_nodes db). node_id n \<noteq> i}
    \<and> set (graph_edges db') = {e \<in> set (graph_edges db). source_id e \<noteq> i \<and> target_id e \<noteq> i}
    \<and> r = Inr (i \<in> node_id ` set (graph_nodes db))"
proof (cases "pg_get_node_by_id i db")
  case None
  then have i: "i \<notin> node_id ` set (graph_nodes db)"
    using find_node_id [OF inv, of i] by (metis (no_types, lifting) imageE option.distinct(1))
  moreover have "db' = db" "r = Inr False" using assms(2) None by (simp_all add: pg_delete_node_def)
  moreover have "source_id e \<noteq> i \<and> target_id e \<noteq> i" if "e \<in> set (graph_edges db)" for e
    using inv i that unfolding graph_inv_def by metis
  ultimately show ?thesis using inv by (auto intro: image_eqI)
next
  case (Some n)
  have n: "n \<in> set (graph_nodes db)" "node_id n = i" using Some find_node_id [OF inv] by simp_all
  have r: "r = Inr True" "db' = db\<lparr>graph_nodes := filter (\<lambda>n. node_id n \<noteq> i) (graph_nodes db),
      graph_edges := filter (\<lambda>e. source_id e \<noteq> i \<and> target_id e \<noteq> i) (graph_edges db)\<rparr>"
    using assms(2) Some n by (simp_all add: pg_delete_node_def)
  have "graph_inv u db'"
    using inv unfolding graph_inv_def r
    by (auto simp: distinct_map_filter ids_used_def)
  then show ?thesis using n by (auto simp: r)
qed

lemma create_edge_result:
  assumes "inj u" and inv: "graph_inv u db" and st: "s \<noteq> t"
    and ends: "s \<in> node_id ` set (graph_nodes db)" "t \<in> node_id ` set (graph_nodes db)"
    and "pg_create_edge u s t et w a db = (r, db')"
  shows "graph_inv u db' \<and> graph_nodes db' = graph_nodes db
    \<and> (\<exists>e. r = Inr e \<and> edge_key e = (s, t, et) \<and> weight e = Some w \<and> edge_attributes e = a
         \<and> set (graph_edges db') = {x \<in> set (graph_edges db). edge_key x \<noteq> (s, t, et)} \<union> {e})"
proof (cases "pg_get_edge s t et db")
  case None
  let ?e = "\<lparr>source_id = s, target_id = t, edge_type = et, weight = Some w, edge_id = u (drawn db), edge_attributes = a\<rparr>"
  have "pg_get_node_by_id s db \<noteq> None" "pg_get_node_by_id t db \<noteq> None"
    using ends find_node_id [OF inv] by force+
  then have r: "r = Inr ?e" "db' = db\<lparr>graph_edges := graph_edges db @ [?e], drawn := Suc (drawn db)\<rparr>"
    using assms(6) None by (auto simp: pg_create_edge_def Let_def)
  have new: "(s, t, et) \<notin> edge_key ` set (graph_edges db)"
    using None find_edge [OF inv, of s t et] by (metis (no_types, lifting) imageE option.distinct(1))
  have fr: "u (drawn db) \<notin> ids_used db" by (rule fresh_id [OF assms(1) inv])
  have k: "edge_key ?e = (s, t, et)" by (simp add: edge_key_def)
  have used: "ids_used db' = insert (u (drawn db)) (ids_used db)" by (auto simp: r ids_used_def)
  have "graph_inv u db'"
    using inv new fr st ends used_Suc [of "ids_used db" u "drawn db"] unfolding graph_inv_def used
    by (simp add: r k) (auto simp: ids_used_def)
  moreover have "set (graph_edges db') = {x \<in> set (graph_edges db). edge_key x \<noteq> (s, t, et)} \<union> {?e}"
    unfolding key_absent [OF new] by (simp add: r)
  ultimately show ?thesis using k by (intro conjI exI [of _ ?e]) (simp_all add: r)
next
  case (Some e0)
  let ?e = "e0\<lparr>weight := Some w, edge_attributes := a\<rparr>"
  let ?f = "\<lambda>e. if edge_id e = edge_id e0 then ?e else e"
  have r: "r = Inr ?e" "db' = db\<lparr>graph_edges := map ?f (graph_edges db)\<rparr>"
    using assms(6) Some by (simp_all add: pg_create_edge_def Let_def)
  have e0: "e0 \<in> set (graph_edges db)" "edge_key e0 = (s, t, et)" using Some find_edge [OF inv] by simp_all
  have k: "edge_key ?e = (s, t, et)" using e0(2) by (simp add: edge_key_def)
  have eq: "x = e0" if "x \<in> set (graph_edges db)" "edge_id x = edge_id e0 \<or> edge_key x = (s, t, et)" for x
    using that e0 inv unfolding graph_inv_def distinct_map inj_on_def by metis
  have keep: "edge_id (?f x) = edge_id x" "edge_key (?f x) = edge_key x" if "x \<in> set (graph_edges db)" for x
    using eq [OF that] k e0 by auto
  have rows: "graph_edges db' = map ?f (graph_edges db)" by (simp add: r)
  have maps: "map edge_id (graph_edges db') = map edge_id (graph_edges db)"
      "map edge_key (graph_edges db') = map edge_key (graph_edges db)"
    unfolding rows by (rule map_keep, erule keep)+
  have ids: "edge_id ` set (graph_edges db') = edge_id ` set (graph_edges db)"
    by (metis maps(1) set_map)
  have "\<forall>x \<in> set (graph_edges db'). source_id x \<in> node_id ` set (graph_nodes db)
          \<and> target_id x \<in> node_id ` set (graph_nodes db) \<and> source_id x \<noteq> target_id x \<and> weight x \<noteq> None"
    using inv e0(1) by (auto simp: r graph_inv_def)
  then have "graph_inv u db'"
    using inv unfolding graph_inv_def ids_used_def ids maps by (simp add: r)
  moreover have "set (graph_edges db') = {x \<in> set (graph_edges db). edge_key x \<noteq> (s, t, et)} \<union> {?e}"
    using e0 eq by (auto simp: r)
  ultimately show ?thesis using k by (intro conjI exI [of _ ?e]) (simp_all add: r)
qed

lemma delete_edge_result:
  assumes inv: "graph_inv u db" and "pg_delete_edge i db = (r, db')"
  shows "graph_inv u db' \<and> graph_nodes db' = graph_nodes db
    \<and> set (graph_edges db') = {e \<in> set (graph_edges db). edge_id e \<noteq> i}"
proof (cases "find (\<lambda>e. edge_id e = i) (graph_edges db)")
  case None
  then have "db' = db" using assms(2) by (simp add: pg_delete_edge_def)
  then show ?thesis using inv None by (auto simp: find_None_iff)
next
  case (Some e)
  then have "edge_id e = i" by (auto simp: find_Some_iff)
  then have r: "db' = db\<lparr>graph_edges := filter (\<lambda>e. edge_id e \<noteq> i) (graph_edges db)\<rparr>"
    using assms(2) Some by (simp add: pg_delete_edge_def)
  have "graph_inv u db'"
    using inv unfolding graph_inv_def r by (auto simp: distinct_map_filter ids_used_def)
  then show ?thesis by (auto simp: r)
qed

section \<open>The abstract graph\<close>

text \<open>
  A node is known by its type and its key and has a label, attributes and an embedding; an edge
  by its ends and its type and has a weight and attributes.
\<close>

type_synonym node_handle = "string \<times> string"
type_synonym node_data = "string \<times> json option \<times> rat list option"
type_synonym edge_data = "rat \<times> json option"
type_synonym abstract_graph =
  "(node_handle \<rightharpoonup> node_data) \<times> (node_handle \<times> node_handle \<times> string \<rightharpoonup> edge_data)"

datatype spec_op =
    SetNode node_handle node_data
  | DropNode node_handle
  | SetEdge "node_handle \<times> node_handle \<times> string" edge_data
  | DropEdge "node_handle \<times> node_handle \<times> string"
  | Keep

fun spec_step :: "spec_op \<Rightarrow> abstract_graph \<Rightarrow> abstract_graph" where
  "spec_step (SetNode h d) (N, E) = (N(h \<mapsto> d), E)"
| "spec_step (DropNode h) (N, E) = (N(h := None), \<lambda>(a, b, t). if a = h \<or> b = h then None else E (a, b, t))"
| "spec_step (SetEdge k d) (N, E) = (N, E(k \<mapsto> d))"
| "spec_step (DropEdge k) (N, E) = (N, E(k := None))"
| "spec_step Keep g = g"

text \<open>The operations of the manager that write, and what they mean for the abstract graph.\<close>

datatype 'i graph_op = CreateNode node_create | DeleteNode 'i | AddEdge "'i edge_create" | RemoveEdge 'i

fun exec_graph :: "(nat \<Rightarrow> 'i) \<Rightarrow> 'i graph_op \<Rightarrow> 'i graph_db \<Rightarrow> 'i graph_db" where
  "exec_graph u (CreateNode r) db = snd (create_node (postgres_store u) r db)"
| "exec_graph u (DeleteNode i) db = snd (op_delete_node (postgres_store u) i db)"
| "exec_graph u (AddEdge r) db = snd (add_edge_request (postgres_store u) r db)"
| "exec_graph u (RemoveEdge i) db = snd (op_delete_edge (postgres_store u) i db)"

definition handle_of :: "'i graph_db \<Rightarrow> 'i \<Rightarrow> node_handle option" where
  "handle_of db i = map_option handle (pg_get_node_by_id i db)"

definition abstract_key :: "'i graph_db \<Rightarrow> 'i edge_row \<Rightarrow> node_handle \<times> node_handle \<times> string" where
  "abstract_key db e = (the (handle_of db (source_id e)), the (handle_of db (target_id e)), edge_type e)"

fun abstract_op :: "'i graph_db \<Rightarrow> 'i graph_op \<Rightarrow> spec_op" where
  "abstract_op db (CreateNode r) =
     SetNode (nc_node_type r, nc_key r) (nc_label r, Some (nc_attributes r), nc_embedding r)"
| "abstract_op db (DeleteNode i) = (case handle_of db i of None \<Rightarrow> Keep | Some h \<Rightarrow> DropNode h)"
| "abstract_op db (AddEdge r) =
     (case (handle_of db (ec_source r), handle_of db (ec_target r)) of
        (Some a, Some b) \<Rightarrow>
          if a = b then Keep else SetEdge (a, b, ec_edge_type r) (ec_weight r, Some (ec_attributes r))
      | _ \<Rightarrow> Keep)"
| "abstract_op db (RemoveEdge i) =
     (case find (\<lambda>e. edge_id e = i) (graph_edges db) of None \<Rightarrow> Keep | Some e \<Rightarrow> DropEdge (abstract_key db e))"

definition node_data :: "'i node_row \<Rightarrow> node_data" where
  "node_data n = (node_label n, node_attributes n, node_embedding n)"

definition edge_data :: "'i edge_row \<Rightarrow> edge_data" where
  "edge_data e = (the (weight e), edge_attributes e)"

definition abstract_graph :: "'i graph_db \<Rightarrow> abstract_graph" where
  "abstract_graph db = (map_of (map (\<lambda>n. (handle n, node_data n)) (graph_nodes db)),
     map_of (map (\<lambda>e. (abstract_key db e, edge_data e)) (graph_edges db)))"

section \<open>The refinement\<close>

lemma spec_parts:
  "g' = spec_step (SetNode h d) g \<longleftrightarrow> fst g' = (fst g)(h \<mapsto> d) \<and> snd g' = snd g"
  "g' = spec_step (DropNode h) g \<longleftrightarrow> fst g' = (fst g)(h := None)
     \<and> (\<forall>a b t. snd g' (a, b, t) = (if a = h \<or> b = h then None else snd g (a, b, t)))"
  "g' = spec_step (SetEdge k x) g \<longleftrightarrow> fst g' = fst g \<and> snd g' = (snd g)(k \<mapsto> x)"
  "g' = spec_step (DropEdge k) g \<longleftrightarrow> fst g' = fst g \<and> snd g' = (snd g)(k := None)"
  by (cases g; cases g'; auto simp: fun_eq_iff)+

lemma handle_of_eq:
  "graph_inv u db \<Longrightarrow> handle_of db i = Some h \<longleftrightarrow> (\<exists>n \<in> set (graph_nodes db). node_id n = i \<and> handle n = h)"
  by (auto simp: handle_of_def find_node_id)

lemma handle_of_node: "graph_inv u db \<Longrightarrow> n \<in> set (graph_nodes db) \<Longrightarrow> handle_of db (node_id n) = Some (handle n)"
  by (auto simp: handle_of_eq)

lemma handle_inj:
  assumes "graph_inv u db" "n \<in> set (graph_nodes db)" "m \<in> set (graph_nodes db)"
  shows "handle n = handle m \<longleftrightarrow> node_id n = node_id m"
  using assms unfolding graph_inv_def distinct_map inj_on_def by metis

lemma abstract_key_eq:
  assumes inv: "graph_inv u db" and "e \<in> set (graph_edges db)" "x \<in> set (graph_edges db)"
  shows "abstract_key db e = abstract_key db x \<longleftrightarrow> e = x"
proof
  assume eq: "abstract_key db e = abstract_key db x"
  obtain a b c d where n: "a \<in> set (graph_nodes db)" "source_id e = node_id a" "b \<in> set (graph_nodes db)" "target_id e = node_id b"
    "c \<in> set (graph_nodes db)" "source_id x = node_id c" "d \<in> set (graph_nodes db)" "target_id x = node_id d"
    using assms unfolding graph_inv_def by (meson imageE)
  with eq have "handle a = handle c" "handle b = handle d" "edge_type e = edge_type x"
    by (simp_all add: abstract_key_def handle_of_node [OF inv])
  then have "edge_key e = edge_key x" using n handle_inj [OF inv] by (simp add: edge_key_def)
  then show "e = x" using assms unfolding graph_inv_def distinct_map inj_on_def by metis
qed simp

lemma abstract_nodes_eq:
  assumes "graph_inv u db"
  shows "fst (abstract_graph db) h = Some d \<longleftrightarrow> (\<exists>n \<in> set (graph_nodes db). handle n = h \<and> node_data n = d)"
  using assms map_of_key [of handle "graph_nodes db" node_data h d] by (simp add: abstract_graph_def graph_inv_def)

lemma abstract_edges_eq:
  assumes inv: "graph_inv u db"
  shows "snd (abstract_graph db) k = Some d \<longleftrightarrow> (\<exists>e \<in> set (graph_edges db). abstract_key db e = k \<and> edge_data e = d)"
proof -
  have "distinct (graph_edges db)" using inv by (auto simp: graph_inv_def distinct_map)
  then have "distinct (map (abstract_key db) (graph_edges db))"
    using abstract_key_eq [OF inv] by (auto simp: distinct_map inj_on_def)
  from map_of_key [OF this] show ?thesis by (simp add: abstract_graph_def)
qed

lemma abstract_edges_cong:
  assumes "graph_inv u db" "graph_inv u db'" "set (graph_edges db') = set (graph_edges db)"
    and "\<And>e. e \<in> set (graph_edges db) \<Longrightarrow> abstract_key db' e = abstract_key db e"
  shows "snd (abstract_graph db') = snd (abstract_graph db)"
  by (rule map_eqI) (auto simp: abstract_edges_eq [OF assms(1)] abstract_edges_eq [OF assms(2)] assms(3,4))

text \<open>Edges keep their abstract key when the handles of their ends stay.\<close>

lemma abstract_key_keep:
  assumes inv: "graph_inv u db" "graph_inv u db'" and e: "e \<in> set (graph_edges db)"
    and keep: "\<And>n. n \<in> set (graph_nodes db) \<Longrightarrow> node_id n = source_id e \<or> node_id n = target_id e \<Longrightarrow>
      \<exists>m \<in> set (graph_nodes db'). node_id m = node_id n \<and> handle m = handle n"
  shows "abstract_key db' e = abstract_key db e"
proof -
  have "handle_of db' i = handle_of db i" if i: "i = source_id e \<or> i = target_id e" for i
  proof -
    obtain n where n: "n \<in> set (graph_nodes db)" "node_id n = i" using inv(1) e i unfolding graph_inv_def by auto
    with keep i obtain m where m: "m \<in> set (graph_nodes db')" "node_id m = i" "handle m = handle n" by metis
    from handle_of_node [OF inv(1) n(1)] handle_of_node [OF inv(2) m(1)] n(2) m(2,3) show ?thesis by simp
  qed
  then show ?thesis by (simp add: abstract_key_def)
qed

lemma refine_create_node:
  assumes u: "inj u" and inv: "graph_inv u db"
  shows "graph_inv u (exec_graph u (CreateNode r) db)
    \<and> abstract_graph (exec_graph u (CreateNode r) db) = spec_step (abstract_op db (CreateNode r)) (abstract_graph db)"
proof -
  let ?h = "(nc_node_type r, nc_key r)"
  let ?d = "(nc_label r, Some (nc_attributes r), nc_embedding r)"
  obtain x db' where op: "pg_upsert_node u (nc_node_type r) (nc_key r) (nc_label r) (Some (nc_attributes r)) (nc_embedding r) db = (x, db')"
    by (metis surj_pair)
  then have ex: "exec_graph u (CreateNode r) db = db'" by (simp add: create_node_def postgres_store_def)
  from upsert_result [OF u inv op] obtain n where
    inv': "graph_inv u db'" and es: "graph_edges db' = graph_edges db" and n: "handle n = ?h" "node_data n = ?d"
    and ns: "set (graph_nodes db') = {m \<in> set (graph_nodes db). handle m \<noteq> ?h} \<union> {n}"
    and same: "\<forall>m \<in> set (graph_nodes db). handle m = ?h \<longrightarrow> node_id m = node_id n"
    by (auto simp: node_data_def)
  have "fst (abstract_graph db') = (fst (abstract_graph db))(?h \<mapsto> ?d)"
  proof (rule map_eqI)
    fix h d
    show "fst (abstract_graph db') h = Some d \<longleftrightarrow> ((fst (abstract_graph db))(?h \<mapsto> ?d)) h = Some d"
      unfolding abstract_nodes_eq [OF inv'] ns using n abstract_nodes_eq [OF inv, of h d]
      by (cases "h = ?h") auto
  qed
  moreover have "snd (abstract_graph db') = snd (abstract_graph db)"
  proof (rule abstract_edges_cong [OF inv inv'])
    show "set (graph_edges db') = set (graph_edges db)" by (simp add: es)
    fix e assume "e \<in> set (graph_edges db)"
    then show "abstract_key db' e = abstract_key db e"
    proof (rule abstract_key_keep [OF inv inv'])
      fix m assume m: "m \<in> set (graph_nodes db)"
      show "\<exists>m' \<in> set (graph_nodes db'). node_id m' = node_id m \<and> handle m' = handle m"
        using m n same unfolding ns by (cases "handle m = ?h") auto
    qed
  qed
  ultimately show ?thesis unfolding ex using inv' by (simp add: spec_parts)
qed

lemma refine_delete_node:
  assumes inv: "graph_inv u db"
  shows "graph_inv u (exec_graph u (DeleteNode i) db)
    \<and> abstract_graph (exec_graph u (DeleteNode i) db) = spec_step (abstract_op db (DeleteNode i)) (abstract_graph db)"
proof -
  obtain x db' where op: "pg_delete_node i db = (x, db')" by (metis surj_pair)
  then have ex: "exec_graph u (DeleteNode i) db = db'" by (simp add: postgres_store_def)
  note d = delete_node_result [OF inv op]
  have inv': "graph_inv u db'" using d by blast
  show ?thesis
  proof (cases "handle_of db i")
    case None
    then have "db' = db" using op by (simp add: pg_delete_node_def handle_of_def)
    then show ?thesis using ex None inv by simp
  next
    case (Some h)
    then obtain n where n: "n \<in> set (graph_nodes db)" "node_id n = i" "handle n = h" using handle_of_eq [OF inv] by blast
    have nodes: "m \<in> set (graph_nodes db') \<longleftrightarrow> m \<in> set (graph_nodes db) \<and> handle m \<noteq> h" for m
      using d handle_inj [OF inv n(1), of m] n(2,3) by auto
    have key: "abstract_key db' e = abstract_key db e" if "e \<in> set (graph_edges db')" for e
    proof (rule abstract_key_keep [OF inv inv'])
      show "e \<in> set (graph_edges db)" using that d by simp
      show "\<exists>m' \<in> set (graph_nodes db'). node_id m' = node_id m \<and> handle m' = handle m"
        if "m \<in> set (graph_nodes db)" "node_id m = source_id e \<or> node_id m = target_id e" for m
        using that \<open>e \<in> set (graph_edges db')\<close> d by auto
    qed
    have "fst (abstract_graph db') = (fst (abstract_graph db))(h := None)"
    proof (rule map_eqI)
      fix k v
      show "fst (abstract_graph db') k = Some v \<longleftrightarrow> ((fst (abstract_graph db))(h := None)) k = Some v"
        unfolding abstract_nodes_eq [OF inv'] using nodes abstract_nodes_eq [OF inv, of k v] by (cases "k = h") auto
    qed
    moreover have "snd (abstract_graph db') (a, b, t) = (if a = h \<or> b = h then None else snd (abstract_graph db) (a, b, t))" for a b t
    proof -
      have ends: "source_id e \<noteq> i \<and> target_id e \<noteq> i \<longleftrightarrow>
          the (handle_of db (source_id e)) \<noteq> h \<and> the (handle_of db (target_id e)) \<noteq> h" if e: "e \<in> set (graph_edges db)" for e
      proof -
        obtain p q where "p \<in> set (graph_nodes db)" "node_id p = source_id e" "q \<in> set (graph_nodes db)" "node_id q = target_id e"
          using inv e unfolding graph_inv_def by (metis imageE)
        then show ?thesis
          using handle_inj [OF inv _ n(1)] n(2,3) handle_of_node [OF inv, of p] handle_of_node [OF inv, of q]
          by (metis option.sel)
      qed
      have "snd (abstract_graph db') (a, b, t) = Some v \<longleftrightarrow>
          (if a = h \<or> b = h then None else snd (abstract_graph db) (a, b, t)) = Some v" for v
      proof -
        have "snd (abstract_graph db') (a, b, t) = Some v
            \<longleftrightarrow> (\<exists>e \<in> set (graph_edges db). source_id e \<noteq> i \<and> target_id e \<noteq> i \<and> abstract_key db e = (a, b, t) \<and> edge_data e = v)"
          unfolding abstract_edges_eq [OF inv'] using d key by auto
        also have "\<dots> \<longleftrightarrow> (\<exists>e \<in> set (graph_edges db). a \<noteq> h \<and> b \<noteq> h \<and> abstract_key db e = (a, b, t) \<and> edge_data e = v)"
          using ends by (auto simp: abstract_key_def)
        finally show ?thesis using abstract_edges_eq [OF inv, of "(a, b, t)" v] by auto
      qed
      then show ?thesis by (metis not_Some_eq)
    qed
    ultimately show ?thesis unfolding ex using inv' Some by (simp add: spec_parts)
  qed
qed

lemma refine_add_edge:
  assumes u: "inj u" and inv: "graph_inv u db"
  shows "graph_inv u (exec_graph u (AddEdge r) db)
    \<and> abstract_graph (exec_graph u (AddEdge r) db) = spec_step (abstract_op db (AddEdge r)) (abstract_graph db)"
proof (cases "pg_get_node_by_id (ec_source r) db = None \<or> pg_get_node_by_id (ec_target r) db = None")
  case True
  then have "exec_graph u (AddEdge r) db = db"
    by (auto simp: add_edge_request_def postgres_store_def split: option.splits)
  moreover have "abstract_op db (AddEdge r) = Keep" using True by (auto simp: handle_of_def split: option.splits)
  ultimately show ?thesis using inv by simp
next
  case False
  then obtain src tgt where st: "pg_get_node_by_id (ec_source r) db = Some src" "pg_get_node_by_id (ec_target r) db = Some tgt"
    by auto
  then have n: "src \<in> set (graph_nodes db)" "node_id src = ec_source r" "tgt \<in> set (graph_nodes db)" "node_id tgt = ec_target r"
    using find_node_id [OF inv] by blast+
  have h: "handle_of db (ec_source r) = Some (handle src)" "handle_of db (ec_target r) = Some (handle tgt)"
    using st by (simp_all add: handle_of_def)
  show ?thesis
  proof (cases "node_id src = node_id tgt")
    case True
    then have "exec_graph u (AddEdge r) db = db" using st by (simp add: add_edge_request_def postgres_store_def)
    moreover have "abstract_op db (AddEdge r) = Keep" using True h handle_inj [OF inv n(1,3)] by simp
    ultimately show ?thesis using inv by simp
  next
    case False
    let ?k = "(node_id src, node_id tgt, ec_edge_type r)" and ?h = "(handle src, handle tgt, ec_edge_type r)"
    let ?d = "(ec_weight r, Some (ec_attributes r))"
    obtain x db' where op: "pg_create_edge u (node_id src) (node_id tgt) (ec_edge_type r) (ec_weight r) (Some (ec_attributes r)) db = (x, db')"
      by (metis surj_pair)
    then have ex: "exec_graph u (AddEdge r) db = db'" using st False by (simp add: add_edge_request_def postgres_store_def)
    from create_edge_result [OF u inv False imageI [OF n(1)] imageI [OF n(3)] op] obtain e where
      inv': "graph_inv u db'" and ns: "graph_nodes db' = graph_nodes db" and e: "edge_key e = ?k" "edge_data e = ?d"
      and es: "set (graph_edges db') = {y \<in> set (graph_edges db). edge_key y \<noteq> ?k} \<union> {e}" by (auto simp: edge_data_def)
    have key: "abstract_key db' y = abstract_key db y" for y
      by (simp add: abstract_key_def handle_of_def pg_get_node_by_id_def ns)
    have ek: "abstract_key db e = ?h" using e(1) n h by (simp add: abstract_key_def edge_key_def)
    have keys: "edge_key y = ?k \<longleftrightarrow> abstract_key db y = ?h" if y: "y \<in> set (graph_edges db)" for y
    proof -
      obtain p q where pq: "p \<in> set (graph_nodes db)" "source_id y = node_id p" "q \<in> set (graph_nodes db)" "target_id y = node_id q"
        using inv y unfolding graph_inv_def by (meson imageE)
      then show ?thesis
        using handle_inj [OF inv pq(1) n(1)] handle_inj [OF inv pq(3) n(3)] handle_of_node [OF inv]
        by (simp add: abstract_key_def edge_key_def)
    qed
    have "fst (abstract_graph db') = fst (abstract_graph db)" by (simp add: abstract_graph_def ns)
    moreover have "snd (abstract_graph db') = (snd (abstract_graph db))(?h \<mapsto> ?d)"
    proof (rule map_eqI)
      fix k v
      show "snd (abstract_graph db') k = Some v \<longleftrightarrow> ((snd (abstract_graph db))(?h \<mapsto> ?d)) k = Some v"
        unfolding abstract_edges_eq [OF inv'] es using e ek keys key abstract_edges_eq [OF inv, of k v]
        by (cases "k = ?h") auto
    qed
    moreover have "handle src \<noteq> handle tgt" using False handle_inj [OF inv n(1,3)] by simp
    ultimately show ?thesis unfolding ex using inv' h by (simp add: spec_parts)
  qed
qed

lemma refine_remove_edge:
  assumes inv: "graph_inv u db"
  shows "graph_inv u (exec_graph u (RemoveEdge i) db)
    \<and> abstract_graph (exec_graph u (RemoveEdge i) db) = spec_step (abstract_op db (RemoveEdge i)) (abstract_graph db)"
proof -
  obtain x db' where op: "pg_delete_edge i db = (x, db')" by (metis surj_pair)
  then have ex: "exec_graph u (RemoveEdge i) db = db'" by (simp add: postgres_store_def)
  note d = delete_edge_result [OF inv op]
  have inv': "graph_inv u db'" and ns: "graph_nodes db' = graph_nodes db" using d by blast+
  show ?thesis
  proof (cases "find (\<lambda>e. edge_id e = i) (graph_edges db)")
    case None
    then have "db' = db" using op by (simp add: pg_delete_edge_def)
    then show ?thesis using ex None inv by simp
  next
    case (Some e)
    then have e: "e \<in> set (graph_edges db)" "edge_id e = i" by (auto simp: find_Some_iff)
    have key: "abstract_key db' y = abstract_key db y" for y
      by (simp add: abstract_key_def handle_of_def pg_get_node_by_id_def ns)
    have ids: "edge_id y \<noteq> i \<longleftrightarrow> abstract_key db y \<noteq> abstract_key db e" if "y \<in> set (graph_edges db)" for y
      using abstract_key_eq [OF inv that e(1)] inv that e unfolding graph_inv_def distinct_map inj_on_def by metis
    have "snd (abstract_graph db') = (snd (abstract_graph db))(abstract_key db e := None)"
    proof (rule map_eqI)
      fix k v
      show "snd (abstract_graph db') k = Some v \<longleftrightarrow> ((snd (abstract_graph db))(abstract_key db e := None)) k = Some v"
        unfolding abstract_edges_eq [OF inv'] using d key ids abstract_edges_eq [OF inv, of k v]
        by (cases "k = abstract_key db e") auto
    qed
    moreover have "fst (abstract_graph db') = fst (abstract_graph db)" by (simp add: abstract_graph_def ns)
    ultimately show ?thesis unfolding ex using inv' Some by (simp add: spec_parts)
  qed
qed

lemma refine_step:
  assumes "inj u" and "graph_inv u db"
  shows "graph_inv u (exec_graph u op db)
    \<and> abstract_graph (exec_graph u op db) = spec_step (abstract_op db op) (abstract_graph db)"
  using refine_create_node [OF assms] refine_delete_node [OF assms(2)] refine_add_edge [OF assms]
    refine_remove_edge [OF assms(2)]
  by (cases op) blast+

lemma run_inv: "inj u \<Longrightarrow> graph_inv u db \<Longrightarrow> graph_inv u (fold (exec_graph u) ops db)"
  by (induction ops arbitrary: db) (simp_all add: refine_step)

text \<open>C7: The store refines the abstract graph: after any sequence of operations of the manager, each
  further operation changes the tables exactly as its abstract counterpart changes the abstract
  graph (an upsert sets the node of its type and key and nothing else, a deletion removes the
  node with every edge at it, an edge is set under its ends and its type, requests that are
  refused change nothing), and a look-up by type and key reads the abstract graph.\<close>

theorem store_refines_graph:
  fixes u :: "nat \<Rightarrow> 'i"
  assumes "inj u" and "db = fold (exec_graph u) ops empty_graph"
  shows "abstract_graph (exec_graph u op db) = spec_step (abstract_op db op) (abstract_graph db)
    \<and> map_option node_data (op_get_node (postgres_store u) nt k db) = fst (abstract_graph db) (nt, k)"
proof -
  have inv: "graph_inv u db" unfolding assms(2) by (rule run_inv [OF assms(1)]) simp
  have "map_option node_data (pg_get_node nt k db) = Some d \<longleftrightarrow> fst (abstract_graph db) (nt, k) = Some d" for d
    using find_node [OF inv, of nt k] abstract_nodes_eq [OF inv, of "(nt, k)" d] by auto
  then have "map_option node_data (pg_get_node nt k db) = fst (abstract_graph db) (nt, k)" by (metis not_Some_eq)
  with refine_step [OF assms(1) inv] show ?thesis by (simp add: postgres_store_def)
qed

section \<open>The interface and its clients\<close>

lemma load_undirected: "undirected (load_graph G s)"
proof -
  have "undirected (fold (\<lambda>i A. AList.update i [] A) nodes ([] :: 'a adj))" for nodes
    using init_nodes(2) [of "[]" nodes] by (simp add: undirected_def adjacent_def neighbours_def)
  then show ?thesis unfolding load_graph_def adjacency_map_def by (rule adjacency_undirected)
qed

lemma truncate_sel [simp]: "source_id (edge.truncate e) = source_id e" "target_id (edge.truncate e) = target_id e"
  by (simp_all add: edge.truncate_def)

lemma load_keys: "fst ` set (load_graph G s)
   = node_id ` set (op_all_nodes G s) \<union> source_id ` set (op_all_edges G s) \<union> target_id ` set (op_all_edges G s)"
  using init_nodes(1) [of "map node_id (op_all_nodes G s)" "[]"]
  by (auto simp: load_graph_def adjacency_map_def adjacency_keys image_image)

locale graph_store =
  fixes G :: "('i, 's) graph_store_ops" and inv :: "'s \<Rightarrow> bool"
  assumes by_key: "inv s \<Longrightarrow> op_get_node G nt k s = Some n
      \<longleftrightarrow> n \<in> set (op_all_nodes G s) \<and> node_type n = nt \<and> node_key n = k"
    and by_id: "inv s \<Longrightarrow> op_get_node_by_id G i s = Some n \<longleftrightarrow> n \<in> set (op_all_nodes G s) \<and> node_id n = i"
    and ends: "inv s \<Longrightarrow> e \<in> set (op_all_edges G s) \<Longrightarrow>
      source_id e \<in> node_id ` set (op_all_nodes G s) \<and> target_id e \<in> node_id ` set (op_all_nodes G s)"
begin

lemma row_found:
  assumes "inv s" and "i \<in> node_id ` set (op_all_nodes G s)"
  shows "\<exists>n. row_of G s i = Inr n \<and> (\<forall>m. m \<in> set (op_all_nodes G s) \<and> node_id m = i \<longleftrightarrow> m = n)"
proof -
  let ?rows = "rev (map (\<lambda>n. (node_id n, n)) (op_all_nodes G s))"
  have "map_of ?rows i \<noteq> None" using assms(2) by (simp add: map_of_eq_None_iff image_image)
  then obtain n where n: "map_of ?rows i = Some n" by blast
  then have "n \<in> set (op_all_nodes G s)" "node_id n = i" using map_of_SomeD [OF n] by auto
  then have "m \<in> set (op_all_nodes G s) \<and> node_id m = i \<longleftrightarrow> m = n" for m
    using by_id [OF assms(1), of i m] by_id [OF assms(1), of i n] by auto
  with n show ?thesis by (auto simp: row_of_def)
qed

lemma reach_rows:
  assumes "inv s" and "hops (load_graph G s) i d v" and "i \<in> node_id ` set (op_all_nodes G s)"
  shows "v \<in> node_id ` set (op_all_nodes G s)"
  using assms(2,3)
proof (induction rule: hops.induct)
  case (step d u v)
  have "v \<in> fst ` set (load_graph G s)"
    using step.hyps(2) load_undirected [of G s] unfolding undirected_def adjacent_def by blast
  then show ?case using ends [OF assms(1)] by (auto simp: load_keys)
qed

lemma traversal_rows:
  assumes s: "inv s" and n: "op_get_node G nt k s = Some n"
  shows "\<exists>rows. traversal D G nt k m s = (Inr rows, s) \<and> sorted (map (\<lambda>(_, _, _, d). d) rows)
    \<and> (\<forall>i t l d. (i, t, l, d) \<in> set rows \<longleftrightarrow>
         (\<exists>x \<in> set (op_all_nodes G s). node_id x = i \<and> node_type x = t \<and> label_for x = l)
         \<and> hops (load_graph G s) (node_id n) d i \<and> (\<forall>j. hops (load_graph G s) (node_id n) j i \<longrightarrow> d \<le> j)
         \<and> (d = 0 \<or> int d \<le> (case m of None \<Rightarrow> D | Some x \<Rightarrow> x)))"
proof -
  let ?m = "case m of None \<Rightarrow> D | Some x \<Rightarrow> x" and ?A = "load_graph G s"
  obtain dm pm order where b: "bfs ?A (node_id n) (Some ?m) = (dm, pm, order)"
    and least: "\<forall>v k. map_of dm v = Some k \<longleftrightarrow> hops ?A (node_id n) k v
        \<and> (\<forall>j. hops ?A (node_id n) j v \<longrightarrow> k \<le> j) \<and> (k = 0 \<or> int k \<le> ?m)"
    and keys: "distinct (map fst dm)"
    using bfs_least [of ?A "node_id n" "Some ?m"] by auto
  have n': "n \<in> set (op_all_nodes G s)" using n by_key [OF s] by blast
  have reach: "x \<in> node_id ` set (op_all_nodes G s)" if "(x, d) \<in> set dm" for x d
    using that least keys reach_rows [OF s] n' by (metis imageI map_of_is_SomeI)
  define row where "row = (\<lambda>i. projr (row_of G s i))"
  have row: "\<forall>(i, d) \<in> set dm. row_of G s i = Inr (row i)
      \<and> (\<forall>x. x \<in> set (op_all_nodes G s) \<and> node_id x = i \<longleftrightarrow> x = row i)"
    using row_found [OF s reach] by (fastforce simp: row_def)
  define out where "out = (\<lambda>(i, d :: nat). (i, node_type (row i), label_for (row i), d))"
  have "mapR (\<lambda>(i, d). bindR (row_of G s i) (\<lambda>n. Inr (i, node_type n, label_for n, d))) (sort_key snd dm)
      = Inr (map out (sort_key snd dm))"
    by (rule mapR_map) (use row in \<open>auto simp: out_def\<close>)
  then have "traversal D G nt k m s = (Inr (map out (sort_key snd dm)), s)"
    using n b by (simp add: traversal_def get_node_def bindA_def Let_def)
  moreover have "sorted (map (\<lambda>(_, _, _, d). d) (map out (sort_key snd dm)))"
  proof -
    have "map (\<lambda>(_, _, _, d). d) (map out xs) = map snd xs" for xs by (simp add: out_def split_beta)
    then show ?thesis by (simp only: sorted_sort_key)
  qed
  moreover have "(i, t, l, d) \<in> set (map out (sort_key snd dm)) \<longleftrightarrow>
         (\<exists>x \<in> set (op_all_nodes G s). node_id x = i \<and> node_type x = t \<and> label_for x = l)
         \<and> hops ?A (node_id n) d i \<and> (\<forall>j. hops ?A (node_id n) j i \<longrightarrow> d \<le> j) \<and> (d = 0 \<or> int d \<le> ?m)" for i t l d
  proof -
    have "(i, t, l, d) \<in> set (map out (sort_key snd dm)) \<longleftrightarrow> (i, d) \<in> set dm \<and> t = node_type (row i) \<and> l = label_for (row i)"
      by (auto simp: out_def)
    also have "\<dots> \<longleftrightarrow> (i, d) \<in> set dm \<and> (\<exists>x \<in> set (op_all_nodes G s). node_id x = i \<and> node_type x = t \<and> label_for x = l)"
    proof (cases "(i, d) \<in> set dm")
      case True
      then have "\<And>x. x \<in> set (op_all_nodes G s) \<and> node_id x = i \<longleftrightarrow> x = row i" using row by fastforce
      then show ?thesis by metis
    qed simp
    also have "(i, d) \<in> set dm \<longleftrightarrow> map_of dm i = Some d" using keys by (rule in_dict)
    finally show ?thesis using least by blast
  qed
  ultimately show ?thesis by blast
qed

end

interpretation pg: graph_store "postgres_store u" "graph_inv u" for u :: "nat \<Rightarrow> 'i"
proof
  fix db :: "'i graph_db" and i n nt k
  assume inv: "graph_inv u db"
  show "op_get_node (postgres_store u) nt k db = Some n
      \<longleftrightarrow> n \<in> set (op_all_nodes (postgres_store u) db) \<and> node_type n = nt \<and> node_key n = k"
    using find_node [OF inv, of nt k n] by (auto simp: postgres_store_def handle_def)
  show "op_get_node_by_id (postgres_store u) i db = Some n
      \<longleftrightarrow> n \<in> set (op_all_nodes (postgres_store u) db) \<and> node_id n = i"
    using find_node_id [OF inv, of i n] by (simp add: postgres_store_def)
  fix e assume "e \<in> set (op_all_edges (postgres_store u) db)"
  then show "source_id e \<in> node_id ` set (op_all_nodes (postgres_store u) db)
      \<and> target_id e \<in> node_id ` set (op_all_nodes (postgres_store u) db)"
    using inv by (simp add: postgres_store_def graph_inv_def)
qed

text \<open>C9: After any sequence of operations of the manager, a traversal from a node that exists never
  fails on a missing row and returns exactly the nodes that some walk within the depth limit
  reaches, each with its type, its label and the least number of edges of such a walk, in the
  order of that number.\<close>

theorem traversal_exact:
  fixes u :: "nat \<Rightarrow> 'i"
  assumes "inj u" and "db = fold (exec_graph u) ops empty_graph"
    and "op_get_node (postgres_store u) nt k db = Some n"
  shows "\<exists>rows. traversal D (postgres_store u) nt k m db = (Inr rows, db)
    \<and> sorted (map (\<lambda>(_, _, _, d). d) rows)
    \<and> (\<forall>i t l d. (i, t, l, d) \<in> set rows \<longleftrightarrow>
         (\<exists>x \<in> set (graph_nodes db). node_id x = i \<and> node_type x = t \<and> label_for x = l)
         \<and> hops (load_graph (postgres_store u) db) (node_id n) d i
         \<and> (\<forall>j. hops (load_graph (postgres_store u) db) (node_id n) j i \<longrightarrow> d \<le> j)
         \<and> (d = 0 \<or> int d \<le> (case m of None \<Rightarrow> D | Some x \<Rightarrow> x)))"
proof -
  have inv: "graph_inv u db" unfolding assms(2) by (rule run_inv [OF assms(1)]) simp
  show ?thesis using pg.traversal_rows [OF inv assms(3), of D m] by (simp add: postgres_store_def)
qed

text \<open>A chair, its supplier and the edge between them.\<close>

definition chair_ops :: "nat graph_op list" where
  "chair_ops =
     [CreateNode \<lparr>nc_node_type = ''product'', nc_key = ''ERG01'', nc_label = ''Chair'', nc_attributes = JObj [], nc_embedding = None\<rparr>,
      CreateNode \<lparr>nc_node_type = ''supplier'', nc_key = ''acme'', nc_label = [], nc_attributes = JObj [], nc_embedding = None\<rparr>,
      AddEdge \<lparr>ec_source = 0, ec_target = 1, ec_edge_type = ''supplied_by'', ec_weight = 1, ec_attributes = JObj []\<rparr>]"

definition chair_db :: "nat graph_db" where
  "chair_db = fold (exec_graph id) chair_ops empty_graph"

lemmas store_defs = create_node_def add_edge_request_def postgres_store_def pg_upsert_node_def pg_get_node_def
  pg_create_edge_def pg_get_edge_def pg_get_node_by_id_def pg_delete_node_def Let_def

lemma chair_db: "chair_db =
  \<lparr>graph_nodes =
     [\<lparr>node_id = 0, node_type = ''product'', node_key = ''ERG01'', node_label = ''Chair'', node_attributes = Some (JObj []), node_embedding = None\<rparr>,
      \<lparr>node_id = 1, node_type = ''supplier'', node_key = ''acme'', node_label = [], node_attributes = Some (JObj []), node_embedding = None\<rparr>],
   graph_edges = [\<lparr>source_id = 0, target_id = 1, edge_type = ''supplied_by'', weight = Some 1, edge_id = 2, edge_attributes = Some (JObj [])\<rparr>],
   drawn = 3\<rparr>"
  by (simp add: chair_db_def chair_ops_def empty_graph_def store_defs)

theorem store_refines_graph_witness:
  "fst (abstract_graph chair_db) (''product'', ''ERG01'') = Some (''Chair'', Some (JObj []), None)
   \<and> snd (abstract_graph (exec_graph id (DeleteNode 1) chair_db)) ((''product'', ''ERG01''), (''supplier'', ''acme''), ''supplied_by'') = None"
proof -
  have get: "op_get_node (postgres_store id) ''product'' ''ERG01'' chair_db = Some (hd (graph_nodes chair_db))"
    by (simp add: chair_db store_defs)
  have "abstract_op chair_db (DeleteNode 1) = DropNode (''supplier'', ''acme'')"
    by (simp add: chair_db handle_of_def handle_def store_defs)
  with store_refines_graph [OF inj_on_id chair_db_def, of "DeleteNode 1" "''product''" "''ERG01''"] get show ?thesis
    by (cases "abstract_graph chair_db") (simp add: chair_db node_data_def)
qed

theorem traversal_exact_witness:
  "\<exists>rows. traversal 3 (postgres_store id) ''product'' ''ERG01'' None chair_db = (Inr rows, chair_db)
   \<and> (1, ''supplier'', ''acme'', 1) \<in> set rows"
proof -
  have get: "op_get_node (postgres_store id) ''product'' ''ERG01'' chair_db = Some (hd (graph_nodes chair_db))"
    by (simp add: chair_db store_defs)
  let ?A = "load_graph (postgres_store id) chair_db"
  have A: "?A = [(0, [(1, 1, ''supplied_by'')]), (1, [(0, 1, ''supplied_by'')])]"
    by (simp add: chair_db postgres_store_def load_graph_def adjacency_map_def add_edge_def add_neighbour_def
        neighbours_def edge_weight_def edge.truncate_def Let_def)
  have "hops ?A 0 1 1" using hops.step [OF hops.zero, of 1 ?A 0] by (simp add: A neighbours_def)
  moreover have "\<forall>j. hops ?A 0 j 1 \<longrightarrow> 1 \<le> j" by (auto simp: Suc_le_eq intro: ccontr)
  moreover have "\<exists>x \<in> set (graph_nodes chair_db). node_id x = 1 \<and> node_type x = ''supplier'' \<and> label_for x = ''acme''"
    by (simp add: chair_db label_for_def)
  moreover have "node_id (hd (graph_nodes chair_db)) = 0" by (simp add: chair_db)
  ultimately show ?thesis
    using traversal_exact [OF inj_on_id chair_db_def get, of 3 None] by fastforce
qed

end
