(* ===== verification/Supervisor.thy ===== *)
theory Supervisor
  imports Numbers "HOL-Library.List_Lexorder" "HOL-Library.Char_ord"
begin

text \<open>
  The supervisor of the multi-agent framework (\<open>app/multiagent/supervisor.py\<close>, \<open>base.py\<close>,
  \<open>context.py\<close>, \<open>registry.py\<close>, \<open>evaluation.py\<close>). The agents are a parameter: a registry of
  what each role depends on and how its run behaves. A run is a sequence of atomic pieces of
  code between two awaits, each of which reads and writes the shared memory, and ends with a
  result or an exception. The agents of a wave interleave in any order, as under \<open>asyncio\<close>.
  Not modelled: a cancellation, or another BaseException of an agent, which ends the pipeline; the
  report, which is read out of the shared memory; ids, traces and time stamps of runs.
\<close>

section \<open>Agents and runs\<close>

type_synonym role = string

record agent_result =
  r_summary :: string
  r_data :: "string list"
  r_recommendations :: "string list"
  r_confidence :: rat

text \<open>What the code of an agent returns: an \<open>AgentResult\<close>, or any other value with its \<open>str\<close>.\<close>

datatype agent_output = Output agent_result | OtherValue string

text \<open>A run ends with the tools it used and its exception or output.\<close>

datatype 'm proc = Done "string list \<times> (string + agent_output)" | Await "'m \<Rightarrow> 'm \<times> 'm proc"

record 'm agent =
  depends_on :: "role list"
  behaviour :: "'m proc"

type_synonym 'm registry = "role \<rightharpoonup> 'm agent"

record agent_run =
  run_role :: role
  run_status :: string
  run_result :: "agent_result option"
  run_error :: "string option"
  run_tools_used :: "string list"

text \<open>The end of \<open>_run_agent\<close>: an exception of the agent is caught and recorded.\<close>

fun as_result :: "agent_output \<Rightarrow> agent_result" where
  "as_result (Output x) = x"
| "as_result (OtherValue s) = \<lparr>r_summary = s, r_data = [], r_recommendations = [], r_confidence = 1\<rparr>"

fun finish_run :: "role \<Rightarrow> string list \<times> (string + agent_output) \<Rightarrow> agent_run" where
  "finish_run r (tools, Inr x) = \<lparr>run_role = r, run_status = ''succeeded'', run_result = Some (as_result x),
     run_error = None, run_tools_used = tools\<rparr>"
| "finish_run r (tools, Inl e) = \<lparr>run_role = r, run_status = ''failed'', run_result = None, run_error = Some e,
     run_tools_used = tools\<rparr>"

section \<open>Evaluation\<close>

definition completeness :: "agent_result option \<Rightarrow> rat" where
  "completeness r = (case r of None \<Rightarrow> 0 | Some x \<Rightarrow>
     round_float 4 (fl (of_nat (of_bool (r_summary x \<noteq> []) + of_bool (r_recommendations x \<noteq> [])
       + of_bool (r_data x \<noteq> []) + 1) / 4)))"

record evaluation =
  ev_role :: role
  ev_success :: bool
  ev_confidence :: rat
  ev_completeness :: rat
  ev_tool_usage :: nat
  ev_score :: rat

definition evaluate_run :: "agent_run \<Rightarrow> evaluation" where
  "evaluate_run run =
     (let success = run_status run = ''succeeded'';
          confidence = (case run_result run of None \<Rightarrow> 0 | Some x \<Rightarrow> r_confidence x);
          compl = completeness (run_result run);
          score = round_float 4 (fl (fl (fl (fl (1 / 2) * of_bool success) + fl (fl (1 / 5) * confidence))
                                  + fl (fl (3 / 10) * compl))) in
      \<lparr>ev_role = run_role run, ev_success = success, ev_confidence = confidence, ev_completeness = compl,
       ev_tool_usage = length (run_tools_used run), ev_score = score\<rparr>)"

section \<open>Waves\<close>

text \<open>\<open>set(depends_on) & role_set\<close> for every role\<close>

definition wave_deps :: "(role \<Rightarrow> role list) \<Rightarrow> role set \<Rightarrow> role \<Rightarrow> role set" where
  "wave_deps depends roles r = set (depends r) \<inter> roles"

definition ready_roles :: "role set \<Rightarrow> (role \<Rightarrow> role set) \<Rightarrow> role set" where
  "ready_roles remaining deps =
     (let ready = {r \<in> remaining. deps r = {}} in if ready = {} then remaining else ready)"

function wave_loop :: "role set \<Rightarrow> (role \<Rightarrow> role set) \<Rightarrow> role list list" where
  "wave_loop remaining deps =
     (if remaining = {} \<or> infinite remaining then []
      else (let ready = ready_roles remaining deps in
        sorted_list_of_set ready #
          wave_loop (remaining - ready) (\<lambda>r. if r \<in> remaining - ready then deps r - ready else deps r)))"
  by pat_completeness auto

lemma ready_subset: "ready_roles remaining deps \<subseteq> remaining"
  by (auto simp: ready_roles_def Let_def)

lemma ready_nonempty: "remaining \<noteq> {} \<Longrightarrow> ready_roles remaining deps \<noteq> {}"
  by (auto simp: ready_roles_def Let_def)

termination wave_loop
proof (relation "measure (card \<circ> fst)")
  fix remaining :: "role set" and deps ready
  assume "\<not> (remaining = {} \<or> infinite remaining)" and "ready = ready_roles remaining deps"
  then have "remaining - ready \<subset> remaining" using ready_subset [of remaining deps] ready_nonempty [of remaining deps] by blast
  then show "((remaining - ready, \<lambda>r. if r \<in> remaining - ready then deps r - ready else deps r), remaining, deps) \<in> measure (card \<circ> fst)"
    using \<open>\<not> (remaining = {} \<or> infinite remaining)\<close> by (simp add: psubset_card_mono)
qed simp

definition resolve_waves :: "(role \<Rightarrow> role list) \<Rightarrow> role list \<Rightarrow> role list list" where
  "resolve_waves depends roles = wave_loop (set roles) (wave_deps depends (set roles))"

section \<open>The pipeline\<close>

text \<open>One agent of the wave runs until its next await.\<close>

inductive wave_step :: "'m \<times> (role \<times> 'm proc) list \<Rightarrow> 'm \<times> (role \<times> 'm proc) list \<Rightarrow> bool" where
  piece: "i < length ps \<Longrightarrow> ps ! i = (r, Await f) \<Longrightarrow> f m = (m', p) \<Longrightarrow> wave_step (m, ps) (m', ps[i := (r, p)])"

inductive_cases wave_stepE: "wave_step (m, ps) s"

text \<open>\<open>gather\<close>: the runs of a list of agents, in its order, once all of them have ended.\<close>

inductive gather :: "'m registry \<Rightarrow> 'm \<Rightarrow> role list \<Rightarrow> 'm \<Rightarrow> agent_run list \<Rightarrow> bool" where
  all_done: "wave_step\<^sup>*\<^sup>* (m, map (\<lambda>r. (r, behaviour (the (reg r)))) rs) (m', map (\<lambda>(r, x). (r, Done x)) ends) \<Longrightarrow>
    gather reg m rs m' (map (\<lambda>(r, x). finish_run r x) ends)"

inductive run_waves :: "'m registry \<Rightarrow> nat \<Rightarrow> 'm \<Rightarrow> role list list \<Rightarrow> 'm \<Rightarrow> agent_run list \<Rightarrow> bool" where
  no_wave: "run_waves reg max_parallel_agents m [] m []"
| wave: "gather reg m (take max_parallel_agents w) m' runs \<Longrightarrow> run_waves reg max_parallel_agents m' ws m'' runs' \<Longrightarrow>
    run_waves reg max_parallel_agents m (w # ws) m'' (runs @ runs')"

definition depends_of :: "'m registry \<Rightarrow> role \<Rightarrow> role list" where
  "depends_of reg r = depends_on (the (reg r))"

definition known_roles :: "'m registry \<Rightarrow> role list \<Rightarrow> role list option \<Rightarrow> role list" where
  "known_roles reg default_roles roles =
     filter (\<lambda>r. reg r \<noteq> None) (case roles of None \<Rightarrow> default_roles | Some [] \<Rightarrow> default_roles | Some rs \<Rightarrow> rs)"

definition first_wave :: "role list \<Rightarrow> role list" where
  "first_wave rs = (if ''planner'' \<in> set rs then [''planner''] else [])"

definition later_waves :: "'m registry \<Rightarrow> role list \<Rightarrow> role list list" where
  "later_waves reg rs = resolve_waves (depends_of reg) (filter (\<lambda>r. r \<noteq> ''planner'') rs)"

definition pipeline_status :: "agent_run list \<Rightarrow> string" where
  "pipeline_status runs = (if \<forall>r \<in> set runs. run_status r = ''succeeded'' then ''succeeded'' else ''degraded'')"

record 'm pipeline_result =
  pl_status :: string
  pl_runs :: "agent_run list"
  pl_evaluations :: "evaluation list"
  pl_shared_memory :: 'm

text \<open>The planner runs alone before the waves of the others; \<open>m\<close> is the seed.\<close>

inductive run_pipeline :: "'m registry \<Rightarrow> nat \<Rightarrow> role list \<Rightarrow> role list option \<Rightarrow> 'm \<Rightarrow> 'm pipeline_result \<Rightarrow> bool" where
  run: "rs = known_roles reg default_roles roles \<Longrightarrow> gather reg m (first_wave rs) m' planned \<Longrightarrow>
    run_waves reg max_parallel_agents m' (later_waves reg rs) m'' runs \<Longrightarrow>
    run_pipeline reg max_parallel_agents default_roles roles m
      \<lparr>pl_status = pipeline_status (planned @ runs), pl_runs = planned @ runs,
       pl_evaluations = map evaluate_run (planned @ runs), pl_shared_memory = m''\<rparr>"

text \<open>One agent on its own; an unknown role raises \<open>AgentNotFoundError\<close>, \<open>None\<close>.\<close>

inductive run_single :: "'m registry \<Rightarrow> role \<Rightarrow> 'm \<Rightarrow> agent_run option \<Rightarrow> bool" where
  known: "reg r \<noteq> None \<Longrightarrow> gather reg m [r] m' [x] \<Longrightarrow> run_single reg r m (Some x)"
| unknown: "reg r = None \<Longrightarrow> run_single reg r m None"

section \<open>Delegation\<close>

text \<open>
  A context records the subtasks that its agent has handed out; \<open>run\<close> is the run of an agent on
  a context spawned for it, \<open>to_dict\<close> what the shared memory keeps of a result.
\<close>

datatype multi_agent_error = DelegationLimitExceeded | AgentNotFoundError role | AgentFailure string

record 'v agent_context =
  delegations :: "(role \<times> (string + agent_result)) list"
  shared_memory :: "string \<rightharpoonup> 'v"

definition delegate ::
  "(role \<Rightarrow> ((string \<rightharpoonup> 'v) \<Rightarrow> (string + agent_result) \<times> (string \<rightharpoonup> 'v)) option) \<Rightarrow> (agent_result \<Rightarrow> 'v) \<Rightarrow> nat
    \<Rightarrow> role \<Rightarrow> 'v agent_context \<Rightarrow> (multi_agent_error + agent_result) \<times> 'v agent_context" where
  "delegate agents to_dict max_delegations r c =
     (if max_delegations \<le> length (delegations c) then (Inl DelegationLimitExceeded, c)
      else (case agents r of
        None \<Rightarrow> (Inl (AgentNotFoundError r), c)
      | Some run \<Rightarrow>
          (case run (shared_memory c) of
             (Inl e, m) \<Rightarrow> (Inl (AgentFailure e), c\<lparr>delegations := delegations c @ [(r, Inl e)], shared_memory := m\<rparr>)
           | (Inr x, m) \<Rightarrow>
               (Inr x, c\<lparr>delegations := delegations c @ [(r, Inr x)], shared_memory := m(''delegation:'' @ r \<mapsto> to_dict x)\<rparr>))))"

section \<open>Summary of evaluations\<close>

text \<open>Per role, in the order of its first evaluation: runs, success rate and average score.\<close>

definition summarize_evaluations :: "evaluation list \<Rightarrow> (role \<times> nat \<times> rat \<times> rat) list" where
  "summarize_evaluations evs = map (\<lambda>r.
     (let es = filter (\<lambda>e. ev_role e = r) evs; n = length es in
      (r, n, round_float 4 (fl (of_nat (length (filter ev_success es)) / of_nat n)),
       round_float 4 (fl (foldl (\<lambda>t e. fl (t + ev_score e)) 0 es / of_nat n))))) (rev (remdups (rev (map ev_role evs))))"

end
