(* ===== verification/SupervisorProps.thy ===== *)
theory SupervisorProps
  imports Supervisor
begin

text \<open>
  The waves of the supervisor partition the roles and respect their dependencies; a pipeline
  always ends, whatever its agents do, and runs exactly the roles that it has planned, the
  planned ones being at most as many per wave as may run in parallel.
\<close>

section \<open>Waves\<close>

declare wave_loop.simps [simp del]

lemma wave_loop_partition:
  "finite remaining \<Longrightarrow> set (concat (wave_loop remaining deps)) = remaining
    \<and> distinct (concat (wave_loop remaining deps)) \<and> (\<forall>w \<in> set (wave_loop remaining deps). sorted w \<and> w \<noteq> [])"
proof (induction remaining deps rule: wave_loop.induct)
  case (1 remaining deps)
  show ?case
  proof (cases "remaining = {}")
    case True
    then show ?thesis by (simp add: wave_loop.simps)
  next
    case False
    let ?ready = "ready_roles remaining deps"
    let ?deps = "\<lambda>r. if r \<in> remaining - ?ready then deps r - ?ready else deps r"
    have eq: "wave_loop remaining deps = sorted_list_of_set ?ready # wave_loop (remaining - ?ready) ?deps"
      using False 1(2) by (simp add: wave_loop.simps [of remaining] Let_def)
    have fin: "finite ?ready" using ready_subset 1(2) by (rule finite_subset)
    have IH: "set (concat (wave_loop (remaining - ?ready) ?deps)) = remaining - ?ready
        \<and> distinct (concat (wave_loop (remaining - ?ready) ?deps))
        \<and> (\<forall>w \<in> set (wave_loop (remaining - ?ready) ?deps). sorted w \<and> w \<noteq> [])"
      using 1(1) [OF _ refl] False 1(2) by simp
    then have "set (concat (wave_loop remaining deps)) = remaining"
      using fin ready_subset [of remaining deps] unfolding eq by auto
    moreover have "distinct (concat (wave_loop remaining deps))"
      using IH fin unfolding eq by (simp add: Int_Diff)
    moreover have "sorted_list_of_set ?ready \<noteq> []"
      using fin ready_nonempty [OF False, of deps] by simp
    ultimately show ?thesis using IH unfolding eq by auto
  qed
qed

lemma wave_loop_order:
  assumes "finite remaining"
    and "\<forall>r \<in> remaining. deps r \<subseteq> remaining \<and> (\<forall>d \<in> deps r. rank d < (rank r :: nat))"
    and "i < length (wave_loop remaining deps)" and "r \<in> set (wave_loop remaining deps ! i)" and "d \<in> deps r"
  shows "\<exists>j < i. d \<in> set (wave_loop remaining deps ! j)"
  using assms
proof (induction remaining deps arbitrary: i rule: wave_loop.induct)
  case (1 remaining deps)
  have ne: "remaining \<noteq> {}" using 1(4) by (auto simp: wave_loop.simps)
  let ?ready = "ready_roles remaining deps"
  let ?deps = "\<lambda>r. if r \<in> remaining - ?ready then deps r - ?ready else deps r"
  let ?rest = "wave_loop (remaining - ?ready) ?deps"
  have eq: "wave_loop remaining deps = sorted_list_of_set ?ready # ?rest"
    using ne 1(2) by (simp add: wave_loop.simps [of remaining] Let_def)
  have fin: "finite ?ready" using ready_subset 1(2) by (rule finite_subset)
  have "\<exists>r \<in> remaining. deps r = {}"
  proof -
    have "finite (rank ` remaining)" "rank ` remaining \<noteq> {}" using 1(2) ne by simp_all
    then obtain r where "r \<in> remaining" "rank r = Min (rank ` remaining)" by (metis Min_in imageE)
    moreover from this have "deps r = {}"
      using 1(3) Min_le [OF \<open>finite (rank ` remaining)\<close>] by (metis image_eqI leD equals0I subsetD)
    ultimately show ?thesis by blast
  qed
  then have ready: "?ready = {r \<in> remaining. deps r = {}}" by (auto simp: ready_roles_def Let_def)
  show ?case
  proof (cases i)
    case 0
    then have "deps r = {}" using 1(5) fin ready unfolding eq by simp
    then show ?thesis using 1(6) by simp
  next
    case (Suc k)
    then have k: "k < length ?rest" "r \<in> set (?rest ! k)" using 1(4,5) unfolding eq by simp_all
    have "r \<in> set (concat ?rest)" using k by (auto intro: nth_mem)
    moreover have "set (concat ?rest) = remaining - ?ready" using wave_loop_partition 1(2) by blast
    ultimately have r: "r \<in> remaining - ?ready" by (simp only:)
    show ?thesis
    proof (cases "d \<in> ?ready")
      case True
      then show ?thesis using fin Suc unfolding eq by (intro exI [of _ 0]) simp
    next
      case False
      have "\<forall>r \<in> remaining - ?ready. ?deps r \<subseteq> remaining - ?ready \<and> (\<forall>d \<in> ?deps r. rank d < rank r)"
        using 1(3) by auto
      moreover have "d \<in> ?deps r" using False r 1(6) by simp
      ultimately obtain j where "j < k" "d \<in> set (?rest ! j)"
        using 1(1) [OF _ refl, of k] ne 1(2) k by auto
      then show ?thesis using Suc unfolding eq by (intro exI [of _ "Suc j"]) simp
    qed
  qed
qed

text \<open>C13: The waves of a pipeline partition its roles, each role standing in exactly one wave and each
  wave being sorted and not empty, even when the dependencies are cyclic; when they are not,
  every role stands in a later wave than all the roles of the pipeline that it depends on.\<close>

theorem waves_respect_dependencies:
  "set (concat (resolve_waves depends roles)) = set roles \<and> distinct (concat (resolve_waves depends roles))
   \<and> (\<forall>w \<in> set (resolve_waves depends roles). sorted w \<and> w \<noteq> [])
   \<and> ((\<exists>rank :: role \<Rightarrow> nat. \<forall>r \<in> set roles. \<forall>d \<in> set (depends r) \<inter> set roles. rank d < rank r) \<longrightarrow>
      (\<forall>i r d. i < length (resolve_waves depends roles) \<longrightarrow> r \<in> set (resolve_waves depends roles ! i) \<longrightarrow>
         d \<in> set (depends r) \<inter> set roles \<longrightarrow> (\<exists>j < i. d \<in> set (resolve_waves depends roles ! j))))"
proof -
  let ?deps = "wave_deps depends (set roles)"
  have part: "set (concat (resolve_waves depends roles)) = set roles \<and> distinct (concat (resolve_waves depends roles))
    \<and> (\<forall>w \<in> set (resolve_waves depends roles). sorted w \<and> w \<noteq> [])"
    unfolding resolve_waves_def by (rule wave_loop_partition) simp
  have order: "\<exists>j < i. d \<in> set (resolve_waves depends roles ! j)"
    if rank: "\<forall>r \<in> set roles. \<forall>d \<in> set (depends r) \<inter> set roles. rank d < (rank r :: nat)"
      and i: "i < length (resolve_waves depends roles)" "r \<in> set (resolve_waves depends roles ! i)"
        "d \<in> set (depends r) \<inter> set roles" for rank i r d
    unfolding resolve_waves_def
    by (rule wave_loop_order [where rank = rank]) (use rank i in \<open>auto simp: wave_deps_def resolve_waves_def\<close>)
  have "(\<exists>rank :: role \<Rightarrow> nat. \<forall>r \<in> set roles. \<forall>d \<in> set (depends r) \<inter> set roles. rank d < rank r) \<longrightarrow>
      (\<forall>i r d. i < length (resolve_waves depends roles) \<longrightarrow> r \<in> set (resolve_waves depends roles ! i) \<longrightarrow>
         d \<in> set (depends r) \<inter> set roles \<longrightarrow> (\<exists>j < i. d \<in> set (resolve_waves depends roles ! j)))"
    by (intro impI allI, elim exE, rule order)
  with part show ?thesis by (intro conjI) simp_all
qed

theorem waves_respect_dependencies_witness:
  "\<exists>i j. j < i \<and> i < length (resolve_waves (\<lambda>r. if r = ''matching'' then [''research''] else []) [''matching'', ''research''])
     \<and> ''matching'' \<in> set (resolve_waves (\<lambda>r. if r = ''matching'' then [''research''] else []) [''matching'', ''research''] ! i)
     \<and> ''research'' \<in> set (resolve_waves (\<lambda>r. if r = ''matching'' then [''research''] else []) [''matching'', ''research''] ! j)"
proof -
  let ?d = "\<lambda>r. if r = ''matching'' then [''research''] else []" and ?rs = "[''matching'', ''research'']"
  note w = waves_respect_dependencies [of ?d ?rs]
  have "\<forall>r \<in> set ?rs. \<forall>d \<in> set (?d r) \<inter> set ?rs. (if d = ''matching'' then 1 else 0 :: nat) < (if r = ''matching'' then 1 else 0)"
    by simp
  with w have order: "\<forall>i r d. i < length (resolve_waves ?d ?rs) \<longrightarrow> r \<in> set (resolve_waves ?d ?rs ! i) \<longrightarrow>
         d \<in> set (?d r) \<inter> set ?rs \<longrightarrow> (\<exists>j < i. d \<in> set (resolve_waves ?d ?rs ! j))"
    by (elim conjE) (erule mp, rule exI)
  have "''matching'' \<in> set (concat (resolve_waves ?d ?rs))" unfolding conjunct1 [OF w] by simp
  then obtain x where "x \<in> set (resolve_waves ?d ?rs)" "''matching'' \<in> set x" unfolding set_concat by blast
  then obtain i where i: "i < length (resolve_waves ?d ?rs)" "''matching'' \<in> set (resolve_waves ?d ?rs ! i)"
    by (metis in_set_conv_nth)
  moreover have "''research'' \<in> set (?d ''matching'') \<inter> set ?rs" by simp
  ultimately show ?thesis using order by blast
qed

section \<open>Waves end\<close>

definition proc_less :: "('m proc \<times> 'm proc) set" where
  "proc_less = {(p, q). \<exists>f m. q = Await f \<and> p = snd (f m)}"

lemma wf_proc_less: "wf proc_less"
proof (rule wfUNIVI)
  fix P :: "'m proc \<Rightarrow> bool" and p
  assume step: "\<forall>x. (\<forall>y. (y, x) \<in> proc_less \<longrightarrow> P y) \<longrightarrow> P x"
  show "P p"
  proof (induction p)
    case (Done x)
    show ?case using step by (auto simp: proc_less_def)
  next
    case (Await f)
    have "P (snd (f m))" for m by (rule Await [of "f m"]) (auto simp: snds.simps prod_set_defs)
    then have "\<forall>y. (y, Await f) \<in> proc_less \<longrightarrow> P y" by (auto simp: proc_less_def)
    then show ?case using step by blast
  qed
qed

lemma wave_step_less:
  assumes "wave_step (m, ps) (m', ps')"
  shows "(mset (map snd ps'), mset (map snd ps)) \<in> mult proc_less" and "map fst ps' = map fst ps"
proof -
  obtain i r f p where s: "i < length ps" "ps ! i = (r, Await f)" "f m = (m', p)" "ps' = ps[i := (r, p)]"
    using assms by (auto elim: wave_stepE)
  have l: "map snd ps' = (map snd ps)[i := p]" by (simp add: s(4) map_update)
  have x: "map snd ps ! i = Await f" using s by simp
  have "mset (map snd ps) = add_mset (Await f) (mset (map snd ps) - {#Await f#})"
    using s x nth_mem_mset [of i "map snd ps"] by simp
  moreover have "mset (map snd ps') = add_mset p (mset (map snd ps) - {#Await f#})"
    using s(1) by (simp only: l mset_update length_map x)
  moreover have "(p, Await f) \<in> proc_less" using s(3) unfolding proc_less_def by (metis (mono_tags, lifting) case_prodI mem_Collect_eq snd_conv)
  ultimately show "(mset (map snd ps'), mset (map snd ps)) \<in> mult proc_less"
    using one_step_implies_mult [of "{#Await f#}" "{#p#}" proc_less "mset (map snd ps) - {#Await f#}"] by simp
  show "map fst ps' = map fst ps" using s by (simp add: map_update list_update_same_conv)
qed

lemma wf_wave_step: "wfp (\<lambda>s' s. wave_step s s')"
proof -
  have "wf (inv_image (mult proc_less) (\<lambda>(m, ps). mset (map snd ps)))"
    by (intro wf_inv_image wf_mult wf_proc_less)
  then have "wf {(s', s). wave_step s s'}"
    by (rule wf_subset) (auto simp: inv_image_def dest: wave_step_less(1))
  then show ?thesis by (simp add: wfp_def)
qed

lemma wave_roles: "wave_step\<^sup>*\<^sup>* (m, ps) (m', ps') \<Longrightarrow> map fst ps' = map fst ps"
  by (induction "(m', ps')" arbitrary: m' ps' rule: rtranclp_induct) (auto dest: wave_step_less(2))

lemma exists_map: "\<forall>y \<in> set ys. \<exists>x. y = f x \<Longrightarrow> \<exists>xs. ys = map f xs"
proof (induction ys)
  case (Cons y ys)
  then obtain x xs where "y = f x" "ys = map f xs" by auto
  then have "y # ys = map f (x # xs)" by simp
  then show ?case by (rule exI)
qed simp

lemma wave_ends: "\<exists>m' ends. wave_step\<^sup>*\<^sup>* s (m', map (\<lambda>(r, x). (r, Done x)) ends)"
proof (induction s rule: wfp_induct_rule [OF wf_wave_step])
  case (1 s)
  obtain m ps where st: "s = (m, ps)" by (cases s)
  show ?case
  proof (cases "\<exists>i < length ps. \<exists>r f. ps ! i = (r, Await f)")
    case True
    then obtain i r f where "i < length ps" "ps ! i = (r, Await f)" by blast
    moreover obtain m1 p where "f m = (m1, p)" by (metis surj_pair)
    ultimately have s: "wave_step s (m1, ps[i := (r, p)])" unfolding st by (rule wave_step.piece)
    from 1 [OF s] show ?thesis using s by (meson converse_rtranclp_into_rtranclp)
  next
    case False
    have "\<exists>ends. ps = map (\<lambda>(r, x). (r, Done x)) ends"
    proof -
      have "\<forall>q \<in> set ps. \<exists>e. q = (\<lambda>(r, x). (r, Done x)) e"
      proof
        fix q assume "q \<in> set ps"
        with False obtain r x where "q = (r, Done x)" by (metis in_set_conv_nth proc.exhaust surj_pair)
        then show "\<exists>e. q = (\<lambda>(r, x). (r, Done x)) e" by (intro exI [of _ "(r, x)"]) simp
      qed
      then show ?thesis by (rule exists_map)
    qed
    then show ?thesis unfolding st by blast
  qed
qed

lemma finish_role [simp]: "run_role (finish_run r x) = r"
  by (cases "(r, x)" rule: finish_run.cases) simp_all

lemma gather_total: "\<exists>m' runs. gather reg m rs m' runs"
proof -
  obtain m' ends where "wave_step\<^sup>*\<^sup>* (m, map (\<lambda>r. (r, behaviour (the (reg r)))) rs) (m', map (\<lambda>(r, x). (r, Done x)) ends)"
    using wave_ends [of "(m, map (\<lambda>r. (r, behaviour (the (reg r)))) rs)"] by (elim exE)
  from gather.all_done [OF this] show ?thesis by blast
qed

lemma gather_roles: "gather reg m rs m' runs \<Longrightarrow> map run_role runs = rs"
proof (induction rule: gather.induct)
  case (all_done m reg rs m' ends)
  from wave_roles [OF this] show ?case by (simp add: comp_def split_beta)
qed

lemma gather_results: "gather reg m rs m' runs \<Longrightarrow> x \<in> set runs \<Longrightarrow> run_status x = ''succeeded'' \<longleftrightarrow> run_error x = None"
proof (induction rule: gather.induct)
  case (all_done m reg rs m' ends)
  then obtain r y where "x = finish_run r y" by auto
  then show ?case by (cases "(r, y)" rule: finish_run.cases) simp_all
qed

lemma run_waves_total: "\<exists>m' runs. run_waves reg n m ws m' runs"
proof (induction ws arbitrary: m)
  case (Cons w ws)
  then show ?case using gather_total [of reg m "take n w"] by (metis run_waves.wave)
qed (blast intro: run_waves.no_wave)

lemma run_waves_roles:
  "run_waves reg n m ws m' runs \<Longrightarrow> map run_role runs = concat (map (take n) ws)
    \<and> (\<forall>x \<in> set runs. run_status x = ''succeeded'' \<longleftrightarrow> run_error x = None)"
  by (induction rule: run_waves.induct) (auto dest: gather_roles gather_results)

text \<open>C15: Every interleaving of the agents of a wave ends, and every pipeline ends with a result: one
  run for each planned role, in the order of the plan (the planner, then of every wave the
  first max_parallel_agents roles), the failure of one agent taking no run from another; its
  status is succeeded exactly when no run has recorded an error.\<close>

theorem pipeline_runs_planned:
  fixes reg :: "'m registry"
  shows "wfp (\<lambda>s' s. wave_step (s :: 'm \<times> (role \<times> 'm proc) list) s')
    \<and> (\<exists>out. run_pipeline reg n default_roles roles m out)
    \<and> (\<forall>out. run_pipeline reg n default_roles roles m out \<longrightarrow>
         map run_role (pl_runs out) = first_wave (known_roles reg default_roles roles)
           @ concat (map (take n) (later_waves reg (known_roles reg default_roles roles)))
         \<and> (pl_status out = ''succeeded'' \<longleftrightarrow> (\<forall>x \<in> set (pl_runs out). run_error x = None)))"
proof (intro conjI allI impI)
  show "wfp (\<lambda>s' s. wave_step (s :: 'm \<times> (role \<times> 'm proc) list) s')" by (rule wf_wave_step)
  show "\<exists>out. run_pipeline reg n default_roles roles m out"
    using gather_total run_waves_total run_pipeline.run [OF refl] by metis
next
  fix out assume "run_pipeline reg n default_roles roles m out"
  then show "map run_role (pl_runs out) = first_wave (known_roles reg default_roles roles)
      @ concat (map (take n) (later_waves reg (known_roles reg default_roles roles)))"
    by (cases rule: run_pipeline.cases) (simp add: gather_roles run_waves_roles)
next
  fix out assume "run_pipeline reg n default_roles roles m out"
  then show "pl_status out = ''succeeded'' \<longleftrightarrow> (\<forall>x \<in> set (pl_runs out). run_error x = None)"
  proof (cases rule: run_pipeline.cases)
    case (run rs m1 planned m2 runs)
    have "\<forall>x \<in> set (planned @ runs). run_status x = ''succeeded'' \<longleftrightarrow> run_error x = None"
      using gather_results [OF run(3)] run_waves_roles [OF run(4)] by auto
    then show ?thesis using run(1) by (simp add: pipeline_status_def)
  qed
qed

definition some_agents :: "nat registry" where
  "some_agents = [''planner'' \<mapsto> \<lparr>depends_on = [], behaviour = Await (\<lambda>m. (Suc m, Done ([], Inl ''boom'')))\<rparr>,
     ''research'' \<mapsto> \<lparr>depends_on = [], behaviour = Done ([], Inr (OtherValue ''ok''))\<rparr>,
     ''forecast'' \<mapsto> \<lparr>depends_on = [], behaviour = Done ([], Inr (OtherValue ''ok''))\<rparr>]"

lemma one_wave: "depends r = [] \<Longrightarrow> resolve_waves depends [r] = [[r]]"
  by (simp add: resolve_waves_def wave_loop.simps ready_roles_def wave_deps_def Let_def cong: conj_cong)

theorem pipeline_runs_planned_witness:
  "\<exists>out. run_pipeline some_agents 10 [''planner'', ''research''] None 0 out
     \<and> map run_role (pl_runs out) = [''planner'', ''research'']"
proof -
  have w: "known_roles some_agents [''planner'', ''research''] None = [''planner'', ''research'']"
    by (simp add: known_roles_def some_agents_def)
  have "depends_of some_agents ''research'' = []" by (simp add: depends_of_def some_agents_def)
  then have l: "later_waves some_agents [''planner'', ''research''] = [[''research'']]"
    by (simp add: later_waves_def one_wave)
  obtain out where "run_pipeline some_agents 10 [''planner'', ''research''] None 0 out"
    using pipeline_runs_planned [of some_agents 10 "[''planner'', ''research'']" None 0] by blast
  moreover from this have "map run_role (pl_runs out) = [''planner''] @ concat (map (take 10) [[''research'']])"
    using pipeline_runs_planned [of some_agents 10 "[''planner'', ''research'']" None 0] w l
    by (simp add: first_wave_def)
  ultimately show ?thesis by auto
qed

text \<open>A wave that is wider than max_parallel_agents loses agents instead of running them later: of
  independent roles only the first max_parallel_agents in the sorted order are ever run, and
  the pipeline still reports success when these succeed.\<close>

theorem wide_wave_dropped:
  assumes "distinct rs" and "rs \<noteq> []" and "''planner'' \<notin> set rs" and "\<forall>r \<in> set rs. reg r \<noteq> None"
    and "\<forall>r \<in> set rs. depends_of reg r = []"
    and "run_pipeline reg max_parallel_agents default_roles (Some rs) m out"
  shows "map run_role (pl_runs out) = take max_parallel_agents (sort rs)
    \<and> (pl_status out = ''succeeded'' \<longleftrightarrow> (\<forall>x \<in> set (pl_runs out). run_status x = ''succeeded''))"
proof -
  have k: "known_roles reg default_roles (Some rs) = rs"
    using assms(2,4) by (cases rs) (auto simp: known_roles_def filter_id_conv)
  have "resolve_waves (depends_of reg) rs = [sort rs]"
  proof -
    have "ready_roles (set rs) (wave_deps (depends_of reg) (set rs)) = set rs"
      using assms(5) by (auto simp: ready_roles_def wave_deps_def Let_def)
    then show ?thesis
      using assms(1,2) by (simp add: resolve_waves_def wave_loop.simps [of "set rs"] wave_loop.simps [of "{}"]
          Let_def sorted_list_of_set_sort_remdups distinct_remdups_id)
  qed
  moreover have "filter (\<lambda>r. r \<noteq> ''planner'') rs = rs" using assms(3) by (auto simp: filter_id_conv)
  ultimately have l: "later_waves reg rs = [sort rs]" by (simp add: later_waves_def)
  have f: "first_wave rs = []" using assms(3) by (simp add: first_wave_def)
  from assms(6) show ?thesis
  proof (cases rule: run_pipeline.cases)
    case (run rs' m1 planned m2 runs)
    then have "map run_role runs = take max_parallel_agents (sort rs)" "planned = []"
      using run_waves_roles [OF run(4)] gather_roles [OF run(3)] k l f by simp_all
    then show ?thesis using run(1) by (simp add: pipeline_status_def)
  qed
qed

theorem wide_wave_dropped_witness:
  "\<exists>out. run_pipeline some_agents 1 [] (Some [''research'', ''forecast'']) 0 out
     \<and> map run_role (pl_runs out) = [''forecast'']"
proof -
  obtain out where r: "run_pipeline some_agents 1 [] (Some [''research'', ''forecast'']) 0 out"
    using gather_total run_waves_total run_pipeline.run [OF refl] by metis
  have "map run_role (pl_runs out) = take 1 (sort [''research'', ''forecast''])
    \<and> (pl_status out = ''succeeded'' \<longleftrightarrow> (\<forall>x \<in> set (pl_runs out). run_status x = ''succeeded''))"
    by (rule wide_wave_dropped [OF _ _ _ _ _ r]) (simp_all add: some_agents_def depends_of_def)
  moreover have "sort [''research'', ''forecast''] = [''forecast'', ''research'']" by code_simp
  ultimately show ?thesis using r by auto
qed

end
