(* ===== verification/Retailer.thy ===== *)
theory Retailer
  imports StateMachine Numbers
begin

text \<open>
  The monthly search budget of the retailer look-ups and what spends it: \<open>budget.py\<close>, the
  request of \<open>client.py\<close> and the refresh cycle of \<open>scheduler.py\<close>, all under
  \<open>app/integrations/retailers\<close>. Redis is a parameter, a record of the commands on counters; the
  network is one too, the outcome of each attempt. Times are UTC, with whole seconds.
\<close>

section \<open>The calendar\<close>

record moment =
  year :: nat
  month :: nat
  day :: nat
  second_of_day :: nat

definition leap_year :: "nat \<Rightarrow> bool" where
  "leap_year y \<longleftrightarrow> y mod 4 = 0 \<and> (y mod 100 \<noteq> 0 \<or> y mod 400 = 0)"

definition month_length :: "nat \<Rightarrow> nat \<Rightarrow> nat" where
  "month_length y m = (if m = 2 then (if leap_year y then 29 else 28) else if m \<in> {4, 6, 9, 11} then 30 else 31)"

text \<open>The days from a date to the first of the next month, \<open>timedelta.days\<close>.\<close>

definition days_to_next_month :: "moment \<Rightarrow> int" where
  "days_to_next_month now = int (month_length (year now) (month now)) - int (day now) + 1"

definition seconds_until_next_month :: "moment \<Rightarrow> int" where
  "seconds_until_next_month now = max 1 (days_to_next_month now * 86400 - int (second_of_day now))"

definition days_left_in_month :: "moment \<Rightarrow> int" where
  "days_left_in_month now = max 1 (days_to_next_month now)"

text \<open>\<open>f"{now:%Y-%m}"\<close>\<close>

definition two_digits :: "nat \<Rightarrow> string" where
  "two_digits n = [char_of (48 + n div 10 mod 10), char_of (48 + n mod 10)]"

definition month_key :: "moment \<Rightarrow> string" where
  "month_key now = ''retailer:budget:'' @ two_digits (year now div 100) @ two_digits (year now mod 100) @ ''-'' @ two_digits (month now)"

section \<open>The budget\<close>

text \<open>\<open>GET\<close>, \<open>INCR\<close>, \<open>DECR\<close> and \<open>EXPIRE\<close> on a Redis at \<open>'r\<close>.\<close>

record 'r counters =
  c_get :: "string \<Rightarrow> 'r \<Rightarrow> int option"
  c_incr :: "string \<Rightarrow> 'r \<Rightarrow> int \<times> 'r"
  c_decr :: "string \<Rightarrow> 'r \<Rightarrow> int \<times> 'r"
  c_expire :: "string \<Rightarrow> int \<Rightarrow> 'r \<Rightarrow> 'r"

definition monthly_limit :: "int \<Rightarrow> int" where
  "monthly_limit n = max n 0"

definition used_redis :: "'r counters \<Rightarrow> moment \<Rightarrow> 'r \<Rightarrow> int" where
  "used_redis C now r = (case c_get C (month_key now) r of None \<Rightarrow> 0 | Some v \<Rightarrow> v)"

definition remaining_redis :: "'r counters \<Rightarrow> int \<Rightarrow> moment \<Rightarrow> 'r \<Rightarrow> int" where
  "remaining_redis C limit now r = max 0 (limit - used_redis C now r)"

definition try_acquire_redis :: "'r counters \<Rightarrow> int \<Rightarrow> moment \<Rightarrow> 'r \<Rightarrow> bool \<times> 'r" where
  "try_acquire_redis C limit now r =
     (let key = month_key now;
          (used, r) = c_incr C key r;
          r = (if used = 1 then c_expire C key (seconds_until_next_month now) r else r) in
      if limit < used then (False, snd (c_decr C key r)) else (True, r))"

definition release_redis :: "'r counters \<Rightarrow> moment \<Rightarrow> 'r \<Rightarrow> 'r" where
  "release_redis C now r = snd (c_decr C (month_key now) r)"

definition used_local :: "moment \<Rightarrow> (string \<rightharpoonup> int) \<Rightarrow> int" where
  "used_local now l = (case l (month_key now) of None \<Rightarrow> 0 | Some v \<Rightarrow> v)"

definition remaining_local :: "int \<Rightarrow> moment \<Rightarrow> (string \<rightharpoonup> int) \<Rightarrow> int" where
  "remaining_local limit now l = max 0 (limit - used_local now l)"

definition try_acquire_local :: "int \<Rightarrow> moment \<Rightarrow> (string \<rightharpoonup> int) \<Rightarrow> bool \<times> (string \<rightharpoonup> int)" where
  "try_acquire_local limit now l =
     (if limit \<le> used_local now l then (False, l) else (True, l(month_key now \<mapsto> used_local now l + 1)))"

definition release_local :: "moment \<Rightarrow> (string \<rightharpoonup> int) \<Rightarrow> (string \<rightharpoonup> int)" where
  "release_local now l = l(month_key now \<mapsto> max 0 (used_local now l - 1))"

definition daily_allowance :: "int \<Rightarrow> moment \<Rightarrow> int" where
  "daily_allowance remaining now =
     (if remaining \<le> 0 then 0
      else min (max 1 (remaining div days_left_in_month now)) remaining)"

section \<open>Concurrent workers\<close>

text \<open>
  Each Redis command is atomic and workers interleave between commands. A worker that has
  counted itself has \<open>INCR\<close>'s answer; one over the limit has still to roll back; one that
  holds a token either spends it or returns it. \<open>spent\<close> counts the searches made on the tokens of
  a month.
\<close>

datatype phase = Ready | Counted int | Over | Holding

record 'r fleet =
  redis_state :: 'r
  phases :: "phase list"
  spent :: nat

inductive budget_step :: "'r counters \<Rightarrow> int \<Rightarrow> moment \<Rightarrow> 'r fleet \<Rightarrow> 'r fleet \<Rightarrow> bool" for C limit now where
  count: "i < length (phases f) \<Longrightarrow> phases f ! i = Ready \<Longrightarrow> c_incr C (month_key now) (redis_state f) = (used, r) \<Longrightarrow>
    budget_step C limit now f (f\<lparr>redis_state := r, phases := (phases f)[i := Counted used]\<rparr>)"
| decide: "i < length (phases f) \<Longrightarrow> phases f ! i = Counted used \<Longrightarrow>
    r = (if used = 1 then c_expire C (month_key now) (seconds_until_next_month now) (redis_state f) else redis_state f) \<Longrightarrow>
    budget_step C limit now f (f\<lparr>redis_state := r, phases := (phases f)[i := if limit < used then Over else Holding]\<rparr>)"
| roll_back: "i < length (phases f) \<Longrightarrow> phases f ! i = Over \<Longrightarrow>
    budget_step C limit now f (f\<lparr>redis_state := snd (c_decr C (month_key now) (redis_state f)), phases := (phases f)[i := Ready]\<rparr>)"
| spend: "i < length (phases f) \<Longrightarrow> phases f ! i = Holding \<Longrightarrow>
    budget_step C limit now f (f\<lparr>phases := (phases f)[i := Ready], spent := Suc (spent f)\<rparr>)"
| give_back: "i < length (phases f) \<Longrightarrow> phases f ! i = Holding \<Longrightarrow>
    budget_step C limit now f (f\<lparr>redis_state := release_redis C now (redis_state f), phases := (phases f)[i := Ready]\<rparr>)"

section \<open>A request\<close>

datatype retailer_error =
    RetailerAuthenticationError
  | RetailerBudgetExceededError
  | RetailerRequestError
  | OtherError string

text \<open>
  What an attempt meets: a timeout, another failure of the transport, or a response: its status,
  \<open>Retry-After\<close> if it is an integer, and its body, which may not be JSON (\<open>None\<close>) or may be a
  block with an error.
\<close>

datatype 'd body = ErrorBlock | Payload 'd

datatype 'd attempt_outcome = TimedOut | TransportError string | Response int "nat option" "'d body option"

fun request_loop :: "(nat \<Rightarrow> 'd attempt_outcome) \<Rightarrow> nat \<Rightarrow> nat \<Rightarrow> nat \<Rightarrow> retailer_error + 'd" where
  "request_loop net max_retries attempt 0 = Inl RetailerRequestError"
| "request_loop net max_retries attempt (Suc left) =
     (case net attempt of
        TimedOut \<Rightarrow>
          if attempt < max_retries then request_loop net max_retries (Suc attempt) left else Inl RetailerRequestError
      | TransportError e \<Rightarrow> Inl (OtherError e)
      | Response status retry_after content \<Rightarrow>
          if status = 401 then Inl RetailerAuthenticationError
          else if status = 429 then
            (case retry_after of None \<Rightarrow> Inl (OtherError ''ValueError'')
             | Some _ \<Rightarrow> request_loop net max_retries (Suc attempt) left)
          else if 500 \<le> status then
            (if attempt < max_retries then request_loop net max_retries (Suc attempt) left else Inl RetailerRequestError)
          else if \<not> (200 \<le> status \<and> status < 300) then Inl RetailerRequestError
          else (case content of
              None \<Rightarrow> Inl (OtherError ''JSONDecodeError'')
            | Some ErrorBlock \<Rightarrow> Inl RetailerRequestError
            | Some (Payload d) \<Rightarrow> Inr d))"

definition request_uncached :: "(nat \<Rightarrow> 'd attempt_outcome) \<Rightarrow> nat \<Rightarrow> retailer_error + 'd" where
  "request_uncached net max_retries = request_loop net max_retries 0 (max_retries + 1)"

text \<open>\<open>u\<close>: the random number of the jitter\<close>

definition retry_delay :: "rat \<Rightarrow> rat \<Rightarrow> nat \<Rightarrow> rat \<Rightarrow> rat" where
  "retry_delay retry_base_delay retry_max_delay attempt u =
     (let delay = min (fl (retry_base_delay * 2 ^ attempt)) retry_max_delay in
      fl (delay + fl (fl (delay * fl (1 / 10)) * u)))"

text \<open>\<open>acquire\<close> and \<open>release\<close> are those of the budget, with Redis or in the process.\<close>

definition retailer_request ::
  "('s \<Rightarrow> bool \<times> 's) \<Rightarrow> ('s \<Rightarrow> 's) \<Rightarrow> bool \<Rightarrow> nat \<Rightarrow> 'd option \<Rightarrow> (nat \<Rightarrow> 'd attempt_outcome) \<Rightarrow> ('s, retailer_error, 'd) act" where
  "retailer_request acquire release is_configured max_retries cached net s =
     (if \<not> is_configured then (Inl RetailerAuthenticationError, s)
      else (case cached of
        Some d \<Rightarrow> (Inr d, s)
      | None \<Rightarrow>
          (case acquire s of
             (False, s) \<Rightarrow> (Inl RetailerBudgetExceededError, s)
           | (True, s) \<Rightarrow>
               (case request_uncached net max_retries of
                  Inl e \<Rightarrow> (Inl e, release s)
                | Inr d \<Rightarrow> (Inr d, s)))))"

section \<open>The refresh cycle\<close>

text \<open>\<open>fetch q\<close> is the service's look-up of a request, which may raise after it has been counted.\<close>

fun refresh_loop :: "('q \<Rightarrow> ('s, retailer_error, 'd) act) \<Rightarrow> int \<Rightarrow> 'q list \<Rightarrow> int \<Rightarrow> 's \<Rightarrow> int \<times> 's" where
  "refresh_loop fetch allowance [] refreshed s = (refreshed, s)"
| "refresh_loop fetch allowance (q # qs) refreshed s =
     (if allowance \<le> refreshed then (refreshed, s)
      else (case fetch q s of
        (Inr _, s) \<Rightarrow> refresh_loop fetch allowance qs (refreshed + 1) s
      | (Inl RetailerBudgetExceededError, s) \<Rightarrow> (refreshed, s)
      | (Inl _, s) \<Rightarrow> refresh_loop fetch allowance qs refreshed s))"

definition refresh_cycle ::
  "('s \<Rightarrow> int) \<Rightarrow> moment \<Rightarrow> ('q \<Rightarrow> ('s, retailer_error, 'd) act) \<Rightarrow> 'q list \<Rightarrow> 's \<Rightarrow> int \<times> 's" where
  "refresh_cycle remaining now fetch requests s =
     (let allowance = daily_allowance (remaining s) now in
      if allowance \<le> 0 then (0, s) else refresh_loop fetch allowance requests 0 s)"

definition refresh_single :: "('q \<Rightarrow> ('s, retailer_error, 'd) act) \<Rightarrow> 'q \<Rightarrow> 's \<Rightarrow> bool \<times> 's" where
  "refresh_single fetch q s = (case fetch q s of (Inr _, s) \<Rightarrow> (True, s) | (Inl _, s) \<Rightarrow> (False, s))"

end
