(* ===== verification/RetailerProps.thy ===== *)
theory RetailerProps
  imports Retailer
begin

text \<open>
  The search budget is never exceeded, whether workers interleave on Redis or one process counts
  for itself; a request costs one search if it succeeds over the network and none otherwise.
\<close>

section \<open>The contract of a budget\<close>

locale search_budget =
  fixes acquire :: "'s \<Rightarrow> bool \<times> 's" and release :: "'s \<Rightarrow> 's" and used :: "'s \<Rightarrow> int" and limit :: int
    and inv :: "'s \<Rightarrow> bool"
  assumes acquires: "inv s \<Longrightarrow> acquire s = (b, s') \<Longrightarrow>
      inv s' \<and> (b \<longleftrightarrow> used s < limit) \<and> used s' = used s + of_bool b"
    and returns: "inv s \<Longrightarrow> 0 < used s \<Longrightarrow> inv (release s) \<and> used (release s) = used s - 1"
    and used_nonneg: "inv s \<Longrightarrow> 0 \<le> used s"
begin

lemma request_cost:
  assumes "retailer_request acquire release cfg n cached net s = (res, s')" and "inv s"
  shows "inv s' \<and> used s' = used s + of_bool (cfg \<and> cached = None \<and> (\<exists>d. res = Inr d))
    \<and> (used s < used s' \<longrightarrow> used s < limit)"
proof (cases "cfg \<and> cached = None")
  case True
  obtain b s1 where a: "acquire s = (b, s1)" by (metis surj_pair)
  note g = acquires [OF assms(2) a]
  show ?thesis
  proof (cases b)
    case b: True
    then have "inv s1" "used s1 = used s + 1" "used s < limit" using g by simp_all
    moreover from this have "inv (release s1)" "used (release s1) = used s"
      using returns [of s1] used_nonneg [OF assms(2)] by simp_all
    ultimately show ?thesis
    proof (cases "request_uncached net n")
      case (Inl e)
      then have "res = Inl e" "s' = release s1" using assms(1) True a b by (simp_all add: retailer_request_def)
      then show ?thesis using \<open>inv (release s1)\<close> \<open>used (release s1) = used s\<close> by simp
    next
      case (Inr d)
      then have "res = Inr d" "s' = s1" using assms(1) True a b by (simp_all add: retailer_request_def)
      then show ?thesis using \<open>inv s1\<close> \<open>used s1 = used s + 1\<close> \<open>used s < limit\<close> True by simp
    qed
  next
    case b: False
    then show ?thesis using assms(1) True a g by (auto simp: retailer_request_def)
  qed
next
  case False
  then show ?thesis using assms by (auto simp: retailer_request_def split: if_splits option.splits)
qed

lemma request_within:
  assumes "retailer_request acquire release cfg n cached net s = (res, s')" and "inv s" "used s \<le> limit"
  shows "inv s' \<and> used s' \<le> limit"
  using request_cost [OF assms(1,2)] assms(3) by (cases "used s < used s'") (auto split: if_splits)

lemma refresh_within:
  assumes "refresh_loop (\<lambda>q. retailer_request acquire release cfg n (cached q) (net q)) allowance qs k s = (k', s')"
    and "inv s" "used s \<le> limit" "k \<le> allowance"
  shows "inv s' \<and> used s' \<le> limit \<and> k \<le> k' \<and> k' \<le> allowance \<and> used s' - used s \<le> k' - k"
  using assms
proof (induction qs arbitrary: k s)
  case (Cons q qs)
  show ?case
  proof (cases "allowance \<le> k")
    case False
    obtain res s1 where r: "retailer_request acquire release cfg n (cached q) (net q) s = (res, s1)" by (metis surj_pair)
    have w: "inv s1" "used s1 \<le> limit" using request_within [OF r Cons.prems(2,3)] by simp_all
    have c: "used s1 = used s + of_bool (cfg \<and> cached q = None \<and> (\<exists>d. res = Inr d))"
      using request_cost [OF r Cons.prems(2)] by blast
    show ?thesis
    proof (cases res)
      case (Inr d)
      have "used s1 - used s \<le> 1" by (simp add: c)
      then show ?thesis using Cons.IH [OF _ w, of "k + 1"] Cons.prems r Inr False by auto
    next
      case (Inl e)
      then have "used s1 = used s" by (simp add: c)
      then show ?thesis
        using Cons.IH [OF _ w, of k] Cons.prems r Inl w by (cases e) (auto split: if_splits)
    qed
  qed (use Cons.prems in auto)
qed auto

end

text \<open>The laws of Redis' counters: \<open>EXPIRE\<close> keeps the value until the key expires.\<close>

definition counted :: "'r counters \<Rightarrow> string \<Rightarrow> 'r \<Rightarrow> int" where
  "counted C k r = (case c_get C k r of None \<Rightarrow> 0 | Some v \<Rightarrow> v)"

definition lawful_counts :: "'r counters \<Rightarrow> bool" where
  "lawful_counts C \<longleftrightarrow>
     (\<forall>k r. fst (c_incr C k r) = counted C k r + 1
        \<and> (\<forall>j. counted C j (snd (c_incr C k r)) = (if j = k then counted C k r + 1 else counted C j r)))
     \<and> (\<forall>k r j. counted C j (snd (c_decr C k r)) = (if j = k then counted C k r - 1 else counted C j r))
     \<and> (\<forall>k t r j. counted C j (c_expire C k t r) = counted C j r)"

lemma lawful_incr:
  "lawful_counts C \<Longrightarrow> c_incr C k r = (v, r') \<Longrightarrow> v = counted C k r + 1"
  "lawful_counts C \<Longrightarrow> c_incr C k r = (v, r') \<Longrightarrow> counted C j r' = (if j = k then counted C k r + 1 else counted C j r)"
  unfolding lawful_counts_def by (metis fst_conv, metis snd_conv)

lemma lawful_decr: "lawful_counts C \<Longrightarrow> counted C j (snd (c_decr C k r)) = (if j = k then counted C k r - 1 else counted C j r)"
  unfolding lawful_counts_def by blast

lemma lawful_expire: "lawful_counts C \<Longrightarrow> counted C j (c_expire C k t r) = counted C j r"
  unfolding lawful_counts_def by blast

lemma try_acquire_counts:
  assumes "lawful_counts C" and "try_acquire_redis C limit now r = (b, r')"
  shows "b \<longleftrightarrow> counted C (month_key now) r < limit"
    and "counted C (month_key now) r' = counted C (month_key now) r + of_bool b"
proof -
  obtain used r1 where i: "c_incr C (month_key now) r = (used, r1)" by (metis surj_pair)
  note law = lawful_incr [OF assms(1) i] lawful_decr [OF assms(1)] lawful_expire [OF assms(1)]
  show "b \<longleftrightarrow> counted C (month_key now) r < limit"
    "counted C (month_key now) r' = counted C (month_key now) r + of_bool b"
    using assms(2) i law by (auto simp: try_acquire_redis_def Let_def split: if_splits)
qed

interpretation redis_budget: search_budget "try_acquire_redis C limit now" "release_redis C now"
  "counted C (month_key now)" limit "\<lambda>r. lawful_counts C \<and> 0 \<le> counted C (month_key now) r"
  for C :: "'r counters" and limit now
proof
  fix r :: 'r and b r' assume "lawful_counts C \<and> 0 \<le> counted C (month_key now) r" "try_acquire_redis C limit now r = (b, r')"
  then show "(lawful_counts C \<and> 0 \<le> counted C (month_key now) r') \<and> (b \<longleftrightarrow> counted C (month_key now) r < limit)
      \<and> counted C (month_key now) r' = counted C (month_key now) r + of_bool b"
    using try_acquire_counts [of C limit now r b r'] by auto
qed (auto simp: release_redis_def lawful_decr)

interpretation local_budget: search_budget "try_acquire_local limit now" "release_local now" "used_local now" limit
  "\<lambda>l. 0 \<le> used_local now l" for limit now
  by unfold_locales (auto simp: try_acquire_local_def release_local_def used_local_def split: if_splits)

section \<open>Interleaved workers\<close>

lemma count_update:
  "i < length xs \<Longrightarrow> int (length (filter P (xs[i := y])))
     = int (length (filter P xs)) - of_bool (P (xs ! i)) + of_bool (P y)"
proof (induction xs arbitrary: i)
  case (Cons x xs)
  then show ?case by (cases i) auto
qed simp

definition busy :: "phase list \<Rightarrow> int" where
  "busy ps = int (length (filter (\<lambda>p. p \<noteq> Ready) ps))"

definition entitled :: "int \<Rightarrow> phase \<Rightarrow> bool" where
  "entitled limit p \<longleftrightarrow> p = Holding \<or> (\<exists>used. p = Counted used \<and> used \<le> limit)"

definition tokens :: "int \<Rightarrow> phase list \<Rightarrow> int" where
  "tokens limit ps = int (length (filter (entitled limit) ps))"

definition budget_inv :: "'r counters \<Rightarrow> int \<Rightarrow> moment \<Rightarrow> 'r fleet \<Rightarrow> bool" where
  "budget_inv C limit now f \<longleftrightarrow> counted C (month_key now) (redis_state f) = int (spent f) + busy (phases f)
     \<and> int (spent f) + tokens limit (phases f) \<le> limit"

lemma tokens_busy: "tokens limit ps \<le> busy ps"
  by (induction ps) (auto simp: tokens_def busy_def entitled_def)

lemma holding_tokens: "int (length (filter (\<lambda>p. p = Holding) ps)) \<le> tokens limit ps"
  by (induction ps) (auto simp: tokens_def entitled_def)

lemma busy_update: "i < length ps \<Longrightarrow> busy (ps[i := p]) = busy ps - of_bool (ps ! i \<noteq> Ready) + of_bool (p \<noteq> Ready)"
  by (simp add: busy_def count_update)

lemma tokens_update: "i < length ps \<Longrightarrow>
  tokens limit (ps[i := p]) = tokens limit ps - of_bool (entitled limit (ps ! i)) + of_bool (entitled limit p)"
  by (simp add: tokens_def count_update)

lemma budget_step_inv:
  assumes law: "lawful_counts C" and "budget_step C limit now f f'" and "budget_inv C limit now f"
  shows "budget_inv C limit now f'"
  using assms(2,3)
proof (cases rule: budget_step.cases)
  case (count i used r)
  have "used = int (spent f) + busy (phases f) + 1" "counted C (month_key now) r = int (spent f) + busy (phases f) + 1"
    using lawful_incr [OF law count(4)] assms(3) by (simp_all add: budget_inv_def)
  moreover have "tokens limit (phases f) \<le> busy (phases f)" by (rule tokens_busy)
  ultimately show ?thesis using assms(3) count
    by (auto simp: budget_inv_def busy_update tokens_update entitled_def)
next
  case (decide i used r)
  then have "counted C (month_key now) r = counted C (month_key now) (redis_state f)" by (simp add: lawful_expire [OF law])
  then show ?thesis using assms(3) decide by (auto simp: budget_inv_def busy_update tokens_update entitled_def)
qed (use assms(3) in \<open>auto simp: budget_inv_def busy_update tokens_update entitled_def release_redis_def lawful_decr [OF law]\<close>)

text \<open>C17: However many workers interleave their Redis commands within a month, the searches spent and
  the tokens held together never exceed the limit, and once every worker is idle the counter is
  exactly the number of searches spent: a refused worker leaves no trace and a returned token is
  available again.\<close>

theorem budget_never_exceeded:
  assumes "lawful_counts C"
    and "\<forall>p \<in> set (phases f). p = Ready" and "counted C (month_key now) (redis_state f) = int (spent f)"
    and "int (spent f) \<le> limit" and "(budget_step C limit now)\<^sup>*\<^sup>* f f'"
  shows "int (spent f') + int (length (filter (\<lambda>p. p = Holding) (phases f'))) \<le> limit
    \<and> ((\<forall>p \<in> set (phases f'). p = Ready) \<longrightarrow> counted C (month_key now) (redis_state f') = int (spent f'))"
proof -
  have "filter (\<lambda>p. p \<noteq> Ready) (phases f) = []" "filter (entitled limit) (phases f) = []"
    using assms(2) by (auto simp: filter_empty_conv entitled_def)
  then have "budget_inv C limit now f" using assms(3,4) by (simp add: budget_inv_def busy_def tokens_def)
  with assms(5) have inv: "budget_inv C limit now f'"
    by (induction rule: rtranclp_induct) (auto intro: budget_step_inv [OF assms(1)])
  have "int (length (filter (\<lambda>p. p = Holding) (phases f'))) \<le> tokens limit (phases f')"
    by (rule holding_tokens)
  moreover have "busy (phases f') = 0" if "\<forall>p \<in> set (phases f'). p = Ready"
    using that by (simp add: busy_def filter_empty_conv)
  ultimately show ?thesis using inv by (auto simp: budget_inv_def)
qed

text \<open>Redis counters as a total function.\<close>

definition mem_counters :: "(string \<Rightarrow> int) counters" where
  "mem_counters = \<lparr>c_get = \<lambda>k r. Some (r k), c_incr = \<lambda>k r. (r k + 1, r(k := r k + 1)),
     c_decr = \<lambda>k r. (r k - 1, r(k := r k - 1)), c_expire = \<lambda>k t r. r\<rparr>"

lemma mem_counters_lawful: "lawful_counts mem_counters"
  by (simp add: lawful_counts_def mem_counters_def counted_def)

definition january :: moment where
  "january = \<lparr>year = 2025, month = 1, day = 1, second_of_day = 0\<rparr>"

text \<open>Two workers and a limit of one: both count themselves before either decides.\<close>

theorem budget_never_exceeded_witness:
  "(budget_step mem_counters 1 january)\<^sup>*\<^sup>*
     \<lparr>redis_state = \<lambda>_. 0, phases = [Ready, Ready], spent = 0\<rparr>
     \<lparr>redis_state = (\<lambda>_. 0)(month_key january := 2), phases = [Counted 1, Counted 2], spent = 0\<rparr>
   \<and> \<not> (budget_step mem_counters 1 january)\<^sup>*\<^sup>*
     \<lparr>redis_state = \<lambda>_. 0, phases = [Ready, Ready], spent = 0\<rparr>
     \<lparr>redis_state = (\<lambda>_. 0)(month_key january := 2), phases = [Holding, Holding], spent = 0\<rparr>"
proof
  let ?f = "\<lparr>redis_state = \<lambda>_. 0 :: int, phases = [Ready, Ready], spent = 0\<rparr>"
  let ?f1 = "\<lparr>redis_state = (\<lambda>_. 0 :: int)(month_key january := 1), phases = [Counted 1, Ready], spent = 0\<rparr>"
  let ?f2 = "\<lparr>redis_state = (\<lambda>_. 0 :: int)(month_key january := 2), phases = [Counted 1, Counted 2], spent = 0\<rparr>"
  let ?f3 = "\<lparr>redis_state = (\<lambda>_. 0 :: int)(month_key january := 2), phases = [Holding, Holding], spent = 0\<rparr>"
  have "budget_step mem_counters 1 january ?f ?f1"
    using budget_step.count [of 0 ?f mem_counters january 1 "(\<lambda>_. 0)(month_key january := 1)" 1]
    by (simp add: mem_counters_def)
  moreover have "budget_step mem_counters 1 january ?f1 ?f2"
    using budget_step.count [of 1 ?f1 mem_counters january 2 "(\<lambda>_. 0)(month_key january := 2)" 1]
    by (simp add: mem_counters_def)
  ultimately show "(budget_step mem_counters 1 january)\<^sup>*\<^sup>* ?f ?f2" by simp
  show "\<not> (budget_step mem_counters 1 january)\<^sup>*\<^sup>* ?f ?f3"
    using budget_never_exceeded [OF mem_counters_lawful, of ?f january 1 ?f3]
    by (auto simp: counted_def mem_counters_def)
qed

text \<open>A refresh cycle, run by one job on Redis, fetches at most the daily allowance of products over
  the network, never leaves more than the monthly limit counted, and counts exactly as many
  searches as its look-ups made; the allowance itself is at most what remains of the month and,
  spent on every day left, exhausts it only if less than one search a day was left.\<close>

theorem refresh_within_allowance:
  assumes "lawful_counts C" and "0 \<le> counted C (month_key now) r" and "counted C (month_key now) r \<le> limit"
    and "refresh_cycle (remaining_redis C limit now) now
           (\<lambda>q. retailer_request (try_acquire_redis C limit now) (release_redis C now) cfg n (cached q) (net q)) qs r = (k, r')"
  shows "k \<le> daily_allowance (limit - counted C (month_key now) r) now
    \<and> counted C (month_key now) r' \<le> limit
    \<and> counted C (month_key now) r' - counted C (month_key now) r \<le> k
    \<and> daily_allowance (limit - counted C (month_key now) r) now * days_left_in_month now
        \<le> max (limit - counted C (month_key now) r) (days_left_in_month now)"
proof -
  let ?left = "limit - counted C (month_key now) r" and ?d = "days_left_in_month now"
  have rem: "remaining_redis C limit now r = ?left"
    using assms(3) by (simp add: remaining_redis_def used_redis_def counted_def)
  have d: "1 \<le> ?d" by (simp add: days_left_in_month_def)
  have "daily_allowance ?left now * ?d \<le> max ?left ?d"
  proof (cases "?left div ?d \<le> 1")
    case True
    then have "daily_allowance ?left now \<le> 1" by (simp add: daily_allowance_def)
    then have "daily_allowance ?left now * ?d \<le> 1 * ?d" using d by (intro mult_right_mono) auto
    then show ?thesis by simp
  next
    case False
    then have "daily_allowance ?left now \<le> ?left div ?d" by (simp add: daily_allowance_def)
    then have "daily_allowance ?left now * ?d \<le> (?left div ?d) * ?d" using d by (intro mult_right_mono) auto
    also have "\<dots> \<le> ?left" using d div_mult_mod_eq [of ?left ?d] pos_mod_sign [of ?d ?left] by linarith
    finally show ?thesis by simp
  qed
  moreover have "k \<le> daily_allowance ?left now \<and> counted C (month_key now) r' \<le> limit
    \<and> counted C (month_key now) r' - counted C (month_key now) r \<le> k"
  proof (cases "daily_allowance ?left now \<le> 0")
    case True
    moreover have "0 \<le> daily_allowance ?left now" by (simp add: daily_allowance_def le_max_iff_disj)
    ultimately show ?thesis using assms(3,4) rem by (simp add: refresh_cycle_def Let_def)
  next
    case False
    then show ?thesis
      using redis_budget.refresh_within [of C limit now cfg n cached net "daily_allowance ?left now" qs 0 r k r'] assms rem
      by (simp add: refresh_cycle_def Let_def)
  qed
  ultimately show ?thesis by blast
qed

theorem refresh_within_allowance_witness:
  "\<exists>k r'. refresh_cycle (remaining_redis mem_counters 250 january) january
       (\<lambda>q. retailer_request (try_acquire_redis mem_counters 250 january) (release_redis mem_counters january) True 2 None
          (\<lambda>_. Response 200 None (Some (Payload q)))) [''10291024'', ''203202930''] (\<lambda>_. 0) = (k, r')
     \<and> k \<le> 8 \<and> r' (month_key january) \<le> 250"
proof -
  let ?fetch = "\<lambda>q. retailer_request (try_acquire_redis mem_counters 250 january) (release_redis mem_counters january) True 2 None
          (\<lambda>_. Response 200 None (Some (Payload q)))"
  obtain k r' where c: "refresh_cycle (remaining_redis mem_counters 250 january) january ?fetch
      [''10291024'', ''203202930''] (\<lambda>_. 0) = (k, r')" by (metis surj_pair)
  have "daily_allowance 250 january = 8"
    by (simp add: daily_allowance_def days_left_in_month_def days_to_next_month_def month_length_def january_def)
  with refresh_within_allowance [OF mem_counters_lawful _ _ c] c show ?thesis
    by (simp add: counted_def mem_counters_def)
qed

section \<open>What the budget does not hold\<close>

text \<open>
  The allowance of a day knows nothing of what the day has spent: four cycles of one day (the
  default interval is six hours) spend 29 searches where the first computed 8.
\<close>

lemma cycles_exceed_allowance:
  "daily_allowance 250 january = 8 \<and> daily_allowance (250 - 8) january = 7
   \<and> daily_allowance (250 - 15) january = 7 \<and> daily_allowance (250 - 22) january = 7"
  by (simp add: daily_allowance_def days_left_in_month_def days_to_next_month_def month_length_def january_def)

text \<open>
  A token taken in one month and returned in the next lowers the new month's counter below zero,
  and one search more than the limit is granted.
\<close>

fun acquire_times :: "'r counters \<Rightarrow> int \<Rightarrow> moment \<Rightarrow> nat \<Rightarrow> 'r \<Rightarrow> int \<times> 'r" where
  "acquire_times C limit now 0 r = (0, r)"
| "acquire_times C limit now (Suc n) r =
     (let (b, r) = try_acquire_redis C limit now r; (k, r) = acquire_times C limit now n r in (of_bool b + k, r))"

lemma acquire_times_granted:
  assumes "lawful_counts C" and "counted C (month_key now) r + int n \<le> limit"
  shows "fst (acquire_times C limit now n r) = int n"
  using assms(2)
proof (induction n arbitrary: r)
  case (Suc n)
  obtain b r' where a: "try_acquire_redis C limit now r = (b, r')" by (metis surj_pair)
  with try_acquire_counts [OF assms(1) a] Suc.prems have "b" "counted C (month_key now) r' + int n \<le> limit" by auto
  with Suc.IH [of r'] a show ?case by (simp add: Let_def split_beta)
qed simp

lemma late_release_adds_search:
  assumes "lawful_counts C" and "counted C (month_key now) r = 0" and "0 \<le> limit"
  shows "fst (acquire_times C limit now (nat (limit + 1)) (release_redis C now r)) = limit + 1"
proof -
  have "counted C (month_key now) (release_redis C now r) = - 1"
    by (simp add: release_redis_def lawful_decr [OF assms(1)] assms(2))
  then show ?thesis using acquire_times_granted [OF assms(1), of now "release_redis C now r" "nat (limit + 1)" limit] assms(3) by simp
qed

end
