(* ===== verification/RetailerService.thy ===== *)
theory RetailerService
  imports Retailer SourcingEngine Texts
begin

text \<open>
  The retailer look-ups (\<open>app/integrations/retailers/models.py\<close>, \<open>service.py\<close>): the list of
  monitored products, the mapping of a normalised product into the metrics of the sourcing
  rules by way of the profit engine, and the scoring of that snapshot. Parsing the payloads of
  the retailers is not modelled.
\<close>

section \<open>Look-ups\<close>

datatype retailer_provider = WALMART | HOME_DEPOT

fun provider_value :: "retailer_provider \<Rightarrow> string" where
  "provider_value WALMART = ''walmart''"
| "provider_value HOME_DEPOT = ''home_depot''"

definition provider_of :: "string \<Rightarrow> retailer_provider option" where
  "provider_of s = find (\<lambda>p. provider_value p = s) [WALMART, HOME_DEPOT]"

record lookup_request =
  lr_provider :: retailer_provider
  lr_product_id :: string
  lr_country :: string
  lr_delivery_zip :: "string option"
  lr_store_id :: "string option"

definition new_lookup :: "retailer_provider \<Rightarrow> string \<Rightarrow> lookup_request" where
  "new_lookup p i = \<lparr>lr_provider = p, lr_product_id = i, lr_country = ''us'', lr_delivery_zip = None, lr_store_id = None\<rparr>"

text \<open>\<open>s.split(c, 1)\<close>\<close>

definition split_once :: "char \<Rightarrow> string \<Rightarrow> string \<times> string" where
  "split_once c s = (takeWhile (\<lambda>x. x \<noteq> c) s, tl (dropWhile (\<lambda>x. x \<noteq> c) s))"

definition parse_monitor_entry :: "string \<Rightarrow> lookup_request option" where
  "parse_monitor_entry entry =
     (let entry = strip entry in
      if entry = [] \<or> CHR '':'' \<notin> set entry then None
      else
        (let (provider_raw, product_id) = split_once (CHR '':'') entry;
             provider_raw = strip provider_raw; product_id = strip product_id in
         case provider_of (lower provider_raw) of
           None \<Rightarrow> None
         | Some provider \<Rightarrow> if product_id \<noteq> [] then Some (new_lookup provider product_id) else None))"

definition parse_monitor_products :: "string \<Rightarrow> lookup_request list" where
  "parse_monitor_products s = (if s = [] then [] else List.map_filter parse_monitor_entry (split_on (CHR '','') s))"

section \<open>Sourcing metrics of a retailer product\<close>

record retailer_product =
  rp_provider :: retailer_provider
  rp_product_id :: string
  rp_title :: "string option"
  rp_price_current :: "rat option"
  rp_seller_count :: "int option"

definition or_zero :: "'a::zero option \<Rightarrow> 'a" where
  "or_zero x = (case x of None \<Rightarrow> 0 | Some v \<Rightarrow> v)"

text \<open>The profit of buying at the retailer's price; an exception leaves the zeros.\<close>

definition retailer_profit :: "rat \<Rightarrow> rat \<Rightarrow> rat \<Rightarrow> rat option \<Rightarrow> product_data" where
  "retailer_profit sell cost fba_fee referral_percent =
     (if 0 < sell \<and> 0 < cost then
        (case bindR (validate_input ((default_input sell cost)
                \<lparr>fba_fulfillment_fee := Some fba_fee, referral_fee_percent := referral_percent\<rparr>))
              (\<lambda>i. calculate DEFAULT_PROFIT_CONFIG i None) of
           Inl _ \<Rightarrow> profit_metrics 0 0 0 0
         | Inr out \<Rightarrow> profit_metrics (net_profit_per_unit out) (gross_profit out) (roi_percentage out) (margin_percentage out))
      else profit_metrics 0 0 0 0)"

text \<open>The entries that are texts or flags, which no rule reads, are left out.\<close>

definition to_sourcing_data :: "retailer_product \<Rightarrow> rat option \<Rightarrow> rat \<Rightarrow> rat option \<Rightarrow> product_data" where
  "to_sourcing_data p sell_price fba_fee referral_percent =
     (let cost = or_zero (rp_price_current p);
          sell = (case sell_price of None \<Rightarrow> cost | Some a \<Rightarrow> a);
          sellers = VInt (or_zero (rp_seller_count p)) in
      [''amazon_price'' \<mapsto> VDec sell, ''buy_box_price'' \<mapsto> VDec sell,
       ''lowest_supplier_price'' \<mapsto> VDec cost, ''average_supplier_price'' \<mapsto> VDec cost,
       ''supplier_count'' \<mapsto> sellers, ''new_seller_count'' \<mapsto> sellers,
       ''fba_seller_count'' \<mapsto> VInt 0, ''total_offer_count'' \<mapsto> sellers,
       ''estimated_monthly_sales'' \<mapsto> VInt 0, ''estimated_daily_sales'' \<mapsto> VDec 0,
       ''sales_rank'' \<mapsto> VNone, ''referral_fee'' \<mapsto> VDec (or_zero referral_percent),
       ''fulfillment_fee'' \<mapsto> VDec fba_fee, ''storage_fee'' \<mapsto> VDec 0, ''total_fees'' \<mapsto> VDec fba_fee,
       ''quantity_on_hand'' \<mapsto> VInt 0, ''quantity_reserved'' \<mapsto> VInt 0, ''quantity_inbound'' \<mapsto> VInt 0,
       ''quantity_available'' \<mapsto> VInt 0, ''days_of_stock'' \<mapsto> VInt 0,
       ''price_cv'' \<mapsto> VDec 0, ''price_count'' \<mapsto> VInt 1, ''price_mean'' \<mapsto> VDec cost,
       ''price_stddev'' \<mapsto> VDec 0, ''price_min'' \<mapsto> VDec cost, ''price_max'' \<mapsto> VDec cost,
       ''buy_box_win_rate'' \<mapsto> VDec 50]
      ++ retailer_profit sell cost fba_fee referral_percent
      ++ [''total_data_points'' \<mapsto> VInt 1])"

section \<open>Scoring\<close>

definition add_result :: "rule_result \<Rightarrow> rat \<times> rat \<times> int \<Rightarrow> rat \<times> rat \<times> int" where
  "add_result r = (\<lambda>(tw, w, cf). (dadd tw (dmul (score r) (weight r)), dadd w (weight r),
     if is_critical_failure r then cf + 1 else cf))"

definition retailer_score :: "sourcing_config \<Rightarrow> product_data \<Rightarrow> opportunity_score py" where
  "retailer_score c data =
     bindR (mapR (\<lambda>rule. rule c data)
       [eval_roi, eval_profit, eval_sales, eval_competition, eval_buy_box, eval_price_stability, eval_inventory]) (\<lambda>rs.
     let (tw, w, cf) = fold add_result rs (0, 0, 0); weighted = (if 0 < w then ddiv tw w else 0) in
     bindR (quantize round_he 2 (dmul weighted 100)) (\<lambda>ts.
     validate_opportunity
       \<lparr>total_score = ts, weighted_score = weighted, rule_results = rs, critical_failures = cf,
        is_viable = (cf < critical_rule_fail_threshold c \<and> minimum_opportunity_score c \<le> ts)\<rparr>))"

text \<open>\<open>fetch\<close> is the client's look-up followed by the parser of the provider.\<close>

definition fetch_and_score ::
  "(lookup_request \<Rightarrow> ('s, 'e + py_error, retailer_product) act) \<Rightarrow> sourcing_config \<Rightarrow> lookup_request \<Rightarrow> rat option \<Rightarrow> rat
    \<Rightarrow> rat option \<Rightarrow> ('s, 'e + py_error, retailer_product \<times> opportunity_score) act" where
  "fetch_and_score fetch c q sell_price fba_fee referral_percent =
     bindA (fetch q) (\<lambda>p. case retailer_score c (to_sourcing_data p sell_price fba_fee referral_percent) of
       Inl e \<Rightarrow> failA (Inr e) | Inr s \<Rightarrow> retA (p, s))"

end
