(* ===== verification/RetailerServiceProps.thy ===== *)
theory RetailerServiceProps
  imports RetailerService SourcingProps
begin

text \<open>
  The monitor list round trip, and what the snapshot of a retailer can score at best.
\<close>

section \<open>Stripping\<close>

lemma strip_id:
  assumes "s = [] \<or> (\<not> is_space (hd s) \<and> \<not> is_space (last s))"
  shows "strip s = s"
proof -
  have "dropWhile is_space s = s" using assms unfolding dropWhile_eq_self_iff by blast
  moreover have "dropWhile is_space (rev s) = rev s" using assms by (auto simp: dropWhile_eq_self_iff hd_rev)
  ultimately show ?thesis by (simp add: strip_def)
qed

lemma dropWhile_length_eq:
  assumes "length (dropWhile P s) = length s"
  shows "dropWhile P s = s"
proof -
  have "length (takeWhile P s) + length (dropWhile P s) = length s"
    by (simp only: length_append [symmetric] takeWhile_dropWhile_id)
  then have "takeWhile P s = []" using assms by simp
  then show ?thesis using takeWhile_dropWhile_id [of P s] by simp
qed

lemma strip_ends: "strip s = s \<Longrightarrow> s = [] \<or> (\<not> is_space (hd s) \<and> \<not> is_space (last s))"
proof -
  assume s: "strip s = s"
  let ?d = "dropWhile is_space s"
  have "length s = length (dropWhile is_space (rev ?d))" using arg_cong [OF s, of length] by (simp add: strip_def)
  then have "length s \<le> length ?d" using length_dropWhile_le [of is_space "rev ?d"] by simp
  then have d: "?d = s" using length_dropWhile_le [of is_space s] by (intro dropWhile_length_eq) simp
  then have "rev (dropWhile is_space (rev s)) = s" using s by (simp add: strip_def)
  then have r: "dropWhile is_space (rev s) = rev s" by (metis rev_rev_ident)
  show ?thesis using d r unfolding dropWhile_eq_self_iff by (auto simp: hd_rev)
qed

section \<open>The monitor list\<close>

definition monitor_entry :: "lookup_request \<Rightarrow> string" where
  "monitor_entry q = provider_value (lr_provider q) @ CHR '':'' # lr_product_id q"

definition monitor_list :: "lookup_request list \<Rightarrow> string" where
  "monitor_list qs = join_with (CHR '','') (map monitor_entry qs)"

definition monitorable :: "lookup_request \<Rightarrow> bool" where
  "monitorable q \<longleftrightarrow> lr_product_id q \<noteq> [] \<and> CHR '','' \<notin> set (lr_product_id q)
     \<and> strip (lr_product_id q) = lr_product_id q \<and> q = new_lookup (lr_provider q) (lr_product_id q)"

lemma provider_text:
  "CHR '','' \<notin> set (provider_value p)" "CHR '':'' \<notin> set (provider_value p)" "provider_value p \<noteq> []"
  "strip (provider_value p) = provider_value p" "lower (provider_value p) = provider_value p"
  "\<not> is_space (hd (provider_value p))" "provider_of (provider_value p) = Some p"
  by (cases p; simp add: strip_def is_space_def lower_def lower_char_def provider_of_def)+

lemma parse_entry:
  assumes "monitorable q"
  shows "parse_monitor_entry (monitor_entry q) = Some q"
proof -
  have i: "lr_product_id q \<noteq> []" "strip (lr_product_id q) = lr_product_id q" "q = new_lookup (lr_provider q) (lr_product_id q)"
    using assms unfolding monitorable_def by blast+
  have "strip (monitor_entry q) = monitor_entry q"
    using strip_ends [OF i(2)] i(1) provider_text(3,6) [of "lr_provider q"]
    by (intro strip_id) (auto simp: monitor_entry_def)
  moreover have "split_once (CHR '':'') (monitor_entry q) = (provider_value (lr_provider q), lr_product_id q)"
    using provider_text(2) [of "lr_provider q"]
    by (auto simp: split_once_def monitor_entry_def takeWhile_append dropWhile_append)
  ultimately show ?thesis
    using i provider_text [of "lr_provider q"] by (simp add: parse_monitor_entry_def Let_def) (simp add: monitor_entry_def)
qed

text \<open>Round trip of the monitor list: writing look-ups of the default country as
  provider:product_id, joined by commas, and parsing the text gives the look-ups back, for ids
  that are not empty, hold no comma and are not padded with white space (colons are allowed).\<close>

theorem monitor_list_roundtrip:
  assumes "\<forall>q \<in> set qs. monitorable q"
  shows "parse_monitor_products (monitor_list qs) = qs"
proof (cases "qs = []")
  case True
  then show ?thesis by (simp add: monitor_list_def parse_monitor_products_def)
next
  case False
  have "CHR '','' \<notin> set (monitor_entry q)" if "q \<in> set qs" for q
    using assms that provider_text(1) by (auto simp: monitor_entry_def monitorable_def)
  then have split: "split_on (CHR '','') (monitor_list qs) = map monitor_entry qs"
    unfolding monitor_list_def using False by (intro split_join) auto
  have "monitor_list qs \<noteq> []"
  proof
    assume "monitor_list qs = []"
    then have "map monitor_entry qs = [[]]" using split by simp
    then show False by (auto simp: monitor_entry_def)
  qed
  moreover have "List.map_filter parse_monitor_entry (map monitor_entry qs) = qs"
    using assms by (induction qs) (simp_all add: map_filter_simps parse_entry)
  ultimately show ?thesis using split by (simp add: parse_monitor_products_def)
qed

theorem monitor_list_roundtrip_witness:
  "parse_monitor_products ''walmart:10291024,home_depot:203202930'' = [new_lookup WALMART ''10291024'', new_lookup HOME_DEPOT ''203202930'']"
proof -
  have "\<forall>q \<in> set [new_lookup WALMART ''10291024'', new_lookup HOME_DEPOT ''203202930'']. monitorable q"
    by (simp add: monitorable_def new_lookup_def strip_def is_space_def)
  from monitor_list_roundtrip [OF this] show ?thesis by (simp add: monitor_list_def monitor_entry_def new_lookup_def)
qed

section \<open>The score of a snapshot\<close>

text \<open>The scoring is that of the sourcing engine, with its default rules.\<close>

lemma fold_score_loop: "fold add_result rs acc = score_loop acc rs"
  by (induction rs arbitrary: acc) (auto simp: add_result_def)

lemma retailer_score_eq:
  "retailer_score c d = bindR (mapR (\<lambda>rule. rule c d) DEFAULT_RULES) (calculate_opportunity_score c)"
  unfolding retailer_score_def DEFAULT_RULES_def
  by (rule arg_cong [where f = "bindR _"])
     (simp add: fun_eq_iff calculate_opportunity_score_def fold_score_loop Let_def split: prod.split)

text \<open>What a snapshot holds for the rules: no sales, no stock, a steady price, half of the Buy Box.\<close>

lemma snapshot_metrics:
  assumes d_def: "d = to_sourcing_data p sell_price fba pct"
  shows "dget d ''estimated_monthly_sales'' (VInt 0) = VInt 0" "dget d ''days_of_stock'' (VInt 0) = VInt 0"
    "dget d ''quantity_available'' (VInt 0) = VInt 0" "dget d ''buy_box_win_rate'' (VDec 50) = VDec 50"
    "dget d ''price_cv'' (VDec 0) = VDec 0" "dget d ''fba_seller_count'' (VInt 0) = VInt 0"
    "dget d ''new_seller_count'' (VInt 0) = VInt (or_zero (rp_seller_count p))"
    "\<exists>r. dget d ''roi_percentage'' (VDec 0) = VDec r"
    "\<exists>n. dget d ''net_profit'' (VDec 0) = VDec n" "\<exists>n. dget d ''net_profit'' (VInt 0) = VDec n"
proof -
  obtain net gross roi margin where pm: "retailer_profit x y fba pct = profit_metrics net gross roi margin"
    if "x = (case sell_price of None \<Rightarrow> or_zero (rp_price_current p) | Some a \<Rightarrow> a)" "y = or_zero (rp_price_current p)" for x y
    unfolding retailer_profit_def by (metis (no_types, lifting) sum.case_eq_if)
  show "dget d ''estimated_monthly_sales'' (VInt 0) = VInt 0" "dget d ''days_of_stock'' (VInt 0) = VInt 0"
    "dget d ''quantity_available'' (VInt 0) = VInt 0" "dget d ''buy_box_win_rate'' (VDec 50) = VDec 50"
    "dget d ''price_cv'' (VDec 0) = VDec 0" "dget d ''fba_seller_count'' (VInt 0) = VInt 0"
    "dget d ''new_seller_count'' (VInt 0) = VInt (or_zero (rp_seller_count p))"
    "\<exists>r. dget d ''roi_percentage'' (VDec 0) = VDec r"
    "\<exists>n. dget d ''net_profit'' (VDec 0) = VDec n" "\<exists>n. dget d ''net_profit'' (VInt 0) = VDec n"
    using pm [OF refl refl] by (simp_all add: d_def to_sourcing_data_def Let_def profit_metrics_def dget_def map_add_def)
qed

lemma normalize_zero: "normalize_score 0 m t = Inr 0"
  by (simp add: normalize_score_def)

text \<open>A retailer snapshot scored with the default configuration always returns, and however good its
  profit, its return and its competition are, its total is at most 73 of 100: the snapshot
  carries no sales, no stock and a Buy Box rate of 50, which the rules count as measured.\<close>

theorem retailer_score_ceiling:
  assumes "0 \<le> or_zero (rp_seller_count p)"
  shows "\<exists>opp. retailer_score default_sourcing_config (to_sourcing_data p sell_price fba pct) = Inr opp
    \<and> 0 \<le> total_score opp \<and> total_score opp \<le> 73 \<and> length (rule_results opp) = 7"
proof -
  let ?d = "to_sourcing_data p sell_price fba pct" and ?c = default_sourcing_config
  note m = snapshot_metrics [OF refl, of p sell_price fba pct]
  have "metrics_ok ?d"
    using m assms by (auto simp: metrics_ok_def)
  then obtain rs where rs: "mapR (\<lambda>rl. rl ?c ?d) DEFAULT_RULES = Inr rs"
    using rules_total [OF default_config_ok] by blast
  then obtain r1 r2 r3 r4 r5 r6 r7 where r: "rs = [r1, r2, r3, r4, r5, r6, r7]"
    "eval_roi ?c ?d = Inr r1" "eval_profit ?c ?d = Inr r2" "eval_sales ?c ?d = Inr r3" "eval_competition ?c ?d = Inr r4"
    "eval_buy_box ?c ?d = Inr r5" "eval_price_stability ?c ?d = Inr r6" "eval_inventory ?c ?d = Inr r7"
    by (auto simp: DEFAULT_RULES_def result_simps)
  have sound: "\<forall>x \<in> set rs. sound_result x"
    by (rule default_rules.results_sound [OF _ rs]) (simp add: default_sourcing_config_def default_weights_rep)
  note dc = default_sourcing_config_def default_weights_def
  have w: "weight r1 = 25 / 100" "weight r2 = 20 / 100" "weight r3 = 15 / 100" "weight r4 = 15 / 100"
    "weight r5 = 10 / 100" "weight r6 = 8 / 100" "weight r7 = 7 / 100"
    using r(2-8) by (auto simp: eval_roi_def eval_profit_def eval_sales_def eval_competition_def eval_buy_box_def
        eval_price_stability_def eval_inventory_def result_simps Let_def dc)
  have "score r3 = 0" using r(4) m by (auto simp: eval_sales_def result_simps Let_def normalize_zero)
  moreover have "score r7 = 0" using r(8) m by (auto simp: eval_inventory_def result_simps Let_def normalize_zero)
  moreover have "score r5 \<le> 1 / 2"
    using r(6) m below_minimum [of 50 60 95] by (auto simp: eval_buy_box_def result_simps Let_def dc)
  ultimately have scores: "score r1 \<le> 1" "score r2 \<le> 1" "score r3 \<le> 0" "score r4 \<le> 1" "score r5 \<le> 1 / 2" "score r6 \<le> 1" "score r7 \<le> 0"
    using sound by (auto simp: r(1) sound_result_def unit_ok_def)
  let ?best = "map2 (\<lambda>x s. x\<lparr>score := s\<rparr>) rs [1, 1, 0, 1, 1 / 2, 1, 0]"
  have "list_all2 no_worse rs ?best" using scores w by (simp add: r(1) no_worse_def)
  then have "weighted_mean rs \<le> weighted_mean ?best" by (rule weighted_mean_mono)
  also have "weighted_mean ?best = 73 / 100"
    by (simp add: r(1) weighted_mean_def aggregate_def w ddiv_def dec_literal on_grid_def)
  finally have wm: "weighted_mean rs \<le> 73 / 100" .
  from opportunity_returns [OF sound, of ?c] obtain opp where
    opp: "calculate_opportunity_score ?c rs = Inr opp" "quantize round_he 2 (dmul (weighted_mean rs) 100) = Inr (total_score opp)"
      "0 \<le> total_score opp" "rule_results opp = rs" by blast
  have "dmul (weighted_mean rs) 100 \<le> dmul (73 / 100) 100" using wm by (rule dmul_mono) simp
  also have "\<dots> = 73" by (simp add: dmul_def dec_literal on_grid_def)
  finally have "total_score opp \<le> 73"
    using quantize_mono [OF opp(2), of 73 73] by (simp add: quantize_Inr round_he_of_int [of 7300, simplified])
  then show ?thesis using opp rs r(1) by (simp add: retailer_score_eq)
qed

definition sofa :: retailer_product where
  "sofa = \<lparr>rp_provider = WALMART, rp_product_id = ''10291024'', rp_title = None, rp_price_current = Some 20, rp_seller_count = Some 3\<rparr>"

theorem retailer_score_ceiling_witness:
  "\<exists>opp. retailer_score default_sourcing_config (to_sourcing_data sofa (Some 90) 5 (Some 15)) = Inr opp
    \<and> total_score opp \<le> 73"
  using retailer_score_ceiling [of sofa "Some 90" 5 "Some 15"] by (auto simp: sofa_def or_zero_def)

end
