(* ===== verification/Floats.thy ===== *)
theory Floats
  imports Numbers
begin

text \<open>
  Float arithmetic as the statistics use it: the four operations rounded to nearest, \<open>sum\<close> of a
  list of floats, which compensates since Python 3.12, and the functions of the C library, which
  are arguments of the definitions that use them. No operation overflows or is subnormal.
\<close>

abbreviation fadd :: "rat \<Rightarrow> rat \<Rightarrow> rat" where "fadd x y \<equiv> fl (x + y)"
abbreviation fsub :: "rat \<Rightarrow> rat \<Rightarrow> rat" where "fsub x y \<equiv> fl (x - y)"
abbreviation fmul :: "rat \<Rightarrow> rat \<Rightarrow> rat" where "fmul x y \<equiv> fl (x * y)"
abbreviation fdiv :: "rat \<Rightarrow> rat \<Rightarrow> rat" where "fdiv x y \<equiv> fl (x / y)"

text \<open>\<open>x / y\<close> with its exception\<close>

definition fdivE :: "rat \<Rightarrow> rat \<Rightarrow> rat py" where
  "fdivE x y = (if y = 0 then Inl DivisionByZero else Inr (fdiv x y))"

section \<open>The C library\<close>

record libm =
  c_sqrt :: "rat \<Rightarrow> rat"
  c_exp :: "rat \<Rightarrow> rat"
  c_log :: "rat \<Rightarrow> rat"
  c_erf :: "rat \<Rightarrow> rat"
  c_lgamma :: "rat \<Rightarrow> rat"
  c_square :: "rat \<Rightarrow> rat"

text \<open>\<open>math.sqrt\<close> raises below zero; \<open>x ** 2\<close> is \<open>c_square\<close>.\<close>

definition sqrtE :: "libm \<Rightarrow> rat \<Rightarrow> rat py" where
  "sqrtE L x = (if x < 0 then Inl ValueError else Inr (c_sqrt L x))"

section \<open>Sums and means\<close>

text \<open>The running sum and its compensation (Neumaier's).\<close>

fun sum_step :: "rat \<times> rat \<Rightarrow> rat \<Rightarrow> rat \<times> rat" where
  "sum_step (s, c) x =
     (let t = fadd s x in
      (t, fadd c (if \<bar>x\<bar> \<le> \<bar>s\<bar> then fadd (fsub s t) x else fadd (fsub x t) s)))"

definition float_sum :: "rat list \<Rightarrow> rat" where
  "float_sum xs = (case foldl sum_step (0, 0) xs of (s, c) \<Rightarrow> fadd s c)"

definition mean :: "rat list \<Rightarrow> rat" where
  "mean xs = (if xs = [] then 0 else fdiv (float_sum xs) (of_nat (length xs)))"

definition variance :: "libm \<Rightarrow> rat list \<Rightarrow> rat" where
  "variance L xs =
     (if length xs < 2 then 0
      else let m = mean xs in
        fdiv (float_sum (map (\<lambda>v. c_square L (fsub v m)) xs)) (of_nat (length xs - 1)))"

lemma float_sum_Nil [simp]: "float_sum [] = 0"
  by (simp add: float_sum_def)

lemma float_sum_single: "fl_rep x \<Longrightarrow> float_sum [x] = x"
  by (simp add: float_sum_def Let_def flr.r_fix)

end
