(* ===== verification/Sha256.thy ===== *)
theory Sha256
  imports Prelude "HOL-Library.Word"
begin

text \<open>
  What the assignment of variants uses of Python's \<open>hashlib\<close>: SHA-256 on 32-bit words, the
  UTF-8 encoding of its input (strings of code points below 256) and the hexadecimal text of the
  digest.
\<close>

unbundle bit_operations_syntax

section \<open>The compression function\<close>

definition rotr32 :: "nat \<Rightarrow> 32 word \<Rightarrow> 32 word" where
  "rotr32 n w = (drop_bit n w OR push_bit (32 - n) w)"

text \<open>
  The constants, from their meaning: the first 32 bits of the fractional parts of the cube roots of
  the first 64 primes, and of the square roots of the first eight.
\<close>

fun root_bits :: "nat \<Rightarrow> int \<Rightarrow> nat \<Rightarrow> int \<Rightarrow> int" where
  "root_bits k n 0 r = r"
| "root_bits k n (Suc b) r =
     (let r' = r + 2 ^ b in root_bits k n b (if r' ^ k \<le> n then r' else r))"

definition root_fraction :: "nat \<Rightarrow> int \<Rightarrow> 32 word" where
  "root_fraction k p = of_int (root_bits k (p * 2 ^ (32 * k)) 37 0)"

definition primes_below :: "int \<Rightarrow> int list" where
  "primes_below b = filter (\<lambda>p. list_all (\<lambda>d. p mod d \<noteq> 0) [2..p - 1]) [2..b - 1]"

definition sha_K :: "32 word list" where
  "sha_K = map (root_fraction 3) (primes_below 312)"

definition sha_H0 :: "32 word list" where
  "sha_H0 = map (root_fraction 2) (primes_below 20)"

definition small_sigma0 :: "32 word \<Rightarrow> 32 word" where
  "small_sigma0 w = (rotr32 7 w XOR rotr32 18 w XOR drop_bit 3 w)"

definition small_sigma1 :: "32 word \<Rightarrow> 32 word" where
  "small_sigma1 w = (rotr32 17 w XOR rotr32 19 w XOR drop_bit 10 w)"

definition big_sigma0 :: "32 word \<Rightarrow> 32 word" where
  "big_sigma0 w = (rotr32 2 w XOR rotr32 13 w XOR rotr32 22 w)"

definition big_sigma1 :: "32 word \<Rightarrow> 32 word" where
  "big_sigma1 w = (rotr32 6 w XOR rotr32 11 w XOR rotr32 25 w)"

definition choose32 :: "32 word \<Rightarrow> 32 word \<Rightarrow> 32 word \<Rightarrow> 32 word" where
  "choose32 e f g = ((e AND f) XOR ((NOT e) AND g))"

definition majority32 :: "32 word \<Rightarrow> 32 word \<Rightarrow> 32 word \<Rightarrow> 32 word" where
  "majority32 a b c = ((a AND b) XOR (a AND c) XOR (b AND c))"

text \<open>The message schedule through a window of sixteen words.\<close>

fun message_schedule :: "nat \<Rightarrow> 32 word list \<Rightarrow> 32 word list" where
  "message_schedule 0 ws = []"
| "message_schedule (Suc n) ws =
     hd ws # message_schedule n
       (tl ws @ [ws ! 0 + small_sigma0 (ws ! 1) + ws ! 9 + small_sigma1 (ws ! 14)])"

fun sha_round :: "32 word \<times> 32 word \<Rightarrow> 32 word list \<Rightarrow> 32 word list" where
  "sha_round (k, w) [a, b, c, d, e, f, g, h] =
     (let t1 = h + big_sigma1 e + choose32 e f g + k + w;
          t2 = big_sigma0 a + majority32 a b c in
      [t1 + t2, a, b, c, d + t1, e, f, g])"
| "sha_round kw s = s"

definition sha_compress :: "32 word list \<Rightarrow> 32 word list \<Rightarrow> 32 word list" where
  "sha_compress s block =
     map (\<lambda>(x, y). x + y) (zip s (fold sha_round (zip sha_K (message_schedule 64 block)) s))"

section \<open>Padding\<close>

definition utf8_char :: "char \<Rightarrow> int list" where
  "utf8_char c = (let n = of_char c in if n < 128 then [n] else [192 + n div 64, 128 + n mod 64])"

definition utf8 :: "string \<Rightarrow> int list" where
  "utf8 s = concat (map utf8_char s)"

definition be64 :: "int \<Rightarrow> int list" where
  "be64 n = map (\<lambda>k. n div 256 ^ k mod 256) [7, 6, 5, 4, 3, 2, 1, 0]"

definition sha_pad :: "int list \<Rightarrow> int list" where
  "sha_pad bs = bs @ 128 # replicate ((119 - length bs mod 64) mod 64) 0 @ be64 (8 * int (length bs))"

fun words_of :: "int list \<Rightarrow> 32 word list" where
  "words_of (a # b # c # d # bs) = of_int (((a * 256 + b) * 256 + c) * 256 + d) # words_of bs"
| "words_of bs = []"

fun sha_blocks :: "nat \<Rightarrow> 32 word list \<Rightarrow> 32 word list \<Rightarrow> 32 word list" where
  "sha_blocks 0 ws s = s"
| "sha_blocks (Suc n) ws s = sha_blocks n (drop 16 ws) (sha_compress s (take 16 ws))"

definition sha256 :: "int list \<Rightarrow> 32 word list" where
  "sha256 bs = (let ws = words_of (sha_pad bs) in sha_blocks (length ws div 16) ws sha_H0)"

section \<open>Hexadecimal text\<close>

definition hex_char :: "int \<Rightarrow> char" where
  "hex_char n = (if n < 10 then char_of (48 + n) else char_of (87 + n))"

definition hex_word :: "32 word \<Rightarrow> string" where
  "hex_word w = map (\<lambda>k. hex_char (uint w div 16 ^ k mod 16)) [7, 6, 5, 4, 3, 2, 1, 0]"

definition hexdigest :: "int list \<Rightarrow> string" where
  "hexdigest bs = concat (map hex_word (sha256 bs))"

definition hex_value :: "char \<Rightarrow> int" where
  "hex_value c = (let n = of_char c in if n < 58 then n - 48 else n - 87)"

text \<open>\<open>int(s, 16)\<close> on lower-case digits.\<close>

definition int16 :: "string \<Rightarrow> int" where
  "int16 s = foldl (\<lambda>n c. 16 * n + hex_value c) 0 s"

end
