(* ===== verification/ExperimentStats.thy ===== *)
theory ExperimentStats
  imports Floats Sha256 "HOL-Library.AList" "HOL-Library.Product_Lexorder"
begin

text \<open>
  The statistics of the experimentation platform (\<open>app/experiments/engine.py\<close>): the normal and
  Student distributions, the two hypothesis tests, the sample size, the confusion metrics, the
  aggregation of observations per variant and the choice of the winner. Dictionaries that keep
  their insertion order are association lists.
\<close>

section \<open>Distributions\<close>

definition normal_cdf :: "libm \<Rightarrow> rat \<Rightarrow> rat" where
  "normal_cdf L x = fmul 0.5 (fadd 1 (c_erf L (fdiv x (c_sqrt L 2))))"

definition horner :: "rat list \<Rightarrow> rat \<Rightarrow> rat" where
  "horner cs q = foldl (\<lambda>acc c. fadd (fmul acc q) c) (hd cs) (tl cs)"

definition ppf_a :: "rat list" where
  "ppf_a = map fl [- 39.69683028665376, 220.9460984245205, - 275.9285104469687,
                   138.3577518672690, - 30.66479806614716, 2.506628277459239]"

definition ppf_b :: "rat list" where
  "ppf_b = map fl [- 54.47609879822406, 161.5858368580409, - 155.6989798598866,
                   66.80131188771972, - 13.28068155288572, 1]"

definition ppf_c :: "rat list" where
  "ppf_c = map fl [- 0.007784894002430293, - 0.3223964580411365, - 2.400758277161838,
                   - 2.549732539343734, 4.374664141464968, 2.938163982698783]"

definition ppf_d :: "rat list" where
  "ppf_d = map fl [0.007784695709041462, 0.3224671290700398, 2.445134137142996,
                   3.754408661907416, 1]"

text \<open>The three regions inside the unit interval; \<open>None\<close> is an infinite value.\<close>

definition ppf_value :: "libm \<Rightarrow> rat \<Rightarrow> rat" where
  "ppf_value L p =
     (let plow = fl 0.02425; phigh = fsub 1 plow in
      if p < plow then
        (let q = c_sqrt L (fmul (- 2) (c_log L p)) in fdiv (horner ppf_c q) (horner ppf_d q))
      else if phigh < p then
        (let q = c_sqrt L (fmul (- 2) (c_log L (fsub 1 p))) in - fdiv (horner ppf_c q) (horner ppf_d q))
      else
        (let q = fsub p 0.5; r = fmul q q in fdiv (fmul (horner ppf_a r) q) (horner ppf_b r)))"

definition normal_ppf :: "libm \<Rightarrow> rat \<Rightarrow> rat option" where
  "normal_ppf L p = (if p \<le> 0 \<or> 1 \<le> p then None else Some (ppf_value L p))"

definition away_from_0 :: "rat \<Rightarrow> rat" where
  "away_from_0 x = (if \<bar>x\<bar> < fl (1 / 10 ^ 30) then fl (1 / 10 ^ 30) else x)"

text \<open>One half of an iteration: the coefficient, then the new \<open>c\<close>, \<open>d\<close> and \<open>h\<close>.\<close>

definition betacf_half :: "rat \<Rightarrow> rat \<times> rat \<times> rat \<Rightarrow> rat \<times> rat \<times> rat" where
  "betacf_half aa s =
     (case s of (c, d, h) \<Rightarrow>
        let d' = fdiv 1 (away_from_0 (fadd 1 (fmul aa d)));
            c' = away_from_0 (fadd 1 (fdiv aa c)) in
        (c', d', fmul h (fmul d' c')))"

definition betacf_even :: "rat \<Rightarrow> rat \<Rightarrow> rat \<Rightarrow> rat \<Rightarrow> rat" where
  "betacf_even a b x m =
     fdiv (fmul (fmul m (fsub b m)) x) (fmul (fadd (fsub a 1) (2 * m)) (fadd a (2 * m)))"

definition betacf_odd :: "rat \<Rightarrow> rat \<Rightarrow> rat \<Rightarrow> rat \<Rightarrow> rat" where
  "betacf_odd a b x m =
     fdiv (fmul (fmul (- fadd a m) (fadd (fadd a b) m)) x) (fmul (fadd a (2 * m)) (fadd (fadd a 1) (2 * m)))"

text \<open>
  The loop of the continued fraction: \<open>k\<close> iterations left, the next is the \<open>m\<close>-th. For the
  arguments of \<open>betai\<close> no divisor is zero.
\<close>

fun betacf_loop :: "rat \<Rightarrow> rat \<Rightarrow> rat \<Rightarrow> nat \<Rightarrow> rat \<Rightarrow> rat \<times> rat \<times> rat \<Rightarrow> rat" where
  "betacf_loop a b x 0 m s = snd (snd s)"
| "betacf_loop a b x (Suc k) m s =
     (case betacf_half (betacf_odd a b x m) (betacf_half (betacf_even a b x m) s) of (c, d, h) \<Rightarrow>
        if \<bar>fsub (fmul d c) 1\<bar> < fl (3 / 10 ^ 7) then h else betacf_loop a b x k (m + 1) (c, d, h))"

definition betacf :: "rat \<Rightarrow> rat \<Rightarrow> rat \<Rightarrow> rat" where
  "betacf a b x =
     (let d = fdiv 1 (away_from_0 (fsub 1 (fdiv (fmul (fadd a b) x) (fadd a 1)))) in
      betacf_loop a b x 200 1 (1, d, d))"

definition betai :: "libm \<Rightarrow> rat \<Rightarrow> rat \<Rightarrow> rat \<Rightarrow> rat" where
  "betai L a b x =
     (if x \<le> 0 then 0 else if 1 \<le> x then 1
      else
        (let bt = c_exp L (fadd (fadd (fsub (fsub (c_lgamma L (fadd a b)) (c_lgamma L a)) (c_lgamma L b))
                      (fmul a (c_log L x))) (fmul b (c_log L (fsub 1 x)))) in
         if x < fdiv (fadd a 1) (fadd (fadd a b) 2) then fdiv (fmul bt (betacf a b x)) a
         else fsub 1 (fdiv (fmul bt (betacf b a (fsub 1 x))) b)))"

definition t_cdf :: "libm \<Rightarrow> rat \<Rightarrow> rat \<Rightarrow> rat" where
  "t_cdf L t df =
     (if df \<le> 0 then 0.5
      else
        (let x = fdiv df (fadd df (fmul t t)) in
         if 0 \<le> t then fsub 1 (fmul 0.5 (betai L (fdiv df 2) 0.5 x))
         else fmul 0.5 (betai L (fdiv df 2) 0.5 x)))"

section \<open>Hypothesis tests\<close>

record test_result =
  statistic :: rat
  freedom :: "rat option"
  p_value :: rat
  confidence_of :: rat
  uplift_of :: rat

definition two_proportion_ztest :: "libm \<Rightarrow> rat \<Rightarrow> rat \<Rightarrow> rat \<Rightarrow> rat \<Rightarrow> test_result option" where
  "two_proportion_ztest L successes_a n_a successes_b n_b =
     (if n_a \<le> 0 \<or> n_b \<le> 0 then None
      else
        (let p_a = fdiv successes_a n_a; p_b = fdiv successes_b n_b;
             p_pool = fdiv (fadd successes_a successes_b) (fadd n_a n_b);
             z = (if 0 < p_pool \<and> p_pool < 1 then
                    (let se = c_sqrt L (fmul (fmul p_pool (fsub 1 p_pool)) (fadd (fdiv 1 n_a) (fdiv 1 n_b))) in
                     if 0 < se then fdiv (fsub p_a p_b) se else 0)
                  else 0);
             p = fmul 2 (fsub 1 (normal_cdf L \<bar>z\<bar>));
             up = (if 0 < p_b then fdiv (fsub p_a p_b) p_b else fsub p_a p_b) in
         Some \<lparr>statistic = z, freedom = None, p_value = p, confidence_of = fsub 1 p, uplift_of = up\<rparr>))"

definition welch_df :: "libm \<Rightarrow> rat \<Rightarrow> rat \<Rightarrow> rat \<Rightarrow> rat \<Rightarrow> rat" where
  "welch_df L var_a n_a var_b n_b =
     (let den = fadd (fdiv (c_square L (fdiv var_a n_a)) (n_a - 1)) (fdiv (c_square L (fdiv var_b n_b)) (n_b - 1)) in
      if n_a \<le> 1 \<or> n_b \<le> 1 then n_a + n_b - 2
      else if den \<le> 0 then n_a + n_b - 2
      else fdiv (c_square L (fadd (fdiv var_a n_a) (fdiv var_b n_b))) den)"

definition welch_ttest ::
  "libm \<Rightarrow> rat \<Rightarrow> rat \<Rightarrow> rat \<Rightarrow> rat \<Rightarrow> rat \<Rightarrow> rat \<Rightarrow> test_result option" where
  "welch_ttest L mean_a var_a n_a mean_b var_b n_b =
     (if n_a < 2 \<or> n_b < 2 then None
      else
        (let se = c_sqrt L (fadd (fdiv var_a n_a) (fdiv var_b n_b)) in
         if se = 0 \<and> mean_a = mean_b then
           Some \<lparr>statistic = 0, freedom = Some (n_a + n_b - 2), p_value = 1, confidence_of = 0, uplift_of = 0\<rparr>
         else
           (let t = (if se = 0 then 10 ^ 15 else fdiv (fsub mean_a mean_b) se);
                df = welch_df L var_a n_a var_b n_b;
                p = max 0 (min 1 (fmul 2 (fsub 1 (t_cdf L \<bar>t\<bar> df)))) in
            Some \<lparr>statistic = t, freedom = Some df, p_value = p, confidence_of = fsub 1 p,
                  uplift_of = fsub mean_a mean_b\<rparr>)))"

text \<open>
  The power is 0.8 in every call. An infinite quantile reaches \<open>math.ceil\<close> as infinity, or as
  NaN when it is multiplied by zero.
\<close>

definition required_sample_size :: "libm \<Rightarrow> rat \<Rightarrow> rat \<Rightarrow> rat \<Rightarrow> int py" where
  "required_sample_size L conversion_a conversion_b alpha =
     (let diff = fsub conversion_b conversion_a;
          z_beta = ppf_value L (fl 0.8);
          p_pool = fdiv (fadd conversion_a conversion_b) 2 in
      if diff = 0 then Inr 0
      else
        bindR (sqrtE L (fadd (fmul conversion_a (fsub 1 conversion_a)) (fmul conversion_b (fsub 1 conversion_b)))) (\<lambda>sd.
        bindR (sqrtE L (fmul (fmul 2 p_pool) (fsub 1 p_pool))) (\<lambda>s.
        case normal_ppf L (fsub 1 (fdiv alpha 2)) of
          None \<Rightarrow> Inl (if s = 0 then ValueError else OverflowError)
        | Some z_alpha \<Rightarrow>
            Inr \<lceil>max (fdiv (c_square L (fadd (fmul z_alpha s) (fmul z_beta sd))) (fmul diff diff)) 0\<rceil>)))"

section \<open>Deterministic assignment\<close>

text \<open>\<open>str\<close> of an integer\<close>

fun decimal_nat :: "nat \<Rightarrow> string" where
  "decimal_nat n = (if n < 10 then [char_of (48 + n)] else decimal_nat (n div 10) @ [char_of (48 + n mod 10)])"

declare decimal_nat.simps [simp del]

definition decimal :: "int \<Rightarrow> string" where
  "decimal n = (if n < 0 then ''-'' @ decimal_nat (nat (- n)) else decimal_nat (nat n))"

definition assign_variant :: "string \<Rightarrow> int \<Rightarrow> int \<Rightarrow> int" where
  "assign_variant subject_key seed num_variants =
     (if num_variants \<le> 0 then 0
      else int16 (take 8 (hexdigest (utf8 (decimal seed @ '':'' @ subject_key)))) mod num_variants)"

section \<open>Confusion metrics\<close>

record confusion =
  true_positives :: nat
  false_positives :: nat
  true_negatives :: nat
  false_negatives :: nat
  precision :: rat
  recall :: rat
  accuracy :: rat
  f1 :: rat

text \<open>The counts of the loop: true positives, false positives, true and false negatives.\<close>

fun count_labels :: "(bool \<times> bool) list \<Rightarrow> nat \<Rightarrow> nat \<Rightarrow> nat \<Rightarrow> nat \<Rightarrow> nat \<times> nat \<times> nat \<times> nat" where
  "count_labels [] tp fp tn fn = (tp, fp, tn, fn)"
| "count_labels ((p, g) # xs) tp fp tn fn =
     (if g then (if p then count_labels xs (tp + 1) fp tn fn else count_labels xs tp fp tn (fn + 1))
      else (if p then count_labels xs tp (fp + 1) tn fn else count_labels xs tp fp (tn + 1) fn))"

definition ratio :: "nat \<Rightarrow> nat \<Rightarrow> rat" where
  "ratio a b = (if 0 < b then fdiv (of_nat a) (of_nat b) else 0)"

definition confusion_metrics :: "bool list \<Rightarrow> bool list \<Rightarrow> confusion" where
  "confusion_metrics predicted ground_truth =
     (case count_labels (zip predicted ground_truth) 0 0 0 0 of (tp, fp, tn, fn) \<Rightarrow>
        let p = ratio tp (tp + fp); r = ratio tp (tp + fn); a = ratio (tp + tn) (tp + fp + tn + fn);
            f = (if 0 < fadd p r then fdiv (fmul (fmul 2 p) r) (fadd p r) else 0) in
        \<lparr>true_positives = tp, false_positives = fp, true_negatives = tn, false_negatives = fn,
         precision = round_float 6 p, recall = round_float 6 r, accuracy = round_float 6 a,
         f1 = round_float 6 f\<rparr>)"

section \<open>Aggregation per variant\<close>

record obs_view =
  ov_key :: string
  ov_outcome :: bool
  ov_profit :: "rat option"
  ov_roi :: "rat option"
  ov_value :: "rat option"
  ov_predicted :: "bool option"
  ov_truth :: "bool option"

record variant_entry =
  st_n :: nat
  successes :: nat
  conversion :: rat
  mean_profit :: rat
  var_profit :: rat
  mean_roi :: rat
  var_roi :: rat
  mean_value :: rat
  var_value :: rat
  st_confusion :: "confusion option"

type_synonym stats = "(string \<times> variant_entry) list"

text \<open>\<open>groups.setdefault(o.variant_key, []).append(o)\<close>\<close>

definition group_step :: "(string \<times> obs_view list) list \<Rightarrow> obs_view \<Rightarrow> (string \<times> obs_view list) list" where
  "group_step g v =
     AList.update (ov_key v) ((case map_of g (ov_key v) of None \<Rightarrow> [] | Some l \<Rightarrow> l) @ [v]) g"

definition group_views :: "obs_view list \<Rightarrow> (string \<times> obs_view list) list" where
  "group_views vs = foldl group_step [] vs"

definition present :: "(obs_view \<Rightarrow> 'a option) \<Rightarrow> obs_view list \<Rightarrow> 'a list" where
  "present f items = List.map_filter f items"

definition variant_entry_of :: "libm \<Rightarrow> obs_view list \<Rightarrow> variant_entry" where
  "variant_entry_of L items =
     (let n = length items; succ = length (filter ov_outcome items);
          profits = present ov_profit items; rois = present ov_roi items; vals = present ov_value items;
          predicted = present ov_predicted items; truth = present ov_truth items in
      \<lparr>st_n = n, successes = succ,
       conversion = (if 0 < n then round_float 6 (fdiv (of_nat succ) (of_nat n)) else 0),
       mean_profit = round_float 6 (mean profits), var_profit = variance L profits,
       mean_roi = round_float 6 (mean rois), var_roi = variance L rois,
       mean_value = round_float 6 (mean vals), var_value = variance L vals,
       st_confusion = (if predicted \<noteq> [] \<and> truth \<noteq> [] then Some (confusion_metrics predicted truth) else None)\<rparr>)"

definition variant_stats :: "libm \<Rightarrow> obs_view list \<Rightarrow> stats" where
  "variant_stats L vs = map (\<lambda>(k, items). (k, variant_entry_of L items)) (group_views vs)"

section \<open>Winner determination\<close>

datatype primary_metric = CONVERSION | PROFIT | ROI | VALUE | ACCURACY | PRECISION | RECALL | F1

record comparison =
  c_p_value :: "rat option"
  c_confidence :: rat
  better :: bool
  c_uplift :: rat
  significant :: bool

definition tested :: "rat \<Rightarrow> bool \<Rightarrow> rat \<Rightarrow> test_result \<Rightarrow> comparison" where
  "tested alpha b up res =
     \<lparr>c_p_value = Some (p_value res), c_confidence = confidence_of res, better = b, c_uplift = up,
      significant = (b \<and> p_value res < alpha)\<rparr>"

definition compare_quality ::
  "libm \<Rightarrow> rat \<Rightarrow> (confusion \<Rightarrow> nat) \<Rightarrow> (variant_entry \<Rightarrow> confusion \<Rightarrow> nat) \<Rightarrow> (confusion \<Rightarrow> rat)
   \<Rightarrow> variant_entry \<Rightarrow> variant_entry \<Rightarrow> comparison option" where
  "compare_quality L alpha hits den score entry control =
     (case (st_confusion entry, st_confusion control) of
        (Some e, Some c) \<Rightarrow>
          map_option (tested alpha (score c < score e) (fsub (score e) (score c)))
            (two_proportion_ztest L (of_nat (hits e)) (of_nat (den entry e)) (of_nat (hits c)) (of_nat (den control c)))
      | _ \<Rightarrow> None)"

definition f1_of :: "variant_entry \<Rightarrow> rat" where
  "f1_of entry = (case st_confusion entry of None \<Rightarrow> 0 | Some c \<Rightarrow> f1 c)"

definition compare_means ::
  "libm \<Rightarrow> rat \<Rightarrow> (variant_entry \<Rightarrow> rat) \<Rightarrow> (variant_entry \<Rightarrow> rat) \<Rightarrow> variant_entry \<Rightarrow> variant_entry
   \<Rightarrow> comparison option" where
  "compare_means L alpha m v entry control =
     map_option (\<lambda>res. tested alpha (m control < m entry) (uplift_of res) res)
       (welch_ttest L (m entry) (v entry) (of_nat (st_n entry)) (m control) (v control) (of_nat (st_n control)))"

fun compare :: "libm \<Rightarrow> rat \<Rightarrow> primary_metric \<Rightarrow> variant_entry \<Rightarrow> variant_entry \<Rightarrow> comparison option" where
  "compare L alpha CONVERSION entry control =
     map_option (\<lambda>res. tested alpha (conversion control < conversion entry) (uplift_of res) res)
       (two_proportion_ztest L (of_nat (successes entry)) (of_nat (st_n entry))
          (of_nat (successes control)) (of_nat (st_n control)))"
| "compare L alpha ACCURACY entry control =
     compare_quality L alpha (\<lambda>c. true_positives c + true_negatives c) (\<lambda>v _. st_n v) accuracy entry control"
| "compare L alpha PRECISION entry control =
     compare_quality L alpha true_positives (\<lambda>_ c. true_positives c + false_positives c) precision entry control"
| "compare L alpha RECALL entry control =
     compare_quality L alpha true_positives (\<lambda>_ c. true_positives c + false_negatives c) recall entry control"
| "compare L alpha F1 entry control =
     (let b = f1_of control < f1_of entry in
      Some \<lparr>c_p_value = None, c_confidence = 0, better = b, c_uplift = fsub (f1_of entry) (f1_of control),
            significant = b\<rparr>)"
| "compare L alpha PROFIT entry control = compare_means L alpha mean_profit var_profit entry control"
| "compare L alpha ROI entry control = compare_means L alpha mean_roi var_roi entry control"
| "compare L alpha VALUE entry control = compare_means L alpha mean_value var_value entry control"

fun score_of :: "primary_metric \<Rightarrow> variant_entry \<Rightarrow> rat" where
  "score_of CONVERSION entry = conversion entry"
| "score_of ACCURACY entry = (case st_confusion entry of None \<Rightarrow> 0 | Some c \<Rightarrow> accuracy c)"
| "score_of PRECISION entry = (case st_confusion entry of None \<Rightarrow> 0 | Some c \<Rightarrow> precision c)"
| "score_of RECALL entry = (case st_confusion entry of None \<Rightarrow> 0 | Some c \<Rightarrow> recall c)"
| "score_of F1 entry = f1_of entry"
| "score_of PROFIT entry = mean_profit entry"
| "score_of ROI entry = mean_roi entry"
| "score_of VALUE entry = mean_value entry"

record winner_result =
  winner_key :: "string option"
  w_confidence :: "rat option"
  w_significant :: bool
  leading_key :: "string option"
  w_p_value :: "rat option"
  comparisons :: "(string \<times> comparison) list"

definition winner_result_of ::
  "string option \<Rightarrow> string option \<Rightarrow> rat option \<Rightarrow> rat option \<Rightarrow> (string \<times> comparison) list \<Rightarrow> winner_result" where
  "winner_result_of w l conf p cs =
     \<lparr>winner_key = w, w_confidence = conf, w_significant = (w \<noteq> None), leading_key = l, w_p_value = p,
      comparisons = cs\<rparr>"

definition leading :: "primary_metric \<Rightarrow> stats \<Rightarrow> string" where
  "leading metric st = fst (first_max (\<lambda>kv. score_of metric (snd kv)) st)"

text \<open>The loop over the variants other than the control.\<close>

definition comparisons_of ::
  "libm \<Rightarrow> rat \<Rightarrow> primary_metric \<Rightarrow> string \<Rightarrow> variant_entry \<Rightarrow> stats \<Rightarrow> (string \<times> comparison) list" where
  "comparisons_of L alpha metric ck control st =
     List.map_filter (\<lambda>(k, entry). if k = ck then None
       else map_option (Pair k) (compare L alpha metric entry control)) st"

definition determine_winner ::
  "libm \<Rightarrow> stats \<Rightarrow> string option \<Rightarrow> rat \<Rightarrow> primary_metric \<Rightarrow> winner_result" where
  "determine_winner L st control_key alpha metric =
     (if st = [] then winner_result_of None None None None []
      else
        (case Option.bind control_key (\<lambda>ck. map_option (Pair ck) (map_of st ck)) of
           None \<Rightarrow> winner_result_of None (Some (leading metric st)) None None []
         | Some (ck, control) \<Rightarrow>
             (let cs = comparisons_of L alpha metric ck control st;
                  candidates = filter (\<lambda>kc. significant (snd kc) \<and> better (snd kc)) cs in
              if candidates \<noteq> [] then
                (let w = first_max (\<lambda>kc. (c_uplift (snd kc), score_of metric (the (map_of st (fst kc))))) candidates in
                 winner_result_of (Some (fst w)) (Some (fst w)) (Some (c_confidence (snd w))) (c_p_value (snd w)) cs)
              else winner_result_of None (Some (leading metric st)) None None cs)))"

section \<open>Simulation\<close>

record simulation =
  sim_control :: rat
  sim_variant :: rat
  sim_uplift :: "rat option"
  sim_p_value :: rat
  sim_confidence :: rat
  sim_significant :: bool
  sim_sample_size :: int

text \<open>\<open>draws k\<close> is the \<open>k\<close>-th value of the seeded generator.\<close>

definition simulate_ab :: "libm \<Rightarrow> (nat \<Rightarrow> rat) \<Rightarrow> nat \<Rightarrow> rat \<Rightarrow> rat \<Rightarrow> rat \<Rightarrow> simulation py" where
  "simulate_ab L draws n base_conversion effect_size alpha =
     (let succ_c = of_nat (length (filter (\<lambda>k. draws k < base_conversion) [0..<n]));
          succ_v = of_nat (length (filter (\<lambda>k. draws k < min 1 (fadd base_conversion effect_size)) [n..<2 * n]));
          res = two_proportion_ztest L succ_v (of_nat n) succ_c (of_nat n);
          p = (case res of None \<Rightarrow> 1 | Some r \<Rightarrow> p_value r) in
      bindR (fdivE succ_c (of_nat n)) (\<lambda>conv_c.
      bindR (fdivE succ_v (of_nat n)) (\<lambda>conv_v.
      bindR (required_sample_size L base_conversion (fadd base_conversion effect_size) alpha) (\<lambda>size.
      Inr \<lparr>sim_control = round_float 6 conv_c, sim_variant = round_float 6 conv_v,
           sim_uplift = map_option uplift_of res, sim_p_value = p,
           sim_confidence = (case res of None \<Rightarrow> 0 | Some _ \<Rightarrow> fsub 1 p),
           sim_significant = (res \<noteq> None \<and> p < alpha \<and> conv_c < conv_v), sim_sample_size = size\<rparr>))))"

end
