(* ===== verification/Experiments.thy ===== *)
theory Experiments
  imports ExperimentStats StateMachine Sha256 "HOL-Library.List_Lexorder" "HOL-Library.Char_ord"
begin

text \<open>
  The experimentation platform (\<open>app/experiments/manager.py\<close>, \<open>repository.py\<close>, \<open>models.py\<close>):
  the five tables, the assignment of subjects to variants, and the requests of the manager. Ids
  are UUIDs, the \<open>n\<close>-th drawn is \<open>fresh n\<close>; the clock's \<open>n\<close>-th reading is \<open>wall n\<close>. JSON columns
  hold the value whose text they store. The texts of exceptions and the lengths of columns are
  left out.
\<close>

section \<open>Rows\<close>

datatype experiment_type =
    AB | FEATURE_FLAG | PROMPT | RULE | SCORING_COMPARISON | LLM_COMPARISON | SUPPLIER_COMPARISON
  | PREDICTION_COMPARISON

datatype experiment_status = DRAFT | RUNNING | STOPPED | ARCHIVED

record 'i lab_experiment =
  ex_id :: 'i
  ex_name :: string
  ex_type :: experiment_type
  ex_status :: experiment_status
  ex_description :: "string option"
  hypothesis :: "string option"
  ex_metric :: primary_metric
  ex_alpha :: rat
  min_sample_size :: int
  ex_seed :: int
  control_variant_key :: "string option"
  config_snapshot :: "json option"
  code_version :: "string option"
  started_at :: "int option"
  stopped_at :: "int option"
  ex_created :: int

record 'i variant =
  va_id :: 'i
  va_experiment :: 'i
  va_key :: string
  va_label :: string
  va_parameters :: "(string \<times> json) list"
  is_control :: bool
  va_created :: int

record 'i assignment =
  as_id :: 'i
  as_experiment :: 'i
  as_variant :: 'i
  as_subject :: string

record 'i observation =
  ob_id :: 'i
  ob_experiment :: 'i
  ob_variant :: 'i
  ob_subject :: string
  outcome :: bool
  ob_profit :: "rat option"
  ob_roi :: "rat option"
  ob_value :: "rat option"
  predicted :: "bool option"
  ground_truth :: "bool option"
  recorded_at :: int

record 'i report =
  re_id :: 'i
  re_experiment :: 'i
  winner_variant_key :: "string option"
  winner_label :: "string option"
  re_confidence :: "rat option"
  re_metric :: primary_metric
  profit_impact :: "rat option"
  roi_impact :: "rat option"
  re_precision :: "rat option"
  re_recall :: "rat option"
  re_false_positives :: "nat option"
  re_false_negatives :: "nat option"
  report_body :: "fstring list"
  params_snapshot :: json
  re_created :: int

record 'i lab =
  experiments :: "'i lab_experiment list"
  variants :: "'i variant list"
  assignments :: "'i assignment list"
  observations :: "'i observation list"
  reports :: "'i report list"
  uuids_drawn :: nat
  clock_reads :: nat

datatype experiment_error =
    ExperimentValidationError
  | ExperimentNotFoundError
  | ExperimentConflictError
  | MultipleResultsFound
  | ConstraintViolation
  | AssertionError
  | Builtin py_error

type_synonym ('i, 'a) lab_act = "('i lab, experiment_error, 'a) act"

section \<open>The platform and the request\<close>

record experiment_config =
  lab_enabled :: bool
  max_variants_per_experiment :: nat
  max_batch_size :: nat
  cfg_code_version :: string

record 'i platform =
  fresh :: "nat \<Rightarrow> 'i"
  id_text :: "'i \<Rightarrow> string"
  wall :: "nat \<Rightarrow> int"
  libm_of :: libm
  lab_config :: experiment_config

text \<open>
  What the database adds in a transaction: its start, the default of \<open>created_at\<close>, and the
  order in which a query with \<open>ORDER BY\<close> returns the rows.
\<close>

record 'i transaction =
  tx_start :: int
  order_variants :: "'i variant list \<Rightarrow> 'i variant list"
  order_observations :: "'i observation list \<Rightarrow> 'i observation list"
  order_reports :: "'i report list \<Rightarrow> 'i report list"
  order_experiments :: "'i lab_experiment list \<Rightarrow> 'i lab_experiment list"

definition lawful_transaction :: "'i transaction \<Rightarrow> bool" where
  "lawful_transaction E \<longleftrightarrow> orders_by va_created (order_variants E)
     \<and> orders_by (\<lambda>x. - recorded_at x) (order_observations E)
     \<and> orders_by (\<lambda>x. - re_created x) (order_reports E)
     \<and> orders_by (\<lambda>x. - ex_created x) (order_experiments E)"

definition draw_uuid :: "'i platform \<Rightarrow> ('i, 'i) lab_act" where
  "draw_uuid P db = (Inr (fresh P (uuids_drawn db)), db\<lparr>uuids_drawn := Suc (uuids_drawn db)\<rparr>)"

definition read_clock :: "'i platform \<Rightarrow> ('i, int) lab_act" where
  "read_clock P db = (Inr (wall P (clock_reads db)), db\<lparr>clock_reads := Suc (clock_reads db)\<rparr>)"

section \<open>The repository\<close>

text \<open>\<open>scalar_one_or_none\<close>\<close>

definition single :: "'row list \<Rightarrow> ('i, 'row option) lab_act" where
  "single rows = (case rows of [] \<Rightarrow> retA None | [r] \<Rightarrow> retA (Some r) | _ \<Rightarrow> failA MultipleResultsFound)"

definition add_experiment :: "'i lab_experiment \<Rightarrow> ('i, 'i lab_experiment) lab_act" where
  "add_experiment e db = (Inr e, db\<lparr>experiments := experiments db @ [e]\<rparr>)"

text \<open>
  The row is an object of the session: what is written to its attributes is flushed and read
  back. Attributes given as \<open>None\<close> are skipped.
\<close>

definition given :: "'a option \<Rightarrow> 'a option \<Rightarrow> 'a option" where
  "given new old = (case new of None \<Rightarrow> old | Some _ \<Rightarrow> new)"

definition save_experiment :: "'i lab_experiment \<Rightarrow> ('i, 'i lab_experiment) lab_act" where
  "save_experiment e db =
     (Inr e, db\<lparr>experiments := map (\<lambda>x. if ex_id x = ex_id e then e else x) (experiments db)\<rparr>)"

definition list_experiments ::
  "'i transaction \<Rightarrow> experiment_type option \<Rightarrow> experiment_status option \<Rightarrow> nat \<Rightarrow> nat
   \<Rightarrow> 'i lab \<Rightarrow> 'i lab_experiment list \<times> nat" where
  "list_experiments E ty st limit offset db =
     (let rows = filter (\<lambda>x. (ty = None \<or> ty = Some (ex_type x)) \<and> (st = None \<or> st = Some (ex_status x)))
                   (experiments db) in
      (take limit (drop offset (order_experiments E rows)), length rows))"

definition create_variant ::
  "'i platform \<Rightarrow> 'i transaction \<Rightarrow> 'i \<Rightarrow> string \<Rightarrow> string \<Rightarrow> (string \<times> json) list \<Rightarrow> bool
   \<Rightarrow> ('i, 'i variant) lab_act" where
  "create_variant P E i k label params control =
     bindA (draw_uuid P) (\<lambda>v db.
       let row = \<lparr>va_id = v, va_experiment = i, va_key = k, va_label = label, va_parameters = params,
                  is_control = control, va_created = tx_start E\<rparr> in
       (Inr row, db\<lparr>variants := variants db @ [row]\<rparr>))"

definition list_variants :: "'i transaction \<Rightarrow> 'i \<Rightarrow> 'i lab \<Rightarrow> 'i variant list" where
  "list_variants E i db = order_variants E (filter (\<lambda>v. va_experiment v = i) (variants db))"

definition get_variant :: "'i \<Rightarrow> string \<Rightarrow> ('i, 'i variant option) lab_act" where
  "get_variant i k db = single (filter (\<lambda>v. va_experiment v = i \<and> va_key v = k) (variants db)) db"

definition count_variants :: "'i \<Rightarrow> 'i lab \<Rightarrow> nat" where
  "count_variants i db = length (filter (\<lambda>v. va_experiment v = i) (variants db))"

definition get_assignment :: "'i \<Rightarrow> string \<Rightarrow> ('i, 'i assignment option) lab_act" where
  "get_assignment i s db = single (filter (\<lambda>a. as_experiment a = i \<and> as_subject a = s) (assignments db)) db"

text \<open>The unique constraints on (experiment, subject) refuse a second row.\<close>

definition create_assignment :: "'i platform \<Rightarrow> 'i \<Rightarrow> 'i \<Rightarrow> string \<Rightarrow> ('i, 'i assignment) lab_act" where
  "create_assignment P i v s =
     bindA (draw_uuid P) (\<lambda>a db.
       let row = \<lparr>as_id = a, as_experiment = i, as_variant = v, as_subject = s\<rparr> in
       if \<exists>x \<in> set (assignments db). as_experiment x = i \<and> as_subject x = s then (Inl ConstraintViolation, db)
       else (Inr row, db\<lparr>assignments := assignments db @ [row]\<rparr>))"

definition count_assignments :: "'i \<Rightarrow> 'i lab \<Rightarrow> nat" where
  "count_assignments i db = length (filter (\<lambda>a. as_experiment a = i) (assignments db))"

definition get_observation :: "'i \<Rightarrow> string \<Rightarrow> ('i, 'i observation option) lab_act" where
  "get_observation i s db = single (filter (\<lambda>x. ob_experiment x = i \<and> ob_subject x = s) (observations db)) db"

definition create_observation :: "'i platform \<Rightarrow> ('i \<Rightarrow> 'i observation) \<Rightarrow> ('i, 'i observation) lab_act" where
  "create_observation P mk =
     bindA (draw_uuid P) (\<lambda>k db.
       let row = mk k in
       if \<exists>x \<in> set (observations db). ob_experiment x = ob_experiment row \<and> ob_subject x = ob_subject row
       then (Inl ConstraintViolation, db)
       else (Inr row, db\<lparr>observations := observations db @ [row]\<rparr>))"

definition update_observation :: "'i observation \<Rightarrow> ('i, 'i observation) lab_act" where
  "update_observation row db =
     (Inr row, db\<lparr>observations := map (\<lambda>x. if ob_id x = ob_id row then row else x) (observations db)\<rparr>)"

definition list_observations ::
  "'i transaction \<Rightarrow> 'i \<Rightarrow> nat \<Rightarrow> nat \<Rightarrow> 'i lab \<Rightarrow> 'i observation list \<times> nat" where
  "list_observations E i limit offset db =
     (let rows = filter (\<lambda>x. ob_experiment x = i) (observations db) in
      (take limit (drop offset (order_observations E rows)), length rows))"

definition count_observations :: "'i \<Rightarrow> 'i lab \<Rightarrow> nat" where
  "count_observations i db = length (filter (\<lambda>x. ob_experiment x = i) (observations db))"

definition list_reports :: "'i transaction \<Rightarrow> 'i \<Rightarrow> nat \<Rightarrow> nat \<Rightarrow> 'i lab \<Rightarrow> 'i report list \<times> nat" where
  "list_reports E i limit offset db =
     (let rows = filter (\<lambda>x. re_experiment x = i) (reports db) in
      (take limit (drop offset (order_reports E rows)), length rows))"

definition latest_report :: "'i transaction \<Rightarrow> 'i \<Rightarrow> 'i lab \<Rightarrow> 'i report option" where
  "latest_report E i db =
     (case fst (list_reports E i 1 0 db) of [] \<Rightarrow> None | r # _ \<Rightarrow> Some r)"

text \<open>The rows that refer to the experiment go with it, \<open>ondelete="CASCADE"\<close>.\<close>

definition delete_experiment :: "'i \<Rightarrow> ('i, bool) lab_act" where
  "delete_experiment i db =
     (case find (\<lambda>x. ex_id x = i) (experiments db) of
        None \<Rightarrow> (Inr False, db)
      | Some e \<Rightarrow>
          (Inr True, db\<lparr>experiments := filter (\<lambda>x. ex_id x \<noteq> ex_id e) (experiments db),
             variants := filter (\<lambda>x. va_experiment x \<noteq> ex_id e) (variants db),
             assignments := filter (\<lambda>x. as_experiment x \<noteq> ex_id e) (assignments db),
             observations := filter (\<lambda>x. ob_experiment x \<noteq> ex_id e) (observations db),
             reports := filter (\<lambda>x. re_experiment x \<noteq> ex_id e) (reports db)\<rparr>))"

end
