(* ===== verification/ExperimentManager.thy ===== *)
theory ExperimentManager
  imports Experiments
begin

text \<open>
  The manager of the experimentation platform (\<open>app/experiments/manager.py\<close>): life cycle,
  assignment, observations, results, reports, and the requests the API serves, each in a
  transaction of its own.
\<close>

section \<open>The values of the enumerations\<close>

fun type_value :: "experiment_type \<Rightarrow> string" where
  "type_value AB = ''ab_test''"
| "type_value FEATURE_FLAG = ''feature_flag''"
| "type_value PROMPT = ''prompt''"
| "type_value RULE = ''rule''"
| "type_value SCORING_COMPARISON = ''scoring_comparison''"
| "type_value LLM_COMPARISON = ''llm_comparison''"
| "type_value SUPPLIER_COMPARISON = ''supplier_comparison''"
| "type_value PREDICTION_COMPARISON = ''prediction_comparison''"

fun status_value :: "experiment_status \<Rightarrow> string" where
  "status_value DRAFT = ''draft''"
| "status_value RUNNING = ''running''"
| "status_value STOPPED = ''stopped''"
| "status_value ARCHIVED = ''archived''"

fun metric_value :: "primary_metric \<Rightarrow> string" where
  "metric_value CONVERSION = ''conversion''"
| "metric_value PROFIT = ''profit''"
| "metric_value ROI = ''roi''"
| "metric_value VALUE = ''value''"
| "metric_value ACCURACY = ''accuracy''"
| "metric_value PRECISION = ''precision''"
| "metric_value RECALL = ''recall''"
| "metric_value F1 = ''f1''"

fun default_metric :: "experiment_type \<Rightarrow> primary_metric" where
  "default_metric AB = CONVERSION"
| "default_metric FEATURE_FLAG = CONVERSION"
| "default_metric PROMPT = CONVERSION"
| "default_metric RULE = CONVERSION"
| "default_metric SCORING_COMPARISON = PRECISION"
| "default_metric LLM_COMPARISON = ACCURACY"
| "default_metric SUPPLIER_COMPARISON = PROFIT"
| "default_metric PREDICTION_COMPARISON = PRECISION"

section \<open>The requests\<close>

record variant_create =
  vc_key :: string
  vc_label :: string
  vc_parameters :: "(string \<times> json) list"
  vc_is_control :: bool

record experiment_create =
  cr_name :: string
  cr_type :: experiment_type
  cr_description :: "string option"
  cr_hypothesis :: "string option"
  cr_metric :: "primary_metric option"
  cr_alpha :: rat
  cr_min_sample_size :: int
  cr_seed :: int
  cr_control :: "string option"
  cr_variants :: "variant_create list"

record experiment_update =
  up_name :: "string option"
  up_description :: "string option"
  up_hypothesis :: "string option"
  up_control :: "string option"

record observation_create =
  oc_subject :: string
  oc_outcome :: bool
  oc_profit :: "rat option"
  oc_roi :: "rat option"
  oc_value :: "rat option"
  oc_predicted :: "bool option"
  oc_truth :: "bool option"

definition valid_variant :: "variant_create \<Rightarrow> bool" where
  "valid_variant v \<longleftrightarrow> 1 \<le> length (vc_key v) \<and> length (vc_key v) \<le> 64 \<and> length (vc_label v) \<le> 255"

definition valid_create :: "experiment_create \<Rightarrow> bool" where
  "valid_create r \<longleftrightarrow> 1 \<le> length (cr_name r) \<and> length (cr_name r) \<le> 255 \<and> strip (cr_name r) \<noteq> []
     \<and> 0 < cr_alpha r \<and> cr_alpha r < 1 \<and> 1 \<le> cr_min_sample_size r \<and> 0 \<le> cr_seed r
     \<and> list_all valid_variant (cr_variants r)"

definition valid_update :: "experiment_update \<Rightarrow> bool" where
  "valid_update r \<longleftrightarrow> (case up_name r of None \<Rightarrow> True | Some n \<Rightarrow> 1 \<le> length n \<and> length n \<le> 255)"

definition valid_subject :: "string \<Rightarrow> bool" where
  "valid_subject s \<longleftrightarrow> 1 \<le> length s \<and> length s \<le> 255"

section \<open>Internals\<close>

definition get_experiment :: "'i \<Rightarrow> ('i, 'i lab_experiment) lab_act" where
  "get_experiment i db =
     (case find (\<lambda>x. ex_id x = i) (experiments db) of
        None \<Rightarrow> (Inl ExperimentNotFoundError, db)
      | Some e \<Rightarrow> (Inr e, db))"

definition variant_by_id :: "'i transaction \<Rightarrow> 'i \<Rightarrow> 'i \<Rightarrow> ('i, 'i variant) lab_act" where
  "variant_by_id E i v db =
     (case find (\<lambda>x. va_id x = v) (list_variants E i db) of
        None \<Rightarrow> (Inl ExperimentNotFoundError, db)
      | Some x \<Rightarrow> (Inr x, db))"

definition falsy :: "string option \<Rightarrow> bool" where
  "falsy s \<longleftrightarrow> s = None \<or> s = Some []"

definition variant_label_for :: "'i \<Rightarrow> string option \<Rightarrow> ('i, string option) lab_act" where
  "variant_label_for i k =
     (if falsy k then retA None
      else bindA (get_variant i (the k)) (\<lambda>v.
        retA (Some (case v of None \<Rightarrow> the k | Some x \<Rightarrow> va_label x))))"

definition view_of :: "('i \<rightharpoonup> string) \<Rightarrow> 'i observation \<Rightarrow> obs_view" where
  "view_of keys x =
     \<lparr>ov_key = (case keys (ob_variant x) of None \<Rightarrow> ''?'' | Some k \<Rightarrow> k), ov_outcome = outcome x,
      ov_profit = ob_profit x, ov_roi = ob_roi x, ov_value = ob_value x, ov_predicted = predicted x,
      ov_truth = ground_truth x\<rparr>"

definition variant_keys :: "'i transaction \<Rightarrow> 'i \<Rightarrow> 'i lab \<Rightarrow> 'i \<rightharpoonup> string" where
  "variant_keys E i db = map_of (rev (map (\<lambda>v. (va_id v, va_key v)) (list_variants E i db)))"

definition load_stats ::
  "'i platform \<Rightarrow> 'i transaction \<Rightarrow> 'i lab_experiment \<Rightarrow> 'i lab \<Rightarrow> stats \<times> obs_view list" where
  "load_stats P E e db =
     (let views = map (view_of (variant_keys E (ex_id e) db)) (fst (list_observations E (ex_id e) 100000 0 db)) in
      (variant_stats (libm_of P) views, views))"

definition winner_of :: "'i platform \<Rightarrow> 'i transaction \<Rightarrow> 'i lab_experiment \<Rightarrow> 'i lab \<Rightarrow> winner_result" where
  "winner_of P E e db =
     determine_winner (libm_of P) (fst (load_stats P E e db)) (control_variant_key e) (ex_alpha e) (ex_metric e)"

record 'i experiment_read =
  er_row :: "'i lab_experiment"
  variant_count :: nat
  assignment_count :: nat
  observation_count :: nat

definition to_read :: "'i transaction \<Rightarrow> 'i lab_experiment \<Rightarrow> ('i, 'i experiment_read) lab_act" where
  "to_read E e db =
     (Inr \<lparr>er_row = e, variant_count = length (list_variants E (ex_id e) db),
           assignment_count = count_assignments (ex_id e) db,
           observation_count = count_observations (ex_id e) db\<rparr>, db)"

section \<open>Life cycle\<close>

text \<open>The control variant first, then the rest.\<close>

definition control_first :: "variant_create list \<Rightarrow> variant_create list" where
  "control_first vs =
     (case find vc_is_control vs of None \<Rightarrow> vs | Some c \<Rightarrow> c # remove1 c vs)"

fun create_variants ::
  "'i platform \<Rightarrow> 'i transaction \<Rightarrow> variant_create list \<Rightarrow> 'i lab_experiment \<Rightarrow> ('i, 'i lab_experiment) lab_act" where
  "create_variants P E [] e = retA e"
| "create_variants P E (v # vs) e =
     bindA (create_variant P E (ex_id e) (vc_key v) (vc_label v) (vc_parameters v) (vc_is_control v)) (\<lambda>_.
     bindA (if vc_is_control v \<and> falsy (control_variant_key e)
            then save_experiment (e\<lparr>control_variant_key := Some (vc_key v)\<rparr>) else retA e) (\<lambda>e.
     create_variants P E vs e))"

definition draft_row :: "'i \<Rightarrow> experiment_create \<Rightarrow> int \<Rightarrow> 'i lab_experiment" where
  "draft_row i r t =
     \<lparr>ex_id = i, ex_name = cr_name r, ex_type = cr_type r, ex_status = DRAFT,
      ex_description = cr_description r, hypothesis = cr_hypothesis r,
      ex_metric = (case cr_metric r of None \<Rightarrow> default_metric (cr_type r) | Some m \<Rightarrow> m),
      ex_alpha = cr_alpha r, min_sample_size = cr_min_sample_size r, ex_seed = cr_seed r,
      control_variant_key = cr_control r, config_snapshot = None, code_version = None,
      started_at = None, stopped_at = None, ex_created = t\<rparr>"

definition ensure_control ::
  "'i platform \<Rightarrow> 'i transaction \<Rightarrow> 'i lab_experiment \<Rightarrow> ('i, unit) lab_act" where
  "ensure_control P E e =
     (if falsy (control_variant_key e) then retA ()
      else bindA (get_variant (ex_id e) (the (control_variant_key e))) (\<lambda>v.
        if v = None
        then bindA (create_variant P E (ex_id e) (the (control_variant_key e)) ''Control'' [] True) (\<lambda>_. retA ())
        else retA ()))"

definition create_experiment ::
  "'i platform \<Rightarrow> 'i transaction \<Rightarrow> experiment_create \<Rightarrow> ('i, 'i experiment_read) lab_act" where
  "create_experiment P E r =
     (if \<not> lab_enabled (lab_config P) then failA ExperimentValidationError
      else if max_variants_per_experiment (lab_config P) < length (cr_variants r) then failA ExperimentValidationError
      else
        bindA (draw_uuid P) (\<lambda>i.
        bindA (add_experiment (draft_row i r (tx_start E))) (\<lambda>e.
        bindA (create_variants P E (control_first (cr_variants r)) e) (\<lambda>e.
        bindA (ensure_control P E e) (\<lambda>_.
        to_read E e)))))"

definition add_variant ::
  "'i platform \<Rightarrow> 'i transaction \<Rightarrow> 'i \<Rightarrow> variant_create \<Rightarrow> ('i, 'i variant) lab_act" where
  "add_variant P E i r =
     bindA (get_experiment i) (\<lambda>e.
     if ex_status e \<noteq> DRAFT then failA ExperimentConflictError
     else bindA (readA (count_variants i)) (\<lambda>n.
     if max_variants_per_experiment (lab_config P) \<le> n then failA ExperimentValidationError
     else if vc_is_control r \<and> \<not> falsy (control_variant_key e) then failA ExperimentValidationError
     else bindA (get_variant i (vc_key r)) (\<lambda>old.
     if old \<noteq> None then failA ExperimentValidationError
     else bindA (create_variant P E i (vc_key r) (vc_label r) (vc_parameters r) (vc_is_control r)) (\<lambda>v.
     bindA (if vc_is_control r then save_experiment (e\<lparr>control_variant_key := Some (vc_key r)\<rparr>) else retA e) (\<lambda>_.
     retA v)))))"

definition update_experiment ::
  "'i transaction \<Rightarrow> 'i \<Rightarrow> experiment_update \<Rightarrow> ('i, 'i experiment_read) lab_act" where
  "update_experiment E i r =
     bindA (get_experiment i) (\<lambda>e.
     if ex_status e \<noteq> DRAFT then failA ExperimentConflictError
     else bindA (save_experiment
       (e\<lparr>ex_name := (case up_name r of None \<Rightarrow> ex_name e | Some n \<Rightarrow> n),
          ex_description := given (up_description r) (ex_description e),
          hypothesis := given (up_hypothesis r) (hypothesis e),
          control_variant_key := given (up_control r) (control_variant_key e)\<rparr>)) (to_read E))"

definition opt_json :: "('a \<Rightarrow> json) \<Rightarrow> 'a option \<Rightarrow> json" where
  "opt_json f x = (case x of None \<Rightarrow> JNull | Some y \<Rightarrow> f y)"

definition variants_json :: "'i variant list \<Rightarrow> json" where
  "variants_json vs = JList (map (\<lambda>v. JObj
     [(''key'', JStr (va_key v)), (''label'', JStr (va_label v)), (''parameters'', JObj (va_parameters v)),
      (''is_control'', JBool (is_control v))]) vs)"

definition start_snapshot :: "'i platform \<Rightarrow> 'i lab_experiment \<Rightarrow> 'i variant list \<Rightarrow> json" where
  "start_snapshot P e vs = JObj
     [(''experiment'', JObj
        [(''name'', JStr (ex_name e)), (''experiment_type'', JStr (type_value (ex_type e))),
         (''primary_metric'', JStr (metric_value (ex_metric e))), (''alpha'', JFloat (ex_alpha e)),
         (''min_sample_size'', JInt (min_sample_size e)), (''seed'', JInt (ex_seed e)),
         (''control_variant_key'', opt_json JStr (control_variant_key e))]),
      (''variants'', variants_json vs),
      (''code_version'', JStr (cfg_code_version (lab_config P)))]"

definition start :: "'i platform \<Rightarrow> 'i transaction \<Rightarrow> 'i \<Rightarrow> ('i, 'i experiment_read) lab_act" where
  "start P E i =
     bindA (get_experiment i) (\<lambda>e.
     if ex_status e \<notin> {DRAFT, RUNNING} then failA ExperimentConflictError
     else bindA (readA (list_variants E i)) (\<lambda>vs.
     if vs = [] then failA ExperimentValidationError
     else bindA (read_clock P) (\<lambda>t.
     bindA (save_experiment
       (e\<lparr>ex_status := RUNNING, started_at := Some t, config_snapshot := Some (start_snapshot P e vs),
          code_version := Some (cfg_code_version (lab_config P))\<rparr>)) (to_read E))))"

section \<open>Assignment and observations\<close>

definition assign ::
  "'i platform \<Rightarrow> 'i transaction \<Rightarrow> 'i \<Rightarrow> string \<Rightarrow> ('i, 'i assignment \<times> string) lab_act" where
  "assign P E i s =
     bindA (get_experiment i) (\<lambda>e.
     if ex_status e = ARCHIVED then failA ExperimentConflictError
     else bindA (get_assignment i s) (\<lambda>existing.
     case existing of
       Some a \<Rightarrow> bindA (variant_by_id E i (as_variant a)) (\<lambda>v. retA (a, va_key v))
     | None \<Rightarrow>
         bindA (readA (list_variants E i)) (\<lambda>vs.
         if vs = [] then failA ExperimentValidationError
         else
           (let v = vs ! nat (assign_variant s (ex_seed e) (int (length vs))) in
            bindA (create_assignment P i (va_id v) s) (\<lambda>a. retA (a, va_key v))))))"

definition observation_row :: "'i \<Rightarrow> 'i \<Rightarrow> observation_create \<Rightarrow> int \<Rightarrow> 'i \<Rightarrow> 'i observation" where
  "observation_row i v r t k =
     \<lparr>ob_id = k, ob_experiment = i, ob_variant = v, ob_subject = oc_subject r, outcome = oc_outcome r,
      ob_profit = oc_profit r, ob_roi = oc_roi r, ob_value = oc_value r, predicted = oc_predicted r,
      ground_truth = oc_truth r, recorded_at = t\<rparr>"

text \<open>The assignment of the subject, made when there is none.\<close>

definition assigned :: "'i platform \<Rightarrow> 'i transaction \<Rightarrow> 'i \<Rightarrow> string \<Rightarrow> ('i, 'i assignment) lab_act" where
  "assigned P E i s =
     bindA (get_assignment i s) (\<lambda>a.
     case a of
       Some a \<Rightarrow> retA a
     | None \<Rightarrow> bindA (assign P E i s) (\<lambda>_.
         bindA (get_assignment i s) (\<lambda>a.
         case a of None \<Rightarrow> failA AssertionError | Some a \<Rightarrow> retA a)))"

text \<open>The subject's row is updated in place, or added.\<close>

definition put_observation ::
  "'i platform \<Rightarrow> 'i \<Rightarrow> 'i \<Rightarrow> observation_create \<Rightarrow> int \<Rightarrow> ('i, 'i observation) lab_act" where
  "put_observation P i v r t =
     bindA (get_observation i (oc_subject r)) (\<lambda>old.
     case old of
       Some row \<Rightarrow> update_observation
         (observation_row (ob_experiment row) (ob_variant row) (r\<lparr>oc_subject := ob_subject row\<rparr>) t (ob_id row))
     | None \<Rightarrow> create_observation P (observation_row i v r t))"

definition record_observation ::
  "'i platform \<Rightarrow> 'i transaction \<Rightarrow> 'i \<Rightarrow> observation_create \<Rightarrow> ('i, 'i observation \<times> string) lab_act" where
  "record_observation P E i r =
     bindA (get_experiment i) (\<lambda>e.
     if ex_status e \<notin> {RUNNING, STOPPED} then failA ExperimentConflictError
     else bindA (assigned P E i (oc_subject r)) (\<lambda>a.
     bindA (variant_by_id E i (as_variant a)) (\<lambda>v.
     bindA (read_clock P) (\<lambda>t.
     bindA (put_observation P i (as_variant a) r t) (\<lambda>row.
     retA (row, va_key v))))))"

fun record_loop ::
  "'i platform \<Rightarrow> 'i transaction \<Rightarrow> 'i \<Rightarrow> observation_create list \<Rightarrow> string set
   \<Rightarrow> ('i, ('i observation \<times> string) list) lab_act" where
  "record_loop P E i [] seen = retA []"
| "record_loop P E i (r # rs) seen =
     (if oc_subject r \<in> seen then record_loop P E i rs seen
      else bindA (record_observation P E i r) (\<lambda>x.
        bindA (record_loop P E i rs (insert (oc_subject r) seen)) (\<lambda>xs. retA (x # xs))))"

definition record_many ::
  "'i platform \<Rightarrow> 'i transaction \<Rightarrow> 'i \<Rightarrow> observation_create list
   \<Rightarrow> ('i, ('i observation \<times> string) list) lab_act" where
  "record_many P E i rs =
     (if max_batch_size (lab_config P) < length rs then failA ExperimentValidationError
      else record_loop P E i rs {})"

end
