(* ===== verification/ExperimentReports.thy ===== *)
theory ExperimentReports
  imports ExperimentManager
begin

text \<open>
  Results and reports of the experimentation platform (\<open>app/experiments/manager.py\<close>): the live
  results, the winner, the confusion metrics per variant, the report with its text, stopping an
  experiment, and the requests that change the tables, each in its transaction.
\<close>

section \<open>Results\<close>

record variant_result =
  vr_key :: string
  vr_n :: nat
  vr_conversion :: rat
  vr_mean_profit :: rat
  vr_mean_roi :: rat
  vr_mean_value :: rat
  vr_precision :: "rat option"
  vr_recall :: "rat option"
  vr_false_positives :: "nat option"
  vr_false_negatives :: "nat option"

record results_read =
  rr_metric :: primary_metric
  rr_alpha :: rat
  total_observations :: nat
  rr_min_sample_size :: int
  sample_complete :: bool
  rr_variants :: "variant_result list"
  rr_winner :: winner_result
  rr_winner_label :: "string option"

definition sorted_stats :: "stats \<Rightarrow> stats" where
  "sorted_stats st = sort_key fst st"

definition variant_result_of :: "string \<times> variant_entry \<Rightarrow> variant_result" where
  "variant_result_of kv =
     (case kv of (k, s) \<Rightarrow>
        \<lparr>vr_key = k, vr_n = st_n s, vr_conversion = conversion s, vr_mean_profit = mean_profit s,
         vr_mean_roi = mean_roi s, vr_mean_value = mean_value s,
         vr_precision = map_option precision (st_confusion s), vr_recall = map_option recall (st_confusion s),
         vr_false_positives = map_option false_positives (st_confusion s),
         vr_false_negatives = map_option false_negatives (st_confusion s)\<rparr>)"

definition results :: "'i platform \<Rightarrow> 'i transaction \<Rightarrow> 'i \<Rightarrow> ('i, results_read) lab_act" where
  "results P E i =
     bindA (get_experiment i) (\<lambda>e.
     bindA (readA (load_stats P E e)) (\<lambda>(st, views).
     let w = determine_winner (libm_of P) st (control_variant_key e) (ex_alpha e) (ex_metric e) in
     bindA (variant_label_for i (winner_key w)) (\<lambda>label.
     retA \<lparr>rr_metric = ex_metric e, rr_alpha = ex_alpha e, total_observations = length views,
           rr_min_sample_size = min_sample_size e, sample_complete = (min_sample_size e \<le> int (length views)),
           rr_variants = map variant_result_of (sorted_stats st), rr_winner = w, rr_winner_label = label\<rparr>)))"

definition winner_request ::
  "'i platform \<Rightarrow> 'i transaction \<Rightarrow> 'i \<Rightarrow> ('i, winner_result \<times> string option) lab_act" where
  "winner_request P E i =
     bindA (get_experiment i) (\<lambda>e.
     bindA (readA (winner_of P E e)) (\<lambda>w.
     bindA (variant_label_for i (winner_key w)) (\<lambda>label. retA (w, label))))"

definition precision_recall ::
  "'i platform \<Rightarrow> 'i transaction \<Rightarrow> 'i \<Rightarrow> ('i, (string \<times> confusion option) list) lab_act" where
  "precision_recall P E i =
     bindA (get_experiment i) (\<lambda>e.
     bindA (readA (load_stats P E e)) (\<lambda>(st, views).
     retA (map (\<lambda>(k, s). (k, st_confusion s)) st)))"

section \<open>The text of a report\<close>

definition str :: "string \<Rightarrow> fpiece" where
  "str = Txt"

definition nat_piece :: "nat \<Rightarrow> fpiece" where
  "nat_piece n = Num (of_nat n)"

definition conf_cell :: "(confusion \<Rightarrow> fpiece) \<Rightarrow> variant_entry \<Rightarrow> fpiece" where
  "conf_cell f s = (case st_confusion s of None \<Rightarrow> Lit ''-'' | Some c \<Rightarrow> f c)"

definition stats_row :: "string \<times> variant_entry \<Rightarrow> fstring" where
  "stats_row kv =
     (case kv of (k, s) \<Rightarrow>
        [Lit ''| '', str k, Lit '' | '', nat_piece (st_n s), Lit '' | '', Fix 4 (conversion s), Lit '' | '',
         Fix 2 (mean_profit s), Lit '' | '', Fix 2 (mean_roi s), Lit '' | '',
         conf_cell (\<lambda>c. Fix 4 (precision c)) s, Lit '' | '', conf_cell (\<lambda>c. Fix 4 (recall c)) s, Lit '' | '',
         conf_cell (\<lambda>c. nat_piece (false_positives c)) s, Lit '' | '',
         conf_cell (\<lambda>c. nat_piece (false_negatives c)) s, Lit '' |''])"

definition overview_lines :: "'i lab_experiment \<Rightarrow> nat \<Rightarrow> fstring list" where
  "overview_lines e n =
     [[Lit ''# Experiment report: '', str (ex_name e)], [], [Lit ''## Overview''],
      [Lit ''- Type: **'', str (type_value (ex_type e)), Lit ''**''],
      [Lit ''- Status: '', str (status_value (ex_status e))],
      [Lit ''- Primary metric: '', str (metric_value (ex_metric e))],
      [Lit ''- Significance threshold (alpha): '', Num (ex_alpha e)],
      [Lit ''- Min sample size / variant: '', Num (of_int (min_sample_size e))],
      [Lit ''- Observations recorded: '', nat_piece n],
      [Lit ''- Seed: '', Num (of_int (ex_seed e))],
      [Lit ''- Code version: '', str (if falsy (code_version e) then ''unknown'' else the (code_version e))]]
     @ (if falsy (hypothesis e) then [] else [[Lit ''- Hypothesis: '', str (the (hypothesis e))]]) @ [[]]"

text \<open>Formatting \<open>None\<close> with a format specification raises.\<close>

definition winner_lines :: "'i lab_experiment \<Rightarrow> winner_result \<Rightarrow> fstring list py" where
  "winner_lines e w =
     (if \<not> falsy (winner_key w) then
        (case (w_confidence w, w_p_value w) of
           (Some c, Some p) \<Rightarrow>
             Inr [[Lit ''- **Winner: '', str (the (winner_key w)), Lit ''** (confidence '', Pct 2 c, Lit '', p='',
                   Fix 4 p, Lit '')'']]
         | _ \<Rightarrow> Inl TypeError)
      else if \<not> falsy (leading_key w) then
        Inr [[Lit ''- No statistically significant winner (alpha='', Num (ex_alpha e), Lit ''). Leading: **'',
              str (the (leading_key w)), Lit ''**.'']]
      else Inr [[Lit ''- No observations recorded yet.'']])"

definition impact_lines :: "rat option \<Rightarrow> rat option \<Rightarrow> fstring list" where
  "impact_lines pimp rimp =
     (case pimp of None \<Rightarrow> [] | Some x \<Rightarrow> [[Lit ''- Profit impact vs control: **'', Sgn 2 x, Lit ''**'']])
     @ (case rimp of None \<Rightarrow> [] | Some x \<Rightarrow> [[Lit ''- ROI impact vs control: **'', Sgn 2 x, Lit ''**'']]) @ [[]]"

definition quality_lines :: "stats \<Rightarrow> string option \<Rightarrow> fstring list" where
  "quality_lines st chosen =
     [Lit ''## Quality (prediction / scoring types)'']
     # (case (if falsy chosen then None else Option.bind (map_of st (the chosen)) st_confusion) of
          Some c \<Rightarrow>
            [[Lit ''- Precision: **'', Fix 4 (precision c), Lit ''**, Recall: **'', Fix 4 (recall c),
              Lit ''**, F1: '', Fix 4 (f1 c), Lit '', Accuracy: '', Fix 4 (accuracy c)],
             [Lit ''- False positives: '', nat_piece (false_positives c), Lit '', False negatives: '',
              nat_piece (false_negatives c), Lit '', True positives: '', nat_piece (true_positives c),
              Lit '', True negatives: '', nat_piece (true_negatives c)]]
        | None \<Rightarrow> [[Lit ''- No predicted/ground-truth labels recorded for this experiment.'']]) @ [[]]"

definition reproducibility_lines :: "'i lab_experiment \<Rightarrow> fstring list" where
  "reproducibility_lines e =
     [[Lit ''## Reproducibility''],
      [Lit ''- Assignment seed: `'', Num (of_int (ex_seed e)), Lit ''`''],
      [Lit ''- Assignment = stable SHA-256(`{seed}:{subject}`) % num_variants (deterministic across restarts)''],
      [Lit ''- Code version: `'', str (if falsy (code_version e) then ''unknown'' else the (code_version e)), Lit ''`''],
      [Lit ''- This report stores its full params snapshot; re-running the analysis on the same observations reproduces these numbers exactly.'']]"

definition render_markdown ::
  "'i lab_experiment \<Rightarrow> stats \<Rightarrow> winner_result \<Rightarrow> string option \<Rightarrow> rat option \<Rightarrow> rat option \<Rightarrow> nat \<Rightarrow> fstring list py" where
  "render_markdown e st w chosen pimp rimp n =
     bindR (winner_lines e w) (\<lambda>wl.
     Inr (overview_lines e n
       @ [[Lit ''## Variant results''],
          [Lit ''| Variant | n | conversion | mean profit | mean ROI | precision | recall | FP | FN |''],
          [Lit ''|---|---|---|---|---|---|---|---|---|'']]
       @ map stats_row (sorted_stats st) @ [[]]
       @ [Lit ''## Winner''] # wl @ impact_lines pimp rimp @ quality_lines st chosen @ reproducibility_lines e))"

section \<open>Reports\<close>

text \<open>An exception of the language inside a handler\<close>

definition liftR :: "'a py \<Rightarrow> ('i, 'a) lab_act" where
  "liftR r = (case r of Inl e \<Rightarrow> failA (Builtin e) | Inr x \<Rightarrow> retA x)"

definition winner_for :: "'i platform \<Rightarrow> 'i lab_experiment \<Rightarrow> stats \<Rightarrow> winner_result" where
  "winner_for P e st = determine_winner (libm_of P) st (control_variant_key e) (ex_alpha e) (ex_metric e)"

definition chosen_of :: "winner_result \<Rightarrow> string option" where
  "chosen_of w = (if falsy (winner_key w) then leading_key w else winner_key w)"

text \<open>The statistics of the chosen variant and of the control, when there are both.\<close>

definition chosen_and_control ::
  "'i lab_experiment \<Rightarrow> stats \<Rightarrow> winner_result \<Rightarrow> (variant_entry \<times> variant_entry) option" where
  "chosen_and_control e st w =
     (case (if falsy (chosen_of w) then None else map_of st (the (chosen_of w)),
            if falsy (control_variant_key e) then None else map_of st (the (control_variant_key e))) of
        (Some a, Some b) \<Rightarrow> Some (a, b)
      | _ \<Rightarrow> None)"

definition profit_impact_of :: "(variant_entry \<times> variant_entry) option \<Rightarrow> rat option" where
  "profit_impact_of both = map_option (\<lambda>(a, b). round_float 6 (fsub (mean_profit a) (mean_profit b))) both"

definition roi_impact_of :: "(variant_entry \<times> variant_entry) option \<Rightarrow> rat option" where
  "roi_impact_of both = map_option (\<lambda>(a, b). round_float 6 (fsub (mean_roi a) (mean_roi b))) both"

definition report_text :: "'i platform \<Rightarrow> 'i lab_experiment \<Rightarrow> stats \<times> obs_view list \<Rightarrow> fstring list py" where
  "report_text P e sv =
     (let w = winner_for P e (fst sv); both = chosen_and_control e (fst sv) w in
      render_markdown e (fst sv) w (chosen_of w) (profit_impact_of both) (roi_impact_of both) (length (snd sv)))"

definition report_row ::
  "'i platform \<Rightarrow> 'i transaction \<Rightarrow> 'i lab_experiment \<Rightarrow> stats \<times> obs_view list \<Rightarrow> string option \<Rightarrow> fstring list
   \<Rightarrow> 'i variant list \<Rightarrow> 'i \<Rightarrow> 'i report" where
  "report_row P E e sv label body vs k =
     (let w = winner_for P e (fst sv); both = chosen_and_control e (fst sv) w;
          conf = Option.bind both (\<lambda>(a, b). st_confusion a) in
      \<lparr>re_id = k, re_experiment = ex_id e, winner_variant_key = winner_key w, winner_label = label,
       re_confidence = w_confidence w, re_metric = ex_metric e, profit_impact = profit_impact_of both,
       roi_impact = roi_impact_of both, re_precision = map_option precision conf,
       re_recall = map_option recall conf, re_false_positives = map_option false_positives conf,
       re_false_negatives = map_option false_negatives conf, report_body = body,
       params_snapshot = JObj
         [(''experiment_id'', JStr (id_text P (ex_id e))), (''metric'', JStr (metric_value (ex_metric e))), (''alpha'', JFloat (ex_alpha e)),
          (''seed'', JInt (ex_seed e)), (''control_variant_key'', opt_json JStr (control_variant_key e)),
          (''code_version'', opt_json JStr (code_version e)),
          (''observation_count'', JInt (int (length (snd sv)))),
          (''config_snapshot'', (case config_snapshot e of None \<Rightarrow> JObj [] | Some j \<Rightarrow> j)),
          (''variants'', variants_json vs)],
       re_created = tx_start E\<rparr>)"

definition create_report :: "'i platform \<Rightarrow> ('i \<Rightarrow> 'i report) \<Rightarrow> ('i, 'i report) lab_act" where
  "create_report P mk =
     bindA (draw_uuid P) (\<lambda>k db. (Inr (mk k), db\<lparr>reports := reports db @ [mk k]\<rparr>))"

definition generate_report :: "'i platform \<Rightarrow> 'i transaction \<Rightarrow> 'i \<Rightarrow> ('i, 'i report) lab_act" where
  "generate_report P E i =
     bindA (get_experiment i) (\<lambda>e.
     bindA (readA (load_stats P E e)) (\<lambda>sv.
     bindA (variant_label_for i (winner_key (winner_for P e (fst sv)))) (\<lambda>label.
     bindA (liftR (report_text P e sv)) (\<lambda>body.
     bindA (readA (list_variants E i)) (\<lambda>vs.
     create_report P (report_row P E e sv label body vs))))))"

definition get_report :: "'i transaction \<Rightarrow> 'i \<Rightarrow> ('i, 'i report) lab_act" where
  "get_report E i db =
     (case latest_report E i db of None \<Rightarrow> (Inl ExperimentNotFoundError, db) | Some r \<Rightarrow> (Inr r, db))"

definition stop :: "'i platform \<Rightarrow> 'i transaction \<Rightarrow> 'i \<Rightarrow> ('i, 'i report) lab_act" where
  "stop P E i =
     bindA (get_experiment i) (\<lambda>e.
     if ex_status e \<noteq> RUNNING then failA ExperimentConflictError
     else bindA (read_clock P) (\<lambda>t.
     bindA (save_experiment (e\<lparr>ex_status := STOPPED, stopped_at := Some t\<rparr>)) (\<lambda>_.
     generate_report P E i)))"

section \<open>Requests\<close>

datatype 'i lab_request =
    Create experiment_create
  | AddVariant 'i variant_create
  | Update 'i experiment_update
  | Start 'i
  | Stop 'i
  | Assign 'i string
  | Observe 'i observation_create
  | ObserveMany 'i "observation_create list"
  | MakeReport 'i
  | Delete 'i

definition ignore :: "('i, 'a) lab_act \<Rightarrow> ('i, unit) lab_act" where
  "ignore m = bindA m (\<lambda>_. retA ())"

text \<open>What the schemas refuse never reaches the manager.\<close>

definition validated :: "bool \<Rightarrow> ('i, unit) lab_act \<Rightarrow> ('i, unit) lab_act" where
  "validated ok m = (if ok then m else failA ExperimentValidationError)"

fun handle_lab :: "'i platform \<Rightarrow> 'i transaction \<Rightarrow> 'i lab_request \<Rightarrow> ('i, unit) lab_act" where
  "handle_lab P E (Create r) = validated (valid_create r) (ignore (create_experiment P E r))"
| "handle_lab P E (AddVariant i r) = validated (valid_variant r) (ignore (add_variant P E i r))"
| "handle_lab P E (Update i r) = validated (valid_update r) (ignore (update_experiment E i r))"
| "handle_lab P E (Start i) = ignore (start P E i)"
| "handle_lab P E (Stop i) = ignore (stop P E i)"
| "handle_lab P E (Assign i s) = validated (valid_subject s) (ignore (assign P E i s))"
| "handle_lab P E (Observe i r) = validated (valid_subject (oc_subject r)) (ignore (record_observation P E i r))"
| "handle_lab P E (ObserveMany i rs) =
     validated (rs \<noteq> [] \<and> list_all (\<lambda>r. valid_subject (oc_subject r)) rs) (ignore (record_many P E i rs))"
| "handle_lab P E (MakeReport i) = ignore (generate_report P E i)"
| "handle_lab P E (Delete i) =
     bindA (delete_experiment i) (\<lambda>deleted. if deleted then retA () else failA ExperimentNotFoundError)"

text \<open>
  The session commits when the handler returns and rolls back when it raises. What was drawn
  stays drawn.
\<close>

definition in_transaction :: "('i, 'a) lab_act \<Rightarrow> ('i, 'a) lab_act" where
  "in_transaction m db =
     (case m db of
        (Inr x, db') \<Rightarrow> (Inr x, db')
      | (Inl e, db') \<Rightarrow> (Inl e, db\<lparr>uuids_drawn := uuids_drawn db', clock_reads := clock_reads db'\<rparr>))"

definition serve_lab :: "'i platform \<Rightarrow> 'i transaction \<times> 'i lab_request \<Rightarrow> 'i lab \<Rightarrow> 'i lab" where
  "serve_lab P q db = snd (in_transaction (handle_lab P (fst q) (snd q)) db)"

definition serve_labs :: "'i platform \<Rightarrow> ('i transaction \<times> 'i lab_request) list \<Rightarrow> 'i lab \<Rightarrow> 'i lab" where
  "serve_labs P qs db = fold (serve_lab P) qs db"

definition empty_lab :: "'i lab" where
  "empty_lab = \<lparr>experiments = [], variants = [], assignments = [], observations = [], reports = [],
                uuids_drawn = 0, clock_reads = 0\<rparr>"

end
