(* ===== verification/ExperimentInv.thy ===== *)
theory ExperimentInv
  imports ExperimentReports
begin

text \<open>
  The integrity of the experiment tables: what every request keeps of them. The repository's
  operations are characterised once (\<open>result_simps\<close>), each change of a table has a preservation
  lemma, and the handlers compose them.
\<close>

section \<open>Results of the reading operations\<close>

lemma readA_Inr [result_simps]: "readA f db = (Inr x, db') \<longleftrightarrow> x = f db \<and> db' = db"
  by (auto simp: readA_def)

lemma retA_Inr [result_simps]: "retA y db = (Inr x, db') \<longleftrightarrow> x = y \<and> db' = db"
  by (auto simp: retA_def)

lemma failA_Inr [result_simps]: "failA e db = (Inr x, db') \<longleftrightarrow> False"
  by (simp add: failA_def)

lemma single_Inr [result_simps]:
  "single rows db = (Inr x, db') \<longleftrightarrow>
     db' = db \<and> (rows = [] \<and> x = None \<or> (\<exists>r. rows = [r] \<and> x = Some r))"
  by (auto simp: single_def retA_def failA_def split: list.splits)

lemma get_experiment_Inr [result_simps]:
  "get_experiment i db = (Inr e, db') \<longleftrightarrow> db' = db \<and> find (\<lambda>x. ex_id x = i) (experiments db) = Some e"
  by (auto simp: get_experiment_def split: option.splits)

lemma variant_by_id_Inr [result_simps]:
  "variant_by_id E i v db = (Inr x, db') \<longleftrightarrow> db' = db \<and> find (\<lambda>x. va_id x = v) (list_variants E i db) = Some x"
  by (auto simp: variant_by_id_def split: option.splits)

lemma read_clock_Inr [result_simps]:
  "read_clock P db = (Inr t, db') \<longleftrightarrow> t = wall P (clock_reads db) \<and> db' = db\<lparr>clock_reads := Suc (clock_reads db)\<rparr>"
  by (auto simp: read_clock_def)

lemma draw_uuid_Inr [result_simps]:
  "draw_uuid P db = (Inr k, db') \<longleftrightarrow> k = fresh P (uuids_drawn db) \<and> db' = db\<lparr>uuids_drawn := Suc (uuids_drawn db)\<rparr>"
  by (auto simp: draw_uuid_def)

lemma to_read_Inr [result_simps]: "to_read E e db = (Inr x, db') \<Longrightarrow> db' = db"
  by (simp add: to_read_def)

lemma get_variant_Inr [result_simps]:
  "get_variant i k db = (Inr x, db') \<Longrightarrow> db' = db"
  by (auto simp: get_variant_def result_simps)

lemma variant_label_for_Inr: "variant_label_for i k db = (Inr x, db') \<Longrightarrow> db' = db"
  by (auto simp: variant_label_for_def result_simps get_variant_def split: if_splits)

lemma find_experiment: "find (\<lambda>x. ex_id x = i) xs = Some e \<Longrightarrow> e \<in> set xs \<and> ex_id e = i"
  by (auto simp: find_Some_iff in_set_conv_nth)

section \<open>Integrity\<close>

definition row_ok :: "'i lab_experiment \<Rightarrow> bool" where
  "row_ok e \<longleftrightarrow> 0 < ex_alpha e \<and> ex_alpha e < 1 \<and> 1 \<le> min_sample_size e \<and> 0 \<le> ex_seed e
     \<and> 1 \<le> length (ex_name e) \<and> length (ex_name e) \<le> 255 \<and> ex_status e \<noteq> ARCHIVED
     \<and> (ex_status e \<noteq> DRAFT \<longrightarrow> started_at e \<noteq> None \<and> config_snapshot e \<noteq> None \<and> code_version e \<noteq> None)
     \<and> (ex_status e = STOPPED \<longrightarrow> stopped_at e \<noteq> None)"

definition drawn_ids :: "'i platform \<Rightarrow> nat \<Rightarrow> 'i set" where
  "drawn_ids P n = fresh P ` {..<n}"

definition keys_ok :: "'i lab \<Rightarrow> bool" where
  "keys_ok db \<longleftrightarrow> distinct (map ex_id (experiments db)) \<and> distinct (map va_id (variants db))
     \<and> distinct (map as_id (assignments db)) \<and> distinct (map ob_id (observations db))
     \<and> distinct (map re_id (reports db))
     \<and> distinct (map (\<lambda>a. (as_experiment a, as_subject a)) (assignments db))
     \<and> distinct (map (\<lambda>x. (ob_experiment x, ob_subject x)) (observations db))"

definition drawn_ok :: "'i platform \<Rightarrow> 'i lab \<Rightarrow> bool" where
  "drawn_ok P db \<longleftrightarrow> ex_id ` set (experiments db) \<union> va_id ` set (variants db) \<union> as_id ` set (assignments db)
     \<union> ob_id ` set (observations db) \<union> re_id ` set (reports db) \<subseteq> drawn_ids P (uuids_drawn db)"

definition refs_ok :: "'i lab \<Rightarrow> bool" where
  "refs_ok db \<longleftrightarrow> va_experiment ` set (variants db) \<subseteq> ex_id ` set (experiments db)
     \<and> (\<lambda>a. (as_experiment a, as_variant a)) ` set (assignments db)
         \<subseteq> (\<lambda>v. (va_experiment v, va_id v)) ` set (variants db)
     \<and> (\<lambda>x. (ob_experiment x, ob_subject x, ob_variant x)) ` set (observations db)
         \<subseteq> (\<lambda>a. (as_experiment a, as_subject a, as_variant a)) ` set (assignments db)
     \<and> re_experiment ` set (reports db) \<subseteq> ex_id ` set (experiments db)"

text \<open>
  Keys are unique and were drawn; every variant and report belongs to an experiment, every
  assignment to a variant of its experiment, every observation to the assignment of its subject; a subject has
  one assignment and one observation per experiment; the experiments are as the schemas allow.
\<close>

definition lab_typed :: "'i platform \<Rightarrow> 'i lab \<Rightarrow> bool" where
  "lab_typed P db \<longleftrightarrow> keys_ok db \<and> drawn_ok P db \<and> refs_ok db \<and> (\<forall>e \<in> set (experiments db). row_ok e)"

lemma drawn_ids_mono: "m \<le> n \<Longrightarrow> drawn_ids P m \<subseteq> drawn_ids P n"
  by (auto simp: drawn_ids_def)

lemma drawn_ids_Suc: "drawn_ids P (Suc n) = insert (fresh P n) (drawn_ids P n)"
  by (auto simp: drawn_ids_def less_Suc_eq)

lemma drawn_ids_fresh: "inj (fresh P) \<Longrightarrow> fresh P n \<notin> drawn_ids P n"
  by (auto simp: drawn_ids_def inj_eq)

lemma typed_counters:
  assumes "lab_typed P db" and "uuids_drawn db \<le> n"
  shows "lab_typed P (db\<lparr>uuids_drawn := n, clock_reads := k\<rparr>)"
proof -
  have "drawn_ok P (db\<lparr>uuids_drawn := n, clock_reads := k\<rparr>)"
    using assms(1) drawn_ids_mono [OF assms(2), of P] unfolding lab_typed_def drawn_ok_def by auto
  then show ?thesis using assms(1) by (simp add: lab_typed_def keys_ok_def refs_ok_def)
qed

lemma typed_clock: "lab_typed P (db\<lparr>clock_reads := n\<rparr>) = lab_typed P db"
  by (simp add: lab_typed_def keys_ok_def refs_ok_def drawn_ok_def)

text \<open>A freshly drawn id is nobody's.\<close>

lemma fresh_unused:
  assumes "inj (fresh P)" and "lab_typed P db"
  shows "fresh P (uuids_drawn db) \<notin> ex_id ` set (experiments db)"
    and "fresh P (uuids_drawn db) \<notin> va_id ` set (variants db)"
    and "fresh P (uuids_drawn db) \<notin> ob_id ` set (observations db)"
    and "fresh P (uuids_drawn db) \<notin> as_id ` set (assignments db)"
    and "fresh P (uuids_drawn db) \<notin> re_id ` set (reports db)"
  using drawn_ids_fresh [OF assms(1), of "uuids_drawn db"] assms(2)
  unfolding lab_typed_def drawn_ok_def by blast+

lemma typed_draw:
  assumes "lab_typed P db"
  shows "lab_typed P (db\<lparr>uuids_drawn := Suc (uuids_drawn db)\<rparr>)"
  using typed_counters [OF assms, of "Suc (uuids_drawn db)" "clock_reads db"] by simp

lemma typed_add_experiment:
  assumes u: "inj (fresh P)" and db: "lab_typed P db" and e: "ex_id e = fresh P (uuids_drawn db)" "row_ok e"
  shows "lab_typed P (db\<lparr>uuids_drawn := Suc (uuids_drawn db), experiments := experiments db @ [e]\<rparr>)"
  using db fresh_unused(1) [OF u db] e
  unfolding lab_typed_def keys_ok_def refs_ok_def drawn_ok_def
  by (auto simp: drawn_ids_Suc)

lemma typed_save_experiment:
  assumes db: "lab_typed P db" and e: "row_ok e"
  shows "lab_typed P (db\<lparr>experiments := map (\<lambda>x. if ex_id x = ex_id e then e else x) (experiments db)\<rparr>)"
proof -
  define es where "es = map (\<lambda>x. if ex_id x = ex_id e then e else x) (experiments db)"
  have ids: "map ex_id es = map ex_id (experiments db)" by (simp add: es_def)
  have "ex_id ` set es = ex_id ` set (experiments db)"
    using arg_cong [OF ids, of set] by simp
  moreover have "\<forall>x \<in> set es. row_ok x" using db e by (auto simp: es_def lab_typed_def)
  ultimately show ?thesis
    using db ids unfolding lab_typed_def keys_ok_def refs_ok_def drawn_ok_def es_def [symmetric] by simp
qed

lemma typed_add_variant:
  assumes u: "inj (fresh P)" and db: "lab_typed P db"
    and v: "va_id v = fresh P (uuids_drawn db)" "va_experiment v \<in> ex_id ` set (experiments db)"
  shows "lab_typed P (db\<lparr>uuids_drawn := Suc (uuids_drawn db), variants := variants db @ [v]\<rparr>)"
  using db fresh_unused(2) [OF u db] v
  unfolding lab_typed_def keys_ok_def refs_ok_def drawn_ok_def
  by (auto simp: drawn_ids_Suc)

lemma typed_add_assignment:
  assumes u: "inj (fresh P)" and db: "lab_typed P db"
    and a: "as_id a = fresh P (uuids_drawn db)"
      "(as_experiment a, as_variant a) \<in> (\<lambda>v. (va_experiment v, va_id v)) ` set (variants db)"
      "(as_experiment a, as_subject a) \<notin> (\<lambda>a. (as_experiment a, as_subject a)) ` set (assignments db)"
  shows "lab_typed P (db\<lparr>uuids_drawn := Suc (uuids_drawn db), assignments := assignments db @ [a]\<rparr>)"
  using db fresh_unused(4) [OF u db] a
  unfolding lab_typed_def keys_ok_def refs_ok_def drawn_ok_def
  by (auto simp: drawn_ids_Suc)

lemma typed_add_report:
  assumes u: "inj (fresh P)" and db: "lab_typed P db"
    and x: "re_id x = fresh P (uuids_drawn db)" "re_experiment x \<in> ex_id ` set (experiments db)"
  shows "lab_typed P (db\<lparr>uuids_drawn := Suc (uuids_drawn db), reports := reports db @ [x]\<rparr>)"
  using db fresh_unused(5) [OF u db] x
  unfolding lab_typed_def keys_ok_def refs_ok_def drawn_ok_def
  by (auto simp: drawn_ids_Suc)

lemma typed_add_observation:
  assumes u: "inj (fresh P)" and db: "lab_typed P db"
    and x: "ob_id x = fresh P (uuids_drawn db)"
      "(ob_experiment x, ob_subject x, ob_variant x)
         \<in> (\<lambda>a. (as_experiment a, as_subject a, as_variant a)) ` set (assignments db)"
      "(ob_experiment x, ob_subject x) \<notin> (\<lambda>x. (ob_experiment x, ob_subject x)) ` set (observations db)"
  shows "lab_typed P (db\<lparr>uuids_drawn := Suc (uuids_drawn db), observations := observations db @ [x]\<rparr>)"
  using db fresh_unused(3) [OF u db] x
  unfolding lab_typed_def keys_ok_def refs_ok_def drawn_ok_def
  by (auto simp: drawn_ids_Suc)

lemma typed_update_observation:
  assumes db: "lab_typed P db" and y: "y \<in> set (observations db)"
    and x: "ob_id x = ob_id y" "ob_experiment x = ob_experiment y" "ob_subject x = ob_subject y" "ob_variant x = ob_variant y"
  shows "lab_typed P (db\<lparr>observations := map (\<lambda>z. if ob_id z = ob_id x then x else z) (observations db)\<rparr>)"
proof -
  define os where "os = map (\<lambda>z. if ob_id z = ob_id x then x else z) (observations db)"
  have "inj_on ob_id (set (observations db))"
    using db by (simp add: lab_typed_def keys_ok_def distinct_map)
  then have same: "z = y" if "z \<in> set (observations db)" "ob_id z = ob_id y" for z
    using that y by (simp add: inj_on_eq_iff)
  have 1: "map ob_id os = map ob_id (observations db)" by (simp add: os_def)
  have 2: "map (\<lambda>x. (ob_experiment x, ob_subject x)) os = map (\<lambda>x. (ob_experiment x, ob_subject x)) (observations db)"
    using same x by (auto simp: os_def)
  have 3: "map (\<lambda>x. (ob_experiment x, ob_subject x, ob_variant x)) os
      = map (\<lambda>x. (ob_experiment x, ob_subject x, ob_variant x)) (observations db)"
    using same x by (auto simp: os_def)
  have "ob_id ` set os = ob_id ` set (observations db)"
    using arg_cong [OF 1, of set] by simp
  moreover have "(\<lambda>x. (ob_experiment x, ob_subject x, ob_variant x)) ` set os
      = (\<lambda>x. (ob_experiment x, ob_subject x, ob_variant x)) ` set (observations db)"
    using arg_cong [OF 3, of set] by simp
  ultimately show ?thesis
    using db 1 2 unfolding lab_typed_def keys_ok_def refs_ok_def drawn_ok_def os_def [symmetric] by simp
qed

definition without :: "'i \<Rightarrow> 'i lab \<Rightarrow> 'i lab" where
  "without i db = db\<lparr>experiments := filter (\<lambda>x. ex_id x \<noteq> i) (experiments db),
             variants := filter (\<lambda>x. va_experiment x \<noteq> i) (variants db),
             assignments := filter (\<lambda>x. as_experiment x \<noteq> i) (assignments db),
             observations := filter (\<lambda>x. ob_experiment x \<noteq> i) (observations db),
             reports := filter (\<lambda>x. re_experiment x \<noteq> i) (reports db)\<rparr>"

lemma image_filter_subset:
  assumes "f ` set xs \<subseteq> g ` set ys" and "\<And>x. p x = r (f x)" and "\<And>y. q y = r (g y)"
  shows "f ` set (filter p xs) \<subseteq> g ` set (filter q ys)"
proof
  fix z assume "z \<in> f ` set (filter p xs)"
  then obtain x where x: "x \<in> set xs" "p x" "z = f x" by auto
  then obtain y where "y \<in> set ys" "f x = g y" using assms(1) by blast
  with x assms(2,3) show "z \<in> g ` set (filter q ys)" by force
qed

lemma typed_delete:
  assumes db: "lab_typed P db"
  shows "lab_typed P (without i db)"
proof -
  have "refs_ok db" using db by (simp add: lab_typed_def)
  note refs = this [unfolded refs_ok_def]
  note r = refs [THEN conjunct1] refs [THEN conjunct2, THEN conjunct1]
    refs [THEN conjunct2, THEN conjunct2, THEN conjunct1] refs [THEN conjunct2, THEN conjunct2, THEN conjunct2]
  have "va_experiment ` set (variants (without i db)) \<subseteq> ex_id ` set (experiments (without i db))"
    unfolding without_def
    by (simp del: set_filter) (rule image_filter_subset [where r = "\<lambda>k. k \<noteq> i"]; (rule r | simp))
  moreover have "(\<lambda>a. (as_experiment a, as_variant a)) ` set (assignments (without i db))
      \<subseteq> (\<lambda>v. (va_experiment v, va_id v)) ` set (variants (without i db))"
    unfolding without_def
    by (simp del: set_filter) (rule image_filter_subset [where r = "\<lambda>k. fst k \<noteq> i"]; (rule r | simp))
  moreover have "(\<lambda>x. (ob_experiment x, ob_subject x, ob_variant x)) ` set (observations (without i db))
      \<subseteq> (\<lambda>a. (as_experiment a, as_subject a, as_variant a)) ` set (assignments (without i db))"
    unfolding without_def
    by (simp del: set_filter) (rule image_filter_subset [where r = "\<lambda>k. fst k \<noteq> i"]; (rule r | simp))
  moreover have "re_experiment ` set (reports (without i db)) \<subseteq> ex_id ` set (experiments (without i db))"
    unfolding without_def
    by (simp del: set_filter) (rule image_filter_subset [where r = "\<lambda>k. k \<noteq> i"]; (rule r | simp))
  ultimately have "refs_ok (without i db)" by (simp add: refs_ok_def)
  moreover have "keys_ok (without i db)"
    using db unfolding lab_typed_def keys_ok_def without_def by (simp add: distinct_map_filter)
  moreover have "drawn_ok P (without i db)"
    using db unfolding lab_typed_def drawn_ok_def without_def by (simp add: image_subset_iff)
  moreover have "\<forall>e \<in> set (experiments (without i db)). row_ok e"
    using db unfolding lab_typed_def without_def by auto
  ultimately show ?thesis by (simp add: lab_typed_def)
qed

section \<open>What a request may change\<close>

fun lab_rank :: "experiment_status \<Rightarrow> nat" where
  "lab_rank DRAFT = 0"
| "lab_rank RUNNING = 1"
| "lab_rank STOPPED = 2"
| "lab_rank ARCHIVED = 3"

text \<open>A row and its later version: only drafts are edited, and the status never goes back.\<close>

definition later_row :: "'i lab_experiment \<Rightarrow> 'i lab_experiment \<Rightarrow> bool" where
  "later_row e e' \<longleftrightarrow> ex_id e' = ex_id e \<and> ex_type e' = ex_type e \<and> ex_metric e' = ex_metric e
     \<and> ex_alpha e' = ex_alpha e \<and> min_sample_size e' = min_sample_size e \<and> ex_seed e' = ex_seed e
     \<and> ex_created e' = ex_created e \<and> lab_rank (ex_status e) \<le> lab_rank (ex_status e')
     \<and> (ex_status e \<noteq> DRAFT \<longrightarrow> ex_name e' = ex_name e \<and> ex_description e' = ex_description e
          \<and> hypothesis e' = hypothesis e \<and> control_variant_key e' = control_variant_key e)"

definition variants_of :: "'i \<Rightarrow> 'i lab \<Rightarrow> 'i variant list" where
  "variants_of i db = filter (\<lambda>v. va_experiment v = i) (variants db)"

definition ob_key :: "'i observation \<Rightarrow> 'i \<times> 'i \<times> string \<times> 'i" where
  "ob_key x = (ob_id x, ob_experiment x, ob_subject x, ob_variant x)"

definition evolves :: "'i lab \<Rightarrow> 'i lab \<Rightarrow> bool" where
  "evolves db db' \<longleftrightarrow>
     (\<forall>e \<in> set (experiments db). \<exists>e' \<in> set (experiments db'). later_row e e'
        \<and> (ex_status e \<noteq> DRAFT \<longrightarrow> variants_of (ex_id e) db' = variants_of (ex_id e) db))
     \<and> set (variants db) \<subseteq> set (variants db') \<and> set (assignments db) \<subseteq> set (assignments db')
     \<and> ob_key ` set (observations db) \<subseteq> ob_key ` set (observations db')"

lemma later_row_refl [simp]: "later_row e e"
  by (simp add: later_row_def)

lemma later_mem: "e \<in> S \<Longrightarrow> \<exists>x \<in> S. later_row e x"
  by (rule bexI [of _ e]) simp_all

lemma rank_DRAFT: "lab_rank s = 0 \<longleftrightarrow> s = DRAFT"
  by (cases s) simp_all

lemma later_row_started: "later_row e e' \<Longrightarrow> ex_status e \<noteq> DRAFT \<Longrightarrow> ex_status e' \<noteq> DRAFT"
  using rank_DRAFT [of "ex_status e"] rank_DRAFT [of "ex_status e'"] by (auto simp: later_row_def)

lemma later_row_trans: "later_row e e' \<Longrightarrow> later_row e' e'' \<Longrightarrow> later_row e e''"
  using later_row_started [of e e'] by (auto simp: later_row_def)

lemma evolves_refl [simp]: "evolves db db"
  by (auto simp: evolves_def intro: later_mem)

lemma evolves_trans:
  assumes 1: "evolves db db'" and 2: "evolves db' db''"
  shows "evolves db db''"
proof -
  have "\<exists>e'' \<in> set (experiments db''). later_row e e''
      \<and> (ex_status e \<noteq> DRAFT \<longrightarrow> variants_of (ex_id e) db'' = variants_of (ex_id e) db)"
    if e: "e \<in> set (experiments db)" for e
  proof -
    obtain e' where e': "e' \<in> set (experiments db')" "later_row e e'"
        "ex_status e \<noteq> DRAFT \<longrightarrow> variants_of (ex_id e) db' = variants_of (ex_id e) db"
      using 1 e unfolding evolves_def by blast
    obtain e'' where e'': "e'' \<in> set (experiments db'')" "later_row e' e''"
        "ex_status e' \<noteq> DRAFT \<longrightarrow> variants_of (ex_id e') db'' = variants_of (ex_id e') db'"
      using 2 e'(1) unfolding evolves_def by blast
    have "ex_id e' = ex_id e" using e'(2) by (simp add: later_row_def)
    with e' e'' later_row_trans [OF e'(2) e''(2)] later_row_started [OF e'(2)]
    show ?thesis by auto
  qed
  moreover have "set (variants db) \<subseteq> set (variants db'')" "set (assignments db) \<subseteq> set (assignments db'')"
    "ob_key ` set (observations db) \<subseteq> ob_key ` set (observations db'')"
    using 1 2 unfolding evolves_def by (meson order_trans)+
  ultimately show ?thesis unfolding evolves_def by blast
qed

lemma evolves_other:
  "experiments db' = experiments db \<Longrightarrow> variants db' = variants db
    \<Longrightarrow> set (assignments db) \<subseteq> set (assignments db')
    \<Longrightarrow> ob_key ` set (observations db) \<subseteq> ob_key ` set (observations db') \<Longrightarrow> evolves db db'"
  by (auto simp: evolves_def variants_of_def intro: later_mem)

lemma evolves_add_experiment: "evolves db (db\<lparr>uuids_drawn := n, experiments := experiments db @ [e]\<rparr>)"
  by (auto simp: evolves_def variants_of_def intro: later_mem)

lemma evolves_add_variant:
  assumes "\<And>e. e \<in> set (experiments db) \<Longrightarrow> ex_id e = va_experiment v \<Longrightarrow> ex_status e = DRAFT"
  shows "evolves db (db\<lparr>uuids_drawn := n, variants := variants db @ [v]\<rparr>)"
proof -
  have "\<exists>e' \<in> set (experiments db). later_row e e' \<and> (ex_status e \<noteq> DRAFT \<longrightarrow>
      filter (\<lambda>x. va_experiment x = ex_id e) (variants db @ [v]) = filter (\<lambda>x. va_experiment x = ex_id e) (variants db))"
    if "e \<in> set (experiments db)" for e
    using that assms [OF that] by (intro bexI [of _ e]) auto
  then show ?thesis by (simp add: evolves_def variants_of_def) blast
qed

lemma evolves_save:
  assumes k: "keys_ok db" and e: "e \<in> set (experiments db)" "later_row e e'"
  shows "evolves db (db\<lparr>clock_reads := n, experiments := map (\<lambda>x. if ex_id x = ex_id e' then e' else x) (experiments db)\<rparr>)"
proof -
  have inj: "inj_on ex_id (set (experiments db))" using k by (simp add: keys_ok_def distinct_map)
  have id: "ex_id e' = ex_id e" using e(2) by (simp add: later_row_def)
  have "\<exists>y \<in> set (map (\<lambda>x. if ex_id x = ex_id e' then e' else x) (experiments db)). later_row x y"
    if x: "x \<in> set (experiments db)" for x
  proof (cases "ex_id x = ex_id e'")
    case True
    then have "x = e" using inj x e(1) id by (simp add: inj_on_eq_iff)
    with e x True show ?thesis by force
  next
    case False
    with x show ?thesis by force
  qed
  then show ?thesis unfolding evolves_def by (simp add: variants_of_def)
qed

section \<open>Draws are never taken back\<close>

named_theorems draws

definition draws_up :: "('i, 'a) lab_act \<Rightarrow> bool" where
  "draws_up m \<longleftrightarrow> (\<forall>db. uuids_drawn db \<le> uuids_drawn (snd (m db)))"

lemma draws_bind [draws]:
  assumes "draws_up m" and "\<And>x. draws_up (f x)"
  shows "draws_up (bindA m f)"
  unfolding draws_up_def
proof
  fix db
  obtain r db' where m: "m db = (r, db')" by (cases "m db")
  have 1: "uuids_drawn db \<le> uuids_drawn db'"
    using assms(1) m unfolding draws_up_def by (metis snd_conv)
  show "uuids_drawn db \<le> uuids_drawn (snd (bindA m f db))"
  proof (cases r)
    case (Inl e)
    with m 1 show ?thesis by simp
  next
    case (Inr x)
    have "uuids_drawn db' \<le> uuids_drawn (snd (f x db'))" using assms(2) by (simp add: draws_up_def)
    with m 1 Inr show ?thesis by simp
  qed
qed

lemma draws_basic [draws]:
  "draws_up (retA x)" "draws_up (failA e)" "draws_up (readA g)" "draws_up (single rows)"
  "draws_up (draw_uuid P)" "draws_up (read_clock P)" "draws_up (save_experiment row)"
  "draws_up (add_experiment row)" "draws_up (get_experiment i)" "draws_up (variant_by_id E i v)"
  "draws_up (update_observation ob)" "draws_up (delete_experiment i)" "draws_up (to_read E row)"
  "draws_up (get_variant i k)" "draws_up (get_assignment i k)" "draws_up (get_observation i k)" "draws_up (liftR x')"
  by (auto simp: draws_up_def single_def draw_uuid_def read_clock_def save_experiment_def add_experiment_def
      get_experiment_def variant_by_id_def update_observation_def delete_experiment_def to_read_def
      get_variant_def get_assignment_def get_observation_def liftR_def
      split: list.splits option.splits sum.splits)

lemma draws_if [draws]: "draws_up m \<Longrightarrow> draws_up m' \<Longrightarrow> draws_up (if b then m else m')"
  by simp

lemma draws_option [draws]: "draws_up m \<Longrightarrow> (\<And>x. draws_up (f x)) \<Longrightarrow> draws_up (case opt of None \<Rightarrow> m | Some x \<Rightarrow> f x)"
  by (cases opt) simp_all

lemma draws_prod [draws]: "(\<And>x y. draws_up (f x y)) \<Longrightarrow> draws_up (case p of (x, y) \<Rightarrow> f x y)"
  by (cases p) simp

lemma draws_add [draws]:
  "draws_up (\<lambda>db. (r db, db\<lparr>variants := v db\<rparr>))" "draws_up (\<lambda>db. (r' db, db\<lparr>reports := w db\<rparr>))"
  "draws_up (\<lambda>db. if b db then (r1 db, db) else (r2 db, db\<lparr>assignments := a db\<rparr>))"
  "draws_up (\<lambda>db. if b db then (r1 db, db) else (r3 db, db\<lparr>observations := ob db\<rparr>))"
  by (simp_all add: draws_up_def)

lemma draws_create_variant [draws]: "draws_up (create_variant P E i k l ps c)"
  unfolding create_variant_def Let_def by (intro draws)

lemma draws_create_assignment [draws]: "draws_up (create_assignment P i v s)"
  unfolding create_assignment_def Let_def by (intro draws)

lemma draws_create_observation [draws]: "draws_up (create_observation P mk)"
  unfolding create_observation_def Let_def by (intro draws)

lemma draws_create_variants [draws]: "draws_up (create_variants P E vs e)"
  by (induction vs arbitrary: e) (auto intro!: draws)

lemma draws_label [draws]: "draws_up (variant_label_for i k)"
  unfolding variant_label_for_def by (intro draws)

lemma draws_assign [draws]: "draws_up (assign P E i s)"
  unfolding assign_def Let_def by (intro draws)

lemma draws_record [draws]: "draws_up (record_observation P E i r)"
  unfolding record_observation_def assigned_def put_observation_def by (intro draws)

lemma draws_record_loop [draws]: "draws_up (record_loop P E i rs seen)"
  by (induction rs arbitrary: seen) (auto intro!: draws)

lemma draws_report [draws]: "draws_up (generate_report P E i)"
  unfolding generate_report_def create_report_def by (intro draws)

lemma draws_ensure_control [draws]: "draws_up (ensure_control P E e)"
  unfolding ensure_control_def by (intro draws)

lemma draws_handle: "draws_up (handle_lab P E q)"
  by (cases q) (auto intro!: draws simp: validated_def ignore_def create_experiment_def add_variant_def
      update_experiment_def start_def stop_def record_many_def)

end
