(* ===== verification/ExperimentSteps.thy ===== *)
theory ExperimentSteps
  imports ExperimentInv
begin

text \<open>
  Every request that returns keeps the tables typed and only evolves them (deletion, which only
  keeps them typed, apart); the effect of assigning and of recording.
\<close>

definition safe_step :: "'i platform \<Rightarrow> 'i lab \<Rightarrow> 'i lab \<Rightarrow> bool" where
  "safe_step P db db' \<longleftrightarrow> lab_typed P db' \<and> evolves db db'"

lemma safe_refl: "lab_typed P db \<Longrightarrow> safe_step P db db"
  by (simp add: safe_step_def)

lemma safe_trans: "safe_step P db db' \<Longrightarrow> safe_step P db' db'' \<Longrightarrow> safe_step P db db''"
  using evolves_trans by (auto simp: safe_step_def)

lemma safe_draw:
  assumes "lab_typed P db"
  shows "safe_step P db (db\<lparr>uuids_drawn := Suc (uuids_drawn db)\<rparr>)"
  using typed_draw [OF assms] by (simp add: safe_step_def evolves_other)

lemma safe_clock:
  assumes "lab_typed P db"
  shows "safe_step P db (db\<lparr>clock_reads := n\<rparr>)"
  using assms by (simp add: safe_step_def evolves_other typed_clock)

lemma typed_unique:
  assumes "lab_typed P db" and "e \<in> set (experiments db)" and "e' \<in> set (experiments db)" and "ex_id e' = ex_id e"
  shows "e' = e"
  using assms by (auto simp: lab_typed_def keys_ok_def distinct_map inj_on_eq_iff)

section \<open>Saving a row\<close>

lemma safe_save:
  assumes db: "lab_typed P db" and e: "e \<in> set (experiments db)" "later_row e e'" "row_ok e'"
    and s: "save_experiment e' db = (Inr x, db')"
  shows "safe_step P db db' \<and> x = e' \<and> e' \<in> set (experiments db')"
proof -
  have db': "db' = db\<lparr>experiments := map (\<lambda>x. if ex_id x = ex_id e' then e' else x) (experiments db)\<rparr>" and x: "x = e'"
    using s by (auto simp: save_experiment_def)
  have "lab_typed P db'" unfolding db' by (rule typed_save_experiment [OF db e(3)])
  moreover have "evolves db db'"
    using evolves_save [of db e e' "clock_reads db"] db e unfolding db' by (simp add: lab_typed_def)
  moreover have "ex_id e' = ex_id e" using e(2) by (simp add: later_row_def)
  then have "e' \<in> set (experiments db')" using e(1) unfolding db' by force
  ultimately show ?thesis using x by (simp add: safe_step_def)
qed

lemma create_variant_Inr:
  assumes u: "inj (fresh P)" and db: "lab_typed P db"
    and e: "e \<in> set (experiments db)" "ex_id e = i" "ex_status e = DRAFT"
    and c: "create_variant P E i k l ps b db = (Inr v, db')"
  shows "safe_step P db db' \<and> experiments db' = experiments db \<and> va_key v = k \<and> v \<in> set (variants db')"
proof -
  let ?v = "\<lparr>va_id = fresh P (uuids_drawn db), va_experiment = i, va_key = k, va_label = l, va_parameters = ps,
             is_control = b, va_created = tx_start E\<rparr>"
  have db': "db' = db\<lparr>uuids_drawn := Suc (uuids_drawn db), variants := variants db @ [?v]\<rparr>" and v: "v = ?v"
    using c by (auto simp: create_variant_def Let_def result_simps)
  have "lab_typed P db'" unfolding db' by (rule typed_add_variant [OF u db]) (use e in auto)
  moreover have "evolves db db'"
    unfolding db' using typed_unique [OF db e(1)] e by (intro evolves_add_variant) auto
  ultimately show ?thesis using v db' by (simp add: safe_step_def)
qed

section \<open>Life cycle\<close>

lemma create_variants_Inr:
  assumes u: "inj (fresh P)"
  shows "lab_typed P db \<Longrightarrow> e \<in> set (experiments db) \<Longrightarrow> ex_status e = DRAFT
    \<Longrightarrow> create_variants P E vs e db = (Inr e', db')
    \<Longrightarrow> safe_step P db db' \<and> e' \<in> set (experiments db') \<and> ex_status e' = DRAFT \<and> ex_id e' = ex_id e"
proof (induction vs arbitrary: e db)
  case Nil
  then show ?case by (auto simp: result_simps safe_refl)
next
  case (Cons v vs)
  from Cons.prems(4) obtain x db1 e2 db2 where
    1: "create_variant P E (ex_id e) (vc_key v) (vc_label v) (vc_parameters v) (vc_is_control v) db = (Inr x, db1)" and
    2: "(if vc_is_control v \<and> falsy (control_variant_key e)
         then save_experiment (e\<lparr>control_variant_key := Some (vc_key v)\<rparr>) else retA e) db1 = (Inr e2, db2)" and
    3: "create_variants P E vs e2 db2 = (Inr e', db')"
    by (auto simp: result_simps)
  have s1: "safe_step P db db1" "experiments db1 = experiments db"
    using create_variant_Inr [OF u Cons.prems(1,2) refl Cons.prems(3) 1] by simp_all
  then have t1: "lab_typed P db1" and e1: "e \<in> set (experiments db1)"
    using Cons.prems(2) by (simp_all add: safe_step_def)
  have ok: "row_ok e" using Cons.prems(1,2) by (simp add: lab_typed_def)
  have s2: "safe_step P db1 db2 \<and> e2 \<in> set (experiments db2) \<and> ex_status e2 = DRAFT \<and> ex_id e2 = ex_id e"
  proof (cases "vc_is_control v \<and> falsy (control_variant_key e)")
    case True
    let ?e = "e\<lparr>control_variant_key := Some (vc_key v)\<rparr>"
    have "safe_step P db1 db2 \<and> e2 = ?e \<and> ?e \<in> set (experiments db2)"
      by (rule safe_save [OF t1 e1]) (use True 2 ok Cons.prems(3) in \<open>simp_all add: later_row_def row_ok_def\<close>)
    then show ?thesis using Cons.prems(3) by auto
  next
    case False
    with 2 have "e2 = e \<and> db2 = db1" by (simp add: retA_Inr)
    with False t1 e1 Cons.prems(3) show ?thesis by (simp add: safe_refl)
  qed
  then have t2: "lab_typed P db2" by (simp add: safe_step_def)
  from Cons.IH [OF t2 _ _ 3] s2 s1(1) show ?case using safe_trans by metis
qed

lemma ensure_control_Inr:
  assumes u: "inj (fresh P)" and db: "lab_typed P db"
    and e: "e \<in> set (experiments db)" "ex_status e = DRAFT"
    and c: "ensure_control P E e db = (Inr y, db')"
  shows "safe_step P db db'"
proof (cases "db' = db")
  case False
  with c obtain v where "create_variant P E (ex_id e) (the (control_variant_key e)) ''Control'' [] True db = (Inr v, db')"
    by (auto simp: ensure_control_def result_simps get_variant_def split: if_splits)
  from create_variant_Inr [OF u db e(1) refl e(2) this] show ?thesis by simp
qed (simp add: db safe_refl)

lemma create_experiment_Inr:
  assumes u: "inj (fresh P)" and db: "lab_typed P db" and ok: "valid_create r"
    and c: "create_experiment P E r db = (Inr x, db')"
  shows "safe_step P db db'"
proof -
  let ?e = "draft_row (fresh P (uuids_drawn db)) r (tx_start E)"
  let ?db1 = "db\<lparr>uuids_drawn := Suc (uuids_drawn db), experiments := experiments db @ [?e]\<rparr>"
  from c obtain e db2 y where
    1: "create_variants P E (control_first (cr_variants r)) ?e ?db1 = (Inr e, db2)" and
    2: "ensure_control P E e db2 = (Inr y, db')"
    unfolding create_experiment_def
    by (auto simp: result_simps add_experiment_def to_read_def split: if_splits)
  have e: "row_ok ?e" "ex_id ?e = fresh P (uuids_drawn db)" "ex_status ?e = DRAFT"
    using ok by (auto simp: row_ok_def valid_create_def draft_row_def)
  have t1: "lab_typed P ?db1" by (rule typed_add_experiment [OF u db e(2,1)])
  then have s1: "safe_step P db ?db1"
    using evolves_add_experiment by (auto simp: safe_step_def)
  have s2: "safe_step P ?db1 db2 \<and> e \<in> set (experiments db2) \<and> ex_status e = DRAFT \<and> ex_id e = ex_id ?e"
    by (rule create_variants_Inr [OF u t1 _ e(3) 1]) simp
  then have "safe_step P db2 db'"
    using ensure_control_Inr [OF u _ _ _ 2] by (simp add: safe_step_def)
  with s1 s2 safe_trans show ?thesis by metis
qed

lemma get_experiment_mem:
  "find (\<lambda>x. ex_id x = i) (experiments db) = Some e \<Longrightarrow> lab_typed P db
    \<Longrightarrow> e \<in> set (experiments db) \<and> ex_id e = i \<and> row_ok e"
  using find_experiment [of i "experiments db" e] by (simp add: lab_typed_def)

lemma add_variant_Inr:
  assumes u: "inj (fresh P)" and db: "lab_typed P db" and c: "add_variant P E i r db = (Inr x, db')"
  shows "safe_step P db db'"
proof -
  from c obtain e old db1 v db2 y where
    e: "find (\<lambda>x. ex_id x = i) (experiments db) = Some e" "ex_status e = DRAFT" and
    1: "get_variant i (vc_key r) db = (Inr old, db1)" and
    2: "create_variant P E i (vc_key r) (vc_label r) (vc_parameters r) (vc_is_control r) db1 = (Inr v, db2)" and
    3: "(if vc_is_control r then save_experiment (e\<lparr>control_variant_key := Some (vc_key r)\<rparr>) else retA e) db2 = (Inr y, db')"
    unfolding add_variant_def by (auto simp: result_simps split: if_splits)
  have db1: "db1 = db" using get_variant_Inr [OF 1] .
  note m = get_experiment_mem [OF e(1) db]
  have s1: "safe_step P db db2" "experiments db2 = experiments db"
    using create_variant_Inr [OF u db _ _ e(2) 2 [unfolded db1]] m by simp_all
  then have t2: "lab_typed P db2" "e \<in> set (experiments db2)" using m by (simp_all add: safe_step_def)
  have "safe_step P db2 db'"
  proof (cases "vc_is_control r")
    case True
    have "safe_step P db2 db' \<and> y = e\<lparr>control_variant_key := Some (vc_key r)\<rparr>
        \<and> e\<lparr>control_variant_key := Some (vc_key r)\<rparr> \<in> set (experiments db')"
      by (rule safe_save [OF t2]) (use True 3 m e(2) in \<open>simp_all add: later_row_def row_ok_def\<close>)
    then show ?thesis by simp
  next
    case False
    with 3 t2(1) show ?thesis by (simp add: retA_Inr safe_refl)
  qed
  with s1(1) show ?thesis by (rule safe_trans)
qed

lemma update_experiment_Inr:
  assumes db: "lab_typed P db" and ok: "valid_update r" and c: "update_experiment E i r db = (Inr x, db')"
  shows "safe_step P db db'"
proof -
  from c obtain e y where
    e: "find (\<lambda>x. ex_id x = i) (experiments db) = Some e" "ex_status e = DRAFT" and
    1: "save_experiment
       (e\<lparr>ex_name := (case up_name r of None \<Rightarrow> ex_name e | Some n \<Rightarrow> n),
          ex_description := given (up_description r) (ex_description e),
          hypothesis := given (up_hypothesis r) (hypothesis e),
          control_variant_key := given (up_control r) (control_variant_key e)\<rparr>) db = (Inr y, db')"
    unfolding update_experiment_def by (auto simp: result_simps to_read_def split: if_splits)
  note m = get_experiment_mem [OF e(1) db]
  let ?e = "e\<lparr>ex_name := (case up_name r of None \<Rightarrow> ex_name e | Some n \<Rightarrow> n),
          ex_description := given (up_description r) (ex_description e),
          hypothesis := given (up_hypothesis r) (hypothesis e),
          control_variant_key := given (up_control r) (control_variant_key e)\<rparr>"
  have "row_ok ?e" using m ok by (cases "up_name r") (simp_all add: row_ok_def valid_update_def)
  moreover have "later_row e ?e" using e(2) by (simp add: later_row_def)
  ultimately show ?thesis using safe_save [OF db _ _ _ 1, of e] m by blast
qed

lemma start_Inr:
  assumes db: "lab_typed P db" and c: "start P E i db = (Inr x, db')"
  shows "safe_step P db db'"
proof -
  let ?db1 = "db\<lparr>clock_reads := Suc (clock_reads db)\<rparr>"
  from c obtain e y where
    e: "find (\<lambda>x. ex_id x = i) (experiments db) = Some e" "ex_status e = DRAFT \<or> ex_status e = RUNNING" and
    1: "save_experiment
       (e\<lparr>ex_status := RUNNING, started_at := Some (wall P (clock_reads db)),
          config_snapshot := Some (start_snapshot P e (list_variants E i db)),
          code_version := Some (cfg_code_version (lab_config P))\<rparr>) ?db1 = (Inr y, db')"
    unfolding start_def by (auto simp: result_simps to_read_def split: if_splits)
  note m = get_experiment_mem [OF e(1) db]
  have s: "safe_step P db ?db1" by (rule safe_clock [OF db])
  from m e(2) safe_save [OF _ _ _ _ 1, of P e] s have "safe_step P ?db1 db'"
    by (auto simp: later_row_def row_ok_def safe_step_def)
  with s show ?thesis by (rule safe_trans)
qed

section \<open>Assignment and observations\<close>

lemma single_filter:
  assumes "single (filter p xs) db = (Inr a, db')"
  shows "db' = db \<and> (case a of None \<Rightarrow> \<forall>x \<in> set xs. \<not> p x | Some r \<Rightarrow> r \<in> set xs \<and> p r)"
proof (cases "filter p xs")
  case Nil
  with assms show ?thesis by (simp add: single_Inr filter_empty_conv)
next
  case (Cons r rs)
  then have "r \<in> set (filter p xs)" by simp
  then have "r \<in> set xs \<and> p r" by simp
  with assms Cons show ?thesis by (auto simp: single_Inr)
qed

lemma get_assignment_Inr:
  assumes "get_assignment i s db = (Inr a, db')"
  shows "db' = db \<and> (case a of
      None \<Rightarrow> (i, s) \<notin> (\<lambda>a. (as_experiment a, as_subject a)) ` set (assignments db)
    | Some a \<Rightarrow> a \<in> set (assignments db) \<and> as_experiment a = i \<and> as_subject a = s)"
  using single_filter [OF assms [unfolded get_assignment_def]] by (auto split: option.splits)

lemma get_observation_Inr:
  assumes "get_observation i s db = (Inr a, db')"
  shows "db' = db \<and> (case a of
      None \<Rightarrow> (i, s) \<notin> (\<lambda>a. (ob_experiment a, ob_subject a)) ` set (observations db)
    | Some a \<Rightarrow> a \<in> set (observations db) \<and> ob_experiment a = i \<and> ob_subject a = s)"
  using single_filter [OF assms [unfolded get_observation_def]] by (auto split: option.splits)

lemma list_variants_set:
  "lawful_transaction E \<Longrightarrow> set (list_variants E i db) = {v \<in> set (variants db). va_experiment v = i}"
  by (auto simp: list_variants_def lawful_transaction_def orders_by_set)

lemma list_variants_length:
  "lawful_transaction E \<Longrightarrow> length (list_variants E i db) = length (variants_of i db)"
  using orders_by_length [of va_created "order_variants E"]
  by (simp add: list_variants_def lawful_transaction_def variants_of_def)

lemma assign_variant_bounds: "0 < n \<Longrightarrow> 0 \<le> assign_variant s seed n \<and> assign_variant s seed n < n"
  by (simp add: assign_variant_def)

lemma assign_Inr:
  assumes u: "inj (fresh P)" and E: "lawful_transaction E" and db: "lab_typed P db" and c: "assign P E i s db = (Inr (a, k), db')"
  shows "safe_step P db db' \<and> experiments db' = experiments db \<and> variants db' = variants db
     \<and> observations db' = observations db
     \<and> a \<in> set (assignments db') \<and> as_experiment a = i \<and> as_subject a = s
     \<and> (\<exists>v \<in> set (variants db'). va_experiment v = i \<and> va_id v = as_variant a \<and> va_key v = k)"
proof -
  from c obtain e old where
    e: "find (\<lambda>x. ex_id x = i) (experiments db) = Some e" and
    1: "get_assignment i s db = (Inr old, db)" and
    2: "(case old of
       Some a \<Rightarrow> bindA (variant_by_id E i (as_variant a)) (\<lambda>v. retA (a, va_key v))
     | None \<Rightarrow>
         bindA (readA (list_variants E i)) (\<lambda>vs.
         if vs = [] then failA ExperimentValidationError
         else
           (let v = vs ! nat (assign_variant s (ex_seed e) (int (length vs))) in
            bindA (create_assignment P i (va_id v) s) (\<lambda>a. retA (a, va_key v))))) db = (Inr (a, k), db')"
    unfolding assign_def by (auto simp: result_simps split: if_splits dest: get_assignment_Inr)
  show ?thesis
  proof (cases old)
    case (Some a')
    with 2 obtain v where v: "find (\<lambda>x. va_id x = as_variant a') (list_variants E i db) = Some v"
        "a = a'" "k = va_key v" "db' = db"
      by (auto simp: result_simps)
    from v(1) have "v \<in> set (list_variants E i db) \<and> va_id v = as_variant a'"
      by (auto simp: find_Some_iff in_set_conv_nth)
    with v Some get_assignment_Inr [OF 1] db list_variants_set [OF E, of i db] show ?thesis
      by (auto simp: safe_refl)
  next
    case None
    let ?vs = "list_variants E i db"
    let ?v = "?vs ! nat (assign_variant s (ex_seed e) (int (length ?vs)))"
    let ?a = "\<lparr>as_id = fresh P (uuids_drawn db), as_experiment = i, as_variant = va_id ?v, as_subject = s\<rparr>"
    let ?db1 = "db\<lparr>uuids_drawn := Suc (uuids_drawn db)\<rparr>"
    from 2 None have ne: "?vs \<noteq> []" and a: "a = ?a" "k = va_key ?v"
      and db': "db' = ?db1\<lparr>assignments := assignments db @ [?a]\<rparr>"
      by (auto simp: result_simps Let_def create_assignment_def split: if_splits)
    have "nat (assign_variant s (ex_seed e) (int (length ?vs))) < length ?vs"
      using assign_variant_bounds [of "int (length ?vs)" s "ex_seed e"] ne by (simp add: nat_less_iff)
    then have v: "?v \<in> set (variants db)" "va_experiment ?v = i"
      using list_variants_set [OF E, of i db] nth_mem [of _ ?vs] by blast+
    have "lab_typed P db'"
      unfolding db' using typed_add_assignment [OF u db, of ?a] v get_assignment_Inr [OF 1] None
      by (force simp del: image_eqI)
    moreover have "evolves db db'" unfolding db' by (rule evolves_other) auto
    ultimately show ?thesis using v a db' by (auto simp: safe_step_def)
  qed
qed

lemma assigned_Inr:
  assumes u: "inj (fresh P)" and E: "lawful_transaction E" and db: "lab_typed P db" and c: "assigned P E i s db = (Inr a, db')"
  shows "safe_step P db db' \<and> experiments db' = experiments db \<and> observations db' = observations db
     \<and> a \<in> set (assignments db') \<and> as_experiment a = i \<and> as_subject a = s"
proof -
  from c obtain old where 1: "get_assignment i s db = (Inr old, db)" and
    2: "(case old of
              Some a \<Rightarrow> retA a
            | None \<Rightarrow> bindA (assign P E i s) (\<lambda>_.
                bindA (get_assignment i s) (\<lambda>a.
                case a of None \<Rightarrow> failA AssertionError | Some a \<Rightarrow> retA a))) db = (Inr a, db')"
    unfolding assigned_def by (auto simp: result_simps dest: get_assignment_Inr)
  show ?thesis
  proof (cases old)
    case (Some a')
    with 2 get_assignment_Inr [OF 1] db show ?thesis by (auto simp: result_simps safe_refl)
  next
    case None
    with 2 obtain x k new where a: "assign P E i s db = (Inr (x, k), db')" and
      n: "get_assignment i s db' = (Inr new, db')" "new = Some a"
      by (auto simp: result_simps dest: get_assignment_Inr split: option.splits)
    from assign_Inr [OF u E db a] get_assignment_Inr [OF n(1)] n(2) show ?thesis by simp
  qed
qed

lemma typed_assignment_unique:
  assumes "lab_typed P db" and "a \<in> set (assignments db)" and "b \<in> set (assignments db)"
    and "as_experiment a = as_experiment b" and "as_subject a = as_subject b"
  shows "a = b"
  using assms by (auto simp: lab_typed_def keys_ok_def distinct_map inj_on_def)

lemma observed_variant:
  assumes "lab_typed P db" and "x \<in> set (observations db)"
  shows "\<exists>a \<in> set (assignments db). as_experiment a = ob_experiment x \<and> as_subject a = ob_subject x \<and> as_variant a = ob_variant x"
proof -
  have "(ob_experiment x, ob_subject x, ob_variant x) \<in> (\<lambda>x. (ob_experiment x, ob_subject x, ob_variant x)) ` set (observations db)"
    using assms(2) by (rule imageI)
  moreover have "(\<lambda>x. (ob_experiment x, ob_subject x, ob_variant x)) ` set (observations db)
         \<subseteq> (\<lambda>a. (as_experiment a, as_subject a, as_variant a)) ` set (assignments db)"
    using assms(1) by (simp add: lab_typed_def refs_ok_def)
  ultimately have "(ob_experiment x, ob_subject x, ob_variant x) \<in> (\<lambda>a. (as_experiment a, as_subject a, as_variant a)) ` set (assignments db)"
    by (rule subsetD [rotated])
  then show ?thesis by auto
qed

lemma ob_key_update:
  assumes db: "lab_typed P db" and y: "y \<in> set (observations db)" and x: "ob_key x = ob_key y"
  shows "ob_key ` set (map (\<lambda>z. if ob_id z = ob_id x then x else z) (observations db)) = ob_key ` set (observations db)"
proof -
  have "inj_on ob_id (set (observations db))"
    using db by (simp add: lab_typed_def keys_ok_def distinct_map)
  then have same: "z = y" if "z \<in> set (observations db)" "ob_id z = ob_id y" for z
    using that y by (simp add: inj_on_eq_iff)
  have id: "ob_id x = ob_id y" using x by (simp add: ob_key_def)
  have "map ob_key (map (\<lambda>z. if ob_id z = ob_id x then x else z) (observations db)) = map ob_key (observations db)"
    using same id x by auto
  from arg_cong [OF this, of set] show ?thesis by (simp only: list.set_map)
qed

lemma put_observation_Inr:
  assumes u: "inj (fresh P)" and db: "lab_typed P db"
    and a: "a \<in> set (assignments db)" "as_experiment a = i" "as_subject a = oc_subject r" "as_variant a = v"
    and c: "put_observation P i v r t db = (Inr x, db')"
  shows "safe_step P db db' \<and> x \<in> set (observations db') \<and> ob_experiment x = i \<and> ob_subject x = oc_subject r"
proof -
  from c obtain old s where 2: "get_observation i (oc_subject r) db = (Inr old, s)" and
    "(case old of
       Some row \<Rightarrow> update_observation
         (observation_row (ob_experiment row) (ob_variant row) (r\<lparr>oc_subject := ob_subject row\<rparr>) t (ob_id row))
     | None \<Rightarrow> create_observation P (observation_row i v r t)) s = (Inr x, db')"
    unfolding put_observation_def bindA_Inr by blast
  then have 3: "(case old of
       Some row \<Rightarrow> update_observation
         (observation_row (ob_experiment row) (ob_variant row) (r\<lparr>oc_subject := ob_subject row\<rparr>) t (ob_id row))
     | None \<Rightarrow> create_observation P (observation_row i v r t)) db = (Inr x, db')"
    using get_observation_Inr [OF 2] by simp
  show ?thesis
  proof (cases old)
    case (Some y)
    let ?x = "observation_row (ob_experiment y) (ob_variant y) (r\<lparr>oc_subject := ob_subject y\<rparr>) t (ob_id y)"
    have y: "y \<in> set (observations db)" "ob_experiment y = i" "ob_subject y = oc_subject r"
      using get_observation_Inr [OF 2] Some by simp_all
    have x: "x = ?x" and db': "db' = db\<lparr>observations := map (\<lambda>z. if ob_id z = ob_id ?x then ?x else z) (observations db)\<rparr>"
      using 3 Some by (auto simp: update_observation_def)
    have k: "ob_key ?x = ob_key y" by (simp add: ob_key_def observation_row_def)
    have "lab_typed P db'"
      unfolding db' by (rule typed_update_observation [OF db y(1)]) (simp_all add: observation_row_def)
    moreover have "evolves db db'"
      unfolding db' using ob_key_update [OF db y(1) k] by (intro evolves_other) simp_all
    moreover have "?x \<in> set (observations db')"
      using y(1) unfolding db' by (force simp: observation_row_def)
    ultimately show ?thesis using x y by (simp add: safe_step_def observation_row_def)
  next
    case None
    let ?x = "observation_row i v r t (fresh P (uuids_drawn db))"
    have x: "x = ?x" and db': "db' = db\<lparr>uuids_drawn := Suc (uuids_drawn db), observations := observations db @ [?x]\<rparr>"
      using 3 None by (auto simp: create_observation_def Let_def result_simps split: if_splits)
    have "lab_typed P db'"
      unfolding db'
    proof (rule typed_add_observation [OF u db])
      show "ob_id ?x = fresh P (uuids_drawn db)" by (simp add: observation_row_def)
      show "(ob_experiment ?x, ob_subject ?x, ob_variant ?x)
         \<in> (\<lambda>a. (as_experiment a, as_subject a, as_variant a)) ` set (assignments db)"
        using a by (auto simp: observation_row_def intro!: image_eqI [of _ _ a])
      show "(ob_experiment ?x, ob_subject ?x) \<notin> (\<lambda>x. (ob_experiment x, ob_subject x)) ` set (observations db)"
        using get_observation_Inr [OF 2] None by (simp add: observation_row_def)
    qed
    moreover have "evolves db db'" unfolding db' by (rule evolves_other) auto
    ultimately show ?thesis using x db' by (simp add: safe_step_def observation_row_def)
  qed
qed

lemma record_observation_Inr:
  assumes u: "inj (fresh P)" and E: "lawful_transaction E" and db: "lab_typed P db"
    and c: "record_observation P E i r db = (Inr (x, k), db')"
  shows "safe_step P db db' \<and> x \<in> set (observations db') \<and> ob_experiment x = i \<and> ob_subject x = oc_subject r"
proof -
  from c obtain a db1 where
    1: "assigned P E i (oc_subject r) db = (Inr a, db1)" and
    2: "put_observation P i (as_variant a) r (wall P (clock_reads db1)) (db1\<lparr>clock_reads := Suc (clock_reads db1)\<rparr>)
          = (Inr x, db')"
    unfolding record_observation_def by (auto simp: result_simps split: if_splits)
  let ?db2 = "db1\<lparr>clock_reads := Suc (clock_reads db1)\<rparr>"
  note A = assigned_Inr [OF u E db 1]
  then have t1: "lab_typed P db1" by (simp add: safe_step_def)
  then have s2: "safe_step P db1 ?db2" by (rule safe_clock)
  then have t2: "lab_typed P ?db2" by (simp add: safe_step_def)
  have "safe_step P ?db2 db' \<and> x \<in> set (observations db') \<and> ob_experiment x = i \<and> ob_subject x = oc_subject r"
    by (rule put_observation_Inr [OF u t2 _ _ _ refl 2]) (use A in simp_all)
  moreover have "safe_step P db db1" using A by simp
  ultimately show ?thesis using s2 safe_trans by blast
qed

lemma record_loop_Inr:
  assumes u: "inj (fresh P)" and E: "lawful_transaction E"
  shows "lab_typed P db \<Longrightarrow> record_loop P E i rs seen db = (Inr xs, db') \<Longrightarrow> safe_step P db db'"
proof (induction rs arbitrary: seen db xs)
  case Nil
  then show ?case by (auto simp: result_simps safe_refl)
next
  case (Cons r rs)
  show ?case
  proof (cases "oc_subject r \<in> seen")
    case True
    with Cons show ?thesis by simp
  next
    case False
    with Cons.prems(2) obtain x k db1 ys where
      1: "record_observation P E i r db = (Inr (x, k), db1)" and
      2: "record_loop P E i rs (insert (oc_subject r) seen) db1 = (Inr ys, db')"
      by (auto simp: result_simps)
    have s: "safe_step P db db1" using record_observation_Inr [OF u E Cons.prems(1) 1] by simp
    then have "safe_step P db1 db'" using Cons.IH [OF _ 2] by (simp add: safe_step_def)
    with s show ?thesis by (rule safe_trans)
  qed
qed

section \<open>Reports\<close>

lemma liftR_Inr [result_simps]: "liftR r db = (Inr x, db') \<longleftrightarrow> r = Inr x \<and> db' = db"
  by (auto simp: liftR_def retA_def failA_def split: sum.splits)

lemma generate_report_Inr:
  assumes u: "inj (fresh P)" and db: "lab_typed P db" and g: "generate_report P E i db = (Inr x, db')"
  shows "safe_step P db db'"
proof -
  from g obtain e label body where e: "find (\<lambda>x. ex_id x = i) (experiments db) = Some e"
    and db': "db' = db\<lparr>uuids_drawn := Suc (uuids_drawn db),
      reports := reports db @ [report_row P E e (load_stats P E e db) label body (list_variants E i db) (fresh P (uuids_drawn db))]\<rparr>"
    unfolding generate_report_def create_report_def
    by (auto simp: result_simps dest!: variant_label_for_Inr)
  have "ex_id e \<in> ex_id ` set (experiments db)" using get_experiment_mem [OF e db] by blast
  then have "lab_typed P db'"
    unfolding db' by (intro typed_add_report [OF u db]) (simp_all add: report_row_def Let_def)
  then show ?thesis by (simp add: db' safe_step_def evolves_other)
qed

lemma stop_Inr:
  assumes u: "inj (fresh P)" and db: "lab_typed P db" and c: "stop P E i db = (Inr x, db')"
  shows "safe_step P db db'"
proof -
  let ?db1 = "db\<lparr>clock_reads := Suc (clock_reads db)\<rparr>"
  from c obtain e y db2 where
    e: "find (\<lambda>x. ex_id x = i) (experiments db) = Some e" "ex_status e = RUNNING" and
    1: "save_experiment (e\<lparr>ex_status := STOPPED, stopped_at := Some (wall P (clock_reads db))\<rparr>) ?db1 = (Inr y, db2)" and
    2: "generate_report P E i db2 = (Inr x, db')"
    unfolding stop_def by (auto simp: result_simps split: if_splits)
  note m = get_experiment_mem [OF e(1) db]
  let ?e = "e\<lparr>ex_status := STOPPED, stopped_at := Some (wall P (clock_reads db))\<rparr>"
  have s: "safe_step P db ?db1" by (rule safe_clock [OF db])
  have "row_ok ?e" "later_row e ?e" using m e(2) by (simp_all add: row_ok_def later_row_def)
  then have s2: "safe_step P ?db1 db2"
    using safe_save [OF _ _ _ _ 1, of P e] s m by (simp add: safe_step_def)
  have "safe_step P db2 db'"
    using generate_report_Inr [OF u _ 2] s2 by (simp add: safe_step_def)
  with s s2 safe_trans show ?thesis by metis
qed

section \<open>Requests\<close>

fun deletes :: "'i \<Rightarrow> 'i lab_request \<Rightarrow> bool" where
  "deletes i (Delete j) = (i = j)"
| "deletes i q = False"

lemma ignore_Inr: "ignore m db = (Inr x, db') \<longleftrightarrow> (\<exists>y. m db = (Inr y, db'))"
  by (auto simp: ignore_def result_simps)

lemma validated_Inr: "validated ok m db = (Inr x, db') \<longleftrightarrow> ok \<and> m db = (Inr x, db')"
  by (simp add: validated_def failA_Inr)

lemmas handled = handle_lab.simps ignore_Inr validated_Inr

lemma delete_Inr:
  "handle_lab P E (Delete i) db = (Inr x, db') \<Longrightarrow> db' = without i db"
  by (auto simp: result_simps delete_experiment_def without_def find_Some_iff split: option.splits)

lemma handle_safe:
  assumes u: "inj (fresh P)" and E: "lawful_transaction E" and db: "lab_typed P db"
    and h: "handle_lab P E q db = (Inr x, db')" and d: "\<And>i. q \<noteq> Delete i"
  shows "safe_step P db db'"
proof (cases q)
  case (Create r)
  with h create_experiment_Inr [OF u db] show ?thesis by (auto simp: handled)
next
  case (AddVariant i r)
  with h add_variant_Inr [OF u db] show ?thesis by (auto simp: handled)
next
  case (Update i r)
  with h update_experiment_Inr [OF db] show ?thesis by (auto simp: handled)
next
  case (Start i)
  with h start_Inr [OF db] show ?thesis by (auto simp: handled)
next
  case (Stop i)
  with h stop_Inr [OF u db] show ?thesis by (auto simp: handled)
next
  case (Assign i s)
  with h assign_Inr [OF u E db] show ?thesis by (fastforce simp: handled)
next
  case (Observe i r)
  with h record_observation_Inr [OF u E db] show ?thesis by (fastforce simp: handled)
next
  case (ObserveMany i rs)
  with h record_loop_Inr [OF u E db] show ?thesis
    by (auto simp: handled record_many_def failA_Inr split: if_splits)
next
  case (MakeReport i)
  with h obtain y where "generate_report P E i db = (Inr y, db')" by (auto simp: handled)
  from generate_report_Inr [OF u db this] show ?thesis by simp
next
  case (Delete i)
  with d [of i] show ?thesis by simp
qed

lemma serve_cases:
  obtains x where "handle_lab P E q db = (Inr x, serve_lab P (E, q) db)"
  | e db' where "handle_lab P E q db = (Inl e, db')"
      "serve_lab P (E, q) db = db\<lparr>uuids_drawn := uuids_drawn db', clock_reads := clock_reads db'\<rparr>"
proof (cases "handle_lab P E q db")
  case (Pair r db')
  then show ?thesis using that by (cases r) (auto simp: serve_lab_def in_transaction_def)
qed

text \<open>Every request, refused or not, keeps the tables typed.\<close>

lemma serve_typed:
  assumes u: "inj (fresh P)" and E: "lawful_transaction E" and db: "lab_typed P db"
  shows "lab_typed P (serve_lab P (E, q) db)"
proof (cases rule: serve_cases [of P E q db])
  case (1 x)
  show ?thesis
  proof (cases "\<exists>i. q = Delete i")
    case True
    with 1 delete_Inr typed_delete [OF db] show ?thesis by metis
  next
    case False
    with handle_safe [OF u E db 1] show ?thesis by (simp add: safe_step_def)
  qed
next
  case (2 e db')
  have "uuids_drawn db \<le> uuids_drawn db'"
    using draws_handle [of P E q] 2(1) unfolding draws_up_def by (metis snd_conv)
  with typed_counters [OF db] 2(2) show ?thesis by simp
qed

lemma serve_evolves:
  assumes u: "inj (fresh P)" and E: "lawful_transaction E" and db: "lab_typed P db" and d: "\<And>i. q \<noteq> Delete i"
  shows "evolves db (serve_lab P (E, q) db)"
proof (cases rule: serve_cases [of P E q db])
  case (1 x)
  with handle_safe [OF u E db 1 d] show ?thesis by (simp add: safe_step_def)
next
  case (2 e db')
  then show ?thesis by (simp add: evolves_other)
qed

lemma serves_typed:
  assumes "inj (fresh P)"
  shows "\<forall>q \<in> set qs. lawful_transaction (fst q) \<Longrightarrow> lab_typed P db \<Longrightarrow> lab_typed P (serve_labs P qs db)"
proof (induction qs arbitrary: db)
  case (Cons q qs)
  then show ?case using serve_typed [OF assms, of "fst q" db "snd q"] by (simp add: serve_labs_def)
qed (simp add: serve_labs_def)

lemma empty_typed: "lab_typed P empty_lab"
  by (simp add: lab_typed_def keys_ok_def refs_ok_def drawn_ok_def empty_lab_def)

end
