(* ===== verification/ExperimentProps.thy ===== *)
theory ExperimentProps
  imports ExperimentSteps
begin

text \<open>
  The properties of the experimentation platform: the integrity of its tables over every history
  of requests, the freezing of started experiments, the permanence of assignments and what they
  depend on, the choice of the winner, and the metric under which an experiment with a winner
  cannot be stopped.
\<close>

section \<open>One experiment of the tables\<close>

definition only :: "'i \<Rightarrow> 'i lab \<Rightarrow> 'i lab" where
  "only i db = db\<lparr>experiments := filter (\<lambda>x. ex_id x = i) (experiments db),
             variants := filter (\<lambda>x. va_experiment x = i) (variants db),
             assignments := filter (\<lambda>x. as_experiment x = i) (assignments db),
             observations := filter (\<lambda>x. ob_experiment x = i) (observations db)\<rparr>"

lemma variants_of_only: "variants_of i (only i db) = variants_of i db"
  by (simp add: variants_of_def only_def)

lemma evolves_only:
  assumes "evolves db db'"
  shows "evolves (only i db) (only i db')"
proof -
  have "\<exists>e' \<in> set (experiments (only i db')). later_row e e'
      \<and> (ex_status e \<noteq> DRAFT \<longrightarrow> variants_of (ex_id e) (only i db') = variants_of (ex_id e) (only i db))"
    if e: "e \<in> set (experiments (only i db))" for e
  proof -
    have e0: "e \<in> set (experiments db)" "ex_id e = i" using e by (auto simp: only_def)
    obtain e' where e': "e' \<in> set (experiments db')" "later_row e e'"
        "ex_status e \<noteq> DRAFT \<longrightarrow> variants_of (ex_id e) db' = variants_of (ex_id e) db"
      using assms e0(1) unfolding evolves_def by blast
    have "ex_id e' = i" using e'(2) e0(2) by (simp add: later_row_def)
    with e' e0 show ?thesis by (intro bexI [of _ e']) (simp_all add: variants_of_only, simp add: only_def)
  qed
  moreover have "set (variants (only i db)) \<subseteq> set (variants (only i db'))"
    "set (assignments (only i db)) \<subseteq> set (assignments (only i db'))"
    using assms by (auto simp: evolves_def only_def)
  moreover have "ob_key ` set (observations (only i db)) \<subseteq> ob_key ` set (observations (only i db'))"
    unfolding only_def
    using assms by (simp del: set_filter) (rule image_filter_subset [where r = "\<lambda>k. fst (snd k) = i"];
      simp add: evolves_def ob_key_def)
  ultimately show ?thesis by (simp add: evolves_def)
qed

lemma only_without: "j \<noteq> i \<Longrightarrow> evolves (only i db) (only i (without j db))"
proof (rule evolves_other)
  assume j: "j \<noteq> i"
  have f: "filter (\<lambda>x. k x = i) (filter (\<lambda>x. k x \<noteq> j) xs) = filter (\<lambda>x. k x = i) xs" for k and xs :: "'b list"
    using j by (auto simp: filter_filter intro: filter_cong)
  show "experiments (only i (without j db)) = experiments (only i db)"
    "variants (only i (without j db)) = variants (only i db)"
    by (simp_all add: only_def without_def f del: filter_filter)
  show "set (assignments (only i db)) \<subseteq> set (assignments (only i (without j db)))"
    "ob_key ` set (observations (only i db)) \<subseteq> ob_key ` set (observations (only i (without j db)))"
    by (simp_all add: only_def without_def f del: filter_filter set_filter)
qed

lemma serve_only:
  assumes u: "inj (fresh P)" and E: "lawful_transaction E" and db: "lab_typed P db" and d: "\<not> deletes i q"
  shows "evolves (only i db) (only i (serve_lab P (E, q) db))"
proof (cases "\<exists>j. q = Delete j")
  case False
  then show ?thesis by (intro evolves_only serve_evolves [OF u E db]) simp
next
  case True
  then obtain j where q: "q = Delete j" ..
  with d have j: "q = Delete j" "j \<noteq> i" by simp_all
  show ?thesis
  proof (cases rule: serve_cases [of P E q db])
    case (1 x)
    with j delete_Inr [of P E j db x] only_without [of j i db] show ?thesis by simp
  next
    case (2 e db')
    then have "evolves db (serve_lab P (E, q) db)" by (simp add: evolves_other)
    then show ?thesis by (rule evolves_only)
  qed
qed

lemma serves_only:
  assumes u: "inj (fresh P)"
  shows "\<forall>q \<in> set qs. lawful_transaction (fst q) \<and> \<not> deletes i (snd q) \<Longrightarrow> lab_typed P db
    \<Longrightarrow> evolves (only i db) (only i (serve_labs P qs db))"
proof (induction qs arbitrary: db)
  case (Cons q qs)
  have 1: "evolves (only i db) (only i (serve_lab P q db))"
    using serve_only [OF u _ Cons.prems(2), of "fst q" i "snd q"] Cons.prems(1) by simp
  have "lab_typed P (serve_lab P q db)"
    using serve_typed [OF u _ Cons.prems(2), of "fst q" "snd q"] Cons.prems(1) by simp
  with Cons have 2: "evolves (only i (serve_lab P q db)) (only i (serve_labs P qs (serve_lab P q db)))"
    by simp
  from evolves_trans [OF 1 2] show ?case by (simp add: serve_labs_def)
qed (simp add: serve_labs_def)

section \<open>Integrity\<close>

text \<open>C6: over every history of requests (creating, editing, starting, stopping, assigning,
  recording, reporting, deleting; served or refused) the five tables stay well typed: in each the ids
  are unique, variants, assignments, observations and reports refer to rows that exist and belong to
  the same experiment,
  a subject has one assignment and one observation per experiment, the observation stands under the
  assigned variant, a started experiment has its start time, snapshot and code version, and none is
  ever archived.\<close>

theorem lab_stays_typed:
  assumes "inj (fresh P)" and "\<forall>q \<in> set qs. lawful_transaction (fst q)"
  shows "lab_typed P (serve_labs P qs empty_lab)"
  using serves_typed [OF assms(1,2) empty_typed] .

section \<open>Life cycle\<close>

text \<open>C8: whatever is requested later, short of deleting it, an experiment keeps its identity, type,
  metric, significance level, sample size and seed, its status only goes from draft to running to
  stopped, and once started its name, hypothesis, control and list of variants never change.\<close>

theorem started_experiment_frozen:
  assumes u: "inj (fresh P)" and q: "\<forall>q \<in> set (qs @ qs'). lawful_transaction (fst q)"
    and e: "e \<in> set (experiments (serve_labs P qs empty_lab))"
    and d: "\<forall>q \<in> set qs'. \<not> deletes (ex_id e) (snd q)"
  shows "\<exists>e' \<in> set (experiments (serve_labs P (qs @ qs') empty_lab)).
    later_row e e' \<and> ex_status e' \<noteq> ARCHIVED
    \<and> (ex_status e \<noteq> DRAFT \<longrightarrow>
         variants_of (ex_id e) (serve_labs P (qs @ qs') empty_lab) = variants_of (ex_id e) (serve_labs P qs empty_lab))"
proof -
  let ?db = "serve_labs P qs empty_lab" and ?db' = "serve_labs P qs' (serve_labs P qs empty_lab)"
  have eq: "serve_labs P (qs @ qs') empty_lab = ?db'" by (simp add: serve_labs_def)
  have t: "lab_typed P ?db" using serves_typed [OF u _ empty_typed] q by simp
  then have t': "lab_typed P ?db'" using serves_typed [OF u] q by simp
  have "evolves (only (ex_id e) ?db) (only (ex_id e) ?db')"
    using serves_only [OF u _ t] q d by simp
  moreover have "e \<in> set (experiments (only (ex_id e) ?db))" using e by (simp add: only_def)
  ultimately obtain e' where e': "e' \<in> set (experiments (only (ex_id e) ?db'))" "later_row e e'"
    "ex_status e \<noteq> DRAFT \<longrightarrow> variants_of (ex_id e) (only (ex_id e) ?db') = variants_of (ex_id e) (only (ex_id e) ?db)"
    unfolding evolves_def by blast
  then have "e' \<in> set (experiments ?db')" by (simp add: only_def)
  moreover have "ex_status e' \<noteq> ARCHIVED" using t' calculation by (auto simp: lab_typed_def row_ok_def)
  ultimately show ?thesis using e' unfolding eq variants_of_only by blast
qed

section \<open>Assignment\<close>

lemma filter_unique:
  "distinct (map k xs) \<Longrightarrow> a \<in> set xs \<Longrightarrow> filter (\<lambda>x. k x = k a) xs = [a]"
proof (induction xs)
  case (Cons x xs)
  then show ?case by (auto simp: filter_empty_conv image_iff)
qed simp

lemma find_unique:
  "distinct (map k xs) \<Longrightarrow> a \<in> set xs \<Longrightarrow> find (\<lambda>x. k x = k a) xs = Some a"
  by (induction xs) (auto simp: image_iff)

lemma get_assignment_known:
  assumes "lab_typed P db" and "a \<in> set (assignments db)"
  shows "get_assignment (as_experiment a) (as_subject a) db = (Inr (Some a), db)"
  using filter_unique [of "\<lambda>a. (as_experiment a, as_subject a)" "assignments db" a] assms
  by (simp add: get_assignment_def single_def lab_typed_def keys_ok_def retA_def)

lemma variant_by_id_known:
  assumes E: "lawful_transaction E" and db: "lab_typed P db" and v: "v \<in> set (variants db)"
  shows "variant_by_id E (va_experiment v) (va_id v) db = (Inr v, db)"
proof -
  let ?vs = "list_variants E (va_experiment v) db"
  have "mset ?vs = mset (filter (\<lambda>x. va_experiment x = va_experiment v) (variants db))"
    using E by (simp add: list_variants_def lawful_transaction_def orders_by_def)
  then have "mset (map va_id ?vs) = mset (map va_id (filter (\<lambda>x. va_experiment x = va_experiment v) (variants db)))"
    by simp
  moreover have "distinct (map va_id (filter (\<lambda>x. va_experiment x = va_experiment v) (variants db)))"
    using db by (simp add: lab_typed_def keys_ok_def distinct_map_filter)
  ultimately have "distinct (map va_id ?vs)" by (metis mset_eq_imp_distinct_iff)
  moreover have "v \<in> set ?vs" using v by (simp add: list_variants_set [OF E])
  ultimately show ?thesis by (simp add: variant_by_id_def find_unique)
qed

text \<open>C10: once a subject is assigned, every later request for it, in any state of the experiment and
  whatever was requested in between, short of deleting the experiment, answers with the same row and
  the same variant, and every observation of the subject stands under that variant.\<close>

theorem assignment_sticky:
  assumes u: "inj (fresh P)" and q: "\<forall>q \<in> set (qs @ qs'). lawful_transaction (fst q)"
    and E: "lawful_transaction E" "lawful_transaction E'" and s: "valid_subject s"
    and a: "assign P E i s (serve_labs P qs empty_lab) = (Inr (a, k), db)"
    and d: "\<forall>q \<in> set qs'. \<not> deletes i (snd q)"
  shows "serve_labs P (qs @ [(E, Assign i s)]) empty_lab = db
    \<and> assign P E' i s (serve_labs P qs' db) = (Inr (a, k), serve_labs P qs' db)
    \<and> (\<forall>x \<in> set (observations (serve_labs P qs' db)).
         ob_experiment x = i \<and> ob_subject x = s \<longrightarrow> ob_variant x = as_variant a)"
proof (intro conjI ballI impI)
  let ?db0 = "serve_labs P qs empty_lab" and ?db' = "serve_labs P qs' db"
  have t0: "lab_typed P ?db0" using serves_typed [OF u _ empty_typed] q by simp
  note A = assign_Inr [OF u E(1) t0 a]
  then have t: "lab_typed P db" by (simp add: safe_step_def)
  then have t': "lab_typed P ?db'" using serves_typed [OF u] q by simp
  have k: "evolves (only i db) (only i ?db')" using serves_only [OF u _ t] q d by simp
  show "serve_labs P (qs @ [(E, Assign i s)]) empty_lab = db"
    using a s by (simp add: serve_labs_def serve_lab_def in_transaction_def handled ignore_def validated_def)
  obtain v where v: "v \<in> set (variants db)" "va_experiment v = i" "va_id v = as_variant a" "va_key v = k"
    using A by blast
  have a': "a \<in> set (assignments ?db')" "as_experiment a = i" "as_subject a = s"
    using k A unfolding evolves_def by (auto simp: only_def)
  have v': "v \<in> set (variants ?db')" using k v unfolding evolves_def by (auto simp: only_def)
  then have "i \<in> ex_id ` set (experiments ?db')"
    using t' v(2) by (auto simp: lab_typed_def refs_ok_def)
  then obtain e where e: "e \<in> set (experiments ?db')" "ex_id e = i" by auto
  then have "find (\<lambda>x. ex_id x = i) (experiments ?db') = Some e" "ex_status e \<noteq> ARCHIVED"
    using t' find_unique [of ex_id "experiments ?db'" e] by (auto simp: lab_typed_def keys_ok_def row_ok_def)
  then show "assign P E' i s ?db' = (Inr (a, k), ?db')"
    using get_assignment_known [OF t' a'(1)] variant_by_id_known [OF E(2) t' v'] v a'
    by (simp add: assign_def bindA_def get_experiment_def retA_def)
  show "ob_variant x = as_variant a"
    if "x \<in> set (observations ?db')" "ob_experiment x = i \<and> ob_subject x = s" for x
    using observed_variant [OF t' that(1)] typed_assignment_unique [OF t' a'(1)] a' that(2) by metis
qed

text \<open>which variant a new subject gets is not a function of the seed and the subject: the index
  is taken in the order of creation, and the variants created with their experiment were created at
  the same instant, so that two executions of the same query may order them differently and assign
  the same subject to different variants.\<close>

theorem split_depends_on_row_order:
  assumes e: "find (\<lambda>x. ex_id x = i) (experiments db) = Some e" "ex_status e \<noteq> ARCHIVED"
    and n: "\<forall>a \<in> set (assignments db). \<not> (as_experiment a = i \<and> as_subject a = s)"
    and v: "2 \<le> length (variants_of i db)" "distinct (map va_id (variants_of i db))"
      "\<forall>x \<in> set (variants_of i db). va_created x = t"
  shows "\<exists>E E' a k db1 a' k' db1'. lawful_transaction E \<and> lawful_transaction E'
    \<and> assign P E i s db = (Inr (a, k), db1) \<and> assign P E' i s db = (Inr (a', k'), db1')
    \<and> as_variant a \<noteq> as_variant a'"
proof -
  let ?vs = "variants_of i db"
  define E where "E = \<lparr>tx_start = 0, order_variants = sort_key va_created,
     order_observations = sort_key (\<lambda>x. - recorded_at x), order_reports = sort_key (\<lambda>x. - re_created x),
     order_experiments = sort_key (\<lambda>x. - ex_created x) :: 'a lab_experiment list \<Rightarrow> 'a lab_experiment list\<rparr>"
  define E' where "E' = E\<lparr>order_variants := \<lambda>xs. sort_key va_created (rotate1 xs)\<rparr>"
  have "mset (rotate1 xs) = mset xs" for xs :: "'a variant list" by (cases xs) simp_all
  then have lawful: "lawful_transaction E" "lawful_transaction E'"
    by (simp_all add: E_def E'_def lawful_transaction_def orders_by_def)
  have const: "sort_key va_created xs = xs" if "\<forall>x \<in> set xs. va_created x = t" for xs :: "'a variant list"
    using that by (intro sort_key_id_if_sorted) (simp add: sorted_map sorted_wrt_iff_nth_less)
  have l: "list_variants E i db = ?vs" "list_variants E' i db = rotate1 ?vs"
    using v(3) const [of ?vs] const [of "rotate1 ?vs"]
    by (simp_all add: list_variants_def E_def E'_def variants_of_def)
  define j where "j = nat (assign_variant s (ex_seed e) (int (length ?vs)))"
  have j: "j < length ?vs"
  proof -
    have "0 < int (length ?vs)" using v(1) by linarith
    from assign_variant_bounds [OF this, of s "ex_seed e"] show ?thesis by (simp add: j_def nat_less_iff)
  qed
  have ga: "get_assignment i s db = (Inr None, db)"
    using n by (simp add: get_assignment_def single_def filter_empty_conv retA_def)
  have as: "assign P F i s db =
      (Inr (\<lparr>as_id = fresh P (uuids_drawn db), as_experiment = i, as_variant = va_id (vs ! j), as_subject = s\<rparr>,
            va_key (vs ! j)),
       db\<lparr>uuids_drawn := Suc (uuids_drawn db), assignments := assignments db
          @ [\<lparr>as_id = fresh P (uuids_drawn db), as_experiment = i, as_variant = va_id (vs ! j), as_subject = s\<rparr>]\<rparr>)"
    if "list_variants F i db = vs" "length vs = length ?vs" for F vs
  proof -
    have "vs \<noteq> []" using that(2) v(1) by auto
    with e n ga that show ?thesis
      by (auto simp: assign_def bindA_def get_experiment_def readA_def create_assignment_def draw_uuid_def
          retA_def j_def Let_def)
  qed
  have "rotate1 ?vs ! j = ?vs ! (Suc j mod length ?vs)" using j by (rule nth_rotate1)
  moreover have "Suc j mod length ?vs \<noteq> j" "Suc j mod length ?vs < length ?vs"
    using j v(1) by (auto simp: mod_Suc)
  ultimately have "va_id (?vs ! j) \<noteq> va_id (rotate1 ?vs ! j)"
    using v(2) j by (simp add: distinct_conv_nth)
  then show ?thesis
    using lawful as [OF l(1)] as [OF l(2)] by (intro exI conjI) (assumption | simp)+
qed

section \<open>The winner\<close>

lemma distinct_group_step: "distinct (map fst g) \<Longrightarrow> distinct (map fst (group_step g v))"
  by (simp add: group_step_def distinct_update)

lemma distinct_group_views: "distinct (map fst (group_views vs))"
proof -
  have "distinct (map fst (foldl group_step g vs))" if "distinct (map fst g)" for g
    using that by (induction vs arbitrary: g) (simp_all add: distinct_group_step)
  then show ?thesis by (simp add: group_views_def)
qed

lemma distinct_stats: "distinct (map fst (variant_stats L vs))"
proof -
  have "map fst (variant_stats L vs) = map fst (group_views vs)"
    by (simp add: variant_stats_def case_prod_unfold comp_def)
  then show ?thesis by (simp add: distinct_group_views)
qed

lemma better_score:
  assumes "compare L alpha metric entry control = Some c" and "better c"
  shows "score_of metric control < score_of metric entry"
  using assms
  by (cases metric) (auto simp: tested_def compare_quality_def compare_means_def f1_of_def Let_def split: option.splits)

lemma significant_p:
  assumes "compare L alpha metric entry control = Some c" and "significant c" and "metric \<noteq> F1"
  shows "\<exists>p. c_p_value c = Some p \<and> p < alpha"
  using assms
  by (cases metric) (auto simp: tested_def compare_quality_def compare_means_def split: option.splits)

lemma comparisons_of_set:
  "(k, c) \<in> set (comparisons_of L alpha metric ck control st)
    \<longleftrightarrow> k \<noteq> ck \<and> (\<exists>entry. (k, entry) \<in> set st \<and> compare L alpha metric entry control = Some c)"
  by (force simp: comparisons_of_def List.map_filter_def split: if_splits)

definition beats ::
  "libm \<Rightarrow> rat \<Rightarrow> primary_metric \<Rightarrow> stats \<Rightarrow> string \<Rightarrow> string \<Rightarrow> comparison \<Rightarrow> bool" where
  "beats L alpha metric st ck k c \<longleftrightarrow> k \<noteq> ck \<and>
     (\<exists>entry control. map_of st k = Some entry \<and> map_of st ck = Some control
        \<and> compare L alpha metric entry control = Some c \<and> significant c \<and> better c)"

lemma determine_winner_cases:
  assumes d: "distinct (map fst st)"
  shows "case winner_key (determine_winner L st control_key alpha metric) of
      None \<Rightarrow> \<not> (\<exists>ck k c. control_key = Some ck \<and> beats L alpha metric st ck k c)
        \<and> (case leading_key (determine_winner L st control_key alpha metric) of
             None \<Rightarrow> st = []
           | Some l \<Rightarrow> \<exists>entry. map_of st l = Some entry
               \<and> (\<forall>k e. map_of st k = Some e \<longrightarrow> score_of metric e \<le> score_of metric entry))
    | Some w \<Rightarrow> \<exists>ck c. control_key = Some ck \<and> beats L alpha metric st ck w c
        \<and> w_confidence (determine_winner L st control_key alpha metric) = Some (c_confidence c)
        \<and> w_p_value (determine_winner L st control_key alpha metric) = c_p_value c
        \<and> (\<forall>k c'. beats L alpha metric st ck k c' \<longrightarrow> c_uplift c' \<le> c_uplift c)"
proof -
  let ?r = "determine_winner L st control_key alpha metric"
  have mem: "map_of st k = Some e \<longleftrightarrow> (k, e) \<in> set st" for k e using d by (simp add: map_of_eq_Some_iff)
  have lead: "\<exists>entry. map_of st (leading metric st) = Some entry
      \<and> (\<forall>k e. map_of st k = Some e \<longrightarrow> score_of metric e \<le> score_of metric entry)" if "st \<noteq> []"
  proof -
    let ?m = "first_max (\<lambda>kv. score_of metric (snd kv)) st"
    have "?m \<in> set st" by (rule first_max_mem [OF that])
    moreover have "score_of metric e \<le> score_of metric (snd ?m)" if "(k, e) \<in> set st" for k e
      using first_max_max [OF that, of "\<lambda>kv. score_of metric (snd kv)"] by simp
    ultimately show ?thesis unfolding mem leading_def by (intro exI [of _ "snd ?m"]) auto
  qed
  consider (empty) "st = []"
    | (nocontrol) "st \<noteq> []" "Option.bind control_key (\<lambda>ck. map_option (Pair ck) (map_of st ck)) = None"
    | (control) ck control where "st \<noteq> []" "control_key = Some ck" "map_of st ck = Some control"
  proof (cases "Option.bind control_key (\<lambda>ck. map_option (Pair ck) (map_of st ck))")
    case None
    then show ?thesis using empty nocontrol by blast
  next
    case (Some x)
    then obtain ck control where "control_key = Some ck" "map_of st ck = Some control"
      by (auto simp: bind_eq_Some_conv)
    moreover from this have "st \<noteq> []" by auto
    ultimately show ?thesis using control by blast
  qed
  then show ?thesis
  proof cases
    case empty
    then show ?thesis by (simp add: determine_winner_def winner_result_of_def beats_def)
  next
    case nocontrol
    then have "\<not> (\<exists>ck k c. control_key = Some ck \<and> beats L alpha metric st ck k c)"
      by (auto simp: beats_def)
    with nocontrol lead show ?thesis by (simp add: determine_winner_def winner_result_of_def)
  next
    case control
    let ?cs = "comparisons_of L alpha metric ck control st"
    let ?cand = "filter (\<lambda>kc. significant (snd kc) \<and> better (snd kc)) ?cs"
    have b: "(k, c) \<in> set ?cand \<longleftrightarrow> beats L alpha metric st ck k c" for k c
      using control(3) by (auto simp: comparisons_of_set beats_def mem [symmetric])
    show ?thesis
    proof (cases "?cand = []")
      case True
      have "\<not> beats L alpha metric st ck k c" for k c using b [of k c] True by simp
      then show ?thesis using control lead True
        by (simp add: determine_winner_def winner_result_of_def Let_def)
    next
      case False
      let ?key = "\<lambda>kc. (c_uplift (snd kc), score_of metric (the (map_of st (fst kc))))"
      let ?w = "first_max ?key ?cand"
      have w: "?w \<in> set ?cand" by (rule first_max_mem [OF False])
      then have 1: "beats L alpha metric st ck (fst ?w) (snd ?w)" using b [of "fst ?w" "snd ?w"] by simp
      have 2: "c_uplift c' \<le> c_uplift (snd ?w)" if "beats L alpha metric st ck k c'" for k c'
        using first_max_max [of "(k, c')" ?cand ?key] b [of k c'] that by (auto simp: less_eq_prod_def)
      have r: "?r = winner_result_of (Some (fst ?w)) (Some (fst ?w)) (Some (c_confidence (snd ?w))) (c_p_value (snd ?w)) ?cs"
        using control False by (simp add: determine_winner_def Let_def)
      show ?thesis using 1 2 control(2) unfolding r by (auto simp: winner_result_of_def)
    qed
  qed
qed

text \<open>C37: the winner among the statistics of any observations is a variant other than the control
  that beats it on the metric and, the F1 score apart, does so with a p-value below the significance
  level, with the greatest uplift of all that do; there is no winner exactly when there is none that
  does, and then the leading variant is one of the highest score.\<close>

theorem winner_is_best_significant:
  "case winner_key (determine_winner L (variant_stats L vs) control_key alpha metric) of
      None \<Rightarrow> \<not> (\<exists>ck k c. control_key = Some ck \<and> beats L alpha metric (variant_stats L vs) ck k c)
        \<and> (case leading_key (determine_winner L (variant_stats L vs) control_key alpha metric) of
             None \<Rightarrow> variant_stats L vs = []
           | Some l \<Rightarrow> \<exists>entry. map_of (variant_stats L vs) l = Some entry
               \<and> (\<forall>k e. map_of (variant_stats L vs) k = Some e \<longrightarrow> score_of metric e \<le> score_of metric entry))
    | Some w \<Rightarrow> \<exists>ck c entry control. control_key = Some ck \<and> beats L alpha metric (variant_stats L vs) ck w c
        \<and> map_of (variant_stats L vs) w = Some entry \<and> map_of (variant_stats L vs) ck = Some control
        \<and> score_of metric control < score_of metric entry
        \<and> (metric \<noteq> F1 \<longrightarrow>
             (\<exists>p. w_p_value (determine_winner L (variant_stats L vs) control_key alpha metric) = Some p \<and> p < alpha))
        \<and> (\<forall>k c'. beats L alpha metric (variant_stats L vs) ck k c' \<longrightarrow> c_uplift c' \<le> c_uplift c)"
proof -
  let ?st = "variant_stats L vs" and ?r = "determine_winner L (variant_stats L vs) control_key alpha metric"
  note C = determine_winner_cases [OF distinct_stats [of L vs], of control_key L alpha metric]
  show ?thesis
  proof (cases "winner_key ?r")
    case None
    with C show ?thesis by simp
  next
    case (Some w)
    with C obtain ck c where c: "control_key = Some ck" "beats L alpha metric ?st ck w c"
      "w_p_value ?r = c_p_value c" "\<forall>k c'. beats L alpha metric ?st ck k c' \<longrightarrow> c_uplift c' \<le> c_uplift c"
      by auto
    from c(2) obtain entry control where e: "map_of ?st w = Some entry" "map_of ?st ck = Some control"
      "compare L alpha metric entry control = Some c" "significant c" "better c"
      unfolding beats_def by blast
    with Some c better_score [OF e(3,5)] significant_p [OF e(3,4)] show ?thesis by auto
  qed
qed

text \<open>an experiment on the F1 score that has a winner cannot be stopped: the winner of that
  metric has no p-value, the text of the report formats it, the exception rolls the request back and
  the experiment goes on running.\<close>

theorem f1_winner_blocks_stop:
  assumes e: "find (\<lambda>x. ex_id x = i) (experiments db) = Some e" "ex_status e = RUNNING" "ex_metric e = F1"
    and st: "st = fst (load_stats P E e db)" "[] \<notin> fst ` set st"
    and c: "control_variant_key e = Some ck" "map_of st ck = Some control"
    and w: "map_of st k = Some entry" "f1_of control < f1_of entry"
  shows "\<exists>err \<in> {Builtin TypeError, MultipleResultsFound}.
    in_transaction (handle_lab P E (Stop i)) db = (Inl err, db\<lparr>clock_reads := Suc (clock_reads db)\<rparr>)"
proof -
  let ?e = "e\<lparr>ex_status := STOPPED, stopped_at := Some (wall P (clock_reads db))\<rparr>"
  let ?db1 = "db\<lparr>clock_reads := Suc (clock_reads db)\<rparr>"
  let ?db2 = "?db1\<lparr>experiments := map (\<lambda>x. if ex_id x = ex_id ?e then ?e else x) (experiments db)\<rparr>"
  let ?w = "winner_for P ?e st"
  have id: "ex_id e = i" using find_experiment [OF e(1)] by simp
  have d: "distinct (map fst st)" by (simp add: st(1) load_stats_def Let_def distinct_stats)
  have "beats (libm_of P) (ex_alpha e) F1 st ck k
      \<lparr>c_p_value = None, c_confidence = 0, better = True, c_uplift = fsub (f1_of entry) (f1_of control), significant = True\<rparr>"
    using c w by (auto simp: beats_def Let_def)
  then obtain wk where wk: "winner_key ?w = Some wk"
    using determine_winner_cases [OF d, of "Some ck" "libm_of P" "ex_alpha e" F1] c(1) e(3)
    by (auto simp: winner_for_def split: option.splits)
  then obtain cc where cc: "beats (libm_of P) (ex_alpha e) F1 st ck wk cc" "w_p_value ?w = c_p_value cc"
    using determine_winner_cases [OF d, of "Some ck" "libm_of P" "ex_alpha e" F1] c(1) e(3)
    by (auto simp: winner_for_def)
  have "c_p_value cc = None" using cc(1) by (auto simp: beats_def Let_def)
  moreover have "wk \<in> fst ` set st" using cc(1) by (force simp: beats_def dest: map_of_SomeD)
  then have "wk \<noteq> []" using st(2) by blast
  then have "\<not> falsy (winner_key ?w)" using wk by (simp add: falsy_def)
  ultimately have bod: "report_text P ?e (st, views) = Inl TypeError" for views
    using cc(2) by (simp add: report_text_def Let_def render_markdown_def winner_lines_def split: option.splits)
  have lt: "report_text P ?e (load_stats P E e db) = Inl TypeError"
    using bod [of "snd (load_stats P E e db)"] st(1) by simp
  have ls: "load_stats P E ?e ?db2 = load_stats P E e db"
    by (simp add: load_stats_def variant_keys_def list_variants_def list_observations_def)
  have "find (\<lambda>x. ex_id x = i) (map (\<lambda>x. if ex_id x = i then ?e else x) xs) = Some ?e"
    if "find (\<lambda>x. ex_id x = i) xs = Some e" for xs
    using that id by (induction xs) (auto split: if_splits)
  then have g: "get_experiment i ?db2 = (Inr ?e, ?db2)" using e(1) id by (simp add: get_experiment_def)
  obtain res db3 where lab: "variant_label_for i (winner_key ?w) ?db2 = (res, db3)" by (cases "variant_label_for i (winner_key ?w) ?db2")
  have "db3 = ?db2 \<and> (\<forall>err. res = Inl err \<longrightarrow> err = MultipleResultsFound)"
    using lab by (auto simp: variant_label_for_def get_variant_def single_def bindA_def retA_def failA_def split: if_splits list.splits)
  then have "\<exists>err \<in> {Builtin TypeError, MultipleResultsFound}. generate_report P E i ?db2 = (Inl err, ?db2)"
    using lab g ls st(1) lt by (cases res) (auto simp: generate_report_def bindA_def readA_def liftR_def failA_def)
  then obtain err where err: "err \<in> {Builtin TypeError, MultipleResultsFound}" "generate_report P E i ?db2 = (Inl err, ?db2)"
    by blast
  then have "stop P E i db = (Inl err, ?db2)"
    using e by (simp add: stop_def bindA_def get_experiment_def read_clock_def save_experiment_def)
  then show ?thesis using err(1)
    by (intro bexI [of _ err]) (simp_all add: in_transaction_def ignore_def bindA_def)
qed

section \<open>Examples\<close>

definition plain_libm :: libm where
  "plain_libm = \<lparr>c_sqrt = \<lambda>x. x, c_exp = \<lambda>x. 1, c_log = \<lambda>x. 0, c_erf = \<lambda>x. 0, c_lgamma = \<lambda>x. 0,
                 c_square = \<lambda>x. x * x\<rparr>"

definition test_platform :: "nat platform" where
  "test_platform = \<lparr>fresh = \<lambda>n. n, id_text = (\<lambda>n. replicate n CHR ''1''), wall = int, libm_of = plain_libm,
     lab_config = \<lparr>lab_enabled = True, max_variants_per_experiment = 20, max_batch_size = 1000,
                   cfg_code_version = ''v1''\<rparr>\<rparr>"

definition test_tx :: "int \<Rightarrow> 'i transaction" where
  "test_tx t = \<lparr>tx_start = t, order_variants = sort_key va_created,
     order_observations = sort_key (\<lambda>x. - recorded_at x), order_reports = sort_key (\<lambda>x. - re_created x),
     order_experiments = sort_key (\<lambda>x. - ex_created x)\<rparr>"

lemma test_tx_lawful [simp]: "lawful_transaction (test_tx t)"
  by (simp add: test_tx_def lawful_transaction_def orders_by_def)

lemma test_platform_inj [simp]: "inj (fresh test_platform)"
  by (simp add: test_platform_def inj_def)

definition test_variant :: "string \<Rightarrow> bool \<Rightarrow> variant_create" where
  "test_variant k c = \<lparr>vc_key = k, vc_label = k, vc_parameters = [], vc_is_control = c\<rparr>"

definition test_create :: "variant_create list \<Rightarrow> experiment_create" where
  "test_create vs = \<lparr>cr_name = ''button'', cr_type = AB, cr_description = None, cr_hypothesis = None,
     cr_metric = None, cr_alpha = 1 / 20, cr_min_sample_size = 100, cr_seed = 42, cr_control = None,
     cr_variants = vs\<rparr>"

definition test_history :: "(nat transaction \<times> nat lab_request) list" where
  "test_history =
     [(test_tx 1, Create (test_create [test_variant ''new'' False, test_variant ''old'' True])), (test_tx 2, Start 0)]"

theorem lab_stays_typed_witness:
  "lab_typed test_platform (serve_labs test_platform test_history empty_lab)
   \<and> length (variants (serve_labs test_platform test_history empty_lab)) = 2"
proof
  show "lab_typed test_platform (serve_labs test_platform test_history empty_lab)"
    by (rule lab_stays_typed) (simp_all add: test_history_def)
  show "length (variants (serve_labs test_platform test_history empty_lab)) = 2" by code_simp
qed

theorem started_experiment_frozen_witness:
  "\<exists>e \<in> set (experiments (serve_labs test_platform test_history empty_lab)). ex_status e = RUNNING \<and>
    (\<exists>e' \<in> set (experiments (serve_labs test_platform (test_history @ [(test_tx 3, Assign 0 ''ann''), (test_tx 4, Stop 0)]) empty_lab)).
      later_row e e' \<and> ex_status e' \<noteq> ARCHIVED)"
proof -
  have "list_ex (\<lambda>e. ex_id e = 0 \<and> ex_status e = RUNNING)
      (experiments (serve_labs test_platform test_history empty_lab))" by code_simp
  then obtain e where e: "e \<in> set (experiments (serve_labs test_platform test_history empty_lab))"
      "ex_id e = 0" "ex_status e = RUNNING"
    by (auto simp: list_ex_iff)
  have "\<exists>e' \<in> set (experiments (serve_labs test_platform (test_history @ [(test_tx 3, Assign 0 ''ann''), (test_tx 4, Stop 0)]) empty_lab)).
    later_row e e' \<and> ex_status e' \<noteq> ARCHIVED
    \<and> (ex_status e \<noteq> DRAFT \<longrightarrow>
         variants_of (ex_id e) (serve_labs test_platform (test_history @ [(test_tx 3, Assign 0 ''ann''), (test_tx 4, Stop 0)]) empty_lab)
          = variants_of (ex_id e) (serve_labs test_platform test_history empty_lab))"
    by (rule started_experiment_frozen [OF _ _ e(1)]) (simp_all add: test_history_def)
  with e show ?thesis by blast
qed

definition single_history :: "(nat transaction \<times> nat lab_request) list" where
  "single_history = [(test_tx 1, Create (test_create [test_variant ''old'' True]))]"

definition ann :: "nat assignment" where
  "ann = \<lparr>as_id = 2, as_experiment = 0, as_variant = 1, as_subject = ''ann''\<rparr>"

text \<open>The table after the first request, and the assignment to its only variant.\<close>

lemma single_history_lab:
  "serve_labs test_platform single_history empty_lab =
     \<lparr>experiments = [(draft_row 0 (test_create [test_variant ''old'' True]) 1)\<lparr>control_variant_key := Some ''old''\<rparr>],
      variants = [\<lparr>va_id = 1, va_experiment = 0, va_key = ''old'', va_label = ''old'', va_parameters = [],
                   is_control = True, va_created = 1\<rparr>],
      assignments = [], observations = [], reports = [], uuids_drawn = 2, clock_reads = 0\<rparr>"
  by code_simp

lemma single_assign:
  "\<exists>db. assign test_platform (test_tx 2) 0 ''ann'' (serve_labs test_platform single_history empty_lab) = (Inr (ann, ''old''), db)"
  unfolding single_history_lab
  by (simp add: assign_def bindA_def get_experiment_def get_assignment_def single_def readA_def retA_def
      list_variants_def test_tx_def assign_variant_def create_assignment_def draw_uuid_def test_platform_def
      ann_def draft_row_def Let_def)

theorem assignment_sticky_witness:
  "\<exists>db. assign test_platform (test_tx 9) 0 ''ann'' (serve_labs test_platform [(test_tx 3, Start 0), (test_tx 4, Stop 0)] db)
     = (Inr (ann, ''old''), serve_labs test_platform [(test_tx 3, Start 0), (test_tx 4, Stop 0)] db)"
proof -
  obtain db where a: "assign test_platform (test_tx 2) 0 ''ann'' (serve_labs test_platform single_history empty_lab)
      = (Inr (ann, ''old''), db)"
    using single_assign by blast
  have "\<forall>q \<in> set (single_history @ [(test_tx 3, Start 0), (test_tx 4, Stop 0)]). lawful_transaction (fst q)"
    by (simp add: single_history_def)
  from assignment_sticky [OF test_platform_inj this test_tx_lawful test_tx_lawful _ a, of 9]
  show ?thesis by (auto simp: valid_subject_def)
qed

theorem split_depends_on_row_order_witness:
  "\<exists>E E' a k db1 a' k' db1'. lawful_transaction E \<and> lawful_transaction E'
    \<and> assign test_platform E 0 ''ann'' (serve_labs test_platform test_history empty_lab) = (Inr (a, k), db1)
    \<and> assign test_platform E' 0 ''ann'' (serve_labs test_platform test_history empty_lab) = (Inr (a', k'), db1')
    \<and> as_variant a \<noteq> as_variant a'"
proof -
  let ?db = "serve_labs test_platform test_history empty_lab"
  have "map_option ex_status (find (\<lambda>x. ex_id x = 0) (experiments ?db)) = Some RUNNING" by code_simp
  then have "\<exists>e. find (\<lambda>x. ex_id x = 0) (experiments ?db) = Some e \<and> ex_status e \<noteq> ARCHIVED" by auto
  then obtain e where e: "find (\<lambda>x. ex_id x = 0) (experiments ?db) = Some e" "ex_status e \<noteq> ARCHIVED" by blast
  show ?thesis
  proof (rule split_depends_on_row_order [OF e])
    have "assignments ?db = []" by code_simp
    then show "\<forall>a \<in> set (assignments ?db). \<not> (as_experiment a = 0 \<and> as_subject a = ''ann'')" by simp
    show "2 \<le> length (variants_of 0 ?db)" "distinct (map va_id (variants_of 0 ?db))" by code_simp+
    have "list_all (\<lambda>x. va_created x = 1) (variants_of 0 ?db)" by code_simp
    then show "\<forall>x \<in> set (variants_of 0 ?db). va_created x = 1" by (simp add: list_all_iff)
  qed
qed

text \<open>Two labelled observations: the control's prediction is wrong, the variant's is right.\<close>

definition f1_lab :: "nat lab" where
  "f1_lab =
     \<lparr>experiments = [(draft_row 0 (test_create []) 1)\<lparr>ex_status := RUNNING, ex_metric := F1, control_variant_key := Some ''old''\<rparr>],
      variants = [\<lparr>va_id = 1, va_experiment = 0, va_key = ''old'', va_label = ''old'', va_parameters = [],
                   is_control = True, va_created = 1\<rparr>,
                  \<lparr>va_id = 2, va_experiment = 0, va_key = ''new'', va_label = ''new'', va_parameters = [],
                   is_control = False, va_created = 1\<rparr>],
      assignments = [],
      observations =
        [\<lparr>ob_id = 3, ob_experiment = 0, ob_variant = 1, ob_subject = ''ann'', outcome = False, ob_profit = None,
          ob_roi = None, ob_value = None, predicted = Some True, ground_truth = Some False, recorded_at = 5\<rparr>,
         \<lparr>ob_id = 4, ob_experiment = 0, ob_variant = 2, ob_subject = ''bob'', outcome = False, ob_profit = None,
          ob_roi = None, ob_value = None, predicted = Some True, ground_truth = Some True, recorded_at = 5\<rparr>],
      reports = [], uuids_drawn = 5, clock_reads = 0\<rparr>"

lemma f1_stats:
  "\<exists>old new. fst (load_stats test_platform (test_tx 9) ((draft_row 0 (test_create []) 1)\<lparr>ex_status := RUNNING,
      ex_metric := F1, control_variant_key := Some ''old''\<rparr>) f1_lab) = [(''old'', old), (''new'', new)]
    \<and> f1_of old = 0 \<and> f1_of new = 1"
  by (simp add: load_stats_def f1_lab_def list_observations_def test_tx_def variant_keys_def list_variants_def
      draft_row_def view_of_def variant_stats_def group_views_def group_step_def variant_entry_of_def Let_def
      present_def confusion_metrics_def f1_of_def ratio_def round_float_def)

theorem f1_winner_blocks_stop_witness:
  "\<exists>err \<in> {Builtin TypeError, MultipleResultsFound}.
    in_transaction (handle_lab test_platform (test_tx 9) (Stop 0)) f1_lab = (Inl err, f1_lab\<lparr>clock_reads := 1\<rparr>)"
proof -
  let ?e = "(draft_row 0 (test_create []) 1)\<lparr>ex_status := RUNNING, ex_metric := F1, control_variant_key := Some ''old''\<rparr> :: nat lab_experiment"
  obtain old new where st: "fst (load_stats test_platform (test_tx 9) ?e f1_lab) = [(''old'', old), (''new'', new)]"
    "f1_of old = 0" "f1_of new = 1"
    using f1_stats by blast
  have "\<exists>err \<in> {Builtin TypeError, MultipleResultsFound}.
    in_transaction (handle_lab test_platform (test_tx 9) (Stop 0)) f1_lab
      = (Inl err, f1_lab\<lparr>clock_reads := Suc (clock_reads f1_lab)\<rparr>)"
  proof (rule f1_winner_blocks_stop)
    show "find (\<lambda>x. ex_id x = 0) (experiments f1_lab) = Some ?e" by (simp add: f1_lab_def draft_row_def)
    show "[(''old'', old), (''new'', new)] = fst (load_stats test_platform (test_tx 9) ?e f1_lab)" using st(1) by (rule sym)
    show "map_of [(''old'', old), (''new'', new)] ''old'' = Some old"
      "map_of [(''old'', old), (''new'', new)] ''new'' = Some new" by simp_all
    show "f1_of old < f1_of new" using st(2,3) by simp
  qed simp_all
  then show ?thesis by (simp add: f1_lab_def)
qed

definition two_views :: "obs_view list" where
  "two_views = map (view_of (map_of [(1, ''old''), (2, ''new'')])) (observations f1_lab)"

lemma two_views_stats:
  "\<exists>old new. variant_stats plain_libm two_views = [(''old'', old), (''new'', new)] \<and> f1_of old = 0 \<and> f1_of new = 1"
  by (simp add: two_views_def f1_lab_def view_of_def variant_stats_def group_views_def group_step_def
      variant_entry_of_def Let_def present_def confusion_metrics_def f1_of_def ratio_def round_float_def)

theorem winner_is_best_significant_witness:
  "\<exists>old new. variant_stats plain_libm two_views = [(''old'', old), (''new'', new)]
    \<and> winner_key (determine_winner plain_libm (variant_stats plain_libm two_views) (Some ''old'') (1 / 20) F1) = Some ''new''
    \<and> score_of F1 old < score_of F1 new"
proof -
  obtain old new where st: "variant_stats plain_libm two_views = [(''old'', old), (''new'', new)]" "f1_of old = 0" "f1_of new = 1"
    using two_views_stats by blast
  have w: "winner_key (determine_winner plain_libm (variant_stats plain_libm two_views) (Some ''old'') (1 / 20) F1) = Some ''new''"
    using st(2,3) unfolding st(1)
    by (simp add: determine_winner_def comparisons_of_def Let_def winner_result_of_def first_max_def)
  from winner_is_best_significant [where L = plain_libm and vs = two_views and control_key = "Some ''old''" and alpha = "1 / 20" and metric = F1] w st show ?thesis by auto
qed

end
