(* ===== verification/FinanceEngine.thy ===== *)
theory FinanceEngine
  imports Floats
begin

text \<open>
  The mathematics of the finance engine (\<open>app/finance/engine.py\<close>, \<open>config.py\<close>): how many units to
  buy, when to reorder, and how a budget is split among opportunities. Python's \<open>x ** 0.5\<close> is an
  argument, \<open>pw\<close>, as the C library computes it.
\<close>

section \<open>Settings and opportunities\<close>

record finance_config =
  finance_enabled :: bool
  finance_currency :: string
  starting_cash :: rat
  credit_card_limit :: rat
  billing_cycle_days :: int
  grace_period_days :: int
  cashback_rate :: rat
  reward_points_value :: rat
  points_per_dollar :: rat
  holding_cost_rate :: rat
  default_order_cost :: rat
  service_level_z :: rat
  max_units_per_order :: int
  allocation_policy :: string
  investable_fraction :: rat
  min_cash_reserve :: rat
  max_opportunities :: int

record opportunity =
  op_entity_type :: string
  op_entity_id :: string
  op_unit_cost :: rat
  op_unit_price :: "rat option"
  expected_demand :: rat
  demand_period :: string
  lead_time_days :: rat
  op_order_cost :: "rat option"
  current_stock :: rat
  demand_std :: rat
  op_expected_profit :: "rat option"
  op_payback_days :: "rat option"
  op_risk :: rat
  max_units :: "int option"

text \<open>The field constraints of \<open>OpportunityInput\<close>.\<close>

definition positive_if_given :: "'a::{zero,ord} option \<Rightarrow> bool" where
  "positive_if_given x = (case x of None \<Rightarrow> True | Some v \<Rightarrow> 0 < v)"

definition valid_opportunity :: "opportunity \<Rightarrow> bool" where
  "valid_opportunity q \<longleftrightarrow>
     op_entity_type q \<noteq> [] \<and> op_entity_id q \<noteq> [] \<and> 0 < op_unit_cost q
     \<and> positive_if_given (op_unit_price q) \<and> 0 \<le> expected_demand q
     \<and> demand_period q \<in> {''day'', ''week'', ''month'', ''year''} \<and> 0 \<le> lead_time_days q
     \<and> positive_if_given (op_order_cost q) \<and> 0 \<le> current_stock q \<and> 0 \<le> demand_std q
     \<and> positive_if_given (op_payback_days q) \<and> 0 \<le> op_risk q \<and> op_risk q \<le> 1
     \<and> positive_if_given (max_units q)"

section \<open>Demand, stock and order quantity\<close>

definition periods_per_day :: "string \<Rightarrow> rat option" where
  "periods_per_day = map_of
     [(''day'', 1), (''week'', fdiv 1 7), (''month'', fdiv 1 30), (''year'', fdiv 1 365)]"

definition period_factor :: "string option \<Rightarrow> rat" where
  "period_factor p =
     (let name = (case p of None \<Rightarrow> ''day'' | Some s \<Rightarrow> if s = [] then ''day'' else s) in
      case periods_per_day (lower name) of None \<Rightarrow> 1 | Some f \<Rightarrow> f)"

definition daily_demand :: "rat \<Rightarrow> string option \<Rightarrow> rat" where
  "daily_demand d p = fmul d (period_factor p)"

definition daily_std :: "(rat \<Rightarrow> rat) \<Rightarrow> rat \<Rightarrow> string option \<Rightarrow> rat" where
  "daily_std pw s p =
     (let f = period_factor p; days = (if f \<noteq> 0 then fdiv 1 f else 1) in
      if days \<le> 1 then s else fdiv s (pw days))"

definition safety_stock :: "(rat \<Rightarrow> rat) \<Rightarrow> rat \<Rightarrow> rat \<Rightarrow> rat \<Rightarrow> rat" where
  "safety_stock pw z s lead = fmul (fmul z s) (pw (max lead 0))"

definition reorder_point :: "rat \<Rightarrow> rat \<Rightarrow> rat \<Rightarrow> rat" where
  "reorder_point d lead safety = fadd (fmul d lead) safety"

text \<open>
  A negative number to the power of a half is complex, which the conversion to an integer that
  follows refuses.
\<close>

definition economic_order_qty :: "(rat \<Rightarrow> rat) \<Rightarrow> rat \<Rightarrow> rat \<Rightarrow> rat \<Rightarrow> rat \<Rightarrow> rat py" where
  "economic_order_qty pw d c order_cost rate =
     (let annual = fmul d 365; holding = fmul c rate in
      if annual \<le> 0 \<or> holding \<le> 0 then Inr 0
      else let x = fdiv (fmul (fmul 2 annual) order_cost) holding in
        if x < 0 then Inl TypeError else Inr (pw x))"

text \<open>
  \<open>x // y\<close> of floats, \<open>0 < y\<close>: the exact remainder is subtracted, the quotient rounded, and its
  floor corrected.
\<close>

definition float_floordiv :: "rat \<Rightarrow> rat \<Rightarrow> rat" where
  "float_floordiv x y =
     (let m = x - of_int \<lfloor>x / y\<rfloor> * y; q = fdiv (fsub x m) y; f = of_int \<lfloor>q\<rfloor> in
      if 1 / 2 < fsub q f then fadd f 1 else f)"

section \<open>The recommendation for one opportunity\<close>

record deal_evaluation =
  ev_entity_type :: string
  ev_entity_id :: string
  ev_unit_cost :: rat
  recommended_order_qty :: int
  capital_required :: rat
  ev_reorder_point :: rat
  ev_safety_stock :: rat
  days_until_reorder :: rat
  buy_now :: bool
  best_day_to_buy :: int
  capital_efficiency :: rat
  ev_expected_profit :: rat
  holding_cost :: rat
  ev_payback_days :: rat
  ev_risk :: rat
  ev_reasoning :: fstring

definition cap_units :: "finance_config \<Rightarrow> opportunity \<Rightarrow> rat option \<Rightarrow> int" where
  "cap_units c q budget =
     (let affordable =
        (if 0 < op_unit_cost q then
           (case budget of
              None \<Rightarrow> max_units_per_order c
            | Some b \<Rightarrow> if 0 < b then trunc (float_floordiv b (op_unit_cost q)) else 0)
         else 0);
        cap = min affordable (max_units_per_order c) in
      case max_units q of None \<Rightarrow> cap | Some m \<Rightarrow> min cap m)"

definition opportunity_reasoning ::
  "bool \<Rightarrow> rat \<Rightarrow> rat \<Rightarrow> int \<Rightarrow> rat \<Rightarrow> rat \<Rightarrow> rat \<Rightarrow> rat \<Rightarrow> fstring" where
  "opportunity_reasoning now rop stock qty efficiency profit payback risk =
     [Lit (if now then ''Order now: stock is at/below the reorder point.''
           else ''Stock is above the reorder point; no immediate order required.''),
      Lit '' Reorder point '', Fix 1 rop, Lit '', current stock '', Fix 1 stock,
      Lit ''. Recommended order quantity '', Num (of_int qty), Lit '' units. Capital efficiency '',
      Fix 4 efficiency, Lit '' ($ return per $ per day, risk-adjusted '', Fix 2 risk,
      Lit ''), expected profit $'', Fix 2 profit, Lit '', payback ~'', Fix 1 payback, Lit '' days.'']"

definition order_quantity :: "rat \<Rightarrow> rat \<Rightarrow> rat \<Rightarrow> int \<Rightarrow> int" where
  "order_quantity rop eoq stock cap =
     (let suggested = (if stock \<le> rop then fsub (fadd rop eoq) stock else eoq) in
      max 0 (min (trunc suggested) cap))"

text \<open>The figures that follow from the quantity.\<close>

definition evaluation_of ::
  "finance_config \<Rightarrow> opportunity \<Rightarrow> rat \<Rightarrow> rat \<Rightarrow> rat \<Rightarrow> int \<Rightarrow> deal_evaluation" where
  "evaluation_of c q d safety rop qty =
     (let cost = op_unit_cost q; n = fl (of_int qty);
          capital = fmul n cost;
          margin = (case op_unit_price q of None \<Rightarrow> 0 | Some p \<Rightarrow> fsub p cost);
          profit = (case op_expected_profit q of None \<Rightarrow> fmul margin n | Some p \<Rightarrow> p);
          days_to_sell = (if 0 < d then fdiv n d else 0);
          payback = (case op_payback_days q of None \<Rightarrow> fadd (lead_time_days q) days_to_sell | Some p \<Rightarrow> p);
          holding = fmul (fmul (fmul (fdiv n 2) cost) (holding_cost_rate c)) (fdiv payback 365);
          efficiency =
            (if 0 < capital \<and> 0 < payback
             then fmul (fdiv (fdiv profit capital) payback) (fsub 1 (op_risk q)) else 0);
          until = (if 0 < d then max 0 (fdiv (fsub (current_stock q) rop) d) else 0);
          now = current_stock q \<le> rop in
      \<lparr>ev_entity_type = op_entity_type q, ev_entity_id = op_entity_id q, ev_unit_cost = cost,
       recommended_order_qty = qty, capital_required = capital,
       ev_reorder_point = round_float 2 rop, ev_safety_stock = round_float 2 safety,
       days_until_reorder = round_float 1 until, buy_now = now, best_day_to_buy = 1,
       capital_efficiency = round_float 6 efficiency, ev_expected_profit = round_float 2 profit,
       holding_cost = round_float 2 holding, ev_payback_days = round_float 1 payback,
       ev_risk = op_risk q,
       ev_reasoning = opportunity_reasoning now rop (current_stock q) qty efficiency profit payback (op_risk q)\<rparr>)"

definition evaluate_opportunity ::
  "(rat \<Rightarrow> rat) \<Rightarrow> finance_config \<Rightarrow> rat option \<Rightarrow> opportunity \<Rightarrow> deal_evaluation py" where
  "evaluate_opportunity pw c budget q =
     (let d = daily_demand (expected_demand q) (Some (demand_period q));
          safety = safety_stock pw (service_level_z c)
                     (daily_std pw (demand_std q) (Some (demand_period q))) (lead_time_days q);
          rop = reorder_point d (lead_time_days q) safety;
          cost = (case op_order_cost q of None \<Rightarrow> default_order_cost c | Some x \<Rightarrow> x) in
      bindR (economic_order_qty pw d (op_unit_cost q) cost (holding_cost_rate c)) (\<lambda>eoq.
        Inr (evaluation_of c q d safety rop (order_quantity rop eoq (current_stock q) (cap_units c q budget)))))"

section \<open>The allocation of a budget\<close>

definition rank_opportunities :: "string \<Rightarrow> deal_evaluation list \<Rightarrow> deal_evaluation list" where
  "rank_opportunities policy es =
     (if policy = ''equal'' then es
      else if policy = ''conservative'' then
        sort_desc (\<lambda>e. fmul (capital_efficiency e) (fsub 1 (ev_risk e))) es
      else sort_desc capital_efficiency es)"

text \<open>What each opportunity gets of what remains; \<open>share\<close> is the equal share, if there is one.\<close>

fun fund_loop :: "rat option \<Rightarrow> rat \<Rightarrow> deal_evaluation list \<Rightarrow> (deal_evaluation \<times> rat) list" where
  "fund_loop share remaining [] = []"
| "fund_loop share remaining (e # es) =
     (let offer = (case share of None \<Rightarrow> min (capital_required e) remaining
                   | Some s \<Rightarrow> min (min (capital_required e) s) remaining);
          alloc = max 0 offer in
      (e, alloc) # fund_loop share (fsub remaining alloc) es)"

record allocation =
  al_entity_type :: string
  al_entity_id :: string
  allocated :: rat
  al_units :: rat
  al_fraction :: rat
  al_efficiency :: rat
  expected_return :: rat
  al_risk :: rat
  al_qty :: int

definition allocation_of :: "rat \<Rightarrow> deal_evaluation \<times> rat \<Rightarrow> allocation" where
  "allocation_of budget = (\<lambda>(e, alloc).
     let units = (if 0 < ev_unit_cost e then fdiv alloc (ev_unit_cost e) else 0);
         margin = (if 0 < capital_required e then fdiv (ev_expected_profit e) (capital_required e) else 0) in
     \<lparr>al_entity_type = ev_entity_type e, al_entity_id = ev_entity_id e,
      allocated = round_float 2 alloc, al_units = round_float 2 units,
      al_fraction = (if budget \<noteq> 0 then round_float 4 (fdiv alloc budget) else 0),
      al_efficiency = capital_efficiency e, expected_return = round_float 2 (fmul alloc margin),
      al_risk = ev_risk e, al_qty = recommended_order_qty e\<rparr>)"

record allocation_result =
  ar_allocations :: "allocation list"
  total_allocated :: rat
  expected_total_return :: rat
  ar_policy :: string
  reserved :: rat

definition funded :: "string \<Rightarrow> rat \<Rightarrow> deal_evaluation list \<Rightarrow> (deal_evaluation \<times> rat) list" where
  "funded policy budget es =
     (let ranked = rank_opportunities policy es; n = length ranked in
      fund_loop (if policy = ''equal'' \<and> n \<noteq> 0 then Some (fdiv budget (of_nat n)) else None) budget ranked)"

definition allocate_opportunities ::
  "(rat \<Rightarrow> rat) \<Rightarrow> finance_config \<Rightarrow> rat \<Rightarrow> string option \<Rightarrow> opportunity list \<Rightarrow> allocation_result py" where
  "allocate_opportunities pw c budget policy items =
     bindR (mapR (evaluate_opportunity pw c (Some budget)) items) (\<lambda>es.
       let p = (case policy of None \<Rightarrow> allocation_policy c | Some s \<Rightarrow> if s = [] then allocation_policy c else s);
           as = map (allocation_of budget) (funded p budget es);
           total = float_sum (map allocated as) in
       Inr \<lparr>ar_allocations = as, total_allocated = round_float 2 total,
            expected_total_return = round_float 2 (float_sum (map expected_return as)),
            ar_policy = p, reserved = round_float 2 (fsub budget total)\<rparr>)"

end
