(* ===== verification/FinanceManager.thy ===== *)
theory FinanceManager
  imports FinanceEngine StateMachine "HOL-Library.List_Lexorder" "HOL-Library.Char_ord"
begin

text \<open>
  The finance service (\<open>app/finance/manager.py\<close>, \<open>repository.py\<close>, \<open>models.py\<close>, \<open>schemas.py\<close>): the
  cash ledger and the stored allocations, the cash position derived from the ledger, and the
  requests. Ids are drawn by \<open>fin_fresh\<close>, the clock's readings are \<open>fin_wall\<close>; what the database
  computes is the record \<open>ledger_query\<close>.
\<close>

section \<open>Rows\<close>

datatype transaction_type = INFLOW | OUTFLOW

datatype transaction_category =
    PAYOUT | PURCHASE | COMMITMENT | CASHBACK | EXPENSE | STORAGE | REFUND | OTHER

datatype allocation_rule = EFFICIENCY | EQUAL | CONSERVATIVE

fun transaction_type_value :: "transaction_type \<Rightarrow> string" where
  "transaction_type_value INFLOW = ''inflow''"
| "transaction_type_value OUTFLOW = ''outflow''"

fun category_value :: "transaction_category \<Rightarrow> string" where
  "category_value PAYOUT = ''payout''"
| "category_value PURCHASE = ''purchase''"
| "category_value COMMITMENT = ''commitment''"
| "category_value CASHBACK = ''cashback''"
| "category_value EXPENSE = ''expense''"
| "category_value STORAGE = ''storage''"
| "category_value REFUND = ''refund''"
| "category_value OTHER = ''other''"

fun rule_value :: "allocation_rule \<Rightarrow> string" where
  "rule_value EFFICIENCY = ''efficiency''"
| "rule_value EQUAL = ''equal''"
| "rule_value CONSERVATIVE = ''conservative''"

record 'i cash_transaction =
  ct_id :: 'i
  ct_type :: string
  ct_category :: string
  ct_amount :: rat
  ct_description :: "string option"
  ct_entity_type :: "string option"
  ct_entity_id :: "string option"
  occurred_at :: "int option"
  ct_created :: int

record 'i capital_allocation =
  ca_id :: 'i
  ca_entity_type :: string
  ca_entity_id :: string
  ca_amount :: rat
  ca_units :: rat
  ca_return :: rat
  ca_efficiency :: rat
  ca_risk :: rat
  ca_policy :: string
  decided_at :: int
  ca_notes :: fstring

record 'i books =
  ledger :: "'i cash_transaction list"
  capital_allocations :: "'i capital_allocation list"
  fin_ids :: nat
  fin_reads :: nat

datatype finance_error = FinanceValidationError | FinanceBuiltin py_error

type_synonym ('i, 'a) fin_act = "('i books, finance_error, 'a) act"

record 'i finance_service =
  fin_fresh :: "nat \<Rightarrow> 'i"
  fin_wall :: "nat \<Rightarrow> int"
  pow_half :: "rat \<Rightarrow> rat"
  fin_config :: finance_config

text \<open>
  A transaction of the database: its start, the order of the two listings, and \<open>SUM\<close> of a column
  of floats.
\<close>

record 'i ledger_query =
  fin_start :: int
  order_ledger :: "'i cash_transaction list \<Rightarrow> 'i cash_transaction list"
  order_allocations :: "'i capital_allocation list \<Rightarrow> 'i capital_allocation list"
  sum_column :: "rat list \<Rightarrow> rat"

definition fin_draw :: "'i finance_service \<Rightarrow> ('i, 'i) fin_act" where
  "fin_draw F db = (Inr (fin_fresh F (fin_ids db)), db\<lparr>fin_ids := Suc (fin_ids db)\<rparr>)"

definition fin_now :: "'i finance_service \<Rightarrow> ('i, int) fin_act" where
  "fin_now F db = (Inr (fin_wall F (fin_reads db)), db\<lparr>fin_reads := Suc (fin_reads db)\<rparr>)"

definition fin_lift :: "'a py \<Rightarrow> ('i, 'a) fin_act" where
  "fin_lift m = (case m of Inl e \<Rightarrow> failA (FinanceBuiltin e) | Inr x \<Rightarrow> retA x)"

section \<open>The repository\<close>

record transaction_create =
  tc_type :: transaction_type
  tc_category :: transaction_category
  tc_amount :: rat
  tc_description :: "string option"
  tc_entity_type :: "string option"
  tc_entity_id :: "string option"
  tc_occurred_at :: "int option"

definition transaction_row :: "transaction_create \<Rightarrow> int \<Rightarrow> 'i \<Rightarrow> 'i cash_transaction" where
  "transaction_row r t i =
     \<lparr>ct_id = i, ct_type = transaction_type_value (tc_type r), ct_category = category_value (tc_category r),
      ct_amount = tc_amount r, ct_description = tc_description r, ct_entity_type = tc_entity_type r,
      ct_entity_id = tc_entity_id r, occurred_at = tc_occurred_at r, ct_created = t\<rparr>"

definition create_transaction ::
  "'i finance_service \<Rightarrow> 'i ledger_query \<Rightarrow> transaction_create \<Rightarrow> ('i, 'i cash_transaction) fin_act" where
  "create_transaction F Q r =
     bindA (fin_draw F) (\<lambda>i db.
       let row = transaction_row r (fin_start Q) i in (Inr row, db\<lparr>ledger := ledger db @ [row]\<rparr>))"

definition wanted :: "string option \<Rightarrow> string option \<Rightarrow> bool" where
  "wanted filter_value x = (case filter_value of None \<Rightarrow> True | Some v \<Rightarrow> v = [] \<or> x = Some v)"

definition list_transactions ::
  "'i ledger_query \<Rightarrow> string option \<Rightarrow> string option \<Rightarrow> string option \<Rightarrow> nat \<Rightarrow> nat \<Rightarrow> 'i books
   \<Rightarrow> 'i cash_transaction list \<times> nat" where
  "list_transactions Q category ty entity limit offset db =
     (let rows = filter (\<lambda>x. wanted category (Some (ct_category x)) \<and> wanted ty (Some (ct_type x))
                           \<and> wanted entity (ct_entity_id x)) (ledger db) in
      (take limit (drop offset (order_ledger Q rows)), length rows))"

definition sum_by_type :: "'i ledger_query \<Rightarrow> string \<Rightarrow> 'i books \<Rightarrow> rat" where
  "sum_by_type Q ty db = sum_column Q (map ct_amount (filter (\<lambda>x. ct_type x = ty) (ledger db)))"

definition cash_balance :: "'i ledger_query \<Rightarrow> rat \<Rightarrow> 'i books \<Rightarrow> rat" where
  "cash_balance Q start db = fsub (fadd start (sum_by_type Q ''inflow'' db)) (sum_by_type Q ''outflow'' db)"

definition sum_outflows_by_category :: "'i ledger_query \<Rightarrow> string \<Rightarrow> 'i books \<Rightarrow> rat" where
  "sum_outflows_by_category Q category db =
     sum_column Q (map ct_amount (filter (\<lambda>x. ct_type x = ''outflow'' \<and> ct_category x = category) (ledger db)))"

definition allocation_row :: "allocation \<Rightarrow> string \<Rightarrow> int \<Rightarrow> 'i \<Rightarrow> 'i capital_allocation" where
  "allocation_row a policy now i =
     \<lparr>ca_id = i, ca_entity_type = al_entity_type a, ca_entity_id = al_entity_id a,
      ca_amount = allocated a, ca_units = al_units a, ca_return = expected_return a,
      ca_efficiency = al_efficiency a, ca_risk = al_risk a, ca_policy = policy, decided_at = now,
      ca_notes = [Lit ''Allocated '', Num (allocated a), Lit '' ('', Txt policy, Lit '' policy)'']\<rparr>"

definition create_allocation ::
  "'i finance_service \<Rightarrow> string \<Rightarrow> int \<Rightarrow> allocation \<Rightarrow> ('i, 'i capital_allocation) fin_act" where
  "create_allocation F policy now a =
     bindA (fin_draw F) (\<lambda>i db.
       let row = allocation_row a policy now i in
       (Inr row, db\<lparr>capital_allocations := capital_allocations db @ [row]\<rparr>))"

definition list_allocations ::
  "'i ledger_query \<Rightarrow> string option \<Rightarrow> nat \<Rightarrow> nat \<Rightarrow> 'i books \<Rightarrow> 'i capital_allocation list \<times> nat" where
  "list_allocations Q entity limit offset db =
     (let rows = filter (\<lambda>x. wanted entity (Some (ca_entity_id x))) (capital_allocations db) in
      (take limit (drop offset (order_allocations Q rows)), length rows))"

record ledger_stats =
  total_transactions :: nat
  by_category :: "(string \<times> nat) list"
  total_allocations :: nat

text \<open>The groups in the order of their names.\<close>

definition finance_stats :: "'i books \<Rightarrow> ledger_stats" where
  "finance_stats db =
     \<lparr>total_transactions = length (ledger db),
      by_category = map (\<lambda>c. (c, length (filter (\<lambda>x. ct_category x = c) (ledger db))))
                      (sort (remdups (map ct_category (ledger db)))),
      total_allocations = length (capital_allocations db)\<rparr>"

section \<open>The cash position\<close>

record cash_position =
  available_cash :: rat
  inventory_value :: rat
  expected_payouts :: rat
  purchase_commitments :: rat
  cp_credit_card_limit :: rat
  outstanding_credit :: rat
  available_credit :: rat
  projected_cashback :: rat
  reward_points :: rat
  cp_reward_points_value :: rat
  storage_cost_per_period :: rat
  net_liquidity :: rat
  usable_capital :: rat

definition signal :: "(string \<times> rat) list \<Rightarrow> string \<Rightarrow> rat \<Rightarrow> rat" where
  "signal s k d = (case map_of s k of None \<Rightarrow> d | Some v \<Rightarrow> v)"

definition cash_position_of ::
  "finance_config \<Rightarrow> 'i ledger_query \<Rightarrow> (string \<times> rat) list \<Rightarrow> 'i books \<Rightarrow> cash_position" where
  "cash_position_of c Q s db =
     (let cash = signal s ''available_cash'' (cash_balance Q (starting_cash c) db);
          inventory = signal s ''inventory_value'' 0;
          payouts = signal s ''expected_payouts'' 0;
          commitments = signal s ''purchase_commitments'' (sum_outflows_by_category Q ''commitment'' db);
          owed = signal s ''outstanding_credit'' 0;
          points = signal s ''reward_points'' 0;
          credit = max 0 (fsub (credit_card_limit c) owed);
          cashback = signal s ''projected_cashback'' (fmul (cashback_rate c) 0);
          points_value = fmul points (reward_points_value c);
          storage = fmul (fdiv (fmul inventory (holding_cost_rate c)) 365) 30;
          net = fsub (fadd (fadd (fadd cash payouts) credit) cashback) commitments;
          usable = max 0 (fsub (fmul net (investable_fraction c)) (min_cash_reserve c)) in
      \<lparr>available_cash = round_float 2 cash, inventory_value = round_float 2 inventory,
       expected_payouts = round_float 2 payouts, purchase_commitments = round_float 2 commitments,
       cp_credit_card_limit = credit_card_limit c, outstanding_credit = round_float 2 owed,
       available_credit = round_float 2 credit, projected_cashback = round_float 2 cashback,
       reward_points = round_float 2 points, cp_reward_points_value = round_float 2 points_value,
       storage_cost_per_period = round_float 2 storage, net_liquidity = round_float 2 net,
       usable_capital = round_float 2 usable\<rparr>)"

definition usable_budget :: "'i finance_service \<Rightarrow> 'i ledger_query \<Rightarrow> 'i books \<Rightarrow> rat option" where
  "usable_budget F Q db = Some (usable_capital (cash_position_of (fin_config F) Q [] db))"

section \<open>Requests\<close>

definition record_transaction ::
  "'i finance_service \<Rightarrow> 'i ledger_query \<Rightarrow> transaction_create \<Rightarrow> ('i, 'i cash_transaction) fin_act" where
  "record_transaction F Q r = create_transaction F Q r"

definition evaluate_one ::
  "'i finance_service \<Rightarrow> 'i ledger_query \<Rightarrow> opportunity \<Rightarrow> ('i, deal_evaluation) fin_act" where
  "evaluate_one F Q q =
     bindA (readA (usable_budget F Q)) (\<lambda>budget.
     fin_lift (evaluate_opportunity (pow_half F) (fin_config F) budget q))"

definition evaluate_many ::
  "'i finance_service \<Rightarrow> 'i ledger_query \<Rightarrow> opportunity list \<Rightarrow> ('i, deal_evaluation list) fin_act" where
  "evaluate_many F Q qs =
     (if max_opportunities (fin_config F) < int (length qs) then failA FinanceValidationError
      else bindA (readA (usable_budget F Q)) (\<lambda>budget.
        fin_lift (mapR (evaluate_opportunity (pow_half F) (fin_config F) budget) qs)))"

fun create_allocations ::
  "'i finance_service \<Rightarrow> string \<Rightarrow> int \<Rightarrow> allocation list \<Rightarrow> ('i, unit) fin_act" where
  "create_allocations F policy now [] = retA ()"
| "create_allocations F policy now (a # as) =
     bindA (create_allocation F policy now a) (\<lambda>_. create_allocations F policy now as)"

record allocation_request =
  rq_budget :: "rat option"
  rq_policy :: "allocation_rule option"
  rq_opportunities :: "opportunity list"

record allocation_answer =
  an_budget :: rat
  an_total :: rat
  an_return :: rat
  an_policy :: string
  an_reserved :: rat
  an_allocations :: "allocation list"

definition allocate ::
  "'i finance_service \<Rightarrow> 'i ledger_query \<Rightarrow> allocation_request \<Rightarrow> ('i, allocation_answer) fin_act" where
  "allocate F Q r =
     (if max_opportunities (fin_config F) < int (length (rq_opportunities r)) then failA FinanceValidationError
      else bindA (readA (\<lambda>db. case rq_budget r of None \<Rightarrow> the (usable_budget F Q db) | Some b \<Rightarrow> b)) (\<lambda>budget.
        let policy = (case rq_policy r of None \<Rightarrow> allocation_policy (fin_config F) | Some p \<Rightarrow> rule_value p) in
        bindA (fin_lift (allocate_opportunities (pow_half F) (fin_config F) budget (Some policy)
                 (rq_opportunities r))) (\<lambda>res.
        bindA (fin_now F) (\<lambda>now.
        bindA (create_allocations F policy now (ar_allocations res)) (\<lambda>_.
        retA \<lparr>an_budget = round_float 2 budget, an_total = total_allocated res,
              an_return = expected_total_return res, an_policy = ar_policy res,
              an_reserved = reserved res, an_allocations = ar_allocations res\<rparr>)))))"

record reorder_recommendation =
  rr_entity_type :: string
  rr_entity_id :: string
  rr_reorder_point :: rat
  rr_safety_stock :: rat
  rr_current_stock :: rat
  rr_daily_demand :: rat
  rr_days_until_reorder :: rat
  rr_buy_now :: bool
  suggested_qty :: int
  rr_best_day :: int
  rr_reasoning :: fstring

definition reorder ::
  "'i finance_service \<Rightarrow> 'i ledger_query \<Rightarrow> opportunity \<Rightarrow> ('i, reorder_recommendation) fin_act" where
  "reorder F Q q =
     bindA (readA (usable_budget F Q)) (\<lambda>budget.
     bindA (fin_lift (evaluate_opportunity (pow_half F) (fin_config F) budget q)) (\<lambda>e.
     retA \<lparr>rr_entity_type = op_entity_type q, rr_entity_id = op_entity_id q,
           rr_reorder_point = ev_reorder_point e, rr_safety_stock = ev_safety_stock e,
           rr_current_stock = current_stock q,
           rr_daily_demand = round_float 4 (daily_demand (expected_demand q) (Some (demand_period q))),
           rr_days_until_reorder = days_until_reorder e, rr_buy_now = buy_now e,
           suggested_qty = recommended_order_qty e, rr_best_day = best_day_to_buy e,
           rr_reasoning = ev_reasoning e\<rparr>))"

section \<open>Dashboard and report\<close>

record 'i finance_dashboard =
  db_generated_at :: int
  db_position :: cash_position
  recent_transactions :: "'i cash_transaction list"
  top_allocations :: "'i capital_allocation list"
  sm_transactions :: nat
  sm_allocations :: nat
  sm_net_liquidity :: rat
  sm_usable_capital :: rat
  reserve_ratio :: rat

definition dashboard ::
  "'i finance_service \<Rightarrow> 'i ledger_query \<Rightarrow> (string \<times> rat) list \<Rightarrow> ('i, 'i finance_dashboard) fin_act" where
  "dashboard F Q s =
     bindA (readA (cash_position_of (fin_config F) Q s)) (\<lambda>p.
     bindA (readA (\<lambda>db. fst (list_transactions Q None None None 10 0 db))) (\<lambda>txs.
     bindA (readA (\<lambda>db. fst (list_allocations Q None 10 0 db))) (\<lambda>als.
     bindA (readA finance_stats) (\<lambda>st.
     bindA (fin_now F) (\<lambda>now.
     retA \<lparr>db_generated_at = now, db_position = p, recent_transactions = txs, top_allocations = als,
           sm_transactions = total_transactions st, sm_allocations = length als,
           sm_net_liquidity = net_liquidity p, sm_usable_capital = usable_capital p,
           reserve_ratio = (if net_liquidity p \<noteq> 0
             then round_float 2 (fdiv (available_cash p) (net_liquidity p)) else 0)\<rparr>)))))"

definition cash_section :: "cash_position \<Rightarrow> string \<Rightarrow> fstring list" where
  "cash_section p currency =
     [[Lit ''## Cash position ('', Txt currency, Lit '')''],
      [Lit ''- Available cash: **'', GrpFix 2 (available_cash p), Lit ''**''],
      [Lit ''- Inventory value: '', GrpFix 2 (inventory_value p)],
      [Lit ''- Expected payouts: '', GrpFix 2 (expected_payouts p)],
      [Lit ''- Purchase commitments: '', GrpFix 2 (purchase_commitments p)],
      [Lit ''- Available credit: '', GrpFix 2 (available_credit p), Lit '' (limit '',
       GrpFix 2 (cp_credit_card_limit p), Lit '')''],
      [Lit ''- Projected cashback: '', GrpFix 2 (projected_cashback p)],
      [Lit ''- Reward points value: '', GrpFix 2 (cp_reward_points_value p)],
      [Lit ''- Storage cost (monthly): '', GrpFix 2 (storage_cost_per_period p)],
      [Lit ''- **Net liquidity: '', GrpFix 2 (net_liquidity p), Lit ''**''],
      [Lit ''- **Usable capital: '', GrpFix 2 (usable_capital p), Lit ''**'']]"

definition ledger_section :: "ledger_stats \<Rightarrow> string \<Rightarrow> fstring list" where
  "ledger_section st currency =
     [[Lit ''## Ledger ('', Txt currency, Lit '')''],
      [Lit ''- Total transactions: '', Num (of_nat (total_transactions st))]]
     @ map (\<lambda>(k, v). [Lit ''- '', Txt k, Lit '': '', Num (of_nat v)]) (by_category st)"

definition allocation_section :: "finance_config \<Rightarrow> fstring list" where
  "allocation_section c =
     [[Lit ''Allocation policy: **'', Txt (allocation_policy c),
       Lit ''**. Allocations are stored via `POST /finance/allocate`; recent ones appear on the dashboard.'']]"

definition config_section :: "finance_config \<Rightarrow> fstring list" where
  "config_section c =
     [[Lit ''## Configuration''],
      [Lit ''- Allocation policy: '', Txt (allocation_policy c)],
      [Lit ''- Investable fraction: '', Num (investable_fraction c)],
      [Lit ''- Holding cost rate (annual): '', Num (holding_cost_rate c)],
      [Lit ''- Credit limit: '', Num (credit_card_limit c)],
      [Lit ''- Billing cycle: '', Num (of_int (billing_cycle_days c)), Lit '' days, grace '',
       Num (of_int (grace_period_days c)), Lit '' days''],
      [Lit ''- Cashback rate: '', Num (cashback_rate c)],
      [Lit ''- Reward point value: '', Num (reward_points_value c)]]"

record finance_report =
  fr_generated_at :: int
  fr_currency :: string
  fr_sections :: "(string \<times> fstring list) list"

definition finance_report_of ::
  "'i finance_service \<Rightarrow> 'i ledger_query \<Rightarrow> (string \<times> rat) list \<Rightarrow> ('i, finance_report) fin_act" where
  "finance_report_of F Q s =
     (let c = fin_config F in
      bindA (readA (cash_position_of c Q s)) (\<lambda>p.
      bindA (readA finance_stats) (\<lambda>st.
      bindA (fin_now F) (\<lambda>now.
      retA \<lparr>fr_generated_at = now, fr_currency = finance_currency c,
            fr_sections = [(''Cash position'', cash_section p (finance_currency c)),
              (''Ledger'', ledger_section st (finance_currency c)),
              (''Capital allocation'', allocation_section c), (''Configuration'', config_section c)]\<rparr>))))"

section \<open>The endpoints\<close>

text \<open>What the schemas refuse never reaches the manager; an exception rolls the session back.\<close>

datatype finance_request =
    RecordTransaction transaction_create
  | EvaluateOne opportunity
  | EvaluateMany "opportunity list"
  | Allocate allocation_request
  | Reorder opportunity
  | Dashboard
  | Report

definition finance_valid :: "finance_request \<Rightarrow> bool" where
  "finance_valid r =
     (case r of
        RecordTransaction t \<Rightarrow> 0 < tc_amount t
      | EvaluateOne q \<Rightarrow> valid_opportunity q
      | EvaluateMany qs \<Rightarrow> qs \<noteq> [] \<and> list_all valid_opportunity qs
      | Allocate a \<Rightarrow> rq_opportunities a \<noteq> [] \<and> list_all valid_opportunity (rq_opportunities a)
          \<and> (case rq_budget a of None \<Rightarrow> True | Some b \<Rightarrow> 0 \<le> b)
      | Reorder q \<Rightarrow> valid_opportunity q
      | _ \<Rightarrow> True)"

definition dropping :: "('i, 'a) fin_act \<Rightarrow> ('i, unit) fin_act" where
  "dropping m = bindA m (\<lambda>_. retA ())"

fun handle_finance :: "'i finance_service \<Rightarrow> 'i ledger_query \<Rightarrow> finance_request \<Rightarrow> ('i, unit) fin_act" where
  "handle_finance F Q (RecordTransaction t) = dropping (record_transaction F Q t)"
| "handle_finance F Q (EvaluateOne q) = dropping (evaluate_one F Q q)"
| "handle_finance F Q (EvaluateMany qs) = dropping (evaluate_many F Q qs)"
| "handle_finance F Q (Allocate a) = dropping (allocate F Q a)"
| "handle_finance F Q (Reorder q) = dropping (reorder F Q q)"
| "handle_finance F Q Dashboard = dropping (dashboard F Q [])"
| "handle_finance F Q Report = dropping (finance_report_of F Q [])"

definition serve_finance :: "'i finance_service \<Rightarrow> 'i ledger_query \<times> finance_request \<Rightarrow> 'i books \<Rightarrow> 'i books" where
  "serve_finance F q db =
     (if finance_valid (snd q) then
        (case handle_finance F (fst q) (snd q) db of
           (Inr _, db') \<Rightarrow> db'
         | (Inl _, db') \<Rightarrow> db\<lparr>fin_ids := fin_ids db', fin_reads := fin_reads db'\<rparr>)
      else db)"

definition serve_finances ::
  "'i finance_service \<Rightarrow> ('i ledger_query \<times> finance_request) list \<Rightarrow> 'i books \<Rightarrow> 'i books" where
  "serve_finances F qs db = fold (serve_finance F) qs db"

end
