(* ===== verification/FinanceProps.thy ===== *)
theory FinanceProps
  imports FinanceManager
begin

text \<open>
  The properties of the finance service: a recommendation is affordable, an allocation is greedy
  and keeps to the budget up to rounding, and what a recorded transaction does to the cash
  position.
\<close>

section \<open>Floor division of floats\<close>

lemma fl_le_grow: "0 \<le> x \<Longrightarrow> fl x \<le> x * (1 + 1 / 2 ^ 53)"
proof -
  assume x: "0 \<le> x"
  have "fl x - x \<le> \<bar>x\<bar> / 2 ^ 53" using fl_error [of x] by (rule order_trans [OF abs_ge_self])
  then have "fl x \<le> x + x / 2 ^ 53" using x by simp
  then show ?thesis by (simp only: distrib_left mult_1_right times_divide_eq_right)
qed

lemma fl_quarters: "fl_rep (1 / 4)" "fl_rep (3 / 4)"
  unfolding fl_rep_def representable_def
  by (rule exI [of _ 1], rule exI [of _ "- 2"], simp add: power_int_minus)
     (rule exI [of _ 3], rule exI [of _ "- 2"], simp add: power_int_minus)

lemma rounded_quotient:
  assumes y: "0 < y" and k: "0 \<le> k" "k < 2 ^ 50"
  shows "\<bar>fl (fl (of_int k * y) / y) - of_int k\<bar> \<le> 1 / 4"
proof -
  let ?a = "fl (of_int k * y) / y"
  have kr: "of_int k \<le> (2 ^ 50 - 1 :: rat)"
  proof -
    have "k \<le> 2 ^ 50 - 1" using k by simp
    then have "of_int k \<le> (of_int (2 ^ 50 - 1) :: rat)" unfolding of_int_le_iff .
    then show ?thesis by simp
  qed
  have "?a - of_int k = (fl (of_int k * y) - of_int k * y) / y"
    using y by (simp add: field_simps)
  then have "\<bar>?a - of_int k\<bar> = \<bar>fl (of_int k * y) - of_int k * y\<bar> / y"
    using y by (simp add: abs_divide)
  also have "\<dots> \<le> \<bar>of_int k * y\<bar> / 2 ^ 53 / y"
    using y fl_error by (intro divide_right_mono) auto
  also have "\<dots> = of_int k / 2 ^ 53" using y k by (simp add: abs_mult)
  finally have a: "\<bar>?a - of_int k\<bar> \<le> of_int k / 2 ^ 53" .
  have "of_int k / 2 ^ 53 \<le> (1 / 8 :: rat)" using kr by simp
  with a have "\<bar>?a\<bar> \<le> 2 ^ 50" using kr k by linarith
  then have "\<bar>?a\<bar> / 2 ^ 53 \<le> 1 / 8" by simp
  with fl_error [of ?a] have "\<bar>fl ?a - ?a\<bar> \<le> 1 / 8" by linarith
  with a \<open>of_int k / 2 ^ 53 \<le> 1 / 8\<close> show ?thesis by linarith
qed

lemma float_floordiv_exact:
  assumes y: "0 < y" and x: "0 \<le> x" and b: "\<lfloor>x / y\<rfloor> < 2 ^ 50"
  shows "float_floordiv x y = of_int \<lfloor>x / y\<rfloor>"
proof -
  define k where "k = \<lfloor>x / y\<rfloor>"
  define q where "q = fl (fl (of_int k * y) / y)"
  have k: "0 \<le> k" using x y by (simp add: k_def)
  have q: "\<bar>q - of_int k\<bar> \<le> 1 / 4" unfolding q_def
    by (rule rounded_quotient) (use y k b in \<open>simp_all add: k_def\<close>)
  have r: "float_floordiv x y = (if 1 / 2 < fl (q - of_int \<lfloor>q\<rfloor>) then fl (of_int \<lfloor>q\<rfloor> + 1) else of_int \<lfloor>q\<rfloor>)"
    by (simp add: float_floordiv_def Let_def k_def [symmetric] q_def)
  show ?thesis
  proof (cases "of_int k \<le> q")
    case True
    then have f: "\<lfloor>q\<rfloor> = k" using q by (intro floor_unique) linarith+
    have "fl (q - of_int k) \<le> 1 / 4" using q by (intro flr.r_le fl_quarters) linarith
    then show ?thesis by (simp add: r f k_def [symmetric])
  next
    case False
    then have f: "\<lfloor>q\<rfloor> = k - 1" using q unfolding abs_le_iff by (intro floor_unique) (simp_all only: of_int_diff of_int_1, linarith+)
    have "of_int (k - 1) = (of_int k - 1 :: rat)" by simp
    then have "3 / 4 \<le> q - of_int (k - 1)" using q False by linarith
    then have "3 / 4 \<le> fl (q - of_int (k - 1))" by (rule flr.r_ge [OF fl_quarters(2)])
    moreover have "fl (of_int (k - 1) + 1) = of_int k" using k b fl_int [of k] by (simp add: k_def)
    ultimately show ?thesis by (simp add: r f k_def [symmetric])
  qed
qed

section \<open>Recommendations\<close>

lemma cap_units_le:
  "cap_units c q budget \<le> max_units_per_order c" "max_units q = Some m \<Longrightarrow> cap_units c q budget \<le> m"
  by (auto simp: cap_units_def Let_def split: option.splits)

lemma cap_units_affordable:
  assumes "0 < op_unit_cost q" and "0 \<le> b" and "max_units_per_order c \<le> 2 ^ 50"
    and "0 \<le> cap_units c q (Some b)"
  shows "of_int (cap_units c q (Some b)) * op_unit_cost q \<le> b"
proof -
  let ?k = "\<lfloor>b / op_unit_cost q\<rfloor>"
  have "cap_units c q (Some b) \<le> ?k"
  proof (cases "?k < 2 ^ 50")
    case True
    with assms float_floordiv_exact [of "op_unit_cost q" b] show ?thesis
      by (auto simp: cap_units_def Let_def split: option.splits)
  next
    case False
    with cap_units_le(1) [of c q "Some b"] assms(3) show ?thesis by linarith
  qed
  then have "of_int (cap_units c q (Some b)) \<le> b / op_unit_cost q"
    by (simp add: le_floor_iff)
  with assms(1) show ?thesis by (simp add: pos_le_divide_eq)
qed

lemma order_quantity_bounds:
  "0 \<le> order_quantity rop eoq stock cap" "0 < order_quantity rop eoq stock cap \<Longrightarrow> order_quantity rop eoq stock cap \<le> cap"
  by (auto simp: order_quantity_def Let_def)

lemma evaluate_opportunity_Inr:
  "evaluate_opportunity pw c budget q = Inr e \<Longrightarrow>
    \<exists>d safety rop eoq. e = evaluation_of c q d safety rop (order_quantity rop eoq (current_stock q) (cap_units c q budget))"
  unfolding evaluate_opportunity_def Let_def by (auto simp: result_simps)

lemma evaluation_of_sel [simp]:
  "recommended_order_qty (evaluation_of c q d safety rop n) = n"
  "capital_required (evaluation_of c q d safety rop n) = fmul (fl (of_int n)) (op_unit_cost q)"
  "ev_unit_cost (evaluation_of c q d safety rop n) = op_unit_cost q"
  by (simp_all add: evaluation_of_def Let_def)

lemma capital_required_nonneg:
  assumes "evaluate_opportunity pw c budget q = Inr e" and "0 < op_unit_cost q"
  shows "0 \<le> capital_required e"
proof -
  obtain d safety rop eoq where e:
    "e = evaluation_of c q d safety rop (order_quantity rop eoq (current_stock q) (cap_units c q budget))"
    using evaluate_opportunity_Inr [OF assms(1)] by blast
  have "0 \<le> fl (of_int (order_quantity rop eoq (current_stock q) (cap_units c q budget)))"
    by (rule flr.r_nonneg) (simp add: order_quantity_bounds)
  then show ?thesis using assms(2) by (simp add: e flr.r_nonneg)
qed

lemma recommendation_bounds:
  assumes "evaluate_opportunity pw c (Some b) q = Inr e" and "valid_opportunity q"
    and "0 \<le> b" and "fl_rep b" and "max_units_per_order c \<le> 2 ^ 50"
  shows "0 \<le> recommended_order_qty e"
    and "recommended_order_qty e \<le> max 0 (max_units_per_order c)"
    and "max_units q = Some m \<Longrightarrow> recommended_order_qty e \<le> m"
    and "of_int (recommended_order_qty e) * op_unit_cost q \<le> b"
    and "0 \<le> capital_required e" and "capital_required e \<le> b"
proof -
  obtain d safety rop eoq where e:
    "e = evaluation_of c q d safety rop (order_quantity rop eoq (current_stock q) (cap_units c q (Some b)))"
    using evaluate_opportunity_Inr [OF assms(1)] by blast
  let ?n = "order_quantity rop eoq (current_stock q) (cap_units c q (Some b))"
  have cost: "0 < op_unit_cost q" using assms(2) by (simp add: valid_opportunity_def)
  have pos: "\<And>k. max_units q = Some k \<Longrightarrow> 0 < k" using assms(2) by (simp add: valid_opportunity_def positive_if_given_def)
  note n = order_quantity_bounds [of rop eoq "current_stock q" "cap_units c q (Some b)"]
  show "0 \<le> recommended_order_qty e" using n by (simp add: e)
  show "recommended_order_qty e \<le> max 0 (max_units_per_order c)"
    using n cap_units_le(1) [of c q "Some b"] by (simp add: e) linarith
  show "max_units q = Some m \<Longrightarrow> recommended_order_qty e \<le> m"
    using n cap_units_le(2) [of q m c "Some b"] pos [of m] by (simp add: e) linarith
  have le: "of_int ?n * op_unit_cost q \<le> b"
  proof (cases "0 < ?n")
    case True
    then have "of_int ?n * op_unit_cost q \<le> of_int (cap_units c q (Some b)) * op_unit_cost q"
      using n(2) cost by (simp add: mult_right_mono)
    also have "\<dots> \<le> b" using True n cost assms by (intro cap_units_affordable) auto
    finally show ?thesis .
  qed (use n assms(3) in \<open>simp add: order_antisym\<close>)
  then show "of_int (recommended_order_qty e) * op_unit_cost q \<le> b" by (simp add: e)
  have "\<bar>?n\<bar> \<le> 2 ^ 50"
    using n cap_units_le(1) [of c q "Some b"] assms(5) by (cases "0 < ?n") auto
  then have "\<bar>?n\<bar> \<le> 2 ^ 53" by (rule order_trans) simp
  then have "fl (of_int ?n) = of_int ?n" by (rule fl_int)
  then show "capital_required e \<le> b" using flr.r_le [OF assms(4) le] by (simp add: e)
  show "0 \<le> capital_required e" using assms(1) cost by (rule capital_required_nonneg)
qed

text \<open>C39: A recommended quantity is within its limits and affordable: it is not negative, at most the
  maximum of an order and the opportunity's own maximum, and its cost, exact or as the engine
  computes it, is at most the budget.\<close>
theorem recommendation_affordable:
  assumes "evaluate_opportunity pw c (Some b) q = Inr e" and "valid_opportunity q"
    and "0 \<le> b" and "fl_rep b" and "max_units_per_order c \<le> 2 ^ 50"
  shows "0 \<le> recommended_order_qty e \<and> recommended_order_qty e \<le> max 0 (max_units_per_order c)
    \<and> (case max_units q of None \<Rightarrow> True | Some m \<Rightarrow> recommended_order_qty e \<le> m)
    \<and> of_int (recommended_order_qty e) * op_unit_cost q \<le> b
    \<and> 0 \<le> capital_required e \<and> capital_required e \<le> b"
  using recommendation_bounds [OF assms] by (auto split: option.splits)

text \<open>With a cost of ordering that is not negative, every valid opportunity is evaluated.\<close>

lemma evaluate_opportunity_total:
  assumes "valid_opportunity q" and "0 \<le> default_order_cost c"
  shows "\<exists>e. evaluate_opportunity pw c budget q = Inr e"
proof -
  have "\<exists>eoq. economic_order_qty pw d (op_unit_cost q)
      (case op_order_cost q of None \<Rightarrow> default_order_cost c | Some x \<Rightarrow> x) rate = Inr eoq" for d rate
  proof -
    let ?s = "case op_order_cost q of None \<Rightarrow> default_order_cost c | Some x \<Rightarrow> x"
    have s: "0 \<le> ?s"
      using assms by (auto simp: valid_opportunity_def positive_if_given_def split: option.splits)
    have "0 \<le> fdiv (fmul (fmul 2 (fmul d 365)) ?s) (fmul (op_unit_cost q) rate)"
      if "0 < fmul d 365" "0 < fmul (op_unit_cost q) rate"
      using that s by (intro flr.r_nonneg divide_nonneg_pos mult_nonneg_nonneg)
        (auto simp: flr.r_pos_iff zero_less_mult_iff)
    then show ?thesis unfolding economic_order_qty_def Let_def
      by (cases "fmul d 365 \<le> 0 \<or> fmul (op_unit_cost q) rate \<le> 0") (simp_all only: if_True if_False de_Morgan_disj not_le not_less [symmetric], simp_all)
  qed
  then show ?thesis by (simp add: evaluate_opportunity_def Let_def result_simps)
qed

section \<open>Allocation\<close>

lemma fund_loop_fst [simp]: "map fst (fund_loop share r es) = es"
  by (induction es arbitrary: r) (auto simp: Let_def)

lemma fund_loop_length [simp]: "length (fund_loop share r es) = length es"
  by (metis fund_loop_fst length_map)

lemma mset_rank_opportunities: "mset (rank_opportunities p es) = mset es"
  by (simp add: rank_opportunities_def)

lemma offer_bounds:
  fixes r :: rat
  assumes "0 \<le> r" and "0 \<le> cap" and "\<forall>s. share = Some s \<longrightarrow> 0 \<le> s"
  shows "0 \<le> max 0 (case share of None \<Rightarrow> min cap r | Some s \<Rightarrow> min (min cap s) r)"
    and "max 0 (case share of None \<Rightarrow> min cap r | Some s \<Rightarrow> min (min cap s) r) \<le> cap"
    and "max 0 (case share of None \<Rightarrow> min cap r | Some s \<Rightarrow> min (min cap s) r) \<le> r"
  using assms by (auto split: option.splits)

lemma fund_loop_bounds:
  assumes "0 \<le> r" and "\<forall>e \<in> set es. 0 \<le> capital_required e" and "\<forall>s. share = Some s \<longrightarrow> 0 \<le> s"
  shows "(\<forall>(e, a) \<in> set (fund_loop share r es). 0 \<le> a \<and> a \<le> capital_required e)
    \<and> sum_list (map snd (fund_loop share r es)) \<le> r * (1 + 1 / 2 ^ 53) ^ length es"
  using assms
proof (induction es arbitrary: r)
  case (Cons e es)
  define a where "a = max 0 (case share of None \<Rightarrow> min (capital_required e) r
    | Some s \<Rightarrow> min (min (capital_required e) s) r)"
  have "0 \<le> capital_required e" using Cons.prems(2) by simp
  from offer_bounds [OF Cons.prems(1) this Cons.prems(3)]
  have a: "0 \<le> a" "a \<le> capital_required e" "a \<le> r" unfolding a_def by blast+
  have rest: "0 \<le> fl (r - a)" using a by (simp add: flr.r_nonneg)
  have step: "fund_loop share r (e # es) = (e, a) # fund_loop share (fl (r - a)) es"
    by (simp add: a_def Let_def)
  have IH: "(\<forall>(e, a) \<in> set (fund_loop share (fl (r - a)) es). 0 \<le> a \<and> a \<le> capital_required e)
    \<and> sum_list (map snd (fund_loop share (fl (r - a)) es)) \<le> fl (r - a) * (1 + 1 / 2 ^ 53) ^ length es"
    by (rule Cons.IH [OF rest]) (use Cons.prems in simp_all)
  let ?g = "1 + 1 / 2 ^ 53 :: rat"
  have "sum_list (map snd (fund_loop share (fl (r - a)) es)) \<le> fl (r - a) * ?g ^ length es"
    using IH by (rule conjunct2)
  also have "\<dots> \<le> (r - a) * ?g * ?g ^ length es"
    using a fl_le_grow [of "r - a"] by (intro mult_right_mono) auto
  finally have "sum_list (map snd (fund_loop share (fl (r - a)) es)) \<le> (r - a) * ?g ^ Suc (length es)"
    by (simp only: mult.assoc power_Suc)
  moreover have "a * 1 \<le> a * ?g ^ Suc (length es)"
    using a(1) one_le_power [of ?g "Suc (length es)"] by (intro mult_left_mono) auto
  ultimately have "sum_list (map snd (fund_loop share r (e # es))) \<le> r * ?g ^ length (e # es)"
    unfolding step by (simp only: list.map sum_list.Cons snd_conv list.size left_diff_distrib add_Suc_right add_0_right)
  moreover have "\<forall>(e, a) \<in> set (fund_loop share r (e # es)). 0 \<le> a \<and> a \<le> capital_required e"
    using IH a unfolding step by auto
  ultimately show ?case by (rule conjI [rotated])
qed simp

lemma fund_loop_exhausted:
  "\<forall>e \<in> set es. 0 \<le> capital_required e \<Longrightarrow> y \<in> set (fund_loop None 0 es) \<Longrightarrow> snd y = 0"
  by (induction es) (auto simp: Let_def min_def)

lemma fund_loop_greedy:
  assumes "0 \<le> r" and "\<forall>e \<in> set es. 0 \<le> capital_required e"
  shows "sorted_wrt (\<lambda>x y. 0 < snd y \<longrightarrow> snd x = capital_required (fst x)) (fund_loop None r es)"
  using assms
proof (induction es arbitrary: r)
  case (Cons e es)
  let ?a = "max 0 (min (capital_required e) r)"
  have rest: "0 \<le> fl (r - ?a)" using Cons.prems by (intro flr.r_nonneg) auto
  have "snd y = 0" if "y \<in> set (fund_loop None (fl (r - ?a)) es)" "?a \<noteq> capital_required e" for y
  proof -
    have "?a = r" using that(2) Cons.prems by (auto simp: min_def max_def split: if_splits)
    then show ?thesis using that(1) fund_loop_exhausted [of es y] Cons.prems(2) by simp
  qed
  then have "\<forall>y \<in> set (fund_loop None (fl (r - ?a)) es). 0 < snd y \<longrightarrow> ?a = capital_required e" by force
  moreover have "sorted_wrt (\<lambda>x y. 0 < snd y \<longrightarrow> snd x = capital_required (fst x)) (fund_loop None (fl (r - ?a)) es)"
    by (rule Cons.IH [OF rest]) (use Cons.prems in simp)
  ultimately show ?case by (simp only: fund_loop.simps Let_def option.case sorted_wrt.simps fst_conv snd_conv simp_thms)
qed simp

text \<open>What is handed out: everything is fully funded, or the budget is spent up to the roundings.\<close>

lemma fl_ge_shrink: "0 \<le> x \<Longrightarrow> x * (1 - 1 / 2 ^ 53) \<le> fl x"
proof -
  assume x: "0 \<le> x"
  have "- (fl x - x) \<le> \<bar>x\<bar> / 2 ^ 53" using fl_error [of x] by (rule order_trans [OF abs_ge_minus_self])
  then have "x - x / 2 ^ 53 \<le> fl x" using x by simp
  then show ?thesis by (simp only: right_diff_distrib mult_1_right times_divide_eq_right)
qed

lemma fund_loop_spends:
  assumes "0 \<le> r" and "\<forall>e \<in> set es. 0 \<le> capital_required e"
  shows "list_all (\<lambda>(e, a). a = capital_required e) (fund_loop None r es)
    \<or> r * (1 - 1 / 2 ^ 53) ^ length es \<le> sum_list (map snd (fund_loop None r es))"
  using assms
proof (induction es arbitrary: r)
  case (Cons e es)
  define a where "a = max 0 (min (capital_required e) r)"
  have cap: "0 \<le> capital_required e" using Cons.prems(2) by simp
  have a: "0 \<le> a" "a \<le> r" using Cons.prems(1) cap by (auto simp: a_def)
  have rest: "0 \<le> fl (r - a)" using a by (simp add: flr.r_nonneg)
  have step: "fund_loop None r (e # es) = (e, a) # fund_loop None (fl (r - a)) es"
    by (simp add: a_def Let_def)
  have others: "0 \<le> sum_list (map snd (fund_loop None (fl (r - a)) es))"
    using fund_loop_bounds [OF rest, of es None] Cons.prems(2) by (intro sum_list_nonneg) auto
  let ?g = "1 - 1 / 2 ^ 53 :: rat"
  have g: "?g ^ k \<le> 1" "0 \<le> ?g ^ k" for k by (simp_all add: power_le_one)
  show ?case
  proof (cases "a = capital_required e")
    case False
    then have "a = r" using Cons.prems(1) cap by (auto simp: a_def)
    moreover have "r * ?g ^ length (e # es) \<le> r * 1" by (rule mult_left_mono [OF g(1) Cons.prems(1)])
    ultimately have "r * ?g ^ length (e # es) \<le> a + sum_list (map snd (fund_loop None (fl (r - a)) es))"
      using others by linarith
    then show ?thesis unfolding step by simp
  next
    case True
    from Cons.IH [OF rest] Cons.prems(2)
    consider "list_all (\<lambda>(e, a). a = capital_required e) (fund_loop None (fl (r - a)) es)"
      | "fl (r - a) * ?g ^ length es \<le> sum_list (map snd (fund_loop None (fl (r - a)) es))" by auto
    then show ?thesis
    proof cases
      case 1
      then show ?thesis unfolding step using True by simp
    next
      case 2
      have "(r - a) * ?g ^ Suc (length es) \<le> fl (r - a) * ?g ^ length es"
        using fl_ge_shrink [of "r - a"] a g(2) [of "length es"] mult_right_mono [of "(r - a) * ?g" "fl (r - a)" "?g ^ length es"]
        by (simp only: mult.assoc power_Suc diff_ge_0_iff_ge)
      moreover have "a * ?g ^ Suc (length es) \<le> a * 1" by (rule mult_left_mono [OF g(1) a(1)])
      ultimately have "r * ?g ^ Suc (length es) \<le> a + sum_list (map snd (fund_loop None (fl (r - a)) es))"
        using 2 by (simp only: left_diff_distrib)
      then show ?thesis unfolding step by simp
    qed
  qed
qed simp

definition rank_key :: "string \<Rightarrow> deal_evaluation \<Rightarrow> rat" where
  "rank_key policy e =
     (if policy = ''conservative'' then fl (capital_efficiency e * fl (1 - ev_risk e)) else capital_efficiency e)"

lemma sorted_wrt_and:
  "sorted_wrt P xs \<Longrightarrow> sorted_wrt (\<lambda>x y. (0 :: rat) < f y \<longrightarrow> Q x) xs
    \<Longrightarrow> sorted_wrt (\<lambda>x y. P x y \<and> (f y \<le> 0 \<or> Q x)) xs"
  by (induction xs) (auto simp: not_less)

lemma rank_opportunities_sorted:
  "policy \<noteq> ''equal'' \<Longrightarrow> sorted_wrt (\<lambda>x y. rank_key policy y \<le> rank_key policy x) (rank_opportunities policy es)"
  using sort_desc_sorted [of "\<lambda>e. fmul (capital_efficiency e) (fsub 1 (ev_risk e))" es]
    sort_desc_sorted [of capital_efficiency es]
  by (simp add: rank_opportunities_def rank_key_def)

lemma funded_fst: "map fst (funded policy b es) = rank_opportunities policy es"
  by (simp add: funded_def Let_def)

text \<open>C38: An allocation funds every opportunity once, no one beyond what it requires, and all of them
  within the budget up to the rounding of one subtraction each. Unless the shares are equal it is
  greedy in the order of the policy's ranking: an opportunity gets money only if all those ranked
  before it are fully funded, and the budget is handed out, up to the same rounding, unless all
  are fully funded.\<close>

theorem allocation_greedy:
  assumes "allocate_opportunities pw c b (Some policy) qs = Inr r" and "policy \<noteq> []"
    and "\<forall>q \<in> set qs. valid_opportunity q" and "0 \<le> b"
  shows "\<exists>es fs. mapR (evaluate_opportunity pw c (Some b)) qs = Inr es
    \<and> ar_allocations r = map (allocation_of b) fs \<and> mset (map fst fs) = mset es
    \<and> list_all (\<lambda>(e, a). 0 \<le> a \<and> a \<le> capital_required e) fs
    \<and> sum_list (map snd fs) \<le> b * (1 + 1 / 2 ^ 53) ^ length qs
    \<and> (policy = ''equal'' \<or>
       sorted_wrt (\<lambda>x y. rank_key policy (fst y) \<le> rank_key policy (fst x)
         \<and> (snd y \<le> 0 \<or> snd x = capital_required (fst x))) fs
       \<and> (list_all (\<lambda>(e, a). a = capital_required e) fs
          \<or> b * (1 - 1 / 2 ^ 53) ^ length qs \<le> sum_list (map snd fs)))"
proof -
  obtain es where es: "mapR (evaluate_opportunity pw c (Some b)) qs = Inr es"
    and r: "ar_allocations r = map (allocation_of b) (funded policy b es)"
    using assms(1,2) unfolding allocate_opportunities_def Let_def by (auto simp: result_simps)
  let ?fs = "funded policy b es"
  have m: "mset (rank_opportunities policy es) = mset es" by (rule mset_rank_opportunities)
  have "0 \<le> capital_required e" if e: "e \<in> set es" for e
  proof -
    obtain q where "q \<in> set qs" "evaluate_opportunity pw c (Some b) q = Inr e"
      using mapR_set [OF es e] by blast
    with assms(3) show ?thesis by (auto intro: capital_required_nonneg simp: valid_opportunity_def)
  qed
  then have caps: "\<forall>e \<in> set (rank_opportunities policy es). 0 \<le> capital_required e"
    using mset_eq_setD [OF m] by simp
  obtain share where f: "?fs = fund_loop share b (rank_opportunities policy es)"
    and share: "\<forall>s. share = Some s \<longrightarrow> 0 \<le> s" "policy \<noteq> ''equal'' \<longrightarrow> share = None"
    using assms(4) by (auto simp: funded_def Let_def flr.r_nonneg)
  note bounds = fund_loop_bounds [OF assms(4) caps share(1)]
  have len: "length (rank_opportunities policy es) = length qs"
    using mset_eq_length [OF m] mapR_length [OF es] by simp
  have "list_all (\<lambda>(e, a). 0 \<le> a \<and> a \<le> capital_required e) ?fs"
    using bounds by (auto simp: f list_all_iff)
  moreover have "sum_list (map snd ?fs) \<le> b * (1 + 1 / 2 ^ 53) ^ length qs"
    using bounds by (simp add: f len)
  moreover have "sorted_wrt (\<lambda>x y. rank_key policy (fst y) \<le> rank_key policy (fst x)
         \<and> (snd y \<le> 0 \<or> snd x = capital_required (fst x))) ?fs" if p: "policy \<noteq> ''equal''"
  proof -
    have "sorted_wrt (\<lambda>x y. rank_key policy y \<le> rank_key policy x) (map fst ?fs)"
      using rank_opportunities_sorted [OF p] by (simp add: funded_fst)
    moreover have "sorted_wrt (\<lambda>x y. 0 < snd y \<longrightarrow> snd x = capital_required (fst x)) ?fs"
      using fund_loop_greedy [OF assms(4) caps] share(2) p by (simp add: f)
    ultimately show ?thesis unfolding sorted_wrt_map
      by (rule sorted_wrt_and)
  qed
  moreover have "list_all (\<lambda>(e, a). a = capital_required e) ?fs
      \<or> b * (1 - 1 / 2 ^ 53) ^ length qs \<le> sum_list (map snd ?fs)" if "policy \<noteq> ''equal''"
    using fund_loop_spends [OF assms(4) caps] share(2) that by (simp add: f len)
  ultimately show ?thesis using es r m by (intro exI [of _ es] exI [of _ ?fs]) (auto simp: funded_fst)
qed

section \<open>Recording a transaction\<close>

text \<open>\<open>SUM\<close> of whole numbers is exact in any order, as long as the total is an exact float.\<close>

definition exact_sums :: "'i ledger_query \<Rightarrow> bool" where
  "exact_sums Q \<longleftrightarrow>
     (\<forall>ns. (\<forall>n \<in> set ns. 0 \<le> n) \<longrightarrow> sum_list ns \<le> 2 ^ 53
        \<longrightarrow> sum_column Q (map of_int ns) = of_int (sum_list ns))"

definition whole_books :: "int \<Rightarrow> 'i books \<Rightarrow> bool" where
  "whole_books B db \<longleftrightarrow>
     (\<exists>f. (\<forall>x \<in> set (ledger db). ct_amount x = of_int (f x) \<and> 0 \<le> f x)
        \<and> sum_list (map f (ledger db)) \<le> B)"

lemma sum_filter_le:
  fixes f :: "'a \<Rightarrow> int"
  shows "\<forall>x \<in> set xs. 0 \<le> f x \<Longrightarrow> 0 \<le> sum_list (map f (filter P xs)) \<and> sum_list (map f (filter P xs)) \<le> sum_list (map f xs)"
  by (induction xs) auto

lemma round_float_int: "\<bar>n\<bar> \<le> 2 ^ 53 \<Longrightarrow> round_float 2 (of_int n) = of_int n"
proof -
  assume n: "\<bar>n\<bar> \<le> 2 ^ 53"
  have "of_int n * 10 ^ 2 = (of_int (n * 10 ^ 2) :: rat)" by simp
  then have "round_float 2 (of_int n) = fl (of_int (n * 10 ^ 2) / 10 ^ 2)"
    unfolding round_float_def by (simp only: round_he_of_int)
  also have "\<dots> = fl (of_int n)" by simp
  finally show ?thesis using fl_int [OF n] by simp
qed

lemma fl_add_int: "\<bar>a + b\<bar> \<le> 2 ^ 53 \<Longrightarrow> fl (of_int a + of_int b) = of_int (a + b)"
  and fl_diff_int: "\<bar>a - b\<bar> \<le> 2 ^ 53 \<Longrightarrow> fl (of_int a - of_int b) = of_int (a - b)"
  using fl_int [of "a + b"] fl_int [of "a - b"] by simp_all

text \<open>The figures of the position, on whole amounts.\<close>

definition sum_where :: "('i cash_transaction \<Rightarrow> int) \<Rightarrow> ('i cash_transaction \<Rightarrow> bool) \<Rightarrow> 'i books \<Rightarrow> int" where
  "sum_where f P db = sum_list (map f (filter P (ledger db)))"

lemma whole_position:
  assumes Q: "exact_sums Q" and f: "\<forall>x \<in> set (ledger db). ct_amount x = of_int (f x) \<and> 0 \<le> f x"
    and B: "sum_list (map f (ledger db)) \<le> 2 ^ 50"
    and c: "starting_cash c = of_int s" "credit_card_limit c = of_int l" "\<bar>s\<bar> \<le> 2 ^ 50" "0 \<le> l" "l \<le> 2 ^ 50"
  shows "available_cash (cash_position_of c Q [] db)
      = of_int (s + sum_where f (\<lambda>x. ct_type x = ''inflow'') db - sum_where f (\<lambda>x. ct_type x = ''outflow'') db)"
    and "net_liquidity (cash_position_of c Q [] db)
      = of_int (s + sum_where f (\<lambda>x. ct_type x = ''inflow'') db - sum_where f (\<lambda>x. ct_type x = ''outflow'') db + l
          - sum_where f (\<lambda>x. ct_type x = ''outflow'' \<and> ct_category x = ''commitment'') db)"
proof -
  have range: "0 \<le> sum_where f P db \<and> sum_where f P db \<le> 2 ^ 50" for P
    using sum_filter_le [of "ledger db" f P] f B by (simp add: sum_where_def)
  have col: "sum_column Q (map ct_amount (filter P (ledger db))) = of_int (sum_where f P db)" for P
  proof -
    have "map ct_amount (filter P (ledger db)) = map of_int (map f (filter P (ledger db)))" using f by simp
    moreover have "sum_column Q (map of_int (map f (filter P (ledger db)))) = of_int (sum_where f P db)"
      using Q f range [of P] unfolding exact_sums_def sum_where_def by (auto simp del: map_map)
    ultimately show ?thesis by (simp only:)
  qed
  let ?i = "sum_where f (\<lambda>x. ct_type x = ''inflow'') db" and ?o = "sum_where f (\<lambda>x. ct_type x = ''outflow'') db"
    and ?k = "sum_where f (\<lambda>x. ct_type x = ''outflow'' \<and> ct_category x = ''commitment'') db"
  note rs = range [of "\<lambda>x. ct_type x = ''inflow''"] range [of "\<lambda>x. ct_type x = ''outflow''"]
    range [of "\<lambda>x. ct_type x = ''outflow'' \<and> ct_category x = ''commitment''"]
  have small: "\<bar>z\<bar> \<le> 2 ^ 53" if "\<bar>z\<bar> \<le> 5 * 2 ^ 50" for z :: int using that by simp
  have cs: "s \<le> 2 ^ 50" "- (2 ^ 50) \<le> s" using c(3) by (simp_all add: abs_le_iff)
  have bounds: "\<bar>s + ?i\<bar> \<le> 5 * 2 ^ 50" "\<bar>s + ?i - ?o\<bar> \<le> 5 * 2 ^ 50" "\<bar>s + ?i - ?o + l\<bar> \<le> 5 * 2 ^ 50"
    "\<bar>s + ?i - ?o + l - ?k\<bar> \<le> 5 * 2 ^ 50" "\<bar>l\<bar> \<le> 5 * 2 ^ 50"
    using rs cs c(4,5) unfolding abs_le_iff by linarith+
  note bs = bounds [THEN small]
  have "fl (of_int s + of_int ?i) = of_int (s + ?i)" by (intro fl_add_int bs)
  moreover have "fl (of_int (s + ?i) - of_int ?o) = of_int (s + ?i - ?o)" by (intro fl_diff_int bs)
  ultimately have cash: "cash_balance Q (starting_cash c) db = of_int (s + ?i - ?o)"
    by (simp add: cash_balance_def sum_by_type_def col c(1))
  have limit: "max 0 (fl (credit_card_limit c - 0)) = of_int l" using c bs(5) fl_int [of l] by simp
  have kept: "fl (of_int (s + ?i - ?o)) = of_int (s + ?i - ?o)" by (intro fl_int bs)
  have more: "fl (of_int (s + ?i - ?o) + of_int l) = of_int (s + ?i - ?o + l)"
    by (intro fl_add_int bs)
  have kept': "fl (of_int (s + ?i - ?o + l)) = of_int (s + ?i - ?o + l)" by (intro fl_int bs)
  have net: "fl (of_int (s + ?i - ?o + l) - of_int ?k) = of_int (s + ?i - ?o + l - ?k)"
    by (intro fl_diff_int bs)
  show "available_cash (cash_position_of c Q [] db) = of_int (s + ?i - ?o)"
    unfolding cash_position_of_def Let_def signal_def cash
    by (simp only: map_of.simps option.case cash_position.simps) (intro round_float_int bs)
  have "net_liquidity (cash_position_of c Q [] db) = round_float 2 (of_int (s + ?i - ?o + l - ?k))"
    unfolding cash_position_of_def Let_def signal_def cash sum_outflows_by_category_def col
    by (simp only: map_of.simps option.case cash_position.simps limit mult_zero_right flr.r_0 add_0_right
        kept kept' more net)
  also have "\<dots> = of_int (s + ?i - ?o + l - ?k)" by (intro round_float_int bs)
  finally show "net_liquidity (cash_position_of c Q [] db) = of_int (s + ?i - ?o + l - ?k)" .
qed

definition fin_signed :: "transaction_create \<Rightarrow> rat" where
  "fin_signed t = (case tc_type t of INFLOW \<Rightarrow> tc_amount t | OUTFLOW \<Rightarrow> - tc_amount t)"

lemma transaction_effect:
  fixes n s l :: int
  assumes "exact_sums Q" and "whole_books B db" and "0 < n" and "B + n \<le> 2 ^ 50"
    and "tc_amount t = of_int n"
    and "starting_cash (fin_config F) = of_int s" and "\<bar>s\<bar> \<le> 2 ^ 50"
    and "credit_card_limit (fin_config F) = of_int l" and "0 \<le> l" and "l \<le> 2 ^ 50"
  shows "available_cash (cash_position_of (fin_config F) Q [] (serve_finance F (Q', RecordTransaction t) db))
      = available_cash (cash_position_of (fin_config F) Q [] db) + fin_signed t"
    and "net_liquidity (cash_position_of (fin_config F) Q [] (serve_finance F (Q', RecordTransaction t) db))
      = net_liquidity (cash_position_of (fin_config F) Q [] db)
        + (if tc_type t = OUTFLOW \<and> tc_category t = COMMITMENT then 2 * fin_signed t else fin_signed t)"
proof -
  let ?db = "serve_finance F (Q', RecordTransaction t) db"
  let ?x = "transaction_row t (fin_start Q') (fin_fresh F (fin_ids db))"
  have led: "ledger ?db = ledger db @ [?x]"
    using assms(3,5)
    by (simp add: serve_finance_def finance_valid_def dropping_def record_transaction_def create_transaction_def
        fin_draw_def bindA_def Let_def retA_def)
  obtain f0 where f0: "\<forall>x \<in> set (ledger db). ct_amount x = of_int (f0 x) \<and> 0 \<le> f0 x"
    "sum_list (map f0 (ledger db)) \<le> B"
    using assms(2) unfolding whole_books_def by blast
  define f where "f = (\<lambda>x :: 'a cash_transaction. \<lfloor>ct_amount x\<rfloor>)"
  have ff: "\<forall>x \<in> set (ledger db). f x = f0 x" using f0(1) by (simp add: f_def)
  have f: "\<forall>x \<in> set (ledger db). ct_amount x = of_int (f x) \<and> 0 \<le> f x" using f0(1) ff by simp
  have total: "sum_list (map f (ledger db)) \<le> B" using f0(2) ff by (simp cong: map_cong)
  have fx: "f ?x = n" using assms(5) by (simp add: f_def transaction_row_def)
  have f': "\<forall>x \<in> set (ledger ?db). ct_amount x = of_int (f x) \<and> 0 \<le> f x"
    using f fx assms(3,5) by (auto simp: led transaction_row_def)
  have s1: "sum_list (map f (ledger db)) \<le> 2 ^ 50" using total assms(3,4) by linarith
  have s2: "sum_list (map f (ledger ?db)) \<le> 2 ^ 50" using total assms(4) fx by (simp add: led)
  note before = whole_position [OF assms(1) f s1 assms(6,8,7,9,10)]
    and after = whole_position [OF assms(1) f' s2 assms(6,8,7,9,10)]
  have step: "sum_where f P ?db = sum_where f P db + (if P ?x then n else 0)" for P
    by (simp add: sum_where_def led fx)
  have x: "ct_type ?x = transaction_type_value (tc_type t)" "ct_category ?x = category_value (tc_category t)"
    by (simp_all add: transaction_row_def)
  show "available_cash (cash_position_of (fin_config F) Q [] ?db)
      = available_cash (cash_position_of (fin_config F) Q [] db) + fin_signed t"
    unfolding before after step x fin_signed_def assms(5) by (cases "tc_type t") simp_all
  show "net_liquidity (cash_position_of (fin_config F) Q [] ?db) = net_liquidity (cash_position_of (fin_config F) Q [] db)
        + (if tc_type t = OUTFLOW \<and> tc_category t = COMMITMENT then 2 * fin_signed t else fin_signed t)"
    unfolding before after step x fin_signed_def assms(5)
    by (cases "tc_type t"; cases "tc_category t") simp_all
qed

text \<open>Recording a transaction in whole units moves the available cash by its amount, and the net
  liquidity by its amount too unless it is a committed purchase: the ledger's balance has already
  paid a commitment, and the position subtracts it again, so that the net liquidity, and with it
  the budget of every recommendation, falls by twice the amount.\<close>
theorem commitment_counted_twice:
  fixes n s l :: int
  assumes "exact_sums Q" and "whole_books B db" and "0 < n" and "B + n \<le> 2 ^ 50"
    and "tc_amount t = of_int n"
    and "starting_cash (fin_config F) = of_int s" and "\<bar>s\<bar> \<le> 2 ^ 50"
    and "credit_card_limit (fin_config F) = of_int l" and "0 \<le> l" and "l \<le> 2 ^ 50"
  shows "available_cash (cash_position_of (fin_config F) Q [] (serve_finance F (Q', RecordTransaction t) db))
      = available_cash (cash_position_of (fin_config F) Q [] db) + fin_signed t
    \<and> net_liquidity (cash_position_of (fin_config F) Q [] (serve_finance F (Q', RecordTransaction t) db))
      = net_liquidity (cash_position_of (fin_config F) Q [] db)
        + (if tc_type t = OUTFLOW \<and> tc_category t = COMMITMENT then 2 * fin_signed t else fin_signed t)"
  using transaction_effect [OF assms] by (rule conjI)

text \<open>An allocation books nothing: the same budget can be allocated again.\<close>

lemma create_allocations_ledger: "snd (create_allocations F p now as db) = db' \<Longrightarrow> ledger db' = ledger db"
  by (induction as arbitrary: db db') (auto simp: bindA_def retA_def create_allocation_def fin_draw_def Let_def)

section \<open>Witnesses\<close>

definition plain_finance :: finance_config where
  "plain_finance =
     \<lparr>finance_enabled = True, finance_currency = ''USD'', starting_cash = 1000, credit_card_limit = 0,
      billing_cycle_days = 30, grace_period_days = 21, cashback_rate = 1 / 50, reward_points_value = 1 / 100,
      points_per_dollar = 1, holding_cost_rate = 1 / 4, default_order_cost = 5, service_level_z = 33 / 20,
      max_units_per_order = 1000, allocation_policy = ''efficiency'', investable_fraction = 4 / 5,
      min_cash_reserve = 0, max_opportunities = 50\<rparr>"

definition kettle_deal :: opportunity where
  "kettle_deal =
     \<lparr>op_entity_type = ''product'', op_entity_id = ''kettle'', op_unit_cost = 10, op_unit_price = Some 16,
      expected_demand = 10, demand_period = ''day'', lead_time_days = 7, op_order_cost = None,
      current_stock = 0, demand_std = 0, op_expected_profit = None, op_payback_days = None,
      op_risk = 1 / 2, max_units = Some 40\<rparr>"

lemma kettle_valid: "valid_opportunity kettle_deal"
  by (simp add: kettle_deal_def valid_opportunity_def positive_if_given_def)

theorem recommendation_affordable_witness:
  "\<exists>e. evaluate_opportunity (\<lambda>x. x) plain_finance (Some 255) kettle_deal = Inr e
     \<and> 0 \<le> recommended_order_qty e \<and> of_int (recommended_order_qty e) * op_unit_cost kettle_deal \<le> 255"
proof -
  obtain e where e: "evaluate_opportunity (\<lambda>x. x) plain_finance (Some 255) kettle_deal = Inr e"
    using evaluate_opportunity_total [OF kettle_valid, of plain_finance] by (auto simp: plain_finance_def)
  have "fl_rep 255" using fl_rep_int [of 255] by simp
  with recommendation_affordable [OF e kettle_valid] e show ?thesis by (auto simp: plain_finance_def)
qed

theorem allocation_greedy_witness:
  "\<exists>r fs. allocate_opportunities (\<lambda>x. x) plain_finance 255 (Some ''efficiency'') [kettle_deal, kettle_deal] = Inr r
     \<and> ar_allocations r = map (allocation_of 255) fs \<and> length fs = 2
     \<and> sum_list (map snd fs) \<le> 255 * (1 + 1 / 2 ^ 53) ^ 2"
proof -
  obtain e where "evaluate_opportunity (\<lambda>x. x) plain_finance (Some 255) kettle_deal = Inr e"
    using evaluate_opportunity_total [OF kettle_valid, of plain_finance] by (auto simp: plain_finance_def)
  then obtain r where r:
    "allocate_opportunities (\<lambda>x. x) plain_finance 255 (Some ''efficiency'') [kettle_deal, kettle_deal] = Inr r"
    by (simp add: allocate_opportunities_def Let_def)
  from allocation_greedy [OF r] kettle_valid obtain es fs where
    "mapR (evaluate_opportunity (\<lambda>x. x) plain_finance (Some 255)) [kettle_deal, kettle_deal] = Inr es"
    "ar_allocations r = map (allocation_of 255) fs" "mset (map fst fs) = mset es"
    "sum_list (map snd fs) \<le> 255 * (1 + 1 / 2 ^ 53) ^ length [kettle_deal, kettle_deal]" by auto
  moreover from this(1) have "length es = 2" by (simp add: mapR_length del: mapR.simps)
  then have "length fs = 2" using mset_eq_length [OF \<open>mset (map fst fs) = mset es\<close>] by simp
  ultimately show ?thesis using r by (intro exI [of _ r] exI [of _ fs]) (simp add: numeral_2_eq_2)
qed

definition plain_service :: "nat finance_service" where
  "plain_service = \<lparr>fin_fresh = \<lambda>n. n, fin_wall = int, pow_half = \<lambda>x. x, fin_config = plain_finance\<rparr>"

definition plain_query :: "nat ledger_query" where
  "plain_query = \<lparr>fin_start = 1, order_ledger = rev, order_allocations = rev, sum_column = sum_list\<rparr>"

definition commit_200 :: transaction_create where
  "commit_200 =
     \<lparr>tc_type = OUTFLOW, tc_category = COMMITMENT, tc_amount = 200, tc_description = None,
      tc_entity_type = None, tc_entity_id = None, tc_occurred_at = None\<rparr>"

definition empty_books :: "nat books" where
  "empty_books = \<lparr>ledger = [], capital_allocations = [], fin_ids = 0, fin_reads = 0\<rparr>"

theorem commitment_counted_twice_witness:
  "net_liquidity (cash_position_of plain_finance plain_query [] (serve_finance plain_service (plain_query, RecordTransaction commit_200) empty_books))
   = net_liquidity (cash_position_of plain_finance plain_query [] empty_books) - 400"
proof -
  have sum: "sum_list (map of_int ns) = (of_int (sum_list ns) :: rat)" for ns by (induction ns) simp_all
  have "exact_sums plain_query" by (simp add: exact_sums_def plain_query_def sum)
  moreover have "whole_books 0 empty_books" by (simp add: whole_books_def empty_books_def)
  ultimately show ?thesis
    using commitment_counted_twice [of plain_query 0 empty_books 200 commit_200 plain_service 1000 0 plain_query]
    by (simp add: commit_200_def fin_signed_def plain_service_def plain_finance_def)
qed

end
