(* ===== verification/Browser.thy ===== *)
theory Browser
  imports Floats StateMachine
begin

text \<open>
  The browser framework (\<open>app/browser\<close>): its settings, the rate limiter, the proxy pool, retries,
  the browser's life cycle and the page pool. Playwright, the clock, random numbers and the disk
  are the record \<open>driver\<close>, whose operations act on a world of any type and may fail; an \<open>await\<close> of
  the code is one such operation. The theory speaks of one task; what other tasks do between the
  operations of the pool is in theory \<open>BrowserPool\<close>.
\<close>

section \<open>Settings\<close>

record fingerprint_config =
  fp_enabled :: bool
  randomize_user_agent :: bool
  randomize_viewport :: bool
  viewport_width_range :: "int \<times> int"
  viewport_height_range :: "int \<times> int"
  randomize_locale :: bool
  locales :: "string list"
  randomize_timezone :: bool
  timezones :: "string list"
  randomize_scale :: bool

record proxy_config =
  px_url :: string
  px_username :: "string option"
  px_password :: "string option"
  px_weight :: int
  px_enabled :: bool

record proxy_settings =
  px_proxies :: "proxy_config list"
  rotation :: string
  max_failures_before_ban :: nat

record browser_config =
  headless_mode :: bool
  visible :: bool
  slow_mo :: int
  executable_path :: "string option"
  channel :: "string option"
  launch_args :: "string list"
  blocked_types :: "string list"
  navigation_timeout_ms :: int
  wait_until :: string
  max_retries :: nat
  retry_backoff_base_ms :: int
  request_delay_min_ms :: int
  request_delay_max_ms :: int
  max_pages :: nat
  page_idle_timeout_seconds :: int
  captcha_detection_enabled :: bool
  fingerprint_settings :: fingerprint_config
  proxy_settings_of :: "proxy_settings option"
  screenshot_dir :: string
  archive_dir :: string

section \<open>Playwright and the world\<close>

datatype crawl_error =
    BrowserLaunchError string
  | BrowserPoolTimeoutError
  | CaptchaDetectedError "string option" fstring
  | BrowserRateLimitError
  | BrowserTimeoutError
  | ProxyError
  | ProxyExhaustedError
  | SessionPersistError
  | CookieStoreError
  | DriverError string
  | BrowserBuiltin py_error

text \<open>
  \<open>getattr(x, name, lambda: None)()\<close> calls what it finds: a method answers, the default answers
  \<open>None\<close>, a property is not callable.
\<close>

datatype 'a attribute = Absent | Property 'a | Method 'a

fun call_attribute :: "'a attribute \<Rightarrow> 'a option py" where
  "call_attribute Absent = Inr None"
| "call_attribute (Method x) = Inr (Some x)"
| "call_attribute (Property x) = Inl TypeError"

text \<open>What a call evaluates to that is not awaited: a value, or a coroutine.\<close>

datatype 'a unawaited = Ready 'a | Coroutine

record fingerprint =
  user_agent :: string
  viewport :: "int \<times> int"
  device_scale_factor :: int
  fp_locale :: string
  timezone_id :: "string option"

record server_proxy =
  server :: string
  sv_username :: "string option"
  sv_password :: "string option"

record context_options =
  co_viewport :: "int \<times> int"
  co_scale :: int
  co_locale :: string
  co_user_agent :: "string option"
  co_timezone :: "string option"
  co_proxy :: "server_proxy option"

record launch_options =
  lo_headless :: bool
  lo_slow_mo :: "int option"
  lo_executable :: "string option"
  lo_channel :: "string option"
  lo_args :: "string list option"

type_synonym ('w, 'a) io = "'w \<Rightarrow> (string + 'a) \<times> 'w"

record ('w, 'p, 'c) driver =
  d_start :: "('w, unit) io"
  d_stop :: "('w, unit) io"
  d_launch :: "launch_options \<Rightarrow> ('w, unit) io"
  d_close_browser :: "('w, unit) io"
  d_new_context :: "context_options \<Rightarrow> ('w, 'c) io"
  d_add_cookies :: "'c \<Rightarrow> json list \<Rightarrow> ('w, unit) io"
  d_new_page :: "'c \<Rightarrow> ('w, 'p) io"
  d_context :: "'p \<Rightarrow> 'c"
  d_route :: "'p \<Rightarrow> ('w, unit) io"
  d_goto :: "'p \<Rightarrow> string \<Rightarrow> int \<Rightarrow> string \<Rightarrow> ('w, int attribute option) io"
  d_count :: "'p \<Rightarrow> string \<Rightarrow> ('w, int unawaited) io"
  d_title :: "'p \<Rightarrow> ('w, string) io"
  d_evaluate :: "'p \<Rightarrow> string \<Rightarrow> ('w, string) io"
  d_content :: "'p \<Rightarrow> ('w, string) io"
  d_url :: "'p \<Rightarrow> ('w, string) io"
  d_cookies :: "'c \<Rightarrow> ('w, json list) io"
  d_storage_state :: "'c \<Rightarrow> ('w, (string \<times> json) list) io"
  d_screenshot :: "'p \<Rightarrow> bool \<Rightarrow> ('w, nat unawaited) io"
  d_close_page :: "'p \<Rightarrow> ('w, unit) io"
  d_close_context :: "'c \<Rightarrow> ('w, unit) io"
  d_write :: "string \<Rightarrow> ('w, unit) io"
  d_read :: "string \<Rightarrow> ('w, unit) io"
  d_stamp :: "('w, string) io"
  d_monotonic :: "'w \<Rightarrow> rat \<times> 'w"
  d_sleep :: "rat \<Rightarrow> 'w \<Rightarrow> 'w"
  d_uniform :: "int \<Rightarrow> int \<Rightarrow> 'w \<Rightarrow> rat \<times> 'w"
  d_random :: "'w \<Rightarrow> rat \<times> 'w"
  d_choice :: "nat \<Rightarrow> 'w \<Rightarrow> nat \<times> 'w"
  d_randint :: "int \<Rightarrow> int \<Rightarrow> 'w \<Rightarrow> int \<times> 'w"
  d_hash :: "string \<Rightarrow> int"

section \<open>The state\<close>

record limiter =
  lm_rate :: "rat option"
  lm_burst :: int
  lm_tokens :: rat
  lm_last :: rat
  lm_delay_min :: int
  lm_delay_max :: int

record proxy_pool =
  pp_proxies :: "proxy_config list"
  pp_rotation :: string
  pp_max_failures :: nat
  pp_failures :: "string \<Rightarrow> nat"
  pp_banned :: "string list"
  pp_next :: nat

record ('w, 'p) browser =
  world :: 'w
  launched :: bool
  playwright :: bool
  the_limiter :: limiter
  proxies :: proxy_pool
  idle :: "(rat \<times> 'p) list"
  in_use :: "'p list"
  last_proxy :: "server_proxy option"
  session_files :: "(string \<times> (string \<times> json) list) list"
  cookie_file :: "(string \<times> json list) list option"

type_synonym ('w, 'p, 'a) bact = "(('w, 'p) browser, crawl_error, 'a) act"

definition driven :: "('w, 'a) io \<Rightarrow> ('w, 'p, 'a) bact" where
  "driven f s =
     (case f (world s) of
        (Inl e, w) \<Rightarrow> (Inl (DriverError e), s\<lparr>world := w\<rparr>)
      | (Inr x, w) \<Rightarrow> (Inr x, s\<lparr>world := w\<rparr>))"

definition answered :: "('w \<Rightarrow> 'a \<times> 'w) \<Rightarrow> ('w, 'p, 'a) bact" where
  "answered f s = (case f (world s) of (x, w) \<Rightarrow> (Inr x, s\<lparr>world := w\<rparr>))"

definition sleeping :: "('w, 'p, 'c) driver \<Rightarrow> rat \<Rightarrow> ('w, 'p, unit) bact" where
  "sleeping D d s = (Inr (), s\<lparr>world := d_sleep D d (world s)\<rparr>)"

definition builtin :: "'a py \<Rightarrow> ('w, 'p, 'a) bact" where
  "builtin m = (case m of Inl e \<Rightarrow> failA (BrowserBuiltin e) | Inr x \<Rightarrow> retA x)"

section \<open>The rate limiter\<close>

definition make_limiter :: "rat option \<Rightarrow> int option \<Rightarrow> int \<Rightarrow> int \<Rightarrow> rat \<Rightarrow> limiter" where
  "make_limiter rate burst dmin dmax now =
     (let b = or_num burst (if or_num rate 0 \<noteq> 0 then max 1 (trunc (or_num rate 1)) else 1) in
      \<lparr>lm_rate = (if 0 < or_num rate 0 then rate else None), lm_burst = b, lm_tokens = of_int b, lm_last = now,
       lm_delay_min = max 0 dmin, lm_delay_max = max (max 0 dmin) dmax\<rparr>)"

text \<open>The seconds to sleep, and the bucket afterwards.\<close>

definition take_token :: "rat \<Rightarrow> rat \<Rightarrow> limiter \<Rightarrow> rat \<times> limiter" where
  "take_token rate now l =
     (let tokens = min (of_int (lm_burst l)) (fadd (lm_tokens l) (fmul (fsub now (lm_last l)) rate));
          l' = l\<lparr>lm_last := now\<rparr> in
      if tokens < 1 then (fdiv (fsub 1 tokens) rate, l'\<lparr>lm_tokens := 0\<rparr>)
      else (0, l'\<lparr>lm_tokens := fsub tokens 1\<rparr>))"

definition random_delay :: "('w, 'p, 'c) driver \<Rightarrow> ('w, 'p, rat) bact" where
  "random_delay D s =
     (let l = the_limiter s in
      if lm_delay_max l \<le> 0 then (Inr 0, s)
      else bindA (answered (d_uniform D (lm_delay_min l) (lm_delay_max l))) (\<lambda>x. retA (fdiv x 1000)) s)"

definition acquire :: "('w, 'p, 'c) driver \<Rightarrow> ('w, 'p, rat) bact" where
  "acquire D s =
     (case lm_rate (the_limiter s) of
        None \<Rightarrow> random_delay D s
      | Some rate \<Rightarrow>
          bindA (answered (d_monotonic D)) (\<lambda>now s.
            (case take_token rate now (the_limiter s) of
               (d, l) \<Rightarrow>
                 bindA (if 0 < d then sleeping D d else retA ()) (\<lambda>_. random_delay D) (s\<lparr>the_limiter := l\<rparr>))) s)"

section \<open>Proxies\<close>

definition strip_slash :: "string \<Rightarrow> string" where
  "strip_slash s = rev (dropWhile (\<lambda>c. c = CHR ''/'') (rev s))"

definition make_proxies :: "proxy_settings option \<Rightarrow> proxy_pool" where
  "make_proxies c =
     (let (ps, r, m) = (case c of None \<Rightarrow> ([], ''round_robin'', 5)
        | Some c \<Rightarrow> (px_proxies c, rotation c, max_failures_before_ban c)) in
      \<lparr>pp_proxies = filter px_enabled ps, pp_rotation = r, pp_max_failures = m, pp_failures = \<lambda>_. 0,
       pp_banned = [], pp_next = 0\<rparr>)"

definition proxy_url :: "proxy_config \<Rightarrow> string" where
  "proxy_url p = strip_slash (px_url p)"

definition non_empty :: "string option \<Rightarrow> string option" where
  "non_empty x = (case x of None \<Rightarrow> None | Some s \<Rightarrow> if s = [] then None else Some s)"

definition to_playwright :: "proxy_config \<Rightarrow> server_proxy" where
  "to_playwright p =
     \<lparr>server = px_url p, sv_username = non_empty (px_username p), sv_password = non_empty (px_password p)\<rparr>"

definition available_proxies :: "proxy_pool \<Rightarrow> nat list" where
  "available_proxies P =
     filter (\<lambda>i. proxy_url (pp_proxies P ! i) \<notin> set (pp_banned P)) [0..<length (pp_proxies P)]"

definition enabled_count :: "proxy_pool \<Rightarrow> int" where
  "enabled_count P = int (length (pp_proxies P)) - int (length (pp_banned P))"

text \<open>
  The round robin advances the cycle \<open>0, 1, \<dots>, n - 1, 0, \<dots>\<close> until it meets an available index,
  which takes at most \<open>n\<close> steps when there is one.
\<close>

fun advance :: "nat \<Rightarrow> nat \<Rightarrow> nat list \<Rightarrow> nat \<Rightarrow> nat" where
  "advance 0 n available i = i"
| "advance (Suc k) n available i =
     (if i \<in> set available then i else advance k n available (Suc i mod n))"

definition get_proxy :: "('w, 'p, 'c) driver \<Rightarrow> string option \<Rightarrow> ('w, 'p, server_proxy option) bact" where
  "get_proxy D sticky_key s =
     (let P = proxies s; n = length (pp_proxies P); available = available_proxies P;
          found = (\<lambda>i. Some (to_playwright (pp_proxies P ! i))) in
      if n = 0 then (Inr None, s)
      else if available = [] then (Inl ProxyExhaustedError, s)
      else (case sticky_key of
          Some k \<Rightarrow> (Inr (found (available ! nat (d_hash D k mod int (length available)))), s)
        | None \<Rightarrow>
            if pp_rotation P = ''random'' then
              bindA (answered (d_choice D (length available))) (\<lambda>j. retA (found (available ! j))) s
            else if pp_rotation P = ''sticky'' then (Inr (found (hd available)), s)
            else (let i = advance n n available (pp_next P) in
              (Inr (found i), s\<lparr>proxies := P\<lparr>pp_next := Suc i mod n\<rparr>\<rparr>))))"

definition dict_url :: "server_proxy \<Rightarrow> string" where
  "dict_url p = strip_slash (server p)"

definition mark_failure :: "server_proxy option \<Rightarrow> proxy_pool \<Rightarrow> proxy_pool" where
  "mark_failure proxy P =
     (case proxy of
        None \<Rightarrow> P
      | Some p \<Rightarrow>
          (let url = dict_url p; n = Suc (pp_failures P url); P' = P\<lparr>pp_failures := (pp_failures P)(url := n)\<rparr> in
           if pp_max_failures P \<le> n then P'\<lparr>pp_banned := List.insert url (pp_banned P)\<rparr> else P'))"

definition mark_success :: "server_proxy option \<Rightarrow> proxy_pool \<Rightarrow> proxy_pool" where
  "mark_success proxy P =
     (case proxy of
        None \<Rightarrow> P
      | Some p \<Rightarrow>
          (let url = dict_url p in
           P\<lparr>pp_failures := (pp_failures P)(url := 0), pp_banned := removeAll url (pp_banned P)\<rparr>))"

definition reset_proxies :: "proxy_pool \<Rightarrow> proxy_pool" where
  "reset_proxies P = P\<lparr>pp_failures := \<lambda>_. 0, pp_banned := []\<rparr>"

section \<open>Retries\<close>

fun retryable_crawl :: "crawl_error \<Rightarrow> bool" where
  "retryable_crawl BrowserTimeoutError = True"
| "retryable_crawl BrowserRateLimitError = True"
| "retryable_crawl ProxyError = True"
| "retryable_crawl BrowserPoolTimeoutError = True"
| "retryable_crawl _ = False"

definition browser_retry_delay :: "int \<Rightarrow> int \<Rightarrow> nat \<Rightarrow> rat \<Rightarrow> rat" where
  "browser_retry_delay base cap attempt r = fmul (of_int (min (base * 2 ^ (attempt - 1)) cap)) (fadd (1 / 2) r)"

text \<open>\<open>retry_async\<close> with jitter: the retries left, and the attempts made.\<close>

fun retry_loop ::
  "('w, 'p, 'c) driver \<Rightarrow> int \<Rightarrow> int \<Rightarrow> ('w, 'p, 'a) bact \<Rightarrow> nat \<Rightarrow> nat \<Rightarrow> ('w, 'p, 'a) bact" where
  "retry_loop D base cap f 0 attempt = f"
| "retry_loop D base cap f (Suc left) attempt =
     catchA f (\<lambda>e. if \<not> retryable_crawl e then failA e
       else bindA (answered (d_random D)) (\<lambda>r.
            bindA (sleeping D (fdiv (browser_retry_delay base cap (Suc attempt) r) 1000)) (\<lambda>_.
            retry_loop D base cap f left (Suc attempt))))"

definition retry_async :: "('w, 'p, 'c) driver \<Rightarrow> nat \<Rightarrow> int \<Rightarrow> int \<Rightarrow> ('w, 'p, 'a) bact \<Rightarrow> ('w, 'p, 'a) bact" where
  "retry_async D retries base cap f = retry_loop D base cap f retries 0"

section \<open>Fingerprints\<close>

definition chrome_versions :: "string list" where
  "chrome_versions =
     [''131.0.6778.86'', ''131.0.6778.204'', ''132.0.6834.46'', ''132.0.6834.83'', ''133.0.6943.53'',
      ''134.0.6998.35'']"

definition os_tokens :: "string list" where
  "os_tokens =
     [''Windows NT 10.0; Win64; x64'', ''Windows NT 10.0; WOW64'', ''Macintosh; Intel Mac OS X 10_15_7'',
      ''Macintosh; Intel Mac OS X 14_4_1'', ''X11; Linux x86_64'']"

text \<open>\<open>t in s\<close>\<close>

fun has_substring :: "string \<Rightarrow> string \<Rightarrow> bool" where
  "has_substring t [] = (t = [])"
| "has_substring t (c # s) = (take (length t) (c # s) = t \<or> has_substring t s)"

definition user_agent_for :: "string \<Rightarrow> string \<Rightarrow> string" where
  "user_agent_for version os =
     (let platform = (if has_substring ''Linux'' os then ''Linux; x86_64''
        else if has_substring ''Macintosh'' os then ''Macintosh; '' @ os else os) in
      ''Mozilla/5.0 ('' @ platform @ '') AppleWebKit/537.36 (KHTML, like Gecko) Chrome/'' @ version
      @ '' Safari/537.36'')"

definition random_choice :: "('w, 'p, 'c) driver \<Rightarrow> 'a list \<Rightarrow> ('w, 'p, 'a) bact" where
  "random_choice D xs = bindA (answered (d_choice D (length xs))) (\<lambda>j. retA (xs ! j))"

definition generate_fingerprint :: "('w, 'p, 'c) driver \<Rightarrow> fingerprint_config \<Rightarrow> ('w, 'p, fingerprint) bact" where
  "generate_fingerprint D c =
     bindA (if randomize_user_agent c
            then bindA (random_choice D chrome_versions) (\<lambda>v. bindA (random_choice D os_tokens) (\<lambda>os. retA (user_agent_for v os)))
            else retA []) (\<lambda>ua.
     bindA (if randomize_viewport c
            then bindA (answered (d_randint D (fst (viewport_width_range c)) (snd (viewport_width_range c)))) (\<lambda>w.
                 bindA (answered (d_randint D (fst (viewport_height_range c)) (snd (viewport_height_range c)))) (\<lambda>h.
                 retA (w, h)))
            else retA (1280, 720)) (\<lambda>vp.
     bindA (if randomize_scale c then random_choice D [1, 1, 1, 2] else retA 1) (\<lambda>scale.
     bindA (if randomize_locale c \<and> locales c \<noteq> [] then random_choice D (locales c) else retA ''en-US'') (\<lambda>loc.
     bindA (if randomize_timezone c \<and> timezones c \<noteq> []
            then bindA (random_choice D (timezones c)) (\<lambda>t. retA (Some t)) else retA None) (\<lambda>tz.
     retA \<lparr>user_agent = (if ua = [] then ''Mozilla/5.0 (compatible; AmazonSourcer)'' else ua), viewport = vp,
           device_scale_factor = scale, fp_locale = loc, timezone_id = tz\<rparr>)))))"

section \<open>The browser\<close>

definition headless :: "browser_config \<Rightarrow> bool" where
  "headless c \<longleftrightarrow> headless_mode c \<and> \<not> visible c"

definition launch_options_of :: "browser_config \<Rightarrow> launch_options" where
  "launch_options_of c =
     \<lparr>lo_headless = headless c, lo_slow_mo = (if slow_mo c \<noteq> 0 then Some (slow_mo c) else None),
      lo_executable = non_empty (executable_path c), lo_channel = non_empty (channel c),
      lo_args = (if launch_args c = [] then None else Some (launch_args c))\<rparr>"

definition stop_playwright :: "('w, 'p, 'c) driver \<Rightarrow> ('w, 'p, unit) bact" where
  "stop_playwright D s =
     (if playwright s then
        bindA (suppressA (driven (d_stop D))) (\<lambda>_ s. (Inr (), s\<lparr>playwright := False\<rparr>)) s
      else (Inr (), s))"

fun as_launch_error :: "crawl_error \<Rightarrow> crawl_error" where
  "as_launch_error (DriverError e) = BrowserLaunchError e"
| "as_launch_error e = e"

definition launch :: "('w, 'p, 'c) driver \<Rightarrow> browser_config \<Rightarrow> ('w, 'p, unit) bact" where
  "launch D c s =
     (if launched s then (Inr (), s)
      else
        bindA (catchA (driven (d_start D)) (\<lambda>e. failA (as_launch_error e))) (\<lambda>_ s.
        bindA (catchA (driven (d_launch D (launch_options_of c)))
                 (\<lambda>e. bindA (stop_playwright D) (\<lambda>_. failA (as_launch_error e)))) (\<lambda>_ s.
          (Inr (), s\<lparr>launched := True\<rparr>)) (s\<lparr>playwright := True\<rparr>)) s)"

definition shutdown :: "('w, 'p, 'c) driver \<Rightarrow> ('w, 'p, unit) bact" where
  "shutdown D s =
     bindA (if launched s then suppressA (driven (d_close_browser D)) else retA ()) (\<lambda>_.
     bindA (stop_playwright D) (\<lambda>_ s. (Inr (), s\<lparr>launched := False\<rparr>))) s"

text \<open>\<open>proxy if proxy is not None else get_proxy()\<close>\<close>

definition new_context ::
  "('w, 'p, 'c) driver \<Rightarrow> browser_config \<Rightarrow> server_proxy option \<Rightarrow> (string \<times> json) list \<Rightarrow> ('w, 'p, 'c) bact" where
  "new_context D c proxy session_state =
     bindA (generate_fingerprint D (fingerprint_settings c)) (\<lambda>fp.
     bindA (case proxy of None \<Rightarrow> get_proxy D None | Some p \<Rightarrow> retA (Some p)) (\<lambda>effective s.
     if \<not> launched s then (Inl (BrowserLaunchError ''Browser is not launched; call launch() first.''), s)
     else
       bindA (driven (d_new_context D
         \<lparr>co_viewport = viewport fp, co_scale = device_scale_factor fp, co_locale = fp_locale fp,
          co_user_agent = non_empty (Some (user_agent fp)), co_timezone = non_empty (timezone_id fp),
          co_proxy = effective\<rparr>)) (\<lambda>ctx.
       (case map_of session_state ''cookies'' of
          Some (JList (k # ks)) \<Rightarrow>
            bindA (suppressA (driven (d_add_cookies D ctx (k # ks)))) (\<lambda>_. retA ctx)
        | _ \<Rightarrow> retA ctx)) s))"

section \<open>The page pool\<close>

definition pool_max :: "browser_config \<Rightarrow> nat" where
  "pool_max c = max 1 (max_pages c)"

definition pool_size :: "('w, 'p) browser \<Rightarrow> nat" where
  "pool_size s = length (idle s) + length (in_use s)"

fun recycle_loop :: "('w, 'p, 'c) driver \<Rightarrow> rat \<Rightarrow> int \<Rightarrow> (rat \<times> 'p) list \<Rightarrow> (rat \<times> 'p) list \<Rightarrow> ('w, 'p, unit) bact" where
  "recycle_loop D now limit keep [] s = (Inr (), s\<lparr>idle := keep\<rparr>)"
| "recycle_loop D now limit keep ((t, p) # xs) s =
     (if of_int limit < fsub now t
      then bindA (suppressA (driven (d_close_page D p))) (\<lambda>_. recycle_loop D now limit keep xs) s
      else recycle_loop D now limit (keep @ [(t, p)]) xs s)"

definition recycle_idle :: "('w, 'p, 'c) driver \<Rightarrow> browser_config \<Rightarrow> ('w, 'p, unit) bact" where
  "recycle_idle D c =
     bindA (answered (d_monotonic D)) (\<lambda>now s. recycle_loop D now (page_idle_timeout_seconds c) [] (idle s) s)"

text \<open>
  One turn of the loop of \<open>checkout\<close> under the lock: a page, or nothing to be had. While the lock is
  held nobody else fills the pool, so that a failure to create a page is raised.
\<close>

definition add_in_use :: "'p \<Rightarrow> ('w, 'p, 'p option) bact" where
  "add_in_use p s = (Inr (Some p), s\<lparr>in_use := List.insert p (in_use s)\<rparr>)"

definition checkout_turn :: "('w, 'p, 'c) driver \<Rightarrow> browser_config \<Rightarrow> ('w, 'p, 'p option) bact" where
  "checkout_turn D c =
     bindA (recycle_idle D c) (\<lambda>_ s.
       (case idle s of
          (_, p) # rest \<Rightarrow> add_in_use p (s\<lparr>idle := rest\<rparr>)
        | [] \<Rightarrow>
            if pool_size s < pool_max c then
              bindA (new_context D c None []) (\<lambda>ctx. bindA (driven (d_new_page D ctx)) add_in_use) s
            else (Inr None, s)))"

text \<open>With nobody to return a page while it waits, a full pool times out.\<close>

definition checkout :: "('w, 'p, 'c) driver \<Rightarrow> browser_config \<Rightarrow> rat \<Rightarrow> ('w, 'p, 'p) bact" where
  "checkout D c wait =
     bindA (answered (d_monotonic D)) (\<lambda>now.
     bindA (checkout_turn D c) (\<lambda>got.
       case got of
         Some p \<Rightarrow> retA p
       | None \<Rightarrow>
           bindA (answered (d_monotonic D)) (\<lambda>later.
           let remaining = fsub (fadd now wait) later in
           if remaining \<le> 0 then failA BrowserPoolTimeoutError
           else bindA (sleeping D remaining) (\<lambda>_. failA BrowserPoolTimeoutError))))"

definition checkin :: "('w, 'p, 'c) driver \<Rightarrow> 'p \<Rightarrow> ('w, 'p, unit) bact" where
  "checkin D p s =
     (if p \<in> set (in_use s) then
        bindA (answered (d_monotonic D)) (\<lambda>now s. (Inr (), s\<lparr>idle := idle s @ [(now, p)]\<rparr>))
          (s\<lparr>in_use := removeAll p (in_use s)\<rparr>)
      else (Inr (), s))"

definition discard :: "('w, 'p, 'c) driver \<Rightarrow> 'p \<Rightarrow> ('w, 'p, unit) bact" where
  "discard D p s = suppressA (driven (d_close_page D p)) (s\<lparr>in_use := removeAll p (in_use s)\<rparr>)"

fun close_all :: "('w, 'p, 'c) driver \<Rightarrow> 'p list \<Rightarrow> ('w, 'p, unit) bact" where
  "close_all D [] = retA ()"
| "close_all D (p # ps) = bindA (suppressA (driven (d_close_page D p))) (\<lambda>_. close_all D ps)"

definition clear_pool :: "('w, 'p, 'c) driver \<Rightarrow> ('w, 'p, unit) bact" where
  "clear_pool D s = close_all D (map snd (idle s) @ in_use s) (s\<lparr>idle := [], in_use := []\<rparr>)"

end
