(* ===== verification/Crawler.thy ===== *)
theory Crawler
  imports Browser "HOL-Library.AList"
begin

text \<open>
  The crawler (\<open>app/browser/crawler.py\<close>) with what it calls: detection of captchas, sessions and
  cookie jars on disk, screenshots and archives, request interception. A file that was written
  holds the value that was written; whether a write or a read succeeds is the driver's. The errors
  are the Exceptions of the code: a cancellation of the task in the middle of a fetch, which no
  handler of the source catches, is not modelled.
\<close>

section \<open>Captcha detection\<close>

record captcha_check =
  detected :: bool
  provider :: "string option"
  confidence :: rat
  reason :: "fstring list"
  page_url :: "string option"

definition quoted :: "string \<Rightarrow> string" where
  "quoted s = CHR 0x27 # s @ [CHR 0x27]"

definition provider_selectors :: "(string \<times> string list) list" where
  "provider_selectors =
     [(''recaptcha'', [''iframe[src*='' @ quoted ''recaptcha'' @ '']'', ''.g-recaptcha'', ''div.g-recaptcha'', ''#recaptcha'']),
      (''hcaptcha'', [''iframe[src*='' @ quoted ''hcaptcha'' @ '']'', ''.h-captcha'', ''div.h-captcha'', ''#hcaptcha'']),
      (''cloudflare'', [''iframe[src*='' @ quoted ''challenges.cloudflare.com'' @ '']'', ''#challenge-running'',
         ''#cf-challenge-running'', ''.cf-turnstile'', ''#turnstile-wrapper'']),
      (''arkose'', [''iframe[src*='' @ quoted ''arkoselabs'' @ '']'', ''#arkose-iframe'', ''.arkose'']),
      (''generic'', [''#captcha'', ''form[name='' @ quoted ''captcha'' @ '']'', ''input[name='' @ quoted ''captcha_code'' @ '']'', ''.captcha-image'',
         ''body[onload*='' @ quoted ''captcha'' @ '']''])]"

text \<open>The patterns are alternatives of literal texts, searched without regard to case.\<close>

definition url_patterns :: "(string \<times> string list) list" where
  "url_patterns =
     [(''cloudflare'', [''cloudflare'', ''cf-challenge'', ''cfchallenge'', ''/cdn-cgi/'']),
      (''recaptcha'', [''recaptcha'']), (''hcaptcha'', [''hcaptcha''])]"

definition title_patterns :: "(string \<times> string list) list" where
  "title_patterns =
     [(''cloudflare'', [''just a moment'', ''attention required'']),
      (''generic'', [''captcha'', ''verify you are human'', ''are you human''])]"

definition body_patterns :: "(string \<times> string list) list" where
  "body_patterns =
     [(''cloudflare'', [''verify you are human'']),
      (''generic'', [''captcha'', ''bot check'', ''verify you are human'', ''automated access is denied'',
         ''unusual traffic'', ''security check''])]"

definition pattern_signals :: "(string \<times> string list) list \<Rightarrow> rat \<Rightarrow> string \<Rightarrow> (string \<times> rat) list" where
  "pattern_signals ps score s =
     map (\<lambda>(k, _). (k, score)) (filter (\<lambda>(_, alts). list_ex (\<lambda>t. has_substring t (lower s)) alts) ps)"

text \<open>An exception of \<open>count()\<close> counts as zero; comparing a coroutine with zero raises.\<close>

fun any_selector :: "('w, 'p, 'c) driver \<Rightarrow> 'p \<Rightarrow> string list \<Rightarrow> ('w, 'p, bool) bact" where
  "any_selector D p [] = retA False"
| "any_selector D p (sel # sels) =
     bindA (orelseA (driven (d_count D p sel)) (Ready 0)) (\<lambda>n.
       case n of
         Coroutine \<Rightarrow> failA (BrowserBuiltin TypeError)
       | Ready k \<Rightarrow> if 0 < k then retA True else any_selector D p sels)"

fun selector_signals ::
  "('w, 'p, 'c) driver \<Rightarrow> 'p \<Rightarrow> (string \<times> string list) list \<Rightarrow> ('w, 'p, (string \<times> rat) list) bact" where
  "selector_signals D p [] = retA []"
| "selector_signals D p ((k, sels) # ps) =
     bindA (any_selector D p sels) (\<lambda>hit.
     bindA (selector_signals D p ps) (\<lambda>rest. retA ((if hit then [(k, fl (85 / 100))] else []) @ rest)))"

definition no_captcha :: "string option \<Rightarrow> captcha_check" where
  "no_captcha url = \<lparr>detected = False, provider = None, confidence = 0, reason = [], page_url = url\<rparr>"

definition captcha_verdict :: "string \<Rightarrow> (string \<times> rat) list \<Rightarrow> captcha_check" where
  "captcha_verdict url signals =
     (if signals = [] then no_captcha (Some url)
      else
        \<lparr>detected = True, provider = Some (fst (first_max snd signals)),
         confidence = round_float 2 (min 1 (fadd (fdiv (float_sum (map snd signals)) (of_nat (length signals))) (fl (1 / 10)))),
         reason = map (\<lambda>(p, c). [Txt p, Lit '':'', Num (round_float 2 c)]) signals, page_url = Some url\<rparr>)"

definition body_script :: string where
  "body_script = ''() => document.body ? document.body.innerText.slice(0, 5000) : '' @ quoted []"

definition check_captcha ::
  "('w, 'p, 'c) driver \<Rightarrow> bool \<Rightarrow> 'p \<Rightarrow> string \<Rightarrow> ('w, 'p, captcha_check) bact" where
  "check_captcha D enabled p url =
     (if \<not> enabled then retA (no_captcha None)
      else
        bindA (if url \<noteq> [] then retA url else driven (d_url D p)) (\<lambda>current.
        bindA (selector_signals D p provider_selectors) (\<lambda>found.
        bindA (orelseA (driven (d_title D p)) []) (\<lambda>title.
        bindA (orelseA (driven (d_evaluate D p body_script)) []) (\<lambda>body.
        retA (captcha_verdict current
          (pattern_signals url_patterns (fl (9 / 10)) current
           @ found
           @ pattern_signals title_patterns (fl (8 / 10)) title
           @ pattern_signals body_patterns (fl (7 / 10)) body)))))))"

section \<open>Sessions and cookie jars\<close>

text \<open>\<open>str.isalnum\<close> of a Latin-1 character\<close>

definition is_alnum :: "char \<Rightarrow> bool" where
  "is_alnum c = (let n = of_char c :: nat in
     (48 \<le> n \<and> n \<le> 57) \<or> (65 \<le> n \<and> n \<le> 90) \<or> (97 \<le> n \<and> n \<le> 122)
     \<or> n \<in> {170, 178, 179, 181, 185, 186, 188, 189, 190} \<or> (192 \<le> n \<and> n \<noteq> 215 \<and> n \<noteq> 247))"

definition session_file :: "string \<Rightarrow> string" where
  "session_file name =
     (let safe = map (\<lambda>c. if is_alnum c \<or> c = CHR ''-'' \<or> c = CHR ''_'' then c else CHR ''_'') name in
      if safe = [] then ''default'' else safe)"

definition load_state :: "('w, 'p, 'c) driver \<Rightarrow> string \<Rightarrow> ('w, 'p, (string \<times> json) list) bact" where
  "load_state D name s =
     (case map_of (session_files s) (session_file name) of
        None \<Rightarrow> (Inr [], s)
      | Some state \<Rightarrow>
          catchA (bindA (driven (d_read D (session_file name))) (\<lambda>_. retA state)) (\<lambda>_. failA SessionPersistError) s)"

definition save_state :: "('w, 'p, 'c) driver \<Rightarrow> string \<Rightarrow> (string \<times> json) list \<Rightarrow> ('w, 'p, unit) bact" where
  "save_state D name state =
     bindA (catchA (driven (d_write D (session_file name))) (\<lambda>_. failA SessionPersistError)) (\<lambda>_ s.
       (Inr (), s\<lparr>session_files := AList.update (session_file name) state (session_files s)\<rparr>))"

definition persist_context :: "('w, 'p, 'c) driver \<Rightarrow> string \<Rightarrow> 'c \<Rightarrow> ('w, 'p, unit) bact" where
  "persist_context D name ctx =
     bindA (catchA (driven (d_storage_state D ctx)) (\<lambda>_. failA SessionPersistError)) (save_state D name)"

definition session_exists :: "string \<Rightarrow> ('w, 'p) browser \<Rightarrow> bool" where
  "session_exists name s \<longleftrightarrow> session_file name \<in> fst ` set (session_files s)"

definition delete_session :: "string \<Rightarrow> ('w, 'p) browser \<Rightarrow> ('w, 'p) browser" where
  "delete_session name s = s\<lparr>session_files := AList.delete (session_file name) (session_files s)\<rparr>"

definition read_jars :: "('w, 'p, 'c) driver \<Rightarrow> ('w, 'p, (string \<times> json list) list) bact" where
  "read_jars D s =
     (case cookie_file s of
        None \<Rightarrow> (Inr [], s)
      | Some store \<Rightarrow> catchA (bindA (driven (d_read D ''cookies'')) (\<lambda>_. retA store)) (\<lambda>_. failA CookieStoreError) s)"

definition write_jars :: "('w, 'p, 'c) driver \<Rightarrow> (string \<times> json list) list \<Rightarrow> ('w, 'p, unit) bact" where
  "write_jars D store =
     bindA (catchA (driven (d_write D ''cookies'')) (\<lambda>_. failA CookieStoreError)) (\<lambda>_ s.
       (Inr (), s\<lparr>cookie_file := Some store\<rparr>))"

definition save_jar :: "('w, 'p, 'c) driver \<Rightarrow> string \<Rightarrow> json list \<Rightarrow> ('w, 'p, unit) bact" where
  "save_jar D name cookies = bindA (read_jars D) (\<lambda>store. write_jars D (AList.update name cookies store))"

definition load_jar :: "('w, 'p, 'c) driver \<Rightarrow> string \<Rightarrow> ('w, 'p, json list) bact" where
  "load_jar D name =
     bindA (read_jars D) (\<lambda>store. retA (case map_of store name of None \<Rightarrow> [] | Some cs \<Rightarrow> cs))"

definition delete_jar :: "('w, 'p, 'c) driver \<Rightarrow> string \<Rightarrow> ('w, 'p, unit) bact" where
  "delete_jar D name = bindA (read_jars D) (\<lambda>store. write_jars D (AList.delete name store))"

definition persist_from_context :: "('w, 'p, 'c) driver \<Rightarrow> string \<Rightarrow> 'c \<Rightarrow> ('w, 'p, unit) bact" where
  "persist_from_context D name ctx =
     bindA (catchA (driven (d_cookies D ctx)) (\<lambda>_. failA CookieStoreError)) (save_jar D name)"

definition apply_jar :: "('w, 'p, 'c) driver \<Rightarrow> string \<Rightarrow> 'c \<Rightarrow> ('w, 'p, nat) bact" where
  "apply_jar D name ctx =
     bindA (load_jar D name) (\<lambda>cookies.
     bindA (if cookies = [] then retA ()
            else catchA (driven (d_add_cookies D ctx cookies)) (\<lambda>_. failA CookieStoreError)) (\<lambda>_.
     retA (length cookies)))"

section \<open>Artifacts\<close>

fun drop_prefix :: "string \<Rightarrow> string \<Rightarrow> string" where
  "drop_prefix p s = (if take (length p) s = p then drop (length p) s else s)"

definition slug_char :: "char \<Rightarrow> bool" where
  "slug_char c = (let n = of_char c :: nat in
     (48 \<le> n \<and> n \<le> 57) \<or> (65 \<le> n \<and> n \<le> 90) \<or> (97 \<le> n \<and> n \<le> 122) \<or> c \<in> {CHR ''_'', CHR ''.'', CHR ''-''})"

definition slugify :: "string \<Rightarrow> string" where
  "slugify url =
     (let rest = (if take 8 url = ''https://'' then drop 8 url else drop_prefix ''http://'' url);
          host = takeWhile (\<lambda>c. c \<noteq> CHR ''/'') rest;
          safe = take 60 (map (\<lambda>c. if slug_char c then c else CHR ''_'') host) in
      if safe = [] then ''page'' else safe)"

record artifact =
  af_path :: string
  af_size :: nat

text \<open>The picture is not awaited: a coroutine cannot be written to the file.\<close>

definition save_screenshot ::
  "('w, 'p, 'c) driver \<Rightarrow> browser_config \<Rightarrow> 'p \<Rightarrow> string \<Rightarrow> bool \<Rightarrow> ('w, 'p, artifact option) bact" where
  "save_screenshot D c p url full =
     bindA (driven (d_stamp D)) (\<lambda>ts.
     let path = screenshot_dir c @ ''/'' @ slugify url @ ''_'' @ ts @ ''.png'' in
     orelseA (bindA (driven (d_screenshot D p full)) (\<lambda>data.
       case data of
         Ready n \<Rightarrow> bindA (driven (d_write D path)) (\<lambda>_. retA (Some \<lparr>af_path = path, af_size = n\<rparr>))
       | Coroutine \<Rightarrow> failA (BrowserBuiltin TypeError))) None)"

definition save_html_archive ::
  "('w, 'p, 'c) driver \<Rightarrow> browser_config \<Rightarrow> string \<Rightarrow> string \<Rightarrow> ('w, 'p, artifact option) bact" where
  "save_html_archive D c url html =
     (if html = [] then retA None
      else bindA (driven (d_stamp D)) (\<lambda>ts.
        let path = archive_dir c @ ''/'' @ slugify url @ ''_'' @ ts @ ''.html'' in
        orelseA (bindA (driven (d_write D path)) (\<lambda>_. retA (Some \<lparr>af_path = path, af_size = length html\<rparr>))) None))"

section \<open>Interception\<close>

datatype verdict = BlockedType | BlockedHost | Continue

definition blocked_fragments :: "string list" where
  "blocked_fragments =
     [''doubleclick.net'', ''googlesyndication.com'', ''google-analytics.com'', ''googletagmanager.com'',
      ''facebook.net'', ''facebook.com/tr'', ''scorecardresearch.com'', ''adservice.google.'',
      ''amazon-adsystem.com'']"

definition intercept :: "string list \<Rightarrow> string list \<Rightarrow> string attribute \<Rightarrow> string attribute \<Rightarrow> verdict py" where
  "intercept types domains resource_type url =
     bindR (call_attribute resource_type) (\<lambda>ty.
     bindR (call_attribute url) (\<lambda>u.
     Inr (if (case ty of None \<Rightarrow> ''other'' | Some t \<Rightarrow> t) \<in> set types then BlockedType
          else if list_ex (\<lambda>d. has_substring d (lower (case u of None \<Rightarrow> [] | Some x \<Rightarrow> x))) (domains @ blocked_fragments)
          then BlockedHost
          else Continue)))"

section \<open>Fetching\<close>

record fetch_options =
  fo_session :: "string option"
  fo_cookies :: "string option"
  fo_screenshot :: bool
  fo_archive :: bool
  fo_full_page :: bool
  fo_use_pool :: bool
  fo_raise_on_captcha :: bool
  fo_retries :: "nat option"

record crawl_result =
  cr_url :: string
  final_url :: "string option"
  cr_status :: "int option"
  cr_title :: "string option"
  cr_html :: "string option"
  cr_text :: "string option"
  cr_screenshot :: "artifact option"
  cr_archive :: "artifact option"
  cr_captcha :: "captcha_check option"
  cr_blocked :: bool
  cr_cookies :: "json list"
  elapsed_ms :: int
  cr_error :: "fstring option"

record ('p, 'c) acquired =
  aq_page :: 'p
  aq_context :: 'c
  is_pooled :: bool
  aq_proxy :: "server_proxy option"

definition truthy_name :: "string option \<Rightarrow> bool" where
  "truthy_name x \<longleftrightarrow> x \<noteq> None \<and> x \<noteq> Some []"

definition acquire_page ::
  "('w, 'p, 'c) driver \<Rightarrow> browser_config \<Rightarrow> fetch_options \<Rightarrow> ('w, 'p, ('p, 'c) acquired) bact" where
  "acquire_page D c opt =
     (if fo_use_pool opt \<and> fo_session opt = None \<and> fo_cookies opt = None then
        bindA (checkout D c 30) (\<lambda>p.
        bindA (suppressA (driven (d_route D p))) (\<lambda>_.
        retA \<lparr>aq_page = p, aq_context = d_context D p, is_pooled = True, aq_proxy = None\<rparr>))
      else
        bindA (if truthy_name (fo_session opt) then load_state D (the (fo_session opt)) else retA []) (\<lambda>state.
        bindA (get_proxy D None) (\<lambda>proxy.
        bindA (new_context D c proxy state) (\<lambda>ctx.
        bindA (if truthy_name (fo_cookies opt) then bindA (apply_jar D (the (fo_cookies opt)) ctx) (\<lambda>_. retA ())
               else retA ()) (\<lambda>_.
        bindA (driven (d_new_page D ctx)) (\<lambda>p.
        bindA (suppressA (driven (d_route D p))) (\<lambda>_.
        retA \<lparr>aq_page = p, aq_context = ctx, is_pooled = False, aq_proxy = proxy\<rparr>)))))))"

definition navigate :: "('w, 'p, 'c) driver \<Rightarrow> browser_config \<Rightarrow> 'p \<Rightarrow> string \<Rightarrow> ('w, 'p, int option) bact" where
  "navigate D c p url =
     catchA (bindA (driven (d_goto D p url (navigation_timeout_ms c) (wait_until c))) (\<lambda>response.
       case response of None \<Rightarrow> retA None | Some status \<Rightarrow> builtin (call_attribute status)))
       (\<lambda>_. failA BrowserTimeoutError)"

text \<open>
  The session manager's \<open>save_state\<close> is not a coroutine: what it returns, \<open>None\<close>, cannot be awaited.
\<close>

definition on_captcha ::
  "('w, 'p, 'c) driver \<Rightarrow> fetch_options \<Rightarrow> string \<Rightarrow> captcha_check \<Rightarrow> ('w, 'p, 'a) bact" where
  "on_captcha D opt url check =
     (if truthy_name (fo_session opt)
      then bindA (save_state D (the (fo_session opt)) []) (\<lambda>_. failA (BrowserBuiltin TypeError))
      else failA (CaptchaDetectedError (provider check)
        [Lit ''CAPTCHA detected on '', Txt url, Lit '' ('', Txt (case provider check of None \<Rightarrow> ''None'' | Some p \<Rightarrow> p),
         Lit '')'']))"

definition safely :: "('w, 'a) io \<Rightarrow> ('w, 'p, 'a option) bact" where
  "safely f = orelseA (bindA (driven f) (\<lambda>x. retA (Some x))) None"

definition text_script :: string where
  "text_script = ''() => document.body ? document.body.innerText : '' @ quoted []"

text \<open>Navigation, detection and extraction: the result but for the time it took.\<close>

definition gather_page ::
  "('w, 'p, 'c) driver \<Rightarrow> browser_config \<Rightarrow> fetch_options \<Rightarrow> string \<Rightarrow> ('p, 'c) acquired
   \<Rightarrow> ('w, 'p, rat \<Rightarrow> crawl_result) bact" where
  "gather_page D c opt url aq =
     (let p = aq_page aq in
      bindA (answered (d_monotonic D)) (\<lambda>started.
      bindA (navigate D c p url) (\<lambda>status.
      bindA (check_captcha D (captcha_detection_enabled c) p url) (\<lambda>check.
      if detected check then on_captcha D opt url check
      else
        bindA (safely (d_title D p)) (\<lambda>title.
        bindA (safely (d_content D p)) (\<lambda>html.
        bindA (safely (d_evaluate D p text_script)) (\<lambda>body.
        bindA (safely (d_url D p)) (\<lambda>u.
        let final = (case non_empty u of None \<Rightarrow> url | Some x \<Rightarrow> x) in
        bindA (orelseA (driven (d_cookies D (aq_context aq))) []) (\<lambda>cookies.
        bindA (if truthy_name (fo_session opt) then persist_context D (the (fo_session opt)) (aq_context aq) else retA ()) (\<lambda>_.
        bindA (if truthy_name (fo_cookies opt) then persist_from_context D (the (fo_cookies opt)) (aq_context aq) else retA ()) (\<lambda>_.
        bindA (if fo_screenshot opt then save_screenshot D c p final (fo_full_page opt) else retA None) (\<lambda>shot.
        bindA (if fo_archive opt \<and> truthy_name html then save_html_archive D c final (the html) else retA None) (\<lambda>arch.
        retA (\<lambda>ended.
          \<lparr>cr_url = url, final_url = Some final, cr_status = status, cr_title = title, cr_html = html,
           cr_text = body, cr_screenshot = shot, cr_archive = arch, cr_captcha = Some check,
           cr_blocked = False, cr_cookies = cookies, elapsed_ms = trunc (fmul (fsub ended started) 1000),
           cr_error = None\<rparr>))))))))))))))"

text \<open>The field \<open>proxy\<close> of the result is text: a proxy's dictionary does not validate.\<close>

definition extract_page ::
  "('w, 'p, 'c) driver \<Rightarrow> browser_config \<Rightarrow> fetch_options \<Rightarrow> string \<Rightarrow> ('p, 'c) acquired \<Rightarrow> ('w, 'p, crawl_result) bact" where
  "extract_page D c opt url aq =
     bindA (gather_page D c opt url aq) (\<lambda>result.
     bindA (if is_pooled aq then checkin D (aq_page aq) else retA ()) (\<lambda>_.
     bindA (answered (d_monotonic D)) (\<lambda>ended.
     if aq_proxy aq \<noteq> None then failA (BrowserBuiltin ValidationError) else retA (result ended))))"

definition release :: "('w, 'p, 'c) driver \<Rightarrow> ('p, 'c) acquired \<Rightarrow> ('w, 'p, unit) bact" where
  "release D aq =
     (if is_pooled aq then suppressA (discard D (aq_page aq))
      else suppressA (catchA (driven (d_close_context D (d_context D (aq_page aq))))
             (\<lambda>_. driven (d_close_page D (aq_page aq)))))"

definition mark_failure_and_rotate :: "('w, 'p, 'c) driver \<Rightarrow> ('w, 'p, unit) bact" where
  "mark_failure_and_rotate D s =
     bindA (orelseA (get_proxy D None) None) (\<lambda>p s. (Inr (), s\<lparr>last_proxy := p\<rparr>))
       (case last_proxy s of None \<Rightarrow> s | Some q \<Rightarrow> s\<lparr>proxies := mark_failure (Some q) (proxies s)\<rparr>)"

text \<open>What an exception does before it is raised again: \<open>page\<close> is what was acquired, if anything.\<close>

fun on_failure :: "('w, 'p, 'c) driver \<Rightarrow> ('p, 'c) acquired option \<Rightarrow> crawl_error \<Rightarrow> ('w, 'p, unit) bact" where
  "on_failure D page ProxyError = mark_failure_and_rotate D"
| "on_failure D page BrowserRateLimitError = mark_failure_and_rotate D"
| "on_failure D None e = retA ()"
| "on_failure D (Some aq) e = release D aq"

definition fetch_attempt ::
  "('w, 'p, 'c) driver \<Rightarrow> browser_config \<Rightarrow> fetch_options \<Rightarrow> string \<Rightarrow> ('w, 'p, crawl_result) bact" where
  "fetch_attempt D c opt url =
     bindA (acquire D) (\<lambda>delay.
     bindA (if delay \<noteq> 0 then sleeping D delay else retA ()) (\<lambda>_ s.
       (case acquire_page D c opt s of
          (Inl e, s') \<Rightarrow> bindA (on_failure D None e) (\<lambda>_. failA e) s'
        | (Inr aq, s') \<Rightarrow>
            catchA (extract_page D c opt url aq) (\<lambda>e. bindA (on_failure D (Some aq) e) (\<lambda>_. failA e)) s')))"

definition blocked_result :: "string \<Rightarrow> string option \<Rightarrow> fstring \<Rightarrow> crawl_result" where
  "blocked_result url prov msg =
     \<lparr>cr_url = url, final_url = None, cr_status = None, cr_title = None, cr_html = None, cr_text = None,
      cr_screenshot = None, cr_archive = None,
      cr_captcha = Some \<lparr>detected = True, provider = prov, confidence = fl (9 / 10), reason = [msg], page_url = None\<rparr>,
      cr_blocked = True, cr_cookies = [], elapsed_ms = 0, cr_error = Some msg\<rparr>"

definition fetch ::
  "('w, 'p, 'c) driver \<Rightarrow> browser_config \<Rightarrow> fetch_options \<Rightarrow> string \<Rightarrow> ('w, 'p, crawl_result) bact" where
  "fetch D c opt url =
     bindA (launch D c) (\<lambda>_ s.
       catchA
         (retry_async D (case fo_retries opt of None \<Rightarrow> max_retries c | Some n \<Rightarrow> n)
            (retry_backoff_base_ms c) 30000 (fetch_attempt D c opt url))
         (\<lambda>e. case e of
            CaptchaDetectedError prov msg \<Rightarrow>
              if fo_raise_on_captcha opt then failA e else retA (blocked_result url prov msg)
          | _ \<Rightarrow> failA e) (s\<lparr>last_proxy := None\<rparr>))"

end
