(* ===== verification/BrowserProps.thy ===== *)
theory BrowserProps
  imports Crawler
begin

text \<open>
  The properties of the browser framework: the page pool under any interleaving of tasks, what a
  fetch leaves behind, why none succeeds over the asynchronous Playwright, and the rate that the
  limiter really allows.
\<close>

section \<open>What an operation may raise\<close>

definition raises_only :: "('e \<Rightarrow> bool) \<Rightarrow> ('s, 'e, 'a) act \<Rightarrow> bool" where
  "raises_only E m \<longleftrightarrow> (\<forall>s e s'. m s = (Inl e, s') \<longrightarrow> E e)"

named_theorems raises

lemma raises_only_bind [raises]:
  "raises_only E m \<Longrightarrow> (\<And>x. raises_only E (f x)) \<Longrightarrow> raises_only E (bindA m f)"
  unfolding raises_only_def bindA_Inl by blast

lemma raises_only_catch:
  "(\<And>e. raises_only E (h e)) \<Longrightarrow> raises_only E (catchA m h)"
  unfolding raises_only_def catchA_def by (auto split: prod.splits sum.splits)

lemma raises_only_pure [raises]:
  "raises_only E (retA x)" "E e \<Longrightarrow> raises_only E (failA e)" "raises_only E (readA g)"
  "raises_only E (suppressA m)"
  by (auto simp: raises_only_def suppressA_def)

lemma raises_only_world [raises]: "raises_only E (answered f)" "raises_only E (sleeping D d)"
  by (auto simp: raises_only_def answered_def sleeping_def split: prod.splits)

lemma raises_only_orelse [raises]: "raises_only E (orelseA m d)"
  unfolding orelseA_def by (intro raises_only_catch raises)

lemma raises_only_safely [raises]: "raises_only E (safely f)"
  by (simp add: safely_def raises)

lemma raises_only_driven [raises]: "(\<And>e. E (DriverError e)) \<Longrightarrow> raises_only E (driven f)"
  by (auto simp: raises_only_def driven_def split: prod.splits sum.splits)

lemma raises_only_if [raises]:
  "(b \<Longrightarrow> raises_only E m) \<Longrightarrow> (\<not> b \<Longrightarrow> raises_only E m') \<Longrightarrow> raises_only E (if b then m else m')"
  by simp

lemma raises_onlyI: "(\<And>s e s'. m s = (Inl e, s') \<Longrightarrow> E e) \<Longrightarrow> raises_only E m"
  unfolding raises_only_def by blast

lemma raises_onlyD: "raises_only E m \<Longrightarrow> m s = (Inl e, s') \<Longrightarrow> E e"
  unfolding raises_only_def by blast

text \<open>What an operation does to the state, whatever it answers.\<close>

named_theorems kept

lemma keeps_if [kept]: "(b \<Longrightarrow> keeps R m) \<Longrightarrow> (\<not> b \<Longrightarrow> keeps R m') \<Longrightarrow> keeps R (if b then m else m')"
  by simp

section \<open>The page pool\<close>

text \<open>Pages exist once: \<open>made w\<close> are those the browser has made, and a new page is not among them.\<close>

definition grows :: "('w \<Rightarrow> 'p set) \<Rightarrow> ('w \<Rightarrow> 'a \<times> 'w) \<Rightarrow> bool" where
  "grows made f \<longleftrightarrow> (\<forall>w. made w \<subseteq> made (snd (f w)))"

definition lawful_pages :: "('w, 'p, 'c) driver \<Rightarrow> ('w \<Rightarrow> 'p set) \<Rightarrow> bool" where
  "lawful_pages D made \<longleftrightarrow>
     grows made (d_monotonic D) \<and> (\<forall>n. grows made (d_choice D n)) \<and> (\<forall>a b. grows made (d_randint D a b))
     \<and> (\<forall>a b. grows made (d_uniform D a b)) \<and> grows made (d_random D) \<and> grows made (d_stamp D)
     \<and> (\<forall>d w. made w \<subseteq> made (d_sleep D d w))
     \<and> grows made (d_start D) \<and> grows made (d_stop D) \<and> (\<forall>x. grows made (d_launch D x))
     \<and> (\<forall>x. grows made (d_new_context D x)) \<and> (\<forall>x y. grows made (d_add_cookies D x y))
     \<and> (\<forall>p. grows made (d_route D p)) \<and> (\<forall>p u t x. grows made (d_goto D p u t x))
     \<and> (\<forall>p x. grows made (d_count D p x)) \<and> (\<forall>p. grows made (d_title D p))
     \<and> (\<forall>p x. grows made (d_evaluate D p x)) \<and> (\<forall>p. grows made (d_content D p))
     \<and> (\<forall>p. grows made (d_url D p)) \<and> (\<forall>x. grows made (d_cookies D x))
     \<and> (\<forall>x. grows made (d_storage_state D x)) \<and> (\<forall>p x. grows made (d_screenshot D p x))
     \<and> (\<forall>p. grows made (d_close_page D p)) \<and> (\<forall>x. grows made (d_close_context D x))
     \<and> (\<forall>x. grows made (d_write D x)) \<and> (\<forall>x. grows made (d_read D x))
     \<and> (\<forall>x. grows made (d_new_page D x))
     \<and> (\<forall>x w p w'. d_new_page D x w = (Inr p, w') \<longrightarrow> p \<notin> made w \<and> p \<in> made w')"

definition pool_pages :: "('w, 'p) browser \<Rightarrow> 'p list" where
  "pool_pages s = map snd (idle s) @ in_use s"

text \<open>The pool holds pages that were made, each once, and not more than it may.\<close>

definition pool_ok :: "('w \<Rightarrow> 'p set) \<Rightarrow> browser_config \<Rightarrow> ('w, 'p) browser \<Rightarrow> bool" where
  "pool_ok made c s \<longleftrightarrow>
     distinct (pool_pages s) \<and> set (pool_pages s) \<subseteq> made (world s) \<and> pool_size s \<le> pool_max c"

text \<open>Steps that leave the pool alone.\<close>

definition apart :: "('w \<Rightarrow> 'p set) \<Rightarrow> ('w, 'p) browser \<Rightarrow> ('w, 'p) browser \<Rightarrow> bool" where
  "apart made s s' \<longleftrightarrow> idle s' = idle s \<and> in_use s' = in_use s \<and> made (world s) \<subseteq> made (world s')
     \<and> pp_failures (proxies s') = pp_failures (proxies s) \<and> pp_banned (proxies s') = pp_banned (proxies s)"

lemma apart_preorder [simp]: "reflp (apart made)" "transp (apart made)"
  by (auto simp: reflp_def transp_def apart_def)

lemma pool_ok_apart: "apart made s s' \<Longrightarrow> pool_ok made c s \<Longrightarrow> pool_ok made c s'"
  by (auto simp: apart_def pool_ok_def pool_pages_def pool_size_def)

lemma keeps_driven [kept]: "grows made f \<Longrightarrow> keeps (apart made) (driven f)"
  by (auto simp: keeps_def driven_def apart_def grows_def split: prod.splits sum.splits) (metis snd_conv subsetD)+

lemma keeps_answered [kept]: "grows made f \<Longrightarrow> keeps (apart made) (answered f)"
  by (auto simp: keeps_def answered_def apart_def grows_def split: prod.splits) (metis snd_conv subsetD)+

lemmas keeps_apart [kept] =
  keeps_bind [OF apart_preorder(2)] keeps_catch [OF apart_preorder(2)] keeps_pure [OF apart_preorder(1)]
  keeps_orelse [OF apart_preorder(2,1)] keeps_suppress

lemma keepsI: "(\<And>s. R s (snd (m s))) \<Longrightarrow> keeps R m"
  by (simp add: keeps_def)

lemma keeps_at: "keeps R m \<Longrightarrow> R s (snd (m s))"
  by (simp add: keeps_def)

lemma keeps_option [kept]:
  "(x = None \<Longrightarrow> keeps R a) \<Longrightarrow> (\<And>y. x = Some y \<Longrightarrow> keeps R (b y)) \<Longrightarrow> keeps R (case x of None \<Rightarrow> a | Some y \<Rightarrow> b y)"
  by (cases x) auto

lemma keeps_unawaited [kept]:
  "(\<And>y. x = Ready y \<Longrightarrow> keeps R (a y)) \<Longrightarrow> (x = Coroutine \<Longrightarrow> keeps R b) \<Longrightarrow> keeps R (case x of Ready y \<Rightarrow> a y | Coroutine \<Rightarrow> b)"
  by (cases x) auto

lemma keeps_Let [kept]: "(\<And>y. y = x \<Longrightarrow> keeps R (f y)) \<Longrightarrow> keeps R (let y = x in f y)"
  by simp

lemma growing:
  assumes "lawful_pages D made"
  shows "grows made (d_monotonic D)" "grows made (d_choice D n)" "grows made (d_randint D a b)"
    "grows made (d_uniform D a b)" "grows made (d_random D)" "grows made (d_stamp D)"
    "grows made (d_start D)" "grows made (d_stop D)" "grows made (d_launch D lo)"
    "grows made (d_new_context D co)" "grows made (d_add_cookies D ctx cs)" "grows made (d_route D p)"
    "grows made (d_goto D p u t x)" "grows made (d_count D p u)" "grows made (d_title D p)"
    "grows made (d_evaluate D p u)" "grows made (d_content D p)" "grows made (d_url D p)"
    "grows made (d_cookies D ctx)" "grows made (d_storage_state D ctx)" "grows made (d_screenshot D p full)"
    "grows made (d_close_page D p)" "grows made (d_close_context D ctx)" "grows made (d_write D u)"
    "grows made (d_read D u)" "grows made (d_new_page D ctx)"
  using assms by (simp_all add: lawful_pages_def)

lemma keeps_sleeping [kept]: "lawful_pages D made \<Longrightarrow> keeps (apart made) (sleeping D d)"
  by (auto simp: keeps_def sleeping_def apart_def lawful_pages_def)

text \<open>Fields of the state that the pool does not see.\<close>

lemma apart_update [simp]:
  "apart made s (s\<lparr>launched := x\<rparr>)" "apart made s (s\<lparr>playwright := x\<rparr>)" "apart made s (s\<lparr>the_limiter := l\<rparr>)"
  "apart made s (s\<lparr>session_files := f\<rparr>)" "apart made s (s\<lparr>cookie_file := k\<rparr>)" "apart made s (s\<lparr>last_proxy := q\<rparr>)"
  "apart made s (s\<lparr>proxies := (proxies s)\<lparr>pp_next := n\<rparr>\<rparr>)" "apart made s s"
  by (simp_all add: apart_def)

lemma apart_trans: "apart made s t \<Longrightarrow> apart made t u \<Longrightarrow> apart made s u"
  by (auto simp: apart_def)

lemma keeps_apply: "keeps (apart made) m \<Longrightarrow> apart made s t \<Longrightarrow> apart made s (snd (m t))"
  unfolding keeps_def using apart_trans by blast

lemma keeps_fun [kept]: "keeps R (\<lambda>s. (r, f s))" if "\<And>s. R s (f s)"
  using that by (simp add: keeps_def)

lemma keeps_random_choice [kept]: "lawful_pages D made \<Longrightarrow> keeps (apart made) (random_choice D xs)"
  unfolding random_choice_def by (intro kept growing)

lemma keeps_generate_fingerprint [kept]: "lawful_pages D made \<Longrightarrow> keeps (apart made) (generate_fingerprint D c)"
  unfolding generate_fingerprint_def by (intro kept growing)

lemma keeps_get_proxy [kept]: "lawful_pages D made \<Longrightarrow> keeps (apart made) (get_proxy D key)"
proof (rule keepsI)
  fix s :: "('a, 'b) browser"
  assume L: "lawful_pages D made"
  have "keeps (apart made) (bindA (answered (d_choice D (length (available_proxies (proxies s)))))
      (\<lambda>j. retA (Some (to_playwright (pp_proxies (proxies s) ! (available_proxies (proxies s) ! j))))))"
    using L by (intro kept growing)
  then show "apart made s (snd (get_proxy D key s))"
    by (auto simp: get_proxy_def Let_def keeps_at split: option.splits)
qed

lemma keeps_new_context [kept]: "lawful_pages D made \<Longrightarrow> keeps (apart made) (new_context D c q st)"
proof -
  assume L: "lawful_pages D made"
  have body: "keeps (apart made) (bindA (driven (d_new_context D co)) (\<lambda>ctx. case map_of st ''cookies'' of
      Some (JList (k # ks)) \<Rightarrow> bindA (suppressA (driven (d_add_cookies D ctx (k # ks)))) (\<lambda>_. retA ctx)
    | _ \<Rightarrow> retA ctx))" for co
  proof (intro kept growing L, goal_cases)
    case (1 ctx)
    have "keeps (apart made) (bindA (suppressA (driven (d_add_cookies D ctx (k # ks)))) (\<lambda>_. retA ctx))" for k ks
      using L by (intro kept growing)
    then show ?case by (auto split: option.splits json.splits list.splits intro: kept)
  qed
  have "keeps (apart made) (\<lambda>s. if \<not> launched s then (Inl e, s) else bindA (driven (d_new_context D co)) (\<lambda>ctx. case map_of st ''cookies'' of
      Some (JList (k # ks)) \<Rightarrow> bindA (suppressA (driven (d_add_cookies D ctx (k # ks)))) (\<lambda>_. retA ctx)
    | _ \<Rightarrow> retA ctx) s)" for co e
    using body [of co] by (simp add: keeps_def)
  then show ?thesis unfolding new_context_def using L by (intro kept growing) auto
qed

subsection \<open>One turn of a task\<close>

lemma recycle_loop_result:
  assumes "lawful_pages D made"
  shows "\<exists>t. apart made s t
    \<and> recycle_loop D now limit keep xs s
       = (Inr (), t\<lparr>idle := keep @ filter (\<lambda>(ts, p). \<not> of_int limit < fsub now ts) xs\<rparr>)"
proof (induction xs arbitrary: keep s)
  case (Cons x xs)
  obtain t p where x: "x = (t, p)" by (cases x)
  have step: "keeps (apart made) (suppressA (driven (d_close_page D p)))" using assms by (intro kept growing)
  show ?case
  proof (cases "of_int limit < fsub now t")
    case True
    define s1 where "s1 = snd (driven (d_close_page D p) s)"
    have s1: "suppressA (driven (d_close_page D p)) s = (Inr (), s1)" by (simp add: suppressA_def s1_def)
    have a1: "apart made s s1" by (rule keepsD [OF step s1])
    from Cons.IH [of s1 keep] obtain u where u: "apart made s1 u"
      "recycle_loop D now limit keep xs s1 = (Inr (), u\<lparr>idle := keep @ filter (\<lambda>(ts, p). \<not> of_int limit < fsub now ts) xs\<rparr>)"
      by blast
    then show ?thesis using s1 True apart_trans [OF a1 u(1)] by (intro exI [of _ u]) (simp add: x)
  next
    case False
    with Cons.IH [of s "keep @ [(t, p)]"] show ?thesis by (auto simp: x)
  qed
next
  case Nil
  show ?case by (rule exI [of _ s]) simp
qed

lemma pool_ok_drop:
  assumes "pool_ok made c s" and "apart made s t"
  shows "pool_ok made c (t\<lparr>idle := filter P (idle s)\<rparr>)"
proof -
  have "length (filter P (idle s)) + length (in_use s) \<le> length (idle s) + length (in_use s)" by simp
  also have "\<dots> \<le> pool_max c" using assms(1) by (simp add: pool_ok_def pool_size_def)
  finally have size: "length (filter P (idle s)) + length (in_use s) \<le> pool_max c" .
  have "distinct (map snd (filter P (idle s)) @ in_use s)"
    using assms(1) by (auto simp: pool_ok_def pool_pages_def distinct_map_filter)
  then show ?thesis using assms size by (auto simp: pool_ok_def pool_pages_def pool_size_def apart_def)
qed

text \<open>What a turn leads to: a page that nobody holds, or no page, the other holders keeping theirs.\<close>

lemma checkout_turn_ok:
  assumes L: "lawful_pages D made" and ok: "pool_ok made c s" and turn: "checkout_turn D c s = (r, s')"
  shows "pool_ok made c s'" and "pp_failures (proxies s') = pp_failures (proxies s)"
    and "pp_banned (proxies s') = pp_banned (proxies s)"
    and "case r of Inr (Some p) \<Rightarrow> p \<notin> set (in_use s) \<and> in_use s' = p # in_use s | _ \<Rightarrow> in_use s' = in_use s"
proof -
  have clock: "keeps (apart made) (answered (d_monotonic D))" using L by (intro kept growing)
  obtain now s0 where ans: "answered (d_monotonic D) s = (Inr now, s0)"
    by (cases "d_monotonic D (world s)") (simp add: answered_def)
  note n = ans keepsD [OF clock ans]
  obtain t where t: "apart made s0 t" and rc: "recycle_loop D now (page_idle_timeout_seconds c) [] (idle s0) s0
      = (Inr (), t\<lparr>idle := filter (\<lambda>(ts, p). \<not> of_int (page_idle_timeout_seconds c) < fsub now ts) (idle s0)\<rparr>)"
    using recycle_loop_result [OF L, of s0 now "page_idle_timeout_seconds c" "[]" "idle s0"] by auto
  define s1 where "s1 = t\<lparr>idle := filter (\<lambda>(ts, p). \<not> of_int (page_idle_timeout_seconds c) < fsub now ts) (idle s0)\<rparr>"
  have rec: "recycle_idle D c s = (Inr (), s1)" using n rc by (simp add: recycle_idle_def s1_def)
  have idle0: "idle s0 = idle s" using n(2) by (simp add: apart_def)
  have ok1: "pool_ok made c s1"
    unfolding s1_def idle0 by (rule pool_ok_drop [OF ok apart_trans [OF n(2) t]])
  have same: "in_use s1 = in_use s" "pp_failures (proxies s1) = pp_failures (proxies s)" "pp_banned (proxies s1) = pp_banned (proxies s)"
    using n(2) t by (simp_all add: s1_def apart_def)
  have "pool_ok made c s' \<and> pp_failures (proxies s') = pp_failures (proxies s1) \<and> pp_banned (proxies s') = pp_banned (proxies s1)
    \<and> (case r of Inr (Some p) \<Rightarrow> p \<notin> set (in_use s1) \<and> in_use s' = p # in_use s1 | _ \<Rightarrow> in_use s' = in_use s1)"
  proof (cases "idle s1")
    case (Cons x rest)
    then obtain a p where x: "idle s1 = (a, p) # rest" by (cases x) auto
    then have p: "p \<notin> set (in_use s1)" using ok1 by (simp add: pool_ok_def pool_pages_def)
    then have "r = Inr (Some p)" "s' = s1\<lparr>idle := rest, in_use := p # in_use s1\<rparr>"
      using turn rec x by (simp_all add: checkout_turn_def add_in_use_def)
    then show ?thesis using ok1 x p by (auto simp: pool_ok_def pool_pages_def pool_size_def)
  next
    case Nil
    show ?thesis
    proof (cases "pool_size s1 < pool_max c")
      case False
      then have "r = Inr None" "s' = s1" using turn rec Nil by (simp_all add: checkout_turn_def)
      then show ?thesis using ok1 by simp
    next
      case True
      have make: "bindA (new_context D c None []) (\<lambda>ctx. bindA (driven (d_new_page D ctx)) add_in_use) s1 = (r, s')"
        using turn rec Nil True by (simp add: checkout_turn_def)
      obtain q s2 where q: "new_context D c None [] s1 = (q, s2)" by (cases "new_context D c None [] s1")
      have a2: "apart made s1 s2" using keepsD [OF keeps_new_context [OF L] q] .
      show ?thesis
      proof (cases q)
        case (Inl e)
        then show ?thesis using make q a2 pool_ok_apart [OF a2 ok1] by (auto simp: apart_def)
      next
        case (Inr ctx)
        have kp: "keeps (apart made) (driven (d_new_page D ctx))" using L by (intro kept growing)
        obtain q' s3 where q': "driven (d_new_page D ctx) s2 = (q', s3)" by (cases "driven (d_new_page D ctx) s2")
        have a3: "apart made s1 s3" using apart_trans [OF a2 keepsD [OF kp q']] .
        note ok3 = pool_ok_apart [OF a3 ok1]
        show ?thesis
        proof (cases q')
          case (Inl e)
          then show ?thesis using make q q' Inr a3 ok3 by (auto simp: apart_def)
        next
          case (Inr p)
          then obtain w where w: "d_new_page D ctx (world s2) = (Inr p, w)" "world s3 = w"
            using q' by (auto simp: driven_def split: prod.splits sum.splits)
          then have fresh: "p \<notin> made (world s2)" "p \<in> made (world s3)"
            using L unfolding lawful_pages_def by blast+
          have "set (pool_pages s1) \<subseteq> made (world s2)"
            using ok1 a2 by (auto simp: pool_ok_def apart_def)
          then have new: "p \<notin> set (pool_pages s1)" using fresh(1) by blast
          have s': "r = Inr (Some p)" "s' = s3\<lparr>in_use := List.insert p (in_use s3)\<rparr>"
            using make q q' \<open>q = Inr ctx\<close> Inr by (simp_all add: add_in_use_def)
          then show ?thesis using new ok3 a3 True fresh(2) Nil
            by (auto simp: pool_ok_def pool_pages_def pool_size_def apart_def)
        qed
      qed
    qed
  qed
  then show "pool_ok made c s'" "pp_failures (proxies s') = pp_failures (proxies s)"
    "pp_banned (proxies s') = pp_banned (proxies s)"
    "case r of Inr (Some p) \<Rightarrow> p \<notin> set (in_use s) \<and> in_use s' = p # in_use s | _ \<Rightarrow> in_use s' = in_use s"
    by (simp_all add: same split: sum.splits option.splits)
qed

lemma checkin_ok:
  assumes L: "lawful_pages D made" and ok: "pool_ok made c s" and run: "checkin D p s = (r, s')"
  shows "pool_ok made c s' \<and> in_use s' = removeAll p (in_use s)
    \<and> pp_failures (proxies s') = pp_failures (proxies s) \<and> pp_banned (proxies s') = pp_banned (proxies s)"
proof (cases "p \<in> set (in_use s)")
  case False
  then show ?thesis using run ok by (auto simp: checkin_def)
next
  case True
  let ?t = "s\<lparr>in_use := removeAll p (in_use s)\<rparr>"
  obtain now w where m: "d_monotonic D (world s) = (now, w)" by (cases "d_monotonic D (world s)")
  then have s': "s' = ?t\<lparr>world := w, idle := idle s @ [(now, p)]\<rparr>"
    using run True by (auto simp: checkin_def answered_def bindA_def)
  have "made (world s) \<subseteq> made w" using growing(1) [OF L] m by (auto simp: grows_def) (metis snd_conv subsetD)
  moreover have "distinct (map snd (idle s) @ p # removeAll p (in_use s))"
    "length (removeAll p (in_use s)) = length (in_use s) - 1"
    using ok True by (auto simp: pool_ok_def pool_pages_def distinct_removeAll distinct_remove1_removeAll [symmetric] length_remove1)
  moreover have "Suc (length (idle s) + (length (in_use s) - 1)) \<le> pool_max c"
  proof -
    have "0 < length (in_use s)" using True by (rule length_pos_if_in_set)
    moreover have "length (idle s) + length (in_use s) \<le> pool_max c" using ok by (simp add: pool_ok_def pool_size_def)
    ultimately show ?thesis by linarith
  qed
  ultimately show ?thesis using ok True unfolding s' by (auto simp: pool_ok_def pool_pages_def pool_size_def)
qed

lemma discard_ok:
  assumes L: "lawful_pages D made" and ok: "pool_ok made c s" and run: "discard D p s = (r, s')"
  shows "pool_ok made c s' \<and> in_use s' = removeAll p (in_use s)
    \<and> pp_failures (proxies s') = pp_failures (proxies s) \<and> pp_banned (proxies s') = pp_banned (proxies s)"
proof -
  let ?t = "s\<lparr>in_use := removeAll p (in_use s)\<rparr>"
  have "length (idle s) + length (removeAll p (in_use s)) \<le> length (idle s) + length (in_use s)"
    using length_filter_le [of _ "in_use s"] by (simp add: removeAll_filter_not_eq)
  also have "\<dots> \<le> pool_max c" using ok by (simp add: pool_ok_def pool_size_def)
  finally have size: "length (idle s) + length (removeAll p (in_use s)) \<le> pool_max c" .
  have t: "pool_ok made c ?t" using ok size by (auto simp: pool_ok_def pool_pages_def pool_size_def distinct_removeAll)
  have "keeps (apart made) (suppressA (driven (d_close_page D p)))" using L by (intro kept growing)
  then have "apart made ?t s'" using run by (auto simp: discard_def dest: keepsD)
  then show ?thesis using pool_ok_apart [OF _ t] by (auto simp: apart_def)
qed

lemma keeps_close_all [kept]: "lawful_pages D made \<Longrightarrow> keeps (apart made) (close_all D ps)"
  by (induction ps) (auto intro!: kept growing)

lemma clear_pool_ok:
  assumes L: "lawful_pages D made" and ok: "pool_ok made c s" and run: "clear_pool D s = (r, s')"
  shows "pool_ok made c s' \<and> in_use s' = []"
proof -
  let ?t = "s\<lparr>idle := [], in_use := []\<rparr>"
  have t: "pool_ok made c ?t" by (simp add: pool_ok_def pool_pages_def pool_size_def)
  have "apart made ?t s'" using run keeps_close_all [OF L] by (auto simp: clear_pool_def dest: keepsD)
  then show ?thesis using pool_ok_apart [OF _ t] by (auto simp: apart_def)
qed

subsection \<open>Any number of tasks\<close>

text \<open>
  The operations of the pool exclude each other by its lock; between them tasks do anything that
  leaves the pool alone. A task may return or discard any page at any time.
\<close>

inductive pool_step :: "('w, 'p, 'c) driver \<Rightarrow> ('w \<Rightarrow> 'p set) \<Rightarrow> browser_config \<Rightarrow> ('w, 'p) browser \<Rightarrow> ('w, 'p) browser \<Rightarrow> bool"
  for D made c where
  turn: "checkout_turn D c s = (r, s') \<Longrightarrow> pool_step D made c s s'"
| checkin: "checkin D p s = (r, s') \<Longrightarrow> pool_step D made c s s'"
| discard: "discard D p s = (r, s') \<Longrightarrow> pool_step D made c s s'"
| clear: "clear_pool D s = (r, s') \<Longrightarrow> pool_step D made c s s'"
| elsewhere: "apart made s s' \<Longrightarrow> pool_step D made c s s'"

inductive pool_reach :: "('w, 'p, 'c) driver \<Rightarrow> ('w \<Rightarrow> 'p set) \<Rightarrow> browser_config \<Rightarrow> ('w, 'p) browser \<Rightarrow> ('w, 'p) browser \<Rightarrow> bool"
  for D made c s where
  start: "pool_reach D made c s s"
| step: "pool_reach D made c s t \<Longrightarrow> pool_step D made c t u \<Longrightarrow> pool_reach D made c s u"

lemma pool_step_ok:
  assumes "lawful_pages D made" and "pool_step D made c s s'" and "pool_ok made c s"
  shows "pool_ok made c s'"
  using assms(2)
proof cases
  case (turn r)
  then show ?thesis using checkout_turn_ok(1) [OF assms(1,3)] by blast
next
  case (checkin p r)
  then show ?thesis using checkin_ok [OF assms(1,3)] by blast
next
  case (discard p r)
  then show ?thesis using discard_ok [OF assms(1,3)] by blast
next
  case (clear r)
  then show ?thesis using clear_pool_ok [OF assms(1,3)] by blast
next
  case elsewhere
  then show ?thesis using pool_ok_apart [OF _ assms(3)] by blast
qed

text \<open>C12: Whatever tasks do with the page pool in whatever order, it never holds more pages than it
  may, idle and in use together, no page stands in it twice, and a page that a task is given is
  held by no other.\<close>
theorem pool_exclusive:
  assumes "lawful_pages D made" and "idle s = []" and "in_use s = []" and "pool_reach D made c s t"
  shows "pool_size t \<le> pool_max c \<and> distinct (map snd (idle t) @ in_use t)
    \<and> (case checkout_turn D c t of
         (Inr (Some p), u) \<Rightarrow> p \<notin> set (in_use t) \<and> in_use u = p # in_use t
       | (_, u) \<Rightarrow> in_use u = in_use t)"
proof -
  have start: "pool_ok made c s" using assms(2,3) by (simp add: pool_ok_def pool_pages_def pool_size_def)
  from assms(4) have ok: "pool_ok made c t"
    by induction (use start pool_step_ok [OF assms(1)] in blast)+
  obtain r u where turn: "checkout_turn D c t = (r, u)" by (cases "checkout_turn D c t")
  from checkout_turn_ok(4) [OF assms(1) ok turn] ok show ?thesis
    unfolding turn pool_ok_def pool_pages_def by (auto split: sum.splits option.splits)
qed

section \<open>Operations that leave the pool alone\<close>

lemma keeps_random_delay [kept]: "lawful_pages D made \<Longrightarrow> keeps (apart made) (random_delay D)"
proof (rule keepsI)
  fix s :: "('a, 'b) browser"
  assume L: "lawful_pages D made"
  have "keeps (apart made) (bindA (answered (d_uniform D a b)) (\<lambda>x. retA (fdiv x 1000)))" for a b
    using L by (intro kept growing)
  then show "apart made s (snd (random_delay D s))" by (simp add: random_delay_def Let_def keeps_at)
qed

lemma keeps_acquire [kept]: "lawful_pages D made \<Longrightarrow> keeps (apart made) (acquire D)"
proof (rule keepsI)
  fix s :: "('a, 'b) browser"
  assume L: "lawful_pages D made"
  have "keeps (apart made) (bindA (answered (d_monotonic D)) (\<lambda>now s.
      (case take_token rate now (the_limiter s) of
         (d, l) \<Rightarrow> bindA (if 0 < d then sleeping D d else retA ()) (\<lambda>_. random_delay D) (s\<lparr>the_limiter := l\<rparr>))))" for rate
  proof (intro kept growing L keepsI, goal_cases)
    case (1 now t)
    obtain d l where dl: "take_token rate now (the_limiter t) = (d, l)" by (cases "take_token rate now (the_limiter t)")
    have "keeps (apart made) (bindA (if 0 < d then sleeping D d else retA ()) (\<lambda>_. random_delay D))"
      using L by (intro kept)
    then show ?case by (simp add: dl keeps_apply)
  qed
  moreover have "keeps (apart made) (random_delay D)" using L by (rule kept)
  ultimately show "apart made s (snd (acquire D s))" by (cases "lm_rate (the_limiter s)") (simp_all add: acquire_def keeps_at)
qed

lemma keeps_stop [kept]: "lawful_pages D made \<Longrightarrow> keeps (apart made) (stop_playwright D)"
proof (rule keepsI)
  fix s :: "('a, 'b) browser"
  assume L: "lawful_pages D made"
  have "keeps (apart made) (bindA (suppressA (driven (d_stop D))) (\<lambda>_ s. (Inr (), s\<lparr>playwright := False\<rparr>)))"
    using L by (intro kept growing) simp_all
  then show "apart made s (snd (stop_playwright D s))" by (simp add: stop_playwright_def keeps_at)
qed

lemma keeps_launch [kept]: "lawful_pages D made \<Longrightarrow> keeps (apart made) (launch D c)"
proof (rule keepsI)
  fix s :: "('a, 'b) browser"
  assume L: "lawful_pages D made"
  have inner: "keeps (apart made) (bindA (catchA (driven (d_launch D (launch_options_of c)))
      (\<lambda>e. bindA (stop_playwright D) (\<lambda>_. failA (as_launch_error e)))) (\<lambda>_ s. (Inr (), s\<lparr>launched := True\<rparr>)))"
    using L by (intro kept growing) simp_all
  have "keeps (apart made) (bindA (catchA (driven (d_start D)) (\<lambda>e. failA (as_launch_error e))) (\<lambda>_ s.
      bindA (catchA (driven (d_launch D (launch_options_of c)))
        (\<lambda>e. bindA (stop_playwright D) (\<lambda>_. failA (as_launch_error e)))) (\<lambda>_ s. (Inr (), s\<lparr>launched := True\<rparr>))
        (s\<lparr>playwright := True\<rparr>)))"
    using L by (intro kept growing keepsI) (simp_all add: keeps_apply [OF inner])
  then show "apart made s (snd (launch D c s))" by (simp add: launch_def keeps_at)
qed

lemma keeps_load_state [kept]: "lawful_pages D made \<Longrightarrow> keeps (apart made) (load_state D name)"
proof (rule keepsI)
  fix s :: "('a, 'b) browser"
  assume L: "lawful_pages D made"
  have "keeps (apart made) (catchA (bindA (driven (d_read D (session_file name))) (\<lambda>_. retA st)) (\<lambda>_. failA SessionPersistError))"
    for st :: "(string \<times> json) list"
    using L by (intro kept growing)
  then show "apart made s (snd (load_state D name s))" by (cases "map_of (session_files s) (session_file name)") (simp_all add: load_state_def keeps_at)
qed

lemma keeps_save_state [kept]: "lawful_pages D made \<Longrightarrow> keeps (apart made) (save_state D name st)"
  unfolding save_state_def by (intro kept growing) simp_all

lemma keeps_persist_context [kept]: "lawful_pages D made \<Longrightarrow> keeps (apart made) (persist_context D name ctx)"
  unfolding persist_context_def by (intro kept growing)

lemma keeps_read_jars [kept]: "lawful_pages D made \<Longrightarrow> keeps (apart made) (read_jars D)"
proof (rule keepsI)
  fix s :: "('a, 'b) browser"
  assume L: "lawful_pages D made"
  have "keeps (apart made) (catchA (bindA (driven (d_read D ''cookies'')) (\<lambda>_. retA st)) (\<lambda>_. failA CookieStoreError))"
    for st :: "(string \<times> json list) list"
    using L by (intro kept growing)
  then show "apart made s (snd (read_jars D s))" by (cases "cookie_file s") (simp_all add: read_jars_def keeps_at)
qed

lemma keeps_write_jars [kept]: "lawful_pages D made \<Longrightarrow> keeps (apart made) (write_jars D store)"
  unfolding write_jars_def by (intro kept growing) simp_all

lemma keeps_save_jar [kept]: "lawful_pages D made \<Longrightarrow> keeps (apart made) (save_jar D name cs)"
  unfolding save_jar_def by (intro kept)

lemma keeps_load_jar [kept]: "lawful_pages D made \<Longrightarrow> keeps (apart made) (load_jar D name)"
  unfolding load_jar_def by (intro kept)

lemma keeps_apply_jar [kept]: "lawful_pages D made \<Longrightarrow> keeps (apart made) (apply_jar D name ctx)"
  unfolding apply_jar_def by (intro kept growing)

lemma keeps_persist_from_context [kept]: "lawful_pages D made \<Longrightarrow> keeps (apart made) (persist_from_context D name ctx)"
  unfolding persist_from_context_def by (intro kept growing)

lemma keeps_save_screenshot [kept]: "lawful_pages D made \<Longrightarrow> keeps (apart made) (save_screenshot D c p url full)"
  unfolding save_screenshot_def Let_def by (intro kept growing)

lemma keeps_save_html_archive [kept]: "lawful_pages D made \<Longrightarrow> keeps (apart made) (save_html_archive D c url html)"
  unfolding save_html_archive_def Let_def by (intro kept growing)

lemma keeps_builtin [kept]: "keeps (apart made) (builtin m)"
  by (cases m) (simp_all add: builtin_def kept)

lemma keeps_navigate [kept]: "lawful_pages D made \<Longrightarrow> keeps (apart made) (navigate D c p url)"
  unfolding navigate_def by (intro kept growing)

lemma keeps_any_selector [kept]: "lawful_pages D made \<Longrightarrow> keeps (apart made) (any_selector D p sels)"
  by (induction sels) (auto intro!: kept growing)

lemma keeps_selector_signals [kept]: "lawful_pages D made \<Longrightarrow> keeps (apart made) (selector_signals D p ps)"
  by (induction ps) (auto intro!: kept growing)

lemma keeps_check_captcha [kept]: "lawful_pages D made \<Longrightarrow> keeps (apart made) (check_captcha D b p url)"
  unfolding check_captcha_def by (intro kept growing)

lemma keeps_on_captcha [kept]: "lawful_pages D made \<Longrightarrow> keeps (apart made) (on_captcha D opt url check)"
  unfolding on_captcha_def by (intro kept)

lemma keeps_safely [kept]: "grows made f \<Longrightarrow> keeps (apart made) (safely f)"
  unfolding safely_def by (intro kept)

lemma keeps_gather [kept]: "lawful_pages D made \<Longrightarrow> keeps (apart made) (gather_page D c opt url aq)"
  unfolding gather_page_def Let_def by (intro kept growing)

section \<open>What a fetch leaves behind\<close>

text \<open>The exceptions that would put the blame on a proxy are raised nowhere.\<close>

fun blames_proxy :: "crawl_error \<Rightarrow> bool" where
  "blames_proxy ProxyError = True"
| "blames_proxy BrowserRateLimitError = True"
| "blames_proxy _ = False"

fun is_captcha :: "crawl_error \<Rightarrow> bool" where
  "is_captcha (CaptchaDetectedError p m) = True"
| "is_captcha _ = False"

definition ordinary :: "crawl_error \<Rightarrow> bool" where
  "ordinary e \<longleftrightarrow> \<not> blames_proxy e \<and> \<not> is_captcha e"

lemma ordinary_simps [simp]:
  "ordinary (BrowserLaunchError m)" "ordinary BrowserPoolTimeoutError" "ordinary BrowserTimeoutError"
  "ordinary ProxyExhaustedError" "ordinary SessionPersistError" "ordinary CookieStoreError"
  "ordinary (DriverError d)" "ordinary (BrowserBuiltin b)"
  by (simp_all add: ordinary_def)

lemma raises_only_mono: "raises_only E m \<Longrightarrow> (\<And>e. E e \<Longrightarrow> E' e) \<Longrightarrow> raises_only E' m"
  unfolding raises_only_def by blast

lemma raises_only_option [raises]:
  "(x = None \<Longrightarrow> raises_only E a) \<Longrightarrow> (\<And>y. x = Some y \<Longrightarrow> raises_only E (b y))
    \<Longrightarrow> raises_only E (case x of None \<Rightarrow> a | Some y \<Rightarrow> b y)"
  by (cases x) auto

lemma raises_only_unawaited [raises]:
  "(\<And>y. x = Ready y \<Longrightarrow> raises_only E (a y)) \<Longrightarrow> (x = Coroutine \<Longrightarrow> raises_only E b)
    \<Longrightarrow> raises_only E (case x of Ready y \<Rightarrow> a y | Coroutine \<Rightarrow> b)"
  by (cases x) auto

lemma raises_only_total [raises]: "raises_only E (\<lambda>s. (Inr x, f s))"
  by (simp add: raises_only_def)

lemma raises_only_at: "(\<And>s. raises_only E (m s)) \<Longrightarrow> raises_only E (\<lambda>s. m s s)"
  unfolding raises_only_def by blast

lemma raises_random_choice [raises]: "raises_only E (random_choice D xs)"
  unfolding random_choice_def by (intro raises)

lemma raises_fingerprint [raises]: "raises_only E (generate_fingerprint D c)"
  unfolding generate_fingerprint_def by (intro raises)

lemma raises_get_proxy [raises]: "raises_only ordinary (get_proxy D key)"
proof (rule raises_onlyI)
  fix s :: "('a, 'b) browser" and e s'
  assume "get_proxy D key s = (Inl e, s')"
  then show "ordinary e"
    by (auto simp: get_proxy_def Let_def result_simps answered_def split: if_splits option.splits prod.splits)
qed

lemma raises_new_context [raises]: "raises_only ordinary (new_context D c q st)"
proof -
  have "raises_only ordinary (\<lambda>s. if \<not> launched s then (Inl (BrowserLaunchError m), s) else f s)"
    if "raises_only ordinary f" for f :: "('a, 'b) browser \<Rightarrow> (crawl_error + 'c) \<times> ('a, 'b) browser" and m
    using that unfolding raises_only_def by (auto split: if_splits)
  note guarded = this
  show ?thesis unfolding new_context_def
    by (intro raises guarded) (auto split: option.splits json.splits list.splits intro!: raises)
qed

lemma raises_recycle_loop: "raises_only E (recycle_loop D now limit keep xs)"
proof (induction xs arbitrary: keep)
  case (Cons x xs)
  obtain t p where x: "x = (t, p)" by (cases x)
  have "raises_only E (bindA (suppressA (driven (d_close_page D p))) (\<lambda>_. recycle_loop D now limit keep xs))"
    by (intro raises Cons.IH)
  with Cons.IH [of "keep @ [(t, p)]"] show ?case by (simp add: x raises_only_def split: if_splits)
qed (simp add: raises_only_def)

lemma raises_checkout_turn [raises]: "raises_only ordinary (checkout_turn D c)"
proof -
  have rec: "raises_only ordinary (recycle_idle D c)"
    unfolding recycle_idle_def
    by (intro raises raises_only_at [where m = "\<lambda>s. recycle_loop D _ _ _ (idle s)"] raises_recycle_loop)
  have make: "raises_only ordinary (bindA (new_context D c None []) (\<lambda>ctx. bindA (driven (d_new_page D ctx)) add_in_use))"
    by (intro raises ordinary_simps) (simp add: add_in_use_def raises_only_def)
  have "raises_only ordinary (\<lambda>s. case idle s of (_, p) # rest \<Rightarrow> add_in_use p (s\<lparr>idle := rest\<rparr>)
      | [] \<Rightarrow> if pool_size s < pool_max c then
            bindA (new_context D c None []) (\<lambda>ctx. bindA (driven (d_new_page D ctx)) add_in_use) s
          else (Inr None, s))"
    using make by (auto simp: raises_only_def add_in_use_def split: list.splits if_splits)
  then show ?thesis unfolding checkout_turn_def by (intro raises_only_bind rec)
qed

lemma raises_checkout [raises]: "raises_only ordinary (checkout D c w)"
  unfolding checkout_def Let_def by (intro raises ordinary_simps)

lemma raises_wrapped [raises]: "E x \<Longrightarrow> raises_only E (catchA m (\<lambda>_. failA x))"
  by (intro raises_only_catch raises)

lemma raises_save_state [raises]: "raises_only ordinary (save_state D name st)"
  unfolding save_state_def by (intro raises ordinary_simps)

lemma raises_write_jars [raises]: "raises_only ordinary (write_jars D store)"
  unfolding write_jars_def by (intro raises ordinary_simps)

lemma raises_load_state [raises]: "raises_only ordinary (load_state D name)"
  by (rule raises_onlyI)
     (auto simp: load_state_def split: option.splits dest!: raises_onlyD [OF raises_wrapped [where E = ordinary], rotated])

lemma raises_read_jars [raises]: "raises_only ordinary (read_jars D)"
  by (rule raises_onlyI)
     (auto simp: read_jars_def split: option.splits dest!: raises_onlyD [OF raises_wrapped [where E = ordinary], rotated])

lemma raises_persist_context [raises]: "raises_only ordinary (persist_context D name ctx)"
  unfolding persist_context_def by (intro raises ordinary_simps)

lemma raises_save_jar [raises]: "raises_only ordinary (save_jar D name cs)"
  unfolding save_jar_def by (intro raises)

lemma raises_load_jar [raises]: "raises_only ordinary (load_jar D name)"
  unfolding load_jar_def by (intro raises)

lemma raises_apply_jar [raises]: "raises_only ordinary (apply_jar D name ctx)"
  unfolding apply_jar_def by (intro raises ordinary_simps)

lemma raises_persist_from_context [raises]: "raises_only ordinary (persist_from_context D name ctx)"
  unfolding persist_from_context_def by (intro raises ordinary_simps)

lemma raises_screenshot [raises]: "raises_only ordinary (save_screenshot D c p url full)"
  unfolding save_screenshot_def Let_def by (intro raises ordinary_simps)

lemma raises_archive [raises]: "raises_only ordinary (save_html_archive D c url html)"
  unfolding save_html_archive_def Let_def by (intro raises ordinary_simps)

lemma raises_navigate [raises]: "raises_only ordinary (navigate D c p url)"
  unfolding navigate_def by (intro raises ordinary_simps)

lemma raises_any_selector [raises]: "raises_only ordinary (any_selector D p sels)"
  by (induction sels) (auto intro!: raises ordinary_simps)

lemma raises_selector_signals [raises]: "raises_only ordinary (selector_signals D p ps)"
  by (induction ps) (auto intro!: raises)

lemma raises_check_captcha [raises]: "raises_only ordinary (check_captcha D b p url)"
  unfolding check_captcha_def by (intro raises ordinary_simps)

lemma raises_acquire_page [raises]: "raises_only ordinary (acquire_page D c opt)"
  unfolding acquire_page_def by (intro raises ordinary_simps)

lemma blameless: "raises_only ordinary m \<Longrightarrow> raises_only (\<lambda>e. \<not> blames_proxy e) m"
  by (erule raises_only_mono) (simp add: ordinary_def)

lemmas structural = raises_only_if raises_only_bind raises_only_pure raises_only_world raises_only_safely
  raises_only_orelse

lemma raises_on_captcha: "raises_only (\<lambda>e. \<not> blames_proxy e) (on_captcha D opt url check)"
  unfolding on_captcha_def by (intro structural raises_save_state [THEN blameless]) simp_all

lemma raises_gather_page: "raises_only (\<lambda>e. \<not> blames_proxy e) (gather_page D c opt url aq)"
  unfolding gather_page_def Let_def
  by (intro structural raises_on_captcha raises_navigate [THEN blameless] raises_check_captcha [THEN blameless]
      raises_persist_context [THEN blameless] raises_persist_from_context [THEN blameless]
      raises_screenshot [THEN blameless] raises_archive [THEN blameless])

lemma raises_checkin [raises]: "raises_only E (checkin D p)"
  by (auto simp: raises_only_def checkin_def bindA_def answered_def split: prod.splits if_splits)

lemma raises_extract: "raises_only (\<lambda>e. \<not> blames_proxy e) (extract_page D c opt url aq)"
  unfolding extract_page_def by (intro structural raises_gather_page raises_checkin) simp

subsection \<open>Fetching from the asynchronous Playwright\<close>

definition fails :: "('e \<Rightarrow> bool) \<Rightarrow> ('s, 'e, 'a) act \<Rightarrow> bool" where
  "fails E m \<longleftrightarrow> (\<forall>s. \<exists>e s'. m s = (Inl e, s') \<and> E e)"

lemma fails_first: "fails E m \<Longrightarrow> fails E (bindA m f)"
  unfolding fails_def by (metis bindA_simps(1))

lemma fails_later: "raises_only E m \<Longrightarrow> (\<And>x. fails E (f x)) \<Longrightarrow> fails E (bindA m f)"
proof (unfold fails_def, intro allI)
  fix s
  assume m: "raises_only E m" and f: "\<And>x. \<forall>s. \<exists>e s'. f x s = (Inl e, s') \<and> E e"
  obtain r t where r: "m s = (r, t)" by (cases "m s")
  show "\<exists>e s'. bindA m f s = (Inl e, s') \<and> E e"
  proof (cases r)
    case (Inl e)
    then show ?thesis using r raises_onlyD [OF m] by simp
  next
    case (Inr x)
    then show ?thesis using r f [of x] by simp
  qed
qed

lemma fails_caught: "fails E m \<Longrightarrow> (\<And>e. E e \<Longrightarrow> fails E (h e)) \<Longrightarrow> fails E (catchA m h)"
  unfolding fails_def catchA_def by (metis (no_types, lifting) case_prod_conv old.sum.simps(5))

lemma fails_failA: "E e \<Longrightarrow> fails E (failA e)"
  by (simp add: fails_def)

text \<open>\<open>locator.count()\<close> of the asynchronous Playwright is a coroutine function.\<close>

definition async_counts :: "('w, 'p, 'c) driver \<Rightarrow> bool" where
  "async_counts D \<longleftrightarrow> (\<forall>p sel w. fst (d_count D p sel w) = Inr Coroutine)"

lemma check_captcha_fails:
  assumes "async_counts D"
  shows "fails ordinary (check_captcha D True p url)"
proof -
  have "fails ordinary (bindA (orelseA (driven (d_count D p sel)) (Ready 0)) (\<lambda>n.
      case n of Coroutine \<Rightarrow> failA (BrowserBuiltin TypeError) | Ready k \<Rightarrow> f k))" for sel f
  proof (unfold fails_def, intro allI)
    fix s :: "('a, 'd) browser"
    obtain w where "d_count D p sel (world s) = (Inr Coroutine, w)"
      using assms by (metis async_counts_def prod.collapse)
    then show "\<exists>e s'. bindA (orelseA (driven (d_count D p sel)) (Ready 0)) (\<lambda>n.
      case n of Coroutine \<Rightarrow> failA (BrowserBuiltin TypeError) | Ready k \<Rightarrow> f k) s = (Inl e, s') \<and> ordinary e"
      by (simp add: bindA_def orelseA_def catchA_def driven_def)
  qed
  then have "fails ordinary (any_selector D p (sel # sels))" for sel sels by simp
  then have "fails ordinary (selector_signals D p provider_selectors)"
    unfolding provider_selectors_def by (simp only: selector_signals.simps) (intro fails_first)
  then show ?thesis
    unfolding check_captcha_def by (simp only: if_False not_True_eq_False) (intro fails_later fails_first raises ordinary_simps)
qed

lemma gather_fails:
  assumes "async_counts D" and "captcha_detection_enabled c"
  shows "fails ordinary (gather_page D c opt url aq)"
  unfolding gather_page_def Let_def assms(2) [unfolded eq_True [symmetric]] using check_captcha_fails [OF assms(1)]
  by (simp only: assms(2)) (intro fails_later raises fails_first)

lemma raises_on_failure: "ordinary e \<Longrightarrow> raises_only E (on_failure D page e)"
  by (cases e; cases page) (auto simp: release_def ordinary_def intro!: raises)

lemma release_fails: "ordinary e \<Longrightarrow> fails ordinary (bindA (on_failure D page e) (\<lambda>_. failA e))"
  by (intro fails_later raises_on_failure fails_failA)

lemma attempt_fails:
  assumes "async_counts D" and "captcha_detection_enabled c"
  shows "fails ordinary (fetch_attempt D c opt url)"
proof -
  have ext: "fails ordinary (extract_page D c opt url aq)" for aq
    unfolding extract_page_def by (intro fails_first gather_fails assms)
  have limiter: "raises_only ordinary (acquire D)"
  proof (rule raises_onlyI)
    fix s :: "('a, 'b) browser" and e s'
    assume "acquire D s = (Inl e, s')"
    then show "ordinary e"
      by (auto simp: acquire_def random_delay_def Let_def result_simps answered_def sleeping_def
          split: option.splits if_splits prod.splits)
  qed
  have body: "fails ordinary (\<lambda>s. case acquire_page D c opt s of
        (Inl e, s') \<Rightarrow> bindA (on_failure D None e) (\<lambda>_. failA e) s'
      | (Inr aq, s') \<Rightarrow> catchA (extract_page D c opt url aq) (\<lambda>e. bindA (on_failure D (Some aq) e) (\<lambda>_. failA e)) s')"
  proof (unfold fails_def, intro allI)
    fix s :: "('a, 'b) browser"
    obtain r s' where r: "acquire_page D c opt s = (r, s')" by (cases "acquire_page D c opt s")
    show "\<exists>e t. (case acquire_page D c opt s of
        (Inl e, s') \<Rightarrow> bindA (on_failure D None e) (\<lambda>_. failA e) s'
      | (Inr aq, s') \<Rightarrow> catchA (extract_page D c opt url aq) (\<lambda>e. bindA (on_failure D (Some aq) e) (\<lambda>_. failA e)) s')
      = (Inl e, t) \<and> ordinary e"
    proof (cases r)
      case (Inl e)
      then have "ordinary e" using raises_onlyD [OF raises_acquire_page] r by blast
      then show ?thesis unfolding r Inl prod.case sum.case by (rule release_fails [unfolded fails_def, rule_format])
    next
      case (Inr aq)
      have "fails ordinary (catchA (extract_page D c opt url aq) (\<lambda>e. bindA (on_failure D (Some aq) e) (\<lambda>_. failA e)))"
        by (intro fails_caught ext release_fails)
      then show ?thesis by (simp add: r Inr fails_def)
    qed
  qed
  show ?thesis unfolding fetch_attempt_def by (intro fails_later limiter raises body)
qed

lemma retry_fails: "fails ordinary f \<Longrightarrow> fails ordinary (retry_loop D base cap f n k)"
proof (induction n arbitrary: k)
  case (Suc n)
  then show ?case by (auto intro!: fails_caught fails_later fails_failA raises)
qed simp

text \<open>C16: Over the asynchronous Playwright, which is the one the framework loads, no fetch returns a
  page as long as captcha detection is on: the detector compares the coroutine of a locator's count
  with zero, so that every fetch ends with an exception, whatever is fetched and however often it
  is retried.\<close>
theorem async_fetch_always_fails:
  assumes "async_counts D" and "captcha_detection_enabled c"
  shows "\<exists>e s'. fetch D c opt url s = (Inl e, s') \<and> \<not> is_captcha e"
proof -
  have l: "raises_only ordinary (launch D c)"
    by (rule raises_onlyI)
       (auto simp: launch_def result_simps catchA_def driven_def stop_playwright_def suppressA_def
         split: if_splits prod.splits sum.splits)
  have "fails ordinary (\<lambda>s. catchA (retry_async D n b k (fetch_attempt D c opt url))
      (\<lambda>e. case e of CaptchaDetectedError prov msg \<Rightarrow>
            if fo_raise_on_captcha opt then failA e else retA (blocked_result url prov msg)
        | _ \<Rightarrow> failA e) (s\<lparr>last_proxy := None\<rparr>))" for n b k
  proof -
    have "fails ordinary (catchA (retry_async D n b k (fetch_attempt D c opt url))
      (\<lambda>e. case e of CaptchaDetectedError prov msg \<Rightarrow>
            if fo_raise_on_captcha opt then failA e else retA (blocked_result url prov msg)
        | _ \<Rightarrow> failA e))"
      unfolding retry_async_def
      by (intro fails_caught retry_fails attempt_fails assms) (auto simp: ordinary_def fails_def split: crawl_error.splits)
    then show ?thesis by (simp add: fails_def)
  qed
  then have "fails ordinary (fetch D c opt url)" unfolding fetch_def by (intro fails_later l)
  then show ?thesis unfolding fails_def ordinary_def by blast
qed

subsection \<open>Pages and proxies after a fetch\<close>

definition tidy :: "('w \<Rightarrow> 'p set) \<Rightarrow> browser_config \<Rightarrow> ('w, 'p) browser \<Rightarrow> ('w, 'p) browser \<Rightarrow> bool" where
  "tidy made c s s' \<longleftrightarrow> (pool_ok made c s \<longrightarrow> pool_ok made c s' \<and> in_use s' = in_use s
     \<and> pp_failures (proxies s') = pp_failures (proxies s) \<and> pp_banned (proxies s') = pp_banned (proxies s))"

lemma tidy_preorder [simp]: "reflp (tidy made c)" "transp (tidy made c)"
  by (auto simp: reflp_def transp_def tidy_def)

lemma tidy_trans: "tidy made c s t \<Longrightarrow> tidy made c t u \<Longrightarrow> tidy made c s u"
  by (auto simp: tidy_def)

lemma tidy_apart: "apart made s s' \<Longrightarrow> tidy made c s s'"
  using pool_ok_apart unfolding tidy_def apart_def by blast

lemma tidy_if_apart: "keeps (apart made) m \<Longrightarrow> keeps (tidy made c) m"
  unfolding keeps_def using tidy_apart by blast

lemmas keeps_tidy = keeps_bind [OF tidy_preorder(2)] keeps_catch [OF tidy_preorder(2)] keeps_pure [OF tidy_preorder(1)]

text \<open>Taking a page from the pool for a fetch, and giving it back.\<close>

lemma checkout_ok:
  assumes L: "lawful_pages D made" and ok: "pool_ok made c s" and run: "checkout D c w s = (r, s')"
  shows "pool_ok made c s' \<and> pp_failures (proxies s') = pp_failures (proxies s)
    \<and> pp_banned (proxies s') = pp_banned (proxies s)
    \<and> (case r of Inr p \<Rightarrow> p \<notin> set (in_use s) \<and> in_use s' = p # in_use s | Inl e \<Rightarrow> in_use s' = in_use s)"
proof -
  have clock: "keeps (apart made) (answered (d_monotonic D))" using L by (intro kept growing)
  obtain now s1 where n: "answered (d_monotonic D) s = (Inr now, s1)"
    by (cases "d_monotonic D (world s)") (simp add: answered_def)
  note a1 = keepsD [OF clock n]
  obtain got s2 where g: "checkout_turn D c s1 = (got, s2)" by (cases "checkout_turn D c s1")
  note turn = checkout_turn_ok [OF L pool_ok_apart [OF a1 ok] g]
  have wait: "keeps (apart made) (bindA (answered (d_monotonic D)) (\<lambda>later.
      let remaining = fsub (fadd now w) later in
      if remaining \<le> 0 then failA BrowserPoolTimeoutError
      else bindA (sleeping D remaining) (\<lambda>_. failA BrowserPoolTimeoutError)))"
    using L by (intro kept growing)
  have fail: "\<exists>e. r = Inl e" if "got = Inr None"
    using run n g that by (auto simp: checkout_def Let_def bindA_def answered_def sleeping_def
        split: prod.splits if_splits)
  show ?thesis
  proof (cases got)
    case (Inl e)
    then show ?thesis using run n g turn a1 by (auto simp: checkout_def apart_def)
  next
    case (Inr q)
    show ?thesis
    proof (cases q)
      case (Some p)
      then show ?thesis using run n g Inr turn a1 by (auto simp: checkout_def apart_def)
    next
      case None
      have "apart made s2 s'"
        using run n g Inr None by (intro keepsD [OF wait]) (simp add: checkout_def)
      then show ?thesis using fail Inr None turn a1 pool_ok_apart [OF _ turn(1)] by (auto simp: apart_def)
    qed
  qed
qed

lemma acquire_page_ok:
  assumes L: "lawful_pages D made" and ok: "pool_ok made c s" and run: "acquire_page D c opt s = (r, s')"
  shows "pool_ok made c s' \<and> pp_failures (proxies s') = pp_failures (proxies s)
    \<and> pp_banned (proxies s') = pp_banned (proxies s)
    \<and> (case r of
         Inr aq \<Rightarrow> (if is_pooled aq then aq_proxy aq = None \<and> aq_page aq \<notin> set (in_use s) \<and> in_use s' = aq_page aq # in_use s
                    else in_use s' = in_use s)
       | Inl e \<Rightarrow> in_use s' = in_use s)"
proof (cases "fo_use_pool opt \<and> fo_session opt = None \<and> fo_cookies opt = None")
  case True
  obtain q t where q: "checkout D c 30 s = (q, t)" by (cases "checkout D c 30 s")
  note co = checkout_ok [OF L ok q]
  show ?thesis
  proof (cases q)
    case (Inl e)
    then show ?thesis using run q co True by (auto simp: acquire_page_def)
  next
    case (Inr p)
    have k: "keeps (apart made) (suppressA (driven (d_route D p)))" using L by (intro kept growing)
    have sup: "suppressA (driven (d_route D p)) t = (Inr (), s')"
      and r: "r = Inr \<lparr>aq_page = p, aq_context = d_context D p, is_pooled = True, aq_proxy = None\<rparr>"
      using run q Inr True by (auto simp: acquire_page_def bindA_def suppressA_def)
    from keepsD [OF k sup] have a: "apart made t s'" .
    then show ?thesis using co r Inr pool_ok_apart [OF a] by (simp add: apart_def)
  qed
next
  case False
  have "keeps (apart made) (acquire_page D c opt)"
    unfolding acquire_page_def if_not_P [OF False] using L by (intro kept growing)
  then have a: "apart made s s'" using run by (rule keepsD)
  have "\<not> is_pooled aq" if "r = Inr aq" for aq
    using run False that unfolding acquire_page_def by (auto simp: result_simps)
  then show ?thesis using pool_ok_apart [OF a ok] a by (auto simp: apart_def split: sum.splits)
qed

lemma suppressed_discard: "snd (suppressA m s) = snd (m s)"
  by (simp add: suppressA_def)

lemma on_failure_release:
  "\<not> blames_proxy e \<Longrightarrow> on_failure D (Some aq) e = release D aq" "\<not> blames_proxy e \<Longrightarrow> on_failure D None e = retA ()"
  by (cases e; simp)+

lemma keeps_release: "lawful_pages D made \<Longrightarrow> \<not> is_pooled aq \<Longrightarrow> keeps (apart made) (release D aq)"
  unfolding release_def by (simp only: if_False) (intro kept growing)

text \<open>The rest of an attempt, once a page is acquired: whatever happens, it is given back.\<close>

lemma attempt_body:
  assumes L: "lawful_pages D made" and ok: "pool_ok made c t"
    and page: "if is_pooled aq then aq_proxy aq = None \<and> aq_page aq \<notin> set base \<and> in_use t = aq_page aq # base else in_use t = base"
    and u_def: "u = snd (catchA (extract_page D c opt url aq) (\<lambda>e. bindA (on_failure D (Some aq) e) (\<lambda>_. failA e)) t)"
  shows "pool_ok made c u \<and> in_use u = base \<and> pp_failures (proxies u) = pp_failures (proxies t)
    \<and> pp_banned (proxies u) = pp_banned (proxies t)"
proof -
  obtain r s1 where g: "gather_page D c opt url aq t = (r, s1)" by (cases "gather_page D c opt url aq t")
  have a1: "apart made t s1" by (rule keepsD [OF keeps_gather [OF L] g])
  note ok1 = pool_ok_apart [OF a1 ok]
  have tail: "keeps (apart made) (bindA (answered (d_monotonic D)) (\<lambda>ended.
      if aq_proxy aq \<noteq> None then failA (BrowserBuiltin ValidationError) else retA (result ended)))" for result
    by (intro kept growing(1) [OF L])
  define returned where "returned = (\<lambda>v. pool_ok made c v \<and> in_use v = base \<and> pp_failures (proxies v) = pp_failures (proxies t)
    \<and> pp_banned (proxies v) = pp_banned (proxies t))"
  have returned_apart: "returned v \<Longrightarrow> apart made v v' \<Longrightarrow> returned v'" for v v'
    using pool_ok_apart [of made v v' c] by (auto simp: returned_def apart_def)
  have removed: "returned v'" if v: "pool_ok made c v'" "in_use v' = removeAll (aq_page aq) (in_use s1)" "is_pooled aq"
    "pp_failures (proxies v') = pp_failures (proxies s1)" "pp_banned (proxies v') = pp_banned (proxies s1)" for v'
    using v page a1 by (auto simp: returned_def apart_def)
  have given: "returned (snd (release D aq v))"
    if v: "pool_ok made c v" "in_use v = in_use s1 \<or> returned v" "pp_failures (proxies v) = pp_failures (proxies t)"
      "pp_banned (proxies v) = pp_banned (proxies t)" for v
  proof (cases "is_pooled aq")
    case True
    obtain q v' where d: "discard D (aq_page aq) v = (q, v')" by (cases "discard D (aq_page aq) v")
    from discard_ok [OF L v(1) d] v page True a1 have "returned v'" by (auto simp: returned_def apart_def)
    then show ?thesis using True d by (simp add: release_def suppressed_discard)
  next
    case False
    have "returned v" using v page False a1 by (auto simp: returned_def apart_def)
    then show ?thesis using returned_apart keeps_at [OF keeps_release [OF L False]] by blast
  qed
  have u: "returned u"
  proof (cases r)
    case (Inl e)
    then have "extract_page D c opt url aq t = (Inl e, s1)" using g by (simp add: extract_page_def)
    moreover have "\<not> blames_proxy e" using raises_onlyD [OF raises_gather_page] g Inl by blast
    ultimately have "u = snd (release D aq s1)"
      by (auto simp: u_def catchA_def on_failure_release bindA_def split: prod.splits sum.splits)
    then show ?thesis using given [of s1] ok1 a1 by (simp add: apart_def)
  next
    case (Inr result)
    obtain q s2 where c: "(if is_pooled aq then checkin D (aq_page aq) else retA ()) s1 = (q, s2)"
      by (cases "(if is_pooled aq then checkin D (aq_page aq) else retA ()) s1")
    have "\<exists>x. q = Inr x" using c by (auto simp: checkin_def bindA_def answered_def split: if_splits prod.splits)
    then obtain x where q: "q = Inr x" by blast
    have b2: "returned s2"
    proof (cases "is_pooled aq")
      case True
      then show ?thesis using c checkin_ok [OF L ok1, of "aq_page aq" q s2] by (intro removed) auto
    next
      case False
      then show ?thesis using c ok1 a1 page by (auto simp: returned_def apart_def)
    qed
    obtain q3 s3 where tl: "bindA (answered (d_monotonic D)) (\<lambda>ended.
      if aq_proxy aq \<noteq> None then failA (BrowserBuiltin ValidationError) else retA (result ended)) s2 = (q3, s3)"
      by (cases "bindA (answered (d_monotonic D)) (\<lambda>ended.
      if aq_proxy aq \<noteq> None then failA (BrowserBuiltin ValidationError) else retA (result ended)) s2")
    have b3: "returned s3" by (rule returned_apart [OF b2 keepsD [OF tail tl]])
    have e: "extract_page D c opt url aq t = (q3, s3)" using g c q Inr tl by (simp add: extract_page_def)
    show ?thesis
    proof (cases q3)
      case (Inr y)
      then show ?thesis using e b3 by (simp add: u_def catchA_def)
    next
      case (Inl err)
      moreover have "\<not> blames_proxy err" using raises_onlyD [OF raises_extract] e Inl by blast
      ultimately have "u = snd (release D aq s3)"
        using e by (auto simp: u_def catchA_def on_failure_release bindA_def split: prod.splits sum.splits)
      then show ?thesis using given [of s3] b3 by (simp add: returned_def)
    qed
  qed
  then show ?thesis by (simp add: returned_def)
qed

lemma attempt_tidy:
  assumes L: "lawful_pages D made"
  shows "keeps (tidy made c) (fetch_attempt D c opt url)"
proof -
  have "keeps (tidy made c) (\<lambda>s. case acquire_page D c opt s of
        (Inl e, s') \<Rightarrow> bindA (on_failure D None e) (\<lambda>_. failA e) s'
      | (Inr aq, s') \<Rightarrow> catchA (extract_page D c opt url aq) (\<lambda>e. bindA (on_failure D (Some aq) e) (\<lambda>_. failA e)) s')"
  proof (rule keepsI)
    fix s :: "('a, 'b) browser"
    obtain r s1 where r: "acquire_page D c opt s = (r, s1)" by (cases "acquire_page D c opt s")
    show "tidy made c s (snd (case acquire_page D c opt s of
        (Inl e, s') \<Rightarrow> bindA (on_failure D None e) (\<lambda>_. failA e) s'
      | (Inr aq, s') \<Rightarrow> catchA (extract_page D c opt url aq) (\<lambda>e. bindA (on_failure D (Some aq) e) (\<lambda>_. failA e)) s'))"
    proof (cases r)
      case (Inl e)
      then have "\<not> blames_proxy e" using raises_onlyD [OF raises_acquire_page, of D c opt s e s1] r by (simp add: ordinary_def)
      then show ?thesis using acquire_page_ok [OF L _ r] by (simp add: r Inl on_failure_release tidy_def)
    next
      case (Inr aq)
      show ?thesis
        unfolding r Inr prod.case sum.case tidy_def
      proof
        assume ok: "pool_ok made c s"
        note acq = acquire_page_ok [OF L ok r]
        have "if is_pooled aq then aq_proxy aq = None \<and> aq_page aq \<notin> set (in_use s) \<and> in_use s1 = aq_page aq # in_use s
              else in_use s1 = in_use s"
          using acq Inr by simp
        from attempt_body [OF L _ this refl] acq
        show "pool_ok made c (snd (catchA (extract_page D c opt url aq) (\<lambda>e. bindA (on_failure D (Some aq) e) (\<lambda>_. failA e)) s1))
          \<and> in_use (snd (catchA (extract_page D c opt url aq) (\<lambda>e. bindA (on_failure D (Some aq) e) (\<lambda>_. failA e)) s1)) = in_use s
          \<and> pp_failures (proxies (snd (catchA (extract_page D c opt url aq) (\<lambda>e. bindA (on_failure D (Some aq) e) (\<lambda>_. failA e)) s1)))
            = pp_failures (proxies s)
          \<and> pp_banned (proxies (snd (catchA (extract_page D c opt url aq) (\<lambda>e. bindA (on_failure D (Some aq) e) (\<lambda>_. failA e)) s1)))
            = pp_banned (proxies s)"
          by simp
      qed
    qed
  qed
  then show ?thesis unfolding fetch_attempt_def
    using L by (intro keeps_tidy keeps_if tidy_if_apart [OF keeps_acquire] tidy_if_apart [OF keeps_sleeping])
qed

lemma retry_tidy:
  assumes L: "lawful_pages D made" and f: "keeps (tidy made c) f"
  shows "keeps (tidy made c) (retry_loop D base cap f n k)"
proof (induction n arbitrary: k)
  case (Suc n)
  have "keeps (tidy made c) (answered (d_random D))"
    by (rule tidy_if_apart [OF keeps_answered [OF growing(5) [OF L]]])
  then show ?case
    using Suc.IH L by (simp only: retry_loop.simps)
      (intro keeps_tidy keeps_if f tidy_if_apart [OF keeps_sleeping])
qed (simp add: f)

text \<open>C14: However a fetch ends, with a result, a captcha or an exception, retried or not, the page it
  took from the pool is back or discarded: the pages in use are those of before, and the pool is
  within its bounds. And no fetch ever counts a failure of a proxy or bans one, because nothing
  raises the errors on which that depends. Cancelling the task in the middle is not covered.\<close>
theorem fetch_returns_page:
  assumes "lawful_pages D made" and "pool_size s \<le> pool_max c"
    and "distinct (map snd (idle s) @ in_use s)" and "set (map snd (idle s) @ in_use s) \<subseteq> made (world s)"
  shows "case fetch D c opt url s of (r, s') \<Rightarrow>
    in_use s' = in_use s \<and> pool_size s' \<le> pool_max c \<and> distinct (map snd (idle s') @ in_use s')
    \<and> pp_failures (proxies s') = pp_failures (proxies s) \<and> pp_banned (proxies s') = pp_banned (proxies s)"
proof -
  have ok: "pool_ok made c s" using assms(2-4) by (simp add: pool_ok_def pool_pages_def)
  have handler: "keeps (tidy made c) (catchA (retry_async D n b k (fetch_attempt D c opt url))
      (\<lambda>e. case e of CaptchaDetectedError prov msg \<Rightarrow>
            if fo_raise_on_captcha opt then failA e else retA (blocked_result url prov msg)
        | _ \<Rightarrow> failA e))" for n b k
    unfolding retry_async_def
    by (intro keeps_tidy retry_tidy attempt_tidy assms(1)) (auto split: crawl_error.splits intro: keeps_tidy)
  have "keeps (tidy made c) (\<lambda>s. catchA (retry_async D n b k (fetch_attempt D c opt url))
      (\<lambda>e. case e of CaptchaDetectedError prov msg \<Rightarrow>
            if fo_raise_on_captcha opt then failA e else retA (blocked_result url prov msg)
        | _ \<Rightarrow> failA e) (s\<lparr>last_proxy := None\<rparr>))" for n b k
  proof (rule keepsI)
    fix s :: "('a, 'b) browser"
    have "tidy made c s (s\<lparr>last_proxy := None\<rparr>)" by (rule tidy_apart) simp
    then show "tidy made c s (snd (catchA (retry_async D n b k (fetch_attempt D c opt url))
      (\<lambda>e. case e of CaptchaDetectedError prov msg \<Rightarrow>
            if fo_raise_on_captcha opt then failA e else retA (blocked_result url prov msg)
        | _ \<Rightarrow> failA e) (s\<lparr>last_proxy := None\<rparr>)))"
      by (rule tidy_trans) (rule keeps_at [OF handler])
  qed
  then have "keeps (tidy made c) (fetch D c opt url)"
    unfolding fetch_def by (intro keeps_tidy tidy_if_apart [OF keeps_launch] assms(1))
  then have "tidy made c s (snd (fetch D c opt url s))" by (rule keeps_at)
  moreover obtain r t where f: "fetch D c opt url s = (r, t)" by (cases "fetch D c opt url s")
  ultimately have "pool_ok made c t" and same: "in_use t = in_use s"
    "pp_failures (proxies t) = pp_failures (proxies s)" "pp_banned (proxies t) = pp_banned (proxies s)"
    using ok by (simp_all add: tidy_def)
  then have "distinct (map snd (idle t) @ in_use t)" "pool_size t \<le> pool_max c"
    by (simp_all only: pool_ok_def pool_pages_def)
  with same show ?thesis unfolding f prod.case by (intro conjI)
qed

section \<open>The rate of the limiter\<close>

text \<open>
  When a caller who asks again at once is served: the clock stands at \<open>now\<close>, and a sleep takes as
  long as it is asked to.
\<close>

fun served_at :: "rat \<Rightarrow> nat \<Rightarrow> rat \<Rightarrow> limiter \<Rightarrow> rat list" where
  "served_at rate 0 now l = []"
| "served_at rate (Suc n) now l =
     (case take_token rate now l of (d, l') \<Rightarrow> (now + d) # served_at rate n (now + d) l')"

lemma two_per_second:
  assumes "1 \<le> lm_burst l" and "lm_tokens l = 0" and "lm_last l = of_int t"
  shows "take_token 1 (of_int t) l = (1, l)"
    and "take_token 1 (of_int t + 1) l = (0, l\<lparr>lm_last := of_int (t + 1)\<rparr>)"
proof -
  have "1 \<le> (of_int (lm_burst l) :: rat)" using assms(1) by simp
  then show "take_token 1 (of_int t) l = (1, l)"
    "take_token 1 (of_int t + 1) l = (0, l\<lparr>lm_last := of_int (t + 1)\<rparr>)"
    using assms(2,3) by (auto simp: take_token_def Let_def min_def)
qed

text \<open>The limiter lets twice the configured rate through: at one operation a second, a caller who
  asks back to back on an empty bucket is served twice in every second, since the time slept for a
  token is credited to the bucket once more by the next call.\<close>
theorem limiter_doubles_rate:
  fixes t :: int
  assumes "1 \<le> lm_burst l" and "lm_tokens l = 0" and "lm_last l = of_int t" 
  shows "served_at 1 (2 * n) (of_int t) l = concat (map (\<lambda>k. [of_int (t + int k + 1), of_int (t + int k + 1)]) [0..<n])"
  using assms
proof (induction n arbitrary: t l)
  case (Suc n)
  let ?l = "l\<lparr>lm_last := of_int (t + 1)\<rparr>" and ?now = "of_int t + 1 :: rat"
  note one = two_per_second [OF Suc.prems]
  have "1 \<le> lm_burst ?l" "lm_tokens ?l = 0" "lm_last ?l = of_int (t + 1)" using Suc.prems by simp_all
  note IH0 = Suc.IH [OF this]
  have IH: "served_at 1 (2 * n) (of_int (t + 1)) ?l
      = concat (map (\<lambda>k. [of_int (t + 1 + int k + 1), of_int (t + 1 + int k + 1)]) [0..<n])"
    by (rule IH0)
  have "[0..<Suc n] = 0 # map Suc [0..<n]" unfolding map_Suc_upt by (rule upt_conv_Cons) simp
  moreover have "(\<lambda>k. [of_int (t + int k + 1), of_int (t + int k + 1)]) \<circ> Suc
    = (\<lambda>k. [of_int (t + 1 + int k + 1), of_int (t + 1 + int k + 1)] :: rat list)"
    by (simp add: fun_eq_iff)
  ultimately have rhs: "concat (map (\<lambda>k. [of_int (t + int k + 1), of_int (t + int k + 1)]) [0..<Suc n])
    = of_int (t + 1) # of_int (t + 1) # concat (map (\<lambda>k. [of_int (t + 1 + int k + 1), of_int (t + 1 + int k + 1)] :: rat list) [0..<n])"
    by (simp only: list.map list.map_comp concat.simps append_Cons append_Nil of_nat_0 add_0_right)
  have "served_at 1 (2 * Suc n) (of_int t) l = served_at 1 (Suc (Suc (2 * n))) (of_int t) l" by simp
  also have "\<dots> = ?now # served_at 1 (Suc (2 * n)) ?now l"
    by (subst served_at.simps(2)) (simp only: one(1) prod.case)
  also have "served_at 1 (Suc (2 * n)) ?now l = (?now + 0) # served_at 1 (2 * n) (?now + 0) ?l"
    by (subst served_at.simps(2)) (simp only: one(2) prod.case)
  finally have "served_at 1 (2 * Suc n) (of_int t) l = of_int (t + 1) # of_int (t + 1) # served_at 1 (2 * n) (of_int (t + 1)) ?l"
    by simp
  then show ?case unfolding IH rhs .
qed simp

section \<open>Witnesses\<close>

text \<open>A world that counts the pages it made; every operation succeeds, and what the code does not await is a coroutine.\<close>

definition lab_driver :: "(nat, nat, unit) driver" where
  "lab_driver =
     \<lparr>d_start = Pair (Inr ()), d_stop = Pair (Inr ()), d_launch = \<lambda>_. Pair (Inr ()), d_close_browser = Pair (Inr ()),
      d_new_context = \<lambda>_. Pair (Inr ()), d_add_cookies = \<lambda>_ _. Pair (Inr ()),
      d_new_page = \<lambda>_ w. (Inr w, Suc w), d_context = \<lambda>_. (), d_route = \<lambda>_. Pair (Inr ()),
      d_goto = \<lambda>_ _ _ _. Pair (Inr None), d_count = \<lambda>_ _. Pair (Inr Coroutine), d_title = \<lambda>_. Pair (Inr ''shop''),
      d_evaluate = \<lambda>_ _. Pair (Inr ''kettle''), d_content = \<lambda>_. Pair (Inr ''kettle''), d_url = \<lambda>_. Pair (Inr ''http://shop''),
      d_cookies = \<lambda>_. Pair (Inr []), d_storage_state = \<lambda>_. Pair (Inr []), d_screenshot = \<lambda>_ _. Pair (Inr Coroutine),
      d_close_page = \<lambda>_. Pair (Inr ()), d_close_context = \<lambda>_. Pair (Inr ()), d_write = \<lambda>_. Pair (Inr ()),
      d_read = \<lambda>_. Pair (Inr ()), d_stamp = Pair (Inr ''0''), d_monotonic = Pair 0, d_sleep = \<lambda>_ w. w,
      d_uniform = \<lambda>a b. Pair (of_int a), d_random = Pair 0, d_choice = \<lambda>_. Pair 0, d_randint = \<lambda>a b. Pair a,
      d_hash = \<lambda>_. 0\<rparr>"

definition lab_config :: browser_config where
  "lab_config =
     \<lparr>headless_mode = True, visible = False, slow_mo = 0, executable_path = None, channel = None, launch_args = [],
      blocked_types = [], navigation_timeout_ms = 30000, wait_until = ''load'', max_retries = 3,
      retry_backoff_base_ms = 1000, request_delay_min_ms = 0, request_delay_max_ms = 0, max_pages = 2,
      page_idle_timeout_seconds = 120, captcha_detection_enabled = True,
      fingerprint_settings = \<lparr>fp_enabled = False, randomize_user_agent = True, randomize_viewport = False,
        viewport_width_range = (1024, 1920), viewport_height_range = (600, 1200), randomize_locale = True,
        locales = [''en-US''], randomize_timezone = True, timezones = [''Europe/Berlin''], randomize_scale = True\<rparr>,
      proxy_settings_of = None, screenshot_dir = ''shots'', archive_dir = ''html''\<rparr>"

definition new_browser :: "(nat, nat) browser" where
  "new_browser =
     \<lparr>world = 0, launched = False, playwright = False, the_limiter = make_limiter None None 0 0 0,
      proxies = make_proxies None, idle = [], in_use = [], last_proxy = None, session_files = [],
      cookie_file = None\<rparr>"

lemma lab_driver_lawful: "lawful_pages lab_driver (\<lambda>w. {..<w})"
  by (simp add: lawful_pages_def grows_def lab_driver_def)

lemma lab_reach: "pool_reach lab_driver (\<lambda>w. {..<w}) lab_config new_browser
    (snd (checkout_turn lab_driver lab_config (new_browser\<lparr>launched := True\<rparr>)))"
proof (rule pool_reach.step [OF pool_reach.step [OF pool_reach.start]])
  show "pool_step lab_driver (\<lambda>w. {..<w}) lab_config new_browser (new_browser\<lparr>launched := True\<rparr>)"
    by (rule pool_step.elsewhere) simp
  show "pool_step lab_driver (\<lambda>w. {..<w}) lab_config (new_browser\<lparr>launched := True\<rparr>)
      (snd (checkout_turn lab_driver lab_config (new_browser\<lparr>launched := True\<rparr>)))"
    by (rule pool_step.turn [of _ _ _ "fst (checkout_turn lab_driver lab_config (new_browser\<lparr>launched := True\<rparr>))"]) simp
qed

theorem pool_exclusive_witness:
  "pool_size (snd (checkout_turn lab_driver lab_config (new_browser\<lparr>launched := True\<rparr>))) \<le> pool_max lab_config"
  using pool_exclusive [OF lab_driver_lawful _ _ lab_reach] by (simp add: new_browser_def)

definition plain_fetch :: fetch_options where
  "plain_fetch =
     \<lparr>fo_session = None, fo_cookies = None, fo_screenshot = False, fo_archive = False, fo_full_page = False,
      fo_use_pool = True, fo_raise_on_captcha = False, fo_retries = None\<rparr>"

theorem async_fetch_always_fails_witness:
  "\<exists>e s'. fetch lab_driver lab_config plain_fetch ''http://shop'' new_browser = (Inl e, s') \<and> \<not> is_captcha e"
  by (rule async_fetch_always_fails) (simp_all add: async_counts_def lab_driver_def lab_config_def)

theorem fetch_returns_page_witness:
  "case fetch lab_driver lab_config plain_fetch ''http://shop'' new_browser of (r, s') \<Rightarrow> in_use s' = []"
  using fetch_returns_page [OF lab_driver_lawful, of new_browser lab_config plain_fetch "''http://shop''"]
  by (simp add: new_browser_def pool_size_def case_prod_beta)

theorem limiter_doubles_rate_witness:
  "served_at 1 4 10 \<lparr>lm_rate = Some 1, lm_burst = 1, lm_tokens = 0, lm_last = 10, lm_delay_min = 0, lm_delay_max = 0\<rparr>
   = [11, 11, 12, 12]"
  using limiter_doubles_rate [of "\<lparr>lm_rate = Some 1, lm_burst = 1, lm_tokens = 0, lm_last = 10, lm_delay_min = 0, lm_delay_max = 0\<rparr>" 10 2]
  by (simp del: served_at.simps add: upt_rec [of 0 2] upt_rec [of "Suc 0" 2] upt_rec [of "Suc (Suc 0)" 2])

end
