(* ===== verification/Translations.thy ===== *)
theory Translations
  imports Texts StateMachine "HOL-Library.AList" "HOL-Library.List_Lexorder" "HOL-Library.Char_ord"
begin

text \<open>
  The texts of the user interface (\<open>app/i18n/loader.py\<close>, \<open>cache.py\<close>, \<open>service.py\<close>): the
  translations directory, the loader with its memory, the cache in Redis and in memory, the
  look-up of a key with its fall-backs, and the placeholders of a text. The directory is a
  value: a file carries what its text parses to, with the pairs of an object in their order and
  with duplicates, so that what \<open>json.load\<close> and PyYAML make of duplicates is written out.
\<close>

section \<open>The translations directory\<close>

datatype suffix = SuffixJson | SuffixYaml | SuffixYml | OtherSuffix

text \<open>
  \<open>parsed\<close> is \<open>None\<close> for a file that cannot be opened or parsed; \<open>early_repeats\<close> are then the
  repeated keys of the objects the parser had closed before it failed.
\<close>

record lang_file =
  stem :: string
  suffix :: suffix
  parsed :: "json option"
  early_repeats :: "string list"

record lang_entry =
  dir_name :: string
  is_directory :: bool
  files :: "lang_file list"

type_synonym disk = "lang_entry list option"

type_synonym dict = "(string \<times> json) list"

definition entry_of :: "disk \<Rightarrow> string \<Rightarrow> lang_entry option" where
  "entry_of d l = (case d of None \<Rightarrow> None | Some es \<Rightarrow> find (\<lambda>e. dir_name e = l) es)"

definition visible_languages :: "lang_entry list \<Rightarrow> string list" where
  "visible_languages es =
     sort (map dir_name (filter (\<lambda>e. is_directory e \<and> take 1 (dir_name e) \<noteq> ''.'') es))"

definition list_languages :: "disk \<Rightarrow> string list" where
  "list_languages d = (case d of None \<Rightarrow> [] | Some es \<Rightarrow> visible_languages es)"

definition module_suffix :: "suffix \<Rightarrow> bool" where
  "module_suffix x \<longleftrightarrow> x \<noteq> OtherSuffix"

definition list_modules :: "disk \<Rightarrow> string \<Rightarrow> string list" where
  "list_modules d l =
     (case entry_of d l of None \<Rightarrow> [] | Some e \<Rightarrow> sort (map stem (filter (\<lambda>f. module_suffix (suffix f)) (files e))))"

definition language_exists :: "disk \<Rightarrow> string \<Rightarrow> bool" where
  "language_exists d l = (case entry_of d l of None \<Rightarrow> False | Some e \<Rightarrow> is_directory e)"

section \<open>Loading a file\<close>

text \<open>
  \<open>json.load\<close> and \<open>yaml.safe_load\<close> build a \<open>dict\<close> from the pairs of an object: a repeated key
  keeps its first position and its last value.
\<close>

definition dict_of :: "('k \<times> 'v) list \<Rightarrow> ('k \<times> 'v) list" where
  "dict_of ps = fold (\<lambda>(k, v) d. AList.update k v d) ps []"

primrec load_value :: "json \<Rightarrow> json" where
  "load_value JNull = JNull"
| "load_value (JBool b) = JBool b"
| "load_value (JInt n) = JInt n"
| "load_value (JFloat x) = JFloat x"
| "load_value (JStr s) = JStr s"
| "load_value (JList vs) = JList (map load_value vs)"
| "load_value (JObj ps) = JObj (dict_of (map (map_prod id load_value) ps))"

definition find_file :: "disk \<Rightarrow> string \<Rightarrow> string \<Rightarrow> suffix \<Rightarrow> lang_file option" where
  "find_file d l m x =
     (case entry_of d l of None \<Rightarrow> None | Some e \<Rightarrow> find (\<lambda>f. stem f = m \<and> suffix f = x) (files e))"

definition load_file :: "disk \<Rightarrow> string \<Rightarrow> string \<Rightarrow> json" where
  "load_file d l m =
     (case find_file d l m SuffixJson of
        Some f \<Rightarrow> (case parsed f of None \<Rightarrow> JObj [] | Some v \<Rightarrow> load_value v)
      | None \<Rightarrow>
          (case find_file d l m SuffixYaml of
             Some f \<Rightarrow> (case parsed f of None \<Rightarrow> JObj []
                        | Some v \<Rightarrow> if truthy (load_value v) then load_value v else JObj [])
           | None \<Rightarrow> JObj []))"

section \<open>The loader\<close>

text \<open>The memory of the loader: language to module to what was loaded.\<close>

type_synonym loaded = "(string \<times> (string \<times> json) list) list"

definition remembered :: "loaded \<Rightarrow> string \<Rightarrow> string \<Rightarrow> json option" where
  "remembered c l m = (case map_of c l of None \<Rightarrow> None | Some ms \<Rightarrow> map_of ms m)"

definition remember :: "string \<Rightarrow> string \<Rightarrow> json \<Rightarrow> loaded \<Rightarrow> loaded" where
  "remember l m v c =
     AList.update l (AList.update m v (case map_of c l of None \<Rightarrow> [] | Some ms \<Rightarrow> ms)) c"

definition loader_load :: "disk \<Rightarrow> string \<Rightarrow> string \<Rightarrow> loaded \<Rightarrow> json \<times> loaded" where
  "loader_load d l m c =
     (case remembered c l m of
        Some v \<Rightarrow> (v, c)
      | None \<Rightarrow> let v = load_file d l m in (v, remember l m v c))"

fun load_modules :: "disk \<Rightarrow> string \<Rightarrow> string list \<Rightarrow> dict \<Rightarrow> loaded \<Rightarrow> dict \<times> loaded" where
  "load_modules d l [] acc c = (acc, c)"
| "load_modules d l (m # ms) acc c =
     (let (v, c') = loader_load d l m c in load_modules d l ms (AList.update m v acc) c')"

definition load_all :: "disk \<Rightarrow> string \<Rightarrow> loaded \<Rightarrow> dict \<times> loaded" where
  "load_all d l c = load_modules d l (list_modules d l) [] c"

definition preload :: "disk \<Rightarrow> string \<Rightarrow> loaded \<Rightarrow> nat \<times> loaded" where
  "preload d l c =
     (let ms = list_modules d l in (length ms, fold (\<lambda>m c. snd (loader_load d l m c)) ms c))"

definition clear_loader :: "string option \<Rightarrow> loaded \<Rightarrow> loaded" where
  "clear_loader l c = (case l of None \<Rightarrow> [] | Some x \<Rightarrow> if x = [] then [] else AList.delete x c)"

section \<open>The look-up of a nested key\<close>

fun get_path :: "json \<Rightarrow> string list \<Rightarrow> json option" where
  "get_path cur [] = Some cur"
| "get_path cur (p # ps) =
     (case cur of
        JObj d \<Rightarrow> (case map_of d p of None \<Rightarrow> None | Some v \<Rightarrow> if v = JNull then None else get_path v ps)
      | _ \<Rightarrow> None)"

definition get_nested :: "json \<Rightarrow> string \<Rightarrow> json option" where
  "get_nested data key = get_path data (split_on (CHR ''.'') key)"

section \<open>Placeholders\<close>

text \<open>
  \<open>INTERPOLATION_PATTERN.sub\<close>: from left to right, a brace, one or more word characters and a
  closing brace are replaced by the value of that name, or kept when it has none.
\<close>

lemma dropWhile_shorter: "length (dropWhile P s) - Suc 0 < Suc (length s)"
  using length_dropWhile_le [of P s] by simp

function interpolate :: "(string \<Rightarrow> string option) \<Rightarrow> string \<Rightarrow> string" where
  "interpolate kw [] = []"
| "interpolate kw (c # s) =
     (let w = takeWhile is_word s; r = dropWhile is_word s in
      if c = CHR ''{'' \<and> w \<noteq> [] \<and> take 1 r = ''}'' then
        (case kw w of None \<Rightarrow> CHR ''{'' # w @ ''}'' | Some v \<Rightarrow> v) @ interpolate kw (tl r)
      else c # interpolate kw s)"
  by pat_completeness auto

termination
  by (relation "measure (\<lambda>(kw, s). length s)") (simp_all add: dropWhile_shorter)

section \<open>The cache\<close>

text \<open>
  Redis, a record of the commands used: \<open>None\<close> stands for a command that raises, \<open>rd_scan\<close> for
  the deletion of all keys of a pattern by \<open>SCAN\<close> and \<open>DELETE\<close>. What is stored as JSON text
  is read back as the same value.
\<close>

record 'r redis_texts =
  rd_get :: "string \<Rightarrow> 'r \<Rightarrow> json option option"
  rd_setex :: "string \<Rightarrow> int \<Rightarrow> json \<Rightarrow> 'r \<Rightarrow> 'r"
  rd_delete :: "string \<Rightarrow> 'r \<Rightarrow> 'r"
  rd_scan :: "string \<Rightarrow> 'r \<Rightarrow> 'r"

record 'r text_cache =
  tc_redis :: "'r option"
  tc_ttl :: int
  tc_local :: loaded

definition text_key :: "string \<Rightarrow> string \<Rightarrow> string" where
  "text_key l m = ''i18n:'' @ l @ '':'' @ m"

definition cache_get :: "'r redis_texts \<Rightarrow> string \<Rightarrow> string \<Rightarrow> 'r text_cache \<Rightarrow> json option" where
  "cache_get R l m c =
     (case (case tc_redis c of None \<Rightarrow> None | Some r \<Rightarrow> rd_get R (text_key l m) r) of
        Some (Some v) \<Rightarrow> Some v
      | _ \<Rightarrow> remembered (tc_local c) l m)"

definition cache_set ::
    "'r redis_texts \<Rightarrow> string \<Rightarrow> string \<Rightarrow> json \<Rightarrow> int option \<Rightarrow> 'r text_cache \<Rightarrow> 'r text_cache" where
  "cache_set R l m v ttl c =
     c\<lparr>tc_redis := map_option (rd_setex R (text_key l m) (or_num ttl (tc_ttl c)) v) (tc_redis c),
       tc_local := remember l m v (tc_local c)\<rparr>"

definition cache_invalidate ::
    "'r redis_texts \<Rightarrow> string option \<Rightarrow> string option \<Rightarrow> 'r text_cache \<Rightarrow> 'r text_cache" where
  "cache_invalidate R l m c =
     (let given = (\<lambda>x. case x of None \<Rightarrow> False | Some s \<Rightarrow> s \<noteq> []) in
      c\<lparr>tc_redis := map_option
          (if given l \<and> given m then rd_delete R (text_key (the l) (the m))
           else if given l then rd_scan R (''i18n:'' @ the l @ '':*'')
           else rd_scan R ''i18n:*'') (tc_redis c),
        tc_local := (if given l then AList.delete (the l) (tc_local c) else [])\<rparr>)"

section \<open>The service\<close>

text \<open>
  \<open>cached_text\<close> is what the cache gives the service: it is asked only when no event loop runs.
  \<open>shown\<close> is \<open>str\<close> of a value that is not a string.
\<close>

record text_service =
  ts_language :: string
  ts_common :: json

definition service_load ::
    "(string \<Rightarrow> string \<Rightarrow> json option) \<Rightarrow> disk \<Rightarrow> string \<Rightarrow> string \<Rightarrow> loaded \<Rightarrow> json \<times> loaded" where
  "service_load cached_text d l m c =
     (case cached_text l m of Some v \<Rightarrow> (v, c) | None \<Rightarrow> loader_load d l m c)"

definition new_service ::
    "(string \<Rightarrow> string \<Rightarrow> json option) \<Rightarrow> disk \<Rightarrow> string \<Rightarrow> loaded \<Rightarrow> text_service \<times> loaded" where
  "new_service cached_text d l c =
     (let (v, c') = service_load cached_text d l ''common'' c in (\<lparr>ts_language = l, ts_common = v\<rparr>, c'))"

definition switch_service_language ::
    "(string \<Rightarrow> string \<Rightarrow> json option) \<Rightarrow> disk \<Rightarrow> string \<Rightarrow> text_service \<Rightarrow> loaded \<Rightarrow> text_service \<times> loaded" where
  "switch_service_language cached_text d l t c =
     (let (v, c') = service_load cached_text d l ''common'' c in (t\<lparr>ts_language := l, ts_common := v\<rparr>, c'))"

definition or_str :: "string option \<Rightarrow> string \<Rightarrow> string" where
  "or_str x y = (case x of None \<Rightarrow> y | Some s \<Rightarrow> if s = [] then y else s)"

definition shown_text :: "(json \<Rightarrow> string) \<Rightarrow> json \<Rightarrow> string" where
  "shown_text shown v = (case v of JStr s \<Rightarrow> s | _ \<Rightarrow> shown v)"

definition fill :: "(string \<times> string option) list \<Rightarrow> string \<Rightarrow> string option" where
  "fill kw w = (case map_of kw w of Some (Some v) \<Rightarrow> Some v | _ \<Rightarrow> None)"

definition translate ::
    "(string \<Rightarrow> string \<Rightarrow> json option) \<Rightarrow> (json \<Rightarrow> string) \<Rightarrow> disk \<Rightarrow> text_service \<Rightarrow> string \<Rightarrow> string option
     \<Rightarrow> (string \<times> string option) list \<Rightarrow> loaded \<Rightarrow> string \<times> loaded" where
  "translate cached_text shown d t key dflt kw c =
     (case split_on (CHR ''.'') key of
        m # p # ps \<Rightarrow>
          (let (texts, c') = service_load cached_text d (ts_language t) m c in
           (case (case get_nested texts (join_with (CHR ''.'') (p # ps)) of
                    Some v \<Rightarrow> Some v | None \<Rightarrow> get_nested (ts_common t) key) of
              None \<Rightarrow> (or_str dflt key, c')
            | Some v \<Rightarrow>
                (if kw = [] then shown_text shown v else interpolate (fill kw) (shown_text shown v), c')))
      | _ \<Rightarrow> (or_str dflt key, c))"

text \<open>
  \<open>translate_dict\<close>: a text that starts with \<open>t:\<close> is a reference; objects are translated at any
  depth, lists one level deep.
\<close>

function (sequential)
  translate_dict ::
    "(string \<Rightarrow> loaded \<Rightarrow> string \<times> loaded) \<Rightarrow> dict \<Rightarrow> loaded \<Rightarrow> dict \<times> loaded" and
  translate_value :: "(string \<Rightarrow> loaded \<Rightarrow> string \<times> loaded) \<Rightarrow> json \<Rightarrow> loaded \<Rightarrow> json \<times> loaded" and
  translate_items :: "(string \<Rightarrow> loaded \<Rightarrow> string \<times> loaded) \<Rightarrow> json list \<Rightarrow> loaded \<Rightarrow> json list \<times> loaded" where
  "translate_dict t [] c = ([], c)"
| "translate_dict t ((k, v) # ps) c =
     (let (v', c1) = translate_value t v c; (ps', c2) = translate_dict t ps c1 in ((k, v') # ps', c2))"
| "translate_value t (JStr s) c =
     (if take 2 s = ''t:'' then let (x, c') = t (drop 2 s) c in (JStr x, c') else (JStr s, c))"
| "translate_value t (JObj ps) c = (let (ps', c') = translate_dict t ps c in (JObj ps', c'))"
| "translate_value t (JList vs) c = (let (vs', c') = translate_items t vs c in (JList vs', c'))"
| "translate_value t v c = (v, c)"
| "translate_items t [] c = ([], c)"
| "translate_items t (JObj ps # vs) c =
     (let (ps', c1) = translate_dict t ps c; (vs', c2) = translate_items t vs c1 in (JObj ps' # vs', c2))"
| "translate_items t (v # vs) c = (let (vs', c') = translate_items t vs c in (v # vs', c'))"
  by pat_completeness auto

termination
  by (relation "measure (\<lambda>x. case x of
        Inl (t, ps, c) \<Rightarrow> 2 * size_list (size_prod (\<lambda>_. 0) size) ps
      | Inr (Inl (t, v, c)) \<Rightarrow> 2 * size v + 1
      | Inr (Inr (t, vs, c)) \<Rightarrow> 2 * size_list size vs)") auto

definition get_module :: "(string \<Rightarrow> string \<Rightarrow> json option) \<Rightarrow> disk \<Rightarrow> text_service \<Rightarrow> string \<Rightarrow> loaded \<Rightarrow> json \<times> loaded" where
  "get_module cached_text d t m c = service_load cached_text d (ts_language t) m c"

definition get_all :: "disk \<Rightarrow> text_service \<Rightarrow> loaded \<Rightarrow> dict \<times> loaded" where
  "get_all d t c = load_all d (ts_language t) c"

end
