(* ===== verification/TranslationCheck.thy ===== *)
theory TranslationCheck
  imports Translations
begin

text \<open>
  The validator of the translations (\<open>app/i18n/validator.py\<close>): what it finds in the directory,
  its report, and the comparison with the keys used in the code. The search of the source text
  for references is not modelled: the references are an argument.
\<close>

datatype i18n_error =
    DirectoryMissing
  | NotAMapping
  | RepeatedKey string
  | UnreadableFile
  | LanguageUnsupported string
  | SessionError
  | NoSession

section \<open>Repeated keys\<close>

text \<open>\<open>_JsonDupHook\<close>: the first value of a key is kept, inner objects are closed before outer ones.\<close>

fun first_wins :: "(string \<times> 'v) list \<Rightarrow> (string \<times> 'v) list \<Rightarrow> string list \<Rightarrow> (string \<times> 'v) list \<times> string list" where
  "first_wins [] d dups = (d, dups)"
| "first_wins ((k, v) # ps) d dups =
     (if k \<in> set (map fst d) then first_wins ps d (dups @ [k]) else first_wins ps (d @ [(k, v)]) dups)"

primrec json_hook :: "json \<Rightarrow> json \<times> string list" where
  "json_hook JNull = (JNull, [])"
| "json_hook (JBool b) = (JBool b, [])"
| "json_hook (JInt n) = (JInt n, [])"
| "json_hook (JFloat x) = (JFloat x, [])"
| "json_hook (JStr s) = (JStr s, [])"
| "json_hook (JList vs) =
     (let rs = map json_hook vs in (JList (map fst rs), concat (map snd rs)))"
| "json_hook (JObj ps) =
     (let rs = map (map_prod id json_hook) ps;
          r = first_wins (map (\<lambda>p. (fst p, fst (snd p))) rs) [] []
      in (JObj (fst r), concat (map (\<lambda>p. snd (snd p)) rs) @ snd r))"

text \<open>
  \<open>_yaml_load_unique\<close>: a mapping is constructed at once and raises at its first repeated key;
  the items of a sequence are constructed after the mappings around it, one level of sequences
  after the other. Every repeated key is listed with its level.
\<close>

fun mapping_repeats :: "string list \<Rightarrow> nat \<Rightarrow> (string \<times> (nat \<Rightarrow> (nat \<times> string) list)) list \<Rightarrow> (nat \<times> string) list" where
  "mapping_repeats seen n [] = []"
| "mapping_repeats seen n ((k, f) # ps) =
     (if k \<in> set seen then [(n, k)] else f n) @ mapping_repeats (k # seen) n ps"

primrec yaml_repeats :: "json \<Rightarrow> nat \<Rightarrow> (nat \<times> string) list" where
  "yaml_repeats JNull = (\<lambda>n. [])"
| "yaml_repeats (JBool b) = (\<lambda>n. [])"
| "yaml_repeats (JInt i) = (\<lambda>n. [])"
| "yaml_repeats (JFloat x) = (\<lambda>n. [])"
| "yaml_repeats (JStr s) = (\<lambda>n. [])"
| "yaml_repeats (JList vs) = (\<lambda>n. concat (map (\<lambda>f. f (Suc n)) (map yaml_repeats vs)))"
| "yaml_repeats (JObj ps) = (\<lambda>n. mapping_repeats [] n (map (map_prod id yaml_repeats) ps))"

fun first_raised :: "(nat \<times> string) list \<Rightarrow> (nat \<times> string) option" where
  "first_raised [] = None"
| "first_raised ((n, k) # ds) =
     (case first_raised ds of None \<Rightarrow> Some (n, k) | Some (n', k') \<Rightarrow> if n \<le> n' then Some (n, k) else Some (n', k'))"

datatype loaded_file = Loaded json "string list" | Repeated string | Unreadable "string list"

definition check_file :: "lang_file \<Rightarrow> loaded_file" where
  "check_file f =
     (case parsed f of
        None \<Rightarrow> Unreadable (if suffix f = SuffixJson then early_repeats f else [])
      | Some v \<Rightarrow>
          if suffix f = SuffixJson then Loaded (fst (json_hook v)) (snd (json_hook v))
          else (case first_raised (yaml_repeats v 0) of
                  Some (n, k) \<Rightarrow> Repeated k
                | None \<Rightarrow> Loaded (if truthy (load_value v) then load_value v else JObj []) []))"

section \<open>Keys\<close>

function (sequential) flatten_keys :: "string \<Rightarrow> dict \<Rightarrow> string list" where
  "flatten_keys pre [] = []"
| "flatten_keys pre ((k, JObj d) # ps) =
     flatten_keys (if pre = [] then k else pre @ ''.'' @ k) d @ flatten_keys pre ps"
| "flatten_keys pre ((k, v) # ps) = (if pre = [] then k else pre @ ''.'' @ k) # flatten_keys pre ps"
  by pat_completeness auto

termination
  by (relation "measure (\<lambda>(pre, ps). size_list (size_prod (\<lambda>_. 0) size) ps)") auto

definition flatten_data :: "json \<Rightarrow> i18n_error + string list" where
  "flatten_data v = (case v of JObj d \<Rightarrow> Inr (flatten_keys [] d) | _ \<Rightarrow> Inl NotAMapping)"

section \<open>The report\<close>

record validation =
  missing_keys :: "(string \<times> string \<times> string) list"
  unused_keys :: "(string \<times> string \<times> string) list"
  duplicate_keys :: "(string \<times> string \<times> string) list"
  module_mismatches :: "(string \<times> string \<times> string) list"
  total_keys :: nat
  v_errors :: nat
  v_warnings :: nat

definition no_findings :: validation where
  "no_findings =
     \<lparr>missing_keys = [], unused_keys = [], duplicate_keys = [], module_mismatches = [], total_keys = 0,
      v_errors = 0, v_warnings = 0\<rparr>"

definition is_valid :: "validation \<Rightarrow> bool" where
  "is_valid r \<longleftrightarrow> v_errors r = 0"

section \<open>The files of every language\<close>

type_synonym catalogue = "(string \<times> (string \<times> json) list) list"

definition suffix_text :: "suffix \<Rightarrow> string" where
  "suffix_text x =
     (case x of SuffixJson \<Rightarrow> ''.json'' | SuffixYaml \<Rightarrow> ''.yaml'' | SuffixYml \<Rightarrow> ''.yml'' | OtherSuffix \<Rightarrow> [])"

definition file_name :: "lang_file \<Rightarrow> string" where
  "file_name f = stem f @ suffix_text (suffix f)"

definition note_duplicates :: "string \<Rightarrow> string \<Rightarrow> string list \<Rightarrow> validation \<Rightarrow> validation" where
  "note_duplicates l m ks r =
     r\<lparr>duplicate_keys := duplicate_keys r @ map (\<lambda>k. (l, m, k)) ks, v_errors := v_errors r + length ks\<rparr>"

definition scan_file :: "string \<Rightarrow> lang_file \<Rightarrow> (string \<times> json) list \<times> validation \<Rightarrow> (string \<times> json) list \<times> validation" where
  "scan_file l f s =
     (case s of (ms, r) \<Rightarrow>
        (case check_file f of
           Loaded v ks \<Rightarrow> (AList.update (stem f) v ms, note_duplicates l (stem f) ks r)
         | Repeated k \<Rightarrow> (AList.update (stem f) (JObj []) ms, note_duplicates l (stem f) [k] r)
         | Unreadable ks \<Rightarrow>
             (AList.update (stem f) (JObj []) ms,
              note_duplicates l (stem f) ks (r\<lparr>v_errors := v_errors r + 1\<rparr>))))"

definition module_files :: "lang_entry \<Rightarrow> lang_file list" where
  "module_files e = filter (\<lambda>f. module_suffix (suffix f)) (sort_key file_name (files e))"

definition scan_language :: "lang_entry list \<Rightarrow> string \<Rightarrow> catalogue \<times> validation \<Rightarrow> catalogue \<times> validation" where
  "scan_language es l s =
     (case s of (data, r) \<Rightarrow>
        (let (ms, r') = fold (scan_file l)
               (case entry_of (Some es) l of None \<Rightarrow> [] | Some e \<Rightarrow> module_files e) ([], r)
         in (data @ [(l, ms)], r')))"

definition data_of :: "catalogue \<Rightarrow> string \<Rightarrow> string \<Rightarrow> json option" where
  "data_of data l m = (case map_of data l of None \<Rightarrow> None | Some ms \<Rightarrow> map_of ms m)"

definition all_modules :: "catalogue \<Rightarrow> string list" where
  "all_modules data = sort (remdups (concat (map (\<lambda>x. map fst (snd x)) data)))"

section \<open>Modules and keys across languages\<close>

definition check_module :: "string list \<Rightarrow> catalogue \<Rightarrow> string \<Rightarrow> validation \<Rightarrow> validation" where
  "check_module langs data m r =
     (let has = filter (\<lambda>l. data_of data l m \<noteq> None) langs;
          missing = filter (\<lambda>l. data_of data l m = None) langs in
      if missing = [] then r
      else r\<lparr>module_mismatches := module_mismatches r @ [(m, join_str '', '' has, join_str '', '' missing)],
             v_errors := v_errors r + length missing\<rparr>)"

definition module_keys :: "string list \<Rightarrow> catalogue \<Rightarrow> string \<Rightarrow> i18n_error + (string \<times> string list) list" where
  "module_keys langs data m =
     mapR (\<lambda>l. bindR (flatten_data (case data_of data l m of None \<Rightarrow> JNull | Some v \<Rightarrow> v)) (\<lambda>ks. Inr (l, ks)))
       (filter (\<lambda>l. data_of data l m \<noteq> None) langs)"

text \<open>\<open>sorted(a - b)\<close> of two sets of keys\<close>

definition keys_minus :: "string list \<Rightarrow> string list \<Rightarrow> string list" where
  "keys_minus a b = sort (remdups (filter (\<lambda>k. k \<notin> set b) a))"

definition union_keys :: "(string \<times> string list) list \<Rightarrow> string list" where
  "union_keys mk = concat (map snd mk)"

definition note_missing :: "string \<Rightarrow> string list \<Rightarrow> string \<times> string list \<Rightarrow> validation \<Rightarrow> validation" where
  "note_missing m un x r =
     (let ks = keys_minus un (snd x) in
      r\<lparr>missing_keys := missing_keys r @ map (\<lambda>k. (fst x, m, k)) ks, v_errors := v_errors r + length ks\<rparr>)"

definition note_unused :: "string \<Rightarrow> string \<Rightarrow> string list \<Rightarrow> string \<times> string list \<Rightarrow> validation \<Rightarrow> validation" where
  "note_unused m ref_lang ref x r =
     (if fst x = ref_lang then r
      else let ks = keys_minus (snd x) ref in
        r\<lparr>unused_keys := unused_keys r @ map (\<lambda>k. (fst x, m, k)) ks, v_warnings := v_warnings r + length ks\<rparr>)"

definition check_keys :: "string list \<Rightarrow> string \<Rightarrow> (string \<times> string list) list \<Rightarrow> validation \<Rightarrow> validation" where
  "check_keys langs m mk r =
     (if mk = [] then r
      else
        (let un = union_keys mk;
             r1 = fold (note_missing m un) mk (r\<lparr>total_keys := length (remdups un)\<rparr>);
             ref_lang = (case langs of [] \<Rightarrow> ''en'' | l # _ \<Rightarrow> l);
             ref = (case map_of mk ref_lang of None \<Rightarrow> [] | Some ks \<Rightarrow> ks)
         in fold (note_unused m ref_lang ref) mk r1))"

fun check_modules :: "string list \<Rightarrow> catalogue \<Rightarrow> string list \<Rightarrow> validation \<Rightarrow> i18n_error + validation" where
  "check_modules langs data [] r = Inr r"
| "check_modules langs data (m # ms) r =
     bindR (module_keys langs data m) (\<lambda>mk. check_modules langs data ms (check_keys langs m mk r))"

definition scan_all :: "lang_entry list \<Rightarrow> catalogue \<times> validation" where
  "scan_all es =
     (let langs = visible_languages es;
          r0 = (if length langs < 2 then no_findings\<lparr>v_warnings := 1\<rparr> else no_findings)
      in fold (scan_language es) langs ([], r0))"

definition validate :: "disk \<Rightarrow> i18n_error + validation" where
  "validate d =
     (case d of
        None \<Rightarrow> Inl DirectoryMissing
      | Some es \<Rightarrow>
          (let langs = visible_languages es;
               (data, r) = scan_all es;
               r' = fold (check_module langs data) (all_modules data) r
           in check_modules langs data (all_modules data) r'))"

section \<open>The text of the report\<close>

definition finding_lines :: "string \<Rightarrow> nat \<Rightarrow> (string \<times> string \<times> string) list \<Rightarrow> string list" where
  "finding_lines title n fs =
     [CHR 10 # title @ '' ('' @ digits (length fs) @ ''):'']
     @ map (\<lambda>(l, m, k). ''  ['' @ l @ ''] '' @ m @ ''.'' @ k) (take n fs)"

definition more_line :: "nat \<Rightarrow> (string \<times> string \<times> string) list \<Rightarrow> string list" where
  "more_line n fs = (if n < length fs then [''  ... and '' @ digits (length fs - n) @ '' more''] else [])"

definition summary :: "validation \<Rightarrow> string" where
  "summary r =
     join_str [CHR 10]
       ([''Translation Validation Report'', replicate 40 (CHR ''=''),
         ''Total keys per module: '' @ digits (total_keys r),
         ''Errors:   '' @ digits (v_errors r),
         ''Warnings: '' @ digits (v_warnings r),
         ''Valid:    '' @ (if is_valid r then ''YES'' else ''NO'')]
        @ (if missing_keys r = [] then [] else finding_lines ''Missing Keys'' 10 (missing_keys r) @ more_line 10 (missing_keys r))
        @ (if duplicate_keys r = [] then []
           else finding_lines ''Duplicate Keys'' 10 (duplicate_keys r) @ more_line 10 (duplicate_keys r))
        @ (if unused_keys r = [] then [] else finding_lines ''Unused Keys'' 5 (unused_keys r))
        @ (if module_mismatches r = [] then []
           else (CHR 10 # ''Module Mismatches ('' @ digits (length (module_mismatches r)) @ ''):'')
             # map (\<lambda>(m, has, missing). ''  '' @ m @ '': missing in '' @ missing) (module_mismatches r)))"

section \<open>Keys used in the code\<close>

definition file_keys :: "lang_file \<Rightarrow> i18n_error + string list" where
  "file_keys f =
     (case check_file f of
        Loaded v ks \<Rightarrow> flatten_data v
      | Repeated k \<Rightarrow> Inl (RepeatedKey k)
      | Unreadable ks \<Rightarrow> Inl UnreadableFile)"

text \<open>The keys of all files, by module and language; the union is all that is used.\<close>

definition collect_all :: "lang_entry list \<Rightarrow> i18n_error + (string \<times> string \<times> string list) list" where
  "collect_all es =
     bindR
       (mapR (\<lambda>e. mapR (\<lambda>f. bindR (file_keys f) (\<lambda>ks. Inr (stem f, dir_name e, ks)))
               (filter (\<lambda>f. module_suffix (suffix f)) (files e)))
         (filter (\<lambda>e. is_directory e \<and> take 1 (dir_name e) \<noteq> ''.'') es))
       (\<lambda>xs. Inr (concat xs))"

record code_usage =
  referenced_keys :: "string list"
  defined_keys :: "string list"
  defined_but_unused :: "string list"
  used_but_missing :: "string list"
  referenced_count :: nat
  defined_count :: nat

definition scan_code_usage :: "string list \<Rightarrow> disk \<Rightarrow> i18n_error + code_usage" where
  "scan_code_usage referenced d =
     (case d of
        None \<Rightarrow> Inl DirectoryMissing
      | Some es \<Rightarrow>
          bindR (collect_all es) (\<lambda>xs.
            let defined = concat (map (\<lambda>x. snd (snd x)) xs) in
            Inr \<lparr>referenced_keys = keys_minus referenced [], defined_keys = keys_minus defined [],
                 defined_but_unused = keys_minus defined referenced,
                 used_but_missing = keys_minus referenced defined,
                 referenced_count = length (remdups referenced), defined_count = length (remdups defined)\<rparr>))"

end
