(* ===== verification/LocaleText.thy ===== *)
theory LocaleText
  imports Numbers Texts
begin

text \<open>
  The formatting of numbers, money and plurals (\<open>app/i18n/locale.py\<close>). Dates and time zones are
  \<open>strftime\<close> and \<open>zoneinfo\<close> and are left out, as are the names in Chinese. A negative zero is
  not told from zero.
\<close>

section \<open>The locales\<close>

record locale_config =
  lc_language :: string
  lc_display_name :: string
  decimal_separator :: string
  grouping_separator :: string
  decimal_places :: nat
  currency_symbol :: string
  currency_code :: string
  currency_position :: string
  currency_space :: bool
  default_timezone :: string
  plural_forms :: "string list"
  plural_fn :: string
  first_day_of_week :: int

definition en_locale :: locale_config where
  "en_locale =
     \<lparr>lc_language = ''en'', lc_display_name = ''English'', decimal_separator = ''.'', grouping_separator = '','',
      decimal_places = 2, currency_symbol = ''$'', currency_code = ''USD'', currency_position = ''before'',
      currency_space = False, default_timezone = ''UTC'', plural_forms = [''one'', ''other''], plural_fn = ''en'',
      first_day_of_week = 0\<rparr>"

definition zh_locale :: locale_config where
  "zh_locale =
     \<lparr>lc_language = ''zh-CN'', lc_display_name = ''Chinese (Simplified)'', decimal_separator = ''.'',
      grouping_separator = '','', decimal_places = 2, currency_symbol = [CHR 0xA5], currency_code = ''CNY'',
      currency_position = ''before'', currency_space = False, default_timezone = ''UTC'',
      plural_forms = [''other''], plural_fn = ''zh'', first_day_of_week = 1\<rparr>"

definition BUILTIN_LOCALES :: "(string \<times> locale_config) list" where
  "BUILTIN_LOCALES = [(''en'', en_locale), (''zh-CN'', zh_locale)]"

definition locale_of :: "string \<Rightarrow> locale_config" where
  "locale_of l = (case map_of BUILTIN_LOCALES l of None \<Rightarrow> en_locale | Some c \<Rightarrow> c)"

section \<open>The number in a text\<close>

text \<open>
  What \<open>Decimal(s)\<close> accepts: an optional sign, digits with an optional point, an optional
  exponent, or a special value; spaces around and underscores do not count.
\<close>

datatype decimal_text = Finite rat | Infinite bool | QuietNan | SignalNan string | Malformed

definition read_exponent :: "string \<Rightarrow> int option" where
  "read_exponent s =
     (case s of
        [] \<Rightarrow> Some 0
      | c # r \<Rightarrow>
          (let body = (if take 1 r = ''-'' \<or> take 1 r = ''+'' then tl r else r) in
           if lower_char c = CHR ''e'' \<and> body \<noteq> [] \<and> list_all is_digit body
           then Some (if take 1 r = ''-'' then - int (read_digits body) else int (read_digits body))
           else None))"

definition read_finite :: "bool \<Rightarrow> string \<Rightarrow> decimal_text" where
  "read_finite neg u =
     (let ip = takeWhile is_digit u; r = dropWhile is_digit u;
          fp = (if take 1 r = ''.'' then takeWhile is_digit (tl r) else []);
          r' = (if take 1 r = ''.'' then dropWhile is_digit (tl r) else r) in
      if ip = [] \<and> fp = [] then Malformed
      else case read_exponent r' of
             None \<Rightarrow> Malformed
           | Some e \<Rightarrow> Finite ((if neg then -1 else 1) * of_nat (read_digits (ip @ fp)) * 10 powi (e - int (length fp))))"

definition parse_decimal :: "string \<Rightarrow> decimal_text" where
  "parse_decimal s =
     (let t = filter (\<lambda>c. c \<noteq> CHR ''_'') (strip s);
          neg = (take 1 t = ''-'');
          u = (if neg \<or> take 1 t = ''+'' then tl t else t);
          w = lower u in
      if w = ''inf'' \<or> w = ''infinity'' then Infinite neg
      else if take 3 w = ''nan'' \<and> list_all is_digit (drop 3 w) then QuietNan
      else if take 4 w = ''snan'' \<and> list_all is_digit (drop 4 w) then
        SignalNan ((if neg then ''-'' else []) @ ''sNaN'' @ dropWhile (\<lambda>c. c = CHR ''0'') (drop 4 w))
      else read_finite neg u)"

section \<open>Numbers as text\<close>

text \<open>\<open>f"{x:,.kf}"\<close>: the digits of the exact value rounded half to even, grouped by three\<close>

fun group_rev :: "string \<Rightarrow> string" where
  "group_rev (a # b # c # d # r) = a # b # c # CHR '','' # group_rev (d # r)"
| "group_rev r = r"

definition group_digits :: "string \<Rightarrow> string" where
  "group_digits s = rev (group_rev (rev s))"

definition pad_digits :: "nat \<Rightarrow> string \<Rightarrow> string" where
  "pad_digits k s = replicate (k - length s) (CHR ''0'') @ s"

definition fixed_grouped :: "nat \<Rightarrow> rat \<Rightarrow> string" where
  "fixed_grouped k x =
     (let n = nat (round_he (\<bar>x\<bar> * 10 ^ k)) in
      (if x < 0 then ''-'' else []) @ group_digits (digits (n div 10 ^ k))
      @ (if k = 0 then [] else CHR ''.'' # pad_digits k (digits (n mod 10 ^ k))))"

definition replace_char :: "char \<Rightarrow> string \<Rightarrow> string \<Rightarrow> string" where
  "replace_char c new s = concat (map (\<lambda>x. if x = c then new else [x]) s)"

text \<open>\<open>None\<close> in a result stands for the dash.\<close>

datatype number_input = NoNumber | NumText string | Number rat

definition localised :: "locale_config \<Rightarrow> nat option \<Rightarrow> rat \<Rightarrow> string" where
  "localised cfg dp x =
     (let k = (case dp of None \<Rightarrow> decimal_places cfg | Some n \<Rightarrow> n);
          s = fixed_grouped k (fl x);
          s = (if grouping_separator cfg \<noteq> '','' then replace_char (CHR '','') (grouping_separator cfg) s else s)
      in if decimal_separator cfg \<noteq> ''.'' then replace_char (CHR ''.'') (decimal_separator cfg) s else s)"

definition format_number :: "locale_config \<Rightarrow> number_input \<Rightarrow> nat option \<Rightarrow> string option py" where
  "format_number cfg v dp =
     (case v of
        NoNumber \<Rightarrow> Inr None
      | Number x \<Rightarrow> Inr (Some (localised cfg dp x))
      | NumText s \<Rightarrow>
          (case parse_decimal s of
             Finite x \<Rightarrow> Inr (Some (localised cfg dp x))
           | Infinite neg \<Rightarrow> Inr (Some (if neg then ''-inf'' else ''inf''))
           | QuietNan \<Rightarrow> Inr (Some ''nan'')
           | SignalNan t \<Rightarrow> Inr (Some t)
           | Malformed \<Rightarrow> Inl InvalidOperation))"

definition or_dash :: "(string \<Rightarrow> string) \<Rightarrow> number_input \<Rightarrow> string option py \<Rightarrow> string option py" where
  "or_dash f v r = (if v = NoNumber then Inr None else bindR r (\<lambda>t. Inr (map_option f t)))"

definition format_percentage :: "locale_config \<Rightarrow> number_input \<Rightarrow> nat \<Rightarrow> string option py" where
  "format_percentage cfg v dp = or_dash (\<lambda>t. t @ ''%'') v (format_number cfg v (Some dp))"

definition format_currency :: "locale_config \<Rightarrow> number_input \<Rightarrow> string option py" where
  "format_currency cfg v =
     (let space = (if currency_space cfg then '' '' else []) in
      or_dash (\<lambda>t. if currency_position cfg = ''before'' then currency_symbol cfg @ space @ t
                   else t @ space @ currency_symbol cfg) v (format_number cfg v None))"

section \<open>Plurals\<close>

definition plural_rule :: "string \<Rightarrow> int \<Rightarrow> string" where
  "plural_rule f n = (if f = ''zh'' then ''other'' else if n = 1 then ''one'' else ''other'')"

definition format_count :: "locale_config \<Rightarrow> int \<Rightarrow> string" where
  "format_count cfg n = localised cfg (Some 0) (of_int n)"

definition pluralize :: "locale_config \<Rightarrow> int \<Rightarrow> string \<Rightarrow> string option \<Rightarrow> string" where
  "pluralize cfg n singular plural =
     (let word =
        (if ''one'' \<notin> set (plural_forms cfg) then singular
         else if plural_rule (plural_fn cfg) n = ''one'' \<or> n = 1 then singular
         else case plural of
                None \<Rightarrow> singular @ ''s''
              | Some p \<Rightarrow> if p = [] then singular @ ''s'' else p)
      in format_count cfg n @ '' '' @ word)"

end
