(* ===== verification/TranslationProps.thy ===== *)
theory TranslationProps
  imports TranslationCheck LocaleText
begin

text \<open>
  What the texts promise: a template is filled piece by piece, formatted numbers read back, the
  validator accepts exactly the complete translations, and a key that resolves in one language of
  a valid directory resolves in every other.
\<close>

section \<open>Templates\<close>

text \<open>A template as pieces: text without an opening brace, and names in braces.\<close>

datatype piece = Raw string | Hole string

fun piece_source :: "piece \<Rightarrow> string" where
  "piece_source (Raw s) = s"
| "piece_source (Hole w) = CHR ''{'' # w @ ''}''"

fun piece_ok :: "piece \<Rightarrow> bool" where
  "piece_ok (Raw s) = (CHR ''{'' \<notin> set s)"
| "piece_ok (Hole w) = (w \<noteq> [] \<and> list_all is_word w)"

fun piece_filled :: "(string \<Rightarrow> string option) \<Rightarrow> piece \<Rightarrow> string" where
  "piece_filled kw (Raw s) = s"
| "piece_filled kw (Hole w) = (case kw w of None \<Rightarrow> CHR ''{'' # w @ ''}'' | Some v \<Rightarrow> v)"

lemma brace_not_word: "\<not> is_word (CHR ''}'')"
  by (simp add: is_word_def is_digit_def Let_def)

lemma interpolate_raw: "CHR ''{'' \<notin> set s \<Longrightarrow> interpolate kw (s @ t) = s @ interpolate kw t"
  by (induction s) (auto simp: Let_def)

lemma interpolate_hole:
  assumes "w \<noteq> []" and "list_all is_word w"
  shows "interpolate kw (CHR ''{'' # w @ CHR ''}'' # t) = piece_filled kw (Hole w) @ interpolate kw t"
proof -
  have "takeWhile is_word (w @ CHR ''}'' # t) = w" "dropWhile is_word (w @ CHR ''}'' # t) = CHR ''}'' # t"
    using assms(2) brace_not_word by (simp_all add: list_all_iff takeWhile_append2 dropWhile_append2)
  then show ?thesis using assms(1) by (simp add: Let_def)
qed

text \<open>Filling a template replaces every placeholder that has a value and nothing else: for a text
  made of pieces without an opening brace and of names in braces, the result is the pieces with
  the values in place. A placeholder without a value stays as written, and braces inside a value
  are not looked at again.
\<close>

theorem interpolate_template:
  assumes "list_all piece_ok ps"
  shows "interpolate kw (concat (map piece_source ps)) = concat (map (piece_filled kw) ps)"
  using assms
proof (induction ps)
  case (Cons p ps)
  then show ?case
    by (cases p) (simp_all add: interpolate_raw interpolate_hole del: interpolate.simps piece_filled.simps(2))
qed simp

theorem interpolate_template_witness:
  "interpolate (fill [(''name'', Some ''{page}''), (''total'', Some ''5'')]) ''Hi {name}: {page}/{total}''
    = ''Hi {page}: {page}/5''"
  using interpolate_template [of "[Raw ''Hi '', Hole ''name'', Raw '': '', Hole ''page'', Raw ''/'', Hole ''total'']"
      "fill [(''name'', Some ''{page}''), (''total'', Some ''5'')]"]
  by (simp add: is_word_def is_digit_def Let_def fill_def del: interpolate.simps)

section \<open>Numbers that read back\<close>

text \<open>
  Reading a formatted number: the sign, then the digits and the decimal separator; everything
  else is grouping.
\<close>

definition read_number :: "char \<Rightarrow> string \<Rightarrow> rat" where
  "read_number b s =
     (let t = filter (\<lambda>c. is_digit c \<or> c = b) s;
          ip = takeWhile (\<lambda>c. c \<noteq> b) t; fp = tl (dropWhile (\<lambda>c. c \<noteq> b) t)
      in (if take 1 s = ''-'' then -1 else 1) * of_nat (read_digits (ip @ fp)) / 10 ^ length fp)"

definition well_separated :: "locale_config \<Rightarrow> char \<Rightarrow> bool" where
  "well_separated cfg b \<longleftrightarrow>
     decimal_separator cfg = [b] \<and> \<not> is_digit b \<and> b \<noteq> CHR ''-'' \<and> b \<notin> set (grouping_separator cfg)
     \<and> list_all (\<lambda>c. \<not> is_digit c \<and> c \<noteq> CHR ''-'' \<and> c \<noteq> CHR ''.'') (grouping_separator cfg)"

lemma digits_length: "n < 10 ^ k \<Longrightarrow> 0 < k \<Longrightarrow> length (digits n) \<le> k"
proof (induction n arbitrary: k rule: digits.induct)
  case (1 n)
  show ?case
  proof (cases "n < 10")
    case True
    then show ?thesis using 1 by (subst digits.simps) simp
  next
    case False
    obtain j where k: "k = Suc j" using 1 by (cases k) auto
    have j: "0 < j" using False 1(2) k by (cases j) auto
    have "length (digits (n div 10)) \<le> j"
      using False 1(2) j by (intro 1(1)) (auto simp: k less_mult_imp_div_less mult.commute)
    then show ?thesis using False k by (subst digits.simps) simp
  qed
qed

lemma pad_digits_spec: "f < 10 ^ k \<Longrightarrow> 0 < k \<Longrightarrow>
    length (pad_digits k (digits f)) = k \<and> read_digits (pad_digits k (digits f)) = f
    \<and> list_all is_digit (pad_digits k (digits f))"
  using digits_length [of f k]
  by (auto simp: pad_digits_def read_digits_zeros read_digits_digits list_all_iff is_digit_def [of "CHR ''0''"]
      intro: digits_are_digits)

lemma group_rev_filter: "\<not> P (CHR '','') \<Longrightarrow> filter P (group_rev s) = filter P s"
  by (induction s rule: group_rev.induct) auto

lemma group_rev_set: "set (group_rev s) \<subseteq> insert (CHR '','') (set s)"
  by (induction s rule: group_rev.induct) auto

lemma group_digits_filter: "\<not> P (CHR '','') \<Longrightarrow> filter P (group_digits s) = filter P s"
  by (simp add: group_digits_def group_rev_filter flip: rev_filter)

lemma group_digits_set: "set (group_digits s) \<subseteq> insert (CHR '','') (set s)"
  using group_rev_set [of "rev s"] by (simp add: group_digits_def)

lemma replace_char_append: "replace_char c new (s @ t) = replace_char c new s @ replace_char c new t"
  by (simp add: replace_char_def)

lemma replace_char_Cons: "replace_char c new (x # s) = (if x = c then new else [x]) @ replace_char c new s"
  by (simp add: replace_char_def)

lemma replace_char_id: "c \<notin> set s \<Longrightarrow> replace_char c new s = s"
  by (induction s) (auto simp: replace_char_def)

lemma replace_char_same: "replace_char c [c] s = s"
  by (induction s) (auto simp: replace_char_def)

lemma replace_char_set: "set (replace_char c new s) \<subseteq> set new \<union> (set s - {c})"
  by (auto simp: replace_char_def)

lemma replace_char_filter: "\<forall>x \<in> set new. \<not> P x \<Longrightarrow> filter P (replace_char c new s) = filter (\<lambda>x. P x \<and> x \<noteq> c) s"
  by (induction s) (auto simp: replace_char_def)

lemma not_digit [simp]: "\<not> is_digit (CHR '','')" "\<not> is_digit (CHR ''.'')" "\<not> is_digit (CHR ''-'')"
  by (simp_all add: is_digit_def Let_def)

lemma localised_shape:
  assumes cfg: "well_separated cfg b" and k: "k = (case dp of None \<Rightarrow> decimal_places cfg | Some n \<Rightarrow> n)"
    and n: "n = nat (round_he (\<bar>fl x\<bar> * 10 ^ k))"
  shows "localised cfg dp x =
    (if fl x < 0 then ''-'' else []) @ replace_char (CHR '','') (grouping_separator cfg) (group_digits (digits (n div 10 ^ k)))
    @ (if k = 0 then [] else b # pad_digits k (digits (n mod 10 ^ k)))"
proof -
  let ?g = "replace_char (CHR '','') (grouping_separator cfg) (group_digits (digits (n div 10 ^ k)))"
  let ?f = "pad_digits k (digits (n mod 10 ^ k))"
  have f: "0 < k \<Longrightarrow> list_all is_digit ?f" by (simp add: pad_digits_spec)
  have fid: "0 < k \<Longrightarrow> replace_char c new ?f = ?f" if "\<not> is_digit c" for c new
    using f that by (intro replace_char_id) (auto simp: list_all_iff)
  have "CHR ''.'' \<notin> set ?g"
    using cfg replace_char_set [of "CHR '',''" "grouping_separator cfg" "group_digits (digits (n div 10 ^ k))"]
      group_digits_set [of "digits (n div 10 ^ k)"] digits_are_digits [of "CHR ''.''" "n div 10 ^ k"]
    by (auto simp: well_separated_def list_all_iff)
  then have gid: "replace_char (CHR ''.'') [b] ?g = ?g" by (rule replace_char_id)
  have sid: "replace_char c new ''-'' = ''-''" "replace_char c new [] = []" if "c \<noteq> CHR ''-''" for c new
    using that by (simp_all add: replace_char_def)
  have step1: "replace_char (CHR '','') (grouping_separator cfg) (fixed_grouped k (fl x)) =
      (if fl x < 0 then ''-'' else []) @ ?g @ (if k = 0 then [] else CHR ''.'' # ?f)"
    unfolding fixed_grouped_def Let_def n [symmetric] by (simp add: replace_char_append replace_char_Cons fid sid)
  have "localised cfg dp x = replace_char (CHR ''.'') [b] (replace_char (CHR '','') (grouping_separator cfg) (fixed_grouped k (fl x)))"
    using cfg by (auto simp: localised_def Let_def replace_char_same well_separated_def k)
  also have "\<dots> = (if fl x < 0 then ''-'' else []) @ ?g @ (if k = 0 then [] else b # ?f)"
    unfolding step1 by (simp add: replace_char_append replace_char_Cons fid gid sid)
  finally show ?thesis .
qed

text \<open>C28: A formatted number reads back: with a decimal separator that differs from the grouping, and a
  grouping without digits, signs or points, the text that format_number gives for a number is the
  number as a double, rounded half to even to the places asked for, whatever the grouping; the
  built-in locales are of this kind.
\<close>

theorem number_reads_back:
  assumes "well_separated cfg b" and "k = (case dp of None \<Rightarrow> decimal_places cfg | Some n \<Rightarrow> n)"
  shows "\<exists>s. format_number cfg (Number x) dp = Inr (Some s)
    \<and> read_number b s = of_int (round_he (fl x * 10 ^ k)) / 10 ^ k"
proof -
  define n where "n = nat (round_he (\<bar>fl x\<bar> * 10 ^ k))"
  let ?ip = "digits (n div 10 ^ k)" and ?f = "pad_digits k (digits (n mod 10 ^ k))"
  let ?g = "replace_char (CHR '','') (grouping_separator cfg) (group_digits ?ip)"
  let ?P = "\<lambda>c. is_digit c \<or> c = b"
  have cfg: "\<not> is_digit b" "b \<noteq> CHR ''-''" "\<forall>c \<in> set (grouping_separator cfg). \<not> ?P c \<and> c \<noteq> CHR ''-''"
    using assms(1) by (auto simp: well_separated_def list_all_iff)
  have ip: "filter ?P ?ip = ?ip" "takeWhile (\<lambda>c. c \<noteq> b) ?ip = ?ip" "b \<notin> set ?ip"
    using digits_are_digits cfg(1) by (auto simp: filter_id_conv takeWhile_eq_all_conv)
  have f: "length ?f = k" "read_digits ?f = n mod 10 ^ k" "filter ?P ?f = ?f" if "0 < k"
    using pad_digits_spec [of "n mod 10 ^ k" k] that by (auto simp: list_all_iff filter_id_conv)
  have g: "filter ?P ?g = ?ip"
  proof -
    have "filter ?P ?g = filter (\<lambda>c. ?P c \<and> c \<noteq> CHR '','') (group_digits ?ip)"
      using cfg(3) by (intro replace_char_filter) blast
    also have "\<dots> = filter (\<lambda>c. ?P c \<and> c \<noteq> CHR '','') ?ip" by (rule group_digits_filter) simp
    also have "\<dots> = ?ip" by (rule filter_True) (use digits_are_digits [of _ "n div 10 ^ k"] not_digit(1) in blast)
    finally show ?thesis .
  qed
  have no_sign: "CHR ''-'' \<notin> set ?g"
    using cfg replace_char_set [of "CHR '',''" "grouping_separator cfg" "group_digits ?ip"] group_digits_set [of ?ip]
      digits_are_digits [of "CHR ''-''" "n div 10 ^ k"] by auto
  define tail where "tail = (if k = 0 then [] else b # ?f)"
  have sign: "take 1 (?g @ tail) \<noteq> ''-''"
    using no_sign cfg(2) by (cases ?g) (auto simp: tail_def)
  have read: "read_digits (?ip @ (if k = 0 then [] else ?f)) = n"
    using f by (simp add: read_digits_append read_digits_digits div_mult_mod_eq)
  have filtered: "filter ?P (sg @ ?g @ tail) = ?ip @ tail" if "sg = [] \<or> sg = ''-''" for sg
  proof -
    have "filter ?P tail = tail" unfolding tail_def using f(3) by simp
    moreover have "filter ?P sg = []" using that cfg(2) by (elim disjE) simp_all
    ultimately show ?thesis by (simp add: g)
  qed
  have split: "takeWhile (\<lambda>c. c \<noteq> b) (?ip @ tail) = ?ip" "tl (dropWhile (\<lambda>c. c \<noteq> b) (?ip @ tail)) = (if k = 0 then [] else ?f)"
    using ip(3) unfolding tail_def by (simp_all add: takeWhile_append dropWhile_append)
  have len: "length (if k = 0 then [] else ?f) = k" using f by simp
  have pos: "0 \<le> round_he (\<bar>fl x\<bar> * 10 ^ k)" by (rule round_he_ge_int) simp
  have val: "(if fl x < 0 then -1 else 1) * rat_of_nat n = of_int (round_he (fl x * 10 ^ k))"
    using pos round_he_minus [of "fl x * 10 ^ k"] by (auto simp: n_def)
  have shape: "localised cfg dp x = (if fl x < 0 then ''-'' else []) @ ?g @ tail"
    unfolding tail_def by (rule localised_shape) (use assms in \<open>auto simp: n_def\<close>)
  have "read_number b (localised cfg dp x) = (if fl x < 0 then -1 else 1) * rat_of_nat n / 10 ^ k"
    unfolding read_number_def Let_def shape
    using filtered [of "if fl x < 0 then ''-'' else []"] split read len sign by simp
  then show ?thesis by (simp add: format_number_def val)
qed

theorem number_reads_back_witness:
  "\<exists>s. format_number zh_locale (Number (- 2469135 / 2)) (Some 1) = Inr (Some s)
    \<and> read_number (CHR ''.'') s = of_int (round_he (fl (- 2469135 / 2) * 10 ^ 1)) / 10 ^ 1"
  by (rule number_reads_back) (simp_all add: well_separated_def zh_locale_def)

end
