(* ===== verification/ValidatorProps.thy ===== *)
theory ValidatorProps
  imports TranslationCheck
begin

text \<open>
  The validator accepts exactly the complete translations, and in a valid directory a key that
  resolves in one language resolves in every other.
\<close>

section \<open>What a complete directory is\<close>

definition files_of :: "lang_entry list \<Rightarrow> string \<Rightarrow> lang_file list" where
  "files_of es l = (case entry_of (Some es) l of None \<Rightarrow> [] | Some e \<Rightarrow> module_files e)"

definition clean_file :: "lang_file \<Rightarrow> bool" where
  "clean_file f = (case check_file f of Loaded v ks \<Rightarrow> ks = [] | _ \<Rightarrow> False)"

definition file_value :: "lang_file \<Rightarrow> json" where
  "file_value f = (case check_file f of Loaded v ks \<Rightarrow> v | _ \<Rightarrow> JObj [])"

text \<open>The value of a module: that of its last file, as the loop over the files leaves it.\<close>

definition language_data :: "lang_entry list \<Rightarrow> string \<Rightarrow> string \<Rightarrow> json option" where
  "language_data es l m = map_of (rev (map (\<lambda>f. (stem f, file_value f)) (files_of es l))) m"

definition key_set :: "json option \<Rightarrow> string set" where
  "key_set v = (case v of Some (JObj d) \<Rightarrow> set (flatten_keys [] d) | _ \<Rightarrow> {})"

definition modules_of :: "lang_entry list \<Rightarrow> string list" where
  "modules_of es = concat (map (\<lambda>l. map stem (files_of es l)) (visible_languages es))"

definition complete_translations :: "lang_entry list \<Rightarrow> bool" where
  "complete_translations es \<longleftrightarrow>
     (\<forall>l \<in> set (visible_languages es). \<forall>f \<in> set (files_of es l). clean_file f)
     \<and> (\<forall>m \<in> set (modules_of es). \<forall>l \<in> set (visible_languages es). language_data es l m \<noteq> None)
     \<and> (\<forall>m \<in> set (modules_of es). \<forall>l \<in> set (visible_languages es). \<forall>l' \<in> set (visible_languages es).
          key_set (language_data es l m) = key_set (language_data es l' m))"

section \<open>Counting the errors\<close>

definition file_errors :: "lang_file \<Rightarrow> nat" where
  "file_errors f = (case check_file f of Loaded v ks \<Rightarrow> length ks | Repeated k \<Rightarrow> 1 | Unreadable ks \<Rightarrow> Suc (length ks))"

lemma file_errors_0: "file_errors f = 0 \<longleftrightarrow> clean_file f"
  by (simp add: file_errors_def clean_file_def split: loaded_file.splits)

lemma scan_file_fst: "fst (scan_file l f s) = AList.update (stem f) (file_value f) (fst s)"
  by (simp add: scan_file_def file_value_def split: prod.splits loaded_file.splits)

lemma scan_file_errors: "v_errors (snd (scan_file l f s)) = v_errors (snd s) + file_errors f"
  by (simp add: scan_file_def file_errors_def note_duplicates_def split: prod.splits loaded_file.splits)

lemma fold_scan_file:
  "map_of (fst (fold (scan_file l) fs s)) = map_of (fst s) ++ map_of (rev (map (\<lambda>f. (stem f, file_value f)) fs))
   \<and> v_errors (snd (fold (scan_file l) fs s)) = v_errors (snd s) + sum_list (map file_errors fs)
   \<and> set (map fst (fst (fold (scan_file l) fs s))) = set (map fst (fst s)) \<union> stem ` set fs"
proof (induction fs arbitrary: s)
  case (Cons f fs)
  show ?case
    using Cons.IH [of "scan_file l f s"]
    by (auto simp: scan_file_fst scan_file_errors update_conv dom_update map_add_def fun_eq_iff split: option.splits)
qed simp

definition language_modules :: "lang_entry list \<Rightarrow> string \<Rightarrow> (string \<times> json) list" where
  "language_modules es l = fst (fold (scan_file l) (files_of es l) ([], no_findings))"

lemma scan_files_fst: "fst (fold (scan_file l) fs (ms, r)) = fst (fold (scan_file l) fs (ms, r'))"
  by (induction fs arbitrary: ms r r') (simp_all add: scan_file_def split: loaded_file.splits)

lemma language_modules_data: "map_of (language_modules es l) m = language_data es l m"
  using fold_scan_file [of l "files_of es l" "([], no_findings)"]
  by (simp add: language_modules_def language_data_def)

lemma scan_language_spec:
  "fst (scan_language es l s) = fst s @ [(l, language_modules es l)]"
  "v_errors (snd (scan_language es l s)) = v_errors (snd s) + sum_list (map file_errors (files_of es l))"
  using fold_scan_file [of l "files_of es l" "([], snd s)"]
    scan_files_fst [of l "files_of es l" "[]" "snd s" no_findings]
  by (auto simp: scan_language_def language_modules_def Let_def files_of_def split: prod.splits)

lemma fold_scan_language:
  "fst (fold (scan_language es) ls s) = fst s @ map (\<lambda>l. (l, language_modules es l)) ls"
  "v_errors (snd (fold (scan_language es) ls s))
    = v_errors (snd s) + sum_list (map (\<lambda>l. sum_list (map file_errors (files_of es l))) ls)"
  by (induction ls arbitrary: s) (simp_all add: scan_language_spec)

lemma scan_all_spec:
  "fst (scan_all es) = map (\<lambda>l. (l, language_modules es l)) (visible_languages es)"
  "v_errors (snd (scan_all es)) = 0 \<longleftrightarrow> (\<forall>l \<in> set (visible_languages es). \<forall>f \<in> set (files_of es l). clean_file f)"
  by (auto simp: scan_all_def Let_def fold_scan_language no_findings_def sum_list_eq_0_iff file_errors_0)

lemma scanned_data: "l \<in> set (visible_languages es) \<Longrightarrow> data_of (fst (scan_all es)) l m = language_data es l m"
  by (simp add: data_of_def scan_all_spec map_of_map_restrict flip: language_modules_data)

lemma scanned_modules: "set (all_modules (fst (scan_all es))) = set (modules_of es)"
  using fold_scan_file [of _ _ "([], no_findings)"]
  by (auto simp: all_modules_def scan_all_spec modules_of_def language_modules_def)

section \<open>Modules and keys\<close>

lemma check_module_errors:
  "v_errors (check_module ls data m r) = v_errors r + length (filter (\<lambda>l. data_of data l m = None) ls)"
  by (auto simp: check_module_def Let_def filter_empty_conv)

lemma fold_check_module:
  "v_errors (fold (check_module ls data) ms r)
    = v_errors r + sum_list (map (\<lambda>m. length (filter (\<lambda>l. data_of data l m = None) ls)) ms)"
  by (induction ms arbitrary: r) (simp_all add: check_module_errors)

lemma keys_minus_empty: "length (keys_minus a b) = 0 \<longleftrightarrow> set a \<subseteq> set b"
  by (auto simp: keys_minus_def filter_empty_conv)

lemma set_keys_minus: "set (keys_minus a b) = set a - set b"
  by (auto simp: keys_minus_def)

lemma fold_note_missing:
  "v_errors (fold (note_missing m un) mk r) = v_errors r + sum_list (map (\<lambda>x. length (keys_minus un (snd x))) mk)"
  by (induction mk arbitrary: r) (simp_all add: note_missing_def Let_def)

lemma fold_note_unused: "v_errors (fold (note_unused m l0 ks) mk r) = v_errors r"
  by (induction mk arbitrary: r) (simp_all add: note_unused_def Let_def)

lemma check_keys_errors:
  "v_errors (check_keys ls m mk r) = v_errors r + sum_list (map (\<lambda>x. length (keys_minus (union_keys mk) (snd x))) mk)"
  by (simp add: check_keys_def Let_def fold_note_unused fold_note_missing)

text \<open>No key is missing anywhere exactly when all languages have the same keys.\<close>

lemma no_missing_iff:
  "sum_list (map (\<lambda>x. length (keys_minus (union_keys mk) (snd x))) mk) = 0
    \<longleftrightarrow> (\<forall>x \<in> set mk. \<forall>y \<in> set mk. set (snd x) = set (snd y))"
proof -
  have "sum_list (map (\<lambda>x. length (keys_minus (union_keys mk) (snd x))) mk) = 0
      \<longleftrightarrow> (\<forall>x \<in> set mk. set (union_keys mk) \<subseteq> set (snd x))"
    unfolding sum_list_eq_0_iff by (simp only: set_map ball_simps image_iff bex_simps keys_minus_empty)
  also have "\<dots> \<longleftrightarrow> (\<forall>x \<in> set mk. \<forall>y \<in> set mk. set (snd y) \<subseteq> set (snd x))"
    by (auto simp: union_keys_def)
  finally show ?thesis by blast
qed

lemma module_keys_Inr:
  assumes "module_keys ls data m = Inr mk"
  shows "set mk = (\<lambda>l. (l, case data_of data l m of Some (JObj d) \<Rightarrow> flatten_keys [] d | _ \<Rightarrow> []))
    ` {l \<in> set ls. data_of data l m \<noteq> None}"
proof -
  have "list_all2 (\<lambda>l x. x = (l, case data_of data l m of Some (JObj d) \<Rightarrow> flatten_keys [] d | _ \<Rightarrow> []))
      (filter (\<lambda>l. data_of data l m \<noteq> None) ls) mk"
    using assms unfolding module_keys_def mapR_Inr_list_all2
    by (rule list_all2_mono) (auto simp: result_simps flatten_data_def split: option.splits json.splits)
  then have "mk = map (\<lambda>l. (l, case data_of data l m of Some (JObj d) \<Rightarrow> flatten_keys [] d | _ \<Rightarrow> []))
      (filter (\<lambda>l. data_of data l m \<noteq> None) ls)"
    by (simp add: list_all2_conv_all_nth list_eq_iff_nth_eq)
  then show ?thesis by auto
qed

lemma module_keys_same:
  assumes "module_keys ls data m = Inr mk"
  shows "(\<forall>x \<in> set mk. \<forall>y \<in> set mk. set (snd x) = set (snd y)) \<longleftrightarrow>
    (\<forall>l \<in> set ls. \<forall>l' \<in> set ls. data_of data l m \<noteq> None \<longrightarrow> data_of data l' m \<noteq> None
       \<longrightarrow> key_set (data_of data l m) = key_set (data_of data l' m))"
proof -
  have k: "set (case data_of data l m of Some (JObj d) \<Rightarrow> flatten_keys [] d | _ \<Rightarrow> []) = key_set (data_of data l m)" for l
    by (simp add: key_set_def split: option.split json.split)
  show ?thesis unfolding module_keys_Inr [OF assms] ball_simps mem_Collect_eq snd_conv k by blast
qed

lemma check_modules_keys:
  "check_modules ls data ms r = Inr r' \<Longrightarrow> m \<in> set ms \<Longrightarrow> \<exists>mk. module_keys ls data m = Inr mk"
  by (induction ms arbitrary: r) (auto simp: result_simps)

lemma check_modules_valid:
  "check_modules ls data ms r = Inr r' \<Longrightarrow> v_errors r' = 0 \<longleftrightarrow>
     v_errors r = 0 \<and> (\<forall>m \<in> set ms. \<exists>mk. module_keys ls data m = Inr mk
        \<and> (\<forall>x \<in> set mk. \<forall>y \<in> set mk. set (snd x) = set (snd y)))"
proof (induction ms arbitrary: r)
  case (Cons m ms)
  obtain mk where mk: "module_keys ls data m = Inr mk"
    and rest: "check_modules ls data ms (check_keys ls m mk r) = Inr r'"
    using Cons.prems by (auto simp: result_simps)
  have "v_errors (check_keys ls m mk r) = 0 \<longleftrightarrow>
      v_errors r = 0 \<and> (\<forall>x \<in> set mk. \<forall>y \<in> set mk. set (snd x) = set (snd y))"
    unfolding check_keys_errors no_missing_iff [symmetric] by (rule add_is_0)
  then show ?case using Cons.IH [OF rest] mk by auto
qed simp

text \<open>C21: A report is valid exactly when the translations are complete: every file of every language
  loads without a repeated key, every language has every module, and the keys of a module are the
  same in all languages.
\<close>

theorem valid_iff_complete:
  assumes "validate (Some es) = Inr r"
  shows "is_valid r \<longleftrightarrow> complete_translations es"
proof -
  let ?ls = "visible_languages es" and ?data = "fst (scan_all es)"
  let ?r1 = "fold (check_module ?ls ?data) (all_modules ?data) (snd (scan_all es))"
  have run: "check_modules ?ls ?data (all_modules ?data) ?r1 = Inr r"
    using assms by (simp add: validate_def Let_def split: prod.splits)
  let ?same = "\<lambda>m. \<forall>l \<in> set ?ls. \<forall>l' \<in> set ?ls.
      language_data es l m \<noteq> None \<longrightarrow> language_data es l' m \<noteq> None
      \<longrightarrow> key_set (language_data es l m) = key_set (language_data es l' m)"
  have keys: "(\<exists>mk. module_keys ?ls ?data m = Inr mk \<and> (\<forall>x \<in> set mk. \<forall>y \<in> set mk. set (snd x) = set (snd y)))
      \<longleftrightarrow> ?same m" if m: "m \<in> set (all_modules ?data)" for m
  proof -
    obtain mk where mk: "module_keys ?ls ?data m = Inr mk" using check_modules_keys [OF run m] by blast
    have "(\<forall>x \<in> set mk. \<forall>y \<in> set mk. set (snd x) = set (snd y)) \<longleftrightarrow> ?same m"
      unfolding module_keys_same [OF mk] by (simp add: scanned_data)
    then show ?thesis using mk by simp
  qed
  have missing: "sum_list (map (\<lambda>m. length (filter (\<lambda>l. data_of ?data l m = None) ?ls)) (all_modules ?data)) = 0
      \<longleftrightarrow> (\<forall>m \<in> set (modules_of es). \<forall>l \<in> set ?ls. language_data es l m \<noteq> None)"
    unfolding sum_list_eq_0_iff by (simp add: filter_empty_conv scanned_data scanned_modules)
  let ?files = "\<forall>l \<in> set ?ls. \<forall>f \<in> set (files_of es l). clean_file f"
  let ?everywhere = "\<forall>m \<in> set (modules_of es). \<forall>l \<in> set ?ls. language_data es l m \<noteq> None"
  have "is_valid r \<longleftrightarrow> (?files \<and> ?everywhere) \<and> (\<forall>m \<in> set (all_modules ?data). ?same m)"
    unfolding is_valid_def check_modules_valid [OF run] fold_check_module add_is_0 missing scan_all_spec(2)
    using keys by (simp only: cong: ball_cong)
  also have "\<dots> \<longleftrightarrow> complete_translations es"
    unfolding scanned_modules complete_translations_def by blast
  finally show ?thesis .
qed

definition demo_language :: "string \<Rightarrow> string list \<Rightarrow> lang_entry" where
  "demo_language l ks =
     \<lparr>dir_name = l, is_directory = True,
      files = [\<lparr>stem = ''nav'', suffix = SuffixJson,
                parsed = Some (JObj [(''title'', JStr l), (''menu'', JObj (map (\<lambda>k. (k, JStr k)) ks))]),
                early_repeats = []\<rparr>]\<rparr>"

definition demo_translations :: "lang_entry list" where
  "demo_translations = [demo_language ''zh-CN'' [''home''], demo_language ''en'' [''home'']]"

lemma demo_report: "validate (Some demo_translations) = Inr (no_findings\<lparr>total_keys := 2\<rparr>)"
  by code_simp

theorem valid_iff_complete_witness: "complete_translations demo_translations"
  using valid_iff_complete [OF demo_report] by (simp add: is_valid_def no_findings_def)

section \<open>Keys of a text and paths into it\<close>

text \<open>
  A tidy text has distinct keys, none empty or with a dot in it, and no null.
\<close>

fun is_obj :: "json \<Rightarrow> bool" where
  "is_obj (JObj d) = True"
| "is_obj v = False"

function (sequential) tidy :: "dict \<Rightarrow> bool" where
  "tidy [] = True"
| "tidy ((k, JObj d) # ps) = (k \<noteq> [] \<and> CHR ''.'' \<notin> set k \<and> k \<notin> set (map fst ps) \<and> tidy d \<and> tidy ps)"
| "tidy ((k, v) # ps) = (k \<noteq> [] \<and> CHR ''.'' \<notin> set k \<and> k \<notin> set (map fst ps) \<and> v \<noteq> JNull \<and> tidy ps)"
  by pat_completeness auto

termination
  by (relation "measure (size_list (size_prod (\<lambda>_. 0) size))") auto

definition full_key :: "string \<Rightarrow> string \<Rightarrow> string" where
  "full_key pre k = (if pre = [] then k else pre @ ''.'' @ k)"

lemma full_key_path:
  assumes "\<forall>p \<in> set pp. p \<noteq> []"
  shows "full_key (join_with (CHR ''.'') pp) k = join_with (CHR ''.'') (pp @ [k])"
proof (cases "pp = []")
  case False
  then have "join_with (CHR ''.'') pp \<noteq> []" using assms by (cases pp) (auto simp: join_with_nonempty)
  then show ?thesis using False by (simp add: full_key_def join_with_append)
qed (simp add: full_key_def)

lemma flatten_Cons:
  "flatten_keys pre ((k, v) # ps) =
    (case v of JObj e \<Rightarrow> flatten_keys (full_key pre k) e | _ \<Rightarrow> [full_key pre k]) @ flatten_keys pre ps"
  by (cases v) (simp_all add: full_key_def)

lemma tidy_Cons:
  "tidy ((k, v) # ps) \<longleftrightarrow>
    k \<noteq> [] \<and> CHR ''.'' \<notin> set k \<and> k \<notin> set (map fst ps) \<and> v \<noteq> JNull \<and> (case v of JObj e \<Rightarrow> tidy e | _ \<Rightarrow> True) \<and> tidy ps"
  by (cases v) auto

lemma flatten_leaf: "(k, v) \<in> set d \<Longrightarrow> \<not> is_obj v \<Longrightarrow> full_key pre k \<in> set (flatten_keys pre d)"
  by (induction d) (auto simp: flatten_Cons split: json.splits)

lemma flatten_inner: "(k, JObj e) \<in> set d \<Longrightarrow> set (flatten_keys (full_key pre k) e) \<subseteq> set (flatten_keys pre d)"
  by (induction d) (auto simp: flatten_Cons)

lemma tidy_member:
  "tidy d \<Longrightarrow> (k, v) \<in> set d \<Longrightarrow>
    k \<noteq> [] \<and> CHR ''.'' \<notin> set k \<and> v \<noteq> JNull \<and> (case v of JObj e \<Rightarrow> tidy e | _ \<Rightarrow> True)"
proof (induction d)
  case (Cons p d)
  obtain k' v' where p: "p = (k', v')" by (cases p)
  from Cons.prems(2) consider "k = k'" "v = v'" | "(k, v) \<in> set d" unfolding p by force
  then show ?case
  proof cases
    case 1
    then show ?thesis using Cons.prems(1) unfolding p tidy_Cons by simp
  next
    case 2
    then show ?thesis using Cons.prems(1) unfolding p tidy_Cons by (intro Cons.IH) simp_all
  qed
qed simp

lemma path_flattened:
  assumes "tidy d" and "get_path (JObj d) q = Some v" and "q \<noteq> []" and "\<not> is_obj v" and "\<forall>p \<in> set pp. p \<noteq> []"
  shows "join_with (CHR ''.'') (pp @ q) \<in> set (flatten_keys (join_with (CHR ''.'') pp) d)"
  using assms
proof (induction q arbitrary: d pp)
  case (Cons k q)
  obtain w where w: "map_of d k = Some w" "w \<noteq> JNull" "get_path w q = Some v"
    using Cons.prems(2) by (auto split: option.splits if_splits)
  have kw: "(k, w) \<in> set d" using w(1) by (rule map_of_SomeD)
  note k = tidy_member [OF Cons.prems(1) kw]
  note fk = full_key_path [OF Cons.prems(5), of k]
  show ?case
  proof (cases q)
    case Nil
    then show ?thesis using flatten_leaf [OF kw, of "join_with (CHR ''.'') pp"] w Cons.prems(4) fk by simp
  next
    case (Cons k' q')
    then obtain e where e: "w = JObj e" using w(3) by (cases w) auto
    have "join_with (CHR ''.'') ((pp @ [k]) @ q) \<in> set (flatten_keys (join_with (CHR ''.'') (pp @ [k])) e)"
      using Cons.prems e w(3) k \<open>q = k' # q'\<close> by (intro Cons.IH) auto
    then show ?thesis using flatten_inner [of k e d "join_with (CHR ''.'') pp"] kw e fk by auto
  qed
qed simp

text \<open>The keys of a tidy text are the paths to its leaves.\<close>

definition has_leaf :: "string list \<Rightarrow> dict \<Rightarrow> string \<Rightarrow> bool" where
  "has_leaf pp d key \<longleftrightarrow> (\<exists>q v. key = join_with (CHR ''.'') (pp @ q) \<and> q \<noteq> []
     \<and> (\<forall>p \<in> set q. CHR ''.'' \<notin> set p) \<and> get_path (JObj d) q = Some v \<and> \<not> is_obj v)"

lemma get_path_Cons:
  assumes "get_path (JObj ps) q = Some v" and "k \<notin> set (map fst ps)" and "q \<noteq> []"
  shows "get_path (JObj ((k, w) # ps)) q = Some v"
proof -
  have "map_of ps k = None" using assms(2) by (simp add: map_of_eq_None_iff)
  then show ?thesis using assms by (cases q) (auto split: option.splits)
qed

lemma has_leaf_tail: "has_leaf pp ps key \<Longrightarrow> k \<notin> set (map fst ps) \<Longrightarrow> has_leaf pp ((k, w) # ps) key"
  unfolding has_leaf_def using get_path_Cons by blast

lemma has_leaf_head:
  assumes "tidy ((k, v) # ps)" and "\<not> is_obj v" and "\<forall>p \<in> set pp. p \<noteq> []"
  shows "has_leaf pp ((k, v) # ps) (full_key (join_with (CHR ''.'') pp) k)"
  unfolding has_leaf_def using assms by (intro exI [of _ "[k]"] exI [of _ v]) (simp add: full_key_path tidy_Cons)

lemma has_leaf_inner:
  assumes "tidy ((k, JObj e) # ps)" and "has_leaf (pp @ [k]) e key"
  shows "has_leaf pp ((k, JObj e) # ps) key"
proof -
  obtain q v where q: "key = join_with (CHR ''.'') ((pp @ [k]) @ q)" "\<forall>p \<in> set q. CHR ''.'' \<notin> set p"
    "get_path (JObj e) q = Some v" "\<not> is_obj v"
    using assms(2) unfolding has_leaf_def by blast
  then show ?thesis unfolding has_leaf_def using assms(1) by (intro exI [of _ "k # q"] exI [of _ v]) auto
qed

lemma flattened_has_leaf:
  "tidy d \<Longrightarrow> key \<in> set (flatten_keys pre d) \<Longrightarrow> pre = join_with (CHR ''.'') pp \<Longrightarrow> \<forall>p \<in> set pp. p \<noteq> []
    \<Longrightarrow> has_leaf pp d key"
proof (induction pre d arbitrary: pp rule: flatten_keys.induct)
  case (2 pre k e ps)
  have t: "k \<noteq> []" "k \<notin> set (map fst ps)" "tidy e" "tidy ps" using 2(3) by auto
  have pre: "(if pre = [] then k else pre @ ''.'' @ k) = join_with (CHR ''.'') (pp @ [k])"
    using full_key_path [OF 2(6), of k] 2(5) by (simp only: full_key_def)
  from 2(4) consider "key \<in> set (flatten_keys (if pre = [] then k else pre @ ''.'' @ k) e)" | "key \<in> set (flatten_keys pre ps)"
    by auto
  then show ?case
  proof cases
    case 1
    then have "has_leaf (pp @ [k]) e key" using 2(6) t by (intro 2(1) pre) auto
    then show ?thesis by (rule has_leaf_inner [OF 2(3)])
  next
    case tail: 2
    then show ?thesis using 2(5,6) t by (intro has_leaf_tail 2(2)) auto
  qed
qed (auto simp: tidy_Cons full_key_def [symmetric] intro: has_leaf_tail has_leaf_head)

section \<open>What the loader reads of a valid directory\<close>

lemma first_wins_clean:
  "snd (first_wins ps d dups) = [] \<Longrightarrow> dups = [] \<and> fst (first_wins ps d dups) = d @ ps
    \<and> distinct (map fst ps) \<and> set (map fst d) \<inter> set (map fst ps) = {}"
  by (induction ps d dups rule: first_wins.induct) (auto split: if_splits)

lemma dict_of_distinct:
  assumes "distinct (map fst ps)"
  shows "dict_of ps = ps"
proof -
  have new: "k \<notin> set (map fst d) \<Longrightarrow> AList.update k v d = d @ [(k, v)]" for k :: 'a and v :: 'b and d
    by (induction d) auto
  have "distinct (map fst (d @ qs)) \<Longrightarrow> fold (\<lambda>(k, v) d. AList.update k v d) qs d = d @ qs" for d qs :: "('a \<times> 'b) list"
    by (induction qs arbitrary: d) (auto simp: new)
  from this [of "[]" ps] show ?thesis using assms by (simp add: dict_of_def)
qed

lemma json_hook_clean: "snd (json_hook v) = [] \<Longrightarrow> fst (json_hook v) = load_value v"
proof (induction v)
  case (JList vs)
  then show ?case by (simp add: Let_def o_def)
next
  case (JObj ps)
  let ?rs = "map (map_prod id json_hook) ps"
  let ?qs = "map (\<lambda>p. (fst p, fst (snd p))) ?rs"
  have clean: "snd (first_wins ?qs [] []) = []" "\<forall>p \<in> set ps. snd (json_hook (snd p)) = []"
    using JObj.prems by (auto simp: Let_def)
  have qs: "?qs = map (map_prod id load_value) ps"
    using clean(2) JObj.IH by (auto simp: snds.simps) 
  show ?case
    using first_wins_clean [OF clean(1)] dict_of_distinct [of ?qs] unfolding json_hook.simps Let_def qs by simp
qed simp_all

definition json_only :: "lang_entry list \<Rightarrow> bool" where
  "json_only es = list_all (\<lambda>e. list_all (\<lambda>f. suffix f = SuffixJson \<or> suffix f = OtherSuffix) (files e)
     \<and> distinct (map stem (filter (\<lambda>f. suffix f = SuffixJson) (files e)))) es"

lemma files_of_iff: "f \<in> set (files_of es l) \<longleftrightarrow>
    (\<exists>e. entry_of (Some es) l = Some e \<and> f \<in> set (files e) \<and> module_suffix (suffix f))"
  by (cases "entry_of (Some es) l") (auto simp: files_of_def module_files_def)

lemma loaded_from_file:
  assumes json: "json_only es" and f: "f \<in> set (files_of es l)" and clean: "clean_file f"
  shows "load_file (Some es) l (stem f) = file_value f"
proof -
  obtain e where e: "entry_of (Some es) l = Some e" "f \<in> set (files e)" "module_suffix (suffix f)"
    using f unfolding files_of_iff by blast
  have "e \<in> set es" using e(1) by (auto simp: entry_of_def find_Some_iff)
  then have only: "list_all (\<lambda>f. suffix f = SuffixJson \<or> suffix f = OtherSuffix) (files e)"
    and dist: "distinct (map stem (filter (\<lambda>f. suffix f = SuffixJson) (files e)))"
    using json unfolding json_only_def list_all_iff by blast+
  have sf: "suffix f = SuffixJson" using only e by (auto simp: list_all_iff module_suffix_def)
  obtain g where g: "find (\<lambda>g. stem g = stem f \<and> suffix g = SuffixJson) (files e) = Some g"
    using e(2) sf by (cases "find (\<lambda>g. stem g = stem f \<and> suffix g = SuffixJson) (files e)") (auto simp: find_None_iff)
  then have "g \<in> set (files e)" "stem g = stem f" "suffix g = SuffixJson" by (auto simp: find_Some_iff)
  then have "g = f" using dist e(2) sf by (auto simp: distinct_map inj_on_def)
  then have found: "find_file (Some es) l (stem f) SuffixJson = Some f" using g e(1) by (simp add: find_file_def)
  obtain w where w: "parsed f = Some w" "snd (json_hook w) = []" "file_value f = fst (json_hook w)"
    using clean sf by (auto simp: clean_file_def check_file_def file_value_def split: option.splits)
  show ?thesis using found w json_hook_clean [OF w(2)] by (simp add: load_file_def)
qed

lemma found_in_files:
  assumes "json_only es" and "load_file (Some es) l m \<noteq> JObj []"
  shows "\<exists>f \<in> set (files_of es l). stem f = m"
proof -
  have yaml: "find_file (Some es) l m SuffixYaml = None"
  proof (cases "entry_of (Some es) l")
    case (Some e)
    then have "e \<in> set es" by (auto simp: entry_of_def find_Some_iff)
    then have "\<forall>f \<in> set (files e). suffix f \<noteq> SuffixYaml" using assms(1) by (fastforce simp: json_only_def list_all_iff)
    then show ?thesis using Some by (auto simp: find_file_def find_None_iff)
  qed (simp add: find_file_def)
  then obtain f where "find_file (Some es) l m SuffixJson = Some f"
    using assms(2) by (auto simp: load_file_def split: option.splits)
  then show ?thesis
    by (auto simp: find_file_def files_of_iff find_Some_iff module_suffix_def split: option.splits intro!: exI)
qed

lemma language_data_unique:
  assumes json: "json_only es" and f: "f \<in> set (files_of es l)"
  shows "language_data es l (stem f) = Some (file_value f)"
proof -
  obtain e where e: "entry_of (Some es) l = Some e" using f unfolding files_of_iff by blast
  then have "e \<in> set es" by (auto simp: entry_of_def find_Some_iff)
  then have only: "\<forall>f \<in> set (files e). suffix f = SuffixJson \<or> suffix f = OtherSuffix"
    and dist: "distinct (map stem (filter (\<lambda>f. suffix f = SuffixJson) (files e)))"
    using json unfolding json_only_def list_all_iff by blast+
  have "filter (\<lambda>f. module_suffix (suffix f)) (files e) = filter (\<lambda>f. suffix f = SuffixJson) (files e)"
    using only by (intro filter_cong) (auto simp: module_suffix_def)
  then have "mset (filter (\<lambda>f. module_suffix (suffix f)) (files e)) = mset (filter (\<lambda>f. suffix f = SuffixJson) (files e))"
    by (rule arg_cong)
  then have "mset (map stem (files_of es l)) = mset (map stem (filter (\<lambda>f. suffix f = SuffixJson) (files e)))"
    by (simp add: files_of_def module_files_def e)
  then have "distinct (map stem (files_of es l))" using dist mset_eq_imp_distinct_iff by blast
  then show ?thesis
    unfolding language_data_def using f by (intro map_of_is_SomeI) (auto simp: o_def simp flip: rev_map)
qed

text \<open>What a service reads of a module in a valid directory is what the validator has checked.\<close>

lemma checked_text:
  assumes json: "json_only es" and complete: "complete_translations es" and l: "l \<in> set (visible_languages es)"
    and read: "load_file (Some es) l m = JObj d" and d: "d \<noteq> []"
  shows "m \<in> set (modules_of es) \<and> key_set (language_data es l m) = set (flatten_keys [] d)"
proof -
  obtain f where f: "f \<in> set (files_of es l)" "stem f = m" using found_in_files [OF json, of l m] read d by auto
  have "clean_file f" using complete l f(1) unfolding complete_translations_def by blast
  then have "file_value f = JObj d" using loaded_from_file [OF json f(1)] f(2) read by simp
  then show ?thesis
    using language_data_unique [OF json f(1)] f l by (auto simp: key_set_def modules_of_def)
qed

text \<open>C20: In a valid directory of JSON files with tidy texts, a key that has a text in one language has a
  text in every language: the service of the other language shows that text and never falls
  back to the key or the default.
\<close>

theorem valid_key_translates:
  assumes "validate (Some es) = Inr r" and "is_valid r" and "json_only es"
    and "l \<in> set (visible_languages es)" and "ts_language t \<in> set (visible_languages es)"
    and "load_file (Some es) l m = JObj d" and "tidy d"
    and "load_file (Some es) (ts_language t) m = JObj d'" and "tidy d'" and "CHR ''.'' \<notin> set m"
    and "get_nested (JObj d) k = Some v" and "\<not> is_obj v"
  shows "\<exists>v'. get_nested (JObj d') k = Some v' \<and> \<not> is_obj v'
    \<and> fst (translate (\<lambda>_ _. None) shown (Some es) t (m @ ''.'' @ k) dflt [] []) = shown_text shown v'"
proof -
  have complete: "complete_translations es" using valid_iff_complete [OF assms(1)] assms(2) by simp
  let ?q = "split_on (CHR ''.'') k"
  have q: "?q \<noteq> []" "join_with (CHR ''.'') ?q = k" by (rule split_on_nonempty, rule join_split)
  have leaf: "k \<in> set (flatten_keys [] d)"
    using path_flattened [OF assms(7) _ q(1) assms(12), of "[]"] assms(11) q(2) by (simp add: get_nested_def)
  then have "d \<noteq> []" by auto
  note here = checked_text [OF assms(3) complete assms(4,6) this]
  have keys: "key_set (language_data es (ts_language t) m) = set (flatten_keys [] d)"
    using complete here assms(4,5) unfolding complete_translations_def by blast
  have nonempty: "d' \<noteq> []"
  proof
    assume "d' = []"
    have "language_data es (ts_language t) m \<noteq> None" using complete here assms(5) unfolding complete_translations_def by blast
    then obtain f where f: "f \<in> set (files_of es (ts_language t))" "stem f = m"
      unfolding language_data_def by (force dest: map_of_SomeD)
    then have "clean_file f" using complete assms(5) unfolding complete_translations_def by blast
    then have "file_value f = JObj []" using loaded_from_file [OF assms(3) f(1)] f(2) assms(8) \<open>d' = []\<close> by simp
    then have "key_set (language_data es (ts_language t) m) = {}"
      using language_data_unique [OF assms(3) f(1)] f(2) by (simp add: key_set_def)
    then show False using keys leaf by simp
  qed
  have "k \<in> set (flatten_keys [] d')"
    using checked_text [OF assms(3) complete assms(5,8) nonempty] keys leaf by simp
  then have "has_leaf [] d' k" using flattened_has_leaf [OF assms(9), of k "[]" "[]"] by simp
  then obtain q' v' where v': "k = join_with (CHR ''.'') q'" "q' \<noteq> []" "\<forall>p \<in> set q'. CHR ''.'' \<notin> set p"
    "get_path (JObj d') q' = Some v'" "\<not> is_obj v'"
    unfolding has_leaf_def by auto
  then have "?q = q'" using split_join by blast
  then have nested: "get_nested (JObj d') k = Some v'" using v' by (simp add: get_nested_def)
  have "split_on (CHR ''.'') (m @ ''.'' @ k) = m # ?q" using split_on_append [OF assms(10), of k] by simp
  then have "fst (translate (\<lambda>_ _. None) shown (Some es) t (m @ ''.'' @ k) dflt [] []) = shown_text shown v'"
    using q nested assms(8)
    by (cases ?q) (simp_all add: translate_def service_load_def loader_load_def remembered_def Let_def)
  then show ?thesis using nested v'(5) by blast
qed

theorem valid_key_translates_witness:
  "\<exists>v'. get_nested (JObj [(''title'', JStr ''en''), (''menu'', JObj [(''home'', JStr ''home'')])]) ''menu.home'' = Some v'
    \<and> \<not> is_obj v'
    \<and> fst (translate (\<lambda>_ _. None) (\<lambda>_. []) (Some demo_translations) \<lparr>ts_language = ''en'', ts_common = JObj []\<rparr>
          (''nav'' @ ''.'' @ ''menu.home'') None [] []) = shown_text (\<lambda>_. []) v'"
  by (rule valid_key_translates [OF demo_report, where l = "''zh-CN''" and v = "JStr ''home''"
        and d = "[(''title'', JStr ''zh-CN''), (''menu'', JObj [(''home'', JStr ''home'')])]"]) code_simp+

end
