(* ===== verification/LanguageSwitch.thy ===== *)
theory LanguageSwitch
  imports TranslationCheck LocaleText
begin

text \<open>
  The selected language (\<open>app/i18n/repository.py\<close>, \<open>switcher.py\<close>, \<open>manager.py\<close> and the
  detection in \<open>provider.py\<close>): the table of preferences, the resolution of a request, the switch
  with what it persists, and the facade. The database session is explicit: its rows, the settings
  of the users, the time of the transaction, and whether a failed flush has broken it. The order
  in which the database returns rows with equal sort keys is the parameter \<open>arrange\<close>.
\<close>

section \<open>Preferences\<close>

text \<open>\<open>_to_uuid\<close>: an id is a UUID, or a text that is not one.\<close>

datatype user_ref = Uid nat | NotUuid string

definition to_uuid :: "user_ref option \<Rightarrow> nat option" where
  "to_uuid u = (case u of Some (Uid n) \<Rightarrow> Some n | _ \<Rightarrow> None)"

definition user_given :: "user_ref option \<Rightarrow> bool" where
  "user_given u = (case u of None \<Rightarrow> False | Some (Uid n) \<Rightarrow> True | Some (NotUuid s) \<Rightarrow> s \<noteq> [])"

definition text_given :: "string option \<Rightarrow> bool" where
  "text_given x = (case x of None \<Rightarrow> False | Some s \<Rightarrow> s \<noteq> [])"

record preference =
  pf_id :: nat
  pf_user :: "nat option"
  pf_device :: "string option"
  pf_language :: string
  pf_source :: string
  pf_updated :: int

text \<open>
  \<open>users\<close> are the rows of the table the user id refers to, \<open>settings\<close> the display preferences of
  the users who have a row of settings.
\<close>

record pref_db =
  prefs :: "preference list"
  users :: "nat list"
  settings :: "(nat \<times> dict option) list"
  now :: int
  next_id :: nat
  broken :: bool

type_synonym 'a db_act = "(pref_db, i18n_error, 'a) act"

definition usable :: "unit db_act" where
  "usable db = (if broken db then (Inl SessionError, db) else (Inr (), db))"

text \<open>
  The constraints a flush checks: the lengths of the columns, the foreign key, one row per pair
  of a user and a device.
\<close>

definition row_fits :: "pref_db \<Rightarrow> preference \<Rightarrow> bool" where
  "row_fits db p \<longleftrightarrow>
     length (pf_language p) \<le> 16 \<and> length (pf_source p) \<le> 16
     \<and> (case pf_device p of None \<Rightarrow> True | Some d \<Rightarrow> length d \<le> 128)
     \<and> (case pf_user p of None \<Rightarrow> True | Some u \<Rightarrow> u \<in> set (users db))"

definition pref_row_ok :: "pref_db \<Rightarrow> preference \<Rightarrow> bool" where
  "pref_row_ok db p \<longleftrightarrow> row_fits db p
     \<and> (pf_user p = None \<or> pf_device p = None
        \<or> list_all (\<lambda>q. pf_id q = pf_id p \<or> pf_user q \<noteq> pf_user p \<or> pf_device q \<noteq> pf_device p) (prefs db))"

definition flush_row :: "preference \<Rightarrow> pref_db \<Rightarrow> (i18n_error + preference) \<times> pref_db" where
  "flush_row p db =
     (if pref_row_ok db p then (Inr p, db) else (Inl SessionError, db\<lparr>broken := True\<rparr>))"

section \<open>The repository\<close>

definition select_user :: "(preference list \<Rightarrow> preference list) \<Rightarrow> nat \<Rightarrow> pref_db \<Rightarrow> preference option" where
  "select_user arrange u db =
     (case arrange (filter (\<lambda>p. pf_user p = Some u) (prefs db)) of [] \<Rightarrow> None | p # ps \<Rightarrow> Some p)"

definition select_device :: "(preference list \<Rightarrow> preference list) \<Rightarrow> string \<Rightarrow> pref_db \<Rightarrow> preference option" where
  "select_device arrange d db =
     (case sort_desc pf_updated (arrange (filter (\<lambda>p. pf_device p = Some d) (prefs db))) of
        [] \<Rightarrow> None | p # ps \<Rightarrow> Some p)"

definition find_preference ::
    "(preference list \<Rightarrow> preference list) \<Rightarrow> nat option \<Rightarrow> string option \<Rightarrow> pref_db \<Rightarrow> preference option" where
  "find_preference arrange uid dev db =
     (case (case uid of None \<Rightarrow> None | Some u \<Rightarrow> select_user arrange u db) of
        Some p \<Rightarrow> Some p
      | None \<Rightarrow> if text_given dev then select_device arrange (the dev) db else None)"

definition repo_get_preference ::
    "(preference list \<Rightarrow> preference list) \<Rightarrow> user_ref option \<Rightarrow> string option \<Rightarrow> preference option db_act" where
  "repo_get_preference arrange user dev =
     bindA (if to_uuid user \<noteq> None \<or> text_given dev then usable else retA ())
       (\<lambda>_. readA (find_preference arrange (to_uuid user) dev))"

definition update_row :: "preference \<Rightarrow> pref_db \<Rightarrow> pref_db" where
  "update_row p db = db\<lparr>prefs := map (\<lambda>q. if pf_id q = pf_id p then p else q) (prefs db)\<rparr>"

text \<open>An update is sent, and the time of the row set, only when a column has changed.\<close>

definition set_row :: "nat option \<Rightarrow> string option \<Rightarrow> string \<Rightarrow> string \<Rightarrow> preference \<Rightarrow> preference" where
  "set_row uid dev l src p =
     p\<lparr>pf_language := l, pf_source := src,
       pf_user := (case uid of None \<Rightarrow> pf_user p | Some u \<Rightarrow> Some u),
       pf_device := (if text_given dev then dev else pf_device p)\<rparr>"

definition changed_row :: "nat option \<Rightarrow> string option \<Rightarrow> string \<Rightarrow> string \<Rightarrow> int \<Rightarrow> preference \<Rightarrow> preference" where
  "changed_row uid dev l src t p =
     (let q = set_row uid dev l src p in if q = p then q else q\<lparr>pf_updated := t\<rparr>)"

definition new_row :: "nat option \<Rightarrow> string option \<Rightarrow> string \<Rightarrow> string \<Rightarrow> pref_db \<Rightarrow> preference" where
  "new_row uid dev l src db =
     \<lparr>pf_id = next_id db, pf_user = uid, pf_device = dev, pf_language = l, pf_source = src, pf_updated = now db\<rparr>"

definition repo_upsert ::
    "(preference list \<Rightarrow> preference list) \<Rightarrow> string \<Rightarrow> string \<Rightarrow> user_ref option \<Rightarrow> string option
     \<Rightarrow> preference option db_act" where
  "repo_upsert arrange l src user dev =
     (let uid = to_uuid user in
      if uid = None \<and> \<not> text_given dev then retA None
      else bindA usable (\<lambda>_ db.
        (case find_preference arrange uid dev db of
           Some p \<Rightarrow>
             (let q = changed_row uid dev l src (now db) p in
              (case flush_row q db of
                 (Inl e, db') \<Rightarrow> (Inl e, db')
               | (Inr r, db') \<Rightarrow> (Inr (Some r), update_row r db')))
         | None \<Rightarrow>
             (case flush_row (new_row uid dev l src db) db of
                (Inl e, db') \<Rightarrow> (Inl e, db')
              | (Inr r, db') \<Rightarrow> (Inr (Some r), db'\<lparr>prefs := prefs db' @ [r], next_id := next_id db' + 1\<rparr>)))))"

definition repo_list_all :: "(preference list \<Rightarrow> preference list) \<Rightarrow> nat \<Rightarrow> preference list db_act" where
  "repo_list_all arrange n =
     bindA usable (\<lambda>_. readA (\<lambda>db. take n (sort_desc pf_updated (arrange (prefs db)))))"

definition repo_count :: "nat db_act" where
  "repo_count = bindA usable (\<lambda>_. readA (\<lambda>db. length (prefs db)))"

section \<open>Configuration\<close>

record i18n_config =
  enabled :: bool
  default_language :: string
  fallback_language :: string
  supported_languages :: "string list"
  cookie_name :: string
  cookie_max_age :: int
  cookie_httponly :: bool
  cookie_samesite :: string
  persist_to_db :: bool
  persist_to_user_profile :: bool
  device_id_header :: string
  cache_ttl :: int

definition default_config :: i18n_config where
  "default_config =
     \<lparr>enabled = True, default_language = ''en'', fallback_language = ''en'', supported_languages = [''en'', ''zh-CN''],
      cookie_name = ''lang'', cookie_max_age = 31536000, cookie_httponly = True, cookie_samesite = ''lax'',
      persist_to_db = True, persist_to_user_profile = True, device_id_header = ''X-Device-Id'', cache_ttl = 3600\<rparr>"

definition is_supported :: "i18n_config \<Rightarrow> string option \<Rightarrow> bool" where
  "is_supported cfg l = (case l of None \<Rightarrow> False | Some s \<Rightarrow> s \<noteq> [] \<and> s \<in> set (supported_languages cfg))"

definition normalize :: "i18n_config \<Rightarrow> string option \<Rightarrow> string" where
  "normalize cfg l = (if is_supported cfg l then the l else default_language cfg)"

section \<open>The profile of the user\<close>

text \<open>
  \<open>dict(x or \<lbrace>\<rbrace>)\<close> of a JSON value; a list of pairs, which \<open>dict\<close> would take, counts as an error.
\<close>

definition as_dict :: "json \<Rightarrow> dict option" where
  "as_dict v = (if \<not> truthy v then Some [] else case v of JObj d \<Rightarrow> Some d | _ \<Rightarrow> None)"

definition item :: "dict \<Rightarrow> string \<Rightarrow> json" where
  "item d k = (case map_of d k of None \<Rightarrow> JNull | Some v \<Rightarrow> v)"

definition persist_to_profile :: "bool \<Rightarrow> user_ref \<Rightarrow> string \<Rightarrow> pref_db \<Rightarrow> bool \<times> pref_db" where
  "persist_to_profile session user l db =
     (if \<not> session \<or> broken db then (False, db)
      else case user of
        NotUuid s \<Rightarrow> (False, db)
      | Uid u \<Rightarrow>
          (case map_of (settings db) u of
             None \<Rightarrow> (False, db)
           | Some stored \<Rightarrow>
               (let display = (case stored of None \<Rightarrow> [] | Some d \<Rightarrow> d) in
                case as_dict (item display ''i18n'') of
                  None \<Rightarrow> (False, db)
                | Some profile \<Rightarrow>
                    (True, db\<lparr>settings := AList.update u
                       (Some (AList.update ''i18n'' (JObj (AList.update ''language'' (JStr l) profile)) display))
                       (settings db)\<rparr>))))"

text \<open>The language as stored; a value that is not a text is returned as it is by the code.\<close>

definition profile_language :: "bool \<Rightarrow> user_ref \<Rightarrow> pref_db \<Rightarrow> json" where
  "profile_language session user db =
     (if \<not> session \<or> broken db then JNull
      else case user of
        NotUuid s \<Rightarrow> JNull
      | Uid u \<Rightarrow>
          (case map_of (settings db) u of
             None \<Rightarrow> JNull
           | Some stored \<Rightarrow>
               (let profile = item (case stored of None \<Rightarrow> [] | Some d \<Rightarrow> d) ''i18n'' in
                case profile of JObj d \<Rightarrow> item d ''language'' | _ \<Rightarrow> JNull)))"

section \<open>The switcher\<close>

record resolved =
  rs_language :: string
  rs_source :: string

record stored_preference =
  sp_user :: "user_ref option"
  sp_device :: "string option"
  sp_language :: json
  sp_source :: string

text \<open>
  \<open>stub\<close> marks a manager built without a repository: it has no session, and its queries raise.
  \<open>session\<close> tells whether the switcher has a session for the settings.
\<close>

record switcher =
  sw_stub :: bool
  sw_session :: bool
  sw_config :: i18n_config

definition repo_call :: "switcher \<Rightarrow> bool \<Rightarrow> 'a db_act \<Rightarrow> 'a db_act" where
  "repo_call sw asks m = (if sw_stub sw \<and> asks then failA NoSession else m)"

definition get_preference ::
    "(preference list \<Rightarrow> preference list) \<Rightarrow> switcher \<Rightarrow> user_ref option \<Rightarrow> string option
     \<Rightarrow> stored_preference option db_act" where
  "get_preference arrange sw user dev =
     bindA (repo_call sw (to_uuid user \<noteq> None \<or> text_given dev) (repo_get_preference arrange user dev)) (\<lambda>row db.
       (case row of
          Some p \<Rightarrow>
            (Inr (Some \<lparr>sp_user = map_option Uid (pf_user p), sp_device = pf_device p,
                        sp_language = JStr (pf_language p), sp_source = pf_source p\<rparr>), db)
        | None \<Rightarrow>
            if user_given user \<and> truthy (profile_language (sw_session sw) (the user) db) then
              (Inr (Some \<lparr>sp_user = user, sp_device = None,
                          sp_language = profile_language (sw_session sw) (the user) db, sp_source = ''profile''\<rparr>), db)
            else (Inr None, db)))"

definition supported_text :: "i18n_config \<Rightarrow> json \<Rightarrow> bool" where
  "supported_text cfg v = (case v of JStr s \<Rightarrow> is_supported cfg (Some s) | _ \<Rightarrow> False)"

definition text_of :: "json \<Rightarrow> string" where
  "text_of v = (case v of JStr s \<Rightarrow> s | _ \<Rightarrow> [])"

definition resolve ::
    "(preference list \<Rightarrow> preference list) \<Rightarrow> switcher \<Rightarrow> string option \<Rightarrow> string option \<Rightarrow> string option
     \<Rightarrow> user_ref option \<Rightarrow> string option \<Rightarrow> resolved db_act" where
  "resolve arrange sw query cookie header user dev =
     (let cfg = sw_config sw in
      case find (\<lambda>(c, src). is_supported cfg c) [(query, ''query''), (cookie, ''cookie''), (header, ''header'')] of
        Some (c, src) \<Rightarrow> retA \<lparr>rs_language = the c, rs_source = src\<rparr>
      | None \<Rightarrow>
          bindA (get_preference arrange sw user dev) (\<lambda>stored.
            case stored of
              Some p \<Rightarrow>
                if supported_text cfg (sp_language p) then
                  retA \<lparr>rs_language = text_of (sp_language p),
                        rs_source = (if sp_source p = [] then ''profile'' else sp_source p)\<rparr>
                else retA \<lparr>rs_language = default_language cfg, rs_source = ''default''\<rparr>
            | None \<Rightarrow> retA \<lparr>rs_language = default_language cfg, rs_source = ''default''\<rparr>))"

record cookie =
  ck_key :: string
  ck_value :: string
  ck_max_age :: int
  ck_httponly :: bool
  ck_samesite :: string

text \<open>The cookie that is set, and which backends have been written.\<close>

definition switch ::
    "(preference list \<Rightarrow> preference list) \<Rightarrow> switcher \<Rightarrow> string \<Rightarrow> bool \<Rightarrow> user_ref option \<Rightarrow> string option
     \<Rightarrow> string \<Rightarrow> bool option \<Rightarrow> bool option \<Rightarrow> (cookie option \<times> (string \<times> bool) list) db_act" where
  "switch arrange sw l response user dev src to_db to_profile db =
     (let cfg = sw_config sw in
      if \<not> is_supported cfg (Some l) then (Inl (LanguageUnsupported l), db)
      else
        (let ck = (if response then Some \<lparr>ck_key = cookie_name cfg, ck_value = l, ck_max_age = cookie_max_age cfg,
                     ck_httponly = cookie_httponly cfg, ck_samesite = cookie_samesite cfg\<rparr> else None);
             browser = (if response then [(''browser'', True)] else []);
             want_db = (case to_db of None \<Rightarrow> persist_to_db cfg | Some b \<Rightarrow> b) \<and> (user_given user \<or> text_given dev);
             want_profile = (case to_profile of None \<Rightarrow> persist_to_user_profile cfg | Some b \<Rightarrow> b) \<and> user_given user;
             (database, db1) =
               (if want_db then
                  (case repo_call sw (to_uuid user \<noteq> None \<or> text_given dev) (repo_upsert arrange l src user dev) db of
                     (Inl e, db') \<Rightarrow> ([(''database'', False)], db')
                   | (Inr r, db') \<Rightarrow> ([(''database'', True)], db'))
                else ([], db));
             (profile, db2) =
               (if want_profile then
                  (let (ok, db') = persist_to_profile (sw_session sw) (the user) l db1 in ([(''profile'', ok)], db'))
                else ([], db1))
         in (Inr (ck, browser @ database @ profile), db2)))"

section \<open>The detection of the provider\<close>

definition detect :: "string option \<Rightarrow> string option \<Rightarrow> string option \<Rightarrow> string" where
  "detect query cookie accept =
     (let header = (if text_given accept
                    then Some (strip (hd (split_on (CHR '';'') (hd (split_on (CHR '','') (the accept))))))
                    else None);
          first = (if text_given query then the query else if text_given cookie then the cookie
                   else if text_given header then the header else ''en'')
      in if first \<in> {''en'', ''zh-CN''} then first else ''en'')"

section \<open>The facade\<close>

record 'r i18n_manager =
  mg_switcher :: switcher
  mg_loaded :: loaded
  mg_cache :: "'r text_cache"

text \<open>\<open>_count_keys\<close>\<close>

function (sequential) count_keys :: "dict \<Rightarrow> nat" where
  "count_keys [] = 0"
| "count_keys ((k, JObj d) # ps) = count_keys d + count_keys ps"
| "count_keys ((k, v) # ps) = 1 + count_keys ps"
  by pat_completeness auto

termination
  by (relation "measure (size_list (size_prod (\<lambda>_. 0) size))") auto

definition key_count :: "json \<Rightarrow> i18n_error + nat" where
  "key_count v = (case v of JObj d \<Rightarrow> Inr (count_keys d) | _ \<Rightarrow> Inl NotAMapping)"

definition bundle_keys :: "dict \<Rightarrow> i18n_error + nat" where
  "bundle_keys ms = bindR (mapR (\<lambda>p. key_count (snd p)) ms) (\<lambda>ns. Inr (sum_list ns))"

definition mg_translate ::
    "(json \<Rightarrow> string) \<Rightarrow> disk \<Rightarrow> string \<Rightarrow> string \<Rightarrow> (string \<times> string option) list \<Rightarrow> 'r i18n_manager
     \<Rightarrow> string \<times> 'r i18n_manager" where
  "mg_translate shown d l key kw mg =
     (let (t, c) = new_service (\<lambda>_ _. None) d l (mg_loaded mg);
          (s, c') = translate (\<lambda>_ _. None) shown d t key (fill kw ''default'')
                      (filter (\<lambda>p. fst p \<noteq> ''default'') kw) c
      in (s, mg\<lparr>mg_loaded := c'\<rparr>))"

definition mg_get_module :: "disk \<Rightarrow> string \<Rightarrow> string \<Rightarrow> 'r i18n_manager \<Rightarrow> (i18n_error + json \<times> nat) \<times> 'r i18n_manager" where
  "mg_get_module d l m mg =
     (let (t, c) = new_service (\<lambda>_ _. None) d l (mg_loaded mg);
          (v, c') = get_module (\<lambda>_ _. None) d t m c
      in (bindR (key_count v) (\<lambda>n. Inr (v, n)), mg\<lparr>mg_loaded := c'\<rparr>))"

record text_bundle =
  bn_language :: string
  bn_modules :: dict
  bn_total :: nat
  bn_cached :: bool

definition bundle_language :: "i18n_config \<Rightarrow> string \<Rightarrow> string" where
  "bundle_language cfg l =
     (let l1 = (if \<not> enabled cfg then default_language cfg else l) in
      if is_supported cfg (Some l1) then l1 else default_language cfg)"

definition get_bundle ::
    "'r redis_texts \<Rightarrow> disk \<Rightarrow> string \<Rightarrow> bool \<Rightarrow> 'r i18n_manager \<Rightarrow> (i18n_error + text_bundle) \<times> 'r i18n_manager" where
  "get_bundle R d l0 use_cache mg =
     (let l = bundle_language (sw_config (mg_switcher mg)) l0;
          cached = (if use_cache then cache_get R l ''*bundle'' (mg_cache mg) else None);
          found = (case cached of Some (JObj ms) \<Rightarrow> ms | _ \<Rightarrow> []) in
      if found \<noteq> [] then
        (bindR (bundle_keys found) (\<lambda>n. Inr \<lparr>bn_language = l, bn_modules = found, bn_total = n, bn_cached = True\<rparr>), mg)
      else
        (let (ms, c) = load_all d l (mg_loaded mg);
             cache' = (if use_cache then cache_set R l ''*bundle'' (JObj ms) None (mg_cache mg) else mg_cache mg)
         in (bindR (bundle_keys ms) (\<lambda>n. Inr \<lparr>bn_language = l, bn_modules = ms, bn_total = n, bn_cached = False\<rparr>),
             mg\<lparr>mg_loaded := c, mg_cache := cache'\<rparr>)))"

definition reload :: "'r redis_texts \<Rightarrow> disk \<Rightarrow> 'r i18n_manager \<Rightarrow> (nat \<times> nat) \<times> 'r i18n_manager" where
  "reload R d mg =
     (let langs = list_languages d in
      ((length langs, sum_list (map (\<lambda>l. length (list_modules d l)) langs)),
       mg\<lparr>mg_loaded := clear_loader None (mg_loaded mg), mg_cache := cache_invalidate R None None (mg_cache mg)\<rparr>))"

definition display_name :: "string \<Rightarrow> string" where
  "display_name l = (case map_of BUILTIN_LOCALES l of None \<Rightarrow> l | Some c \<Rightarrow> lc_display_name c)"

record language_info =
  li_code :: string
  li_display_name :: string
  li_is_default :: bool

definition mg_list_languages :: "i18n_config \<Rightarrow> language_info list" where
  "mg_list_languages cfg =
     map (\<lambda>c. \<lparr>li_code = c, li_display_name = display_name c, li_is_default = (c = default_language cfg)\<rparr>)
       (supported_languages cfg)"

record current_language =
  cl_language :: string
  cl_display_name :: string
  cl_source :: string

definition current :: "resolved \<Rightarrow> current_language" where
  "current r = \<lparr>cl_language = rs_language r, cl_display_name = display_name (rs_language r), cl_source = rs_source r\<rparr>"

record capabilities =
  cp_enabled :: bool
  cp_default :: string
  cp_fallback :: string
  cp_supported :: "string list"
  cp_modules :: "string list"
  cp_plural_rules :: "string list"
  cp_currencies :: "string list"
  cp_cache_ttl :: int

definition mg_capabilities :: "disk \<Rightarrow> i18n_config \<Rightarrow> capabilities" where
  "mg_capabilities d cfg =
     \<lparr>cp_enabled = enabled cfg, cp_default = default_language cfg, cp_fallback = fallback_language cfg,
      cp_supported = supported_languages cfg, cp_modules = sort (list_modules d (default_language cfg)),
      cp_plural_rules = sort [''en'', ''zh''],
      cp_currencies = sort (remdups (map (\<lambda>p. currency_code (snd p)) BUILTIN_LOCALES)), cp_cache_ttl = cache_ttl cfg\<rparr>"

fun stat_modules :: "disk \<Rightarrow> (string \<times> string) list \<Rightarrow> nat \<Rightarrow> loaded \<Rightarrow> (i18n_error + nat) \<times> loaded" where
  "stat_modules d [] n c = (Inr n, c)"
| "stat_modules d ((l, m) # ps) n c =
     (let (v, c') = loader_load d l m c in
      case key_count v of Inl e \<Rightarrow> (Inl e, c') | Inr k \<Rightarrow> stat_modules d ps (n + k) c')"

record i18n_stats =
  st_languages :: nat
  st_modules :: nat
  st_keys :: nat
  st_cached :: nat
  st_preferences :: nat

definition mg_stats :: "disk \<Rightarrow> pref_db \<Rightarrow> 'r i18n_manager \<Rightarrow> (i18n_error + i18n_stats) \<times> 'r i18n_manager" where
  "mg_stats d db mg =
     (let langs = list_languages d;
          pairs = concat (map (\<lambda>l. map (Pair l) (list_modules d l)) langs);
          (r, c) = stat_modules d pairs 0 (mg_loaded mg);
          n = (case repo_call (mg_switcher mg) True repo_count db of (Inl e, _) \<Rightarrow> 0 | (Inr k, _) \<Rightarrow> k)
      in (bindR r (\<lambda>keys. Inr \<lparr>st_languages = length langs, st_modules = length (remdups (map snd pairs)),
                               st_keys = keys, st_cached = length c, st_preferences = n\<rparr>),
          mg\<lparr>mg_loaded := c\<rparr>))"

record switch_result =
  sr_language :: string
  sr_display_name :: string
  sr_persisted :: "(string \<times> bool) list"
  sr_cookie :: "cookie option"

definition mg_switch ::
    "(preference list \<Rightarrow> preference list) \<Rightarrow> switcher \<Rightarrow> string \<Rightarrow> bool \<Rightarrow> user_ref option \<Rightarrow> string option
     \<Rightarrow> string \<Rightarrow> switch_result db_act" where
  "mg_switch arrange sw l response user dev src =
     (if \<not> is_supported (sw_config sw) (Some l) then failA (LanguageUnsupported l)
      else bindA (switch arrange sw l response user dev src None None) (\<lambda>r.
        retA \<lparr>sr_language = l, sr_display_name = display_name l, sr_persisted = snd r, sr_cookie = fst r\<rparr>))"

end
