(* ===== verification/LanguageProps.thy ===== *)
theory LanguageProps
  imports LanguageSwitch
begin

text \<open>
  The stored preferences as a map from users to languages: what an upsert does to it, the
  invariant of the table, and what a request resolves to after a switch.
\<close>

section \<open>The table and its invariant\<close>

text \<open>The database may return rows in any order.\<close>

definition lawful_arrange :: "(preference list \<Rightarrow> preference list) \<Rightarrow> bool" where
  "lawful_arrange arrange \<longleftrightarrow> (\<forall>ps. mset (arrange ps) = mset ps)"

text \<open>Ids are distinct and used up, the columns fit, and no user has two rows.\<close>

definition pref_inv :: "pref_db \<Rightarrow> bool" where
  "pref_inv db \<longleftrightarrow> distinct (map pf_id (prefs db)) \<and> list_all (\<lambda>p. pf_id p < next_id db \<and> row_fits db p) (prefs db)
     \<and> list_all (\<lambda>p. list_all (\<lambda>q. pf_user p = None \<or> pf_user p \<noteq> pf_user q \<or> pf_id p = pf_id q) (prefs db)) (prefs db)"

text \<open>The map the table stands for: the language of a user, and how it was selected.\<close>

definition preference_of :: "pref_db \<Rightarrow> nat \<Rightarrow> (string \<times> string) option" where
  "preference_of db u = map_option (\<lambda>p. (pf_language p, pf_source p)) (find (\<lambda>p. pf_user p = Some u) (prefs db))"

lemma arrange_set: "lawful_arrange arrange \<Longrightarrow> set (arrange ps) = set ps"
  by (metis lawful_arrange_def set_mset_mset)

lemma inv_same_row:
  assumes "pref_inv db" and "p \<in> set (prefs db)" and "q \<in> set (prefs db)" and "pf_id p = pf_id q"
  shows "p = q"
  using assms by (auto simp: pref_inv_def distinct_map inj_on_def)

lemma inv_same_user:
  assumes "pref_inv db" and "p \<in> set (prefs db)" and "q \<in> set (prefs db)" and "pf_user p = Some u" and "pf_user q = Some u"
  shows "p = q"
proof (rule inv_same_row [OF assms(1-3)])
  show "pf_id p = pf_id q" using assms unfolding pref_inv_def list_all_iff by (metis option.distinct(1))
qed

lemma select_user_spec:
  assumes "lawful_arrange arrange"
  shows "select_user arrange u db = Some p \<Longrightarrow> p \<in> set (prefs db) \<and> pf_user p = Some u"
    and "select_user arrange u db = None \<longleftrightarrow> (\<forall>p \<in> set (prefs db). pf_user p \<noteq> Some u)"
  using arrange_set [OF assms, of "filter (\<lambda>p. pf_user p = Some u) (prefs db)"]
  by (auto simp: select_user_def filter_empty_conv split: list.splits)

lemma select_device_spec:
  assumes "lawful_arrange arrange" and "select_device arrange d db = Some p"
  shows "p \<in> set (prefs db) \<and> pf_device p = Some d"
proof -
  have "p \<in> set (sort_desc pf_updated (arrange (filter (\<lambda>p. pf_device p = Some d) (prefs db))))"
    using assms(2) by (auto simp: select_device_def simp del: set_sort_desc split: list.splits)
  then show ?thesis using arrange_set [OF assms(1)] by auto
qed

lemma find_preference_mem:
  assumes "lawful_arrange arrange" and "find_preference arrange uid dev db = Some p"
  shows "p \<in> set (prefs db)"
  using assms select_user_spec(1) [OF assms(1)] select_device_spec [OF assms(1)]
  by (auto simp: find_preference_def split: option.splits if_splits)

text \<open>The row of a user is found before any row of a device.\<close>

lemma find_preference_user:
  assumes "lawful_arrange arrange" and "pref_inv db" and "p \<in> set (prefs db)" and "pf_user p = Some u"
  shows "find_preference arrange (Some u) dev db = Some p"
proof -
  obtain q where q: "select_user arrange u db = Some q"
    using select_user_spec(2) [OF assms(1), of u db] assms(3,4) by (cases "select_user arrange u db") auto
  then have "q = p" using select_user_spec(1) [OF assms(1) q] assms inv_same_user by blast
  then show ?thesis using q by (simp add: find_preference_def)
qed

lemma find_preference_device:
  assumes "lawful_arrange arrange" and "find_preference arrange (Some u) dev db = Some p" and "pf_user p \<noteq> Some u"
  shows "(\<forall>q \<in> set (prefs db). pf_user q \<noteq> Some u) \<and> dev \<noteq> None \<and> pf_device p = dev"
  using assms select_user_spec [OF assms(1), of u db] select_device_spec [OF assms(1)]
  by (auto simp: find_preference_def text_given_def split: option.splits if_splits)

section \<open>Rows replaced in place\<close>

lemma changed_row_fields:
  "pf_id (changed_row uid dev l src t p) = pf_id (set_row uid dev l src p)"
  "pf_user (changed_row uid dev l src t p) = pf_user (set_row uid dev l src p)"
  "pf_device (changed_row uid dev l src t p) = pf_device (set_row uid dev l src p)"
  "pf_language (changed_row uid dev l src t p) = pf_language (set_row uid dev l src p)"
  "pf_source (changed_row uid dev l src t p) = pf_source (set_row uid dev l src p)"
  by (cases "set_row uid dev l src p = p"; simp add: changed_row_def Let_def)+

lemma changed_row_simps [simp]:
  "pf_id (changed_row uid dev l src t p) = pf_id p"
  "pf_user (changed_row uid dev l src t p) = (case uid of None \<Rightarrow> pf_user p | Some u \<Rightarrow> Some u)"
  "pf_device (changed_row uid dev l src t p) = (if text_given dev then dev else pf_device p)"
  "pf_language (changed_row uid dev l src t p) = l"
  "pf_source (changed_row uid dev l src t p) = src"
  unfolding changed_row_fields by (simp_all add: set_row_def)

text \<open>Replacing the row with the id of \<open>p\<close>.\<close>

lemma prefs_update_row:
  assumes "pref_inv db" and "p \<in> set (prefs db)" and "pf_id q = pf_id p"
  shows "prefs (update_row q db) = map (\<lambda>r. if r = p then q else r) (prefs db)"
proof -
  have "map (\<lambda>r. if pf_id r = pf_id q then q else r) (prefs db) = map (\<lambda>r. if r = p then q else r) (prefs db)"
    using assms inv_same_row by (intro map_cong refl) auto
  then show ?thesis by (simp add: update_row_def)
qed

lemma find_replaced_other: "\<not> P p \<Longrightarrow> \<not> P q \<Longrightarrow> find P (map (\<lambda>r. if r = p then q else r) ps) = find P ps"
  by (induction ps) auto

lemma find_replaced:
  assumes "P q" and "p \<in> set ps" and "\<And>r. r \<in> set ps \<Longrightarrow> P r \<Longrightarrow> r = p"
  shows "find P (map (\<lambda>r. if r = p then q else r) ps) = Some q"
  using assms(2,3)
proof (induction ps)
  case (Cons r ps)
  show ?case
  proof (cases "r = p")
    case False
    then have "\<not> P r" using Cons.prems(2) by auto
    then show ?thesis using False Cons by simp
  qed (simp add: assms(1))
qed simp

lemma find_snoc: "find P (ps @ [q]) = (case find P ps of Some r \<Rightarrow> Some r | None \<Rightarrow> if P q then Some q else None)"
  by (induction ps) auto

lemma preference_none: "preference_of db u = None \<longleftrightarrow> (\<forall>p \<in> set (prefs db). pf_user p \<noteq> Some u)"
  by (auto simp: preference_of_def find_None_iff)

section \<open>Upserts\<close>

text \<open>What an upsert is asked to store fits the columns, and the user exists.\<close>

definition request_fits :: "pref_db \<Rightarrow> string \<Rightarrow> string \<Rightarrow> user_ref option \<Rightarrow> string option \<Rightarrow> bool" where
  "request_fits db l src user dev \<longleftrightarrow>
     length l \<le> 16 \<and> length src \<le> 16 \<and> (case dev of None \<Rightarrow> True | Some d \<Rightarrow> length d \<le> 128)
     \<and> (case to_uuid user of None \<Rightarrow> True | Some u \<Rightarrow> u \<in> set (users db))"

text \<open>The row an upsert finds has the user's id, or none with that id exists.\<close>

lemma found_row_user:
  assumes "lawful_arrange arrange" and "pref_inv db" and "find_preference arrange uid dev db = Some p"
    and "r \<in> set (prefs db)" and "pf_user r = (case uid of None \<Rightarrow> pf_user p | Some u \<Rightarrow> Some u)" and "pf_user r \<noteq> None"
  shows "r = p"
proof (cases uid)
  case None
  then show ?thesis using assms inv_same_user find_preference_mem [OF assms(1,3)] by (metis option.case(1) option.exhaust)
next
  case (Some u)
  then have r: "pf_user r = Some u" using assms(5) by simp
  have "find_preference arrange uid dev db = Some r"
    unfolding Some by (rule find_preference_user [OF assms(1,2,4) r])
  then show ?thesis using assms(3) by simp
qed

lemma upsert_found:
  assumes arr: "lawful_arrange arrange" and inv: "pref_inv db" and p: "find_preference arrange (to_uuid user) dev db = Some p"
    and fits: "request_fits db l src user dev"
  defines "q \<equiv> changed_row (to_uuid user) dev l src (now db) p"
  shows "pref_row_ok db q" and "pref_inv (update_row q db)"
proof -
  have mem: "p \<in> set (prefs db)" by (rule find_preference_mem [OF arr p])
  have q: "pf_id q = pf_id p" "pf_user q = (case to_uuid user of None \<Rightarrow> pf_user p | Some u \<Rightarrow> Some u)"
    by (simp_all add: q_def)
  have same: "r = p" if "r \<in> set (prefs db)" "pf_user r = pf_user q" "pf_user r \<noteq> None" for r
    using found_row_user [OF arr inv p that(1)] that q(2) by simp
  have "row_fits db p" using inv mem by (auto simp: pref_inv_def list_all_iff)
  then have qfits: "row_fits db q"
    using fits by (auto simp: q_def row_fits_def request_fits_def text_given_def split: option.splits)
  show "pref_row_ok db q" using qfits same q(1) by (auto simp: pref_row_ok_def list_all_iff)
  have rows: "prefs (update_row q db) = map (\<lambda>r. if r = p then q else r) (prefs db)"
    by (rule prefs_update_row [OF inv mem q(1)])
  have other: "next_id (update_row q db) = next_id db" "row_fits (update_row q db) r = row_fits db r" for r
    by (simp_all add: row_fits_def update_row_def split: option.split)
  have "map pf_id (prefs (update_row q db)) = map pf_id (prefs db)"
    unfolding rows using q(1) by simp
  then have "distinct (map pf_id (prefs (update_row q db)))" using inv by (simp add: pref_inv_def)
  moreover have "list_all (\<lambda>r. pf_id r < next_id db \<and> row_fits db r) (prefs (update_row q db))"
    unfolding rows using inv mem qfits q(1) by (auto simp: pref_inv_def list_all_iff)
  moreover have "pf_id r = pf_id r'"
    if "r \<in> set (prefs (update_row q db))" "r' \<in> set (prefs (update_row q db))"
      "pf_user r \<noteq> None" "pf_user r = pf_user r'" for r r'
  proof -
    note asm = that
    have "x = q \<or> x \<in> set (prefs db) \<and> x \<noteq> p" if "x \<in> set (prefs (update_row q db))" for x
      using that unfolding rows by auto
    then consider "r = r'" | "r = q" "r' \<in> set (prefs db)" "r' \<noteq> p" | "r' = q" "r \<in> set (prefs db)" "r \<noteq> p"
      | "r \<in> set (prefs db)" "r' \<in> set (prefs db)" using asm(1,2) by metis
    then show ?thesis
    proof cases
      case 4
      then show ?thesis using inv asm(3,4) inv_same_user by (metis option.exhaust)
    qed (use same asm(3,4) in auto)
  qed
  ultimately show "pref_inv (update_row q db)"
    unfolding pref_inv_def other list_all_iff by blast
qed

lemma upsert_added:
  assumes arr: "lawful_arrange arrange" and inv: "pref_inv db" and none: "find_preference arrange (to_uuid user) dev db = None"
    and fits: "request_fits db l src user dev"
  defines "q \<equiv> new_row (to_uuid user) dev l src db"
  shows "pref_row_ok db q" and "pref_inv (db\<lparr>prefs := prefs db @ [q], next_id := next_id db + 1\<rparr>)"
proof -
  have new: "pf_user r \<noteq> pf_user q" if "r \<in> set (prefs db)" "pf_user r \<noteq> None" for r
    using find_preference_user [OF arr inv that(1)] that(2) none by (fastforce simp: q_def new_row_def)
  have qfits: "row_fits db q"
    using fits by (simp add: q_def new_row_def row_fits_def request_fits_def)
  show "pref_row_ok db q" using qfits new unfolding pref_row_ok_def list_all_iff by metis
  let ?db = "db\<lparr>prefs := prefs db @ [q], next_id := next_id db + 1\<rparr>"
  have other: "row_fits ?db r = row_fits db r" "prefs ?db = prefs db @ [q]" "next_id ?db = next_id db + 1" for r
    by (simp_all add: row_fits_def split: option.split)
  have "distinct (map pf_id (prefs db @ [q]))"
    using inv by (auto simp: pref_inv_def list_all_iff q_def new_row_def)
  moreover have "list_all (\<lambda>r. pf_id r < next_id db + 1 \<and> row_fits db r) (prefs db @ [q])"
    using inv qfits by (auto simp: pref_inv_def list_all_iff q_def new_row_def)
  moreover have "pf_id r = pf_id r'"
    if "r \<in> set (prefs db @ [q])" "r' \<in> set (prefs db @ [q])" "pf_user r \<noteq> None" "pf_user r = pf_user r'" for r r'
  proof -
    note asm = that
    consider "r = r'" | "r = q" "r' \<in> set (prefs db)" | "r' = q" "r \<in> set (prefs db)"
      | "r \<in> set (prefs db)" "r' \<in> set (prefs db)" using asm(1,2) by auto
    then show ?thesis
    proof cases
      case 2
      then show ?thesis using new [of r'] asm(3,4) by simp
    next
      case 3
      then show ?thesis using new [of r] asm(3,4) by simp
    next
      case 4
      then show ?thesis using inv asm(3,4) inv_same_user by (metis option.exhaust)
    qed simp
  qed
  ultimately show "pref_inv (db\<lparr>prefs := prefs db @ [q], next_id := next_id db + 1\<rparr>)"
    unfolding pref_inv_def list_all_iff other by blast
qed

text \<open>The run of an upsert that has a key and fits.\<close>

lemma upsert_run:
  assumes "lawful_arrange arrange" and "pref_inv db" and "\<not> broken db" and "request_fits db l src user dev"
    and "to_uuid user \<noteq> None \<or> text_given dev"
  shows "repo_upsert arrange l src user dev db =
    (case find_preference arrange (to_uuid user) dev db of
       Some p \<Rightarrow> (Inr (Some (changed_row (to_uuid user) dev l src (now db) p)),
                  update_row (changed_row (to_uuid user) dev l src (now db) p) db)
     | None \<Rightarrow> (Inr (Some (new_row (to_uuid user) dev l src db)),
               db\<lparr>prefs := prefs db @ [new_row (to_uuid user) dev l src db], next_id := next_id db + 1\<rparr>))"
proof -
  have key: "\<not> (to_uuid user = None \<and> \<not> text_given dev)" using assms(5) by blast
  show ?thesis
    using upsert_found(1) [OF assms(1,2) _ assms(4)] upsert_added(1) [OF assms(1,2) _ assms(4)] assms(3)
    unfolding repo_upsert_def Let_def if_not_P [OF key] usable_def bindA_def flush_row_def
    by (cases "find_preference arrange (to_uuid user) dev db") simp_all
qed

text \<open>Repeated switches never violate the unique constraint: on a table where no user has two
  rows, an upsert whose values fit the columns succeeds, whatever user or device it is for and in
  whatever order the database returns rows, and leaves such a table.
\<close>

lemma upsert_succeeds:
  assumes "lawful_arrange arrange" and "pref_inv db" and "\<not> broken db" and "request_fits db l src user dev"
  shows "\<exists>r db'. repo_upsert arrange l src user dev db = (Inr r, db') \<and> pref_inv db' \<and> \<not> broken db'
    \<and> (r = None \<longleftrightarrow> to_uuid user = None \<and> \<not> text_given dev)"
proof (cases "to_uuid user = None \<and> \<not> text_given dev")
  case True
  then show ?thesis using assms by (simp add: repo_upsert_def)
next
  case False
  then have key: "to_uuid user \<noteq> None \<or> text_given dev" by simp
  have unbroken: "broken (update_row q db) = broken db" for q by (simp add: update_row_def)
  show ?thesis
    using upsert_run [OF assms key] upsert_found(2) [OF assms(1,2) _ assms(4)] upsert_added(2) [OF assms(1,2) _ assms(4)]
      assms(3) key by (auto simp: unbroken split: option.splits)
qed

section \<open>The table as a map\<close>

text \<open>
  What an upsert does to that map. \<open>owner\<close> is the user of the newest row of the device: without
  a row of its own the user takes that row over, and the owner has none then; a switch without a
  user changes the language of the owner.
\<close>

definition device_owner :: "(preference list \<Rightarrow> preference list) \<Rightarrow> string option \<Rightarrow> pref_db \<Rightarrow> nat option" where
  "device_owner arrange dev db =
     (if text_given dev then Option.bind (select_device arrange (the dev) db) pf_user else None)"

definition map_upsert :: "nat option \<Rightarrow> nat option \<Rightarrow> string \<Rightarrow> string \<Rightarrow> (nat \<Rightarrow> (string \<times> string) option)
    \<Rightarrow> nat \<Rightarrow> (string \<times> string) option" where
  "map_upsert uid owner l src m =
     (case uid of
        Some u \<Rightarrow> (case owner of
            Some v \<Rightarrow> if m u = None then m(v := None, u \<mapsto> (l, src)) else m(u \<mapsto> (l, src))
          | None \<Rightarrow> m(u \<mapsto> (l, src)))
      | None \<Rightarrow> (case owner of Some v \<Rightarrow> m(v \<mapsto> (l, src)) | None \<Rightarrow> m))"

lemma found_row_owner:
  assumes "lawful_arrange arrange" and "find_preference arrange uid dev db = Some p"
  shows "(\<exists>u. uid = Some u \<and> pf_user p = Some u \<and> preference_of db u \<noteq> None)
    \<or> (\<forall>u. uid = Some u \<longrightarrow> preference_of db u = None) \<and> device_owner arrange dev db = pf_user p"
proof (cases "case uid of None \<Rightarrow> None | Some u \<Rightarrow> select_user arrange u db")
  case None
  then have "text_given dev" "select_device arrange (the dev) db = Some p" "\<forall>u. uid = Some u \<longrightarrow> preference_of db u = None"
    using assms select_user_spec(2) [OF assms(1)]
    by (auto simp: find_preference_def preference_none split: option.splits if_splits)
  then show ?thesis by (simp add: device_owner_def)
next
  case (Some q)
  then obtain u where u: "uid = Some u" "select_user arrange u db = Some q" by (cases uid) auto
  then have "q = p" using assms(2) by (simp add: find_preference_def)
  then show ?thesis using u select_user_spec(1) [OF assms(1)] preference_none by blast
qed

text \<open>An upsert that finds a row gives it to the user: whoever else it belonged to has none then.\<close>

lemma upsert_found_map:
  assumes "lawful_arrange arrange" and "pref_inv db" and "\<not> broken db"
    and "request_fits db l src user dev" and found: "find_preference arrange (to_uuid user) dev db = Some p"
    and "to_uuid user \<noteq> None \<or> text_given dev"
  shows "preference_of (snd (repo_upsert arrange l src user dev db)) w =
    (if (case to_uuid user of None \<Rightarrow> pf_user p | Some u \<Rightarrow> Some u) = Some w then Some (l, src)
     else if pf_user p = Some w then None else preference_of db w)"
proof -
  let ?q = "changed_row (to_uuid user) dev l src (now db) p"
  let ?u = "case to_uuid user of None \<Rightarrow> pf_user p | Some u \<Rightarrow> Some u"
  have mem: "p \<in> set (prefs db)" by (rule find_preference_mem [OF assms(1) found])
  have upd: "snd (repo_upsert arrange l src user dev db) = update_row ?q db"
    using upsert_run [OF assms(1-4,6)] found by simp
  have rows: "prefs (update_row ?q db) = map (\<lambda>r. if r = p then ?q else r) (prefs db)"
    by (rule prefs_update_row [OF assms(2) mem]) simp
  consider "?u = Some w" | "?u \<noteq> Some w" "pf_user p = Some w" | "?u \<noteq> Some w" "pf_user p \<noteq> Some w" by blast
  then show ?thesis
  proof cases
    case 1
    have "find (\<lambda>r. pf_user r = Some w) (prefs (update_row ?q db)) = Some ?q"
      unfolding rows using mem found_row_user [OF assms(1,2) found] 1 by (intro find_replaced) auto
    then show ?thesis unfolding upd using 1 by (simp add: preference_of_def)
  next
    case 2
    have "\<forall>r \<in> set (prefs (update_row ?q db)). pf_user r \<noteq> Some w"
      unfolding rows using inv_same_user [OF assms(2) _ mem _ 2(2)] 2(1) by auto
    then show ?thesis unfolding upd using 2 by (simp add: preference_none)
  next
    case 3
    then have "find (\<lambda>r. pf_user r = Some w) (prefs (update_row ?q db)) = find (\<lambda>r. pf_user r = Some w) (prefs db)"
      unfolding rows by (intro find_replaced_other) auto
    then show ?thesis unfolding upd using 3 by (simp add: preference_of_def)
  qed
qed

lemma upsert_added_map:
  assumes "lawful_arrange arrange" and "pref_inv db" and "\<not> broken db"
    and "request_fits db l src user dev" and none: "find_preference arrange (to_uuid user) dev db = None"
    and "to_uuid user \<noteq> None \<or> text_given dev"
  shows "preference_of (snd (repo_upsert arrange l src user dev db)) =
      (case to_uuid user of None \<Rightarrow> preference_of db | Some u \<Rightarrow> (preference_of db)(u \<mapsto> (l, src)))
    \<and> device_owner arrange dev db = None"
proof -
  let ?q = "new_row (to_uuid user) dev l src db"
  have upd: "snd (repo_upsert arrange l src user dev db) = db\<lparr>prefs := prefs db @ [?q], next_id := next_id db + 1\<rparr>"
    using upsert_run [OF assms(1-4,6)] none by simp
  have free: "find (\<lambda>p. pf_user p = Some u) (prefs db) = None" if "to_uuid user = Some u" for u
    using find_preference_user [OF assms(1,2)] none that by (fastforce simp: find_None_iff)
  have "text_given dev \<Longrightarrow> select_device arrange (the dev) db = None"
    using none by (auto simp: find_preference_def split: option.splits if_splits)
  then have "device_owner arrange dev db = None" by (simp add: device_owner_def)
  then show ?thesis
    unfolding upd using free
    by (auto simp: preference_of_def find_snoc new_row_def fun_eq_iff split: option.splits)
qed

text \<open>The empty table has the invariant.\<close>

lemma pref_inv_empty: "prefs db = [] \<Longrightarrow> pref_inv db"
  by (simp add: pref_inv_def)

text \<open>C29: On a table with at most one row per user - the empty table, and every table the repository
  makes of it - and in a session that has not failed, an upsert whose values fit the columns
  succeeds in whatever order the database returns rows, keeps the table so and implements, as a map from users to languages, exactly this: a user's language is set; a user
  without a row takes over the newest row of the device, if it has one, and its former owner has
  no language then; a switch without a user sets the language of the owner of that row, and
  changes no user's if it has none. So one language is kept per user, not per user and device.
\<close>

theorem upsert_refines_map:
  assumes "lawful_arrange arrange" and "pref_inv db" and "\<not> broken db" and "request_fits db l src user dev"
  shows "\<exists>r db'. repo_upsert arrange l src user dev db = (Inr r, db') \<and> pref_inv db' \<and> \<not> broken db'
    \<and> preference_of db' = map_upsert (to_uuid user) (device_owner arrange dev db) l src (preference_of db)"
proof -
  obtain r db' where up: "repo_upsert arrange l src user dev db = (Inr r, db')" "pref_inv db'" "\<not> broken db'"
    using upsert_succeeds [OF assms] by blast
  have "preference_of db' = map_upsert (to_uuid user) (device_owner arrange dev db) l src (preference_of db)"
  proof (cases "to_uuid user = None \<and> \<not> text_given dev")
    case True
    then have "db' = db" using up(1) by (simp add: repo_upsert_def)
    then show ?thesis using True by (simp add: map_upsert_def device_owner_def)
  next
    case False
    then have key: "to_uuid user \<noteq> None \<or> text_given dev" by simp
    show ?thesis
    proof (cases "find_preference arrange (to_uuid user) dev db")
      case None
      from upsert_added_map [OF assms None key] show ?thesis
        unfolding up(1) by (simp add: map_upsert_def split: option.split)
    next
      case (Some p)
      note m = upsert_found_map [OF assms Some key, unfolded up(1) snd_conv]
      from found_row_owner [OF assms(1) Some] show ?thesis
        unfolding fun_eq_iff m by (auto simp: map_upsert_def split: option.splits)
    qed
  qed
  with up show ?thesis by blast
qed

text \<open>
  On a shared device: when a user without a row switches on a device whose only row belongs to
  another user, the row is handed over, and the other user's preference is gone.
\<close>

theorem device_row_taken_over:
  assumes "lawful_arrange arrange" and "pref_inv db" and "\<not> broken db"
    and "request_fits db l src (Some (Uid u)) (Some dev)" and "dev \<noteq> []" and "preference_of db u = None"
    and "filter (\<lambda>p. pf_device p = Some dev) (prefs db) = [p]" and "pf_user p = Some v"
  shows "preference_of (snd (repo_upsert arrange l src (Some (Uid u)) (Some dev) db))
    = (preference_of db)(u \<mapsto> (l, src), v := None)"
proof -
  have mem: "p \<in> set (prefs db)" using arg_cong [OF assms(7), of set] by auto
  have uv: "v \<noteq> u" using assms(6,8) mem by (auto simp: preference_none)
  have "arrange [p] = [p]" using assms(1) unfolding lawful_arrange_def by (metis mset_single_iff mset.simps mset_single_iff_right)
  then have dev: "select_device arrange dev db = Some p" by (simp add: select_device_def assms(7) sort_desc_def)
  have "select_user arrange u db = None" using select_user_spec(2) [OF assms(1)] assms(6) by (simp add: preference_none)
  then have found: "find_preference arrange (to_uuid (Some (Uid u))) (Some dev) db = Some p"
    using dev assms(5) by (simp add: find_preference_def text_given_def to_uuid_def)
  have key: "to_uuid (Some (Uid u)) \<noteq> None \<or> text_given (Some dev)" by (simp add: to_uuid_def)
  show ?thesis unfolding fun_eq_iff upsert_found_map [OF assms(1-4) found key] using uv assms(8) by (simp add: to_uuid_def)
qed

section \<open>A switch and the requests after it\<close>

lemma upsert_stores:
  assumes "lawful_arrange arrange" and "pref_inv db" and "\<not> broken db" and "request_fits db l src (Some (Uid u)) dev"
  shows "\<exists>r db'. repo_upsert arrange l src (Some (Uid u)) dev db = (Inr (Some r), db') \<and> pref_inv db' \<and> \<not> broken db'
    \<and> r \<in> set (prefs db') \<and> pf_user r = Some u \<and> pf_language r = l \<and> pf_source r = src"
proof (cases "find_preference arrange (Some u) dev db")
  case None
  have n: "find_preference arrange (to_uuid (Some (Uid u))) dev db = None" using None by (simp add: to_uuid_def)
  show ?thesis
    using upsert_run [OF assms] n upsert_added(2) [OF assms(1,2) n assms(4)] assms(3)
    by (simp add: to_uuid_def new_row_def)
next
  case (Some p)
  have n: "find_preference arrange (to_uuid (Some (Uid u))) dev db = Some p" using Some by (simp add: to_uuid_def)
  have mem: "p \<in> set (prefs db)" by (rule find_preference_mem [OF assms(1) Some])
  let ?q = "changed_row (Some u) dev l src (now db) p"
  have "prefs (update_row ?q db) = map (\<lambda>r. if r = p then ?q else r) (prefs db)"
    by (rule prefs_update_row [OF assms(2) mem]) simp
  then have "?q \<in> set (prefs (update_row ?q db))" using mem by auto
  moreover have "\<not> broken (update_row ?q db)" using assms(3) by (simp add: update_row_def)
  ultimately show ?thesis
    using upsert_run [OF assms] n upsert_found(2) [OF assms(1,2) n assms(4)] by (simp add: to_uuid_def)
qed

lemma persist_to_profile_prefs:
  "prefs (snd (persist_to_profile s u l db)) = prefs db" "broken (snd (persist_to_profile s u l db)) = broken db"
  "next_id (snd (persist_to_profile s u l db)) = next_id db" "users (snd (persist_to_profile s u l db)) = users db"
  by (simp_all add: persist_to_profile_def Let_def split: user_ref.split option.split)

lemma persist_to_profile_inv: "pref_inv db \<Longrightarrow> pref_inv (snd (persist_to_profile s u l db))"
proof -
  have "row_fits (snd (persist_to_profile s u l db)) r = row_fits db r" for r
    by (simp add: row_fits_def persist_to_profile_prefs split: option.split)
  then show "pref_inv db \<Longrightarrow> ?thesis" by (simp add: pref_inv_def persist_to_profile_prefs)
qed

lemma resolve_stored:
  assumes "lawful_arrange arrange" and "pref_inv db" and "\<not> broken db" and "\<not> sw_stub sw"
    and "r \<in> set (prefs db)" and "pf_user r = Some u" and "is_supported (sw_config sw) (Some (pf_language r))"
    and "\<not> is_supported (sw_config sw) query" and "\<not> is_supported (sw_config sw) cookie" and "\<not> is_supported (sw_config sw) header"
  shows "fst (resolve arrange sw query cookie header (Some (Uid u)) dev db)
    = Inr \<lparr>rs_language = pf_language r, rs_source = (if pf_source r = [] then ''profile'' else pf_source r)\<rparr>"
  using assms find_preference_user [OF assms(1,2,5,6)]
  by (simp add: resolve_def Let_def get_preference_def repo_call_def repo_get_preference_def to_uuid_def usable_def
      bindA_def supported_text_def text_of_def)

text \<open>A switch lasts: after a user has switched to a supported language, any later request of that
  user without a language of its own, from any device, resolves to that language, as long as the
  table is not written in between.
\<close>

theorem switch_then_resolve:
  assumes "lawful_arrange arrange" and "pref_inv db" and "\<not> broken db" and "\<not> sw_stub sw"
    and "request_fits db l src (Some (Uid u)) dev" and "is_supported (sw_config sw) (Some l)" and "persist_to_db (sw_config sw)"
    and "\<not> is_supported (sw_config sw) query" and "\<not> is_supported (sw_config sw) cookie" and "\<not> is_supported (sw_config sw) header"
  shows "\<exists>r db'. switch arrange sw l response (Some (Uid u)) dev src None None db = (Inr r, db')
    \<and> (''database'', True) \<in> set (snd r)
    \<and> fst (resolve arrange sw query cookie header (Some (Uid u)) dev' db')
        = Inr \<lparr>rs_language = l, rs_source = (if src = [] then ''profile'' else src)\<rparr>"
proof -
  obtain row db1 where up: "repo_upsert arrange l src (Some (Uid u)) dev db = (Inr (Some row), db1)"
    and inv: "pref_inv db1" "\<not> broken db1"
    and row: "row \<in> set (prefs db1)" "pf_user row = Some u" "pf_language row = l" "pf_source row = src"
    using upsert_stores [OF assms(1-3,5)] by blast
  define db2 where "db2 = (if persist_to_user_profile (sw_config sw)
    then snd (persist_to_profile (sw_session sw) (Uid u) l db1) else db1)"
  have db2: "pref_inv db2" "\<not> broken db2" "row \<in> set (prefs db2)"
    using inv row persist_to_profile_inv by (auto simp: db2_def persist_to_profile_prefs)
  have run: "\<exists>r. switch arrange sw l response (Some (Uid u)) dev src None None db = (Inr r, db2)
      \<and> (''database'', True) \<in> set (snd r)"
    using assms(4,6,7) up by (simp add: switch_def Let_def user_given_def repo_call_def db2_def split: prod.split)
  have "fst (resolve arrange sw query cookie header (Some (Uid u)) dev' db2)
      = Inr \<lparr>rs_language = l, rs_source = (if src = [] then ''profile'' else src)\<rparr>"
    using resolve_stored [OF assms(1) db2(1,2) assms(4) db2(3) row(2) _ assms(8-10)] row(3,4) assms(6) by simp
  then show ?thesis using run by blast
qed

section \<open>A small table\<close>

definition demo_db :: pref_db where
  "demo_db =
     \<lparr>prefs = [\<lparr>pf_id = 1, pf_user = Some 7, pf_device = Some ''tablet'', pf_language = ''zh-CN'',
                pf_source = ''manual'', pf_updated = 5\<rparr>],
      users = [7, 8], settings = [(8, None)], now = 9, next_id = 2, broken = False\<rparr>"

definition demo_switcher :: switcher where
  "demo_switcher = \<lparr>sw_stub = False, sw_session = True, sw_config = default_config\<rparr>"

lemma lawful_rev: "lawful_arrange rev"
  by (simp add: lawful_arrange_def)

lemma demo_inv: "pref_inv demo_db" "\<not> broken demo_db"
  by code_simp+

text \<open>User 8 switches on the tablet of user 7.\<close>

theorem upsert_refines_map_witness:
  "\<exists>r db'. repo_upsert rev ''en'' ''api'' (Some (Uid 8)) (Some ''tablet'') demo_db = (Inr r, db') \<and> pref_inv db'
    \<and> preference_of db' 8 = Some (''en'', ''api'') \<and> preference_of db' 7 = None"
proof -
  have fits: "request_fits demo_db ''en'' ''api'' (Some (Uid 8)) (Some ''tablet'')" by code_simp
  have o': "device_owner rev (Some ''tablet'') demo_db = Some 7" "preference_of demo_db 8 = None" by code_simp+
  from upsert_refines_map [OF lawful_rev demo_inv fits] obtain r db' where
    "repo_upsert rev ''en'' ''api'' (Some (Uid 8)) (Some ''tablet'') demo_db = (Inr r, db')" "pref_inv db'"
    "preference_of db' = map_upsert (Some 8) (Some 7) ''en'' ''api'' (preference_of demo_db)"
    unfolding o' by (auto simp: to_uuid_def)
  moreover from this have "preference_of db' 8 = Some (''en'', ''api'')" "preference_of db' 7 = None"
    using o'(2) by (simp_all add: map_upsert_def)
  ultimately show ?thesis by blast
qed

theorem device_row_taken_over_witness:
  "preference_of (snd (repo_upsert rev ''en'' ''api'' (Some (Uid 8)) (Some ''tablet'') demo_db))
    = (preference_of demo_db)(8 \<mapsto> (''en'', ''api''), 7 := None)"
  by (rule device_row_taken_over [OF lawful_rev demo_inv, where p = "hd (prefs demo_db)"]) code_simp+

theorem switch_then_resolve_witness:
  "\<exists>r db'. switch rev demo_switcher ''en'' True (Some (Uid 8)) None ''manual'' None None demo_db = (Inr r, db')
    \<and> (''database'', True) \<in> set (snd r)
    \<and> fst (resolve rev demo_switcher (Some ''fr'') None None (Some (Uid 8)) (Some ''tablet'') db')
        = Inr \<lparr>rs_language = ''en'', rs_source = (if ''manual'' = [] then ''profile'' else ''manual'')\<rparr>"
  by (rule switch_then_resolve [OF lawful_rev demo_inv]) code_simp+

end
