(* ===== verification/LearningEngine.thy ===== *)
theory LearningEngine
  imports Floats
begin

text \<open>
  The statistics of the continuous-learning platform (\<open>app/learning/engine.py\<close>): accuracy of
  predictions against outcomes, drift, the search of a threshold, the weight of a feature, and
  the detection of issues.
\<close>

section \<open>\<open>statistics.fmean\<close> and \<open>pstdev\<close>\<close>

text \<open>\<open>fmean\<close> divides the exact sum, rounded once; it raises on no data.\<close>

definition fmean :: "rat list \<Rightarrow> rat py" where
  "fmean xs = (if xs = [] then Inl ValueError else Inr (fdiv (fl (sum_list xs)) (of_nat (length xs))))"

text \<open>\<open>math.isqrt\<close>, two bits at a time\<close>

fun isqrt :: "nat \<Rightarrow> nat" where
  "isqrt n = (if n = 0 then 0 else let r = 2 * isqrt (n div 4) in if (r + 1) * (r + 1) \<le> n then r + 1 else r)"

declare isqrt.simps [simp del]

definition bit_length :: "nat \<Rightarrow> nat" where
  "bit_length n = (if n = 0 then 0 else Suc (ilog 2 n))"

text \<open>
  The root of a fraction as \<open>statistics\<close> takes it: an integer root of at least 55 bits, rounded to
  odd, and one rounded division.
\<close>

definition sqrt_to_odd :: "nat \<Rightarrow> nat \<Rightarrow> nat" where
  "sqrt_to_odd n m = (let a = isqrt (n div m) in if a * a * m \<noteq> n \<and> even a then a + 1 else a)"

definition sqrt_of_fraction :: "nat \<Rightarrow> nat \<Rightarrow> rat" where
  "sqrt_of_fraction n m =
     (let q = (int (bit_length n) - int (bit_length m) - 109) div 2 in
      if 0 \<le> q then fl (of_nat (sqrt_to_odd n (m * 2 ^ nat (2 * q)) * 2 ^ nat q))
      else fl (of_nat (sqrt_to_odd (n * 2 ^ nat (- 2 * q)) m) / 2 ^ nat (- q)))"

definition exact_variance :: "rat list \<Rightarrow> rat" where
  "exact_variance xs =
     (let c = sum_list xs / of_nat (length xs) in sum_list (map (\<lambda>x. (x - c) * (x - c)) xs) / of_nat (length xs))"

definition pstdev :: "rat list \<Rightarrow> rat" where
  "pstdev xs = (case quotient_of (exact_variance xs) of (n, m) \<Rightarrow> sqrt_of_fraction (nat n) (nat m))"

section \<open>Accuracy\<close>

definition mae :: "rat list \<Rightarrow> rat list \<Rightarrow> rat py" where
  "mae as ps = (if as = [] then Inr 0 else fmean (map (\<lambda>(a, p). \<bar>fsub a p\<bar>) (zip as ps)))"

definition rmse :: "libm \<Rightarrow> rat list \<Rightarrow> rat list \<Rightarrow> rat py" where
  "rmse L as ps =
     (if as = [] then Inr 0
      else bindR (fmean (map (\<lambda>(a, p). c_square L (fsub a p)) (zip as ps))) (sqrtE L))"

definition mape :: "rat list \<Rightarrow> rat list \<Rightarrow> rat py" where
  "mape as ps =
     (let xs = filter (\<lambda>(a, p). a \<noteq> 0) (zip as ps) in
      if xs = [] then Inr 0
      else bindR (fmean (map (\<lambda>(a, p). fdiv \<bar>fsub a p\<bar> \<bar>a\<bar>) xs)) (\<lambda>m. Inr (fmul 100 m)))"

definition bias :: "rat list \<Rightarrow> rat list \<Rightarrow> rat py" where
  "bias as ps = (if as = [] then Inr 0 else fmean (map (\<lambda>(a, p). fsub p a) (zip as ps)))"

fun direction_counts :: "rat \<Rightarrow> (rat \<times> rat) list \<Rightarrow> nat \<times> nat \<Rightarrow> nat \<times> nat" where
  "direction_counts base [] s = s"
| "direction_counts base ((a, p) # xs) (correct, n) =
     (let da = fsub a base; dp = fsub p base in
      if da = 0 \<or> dp = 0 then direction_counts base xs (correct, n)
      else direction_counts base xs (if (0 < da) = (0 < dp) then correct + 1 else correct, n + 1))"

definition directional_accuracy :: "rat list \<Rightarrow> rat list \<Rightarrow> rat py" where
  "directional_accuracy as ps =
     (if length as < 2 then Inr 0
      else bindR (fmean as) (\<lambda>base.
        (case direction_counts base (zip as ps) (0, 0) of
           (correct, n) \<Rightarrow> Inr (if n = 0 then 1 / 2 else fdiv (of_nat correct) (of_nat n)))))"

definition pearson :: "rat list \<Rightarrow> rat list \<Rightarrow> rat py" where
  "pearson xs ys =
     (let n = min (length xs) (length ys) in
      if n < 2 then Inr 0
      else
        (let sx = pstdev xs; sy = pstdev ys in
         if sx = 0 \<or> sy = 0 then Inr 0
         else bindR (fmean xs) (\<lambda>mx. bindR (fmean ys) (\<lambda>my.
           fdivE (fdiv (float_sum (map (\<lambda>(x, y). fmul (fsub x mx) (fsub y my)) (zip xs ys))) (of_nat n)) (fmul sx sy)))))"

record accuracy =
  ac_n :: rat
  ac_mae :: rat
  ac_rmse :: rat
  ac_mape :: rat
  ac_bias :: rat
  ac_directional :: rat
  ac_correlation :: rat

definition accuracy_summary :: "libm \<Rightarrow> rat list \<Rightarrow> rat list \<Rightarrow> accuracy py" where
  "accuracy_summary L as ps =
     bindR (mae as ps) (\<lambda>m. bindR (rmse L as ps) (\<lambda>r. bindR (mape as ps) (\<lambda>mp. bindR (bias as ps) (\<lambda>b.
     bindR (directional_accuracy as ps) (\<lambda>d. bindR (pearson as ps) (\<lambda>c.
       Inr \<lparr>ac_n = fl (of_nat (length as)), ac_mae = round_float 6 m, ac_rmse = round_float 6 r,
            ac_mape = round_float 4 mp, ac_bias = round_float 6 b, ac_directional = round_float 4 d,
            ac_correlation = round_float 4 c\<rparr>))))))"

section \<open>Series and drift\<close>

record series_record =
  sr_actual :: rat
  sr_pred :: rat
  sr_at :: int

text \<open>An entry of the series; the count is that of the summary, which overwrites the other.\<close>

definition rolling_accuracy :: "libm \<Rightarrow> series_record list \<Rightarrow> int \<Rightarrow> (int \<times> accuracy) list py" where
  "rolling_accuracy L rs window =
     mapR (\<lambda>i.
       (let chunk = drop (nat (max 0 (int i - window + 1))) (take (i + 1) rs) in
        bindR (accuracy_summary L (map sr_actual chunk) (map sr_pred chunk)) (\<lambda>s. Inr (sr_at (rs ! i), s))))
       [0..<length rs]"

record drift_result =
  drifted :: bool
  recent_bias :: rat
  baseline_bias :: rat
  dr_delta :: rat

definition no_drift :: drift_result where
  "no_drift = \<lparr>drifted = False, recent_bias = 0, baseline_bias = 0, dr_delta = 0\<rparr>"

text \<open>\<open>xs[-n:]\<close>\<close>

definition last_items :: "nat \<Rightarrow> 'a list \<Rightarrow> 'a list" where
  "last_items n xs = (if n = 0 then xs else drop (length xs - n) xs)"

definition drift_of :: "rat \<Rightarrow> rat \<Rightarrow> rat \<Rightarrow> drift_result" where
  "drift_of recent baseline scale =
     (let delta = fsub recent baseline in
      \<lparr>drifted = fmul (1 / 4) scale < \<bar>delta\<bar>, recent_bias = round_float 6 recent,
       baseline_bias = round_float 6 baseline, dr_delta = round_float 6 delta\<rparr>)"

definition drift :: "series_record list \<Rightarrow> nat \<Rightarrow> drift_result py" where
  "drift rs window =
     (if length rs < 2 then Inr no_drift
      else
        (let recent = last_items window rs in
         bindR (bias (map sr_actual rs) (map sr_pred rs)) (\<lambda>b.
         bindR (bias (map sr_actual recent) (map sr_pred recent)) (\<lambda>r.
           Inr (drift_of r b (max (max (fl (1 / 10 ^ 9)) \<bar>b\<bar>) (pstdev (map sr_actual rs))))))))"

section \<open>The search of a threshold\<close>

record counts =
  tp :: nat
  fp :: nat
  tn :: nat
  fn :: nat

fun confusion_step :: "bool \<times> bool \<Rightarrow> counts \<Rightarrow> counts" where
  "confusion_step (True, True) c = c\<lparr>tp := tp c + 1\<rparr>"
| "confusion_step (False, True) c = c\<lparr>fn := fn c + 1\<rparr>"
| "confusion_step (True, False) c = c\<lparr>fp := fp c + 1\<rparr>"
| "confusion_step (False, False) c = c\<lparr>tn := tn c + 1\<rparr>"

definition confusion_of :: "bool list \<Rightarrow> bool list \<Rightarrow> counts" where
  "confusion_of predicted actual = fold confusion_step (zip predicted actual) \<lparr>tp = 0, fp = 0, tn = 0, fn = 0\<rparr>"

definition part_of :: "nat \<Rightarrow> nat \<Rightarrow> rat" where
  "part_of a b = (if a + b = 0 then 0 else fdiv (of_nat a) (of_nat (a + b)))"

definition f1_score :: "counts \<Rightarrow> rat" where
  "f1_score c =
     (let precision = part_of (tp c) (fp c); recall = part_of (tp c) (fn c) in
      if fadd precision recall = 0 then 0
      else fdiv (fmul (fmul 2 precision) recall) (fadd precision recall))"

definition classified :: "(rat \<times> rat) list \<Rightarrow> rat \<Rightarrow> counts" where
  "classified xs t = confusion_of (map (\<lambda>(s, l). t \<le> s) xs) (map (\<lambda>(s, l). l \<noteq> 0) xs)"

record tuning =
  tn_threshold :: "rat option"
  tn_score :: rat
  tn_counts :: counts

definition try_threshold :: "(rat \<times> rat) list \<Rightarrow> rat \<Rightarrow> tuning \<Rightarrow> tuning" where
  "try_threshold xs t best =
     (let cm = classified xs t; s = f1_score cm in
      if tn_score best < s then \<lparr>tn_threshold = Some t, tn_score = round_float 4 s, tn_counts = cm\<rparr> else best)"

definition observed_scores :: "(rat \<times> rat) list \<Rightarrow> rat list" where
  "observed_scores xs = sort (remdups (map fst xs))"

definition candidates :: "(rat \<times> rat) list \<Rightarrow> rat list" where
  "candidates xs =
     (let ss = observed_scores xs in
      map (\<lambda>(a, b). fdiv (fadd a b) 2) (zip ss (tl ss)) @ [fsub (hd ss) 1, fadd (last ss) 1])"

definition no_counts :: counts where
  "no_counts = \<lparr>tp = 0, fp = 0, tn = 0, fn = 0\<rparr>"

definition optimize_threshold :: "(rat \<times> rat) list \<Rightarrow> tuning" where
  "optimize_threshold xs =
     (if length xs < 2 then \<lparr>tn_threshold = None, tn_score = 0, tn_counts = no_counts\<rparr>
      else fold (try_threshold xs) (candidates xs) \<lparr>tn_threshold = None, tn_score = -1, tn_counts = no_counts\<rparr>)"

section \<open>The weight of a feature\<close>

record reweighting =
  rw_correlation :: rat
  rw_current :: rat
  rw_suggested :: rat
  rw_change :: rat
  rw_explanation :: fstring

definition reweight_feature :: "rat list \<Rightarrow> rat list \<Rightarrow> rat \<Rightarrow> rat \<Rightarrow> rat \<Rightarrow> reweighting py" where
  "reweight_feature vals errs current min_weight max_scale =
     bindR (pearson vals errs) (\<lambda>corr.
       (let factor = max (fl (1 / 5)) (fsub 1 corr);
            suggested = max min_weight (min (fmul current factor) (fmul current max_scale));
            change = (if current \<noteq> 0 then fdiv (fsub suggested current) current else 0)
        in Inr \<lparr>rw_correlation = round_float 4 corr, rw_current = current, rw_suggested = round_float 4 suggested,
                rw_change = round_float 4 change,
                rw_explanation = [Lit ''Feature value correlates with prediction error (r='', Fix 3 corr, Lit ''); weight '',
                  Fix 4 current, Lit '' -> '', Fix 4 suggested, Lit '' ('', SgnPct 1 change, Lit '')'']\<rparr>))"

section \<open>Issues\<close>

datatype decision_type = RULE_DECISION | PROMPT_DECISION | AI_DECISION | MATCH_DECISION | RANKING_DECISION

datatype prediction_type = PROFIT_PREDICTION | SALES_PREDICTION | ROI_PREDICTION | RISK_PREDICTION

fun issue_type_of :: "decision_type \<Rightarrow> string" where
  "issue_type_of RULE_DECISION = ''bad_rule''"
| "issue_type_of PROMPT_DECISION = ''weak_prompt''"
| "issue_type_of AI_DECISION = ''poor_decision''"
| "issue_type_of MATCH_DECISION = ''incorrect_match''"
| "issue_type_of RANKING_DECISION = ''ranking_mistake''"

fun targets_of :: "decision_type \<Rightarrow> string list" where
  "targets_of RULE_DECISION = [''rule_threshold'']"
| "targets_of PROMPT_DECISION = [''prompt'']"
| "targets_of AI_DECISION = [''prompt'']"
| "targets_of MATCH_DECISION = [''matching_algorithm'']"
| "targets_of RANKING_DECISION = [''matching_algorithm'']"

text \<open>\<open>FORECAST_METRICS\<close>\<close>

fun forecast_metric :: "prediction_type \<Rightarrow> bool" where
  "forecast_metric RISK_PREDICTION = False"
| "forecast_metric _ = True"

text \<open>A feature is read by three keys only; its name is a text.\<close>

record feature =
  ft_name :: "string option"
  ft_value :: json
  ft_weight :: json

record view =
  vw_type :: prediction_type
  vw_decision :: decision_type
  vw_decision_id :: "string option"
  vw_model :: string
  vw_pred :: rat
  vw_actual :: "rat option"
  vw_features :: "feature list"
  vw_at :: int

definition group_id :: "view \<Rightarrow> string" where
  "group_id v =
     (case vw_decision_id v of
        Some i \<Rightarrow> if i \<noteq> [] then i else if vw_model v \<noteq> [] then vw_model v else ''global''
      | None \<Rightarrow> if vw_model v \<noteq> [] then vw_model v else ''global'')"

text \<open>A \<open>dict\<close> of lists filled in one pass: the keys in the order of their first occurrence.\<close>

definition first_keys :: "('a \<Rightarrow> 'k) \<Rightarrow> 'a list \<Rightarrow> 'k list" where
  "first_keys key xs = rev (remdups (rev (map key xs)))"

definition grouped :: "('a \<Rightarrow> 'k) \<Rightarrow> 'a list \<Rightarrow> ('k \<times> 'a list) list" where
  "grouped key xs = map (\<lambda>k. (k, filter (\<lambda>x. key x = k) xs)) (first_keys key xs)"

definition tiny :: rat where
  "tiny = fl (1 / 10 ^ 9)"

definition accuracy_scale :: "accuracy \<Rightarrow> rat" where
  "accuracy_scale s = max (max tiny \<bar>ac_bias s\<bar>) (ac_mae s)"

definition severity_of :: "accuracy \<Rightarrow> rat" where
  "severity_of s =
     (let norm = (if tiny < accuracy_scale s then fdiv (ac_mae s) (accuracy_scale s) else 0) in
      fadd (fmul (fl (3 / 5)) (min 1 norm)) (fmul (fl (2 / 5)) (fsub 1 (ac_directional s))))"

definition mode_of :: "accuracy \<Rightarrow> string" where
  "mode_of s =
     (if fmul (fl (1 / 5)) (accuracy_scale s) < ac_bias s then ''over-prediction''
      else if ac_bias s < fmul (fl (- 1 / 5)) (accuracy_scale s) then ''under-prediction''
      else ''degraded accuracy'')"

record issue =
  is_type :: string
  is_decision :: decision_type
  is_decision_id :: string
  is_model :: string
  is_prediction :: prediction_type
  is_samples :: nat
  is_mae :: rat
  is_bias :: rat
  is_directional :: rat
  is_correlation :: rat
  is_severity :: rat
  is_mode :: string

definition resolved_views :: "view list \<Rightarrow> view list" where
  "resolved_views vs = filter (\<lambda>v. vw_actual v \<noteq> None) vs"

definition group_issue ::
    "libm \<Rightarrow> int \<Rightarrow> rat \<Rightarrow> (decision_type \<times> string) \<times> view list \<Rightarrow> issue option py" where
  "group_issue L min_samples threshold g =
     (case g of ((d, gid), vs) \<Rightarrow>
        if int (length vs) < min_samples then Inr None
        else bindR (accuracy_summary L (map (\<lambda>v. the (vw_actual v)) vs) (map vw_pred vs)) (\<lambda>s.
          if severity_of s < threshold then Inr None
          else Inr (Some
            \<lparr>is_type = issue_type_of d, is_decision = d, is_decision_id = gid, is_model = vw_model (hd vs),
             is_prediction = vw_type (hd vs), is_samples = length vs, is_mae = ac_mae s, is_bias = ac_bias s,
             is_directional = ac_directional s, is_correlation = ac_correlation s,
             is_severity = round_float 4 (severity_of s), is_mode = mode_of s\<rparr>)))"

definition scan_issues :: "libm \<Rightarrow> int \<Rightarrow> rat \<Rightarrow> view list \<Rightarrow> issue list py" where
  "scan_issues L min_samples threshold vs =
     bindR (mapR (group_issue L min_samples threshold) (grouped (\<lambda>v. (vw_decision v, group_id v)) (resolved_views vs)))
       (\<lambda>xs. Inr (sort_desc is_severity (List.map_filter id xs)))"

end
