(* ===== verification/LearningManager.thy ===== *)
theory LearningManager
  imports LearningEngine StateMachine
begin

text \<open>
  The manager and the repository of the continuous-learning platform
  (\<open>app/learning/manager.py\<close>, \<open>repository.py\<close>, \<open>models.py\<close>, \<open>config.py\<close>): predictions and their
  outcomes, accuracy, comparison and dashboard, tuning, recommendations, and the learning
  cycle with its runs. The lengths to which schemas and columns limit texts are not checked.
\<close>

section \<open>Enumerations and configuration\<close>

fun ptype_value :: "prediction_type \<Rightarrow> string" where
  "ptype_value PROFIT_PREDICTION = ''profit''"
| "ptype_value SALES_PREDICTION = ''sales''"
| "ptype_value ROI_PREDICTION = ''roi''"
| "ptype_value RISK_PREDICTION = ''risk''"

definition all_ptypes :: "prediction_type list" where
  "all_ptypes = [PROFIT_PREDICTION, SALES_PREDICTION, ROI_PREDICTION, RISK_PREDICTION]"

fun dtype_value :: "decision_type \<Rightarrow> string" where
  "dtype_value RULE_DECISION = ''rule''"
| "dtype_value PROMPT_DECISION = ''prompt''"
| "dtype_value AI_DECISION = ''ai_decision''"
| "dtype_value MATCH_DECISION = ''match''"
| "dtype_value RANKING_DECISION = ''ranking''"

definition all_dtypes :: "decision_type list" where
  "all_dtypes = [RULE_DECISION, PROMPT_DECISION, AI_DECISION, MATCH_DECISION, RANKING_DECISION]"

definition read_ptype :: "string \<Rightarrow> prediction_type option" where
  "read_ptype s = find (\<lambda>t. ptype_value t = s) all_ptypes"

definition read_dtype :: "string \<Rightarrow> decision_type option" where
  "read_dtype s = find (\<lambda>t. dtype_value t = s) all_dtypes"

datatype run_status = CYCLE_RUNNING | CYCLE_COMPLETED | CYCLE_FAILED

datatype recommendation_status = REC_OPEN | REC_APPLIED | REC_DISMISSED

fun rec_value :: "recommendation_status \<Rightarrow> string" where
  "rec_value REC_OPEN = ''open''"
| "rec_value REC_APPLIED = ''applied''"
| "rec_value REC_DISMISSED = ''dismissed''"

definition read_rec_status :: "string \<Rightarrow> recommendation_status option" where
  "read_rec_status s = find (\<lambda>t. rec_value t = s) [REC_OPEN, REC_APPLIED, REC_DISMISSED]"

record learning_config =
  lc_enabled :: bool
  min_samples_for_issues :: int
  issue_severity_threshold :: rat
  rolling_window :: int
  default_rule_threshold :: rat
  rule_tune_min_delta :: rat
  rule_tune_min_improvement :: rat
  feature_reweight_min_abs_corr :: rat
  max_predictions_per_scan :: nat
  max_recommendations_per_run :: nat
  lc_code_version :: string

datatype learning_error =
    LearningValidationError
  | LearningNotFoundError
  | MultipleRows
  | UniqueViolation
  | Raised py_error

section \<open>The tables\<close>

record 'i prediction =
  pd_id :: 'i
  pd_type :: prediction_type
  pd_subject :: string
  pd_decision :: decision_type
  pd_decision_id :: "string option"
  pd_model :: string
  pd_value :: rat
  pd_actual :: "rat option"
  pd_at :: int
  pd_outcome_at :: "int option"
  pd_features :: "feature list option"
  pd_context :: "(string \<times> json) list option"
  pd_external :: "string option"
  pd_created :: int

record recommendation =
  rc_target :: string
  rc_target_id :: string
  rc_issue :: string
  rc_severity :: rat
  rc_confidence :: rat
  rc_current :: "rat option"
  rc_proposed :: "rat option"
  rc_action :: fstring
  rc_explanation :: fstring
  rc_evidence :: "(string \<times> json) list"
  rc_status :: recommendation_status
  rc_model :: "string option"

record cycle_summary =
  cs_overall :: "accuracy option"
  cs_by_metric :: "(prediction_type \<times> accuracy) list"
  cs_series :: "(prediction_type \<times> (int \<times> accuracy) list) list"
  cs_issues :: "issue list"
  cs_recommendations :: "recommendation list"
  cs_rules :: "recommendation list"
  cs_features :: "recommendation list"
  cs_code_version :: string
  cs_scanned :: nat

record 'i learning_run =
  ru_id :: 'i
  ru_number :: nat
  ru_status :: run_status
  ru_params :: learning_config
  ru_summary :: "cycle_summary option"
  ru_started :: int
  ru_completed :: "int option"
  ru_created :: int

record 'i recommendation_row =
  rr_id :: 'i
  rr_run :: 'i
  rr_body :: recommendation
  rr_created :: int

record 'i learning =
  predictions :: "'i prediction list"
  learning_runs :: "'i learning_run list"
  recommendations :: "'i recommendation_row list"
  ids_drawn :: nat
  times_read :: nat

type_synonym ('i, 'a) learning_act = "('i learning, learning_error, 'a) act"

text \<open>
  The process: UUIDs, the clock, the C library, the square root of \<open>**\<close>, the parsing of
  \<open>float\<close>; and what the database adds to a transaction.
\<close>

record 'i learner =
  new_id :: "nat \<Rightarrow> 'i"
  time_at :: "nat \<Rightarrow> int"
  lr_libm :: libm
  half_power :: "nat \<Rightarrow> rat"
  text_float :: "string \<Rightarrow> rat py"
  lr_config :: learning_config

record 'i learning_tx =
  lt_start :: int
  newest_predicted :: "'i prediction list \<Rightarrow> 'i prediction list"
  oldest_created :: "'i prediction list \<Rightarrow> 'i prediction list"
  newest_created :: "'i prediction list \<Rightarrow> 'i prediction list"
  most_severe :: "'i recommendation_row list \<Rightarrow> 'i recommendation_row list"

definition lawful_learning :: "'i learning_tx \<Rightarrow> bool" where
  "lawful_learning E \<longleftrightarrow> orders_by (\<lambda>p. - pd_at p) (newest_predicted E)
     \<and> orders_by pd_created (oldest_created E)
     \<and> orders_by (\<lambda>p. - pd_created p) (newest_created E)
     \<and> (\<forall>rows. mset (most_severe E rows) = mset rows
          \<and> sorted (map (\<lambda>r. - rc_severity (rr_body r)) (most_severe E rows)))"

definition draw_id :: "'i learner \<Rightarrow> ('i, 'i) learning_act" where
  "draw_id P db = (Inr (new_id P (ids_drawn db)), db\<lparr>ids_drawn := Suc (ids_drawn db)\<rparr>)"

definition utc_now :: "'i learner \<Rightarrow> ('i, int) learning_act" where
  "utc_now P db = (Inr (time_at P (times_read db)), db\<lparr>times_read := Suc (times_read db)\<rparr>)"

definition liftP :: "'a py \<Rightarrow> ('i, 'a) learning_act" where
  "liftP r db = (case r of Inl e \<Rightarrow> (Inl (Raised e), db) | Inr x \<Rightarrow> (Inr x, db))"

section \<open>The repository\<close>

text \<open>\<open>external_id\<close> is unique; rows without one do not meet the constraint.\<close>

definition insert_prediction :: "'i prediction \<Rightarrow> ('i, 'i prediction) learning_act" where
  "insert_prediction p db =
     (if pd_external p \<noteq> None \<and> pd_external p \<in> set (map pd_external (predictions db)) then (Inl UniqueViolation, db)
      else (Inr p, db\<lparr>predictions := predictions db @ [p]\<rparr>))"

definition update_prediction :: "'i prediction \<Rightarrow> rat \<Rightarrow> int \<Rightarrow> ('i, unit) learning_act" where
  "update_prediction p actual t db =
     (Inr (), db\<lparr>predictions :=
        map (\<lambda>x. if pd_id x = pd_id p then x\<lparr>pd_actual := Some actual, pd_outcome_at := Some t\<rparr> else x) (predictions db)\<rparr>)"

definition get_by_external_id :: "string \<Rightarrow> ('i, 'i prediction option) learning_act" where
  "get_by_external_id k db =
     (case filter (\<lambda>p. pd_external p = Some k) (predictions db) of
        [] \<Rightarrow> (Inr None, db) | [p] \<Rightarrow> (Inr (Some p), db) | _ \<Rightarrow> (Inl MultipleRows, db))"

text \<open>A filter that is \<open>None\<close> or empty is not applied.\<close>

definition passes :: "string option \<Rightarrow> string option \<Rightarrow> bool" where
  "passes f x \<longleftrightarrow> f = None \<or> f = Some [] \<or> f = x"

definition unresolved_matches :: "string \<Rightarrow> string \<Rightarrow> string option \<Rightarrow> string option \<Rightarrow> 'i prediction \<Rightarrow> bool" where
  "unresolved_matches ty subject did model p \<longleftrightarrow>
     ptype_value (pd_type p) = ty \<and> pd_subject p = subject \<and> pd_actual p = None
     \<and> passes did (pd_decision_id p) \<and> passes model (Some (pd_model p))"

definition find_unresolved ::
  "'i learning_tx \<Rightarrow> string \<Rightarrow> string \<Rightarrow> string option \<Rightarrow> string option \<Rightarrow> 'i learning \<Rightarrow> 'i prediction list" where
  "find_unresolved E ty subject did model db =
     take 10 (newest_predicted E (filter (unresolved_matches ty subject did model) (predictions db)))"

definition page :: "nat \<Rightarrow> nat \<Rightarrow> 'a list \<Rightarrow> 'a list" where
  "page limit offset xs = take limit (drop offset xs)"

definition select_predictions ::
  "'i learning_tx \<Rightarrow> string option \<Rightarrow> string option \<Rightarrow> string option \<Rightarrow> bool \<Rightarrow> nat \<Rightarrow> nat
   \<Rightarrow> 'i learning \<Rightarrow> 'i prediction list \<times> nat" where
  "select_predictions E ty d model resolved limit offset db =
     (let rows = filter (\<lambda>p. passes ty (Some (ptype_value (pd_type p))) \<and> passes d (Some (dtype_value (pd_decision p)))
                   \<and> passes model (Some (pd_model p)) \<and> (resolved \<longrightarrow> pd_actual p \<noteq> None)) (predictions db) in
      (page limit offset (newest_created E rows), length rows))"

definition resolved_predictions ::
  "'i learning_tx \<Rightarrow> nat \<Rightarrow> string option \<Rightarrow> 'i learning \<Rightarrow> 'i prediction list" where
  "resolved_predictions E limit ty db =
     take limit (oldest_created E
       (filter (\<lambda>p. pd_actual p \<noteq> None \<and> passes ty (Some (ptype_value (pd_type p)))) (predictions db)))"

definition next_run_number :: "'i learning \<Rightarrow> nat" where
  "next_run_number db = (if learning_runs db = [] then 1 else Max (ru_number ` set (learning_runs db)) + 1)"

definition insert_run :: "'i learning_run \<Rightarrow> ('i, 'i learning_run) learning_act" where
  "insert_run r db =
     (if ru_number r \<in> set (map ru_number (learning_runs db)) then (Inl UniqueViolation, db)
      else (Inr r, db\<lparr>learning_runs := learning_runs db @ [r]\<rparr>))"

definition update_run :: "'i learning_run \<Rightarrow> ('i, 'i learning_run) learning_act" where
  "update_run r db =
     (Inr r, db\<lparr>learning_runs := map (\<lambda>x. if ru_id x = ru_id r then r else x) (learning_runs db)\<rparr>)"

text \<open>Run numbers are unique, so that the newest first is one order.\<close>

definition runs_newest :: "'i learning \<Rightarrow> 'i learning_run list" where
  "runs_newest db = rev (sort_key ru_number (learning_runs db))"

definition latest_run :: "'i learning \<Rightarrow> 'i learning_run option" where
  "latest_run db = (case runs_newest db of [] \<Rightarrow> None | r # _ \<Rightarrow> Some r)"

definition select_runs :: "nat \<Rightarrow> nat \<Rightarrow> 'i learning \<Rightarrow> 'i learning_run list \<times> nat" where
  "select_runs limit offset db = (page limit offset (runs_newest db), length (learning_runs db))"

definition insert_recommendation :: "'i recommendation_row \<Rightarrow> ('i, unit) learning_act" where
  "insert_recommendation r db = (Inr (), db\<lparr>recommendations := recommendations db @ [r]\<rparr>)"

definition select_recommendations ::
  "'i learning_tx \<Rightarrow> string option \<Rightarrow> string option \<Rightarrow> nat \<Rightarrow> nat \<Rightarrow> 'i learning \<Rightarrow> 'i recommendation_row list \<times> nat" where
  "select_recommendations E st target limit offset db =
     (let rows = filter (\<lambda>r. passes st (Some (rec_value (rc_status (rr_body r)))) \<and> passes target (Some (rc_target (rr_body r))))
                   (recommendations db) in
      (page limit offset (most_severe E rows), length rows))"

definition set_status :: "'i \<Rightarrow> recommendation_status \<Rightarrow> ('i, unit) learning_act" where
  "set_status i st db =
     (Inr (), db\<lparr>recommendations :=
        map (\<lambda>r. if rr_id r = i then r\<lparr>rr_body := (rr_body r)\<lparr>rc_status := st\<rparr>\<rparr> else r) (recommendations db)\<rparr>)"

record learning_stats =
  total_predictions :: nat
  resolved_count :: nat
  unresolved_count :: nat
  open_recommendations :: nat
  runs_completed :: nat
  last_run_number :: "nat option"
  by_prediction_type :: "(prediction_type \<times> nat) list"

text \<open>\<open>GROUP BY\<close> gives a row for every type that occurs.\<close>

definition learning_counts :: "'i learning \<Rightarrow> learning_stats" where
  "learning_counts db =
     (let ps = predictions db; resolved = length (filter (\<lambda>p. pd_actual p \<noteq> None) ps) in
      \<lparr>total_predictions = length ps, resolved_count = resolved, unresolved_count = length ps - resolved,
       open_recommendations = length (filter (\<lambda>r. rc_status (rr_body r) = REC_OPEN) (recommendations db)),
       runs_completed = length (filter (\<lambda>r. ru_status r = CYCLE_COMPLETED) (learning_runs db)),
       last_run_number = map_option ru_number (latest_run db),
       by_prediction_type = filter (\<lambda>(t, n). n \<noteq> 0) (map (\<lambda>t. (t, length (filter (\<lambda>p. pd_type p = t) ps))) all_ptypes)\<rparr>)"

section \<open>Recording\<close>

record prediction_create =
  pc_type :: string
  pc_subject :: string
  pc_decision :: string
  pc_decision_id :: "string option"
  pc_model :: string
  pc_value :: rat
  pc_at :: "int option"
  pc_features :: "feature list option"
  pc_context :: "(string \<times> json) list option"
  pc_external :: "string option"

definition nonempty :: "'a list option \<Rightarrow> 'a list option" where
  "nonempty x = (if x = Some [] then None else x)"

definition prediction_row ::
  "prediction_create \<Rightarrow> prediction_type \<Rightarrow> decision_type \<Rightarrow> int \<Rightarrow> int \<Rightarrow> 'i \<Rightarrow> 'i prediction" where
  "prediction_row r ty d t created i =
     \<lparr>pd_id = i, pd_type = ty, pd_subject = pc_subject r, pd_decision = d, pd_decision_id = pc_decision_id r,
      pd_model = pc_model r, pd_value = pc_value r, pd_actual = None, pd_at = t, pd_outcome_at = None,
      pd_features = nonempty (pc_features r), pd_context = nonempty (pc_context r),
      pd_external = pc_external r, pd_created = created\<rparr>"

text \<open>The row of an external id that is given and not empty\<close>

definition known_prediction :: "string option \<Rightarrow> ('i, 'i prediction option) learning_act" where
  "known_prediction k = (case nonempty k of None \<Rightarrow> retA None | Some k \<Rightarrow> get_by_external_id k)"

definition given_time :: "'i learner \<Rightarrow> int option \<Rightarrow> ('i, int) learning_act" where
  "given_time P t = (case t of Some t \<Rightarrow> retA t | None \<Rightarrow> utc_now P)"

definition record_prediction ::
  "'i learner \<Rightarrow> 'i learning_tx \<Rightarrow> prediction_create \<Rightarrow> ('i, 'i prediction) learning_act" where
  "record_prediction P E r =
     (if \<not> lc_enabled (lr_config P) then failA LearningValidationError
      else case read_ptype (pc_type r) of None \<Rightarrow> failA LearningValidationError | Some ty \<Rightarrow>
        (case read_dtype (pc_decision r) of None \<Rightarrow> failA LearningValidationError | Some d \<Rightarrow>
           bindA (known_prediction (pc_external r)) (\<lambda>old.
           case old of Some row \<Rightarrow> retA row | None \<Rightarrow>
             bindA (given_time P (pc_at r)) (\<lambda>t.
             bindA (draw_id P) (\<lambda>i.
             insert_prediction (prediction_row r ty d t (lt_start E) i))))))"

record outcome_create =
  oc_type :: string
  oc_subject :: string
  oc_actual :: rat
  oc_decision_id :: "string option"
  oc_model :: "string option"
  oc_external :: "string option"
  oc_at :: "int option"

fun resolve_all :: "'i prediction list \<Rightarrow> rat \<Rightarrow> int \<Rightarrow> ('i, nat) learning_act" where
  "resolve_all [] actual t = retA 0"
| "resolve_all (p # ps) actual t =
     bindA (update_prediction p actual t) (\<lambda>_. bindA (resolve_all ps actual t) (\<lambda>n. retA (Suc n)))"

definition outcome_rows :: "'i learning_tx \<Rightarrow> outcome_create \<Rightarrow> ('i, 'i prediction list) learning_act" where
  "outcome_rows E r =
     (if nonempty (oc_external r) = None
      then readA (find_unresolved E (oc_type r) (oc_subject r) (oc_decision_id r) (oc_model r))
      else bindA (known_prediction (oc_external r)) (\<lambda>p. retA (case p of None \<Rightarrow> [] | Some p \<Rightarrow> [p])))"

definition record_outcome :: "'i learner \<Rightarrow> 'i learning_tx \<Rightarrow> outcome_create \<Rightarrow> ('i, nat) learning_act" where
  "record_outcome P E r =
     bindA (given_time P (oc_at r)) (\<lambda>t.
     bindA (outcome_rows E r) (\<lambda>ps. resolve_all ps (oc_actual r) t))"

end
