(* ===== verification/LearningCycle.thy ===== *)
theory LearningCycle
  imports LearningManager
begin

text \<open>
  What the manager of the learning platform computes from the resolved predictions: accuracy,
  comparison, dashboard, the tuning of rules and features, recommendations, and the learning
  cycle that stores them (\<open>app/learning/manager.py\<close>).
\<close>

section \<open>Views of the rows\<close>

definition row_time :: "'i prediction \<Rightarrow> int" where
  "row_time p = (case pd_outcome_at p of Some t \<Rightarrow> t | None \<Rightarrow> pd_created p)"

definition row_view :: "'i prediction \<Rightarrow> view" where
  "row_view p =
     \<lparr>vw_type = pd_type p, vw_decision = pd_decision p, vw_decision_id = pd_decision_id p, vw_model = pd_model p,
      vw_pred = pd_value p, vw_actual = pd_actual p,
      vw_features = (case pd_features p of None \<Rightarrow> [] | Some fs \<Rightarrow> fs), vw_at = row_time p\<rparr>"

definition actuals :: "view list \<Rightarrow> rat list" where
  "actuals vs = map (\<lambda>v. the (vw_actual v)) vs"

definition preds :: "view list \<Rightarrow> rat list" where
  "preds vs = map vw_pred vs"

definition series_of :: "view \<Rightarrow> series_record" where
  "series_of v = \<lparr>sr_actual = the (vw_actual v), sr_pred = vw_pred v, sr_at = vw_at v\<rparr>"

definition views_of_type :: "prediction_type \<Rightarrow> view list \<Rightarrow> view list" where
  "views_of_type ty vs = filter (\<lambda>v. vw_type v = ty) vs"

section \<open>Accuracy, comparison, dashboard\<close>

text \<open>The manager's own drift: the plain sums, and the power binds tighter than the division.\<close>

definition quick_drift :: "'i learner \<Rightarrow> series_record list \<Rightarrow> drift_result py" where
  "quick_drift P rs =
     (if rs = [] then Inr no_drift
      else
        (let as = map sr_actual rs; n = length rs; mean = fdiv (float_sum as) (of_nat n);
             baseline = fdiv (float_sum (map (\<lambda>r. fsub (sr_pred r) (sr_actual r)) rs)) (of_nat n);
             recent = last_items 10 rs;
             now = fdiv (float_sum (map (\<lambda>r. fsub (sr_pred r) (sr_actual r)) recent)) (of_nat (length recent))
         in bindR (fdivE (float_sum (map (\<lambda>a. c_square (lr_libm P) (fsub a mean)) as)) (half_power P n)) (\<lambda>spread.
              Inr (drift_of now baseline (max (max (fl (1 / 10 ^ 9)) \<bar>baseline\<bar>) spread)))))"

record accuracy_read =
  ar_summary :: accuracy
  ar_drift :: drift_result
  ar_series :: "(int \<times> accuracy) list"

definition resolved_of :: "'i learner \<Rightarrow> 'i learning_tx \<Rightarrow> string option \<Rightarrow> 'i learning \<Rightarrow> 'i prediction list" where
  "resolved_of P E ty db = resolved_predictions E (max_predictions_per_scan (lr_config P)) ty db"

definition accuracy_of ::
  "'i learner \<Rightarrow> 'i learning_tx \<Rightarrow> string \<Rightarrow> string option \<Rightarrow> ('i, accuracy_read) learning_act" where
  "accuracy_of P E ty model =
     bindA (readA (resolved_of P E (Some ty))) (\<lambda>rows.
     (let vs = map row_view (filter (\<lambda>p. passes model (Some (pd_model p))) rows); rs = map series_of vs in
      bindA (liftP (accuracy_summary (lr_libm P) (actuals vs) (preds vs))) (\<lambda>s.
      bindA (liftP (quick_drift P rs)) (\<lambda>d.
      bindA (liftP (rolling_accuracy (lr_libm P) rs (rolling_window (lr_config P)))) (\<lambda>series.
      retA \<lparr>ar_summary = s, ar_drift = d, ar_series = series\<rparr>)))))"

record compared =
  cp_type :: prediction_type
  cp_samples :: nat
  predicted_mean :: rat
  actual_mean :: rat
  cp_summary :: accuracy

definition rounded_mean :: "rat list \<Rightarrow> rat" where
  "rounded_mean xs = round_float 6 (fdiv (float_sum xs) (of_nat (length xs)))"

text \<open>The mean of the actual values is stored as the predicted one and the other way round.\<close>

definition compare_type :: "libm \<Rightarrow> prediction_type \<Rightarrow> view list \<Rightarrow> compared py" where
  "compare_type L ty vs =
     bindR (accuracy_summary L (actuals vs) (preds vs)) (\<lambda>s.
       Inr \<lparr>cp_type = ty, cp_samples = length vs, predicted_mean = rounded_mean (actuals vs),
            actual_mean = rounded_mean (preds vs), cp_summary = s\<rparr>)"

definition typed_views :: "'i learner \<Rightarrow> 'i learning_tx \<Rightarrow> 'i learning \<Rightarrow> (prediction_type \<times> view list) list" where
  "typed_views P E db =
     filter (\<lambda>(ty, vs). vs \<noteq> []) (map (\<lambda>ty. (ty, map row_view (resolved_of P E (Some (ptype_value ty)) db))) all_ptypes)"

definition comparisons :: "'i learner \<Rightarrow> 'i learning_tx \<Rightarrow> ('i, compared list) learning_act" where
  "comparisons P E =
     bindA (readA (typed_views P E)) (\<lambda>tvs. liftP (mapR (\<lambda>(ty, vs). compare_type (lr_libm P) ty vs) tvs))"

record model_accuracy =
  ma_model :: string
  ma_type :: prediction_type
  ma_decision :: decision_type
  ma_samples :: nat
  ma_summary :: accuracy
  ma_severity :: rat

definition model_group ::
  "libm \<Rightarrow> prediction_type \<Rightarrow> (string \<times> decision_type) \<times> view list \<Rightarrow> model_accuracy py" where
  "model_group L ty g =
     (case g of ((m, d), vs) \<Rightarrow>
        bindR (accuracy_summary L (actuals vs) (preds vs)) (\<lambda>s.
        (let scale = max (max (fl (1 / 10 ^ 9)) \<bar>ac_bias s\<bar>) (ac_mae s) in
         Inr \<lparr>ma_model = m, ma_type = ty, ma_decision = d, ma_samples = length vs, ma_summary = s,
              ma_severity = round_float 4 (fadd (fmul (fl (3 / 5)) (min 1 (fdiv (ac_mae s) scale)))
                                                (fmul (fl (2 / 5)) (fsub 1 (ac_directional s))))\<rparr>)))"

definition model_accuracies :: "libm \<Rightarrow> view list \<Rightarrow> model_accuracy list py" where
  "model_accuracies L vs = mapR (model_group L (vw_type (hd vs))) (grouped (\<lambda>v. (vw_model v, vw_decision v)) vs)"

text \<open>The measures of every type that has views, and those of all together\<close>

definition measure_type ::
  "libm \<Rightarrow> int \<Rightarrow> prediction_type \<times> view list \<Rightarrow> (prediction_type \<times> accuracy \<times> (int \<times> accuracy) list) py" where
  "measure_type L window tv =
     (case tv of (ty, vs) \<Rightarrow>
        bindR (accuracy_summary L (actuals vs) (preds vs)) (\<lambda>s.
        bindR (rolling_accuracy L (map series_of vs) window) (\<lambda>r. Inr (ty, s, r))))"

definition overall_of :: "libm \<Rightarrow> (prediction_type \<times> view list) list \<Rightarrow> accuracy option py" where
  "overall_of L tvs =
     (let vs = concat (map snd tvs) in
      if vs = [] then Inr None else bindR (accuracy_summary L (actuals vs) (preds vs)) (\<lambda>s. Inr (Some s)))"

record learning_dashboard =
  db_overall :: "accuracy option"
  db_by_metric :: "(prediction_type \<times> accuracy) list"
  db_models :: "model_accuracy list"
  db_open :: nat
  db_last_run :: "nat option"
  db_series :: "(prediction_type \<times> (int \<times> accuracy) list) list"

definition dashboard_of :: "'i learner \<Rightarrow> 'i learning_tx \<Rightarrow> ('i, learning_dashboard) learning_act" where
  "dashboard_of P E =
     bindA (readA (typed_views P E)) (\<lambda>tvs.
     bindA (liftP (mapR (\<lambda>tv. bindR (measure_type (lr_libm P) (rolling_window (lr_config P)) tv) (\<lambda>m.
                          bindR (model_accuracies (lr_libm P) (snd tv)) (\<lambda>ms. Inr (m, ms)))) tvs)) (\<lambda>xs.
     bindA (liftP (overall_of (lr_libm P) tvs)) (\<lambda>overall.
     bindA (readA learning_counts) (\<lambda>st.
     retA \<lparr>db_overall = overall, db_by_metric = map (\<lambda>((ty, s, r), ms). (ty, s)) xs,
           db_models = sort_desc ma_severity (concat (map snd xs)),
           db_open = open_recommendations st, db_last_run = last_run_number st,
           db_series = map (\<lambda>((ty, s, r), ms). (ty, r)) xs\<rparr>))))"

section \<open>The tuning of a rule\<close>

text \<open>\<open>float(x)\<close>\<close>

fun to_float :: "'i learner \<Rightarrow> json \<Rightarrow> rat py" where
  "to_float P (JBool b) = Inr (if b then 1 else 0)"
| "to_float P (JInt n) = Inr (fl (of_int n))"
| "to_float P (JFloat x) = Inr x"
| "to_float P (JStr s) = text_float P s"
| "to_float P v = Inl TypeError"

text \<open>The value of the last feature called \<open>score\<close>\<close>

definition score_feature :: "feature list \<Rightarrow> json" where
  "score_feature fs = (case find (\<lambda>f. ft_name f = Some ''score'') (rev fs) of None \<Rightarrow> JNull | Some f \<Rightarrow> ft_value f)"

definition binary :: "view \<Rightarrow> bool" where
  "binary v \<longleftrightarrow> vw_actual v = Some 0 \<or> vw_actual v = Some 1"

definition scored_rule :: "view \<Rightarrow> bool" where
  "scored_rule v \<longleftrightarrow> vw_decision v = RULE_DECISION \<and> binary v \<and> score_feature (vw_features v) \<noteq> JNull"

definition rule_pair :: "'i learner \<Rightarrow> view \<Rightarrow> (rat \<times> rat) py" where
  "rule_pair P v = bindR (to_float P (score_feature (vw_features v))) (\<lambda>s. Inr (s, the (vw_actual v)))"

text \<open>\<open>_f1_at\<close> counts as the engine does.\<close>

definition f1_at :: "(rat \<times> rat) list \<Rightarrow> rat \<Rightarrow> rat" where
  "f1_at pairs t = f1_score (classified pairs t)"

record rule_tuning =
  rt_decision :: string
  rt_current :: rat
  rt_proposed :: rat
  rt_current_score :: rat
  rt_proposed_score :: rat
  rt_improvement :: rat
  rt_samples :: nat
  rt_counts :: counts
  rt_applied :: bool

definition proposed_threshold :: "tuning \<Rightarrow> rat py" where
  "proposed_threshold b = (case tn_threshold b of None \<Rightarrow> Inl TypeError | Some t \<Rightarrow> Inr t)"

definition worth_tuning :: "learning_config \<Rightarrow> rat \<Rightarrow> rat \<Rightarrow> bool" where
  "worth_tuning c proposed improvement \<longleftrightarrow>
     rule_tune_min_delta c \<le> \<bar>fsub proposed (default_rule_threshold c)\<bar> \<and> rule_tune_min_improvement c \<le> improvement"

definition tune_rule :: "learning_config \<Rightarrow> string \<Rightarrow> (rat \<times> rat) list \<Rightarrow> rule_tuning py" where
  "tune_rule c i pairs =
     (let best = optimize_threshold pairs; current = f1_at pairs (default_rule_threshold c);
          improvement = fsub (tn_score best) current in
      bindR (proposed_threshold best) (\<lambda>t.
        Inr \<lparr>rt_decision = i, rt_current = default_rule_threshold c, rt_proposed = t,
             rt_current_score = round_float 4 current, rt_proposed_score = tn_score best,
             rt_improvement = round_float 4 improvement, rt_samples = length pairs, rt_counts = tn_counts best,
             rt_applied = worth_tuning c t improvement\<rparr>))"

definition optimize_rule :: "'i learner \<Rightarrow> 'i learning_tx \<Rightarrow> string \<Rightarrow> ('i, rule_tuning) learning_act" where
  "optimize_rule P E i =
     bindA (readA (resolved_of P E None)) (\<lambda>rows.
     bindA (liftP (mapR (rule_pair P)
       (filter (\<lambda>v. vw_decision_id v = Some i \<and> scored_rule v) (map row_view rows)))) (\<lambda>pairs.
     if length pairs < 2 then failA LearningNotFoundError
     else liftP (tune_rule (lr_config P) i pairs)))"

definition reweight :: "'i learner \<Rightarrow> rat list \<Rightarrow> rat list \<Rightarrow> rat \<Rightarrow> ('i, reweighting) learning_act" where
  "reweight P vals errs current = liftP (reweight_feature vals errs current (fl (1 / 20)) 2)"

section \<open>Recommendations\<close>

definition issue_targets :: "issue \<Rightarrow> string list" where
  "issue_targets i =
     (let ts = targets_of (is_decision i) in
      if forecast_metric (is_prediction i) \<and> ''forecast_model'' \<notin> set ts then ts @ [''forecast_model''] else ts)"

definition over_outcomes :: "issue \<Rightarrow> fstring" where
  "over_outcomes i = [Txt (is_mode i), Lit '' over '', Num (of_nat (is_samples i)), Lit '' outcomes'']"

definition named :: "issue \<Rightarrow> fstring" where
  "named i = [Uni 39, Txt (is_decision_id i), Uni 39, Lit '' (model '', Txt (is_model i), Lit '')'']"

definition action_for :: "issue \<Rightarrow> string \<Rightarrow> fstring" where
  "action_for i target =
     (if target = ''rule_threshold'' then
        [Lit ''Tune the rule threshold for decision ''] @ named i @ [Lit '' '', Uni 8212, Lit '' observed '']
        @ over_outcomes i @ [Lit ''.'']
      else if target = ''prompt'' then
        [Lit ''Rewrite prompt ''] @ named i @ [Lit '' and A/B the revised prompt against the current version; '']
        @ over_outcomes i @ [Lit ''.'']
      else if target = ''matching_algorithm'' then
        [Lit ''Retrain / re-parametrize the matching or ranking algorithm for ''] @ named i
        @ [Lit ''; validate via a scoring comparison experiment. ''] @ over_outcomes i @ [Lit ''.'']
      else if target = ''forecast_model'' then
        [Lit ''Version-bump the forecast model producing '', Txt (ptype_value (is_prediction i)), Lit '' for ''] @ named i
        @ [Lit ''; compare revised MAE on the same series. ''] @ over_outcomes i @ [Lit ''.'']
      else
        [Lit ''Review feature weights for '', Uni 39, Txt (is_decision_id i), Uni 39, Lit '' '', Uni 8212, Lit '' '']
        @ over_outcomes i @ [Lit ''.''])"

definition evidence_for :: "issue \<Rightarrow> string \<Rightarrow> (string \<times> json) list" where
  "evidence_for i target =
     (if target = ''rule_threshold'' then
        [(''mae'', JFloat (is_mae i)), (''bias'', JFloat (is_bias i)), (''directional_accuracy'', JFloat (is_directional i))]
      else if target = ''matching_algorithm'' then
        [(''directional_accuracy'', JFloat (is_directional i)), (''correlation'', JFloat (is_correlation i))]
      else if target = ''prompt'' \<or> target = ''forecast_model'' then
        [(''mae'', JFloat (is_mae i)), (''bias'', JFloat (is_bias i))]
      else [(''bias'', JFloat (is_bias i)), (''mae'', JFloat (is_mae i))])"

definition issue_explanation :: "issue \<Rightarrow> fstring" where
  "issue_explanation i =
     [Lit ''Decision '', Uni 39, Txt (is_decision_id i), Uni 39, Lit '' ('', Txt (ptype_value (is_prediction i)),
      Lit '', model '', Txt (is_model i), Lit '') shows '', Txt (is_mode i), Lit '' with MAE '', Fix 4 (is_mae i),
      Lit '' and directional accuracy '', Pct 2 (is_directional i), Lit '' over '', Num (of_nat (is_samples i)),
      Lit '' resolved outcomes.'']"

definition build_recommendation :: "learning_config \<Rightarrow> issue \<Rightarrow> string \<Rightarrow> recommendation" where
  "build_recommendation c i target =
     \<lparr>rc_target = target, rc_target_id = is_decision_id i, rc_issue = is_type i, rc_severity = is_severity i,
      rc_confidence = min 1 (fadd (fl (3 / 10))
        (fmul (fl (7 / 10)) (fdiv (of_nat (is_samples i)) (of_int (max 1 (min_samples_for_issues c * 4)))))),
      rc_current = (if target = ''rule_threshold'' then Some (default_rule_threshold c) else None),
      rc_proposed = None, rc_action = action_for i target, rc_explanation = issue_explanation i,
      rc_evidence = evidence_for i target, rc_status = REC_OPEN, rc_model = Some (is_model i)\<rparr>"

definition recommendations_for_issues :: "learning_config \<Rightarrow> issue list \<Rightarrow> recommendation list" where
  "recommendations_for_issues c is = concat (map (\<lambda>i. map (build_recommendation c i) (issue_targets i)) is)"

text \<open>The model version is that of the first view of all, not of the group.\<close>

definition rule_recommendation ::
  "learning_config \<Rightarrow> string option \<Rightarrow> string \<Rightarrow> (rat \<times> rat) list \<Rightarrow> recommendation option py" where
  "rule_recommendation c model gid pairs =
     (let best = optimize_threshold pairs; current = f1_at pairs (default_rule_threshold c);
          improvement = fsub (tn_score best) current; n = length pairs; m = tn_counts best in
      bindR (proposed_threshold best) (\<lambda>t.
        Inr (if \<not> worth_tuning c t improvement then None
             else Some
               \<lparr>rc_target = ''rule_threshold'', rc_target_id = gid, rc_issue = ''bad_rule'',
                rc_severity = round_float 4 (fsub 1 (tn_score best)),
                rc_confidence = min 1 (fadd (fl (2 / 5)) (fmul (fl (3 / 5)) (fdiv (of_nat n) 20))),
                rc_current = Some (default_rule_threshold c), rc_proposed = Some t,
                rc_action = [Lit ''Auto-tuned rule threshold for '', Uni 39, Txt gid, Uni 39, Lit '' from '',
                  Fix 3 (default_rule_threshold c), Lit '' to '', Fix 3 t, Lit '' (F1 '', Fix 3 current, Lit '' -> '',
                  Fix 3 (tn_score best), Lit '').''],
                rc_explanation = [Lit ''Optimising the classification threshold over '', Num (of_nat n),
                  Lit '' binary outcomes improves F1 by '', Fix 3 improvement, Lit ''.''],
                rc_evidence = [(''threshold'', JFloat t), (''f1_current'', JFloat (round_float 4 current)),
                  (''f1_proposed'', JFloat (tn_score best)), (''sample_size'', JInt (int n)), (''tp'', JInt (int (tp m))),
                  (''fp'', JInt (int (fp m))), (''tn'', JInt (int (tn m))), (''fn'', JInt (int (fn m)))],
                rc_status = REC_APPLIED, rc_model = model\<rparr>)))"

definition auto_tune_rules :: "'i learner \<Rightarrow> view list \<Rightarrow> recommendation list py" where
  "auto_tune_rules P vs =
     bindR (mapR (\<lambda>v. bindR (rule_pair P v) (\<lambda>p. Inr (group_id v, p))) (filter scored_rule vs)) (\<lambda>ps.
     bindR (mapR (\<lambda>(gid, ps).
         if int (length ps) < min_samples_for_issues (lr_config P) then Inr None
         else rule_recommendation (lr_config P) (if vs = [] then None else Some (vw_model (hd vs))) gid (map snd ps))
       (grouped fst ps)) (\<lambda>rs. Inr (List.map_filter id rs)))"

fun is_number :: "json \<Rightarrow> bool" where
  "is_number (JBool b) = True"
| "is_number (JInt n) = True"
| "is_number (JFloat x) = True"
| "is_number v = False"

text \<open>A feature with a name and a number, the error of its prediction, and its weight\<close>

definition weighed :: "feature \<Rightarrow> bool" where
  "weighed f \<longleftrightarrow> nonempty (ft_name f) \<noteq> None \<and> is_number (ft_value f)"

definition feature_entry :: "'i learner \<Rightarrow> rat \<Rightarrow> feature \<Rightarrow> (string \<times> rat \<times> rat \<times> rat) py" where
  "feature_entry P err f =
     bindR (if truthy (ft_weight f) then to_float P (ft_weight f) else Inr 1) (\<lambda>w.
     bindR (to_float P (ft_value f)) (\<lambda>x. Inr (the (ft_name f), x, err, w)))"

definition feature_entries :: "'i learner \<Rightarrow> view list \<Rightarrow> (string \<times> rat \<times> rat \<times> rat) list py" where
  "feature_entries P vs =
     bindR (mapR (\<lambda>v. mapR (feature_entry P (fsub (vw_pred v) (the (vw_actual v)))) (filter weighed (vw_features v)))
       (resolved_views vs)) (\<lambda>xss. Inr (concat xss))"

definition feature_recommendation ::
  "learning_config \<Rightarrow> string \<Rightarrow> (string \<times> rat \<times> rat \<times> rat) list \<Rightarrow> recommendation option py" where
  "feature_recommendation c name es =
     (let vals = map (\<lambda>(n, x, e, w). x) es; errs = map (\<lambda>(n, x, e, w). e) es;
          current = fdiv (float_sum (map (\<lambda>(n, x, e, w). w) es)) (of_nat (length es)) in
      bindR (reweight_feature vals errs current (fl (1 / 20)) 2) (\<lambda>r.
        Inr (if \<bar>rw_correlation r\<bar> < feature_reweight_min_abs_corr c then None
             else Some
               \<lparr>rc_target = ''feature_weight'', rc_target_id = name, rc_issue = ''poor_decision'',
                rc_severity = round_float 4 \<bar>rw_correlation r\<bar>, rc_confidence = fl (3 / 5),
                rc_current = Some (rw_current r), rc_proposed = Some (rw_suggested r),
                rc_action = [Lit ''Adjust feature '', Uni 39, Txt name, Uni 39, Lit '' weight from '', Fix 4 (rw_current r),
                  Lit '' to '', Fix 4 (rw_suggested r), Lit ''.''],
                rc_explanation = rw_explanation r,
                rc_evidence = [(''correlation'', JFloat (rw_correlation r)), (''sample_size'', JInt (int (length es)))],
                rc_status = REC_OPEN, rc_model = None\<rparr>)))"

definition auto_reweight :: "'i learner \<Rightarrow> view list \<Rightarrow> recommendation list py" where
  "auto_reweight P vs =
     bindR (feature_entries P vs) (\<lambda>es.
     bindR (mapR (\<lambda>(name, es).
         if int (length es) < min_samples_for_issues (lr_config P) then Inr None
         else feature_recommendation (lr_config P) name es) (grouped fst es)) (\<lambda>rs. Inr (List.map_filter id rs)))"

definition scan_stored :: "'i learner \<Rightarrow> 'i learning_tx \<Rightarrow> ('i, issue list) learning_act" where
  "scan_stored P E =
     bindA (readA (resolved_of P E None)) (\<lambda>rows.
       liftP (scan_issues (lr_libm P) (min_samples_for_issues (lr_config P)) (issue_severity_threshold (lr_config P))
         (map row_view rows)))"

section \<open>The learning cycle\<close>

text \<open>What a cycle computes: a function of the configuration and the views.\<close>

definition cycle_result :: "'i learner \<Rightarrow> view list \<Rightarrow> cycle_summary py" where
  "cycle_result P vs =
     (let c = lr_config P; L = lr_libm P;
          tvs = filter (\<lambda>(ty, xs). xs \<noteq> []) (map (\<lambda>ty. (ty, views_of_type ty vs)) all_ptypes) in
      bindR (mapR (measure_type L (rolling_window c)) tvs) (\<lambda>ms.
      bindR (overall_of L tvs) (\<lambda>overall.
      bindR (scan_issues L (min_samples_for_issues c) (issue_severity_threshold c) vs) (\<lambda>is.
      bindR (auto_tune_rules P vs) (\<lambda>rules.
      bindR (auto_reweight P vs) (\<lambda>feats.
        Inr \<lparr>cs_overall = overall, cs_by_metric = map (\<lambda>(ty, s, r). (ty, s)) ms,
             cs_series = map (\<lambda>(ty, s, r). (ty, r)) ms, cs_issues = is,
             cs_recommendations = take (max_recommendations_per_run c) (recommendations_for_issues c is @ rules @ feats),
             cs_rules = rules, cs_features = feats, cs_code_version = lc_code_version c,
             cs_scanned = length vs\<rparr>))))))"

fun store_recommendations ::
  "'i learner \<Rightarrow> 'i learning_tx \<Rightarrow> 'i \<Rightarrow> recommendation list \<Rightarrow> ('i, unit) learning_act" where
  "store_recommendations P E run [] = retA ()"
| "store_recommendations P E run (r # rs) =
     bindA (draw_id P) (\<lambda>i.
     bindA (insert_recommendation \<lparr>rr_id = i, rr_run = run, rr_body = r, rr_created = lt_start E\<rparr>) (\<lambda>_.
     store_recommendations P E run rs))"

definition run_cycle :: "'i learner \<Rightarrow> 'i learning_tx \<Rightarrow> ('i, 'i learning_run) learning_act" where
  "run_cycle P E =
     (if \<not> lc_enabled (lr_config P) then failA LearningValidationError
      else
        bindA (readA (resolved_of P E None)) (\<lambda>rows.
        bindA (liftP (cycle_result P (map row_view rows))) (\<lambda>s.
        bindA (readA next_run_number) (\<lambda>n.
        bindA (utc_now P) (\<lambda>t.
        bindA (draw_id P) (\<lambda>i.
        bindA (insert_run \<lparr>ru_id = i, ru_number = n, ru_status = CYCLE_RUNNING, ru_params = lr_config P, ru_summary = None,
                 ru_started = t, ru_completed = None, ru_created = lt_start E\<rparr>) (\<lambda>run.
        bindA (store_recommendations P E i (cs_recommendations s)) (\<lambda>_.
        bindA (utc_now P) (\<lambda>t'.
        update_run (run\<lparr>ru_status := CYCLE_COMPLETED, ru_summary := Some s, ru_completed := Some t'\<rparr>))))))))))"

definition get_run :: "'i \<Rightarrow> ('i, 'i learning_run) learning_act" where
  "get_run i db =
     (case find (\<lambda>r. ru_id r = i) (learning_runs db) of
        None \<Rightarrow> (Inl LearningNotFoundError, db) | Some r \<Rightarrow> (Inr r, db))"

definition update_recommendation :: "'i \<Rightarrow> string option \<Rightarrow> ('i, unit) learning_act" where
  "update_recommendation i st db =
     (case find (\<lambda>r. rr_id r = i) (recommendations db) of
        None \<Rightarrow> (Inl LearningNotFoundError, db)
      | Some r \<Rightarrow>
          (case st of None \<Rightarrow> (Inl LearningValidationError, db)
           | Some s \<Rightarrow> (case read_rec_status s of None \<Rightarrow> (Inl LearningValidationError, db) | Some x \<Rightarrow> set_status i x db)))"

section \<open>The report\<close>

definition metric_line :: "fstring \<Rightarrow> nat \<Rightarrow> accuracy \<Rightarrow> fstring" where
  "metric_line name n s =
     [Lit ''| ''] @ name @ [Lit '' | '', Num (of_nat n), Lit '' | '', Fix 4 (ac_mae s), Lit '' | '', Sgn 4 (ac_bias s),
      Lit '' | '', Pct 2 (ac_directional s), Lit '' | '', Fix 3 (ac_correlation s), Lit '' |'']"

definition issue_line :: "issue \<Rightarrow> fstring" where
  "issue_line i =
     [Lit ''| '', Txt (is_type i), Lit '' | '', Txt (is_decision_id i), Lit '' | '', Txt (ptype_value (is_prediction i)),
      Lit '' | '', Num (of_nat (is_samples i)), Lit '' | '', Fix 3 (is_severity i), Lit '' | '', Txt (is_mode i), Lit '' |'']"

definition recommendation_line :: "recommendation \<Rightarrow> fstring" where
  "recommendation_line r =
     [Lit ''| '', Txt (rc_target r), Lit '' | '', Txt (if rc_target_id r = [] then ''-'' else rc_target_id r), Lit '' | '']
     @ rc_action r @ [Lit '' | '', Fix 3 (rc_severity r), Lit '' |'']"

definition version_shown :: "learning_config \<Rightarrow> string" where
  "version_shown c = (if lc_code_version c = [] then ''unknown'' else lc_code_version c)"

definition metric_lines :: "libm \<Rightarrow> view list \<Rightarrow> fstring list py" where
  "metric_lines L vs =
     (let tvs = filter (\<lambda>(ty, xs). xs \<noteq> []) (map (\<lambda>ty. (ty, views_of_type ty vs)) all_ptypes) in
      bindR (mapR (\<lambda>(ty, xs). bindR (accuracy_summary L (actuals xs) (preds xs)) (\<lambda>s.
               Inr (metric_line [Txt (ptype_value ty)] (length xs) s))) tvs) (\<lambda>lines.
      bindR (overall_of L tvs) (\<lambda>overall.
        Inr (lines @ (case overall of None \<Rightarrow> []
                      | Some s \<Rightarrow> [metric_line [Lit ''**overall**''] (length (concat (map snd tvs))) s])))))"

definition learning_report :: "'i learner \<Rightarrow> 'i learning_tx \<Rightarrow> ('i, fstring list) learning_act" where
  "learning_report P E =
     (let c = lr_config P; L = lr_libm P in
      bindA (readA (resolved_of P E None)) (\<lambda>rows.
      (let vs = map row_view rows in
       bindA (liftP (scan_issues L (min_samples_for_issues c) (issue_severity_threshold c) vs)) (\<lambda>is.
       bindA (liftP (auto_tune_rules P vs)) (\<lambda>rules.
       bindA (liftP (auto_reweight P vs)) (\<lambda>feats.
       bindA (readA learning_counts) (\<lambda>st.
       bindA (liftP (metric_lines L vs)) (\<lambda>metrics.
       (let recs = recommendations_for_issues c is @ rules @ feats in
        retA
         ([[Lit ''# Continuous-learning report''], [], [Lit ''## Overview''],
           [Lit ''- Predictions recorded: '', Num (of_nat (total_predictions st))],
           [Lit ''- Resolved outcomes: '', Num (of_nat (resolved_count st))],
           [Lit ''- Open recommendations: '', Num (of_nat (open_recommendations st))],
           [Lit ''- Code version: '', Txt (version_shown c)], [],
           [Lit ''## Predicted vs actual''], [Lit ''| Metric | n | MAE | bias | directional | correlation |''],
           [Lit ''|---|---|---|---|---|---|'']] @ metrics @
          [[], [Lit ''## Automatically detected issues'']] @
          (if is = [] then [[Lit ''- No issues above the severity threshold.'']]
           else [[Lit ''| Issue | Decision | target | n | severity | mode |''], [Lit ''|---|---|---|---|---|---|'']]
             @ map issue_line is) @
          [[], [Lit ''## Improvement recommendations'']] @
          (if recs = [] then [[Lit ''- None (the model is within tolerance).'']]
           else [[Lit ''| Target | id | action | severity |''], [Lit ''|---|---|---|---|'']]
             @ map recommendation_line (take 50 recs)) @
          [[], [Lit ''## Reproducibility''],
           [Lit ''- All metrics, issues, tuned thresholds and reweights are pure functions of the stored outcomes; re-running reproduces them exactly.''],
           [Lit ''- This report reflects code version `'', Txt (version_shown c), Lit ''` and the current config snapshot.'']]))))))))))"

section \<open>Requests\<close>

datatype 'i learning_request =
    Predict prediction_create
  | Realise outcome_create
  | RunCycle
  | Judge 'i "string option"

text \<open>The session commits when the manager returns and rolls back when it raises.\<close>

definition committed :: "('i, 'a) learning_act \<Rightarrow> 'i learning \<Rightarrow> 'i learning" where
  "committed m db =
     (case m db of
        (Inr x, db') \<Rightarrow> db'
      | (Inl e, db') \<Rightarrow> db\<lparr>ids_drawn := ids_drawn db', times_read := times_read db'\<rparr>)"

fun serve_learning :: "'i learner \<Rightarrow> 'i learning_tx \<times> 'i learning_request \<Rightarrow> 'i learning \<Rightarrow> 'i learning" where
  "serve_learning P (E, Predict r) = committed (record_prediction P E r)"
| "serve_learning P (E, Realise r) = committed (record_outcome P E r)"
| "serve_learning P (E, RunCycle) = committed (run_cycle P E)"
| "serve_learning P (E, Judge i s) = committed (update_recommendation i s)"

definition empty_learning :: "'i learning" where
  "empty_learning = \<lparr>predictions = [], learning_runs = [], recommendations = [], ids_drawn = 0, times_read = 0\<rparr>"

end
