(* ===== verification/LearningProps.thy ===== *)
theory LearningProps
  imports LearningEngine
begin

text \<open>
  What the statistics guarantee: the threshold found is the best of all thresholds up to the
  rounding of the score, and every group with any error at all is reported as an issue.
\<close>

section \<open>Rounding\<close>

lemma fl_abs: "\<bar>fl x\<bar> = fl \<bar>x\<bar>"
  using flr.r_nonneg [of x] flr.r_nonneg [of "- x"] by (cases "0 \<le> x") (simp_all add: flr.r_minus abs_if)

lemma round_float_abs: "\<bar>round_float k x\<bar> = round_float k \<bar>x\<bar>"
  using round_float_mono [of 0 x k] round_float_mono [of x 0 k]
  by (cases "0 \<le> x") (simp_all add: round_float_minus abs_if)

lemma round_float_idem:
  assumes "\<bar>x\<bar> \<le> 4"
  shows "round_float 4 (round_float 4 x) = round_float 4 x"
proof -
  define n where "n = round_he (x * 10 ^ 4)"
  define y where "y = rat_of_int n / 10 ^ 4"
  have "\<bar>rat_of_int n\<bar> \<le> 40001"
    using abs_le_D1 [OF round_he_error [of "x * 10 ^ 4", folded n_def]] abs_le_D2 [OF round_he_error [of "x * 10 ^ 4", folded n_def]]
      abs_le_D1 [OF assms] abs_le_D2 [OF assms] by (intro abs_leI) simp_all
  then have "\<bar>y\<bar> \<le> 5" by (simp add: y_def)
  then have "\<bar>fl y - y\<bar> \<le> 5 / 2 ^ 53" using fl_error [of y] by (simp add: field_simps)
  then have "\<bar>fl y * 10 ^ 4 - of_int n\<bar> < 1 / 2"
    by (simp add: y_def abs_le_iff abs_less_iff field_simps)
  then have "round_he (fl y * 10 ^ 4) = n" by (rule round_he_eq)
  then show ?thesis unfolding round_float_def n_def [symmetric] y_def [symmetric] by (simp add: y_def)
qed

section \<open>The best threshold\<close>

lemma part_of_unit: "0 \<le> part_of a b \<and> part_of a b \<le> 1"
  using flr.r_ratio_unit [of "of_nat a" "of_nat (a + b)"] by (simp add: part_of_def)

lemma f1_bounds: "0 \<le> f1_score c \<and> f1_score c \<le> 4"
proof -
  define p where "p = part_of (tp c) (fp c)"
  define r where "r = part_of (tp c) (fn c)"
  have p: "0 \<le> p" "p \<le> 1" and r: "0 \<le> r" "r \<le> 1" using part_of_unit by (simp_all add: p_def r_def)
  have rr: "fl r = r" unfolding r_def part_of_def by (simp add: flr.r_idem)
  show ?thesis
  proof (cases "fadd p r = 0")
    case True
    then show ?thesis by (simp add: f1_score_def Let_def p_def r_def)
  next
    case False
    then have pos: "0 < p + r" using p r flr.r_eq_0_iff [of "p + r"] by (cases "p + r = 0") auto
    have d: "0 < fl (p + r)" "r \<le> fl (p + r)" using pos flr.r_pos_iff flr.r_mono [of r "p + r"] rr p by auto
    have "fl (2 * p) \<le> 2" using p flr.r_mono [of "2 * p" 2] by simp
    then have "fl (fl (2 * p) * r) \<le> fl (2 * r)" using r by (intro flr.r_mono mult_right_mono) auto
    also have "\<dots> \<le> 4 * r" using abs_le_D1 [OF fl_error [of "2 * r"]] r by simp
    finally have n: "fl (fl (2 * p) * r) \<le> 4 * fl (p + r)" using d by linarith
    have n0: "0 \<le> fl (fl (2 * p) * r)" using p r by (intro flr.r_nonneg mult_nonneg_nonneg) auto
    have "0 \<le> fl (fl (fl (2 * p) * r) / fl (p + r)) \<and> fl (fl (fl (2 * p) * r) / fl (p + r)) \<le> fl 4"
      using n n0 d by (intro conjI flr.r_nonneg flr.r_mono) (simp_all add: divide_le_eq)
    then show ?thesis using False by (simp add: f1_score_def Let_def p_def r_def)
  qed
qed

lemma f1_small: "\<bar>f1_score c\<bar> \<le> 4"
  using f1_bounds [of c] by simp

text \<open>What the loop keeps: its score is that of its threshold, and no candidate so far is better.\<close>

definition best_so_far :: "(rat \<times> rat) list \<Rightarrow> rat set \<Rightarrow> tuning \<Rightarrow> bool" where
  "best_so_far xs tried b \<longleftrightarrow>
     (\<forall>t \<in> tried. f1_score (classified xs t) \<le> tn_score b + 1 / 10000)
     \<and> (case tn_threshold b of
          None \<Rightarrow> tried = {} \<and> tn_score b = -1
        | Some t \<Rightarrow> t \<in> tried \<and> tn_score b = round_float 4 (f1_score (classified xs t)) \<and> tn_counts b = classified xs t)"

lemma try_threshold_best:
  assumes "best_so_far xs tried b"
  shows "best_so_far xs (insert t tried) (try_threshold xs t b)"
proof -
  let ?s = "f1_score (classified xs t)"
  show ?thesis
  proof (cases "tn_score b < ?s")
    case True
    have close: "?s \<le> round_float 4 ?s + 1 / 10000" using round_float_close [OF f1_small [of "classified xs t"]] by linarith
    have grows: "tn_score b \<le> round_float 4 ?s"
    proof (cases "tn_threshold b")
      case None
      then show ?thesis using assms f1_bounds [of "classified xs t"] round_float_mono [of 0 ?s 4]
        by (simp add: best_so_far_def)
    next
      case (Some u)
      then have u: "tn_score b = round_float 4 (f1_score (classified xs u))" using assms by (simp add: best_so_far_def)
      then have "round_float 4 (tn_score b) = tn_score b" by (simp add: round_float_idem f1_small)
      then show ?thesis using round_float_mono [of "tn_score b" ?s 4] True by simp
    qed
    have "f1_score (classified xs u) \<le> round_float 4 ?s + 1 / 10000" if "u \<in> tried" for u
      using assms that grows by (force simp: best_so_far_def)
    then show ?thesis using True close by (simp add: best_so_far_def try_threshold_def Let_def)
  next
    case False
    have "tn_threshold b \<noteq> None"
      using assms False f1_bounds [of "classified xs t"] by (auto simp: best_so_far_def split: option.splits)
    then show ?thesis using assms False by (auto simp: best_so_far_def try_threshold_def Let_def split: option.splits)
  qed
qed

lemma fold_try_threshold: "best_so_far xs tried b \<Longrightarrow> best_so_far xs (tried \<union> set ts) (fold (try_threshold xs) ts b)"
proof (induction ts arbitrary: tried b)
  case (Cons t ts)
  show ?case using Cons.IH [OF try_threshold_best [OF Cons.prems]] by simp
qed simp

text \<open>Between two neighbouring scores every threshold classifies alike.\<close>

lemma neighbours:
  assumes "sorted ss" and "ss \<noteq> []" and "hd ss < t" and "t \<le> last ss"
  shows "\<exists>a b. (a, b) \<in> set (zip ss (tl ss)) \<and> a < t \<and> t \<le> b \<and> (\<forall>s \<in> set ss. s \<le> a \<or> b \<le> s)"
  using assms
proof (induction ss)
  case (Cons x ss)
  show ?case
  proof (cases ss)
    case Nil
    then show ?thesis using Cons.prems by simp
  next
    case (Cons y ys)
    show ?thesis
    proof (cases "y < t")
      case False
      then show ?thesis using Cons.prems Cons by (intro exI [of _ x] exI [of _ y]) auto
    next
      case True
      then obtain a b where ab: "(a, b) \<in> set (zip ss (tl ss))" "a < t" "t \<le> b" "\<forall>s \<in> set ss. s \<le> a \<or> b \<le> s"
        using Cons.IH Cons.prems \<open>ss = y # ys\<close> by auto
      have "a \<in> set ss" using ab(1) by (rule set_zip_leftD)
      then have "x \<le> a" using Cons.prems(1) by auto
      then show ?thesis using ab \<open>ss = y # ys\<close> by (intro exI [of _ a] exI [of _ b]) auto
    qed
  qed
qed simp

text \<open>
  The scores are far enough apart for floats: the midpoint of neighbours separates them, and one
  more than the greatest score is greater.
\<close>

definition well_spaced :: "(rat \<times> rat) list \<Rightarrow> bool" where
  "well_spaced xs =
     (let ss = observed_scores xs in
      list_all (\<lambda>(a, b). a < fdiv (fadd a b) 2 \<and> fdiv (fadd a b) 2 \<le> b) (zip ss (tl ss))
      \<and> fsub (hd ss) 1 \<le> hd ss \<and> last ss < fadd (last ss) 1)"

lemma classified_cong:
  "(\<And>s. s \<in> set (map fst xs) \<Longrightarrow> t \<le> s \<longleftrightarrow> u \<le> s) \<Longrightarrow> classified xs t = classified xs u"
  unfolding classified_def by (intro arg_cong2 [where f = confusion_of] map_cong refl) force+

lemma sorted_ends:
  fixes s :: "'a::linorder"
  assumes "sorted ss" and "s \<in> set ss"
  shows "hd ss \<le> s \<and> s \<le> last ss"
  using assms by (induction ss) (auto split: if_splits intro: order_trans)

lemma candidate_covers:
  assumes "well_spaced xs" and "xs \<noteq> []"
  shows "\<exists>u \<in> set (candidates xs). classified xs t = classified xs u"
proof -
  let ?ss = "observed_scores xs"
  have ss: "sorted ?ss" "set ?ss = set (map fst xs)" by (simp_all add: observed_scores_def)
  have nonempty: "?ss \<noteq> []" using assms(2) ss(2) by (metis list.set_sel(1) empty_iff map_is_Nil_conv set_empty)
  have ends: "hd ?ss \<le> s" "s \<le> last ?ss" if "s \<in> set ?ss" for s
    using sorted_ends [OF ss(1) that] by simp_all
  consider "t \<le> hd ?ss" | "last ?ss < t" | "hd ?ss < t" "t \<le> last ?ss" by linarith
  then show ?thesis
  proof cases
    case 1
    have low: "fsub (hd ?ss) 1 \<le> hd ?ss" using assms(1) by (simp add: well_spaced_def Let_def)
    have "classified xs t = classified xs (fsub (hd ?ss) 1)"
    proof (rule classified_cong)
      fix s assume "s \<in> set (map fst xs)"
      then have "hd ?ss \<le> s" using ends(1) ss(2) by blast
      then show "t \<le> s \<longleftrightarrow> fsub (hd ?ss) 1 \<le> s" using 1 low by simp
    qed
    then show ?thesis by (intro bexI [of _ "fsub (hd ?ss) 1"]) (simp_all add: candidates_def Let_def)
  next
    case 2
    have high: "last ?ss < fadd (last ?ss) 1" using assms(1) by (simp add: well_spaced_def Let_def)
    have "classified xs t = classified xs (fadd (last ?ss) 1)"
    proof (rule classified_cong)
      fix s assume "s \<in> set (map fst xs)"
      then have "s \<le> last ?ss" using ends(2) ss(2) by blast
      then show "t \<le> s \<longleftrightarrow> fadd (last ?ss) 1 \<le> s" using 2 high by simp
    qed
    then show ?thesis by (intro bexI [of _ "fadd (last ?ss) 1"]) (simp_all add: candidates_def Let_def)
  next
    case 3
    obtain a b where ab: "(a, b) \<in> set (zip ?ss (tl ?ss))" "a < t" "t \<le> b" "\<forall>s \<in> set ?ss. s \<le> a \<or> b \<le> s"
      using neighbours [OF ss(1) nonempty 3] by blast
    let ?m = "fdiv (fadd a b) 2"
    have m: "a < ?m" "?m \<le> b" using assms(1) ab(1) by (auto simp: well_spaced_def Let_def list_all_iff)
    have "classified xs t = classified xs ?m"
    proof (rule classified_cong)
      fix s assume "s \<in> set (map fst xs)"
      then have "s \<le> a \<or> b \<le> s" using ab(4) ss(2) by blast
      then show "t \<le> s \<longleftrightarrow> ?m \<le> s" using ab(2,3) m by linarith
    qed
    moreover have "?m \<in> set (candidates xs)"
      unfolding candidates_def Let_def set_append set_map using imageI [OF ab(1), of "\<lambda>(a, b). fdiv (fadd a b) 2"] by simp
    ultimately show ?thesis by blast
  qed
qed

text \<open>The tuned threshold is the best one: its reported score and counts are those of classifying
  with it, and no threshold at all, tried or not, has an F1 that exceeds the score by more than
  the rounding to four places.
\<close>

theorem threshold_optimal:
  assumes "2 \<le> length xs" and "well_spaced xs"
  shows "\<exists>t. tn_threshold (optimize_threshold xs) = Some t
    \<and> tn_score (optimize_threshold xs) = round_float 4 (f1_score (classified xs t))
    \<and> tn_counts (optimize_threshold xs) = classified xs t
    \<and> (\<forall>u. f1_score (classified xs u) \<le> tn_score (optimize_threshold xs) + 1 / 10000)"
proof -
  let ?b = "optimize_threshold xs"
  have "best_so_far xs {} \<lparr>tn_threshold = None, tn_score = -1, tn_counts = no_counts\<rparr>"
    by (simp add: best_so_far_def)
  then have best: "best_so_far xs (set (candidates xs)) ?b"
    using fold_try_threshold [of xs "{}" _ "candidates xs"] assms(1) by (simp add: optimize_threshold_def)
  have "set (candidates xs) \<noteq> {}" by (simp add: candidates_def Let_def)
  then obtain t where t: "tn_threshold ?b = Some t" using best by (auto simp: best_so_far_def split: option.splits)
  have "f1_score (classified xs u) \<le> tn_score ?b + 1 / 10000" for u
  proof -
    obtain v where "v \<in> set (candidates xs)" "classified xs u = classified xs v"
      using candidate_covers [OF assms(2), of u] assms(1) by (cases xs) auto
    then show ?thesis using best by (simp add: best_so_far_def)
  qed
  then show ?thesis using t best by (auto simp: best_so_far_def)
qed

theorem threshold_optimal_witness:
  "\<exists>t. tn_threshold (optimize_threshold [(1, 0), (2, 1), (2, 0)]) = Some t
    \<and> tn_score (optimize_threshold [(1, 0), (2, 1), (2, 0)])
        = round_float 4 (f1_score (classified [(1, 0), (2, 1), (2, 0)] t))
    \<and> tn_counts (optimize_threshold [(1, 0), (2, 1), (2, 0)]) = classified [(1, 0), (2, 1), (2, 0)] t
    \<and> (\<forall>u. f1_score (classified [(1, 0), (2, 1), (2, 0)] u)
          \<le> tn_score (optimize_threshold [(1, 0), (2, 1), (2, 0)]) + 1 / 10000)"
  by (rule threshold_optimal) code_simp+

section \<open>The severity of an issue\<close>

lemma fmean_abs:
  assumes "fmean xs = Inr b" and "fmean (map abs xs) = Inr m"
  shows "\<bar>b\<bar> \<le> m"
proof -
  have ne: "xs \<noteq> []" using assms(1) by (auto simp: fmean_def)
  have "\<bar>fl (sum_list xs)\<bar> \<le> fl (sum_list (map abs xs))"
    unfolding fl_abs by (rule flr.r_mono) (rule sum_list_abs)
  then have "\<bar>fl (sum_list xs)\<bar> / of_nat (length xs) \<le> fl (sum_list (map abs xs)) / of_nat (length xs)"
    by (rule divide_right_mono) simp
  then have le: "fl \<bar>fl (sum_list xs) / of_nat (length xs)\<bar> \<le> fl (fl (sum_list (map abs xs)) / of_nat (length xs))"
    by (intro flr.r_mono) (simp add: abs_divide)
  have "b = fl (fl (sum_list xs) / of_nat (length xs))" "m = fl (fl (sum_list (map abs xs)) / of_nat (length xs))"
    using assms ne by (simp_all add: fmean_def)
  then show ?thesis using le fl_abs [of "fl (sum_list xs) / of_nat (length xs)"] by simp
qed

lemma fsub_abs_commute: "\<bar>fsub a p\<bar> = \<bar>fsub p a\<bar>"
  using flr.r_minus [of "a - p"] by simp

lemma bias_le_mae:
  assumes "bias as ps = Inr b" and "mae as ps = Inr m"
  shows "\<bar>b\<bar> \<le> m"
proof (cases "as = []")
  case False
  have eq: "map (\<lambda>(a, p). \<bar>fsub a p\<bar>) (zip as ps) = map abs (map (\<lambda>(a, p). fsub p a) (zip as ps))"
    unfolding map_map by (rule map_cong [OF refl]) (auto intro: fsub_abs_commute)
  have "fmean (map (\<lambda>(a, p). fsub p a) (zip as ps)) = Inr b"
    "fmean (map (\<lambda>(a, p). \<bar>fsub a p\<bar>) (zip as ps)) = Inr m"
    using assms False by (simp_all add: bias_def mae_def)
  then show ?thesis unfolding eq by (rule fmean_abs)
qed (use assms in \<open>simp add: bias_def mae_def\<close>)

lemma direction_counts_le: "direction_counts base xs (c, n) = (c', n') \<Longrightarrow> c \<le> n \<Longrightarrow> c' \<le> n'"
  by (induction xs arbitrary: c n) (auto simp: Let_def split: if_splits)

lemma directional_unit:
  assumes "directional_accuracy as ps = Inr d"
  shows "d \<le> 1"
proof (cases "length as < 2")
  case False
  then obtain base where base: "fmean as = Inr base" using assms by (auto simp: directional_accuracy_def result_simps)
  obtain c n where counts: "direction_counts base (zip as ps) (0, 0) = (c, n)" by fastforce
  have "c \<le> n" by (rule direction_counts_le [OF counts]) simp
  moreover have "d = (if n = 0 then 1 / 2 else fdiv (of_nat c) (of_nat n))"
    using assms False base counts by (simp add: directional_accuracy_def)
  ultimately show ?thesis using flr.r_ratio_unit(2) [of "of_nat c" "of_nat n"] by simp
qed (use assms in \<open>simp add: directional_accuracy_def\<close>)

lemma summary_bounds:
  assumes "accuracy_summary L as ps = Inr s"
  shows "\<bar>ac_bias s\<bar> \<le> ac_mae s" and "ac_directional s \<le> 1"
proof -
  obtain m b d where s: "mae as ps = Inr m" "bias as ps = Inr b" "directional_accuracy as ps = Inr d"
    "ac_mae s = round_float 6 m" "ac_bias s = round_float 6 b" "ac_directional s = round_float 4 d"
    using assms by (auto simp: accuracy_summary_def result_simps)
  show "\<bar>ac_bias s\<bar> \<le> ac_mae s"
    unfolding s(4,5) round_float_abs by (rule round_float_mono [OF bias_le_mae [OF s(2,1)]])
  have "round_float 4 d \<le> round_float 4 1" by (rule round_float_mono [OF directional_unit [OF s(3)]])
  then show "ac_directional s \<le> 1" using s(6) by simp
qed

text \<open>The normalised error is one as soon as there is any: the scale is the error itself.\<close>

lemma severity_floor:
  assumes "accuracy_summary L as ps = Inr s" and "tiny < ac_mae s"
  shows "fl (3 / 5) \<le> severity_of s"
proof -
  have scale: "accuracy_scale s = ac_mae s"
    using summary_bounds(1) [OF assms(1)] assms(2) by (simp add: accuracy_scale_def)
  have "tiny > 0" by (simp add: tiny_def flr.r_pos)
  then have "fdiv (ac_mae s) (ac_mae s) = 1" using assms(2) by simp
  then have sev: "severity_of s = fadd (fmul (fl (3 / 5)) 1) (fmul (fl (2 / 5)) (fsub 1 (ac_directional s)))"
    using assms(2) by (simp add: severity_of_def scale Let_def)
  have "0 \<le> fmul (fl (2 / 5)) (fsub 1 (ac_directional s))"
    using summary_bounds(2) [OF assms(1)] by (intro flr.r_nonneg mult_nonneg_nonneg) simp_all
  then have "fl (fl (3 / 5)) \<le> severity_of s"
    unfolding sev by (intro flr.r_mono) (simp add: flr.r_idem)
  then show ?thesis by (simp add: flr.r_idem)
qed

lemma first_keys_set: "set (first_keys key xs) = key ` set xs"
  by (simp add: first_keys_def)

text \<open>The threshold for issues is never decisive: every group with enough outcomes and a mean
  error that shows in six decimals has a severity of at least 0.6 and is reported, whatever its
  error relative to the values, as long as the threshold is 0.6 or less (0.4 by default).
\<close>

theorem any_error_is_an_issue:
  assumes "scan_issues L n threshold vs = Inr issues"
    and "g = filter (\<lambda>v. (vw_decision v, group_id v) = (d, gid)) (resolved_views vs)" and "g \<noteq> []" and "n \<le> int (length g)"
    and "accuracy_summary L (map (\<lambda>v. the (vw_actual v)) g) (map vw_pred g) = Inr s" and "tiny < ac_mae s"
    and "threshold \<le> fl (3 / 5)"
  shows "\<exists>i \<in> set issues. is_decision i = d \<and> is_decision_id i = gid \<and> is_samples i = length g
    \<and> round_float 4 (fl (3 / 5)) \<le> is_severity i"
proof -
  let ?key = "\<lambda>v. (vw_decision v, group_id v)"
  obtain v where "v \<in> set g" using assms(3) by (cases g) auto
  then have "(d, gid) \<in> ?key ` set (resolved_views vs)" unfolding assms(2) by force
  then have "(d, gid) \<in> set (first_keys ?key (resolved_views vs))" unfolding first_keys_set .
  then have "((d, gid), filter (\<lambda>v. ?key v = (d, gid)) (resolved_views vs)) \<in> set (grouped ?key (resolved_views vs))"
    unfolding grouped_def set_map by (rule rev_image_eqI) (rule refl)
  then have member: "((d, gid), g) \<in> set (grouped ?key (resolved_views vs))" unfolding assms(2) .
  obtain xs where xs: "mapR (group_issue L n threshold) (grouped ?key (resolved_views vs)) = Inr xs"
    and issues: "issues = sort_desc is_severity (List.map_filter id xs)"
    using assms(1) by (auto simp: scan_issues_def result_simps)
  have floor: "fl (3 / 5) \<le> severity_of s" by (rule severity_floor [OF assms(5,6)])
  obtain i where i: "group_issue L n threshold ((d, gid), g) = Inr (Some i)" "is_decision i = d" "is_decision_id i = gid"
    "is_samples i = length g" "is_severity i = round_float 4 (severity_of s)"
    using assms(4,5,7) floor by (auto simp: group_issue_def)
  have "Some i \<in> set xs"
    by (rule mapR_member [OF xs member i(1)])
  then have "i \<in> set issues" unfolding issues by (force simp: List.map_filter_def)
  then show ?thesis using i floor round_float_mono by auto
qed

definition coarse_libm :: libm where
  "coarse_libm = \<lparr>c_sqrt = \<lambda>x. x, c_exp = \<lambda>x. 1, c_log = \<lambda>x. 0, c_erf = \<lambda>x. 0, c_lgamma = \<lambda>x. 0,
     c_square = \<lambda>x. fl (x * x)\<rparr>"

definition rule_view :: "rat \<Rightarrow> rat option \<Rightarrow> view" where
  "rule_view p a =
     \<lparr>vw_type = PROFIT_PREDICTION, vw_decision = RULE_DECISION, vw_decision_id = Some ''r1'', vw_model = ''1.0.0'',
      vw_pred = p, vw_actual = a, vw_features = [], vw_at = 0\<rparr>"

definition near_misses :: "view list" where
  "near_misses = [rule_view 7 None, rule_view 100 (Some 101)]"

theorem any_error_is_an_issue_witness:
  "\<exists>issues. scan_issues coarse_libm 1 (fl (2 / 5)) near_misses = Inr issues
    \<and> (\<exists>i \<in> set issues. is_decision i = RULE_DECISION \<and> is_decision_id i = ''r1'' \<and> is_samples i = 1
        \<and> round_float 4 (fl (3 / 5)) \<le> is_severity i)"
proof -
  let ?g = "[rule_view 100 (Some 101)]"
  have "tiny \<le> 1 / 2" unfolding tiny_def using fl_rep_half [of 1] by (intro flr.r_le) simp_all
  then obtain s where s: "accuracy_summary coarse_libm (map (\<lambda>v. the (vw_actual v)) ?g) (map vw_pred ?g) = Inr s" "tiny < ac_mae s"
    by (simp add: rule_view_def coarse_libm_def accuracy_summary_def mae_def rmse_def mape_def bias_def
      directional_accuracy_def pearson_def fmean_def sqrtE_def)
  have key: "grouped (\<lambda>v. (vw_decision v, group_id v)) (resolved_views near_misses) = [((RULE_DECISION, ''r1''), ?g)]"
    by (simp add: near_misses_def resolved_views_def rule_view_def group_id_def grouped_def first_keys_def)
  obtain issues where issues: "scan_issues coarse_libm 1 (fl (2 / 5)) near_misses = Inr issues"
    using s(1) by (cases "severity_of s < fl (2 / 5)") (auto simp: scan_issues_def key group_issue_def)
  have g: "?g = filter (\<lambda>v. (vw_decision v, group_id v) = (RULE_DECISION, ''r1'')) (resolved_views near_misses)"
    by (simp add: near_misses_def resolved_views_def rule_view_def group_id_def)
  have "fl (2 / 5) \<le> fl (3 / 5)" by (rule flr.r_mono) simp
  then show ?thesis using any_error_is_an_issue [OF issues g _ _ s] issues by auto
qed

end
