(* ===== verification/LearningCycleProps.thy ===== *)
theory LearningCycleProps
  imports LearningCycle LearningProps
begin

text \<open>
  What the learning cycle guarantees: runs are numbered without gaps, a cycle reproduces the
  one before it on the same outcomes, a tuning is applied only when it improves the rule, and
  an outcome resolves the newest open predictions.
\<close>

section \<open>The tuning of a rule\<close>

lemma f1_at_unit: "0 \<le> f1_at pairs t" "f1_at pairs t \<le> 4"
  using f1_small [of "classified pairs t"] f1_bounds [of "classified pairs t"] by (auto simp: f1_at_def)

text \<open>C23: The tuning of a rule always returns, applies a threshold only when it classifies better than
  the current one, and when it applies none, the best one is within the least change or no
  threshold whatever beats the current one by more than the least improvement.
\<close>

theorem rule_tuning_sound:
  assumes "2 \<le> length pairs" and "well_spaced pairs" and "1 / 1000 \<le> rule_tune_min_improvement c"
  shows "\<exists>t. tune_rule c i pairs = Inr t
    \<and> (if rt_applied t then f1_at pairs (default_rule_threshold c) < f1_at pairs (rt_proposed t)
       else \<bar>fsub (rt_proposed t) (default_rule_threshold c)\<bar> < rule_tune_min_delta c
         \<or> (\<forall>u. f1_at pairs u \<le> f1_at pairs (default_rule_threshold c) + rule_tune_min_improvement c + 1 / 1000))"
proof -
  define cur where "cur = f1_at pairs (default_rule_threshold c)"
  define imp where "imp = fsub (tn_score (optimize_threshold pairs)) cur"
  obtain t where t: "tn_threshold (optimize_threshold pairs) = Some t"
    and score: "tn_score (optimize_threshold pairs) = round_float 4 (f1_at pairs t)"
    and best: "\<And>u. f1_at pairs u \<le> tn_score (optimize_threshold pairs) + 1 / 10000"
    using threshold_optimal [OF assms(1,2)] unfolding f1_at_def by blast
  define s where "s = tn_score (optimize_threshold pairs)"
  have near: "\<bar>s - f1_at pairs t\<bar> \<le> 1 / 10000"
    unfolding s_def score using f1_at_unit [of pairs t] by (intro round_float_close) simp
  have range: "\<bar>s - cur\<bar> \<le> 5"
    using abs_le_D1 [OF near] abs_le_D2 [OF near] f1_at_unit [of pairs t] f1_at_unit [of pairs "default_rule_threshold c"]
    unfolding cur_def [symmetric] by (intro abs_leI) simp_all
  have err: "\<bar>imp - (s - cur)\<bar> \<le> 5 / 2 ^ 53"
    using fl_error [of "s - cur"] range unfolding imp_def s_def [symmetric] by (simp add: field_simps)
  let ?r = "\<lparr>rt_decision = i, rt_current = default_rule_threshold c, rt_proposed = t,
    rt_current_score = round_float 4 cur, rt_proposed_score = s, rt_improvement = round_float 4 imp,
    rt_samples = length pairs, rt_counts = tn_counts (optimize_threshold pairs), rt_applied = worth_tuning c t imp\<rparr>"
  have run: "tune_rule c i pairs = Inr ?r"
    by (simp add: tune_rule_def Let_def proposed_threshold_def t cur_def imp_def s_def)
  have applied: "cur < f1_at pairs t" if "worth_tuning c t imp"
    using that assms(3) abs_le_D1 [OF err] abs_le_D1 [OF near] by (simp add: worth_tuning_def)
  have kept: "f1_at pairs u \<le> cur + rule_tune_min_improvement c + 1 / 1000" if "imp < rule_tune_min_improvement c" for u
    using best [of u] that abs_le_D2 [OF err] unfolding s_def [symmetric] by simp
  show ?thesis using run applied kept unfolding cur_def by (force simp: worth_tuning_def)
qed

definition usual_config :: learning_config where
  "usual_config =
     \<lparr>lc_enabled = True, min_samples_for_issues = 5, issue_severity_threshold = fl (2 / 5), rolling_window = 20,
      default_rule_threshold = 1 / 2, rule_tune_min_delta = fl (1 / 100), rule_tune_min_improvement = fl (1 / 50),
      feature_reweight_min_abs_corr = fl (1 / 5), max_predictions_per_scan = 5000, max_recommendations_per_run = 50,
      lc_code_version = []\<rparr>"

theorem rule_tuning_sound_witness:
  "\<exists>t. tune_rule usual_config ''r1'' [(2, 0), (4, 1)] = Inr t
    \<and> (if rt_applied t then f1_at [(2, 0), (4, 1)] (default_rule_threshold usual_config) < f1_at [(2, 0), (4, 1)] (rt_proposed t)
       else \<bar>fsub (rt_proposed t) (default_rule_threshold usual_config)\<bar> < rule_tune_min_delta usual_config
         \<or> (\<forall>u. f1_at [(2, 0), (4, 1)] u \<le> f1_at [(2, 0), (4, 1)] (default_rule_threshold usual_config)
                  + rule_tune_min_improvement usual_config + 1 / 1000))"
proof (rule rule_tuning_sound)
  show "well_spaced [(2, 0), (4, 1)]" by (simp add: well_spaced_def observed_scores_def)
  show "1 / 1000 \<le> rule_tune_min_improvement usual_config"
    using abs_le_D2 [OF fl_error [of "1 / 50"]] by (simp add: usual_config_def)
qed simp

section \<open>Outcomes\<close>

definition realised :: "rat \<Rightarrow> int \<Rightarrow> 'i prediction \<Rightarrow> 'i prediction" where
  "realised a t p = p\<lparr>pd_actual := Some a, pd_outcome_at := Some t\<rparr>"

lemma realised_id [simp]: "pd_id (realised a t p) = pd_id p"
  by (simp add: realised_def)

lemma realised_twice [simp]: "realised a t (realised a t p) = realised a t p"
  by (simp add: realised_def)

lemma resolve_all_run:
  "resolve_all ps a t db =
     (Inr (length ps),
      db\<lparr>predictions := map (\<lambda>x. if pd_id x \<in> pd_id ` set ps then realised a t x else x) (predictions db)\<rparr>)"
proof (induction ps arbitrary: db)
  case (Cons p ps)
  have upd: "update_prediction p a t db =
      (Inr (), db\<lparr>predictions := map (\<lambda>x. if pd_id x = pd_id p then realised a t x else x) (predictions db)\<rparr>)"
    by (simp add: update_prediction_def realised_def)
  have "map (\<lambda>x. if pd_id x \<in> pd_id ` set ps then realised a t x else x)
      (map (\<lambda>x. if pd_id x = pd_id p then realised a t x else x) (predictions db))
    = map (\<lambda>x. if pd_id x \<in> pd_id ` set (p # ps) then realised a t x else x) (predictions db)"
    by simp
  then show ?case by (simp add: Cons.IH upd)
qed simp

lemma take_sorted_wrt:
  "sorted_wrt R xs \<Longrightarrow> x \<in> set (take n xs) \<Longrightarrow> y \<in> set (drop n xs) \<Longrightarrow> R x y"
  by (metis append_take_drop_id sorted_wrt_append)

text \<open>C31: An outcome without an external id resolves the newest matching open predictions, ten at most:
  exactly those rows get the value, none that is left open is newer, and the number is returned.
\<close>

theorem outcome_resolves_newest:
  assumes "lawful_learning E" and "distinct (map pd_id (predictions db))"
    and "nonempty (oc_external r) = None" and "oc_at r = Some t"
    and "waiting = filter (unresolved_matches (oc_type r) (oc_subject r) (oc_decision_id r) (oc_model r)) (predictions db)"
  shows "\<exists>new \<subseteq> set waiting. card new = min 10 (length waiting)
    \<and> (\<forall>p \<in> new. \<forall>q \<in> set waiting - new. pd_at q \<le> pd_at p)
    \<and> record_outcome P E r db =
        (Inr (min 10 (length waiting)),
         db\<lparr>predictions := map (\<lambda>p. if p \<in> new then realised (oc_actual r) t p else p) (predictions db)\<rparr>)"
proof -
  define rows where "rows = newest_predicted E waiting"
  have order: "orders_by (\<lambda>p. - pd_at p) (newest_predicted E)" using assms(1) by (simp add: lawful_learning_def)
  then have ms: "mset rows = mset waiting" and sorted: "sorted (map (\<lambda>p. - pd_at p) rows)"
    by (simp_all add: orders_by_def rows_def)
  have "distinct waiting" using assms(2,5) by (simp add: distinct_map)
  then have dist: "distinct rows" using ms by (metis mset_eq_imp_distinct_iff)
  let ?new = "set (take 10 rows)"
  have sub: "?new \<subseteq> set waiting" using set_take_subset [of 10 rows] mset_eq_setD [OF ms] by simp
  have len: "length (take 10 rows) = min 10 (length waiting)" using mset_eq_length [OF ms] by simp
  have card: "card ?new = min 10 (length waiting)" using distinct_card [OF distinct_take [OF dist, of 10]] len by simp
  have newer: "pd_at q \<le> pd_at p" if "p \<in> ?new" "q \<in> set waiting - ?new" for p q
  proof -
    have "q \<in> set rows" using that(2) mset_eq_setD [OF ms] by simp
    then have "q \<in> set (drop 10 rows)" using that(2) append_take_drop_id [of 10 rows] by (metis DiffE UnE set_append)
    then show ?thesis using take_sorted_wrt [OF sorted [unfolded sorted_map] that(1)] by simp
  qed
  have same: "pd_id x \<in> pd_id ` ?new \<longleftrightarrow> x \<in> ?new" if "x \<in> set (predictions db)" for x
    using that sub assms(2,5) by (auto simp: distinct_map dest: inj_onD)
  have "record_outcome P E r db = resolve_all (take 10 rows) (oc_actual r) t db"
    using assms(3,4) by (simp add: record_outcome_def given_time_def outcome_rows_def find_unresolved_def rows_def assms(5))
  also have "\<dots> = (Inr (min 10 (length waiting)),
      db\<lparr>predictions := map (\<lambda>p. if p \<in> ?new then realised (oc_actual r) t p else p) (predictions db)\<rparr>)"
    unfolding resolve_all_run len using same by (simp cong: map_cong)
  finally show ?thesis using sub card newer by blast
qed

section \<open>The learning cycle\<close>

definition stored_rows ::
  "'i learner \<Rightarrow> 'i learning_tx \<Rightarrow> 'i \<Rightarrow> nat \<Rightarrow> recommendation list \<Rightarrow> 'i recommendation_row list" where
  "stored_rows P E run k rs =
     map (\<lambda>(j, r). \<lparr>rr_id = new_id P j, rr_run = run, rr_body = r, rr_created = lt_start E\<rparr>) (enumerate k rs)"

lemma stored_rows_simps [simp]:
  "map rr_body (stored_rows P E run k rs) = rs"
  "x \<in> set (stored_rows P E run k rs) \<Longrightarrow> rr_run x = run"
  by (induction rs arbitrary: k) (auto simp: stored_rows_def)

lemma store_recommendations_run:
  "store_recommendations P E run rs db =
     (Inr (), db\<lparr>recommendations := recommendations db @ stored_rows P E run (ids_drawn db) rs,
                ids_drawn := ids_drawn db + length rs\<rparr>)"
  by (induction rs arbitrary: db) (simp_all add: stored_rows_def draw_id_def insert_recommendation_def bindA_def)

definition completed_run :: "'i learner \<Rightarrow> 'i learning_tx \<Rightarrow> 'i learning \<Rightarrow> cycle_summary \<Rightarrow> 'i learning_run" where
  "completed_run P E db s =
     \<lparr>ru_id = new_id P (ids_drawn db), ru_number = next_run_number db, ru_status = CYCLE_COMPLETED,
      ru_params = lr_config P, ru_summary = Some s, ru_started = time_at P (times_read db),
      ru_completed = Some (time_at P (Suc (times_read db))), ru_created = lt_start E\<rparr>"

definition after_cycle :: "'i learner \<Rightarrow> 'i learning_tx \<Rightarrow> 'i learning \<Rightarrow> cycle_summary \<Rightarrow> 'i learning" where
  "after_cycle P E db s =
     db\<lparr>learning_runs :=
          map (\<lambda>x. if ru_id x = new_id P (ids_drawn db) then completed_run P E db s else x) (learning_runs db)
          @ [completed_run P E db s],
        recommendations := recommendations db
          @ stored_rows P E (new_id P (ids_drawn db)) (Suc (ids_drawn db)) (cs_recommendations s),
        ids_drawn := Suc (ids_drawn db) + length (cs_recommendations s), times_read := Suc (Suc (times_read db))\<rparr>"

lemma next_run_number_less: "r \<in> set (learning_runs db) \<Longrightarrow> ru_number r < next_run_number db"
  using Max_ge [of "ru_number ` set (learning_runs db)" "ru_number r"]
  by (auto simp: next_run_number_def less_Suc_eq_le)

lemma next_run_number_new: "next_run_number db \<notin> ru_number ` set (learning_runs db)"
  using next_run_number_less by fastforce

lemma next_run_number_eq:
  assumes "\<And>r. r \<in> set (learning_runs db) \<Longrightarrow> ru_number r \<le> n" and "n \<in> ru_number ` set (learning_runs db)"
  shows "next_run_number db = n + 1"
proof -
  have "Max (ru_number ` set (learning_runs db)) = n" using assms by (intro Max_eqI) auto
  then show ?thesis using assms(2) by (auto simp: next_run_number_def)
qed

abbreviation cycle_views :: "'i learner \<Rightarrow> 'i learning_tx \<Rightarrow> 'i learning \<Rightarrow> view list" where
  "cycle_views P E db \<equiv> map row_view (resolved_of P E None db)"

lemma run_cycle_run:
  assumes "lc_enabled (lr_config P)" and "cycle_result P (cycle_views P E db) = Inr s"
  shows "run_cycle P E db = (Inr (completed_run P E db s), after_cycle P E db s)"
  using assms next_run_number_new [of db]
  by (simp add: run_cycle_def liftP_def utc_now_def draw_id_def insert_run_def update_run_def store_recommendations_run
    completed_run_def after_cycle_def bindA_def)

lemma run_cycle_Inr:
  assumes "run_cycle P E db = (Inr r, db')"
  obtains s where "lc_enabled (lr_config P)" and "cycle_result P (cycle_views P E db) = Inr s"
    and "r = completed_run P E db s" and "db' = after_cycle P E db s"
proof -
  have on: "lc_enabled (lr_config P)" using assms by (cases "lc_enabled (lr_config P)") (simp_all add: run_cycle_def)
  obtain s where s: "cycle_result P (cycle_views P E db) = Inr s"
    using assms on by (auto simp: run_cycle_def result_simps liftP_def split: sum.splits)
  then show thesis using that on assms run_cycle_run [OF on s] by simp
qed

lemma orders_by_unique:
  assumes "orders_by k f" and "orders_by k g" and "mset xs = mset ys" and "distinct (map k xs)"
  shows "f xs = g ys"
proof -
  have inj: "inj_on k (set xs)" using assms(4) by (simp add: distinct_map)
  have "sort_key k xs = f xs" using assms(1) by (intro sort_key_inj_key_eq inj) (simp_all add: orders_by_def)
  moreover have "sort_key k xs = g ys" using assms(2,3) by (intro sort_key_inj_key_eq inj) (simp_all add: orders_by_def)
  ultimately show ?thesis by simp
qed

lemma resolved_of_same:
  assumes "lawful_learning E" and "lawful_learning E'" and "distinct (map pd_created (predictions db))"
    and "predictions db' = predictions db"
  shows "resolved_of P E ty db = resolved_of P E' ty db'"
proof -
  let ?rows = "filter (\<lambda>p. pd_actual p \<noteq> None \<and> passes ty (Some (ptype_value (pd_type p)))) (predictions db)"
  have "distinct (map pd_created ?rows)" using assms(3) by (simp add: distinct_map inj_on_def)
  then have "oldest_created E ?rows = oldest_created E' ?rows"
    using assms(1,2) by (intro orders_by_unique [where k = pd_created]) (simp_all add: lawful_learning_def)
  then show ?thesis using assms(4) by (simp add: resolved_of_def resolved_predictions_def)
qed

text \<open>C30: Learning is reproducible: when no two predictions were created at the same time, a cycle over
  the same predictions, in any later transaction, completes with the same summary under the next
  number, and proposes the same recommendations once more.
\<close>

theorem cycle_reproducible:
  assumes "lawful_learning E" and "lawful_learning E'" and "distinct (map pd_created (predictions db))"
    and "run_cycle P E db = (Inr r, db')"
  shows "\<exists>r' db''. run_cycle P E' db' = (Inr r', db'') \<and> ru_status r' = CYCLE_COMPLETED
    \<and> ru_summary r' = ru_summary r \<and> ru_params r' = ru_params r \<and> ru_number r' = ru_number r + 1
    \<and> map rr_body (recommendations db'') = map rr_body (recommendations db')
        @ cs_recommendations (the (ru_summary r))"
proof -
  obtain s where on: "lc_enabled (lr_config P)" and s: "cycle_result P (cycle_views P E db) = Inr s"
    and r: "r = completed_run P E db s" and db': "db' = after_cycle P E db s"
    using assms(4) by (rule run_cycle_Inr)
  have "cycle_views P E' db' = cycle_views P E db"
    using resolved_of_same [OF assms(1-3), of db' P None] by (simp add: db' after_cycle_def)
  then have run: "run_cycle P E' db' = (Inr (completed_run P E' db' s), after_cycle P E' db' s)"
    using s by (intro run_cycle_run [OF on]) simp
  have "next_run_number db' = next_run_number db + 1"
    by (rule next_run_number_eq) (auto simp: db' after_cycle_def completed_run_def dest: next_run_number_less)
  then show ?thesis using run by (auto simp: r completed_run_def after_cycle_def [of P E'])
qed

section \<open>Histories of requests\<close>

text \<open>The data of a prediction without its outcome\<close>

definition as_predicted :: "'i prediction \<Rightarrow> 'i prediction" where
  "as_predicted p = p\<lparr>pd_actual := None, pd_outcome_at := None\<rparr>"

lemma as_predicted_realised [simp]: "as_predicted (realised a t p) = as_predicted p"
  by (simp add: as_predicted_def realised_def)

definition learning_ok :: "'i learner \<Rightarrow> 'i learning \<Rightarrow> bool" where
  "learning_ok P db \<longleftrightarrow>
     map ru_number (learning_runs db) = [1..<Suc (length (learning_runs db))]
     \<and> (\<forall>r \<in> set (learning_runs db). ru_status r = CYCLE_COMPLETED \<and> ru_summary r \<noteq> None)
     \<and> (\<forall>x \<in> set (recommendations db). rr_run x \<in> ru_id ` set (learning_runs db))
     \<and> distinct (map pd_id (predictions db))
     \<and> distinct (filter (\<lambda>k. k \<noteq> None) (map pd_external (predictions db)))
     \<and> ru_id ` set (learning_runs db) \<union> pd_id ` set (predictions db) \<subseteq> new_id P ` {..<ids_drawn db}"

text \<open>What no request changes: the runs there are, and what was predicted.\<close>

definition extends :: "'i learning \<Rightarrow> 'i learning \<Rightarrow> bool" where
  "extends db db' \<longleftrightarrow> ids_drawn db \<le> ids_drawn db'
     \<and> (\<exists>rs. learning_runs db' = learning_runs db @ rs)
     \<and> (\<exists>ps. map as_predicted (predictions db') = map as_predicted (predictions db) @ ps)"

lemma extends_refl: "extends db db"
  by (simp add: extends_def)

lemma extends_trans: "extends db db1 \<Longrightarrow> extends db1 db2 \<Longrightarrow> extends db db2"
  by (auto simp: extends_def)

lemma only_counters:
  assumes "learning_ok P db" and "ids_drawn db \<le> ids_drawn db'"
  shows "learning_ok P (db\<lparr>ids_drawn := ids_drawn db', times_read := n\<rparr>)
    \<and> extends db (db\<lparr>ids_drawn := ids_drawn db', times_read := n\<rparr>)"
  using assms unfolding learning_ok_def extends_def by auto

lemma committed_step:
  assumes "learning_ok P db" and "ids_drawn db \<le> ids_drawn (snd (m db))"
    and "\<And>x db'. m db = (Inr x, db') \<Longrightarrow> learning_ok P db' \<and> extends db db'"
  shows "learning_ok P (committed m db) \<and> extends db (committed m db)"
  using assms only_counters [OF assms(1), of "snd (m db)"]
  by (auto simp: committed_def split: prod.splits sum.splits)

lemma insert_prediction_ok:
  assumes "inj (new_id P)" and "learning_ok P db" and "pd_id p = new_id P (ids_drawn db)"
    and "insert_prediction p (db\<lparr>times_read := n, ids_drawn := Suc (ids_drawn db)\<rparr>) = (Inr x, db')"
  shows "learning_ok P db' \<and> extends db db'"
proof -
  have db': "db' = db\<lparr>times_read := n, ids_drawn := Suc (ids_drawn db), predictions := predictions db @ [p]\<rparr>"
    and new: "pd_external p = None \<or> pd_external p \<notin> set (map pd_external (predictions db))"
    using assms(4) by (auto simp: insert_prediction_def split: if_splits)
  have "pd_id p \<notin> pd_id ` set (predictions db)"
    using assms(2,3) injD [OF assms(1)] unfolding learning_ok_def by (auto dest!: subsetD)
  then show ?thesis using assms(2,3) new unfolding db' learning_ok_def extends_def
    by (auto simp: lessThan_Suc)
qed

lemma known_prediction_state: "snd (known_prediction k db) = db"
  by (simp add: known_prediction_def get_by_external_id_def split: option.splits list.splits)

lemma given_time_run: "\<exists>t n. given_time P x db = (Inr t, db\<lparr>times_read := n\<rparr>)"
  by (cases x) (auto simp: given_time_def utc_now_def intro: exI [of _ "times_read db"])

lemma record_prediction_step:
  assumes "inj (new_id P)" and "learning_ok P db"
  shows "ids_drawn db \<le> ids_drawn (snd (record_prediction P E r db))
    \<and> (record_prediction P E r db = (Inr x, db') \<longrightarrow> learning_ok P db' \<and> extends db db')"
proof -
  obtain old where old: "known_prediction (pc_external r) db = (old, db)"
    using known_prediction_state [of "pc_external r" db] by (metis prod.collapse)
  obtain t n where t: "given_time P (pc_at r) db = (Inr t, db\<lparr>times_read := n\<rparr>)" using given_time_run by blast
  show ?thesis
  proof (cases "lc_enabled (lr_config P) \<and> read_ptype (pc_type r) \<noteq> None \<and> read_dtype (pc_decision r) \<noteq> None \<and> old = Inr None")
    case True
    then obtain ty d where ty: "read_ptype (pc_type r) = Some ty" "read_dtype (pc_decision r) = Some d" by auto
    let ?p = "prediction_row r ty d t (lt_start E) (new_id P (ids_drawn db))"
    have run: "record_prediction P E r db = insert_prediction ?p (db\<lparr>times_read := n, ids_drawn := Suc (ids_drawn db)\<rparr>)"
      using True old t by (simp add: record_prediction_def ty draw_id_def bindA_def)
    have "pd_id ?p = new_id P (ids_drawn db)" by (simp add: prediction_row_def)
    then show ?thesis unfolding run using insert_prediction_ok [OF assms] by (auto simp: insert_prediction_def)
  next
    case False
    then have "snd (record_prediction P E r db) = db"
      using old by (auto simp: record_prediction_def bindA_def split: option.splits sum.splits)
    then show ?thesis using assms(2) extends_refl by (metis order_refl snd_conv)
  qed
qed

lemma resolved_ok:
  assumes "learning_ok P db"
  shows "learning_ok P (db\<lparr>times_read := n, predictions := map (\<lambda>x. if Q x then realised a t x else x) (predictions db)\<rparr>)
    \<and> extends db (db\<lparr>times_read := n, predictions := map (\<lambda>x. if Q x then realised a t x else x) (predictions db)\<rparr>)"
proof -
  let ?f = "\<lambda>x. if Q x then realised a t x else x"
  have f: "pd_id (?f x) = pd_id x" "pd_external (?f x) = pd_external x" "as_predicted (?f x) = as_predicted x" for x
    by (simp_all add: realised_def as_predicted_def)
  have "map pd_id (map ?f ps) = map pd_id ps" "map pd_external (map ?f ps) = map pd_external ps"
    "map as_predicted (map ?f ps) = map as_predicted ps" "pd_id ` ?f ` A = pd_id ` A" for ps A
    by (simp_all only: map_map comp_def image_image f)
  then show ?thesis using assms by (simp add: learning_ok_def extends_def del: map_map image_image)
qed

lemma record_outcome_step:
  assumes "learning_ok P db"
  shows "ids_drawn db \<le> ids_drawn (snd (record_outcome P E r db))
    \<and> (record_outcome P E r db = (Inr x, db') \<longrightarrow> learning_ok P db' \<and> extends db db')"
proof -
  obtain t n where t: "given_time P (oc_at r) db = (Inr t, db\<lparr>times_read := n\<rparr>)" using given_time_run by blast
  obtain rows where rows: "outcome_rows E r (db\<lparr>times_read := n\<rparr>) = (rows, db\<lparr>times_read := n\<rparr>)"
  proof -
    have "snd (outcome_rows E r (db\<lparr>times_read := n\<rparr>)) = db\<lparr>times_read := n\<rparr>"
      using known_prediction_state [of "oc_external r" "db\<lparr>times_read := n\<rparr>"]
      by (auto simp: outcome_rows_def bindA_def split: sum.splits prod.splits)
    then show thesis using that by (metis prod.collapse)
  qed
  show ?thesis
  proof (cases rows)
    case (Inl e)
    then show ?thesis using t rows by (simp add: record_outcome_def)
  next
    case (Inr ps)
    have run: "record_outcome P E r db = (Inr (length ps), db\<lparr>times_read := n, predictions :=
        map (\<lambda>x. if pd_id x \<in> pd_id ` set ps then realised (oc_actual r) t x else x) (predictions db)\<rparr>)"
      using t rows Inr by (simp add: record_outcome_def resolve_all_run)
    show ?thesis unfolding run using resolved_ok [OF assms, where Q = "\<lambda>x. pd_id x \<in> pd_id ` set ps"] by auto
  qed
qed

lemma next_run_number_run:
  assumes "map ru_number (learning_runs db) = [1..<Suc (length (learning_runs db))]"
  shows "next_run_number db = Suc (length (learning_runs db))"
proof (cases "learning_runs db = []")
  case False
  have "ru_number ` set (learning_runs db) = set (map ru_number (learning_runs db))" by simp
  also have "\<dots> = {1..length (learning_runs db)}" unfolding assms by auto
  finally have range: "ru_number ` set (learning_runs db) = {1..length (learning_runs db)}" .
  have "next_run_number db = length (learning_runs db) + 1"
    using range False by (intro next_run_number_eq) (auto simp: Suc_le_eq)
  then show ?thesis by simp
qed (simp add: next_run_number_def)

lemma run_cycle_step:
  assumes "inj (new_id P)" and "learning_ok P db"
  shows "ids_drawn db \<le> ids_drawn (snd (run_cycle P E db))
    \<and> (run_cycle P E db = (Inr x, db') \<longrightarrow> learning_ok P db' \<and> extends db db')"
proof (cases "run_cycle P E db")
  case (Pair res db1)
  show ?thesis
  proof (cases res)
    case (Inl e)
    have "db1 = db"
      using Pair Inl run_cycle_run [of P E db]
      by (cases "lc_enabled (lr_config P)"; cases "cycle_result P (cycle_views P E db)")
        (auto simp: run_cycle_def liftP_def)
    then show ?thesis using Pair Inl by simp
  next
    case (Inr r)
    obtain s where r: "r = completed_run P E db s" and db1: "db1 = after_cycle P E db s"
      using run_cycle_Inr [OF Pair [unfolded Inr]] by metis
    have new: "new_id P (ids_drawn db) \<notin> ru_id ` set (learning_runs db)"
      using assms(2) injD [OF assms(1)] unfolding learning_ok_def by (auto dest!: subsetD)
    have runs: "learning_runs db1 = learning_runs db @ [completed_run P E db s]"
      using new unfolding db1 after_cycle_def by (force intro: map_idI)
    have number: "next_run_number db = Suc (length (learning_runs db))"
      using assms(2) by (intro next_run_number_run) (simp add: learning_ok_def)
    have "learning_ok P db1 \<and> extends db db1"
      using assms(2) runs number unfolding learning_ok_def extends_def
      by (auto simp: db1 after_cycle_def completed_run_def)
    then show ?thesis using Pair Inr by (auto simp: extends_def)
  qed
qed

lemma judge_step:
  assumes "learning_ok P db"
  shows "ids_drawn db \<le> ids_drawn (snd (update_recommendation i st db))
    \<and> (update_recommendation i st db = (Inr x, db') \<longrightarrow> learning_ok P db' \<and> extends db db')"
proof -
  let ?judged = "\<lambda>db s. db\<lparr>recommendations :=
    map (\<lambda>r. if rr_id r = i then r\<lparr>rr_body := (rr_body r)\<lparr>rc_status := s\<rparr>\<rparr> else r) (recommendations db)\<rparr>"
  have "learning_ok P (?judged db s)" for s using assms by (auto simp: learning_ok_def)
  moreover have "update_recommendation i st db = (Inr x, db') \<Longrightarrow> \<exists>s. db' = ?judged db s"
    and "ids_drawn (snd (update_recommendation i st db)) = ids_drawn db"
    by (auto simp: update_recommendation_def set_status_def split: option.splits)
  ultimately show ?thesis by (auto simp: extends_def)
qed

lemma serve_learning_step:
  assumes "inj (new_id P)" and "learning_ok P db"
  shows "learning_ok P (serve_learning P q db) \<and> extends db (serve_learning P q db)"
proof -
  obtain E b where q: "q = (E, b)" by fastforce
  show ?thesis unfolding q
    using record_prediction_step [OF assms] record_outcome_step [OF assms(2)] run_cycle_step [OF assms] judge_step [OF assms(2)]
    by (cases b) (auto intro!: committed_step [OF assms(2)])
qed

text \<open>C22: Over every history of requests, whatever is refused or fails, the runs are numbered from one
  without a gap and complete, every recommendation belongs to a run, ids and external ids stay unique,
  and neither a run nor what was once predicted is ever changed.
\<close>

theorem learning_history:
  assumes "inj (new_id P)" and "learning_ok P db"
  shows "learning_ok P (fold (serve_learning P) qs db) \<and> extends db (fold (serve_learning P) qs db)"
  using assms(2)
proof (induction qs arbitrary: db)
  case (Cons q qs)
  then show ?case using serve_learning_step [OF assms(1) Cons.prems, of q] extends_trans by fastforce
qed (simp add: extends_refl)

section \<open>Instances\<close>

definition plain_tx :: "'i learning_tx" where
  "plain_tx =
     \<lparr>lt_start = 0, newest_predicted = sort_key (\<lambda>p. - pd_at p), oldest_created = sort_key pd_created,
      newest_created = sort_key (\<lambda>p. - pd_created p), most_severe = sort_key (\<lambda>r. - rc_severity (rr_body r))\<rparr>"

lemma plain_tx_lawful: "lawful_learning plain_tx"
  by (simp add: lawful_learning_def plain_tx_def orders_by_def)

definition plain_learner :: "nat learner" where
  "plain_learner =
     \<lparr>new_id = id, time_at = int, lr_libm = coarse_libm, half_power = (\<lambda>n. 1), text_float = (\<lambda>s. Inl ValueError),
      lr_config = usual_config\<rparr>"

definition kettle_sales :: prediction_create where
  "kettle_sales =
     \<lparr>pc_type = ''sales'', pc_subject = ''B00KETTLE'', pc_decision = ''rule'', pc_decision_id = Some ''r1'',
      pc_model = ''1.0.0'', pc_value = 12, pc_at = Some 3, pc_features = None, pc_context = None, pc_external = None\<rparr>"

definition kettle_sold :: outcome_create where
  "kettle_sold =
     \<lparr>oc_type = ''sales'', oc_subject = ''B00KETTLE'', oc_actual = 10, oc_decision_id = None, oc_model = None,
      oc_external = None, oc_at = Some 9\<rparr>"

lemma kettle_sold_simps [simp]:
  "oc_type kettle_sold = ''sales''" "oc_subject kettle_sold = ''B00KETTLE''" "oc_actual kettle_sold = 10"
  "oc_decision_id kettle_sold = None" "oc_model kettle_sold = None" "oc_external kettle_sold = None"
  "oc_at kettle_sold = Some 9"
  by (simp_all add: kettle_sold_def)

definition one_prediction :: "nat learning" where
  "one_prediction = serve_learning plain_learner (plain_tx, Predict kettle_sales) empty_learning"

lemma empty_learning_ok: "learning_ok P empty_learning"
  by (simp add: learning_ok_def empty_learning_def)

lemma one_prediction_run:
  "one_prediction = empty_learning\<lparr>ids_drawn := 1, predictions :=
     [prediction_row kettle_sales SALES_PREDICTION RULE_DECISION 3 0 0]\<rparr>"
  by (simp add: one_prediction_def committed_def record_prediction_def kettle_sales_def plain_learner_def usual_config_def
    read_ptype_def all_ptypes_def read_dtype_def all_dtypes_def known_prediction_def nonempty_def given_time_def
    draw_id_def insert_prediction_def prediction_row_def empty_learning_def plain_tx_def bindA_def)

theorem learning_history_witness:
  "learning_ok plain_learner (fold (serve_learning plain_learner)
       [(plain_tx, Predict kettle_sales), (plain_tx, Realise kettle_sold), (plain_tx, RunCycle)] empty_learning)
   \<and> extends empty_learning (fold (serve_learning plain_learner)
       [(plain_tx, Predict kettle_sales), (plain_tx, Realise kettle_sold), (plain_tx, RunCycle)] empty_learning)"
  by (rule learning_history [OF _ empty_learning_ok]) (simp add: plain_learner_def)

lemma kettle_matches:
  "filter (unresolved_matches ''sales'' ''B00KETTLE'' None None) (predictions one_prediction) = predictions one_prediction"
  by (simp add: one_prediction_run prediction_row_def kettle_sales_def unresolved_matches_def passes_def)

theorem outcome_resolves_newest_witness:
  "\<exists>new \<subseteq> set (predictions one_prediction). card new = min 10 1
    \<and> (\<forall>p \<in> new. \<forall>q \<in> set (predictions one_prediction) - new. pd_at q \<le> pd_at p)
    \<and> record_outcome plain_learner plain_tx kettle_sold one_prediction =
        (Inr (min 10 1),
         one_prediction\<lparr>predictions := map (\<lambda>p. if p \<in> new then realised 10 9 p else p) (predictions one_prediction)\<rparr>)"
proof -
  have "length (predictions one_prediction) = 1" "distinct (map pd_id (predictions one_prediction))"
    by (simp_all add: one_prediction_run)
  then show ?thesis
    using outcome_resolves_newest [OF plain_tx_lawful, of one_prediction kettle_sold 9 "predictions one_prediction" plain_learner]
    by (simp add: nonempty_def kettle_matches cong: if_cong)
qed

definition resolved_lab :: "nat learning" where
  "resolved_lab = snd (record_outcome plain_learner plain_tx kettle_sold one_prediction)"

lemma resolved_lab_predictions:
  "predictions resolved_lab = [realised 10 9 (prediction_row kettle_sales SALES_PREDICTION RULE_DECISION 3 0 0)]"
  by (simp add: resolved_lab_def record_outcome_def given_time_def outcome_rows_def nonempty_def
    find_unresolved_def kettle_matches plain_tx_def resolve_all_run) (simp add: one_prediction_run)

lemma kettle_cycle: "\<exists>r db. run_cycle plain_learner plain_tx resolved_lab = (Inr r, db)"
proof -
  obtain a where a: "accuracy_summary coarse_libm [10] [12] = Inr a"
    by (simp add: coarse_libm_def accuracy_summary_def mae_def rmse_def mape_def bias_def directional_accuracy_def
      pearson_def fmean_def sqrtE_def)
  have "cycle_views plain_learner plain_tx resolved_lab =
    [\<lparr>vw_type = SALES_PREDICTION, vw_decision = RULE_DECISION, vw_decision_id = Some ''r1'', vw_model = ''1.0.0'',
      vw_pred = 12, vw_actual = Some 10, vw_features = [], vw_at = 9\<rparr>]"
    by (simp add: resolved_of_def resolved_predictions_def resolved_lab_predictions plain_tx_def plain_learner_def usual_config_def
      row_view_def row_time_def realised_def prediction_row_def kettle_sales_def passes_def nonempty_def)
  then have "\<exists>s. cycle_result plain_learner (cycle_views plain_learner plain_tx resolved_lab) = Inr s"
    by (simp add: cycle_result_def views_of_type_def all_ptypes_def plain_learner_def usual_config_def measure_type_def
      actuals_def preds_def series_of_def rolling_accuracy_def overall_of_def scan_issues_def resolved_views_def grouped_def
      first_keys_def group_issue_def auto_tune_rules_def scored_rule_def binary_def auto_reweight_def feature_entries_def a)
  then show ?thesis using run_cycle_run [of plain_learner plain_tx resolved_lab]
    by (auto simp: plain_learner_def usual_config_def)
qed

theorem cycle_reproducible_witness:
  "\<exists>r db' r' db''. run_cycle plain_learner plain_tx resolved_lab = (Inr r, db')
    \<and> run_cycle plain_learner plain_tx db' = (Inr r', db'') \<and> ru_status r' = CYCLE_COMPLETED
    \<and> ru_summary r' = ru_summary r \<and> ru_params r' = ru_params r \<and> ru_number r' = ru_number r + 1
    \<and> map rr_body (recommendations db'') = map rr_body (recommendations db')
        @ cs_recommendations (the (ru_summary r))"
proof -
  obtain r db' where run: "run_cycle plain_learner plain_tx resolved_lab = (Inr r, db')" using kettle_cycle by metis
  have "distinct (map pd_created (predictions resolved_lab))" by (simp add: resolved_lab_predictions)
  from cycle_reproducible [OF plain_tx_lawful plain_tx_lawful this run] run show ?thesis by blast
qed

end
