(* ===== verification/Difflib.thy ===== *)
theory Difflib
  imports Texts Floats
begin

text \<open>
  \<open>difflib.SequenceMatcher(None, a, b).ratio()\<close> of the standard library, as the product matcher
  uses it: the longest common block through rows of lengths, the blocks to its left and right,
  and twice their total size over the total length. Characters that are frequent in a long
  second text are left out of the search (\<open>autojunk\<close>) and only extend blocks.
\<close>

section \<open>The longest block\<close>

text \<open>A block is its start in \<open>a\<close>, its start in \<open>b\<close> and its size.\<close>

type_synonym block = "nat \<times> nat \<times> nat"

definition popular :: "string \<Rightarrow> char \<Rightarrow> bool" where
  "popular b c \<longleftrightarrow> 200 \<le> length b \<and> length b div 100 + 1 < length (filter (\<lambda>x. x = c) b)"

definition b2j :: "string \<Rightarrow> char \<Rightarrow> nat list" where
  "b2j b c = (if popular b c then [] else filter (\<lambda>j. b ! j = c) [0..<length b])"

fun scan_positions :: "nat \<Rightarrow> (nat \<Rightarrow> nat) \<Rightarrow> nat list \<Rightarrow> (nat \<Rightarrow> nat) \<times> block \<Rightarrow> (nat \<Rightarrow> nat) \<times> block" where
  "scan_positions i j2len [] s = s"
| "scan_positions i j2len (j # js) (new, bi, bj, bk) =
     (let k = (if j = 0 then 0 else j2len (j - 1)) + 1 in
      scan_positions i j2len js (new(j := k), if bk < k then (i + 1 - k, j + 1 - k, k) else (bi, bj, bk)))"

fun scan_rows :: "string \<Rightarrow> string \<Rightarrow> nat \<Rightarrow> nat \<Rightarrow> nat list \<Rightarrow> (nat \<Rightarrow> nat) \<times> block \<Rightarrow> block" where
  "scan_rows a b blo bhi [] s = snd s"
| "scan_rows a b blo bhi (i # is) (j2len, best) =
     scan_rows a b blo bhi is
       (scan_positions i j2len (filter (\<lambda>j. blo \<le> j \<and> j < bhi) (b2j b (a ! i))) (\<lambda>j. 0, best))"

fun extend_left :: "string \<Rightarrow> string \<Rightarrow> nat \<Rightarrow> nat \<Rightarrow> block \<Rightarrow> block" where
  "extend_left a b alo blo (i, j, k) =
     (if alo < i \<and> blo < j \<and> a ! (i - 1) = b ! (j - 1) then extend_left a b alo blo (i - 1, j - 1, k + 1) else (i, j, k))"

declare extend_left.simps [simp del]

function extend_right :: "string \<Rightarrow> string \<Rightarrow> nat \<Rightarrow> nat \<Rightarrow> block \<Rightarrow> block" where
  "extend_right a b ahi bhi (i, j, k) =
     (if i + k < ahi \<and> j + k < bhi \<and> a ! (i + k) = b ! (j + k) then extend_right a b ahi bhi (i, j, k + 1) else (i, j, k))"
  by pat_completeness auto
termination by (relation "measure (\<lambda>(a, b, ahi, bhi, i, j, k). ahi - (i + k))") auto

declare extend_right.simps [simp del]

definition find_longest_match :: "string \<Rightarrow> string \<Rightarrow> nat \<Rightarrow> nat \<Rightarrow> nat \<Rightarrow> nat \<Rightarrow> block" where
  "find_longest_match a b alo ahi blo bhi =
     extend_right a b ahi bhi (extend_left a b alo blo
       (scan_rows a b blo bhi [alo..<ahi] (\<lambda>j. 0, alo, blo, 0)))"

section \<open>What a block satisfies\<close>

text \<open>The block lies in the given ranges of the texts.\<close>

definition in_ranges :: "nat \<Rightarrow> nat \<Rightarrow> nat \<Rightarrow> nat \<Rightarrow> block \<Rightarrow> bool" where
  "in_ranges alo ahi blo bhi x \<longleftrightarrow> (case x of (i, j, k) \<Rightarrow> alo \<le> i \<and> i + k \<le> ahi \<and> blo \<le> j \<and> j + k \<le> bhi)"

lemma extend_left_ranges: "in_ranges alo ahi blo bhi x \<Longrightarrow> in_ranges alo ahi blo bhi (extend_left a b alo blo x)"
proof (induction a b alo blo x rule: extend_left.induct)
  case (1 a b alo blo i j k)
  show ?case
  proof (cases "alo < i \<and> blo < j \<and> a ! (i - 1) = b ! (j - 1)")
    case True
    then have "in_ranges alo ahi blo bhi (i - 1, j - 1, k + 1)" using 1(2) by (auto simp: in_ranges_def)
    then show ?thesis using 1(1) True by (subst extend_left.simps) simp
  qed (use 1(2) in \<open>subst extend_left.simps, auto\<close>)
qed

lemma extend_right_ranges: "in_ranges alo ahi blo bhi x \<Longrightarrow> in_ranges alo ahi blo bhi (extend_right a b ahi bhi x)"
proof (induction a b ahi bhi x rule: extend_right.induct)
  case (1 a b ahi bhi i j k)
  show ?case
  proof (cases "i + k < ahi \<and> j + k < bhi \<and> a ! (i + k) = b ! (j + k)")
    case True
    then have "in_ranges alo ahi blo bhi (i, j, k + 1)" using 1(2) by (auto simp: in_ranges_def)
    then show ?thesis using 1(1) True by (subst extend_right.simps) simp
  qed (use 1(2) in \<open>subst extend_right.simps, auto\<close>)
qed

lemma extend_sizes:
  "snd (snd x) \<le> snd (snd (extend_left a b alo blo x))"
  "snd (snd x) \<le> snd (snd (extend_right a b ahi bhi x))"
proof -
  show "snd (snd x) \<le> snd (snd (extend_left a b alo blo x))"
  proof (induction a b alo blo x rule: extend_left.induct)
    case (1 a b alo blo i j k)
    then show ?case by (subst extend_left.simps) auto
  qed
  show "snd (snd x) \<le> snd (snd (extend_right a b ahi bhi x))"
  proof (induction a b ahi bhi x rule: extend_right.induct)
    case (1 a b ahi bhi i j k)
    then show ?case by (subst extend_right.simps) auto
  qed
qed

text \<open>The lengths a row stores, and its best block\<close>

lemma scan_positions_new:
  "fst (scan_positions i j2len js (new, best)) j =
     (if j \<in> set js then (if j = 0 then 0 else j2len (j - 1)) + 1 else new j)"
proof (induction js arbitrary: new best)
  case (Cons x js)
  obtain bi bj bk where "best = (bi, bj, bk)" by (cases best)
  then show ?case using Cons.IH by (auto simp: Let_def)
qed simp

definition lengths_ok :: "nat \<Rightarrow> nat \<Rightarrow> nat \<Rightarrow> nat \<Rightarrow> (nat \<Rightarrow> nat) \<Rightarrow> bool" where
  "lengths_ok alo i blo bhi j2len \<longleftrightarrow> (\<forall>j. j2len j \<le> i - alo \<and> (0 < j2len j \<longrightarrow> blo \<le> j \<and> j2len j \<le> j + 1 - blo))"

lemma scan_positions_best:
  assumes "lengths_ok alo i blo bhi j2len" and "alo \<le> i" and "i < ahi" and "\<forall>j \<in> set js. blo \<le> j \<and> j < bhi"
    and "in_ranges alo ahi blo bhi best"
  shows "in_ranges alo ahi blo bhi (snd (scan_positions i j2len js (new, best)))"
  using assms(4,5)
proof (induction js arbitrary: new best)
  case (Cons j js)
  obtain bi bj bk where best: "best = (bi, bj, bk)" by (cases best)
  define k where "k = (if j = 0 then 0 else j2len (j - 1)) + 1"
  have k: "k \<le> i + 1 - alo" "k \<le> j + 1 - blo"
  proof -
    have r: "j2len (j - 1) \<le> i - alo" "0 < j2len (j - 1) \<longrightarrow> blo \<le> j - 1 \<and> j2len (j - 1) \<le> j - 1 + 1 - blo"
      using assms(1) unfolding lengths_ok_def by blast+
    then show "k \<le> i + 1 - alo" using assms(2) by (auto simp: k_def)
    show "k \<le> j + 1 - blo" using r(2) Cons.prems(1) by (cases "j2len (j - 1) = 0") (auto simp: k_def)
  qed
  have "in_ranges alo ahi blo bhi (if bk < k then (i + 1 - k, j + 1 - k, k) else (bi, bj, bk))"
    using k Cons.prems assms(2,3) by (auto simp: in_ranges_def best)
  moreover have "scan_positions i j2len (j # js) (new, best) =
      scan_positions i j2len js (new(j := k), if bk < k then (i + 1 - k, j + 1 - k, k) else (bi, bj, bk))"
    by (simp add: best k_def Let_def)
  ultimately show ?case using Cons.IH Cons.prems(1) by (metis list.set_intros(2))
qed simp

lemma scan_rows_ranges:
  assumes "lengths_ok alo i blo bhi j2len" and "in_ranges alo ahi blo bhi best" and "alo \<le> i"
  shows "in_ranges alo ahi blo bhi (scan_rows a b blo bhi [i..<ahi] (j2len, best))"
  using assms
proof (induction "ahi - i" arbitrary: i j2len best)
  case (Suc n)
  let ?js = "filter (\<lambda>j. blo \<le> j \<and> j < bhi) (b2j b (a ! i))"
  have i: "i < ahi" using Suc(2) by simp
  obtain new best' where s: "scan_positions i j2len ?js (\<lambda>j. 0, best) = (new, best')" using prod.exhaust by metis
  have new: "new j = (if j \<in> set ?js then (if j = 0 then 0 else j2len (j - 1)) + 1 else 0)" for j
    using scan_positions_new [of i j2len ?js "\<lambda>j. 0" best j] s by simp
  have "lengths_ok alo (Suc i) blo bhi new"
    unfolding lengths_ok_def
  proof (intro allI conjI impI)
    fix j
    have r: "j2len (j - 1) \<le> i - alo" "0 < j2len (j - 1) \<longrightarrow> blo \<le> j - 1 \<and> j2len (j - 1) \<le> j - 1 + 1 - blo"
      using Suc.prems(1) unfolding lengths_ok_def by blast+
    show "new j \<le> Suc i - alo" using r(1) Suc.prems(3) by (auto simp: new)
    show "blo \<le> j" if "0 < new j" using that by (auto simp: new split: if_splits)
    show "new j \<le> j + 1 - blo" if "0 < new j"
      using that r(2) by (cases "j2len (j - 1) = 0") (auto simp: new split: if_splits)
  qed
  moreover have "in_ranges alo ahi blo bhi best'"
    using scan_positions_best [OF Suc.prems(1,3) i, of ?js best "\<lambda>j. 0"] Suc.prems(2) s by auto
  ultimately have "in_ranges alo ahi blo bhi (scan_rows a b blo bhi [Suc i..<ahi] (new, best'))"
    using Suc by (intro Suc.hyps(1)) auto
  then show ?case using i s by (simp add: upt_conv_Cons)
qed simp

lemma find_longest_ranges:
  assumes "alo \<le> ahi" and "blo \<le> bhi"
  shows "in_ranges alo ahi blo bhi (find_longest_match a b alo ahi blo bhi)"
proof -
  have "lengths_ok alo alo blo bhi (\<lambda>j. 0)" and "in_ranges alo ahi blo bhi (alo, blo, 0)"
    using assms by (simp_all add: lengths_ok_def in_ranges_def)
  then show ?thesis unfolding find_longest_match_def
    by (intro extend_right_ranges extend_left_ranges scan_rows_ranges) auto
qed

lemma find_longest_empty:
  assumes "\<not> (alo \<le> ahi \<and> blo \<le> bhi)"
  shows "find_longest_match a b alo ahi blo bhi = (alo, blo, 0)"
proof -
  have "scan_rows a b blo bhi is (j2len, best) = best" if "bhi < blo" for "is" j2len best
  proof (induction "is" arbitrary: j2len)
    case (Cons i "is")
    have "filter (\<lambda>j. blo \<le> j \<and> j < bhi) (b2j b (a ! i)) = []" using that by (simp add: filter_empty_conv)
    then show ?case using Cons.IH by simp
  qed simp
  then have "scan_rows a b blo bhi [alo..<ahi] (\<lambda>j. 0, alo, blo, 0) = (alo, blo, 0)"
    using assms by (cases "alo \<le> ahi") simp_all
  moreover have "extend_left a b alo blo (alo, blo, 0) = (alo, blo, 0)" by (subst extend_left.simps) simp
  moreover have "extend_right a b ahi bhi (alo, blo, 0) = (alo, blo, 0)" using assms by (subst extend_right.simps) auto
  ultimately show ?thesis by (simp add: find_longest_match_def)
qed

lemma find_longest_bounds:
  assumes "(i, j, k) = find_longest_match a b alo ahi blo bhi" and "k \<noteq> 0"
  shows "alo \<le> i" "i + k \<le> ahi" "blo \<le> j" "j + k \<le> bhi"
proof -
  have "in_ranges alo ahi blo bhi (i, j, k)"
    using find_longest_ranges [of alo ahi blo bhi a b] find_longest_empty [of alo ahi blo bhi a b] assms by force
  then show "alo \<le> i" "i + k \<le> ahi" "blo \<le> j" "j + k \<le> bhi" by (simp_all add: in_ranges_def)
qed

section \<open>The ratio\<close>

text \<open>The total size of the matching blocks; it does not depend on the order they are found in.\<close>

function matched_size :: "string \<Rightarrow> string \<Rightarrow> nat \<Rightarrow> nat \<Rightarrow> nat \<Rightarrow> nat \<Rightarrow> nat" where
  "matched_size a b alo ahi blo bhi =
     (case find_longest_match a b alo ahi blo bhi of
        (i, j, k) \<Rightarrow>
          if k = 0 then 0
          else k + (if alo < i \<and> blo < j then matched_size a b alo i blo j else 0)
                 + (if i + k < ahi \<and> j + k < bhi then matched_size a b (i + k) ahi (j + k) bhi else 0))"
  by pat_completeness auto
termination
  by (relation "measure (\<lambda>(a, b, alo, ahi, blo, bhi). ahi - alo)") (auto dest: find_longest_bounds)

declare matched_size.simps [simp del]

definition similarity_ratio :: "string \<Rightarrow> string \<Rightarrow> rat" where
  "similarity_ratio a b =
     (let n = length a + length b in
      if n = 0 then 1 else fdiv (fmul 2 (of_nat (matched_size a b 0 (length a) 0 (length b)))) (fl (of_nat n)))"

lemma matched_size_le: "matched_size a b alo ahi blo bhi \<le> min (ahi - alo) (bhi - blo)"
proof (induction a b alo ahi blo bhi rule: matched_size.induct)
  case (1 a b alo ahi blo bhi)
  obtain i j k where x: "find_longest_match a b alo ahi blo bhi = (i, j, k)" by (metis prod.exhaust)
  show ?case
  proof (cases "k = 0")
    case False
    note r = find_longest_bounds [OF x [symmetric] False]
    have "(if alo < i \<and> blo < j then matched_size a b alo i blo j else 0) \<le> min (i - alo) (j - blo)"
      using 1(1) [OF x [symmetric] refl False] by auto
    moreover have "(if i + k < ahi \<and> j + k < bhi then matched_size a b (i + k) ahi (j + k) bhi else 0)
        \<le> min (ahi - (i + k)) (bhi - (j + k))"
      using 1(2) [OF x [symmetric] refl False] by auto
    ultimately show ?thesis using x r False by (subst matched_size.simps) auto
  qed (use x in \<open>subst matched_size.simps, simp\<close>)
qed

lemma similarity_ratio_unit: "0 \<le> similarity_ratio a b \<and> similarity_ratio a b \<le> 1"
proof (cases "length a + length b = 0")
  case False
  define m where "m = matched_size a b 0 (length a) 0 (length b)"
  have "2 * m \<le> length a + length b" using matched_size_le [of a b 0 "length a" 0 "length b"] by (simp add: m_def)
  then have "rat_of_nat (2 * m) \<le> of_nat (length a + length b)" unfolding of_nat_le_iff .
  then have "fl (2 * of_nat m) \<le> fl (of_nat (length a + length b))" by (intro flr.r_mono) simp
  moreover have "0 < fl (of_nat (length a + length b))" using False by (intro flr.r_pos) (simp del: of_nat_add)
  moreover have "0 \<le> fl (2 * of_nat m)" by (intro flr.r_nonneg) simp
  ultimately show ?thesis using flr.r_ratio_unit False unfolding similarity_ratio_def Let_def m_def [symmetric] by auto
qed (simp add: similarity_ratio_def)

text \<open>The diagonal of a text against itself, when no character is popular\<close>

lemma scan_positions_size:
  "snd (snd best) \<le> snd (snd (snd (scan_positions i j2len js (new, best))))"
  "j \<in> set js \<Longrightarrow> (if j = 0 then 0 else j2len (j - 1)) + 1 \<le> snd (snd (snd (scan_positions i j2len js (new, best))))"
proof -
  show le: "snd (snd best) \<le> snd (snd (snd (scan_positions i j2len js (new, best))))" for new best js
  proof (induction js arbitrary: new best)
    case (Cons x js)
    obtain bi bj bk where b: "best = (bi, bj, bk)" by (cases best)
    show ?case unfolding b scan_positions.simps Let_def by (rule order_trans [OF _ Cons.IH]) simp
  qed simp
  show "j \<in> set js \<Longrightarrow> (if j = 0 then 0 else j2len (j - 1)) + 1 \<le> snd (snd (snd (scan_positions i j2len js (new, best))))"
  proof (induction js arbitrary: new best)
    case (Cons x js)
    obtain bi bj bk where b: "best = (bi, bj, bk)" by (cases best)
    show ?case
    proof (cases "j = x")
      case True
      show ?thesis unfolding b scan_positions.simps Let_def by (rule order_trans [OF _ le]) (simp add: True)
    next
      case False
      then show ?thesis using Cons unfolding b scan_positions.simps Let_def by simp
    qed
  qed simp
qed

lemma scan_rows_size: "snd (snd (snd s)) \<le> snd (snd (scan_rows a b blo bhi is s))"
proof (induction "is" arbitrary: s)
  case (Cons i "is")
  obtain j2len best where s: "s = (j2len, best)" by (cases s)
  show ?case unfolding s scan_rows.simps by (rule order_trans [OF _ Cons.IH]) (simp add: scan_positions_size(1))
qed simp

lemma diagonal:
  assumes "\<forall>c. \<not> popular a c" and "i < length a" and "0 < i \<longrightarrow> j2len (i - 1) = i"
  shows "length a \<le> snd (snd (scan_rows a a 0 (length a) [i..<length a] (j2len, best)))"
  using assms(2,3)
proof (induction "length a - i" arbitrary: i j2len best)
  case (Suc n)
  let ?js = "filter (\<lambda>j. 0 \<le> j \<and> j < length a) (b2j a (a ! i))"
  have mem: "i \<in> set ?js" using assms(1) Suc.prems(1) by (simp add: b2j_def)
  obtain new best' where s: "scan_positions i j2len ?js (\<lambda>j. 0, best) = (new, best')" by (metis prod.exhaust)
  have new: "new i = Suc i"
    using scan_positions_new [of i j2len ?js "\<lambda>j. 0" best i] mem Suc.prems(2) s by (cases i) auto
  have size: "Suc i \<le> snd (snd best')"
    using scan_positions_size(2) [OF mem, of j2len i "\<lambda>j. 0" best] Suc.prems(2) s by (cases i) auto
  have step: "scan_rows a a 0 (length a) [i..<length a] (j2len, best)
      = scan_rows a a 0 (length a) [Suc i..<length a] (new, best')"
    using Suc.prems(1) s by (simp add: upt_conv_Cons)
  show ?case
  proof (cases "Suc i < length a")
    case True
    then show ?thesis unfolding step using Suc.hyps(2) new by (intro Suc.hyps(1)) auto
  next
    case False
    then show ?thesis unfolding step using order_trans [OF _ scan_rows_size [of "(new, best')"]] size Suc.prems(1) by auto
  qed
qed simp

lemma matched_size_self:
  assumes "\<forall>c. \<not> popular a c"
  shows "matched_size a a 0 (length a) 0 (length a) = length a"
proof (cases "a = []")
  case True
  have "matched_size [] [] 0 0 0 0 \<le> 0" using matched_size_le [of "[]" "[]" 0 0 0 0] by simp
  then show ?thesis using True by simp
next
  case False
  obtain i j k where x: "find_longest_match a a 0 (length a) 0 (length a) = (i, j, k)" by (metis prod.exhaust)
  have "length a \<le> snd (snd (find_longest_match a a 0 (length a) 0 (length a)))"
    unfolding find_longest_match_def
    using False by (intro order_trans [OF _ extend_sizes(2)] order_trans [OF _ extend_sizes(1)] diagonal [OF assms]) auto
  then have "length a \<le> k" using x by simp
  moreover from this have "k \<noteq> 0" using False by (cases a) auto
  ultimately show ?thesis
    using x find_longest_bounds [OF x [symmetric]] matched_size_le [of a a 0 "length a" 0 "length a"]
    by (subst matched_size.simps) auto
qed

lemma similarity_ratio_self: "length a < 200 \<Longrightarrow> similarity_ratio a a = 1"
proof -
  assume "length a < 200"
  then have "matched_size a a 0 (length a) 0 (length a) = length a"
    by (intro matched_size_self) (simp add: popular_def)
  moreover have "rat_of_nat (length a + length a) = 2 * of_nat (length a)" by simp
  moreover have "0 < fl (2 * rat_of_nat (length a))" if "a \<noteq> []" by (rule flr.r_pos) (use that in simp)
  ultimately show ?thesis unfolding similarity_ratio_def Let_def by (metis add_is_0 divide_self flr.r_1 length_0_conv less_irrefl)
qed

end
