(* ===== verification/Matching.thy ===== *)
theory Matching
  imports Difflib Sha256 "HOL-Library.List_Lexorder" "HOL-Library.Char_ord"
begin

text \<open>
  Product matching (\<open>app/matching/models.py\<close>, \<open>matchers.py\<close>, \<open>engine.py\<close>): six techniques that score
  a supplier's product against an Amazon listing, their weighted mean, the explanation and the
  ranking. Texts are ASCII; the power \<open>x ** 0.5\<close> is the parameter \<open>half_root\<close>.
\<close>

section \<open>Models\<close>

record supplier_product =
  sp_code :: string
  sp_sku :: string
  sp_title :: string
  sp_upc :: "string option"
  sp_ean :: "string option"
  sp_gtin :: "string option"
  sp_brand :: "string option"
  sp_description :: "string option"
  sp_features :: "string list"
  sp_image :: "int list option"
  sp_weight :: "string option"
  sp_dimensions :: "string option"
  sp_model :: "string option"

record amazon_product =
  az_asin :: string
  az_title :: string
  az_upc :: "string option"
  az_ean :: "string option"
  az_gtin :: "string option"
  az_brand :: "string option"
  az_image :: "int list option"
  az_weight :: "string option"
  az_dimensions :: "string option"
  az_model :: "string option"
  az_embedding :: "rat list option"

record match_request =
  mq_supplier :: supplier_product
  mq_candidates :: "amazon_product list"
  mq_min :: rat
  mq_max :: nat

record matcher_score =
  sc_matcher :: string
  sc_confidence :: rat
  sc_weight :: rat
  sc_weighted :: rat
  sc_matched :: bool
  sc_details :: "fstring option"

record explanation =
  xp_summary :: fstring
  xp_matched :: "string list"
  xp_rejected :: "string list"
  xp_unavailable :: "string list"
  xp_scores :: "matcher_score list"

record match_result =
  mr_asin :: string
  mr_title :: string
  mr_confidence :: rat
  mr_explanation :: explanation
  mr_match :: bool

record match_response =
  rs_results :: "match_result list"
  rs_total :: nat
  rs_time :: rat

text \<open>A matcher: its score, or the text of the exception it raises.\<close>

record matcher =
  mt_name :: string
  mt_weight :: rat
  mt_score :: "supplier_product \<Rightarrow> amazon_product \<Rightarrow> string + matcher_score"

definition make_score :: "string \<Rightarrow> rat \<Rightarrow> rat \<Rightarrow> bool \<Rightarrow> fstring \<Rightarrow> matcher_score" where
  "make_score name weight confidence matched details =
     \<lparr>sc_matcher = name, sc_confidence = round_float 4 (max 0 (min 1 confidence)), sc_weight = weight,
      sc_weighted = round_float 4 (max 0 (min 1 (fmul confidence weight))), sc_matched = matched,
      sc_details = Some details\<rparr>"

text \<open>A text that is given and not empty\<close>

definition given_text :: "string option \<Rightarrow> bool" where
  "given_text x \<longleftrightarrow> x \<noteq> None \<and> x \<noteq> Some []"

definition text_or_empty :: "string option \<Rightarrow> string" where
  "text_or_empty x = (case x of None \<Rightarrow> [] | Some s \<Rightarrow> s)"

section \<open>Barcodes\<close>

definition normalize_barcode :: "string \<Rightarrow> string" where
  "normalize_barcode s =
     (let t = dropWhile (\<lambda>c. c = CHR ''0'') (strip s) in if t = [] then ''0'' else t)"

definition same_barcode :: "string option \<Rightarrow> string option \<Rightarrow> bool" where
  "same_barcode x y \<longleftrightarrow> given_text x \<and> given_text y \<and> normalize_barcode (the x) = normalize_barcode (the y)"

definition barcode_score :: "supplier_product \<Rightarrow> amazon_product \<Rightarrow> matcher_score" where
  "barcode_score s a =
     (let make = make_score ''barcode'' (fl (19 / 20)) in
      if same_barcode (sp_gtin s) (az_gtin a) then make (fl (49 / 50)) True [Lit ''GTIN exact match'']
      else if same_barcode (sp_ean s) (az_ean a) then make (fl (97 / 100)) True [Lit ''EAN exact match'']
      else if same_barcode (sp_upc s) (az_upc a) then make (fl (19 / 20)) True [Lit ''UPC exact match'']
      else if \<not> (given_text (sp_upc s) \<or> given_text (sp_ean s) \<or> given_text (sp_gtin s))
        then make 0 False [Lit ''No supplier barcode data available'']
      else if \<not> (given_text (az_upc a) \<or> given_text (az_ean a) \<or> given_text (az_gtin a))
        then make 0 False [Lit ''No Amazon barcode data available'']
      else make 0 False [Lit ''Barcodes do not match''])"

section \<open>Brand and title\<close>

fun is_prefix_of :: "string \<Rightarrow> string \<Rightarrow> bool" where
  "is_prefix_of [] s = True"
| "is_prefix_of (c # cs) [] = False"
| "is_prefix_of (c # cs) (d # ds) = (c = d \<and> is_prefix_of cs ds)"

text \<open>\<open>x in s\<close>\<close>

fun contained :: "string \<Rightarrow> string \<Rightarrow> bool" where
  "contained x [] = (x = [])"
| "contained x (c # cs) = (is_prefix_of x (c # cs) \<or> contained x cs)"

definition brands_match :: "string \<Rightarrow> string \<Rightarrow> bool" where
  "brands_match sb ab =
     (if sb = [] \<or> ab = [] then False
      else
        (let s = lower (strip sb); a = lower (strip ab) in
         s = a \<or> contained s a \<or> contained a s \<or> fl (4 / 5) \<le> similarity_ratio s a))"

text \<open>\<open>re.findall(r"[a-z0-9]+", text)\<close>\<close>

definition token_char :: "char \<Rightarrow> bool" where
  "token_char c = (let n = of_char c :: nat in (97 \<le> n \<and> n \<le> 122) \<or> (48 \<le> n \<and> n \<le> 57))"

function token_runs :: "string \<Rightarrow> string list" where
  "token_runs s =
     (let t = dropWhile (\<lambda>c. \<not> token_char c) s in
      if t = [] then [] else takeWhile token_char t # token_runs (dropWhile token_char t))"
  by pat_completeness auto
termination
proof (relation "measure length")
  fix s t :: string
  assume t: "t = dropWhile (\<lambda>c. \<not> token_char c) s" "t \<noteq> []"
  have "token_char (hd t)" using t hd_dropWhile [of "\<lambda>c. \<not> token_char c" s] by auto
  then have "length (dropWhile token_char t) < length t"
    using t(2) length_dropWhile_le [of token_char "tl t"] by (cases t) auto
  also have "\<dots> \<le> length s" unfolding t(1) by (rule length_dropWhile_le)
  finally show "(dropWhile token_char t, s) \<in> measure length" by simp
qed simp

definition common_words :: "string list" where
  "common_words = [''the'', ''a'', ''an'', ''and'', ''or'', ''for'', ''of'', ''in'', ''on'', ''with'', ''to'', ''by'']"

definition tokenize :: "string \<Rightarrow> string list" where
  "tokenize t = filter (\<lambda>w. w \<notin> set common_words \<and> 1 < length w) (token_runs (lower t))"

definition token_jaccard :: "string list \<Rightarrow> string list \<Rightarrow> rat" where
  "token_jaccard xs ys =
     (let both = filter (\<lambda>x. x \<in> set ys) (remdups xs); any = remdups (xs @ ys) in
      if any = [] then 0 else fdiv (of_nat (length both)) (of_nat (length any)))"

definition title_similarity :: "string \<Rightarrow> string \<Rightarrow> rat" where
  "title_similarity x y =
     (if x = [] \<or> y = [] then 0
      else
        (let xs = tokenize x; ys = tokenize y in
         if xs = [] \<or> ys = [] then 0
         else round_float 4 (fadd (fmul (fl (3 / 5)) (token_jaccard xs ys))
                                  (fmul (fl (2 / 5)) (similarity_ratio (lower x) (lower y))))))"

definition brand_title_score :: "supplier_product \<Rightarrow> amazon_product \<Rightarrow> matcher_score" where
  "brand_title_score s a =
     (let make = make_score ''brand_title'' (fl (7 / 10)) in
      if \<not> given_text (sp_brand s) then make 0 False [Lit ''No supplier brand data available'']
      else
        (let sim = title_similarity (sp_title s) (az_title a) in
         if brands_match (the (sp_brand s)) (text_or_empty (az_brand a)) then
           if fl (4 / 5) \<le> sim then make (fl (17 / 20)) True [Lit ''Brand match + high title similarity ('', Fix 2 sim, Lit '')'']
           else if 1 / 2 \<le> sim then make (fl (7 / 10)) True [Lit ''Brand match + moderate title similarity ('', Fix 2 sim, Lit '')'']
           else make (fl (2 / 5)) False [Lit ''Brand match but low title similarity ('', Fix 2 sim, Lit '')'']
         else if fl (4 / 5) \<le> sim then make (fl (3 / 10)) False [Lit ''Brand mismatch but high title similarity ('', Fix 2 sim, Lit '')'']
         else make 0 False [Lit ''Brand mismatch and low title similarity ('', Fix 2 sim, Lit '')'']))"

definition title_score :: "supplier_product \<Rightarrow> amazon_product \<Rightarrow> matcher_score" where
  "title_score s a =
     (let make = make_score ''title_fuzzy'' (1 / 2); sim = title_similarity (sp_title s) (az_title a) in
      if fl (9 / 10) \<le> sim then make (3 / 4) True [Lit ''Title similarity: '', Fix 2 sim]
      else if fl (7 / 10) \<le> sim then make (fl (11 / 20)) True [Lit ''Title similarity: '', Fix 2 sim]
      else if 1 / 2 \<le> sim then make (fl (3 / 10)) False [Lit ''Title similarity: '', Fix 2 sim]
      else make 0 False [Lit ''Title similarity too low: '', Fix 2 sim])"

section \<open>Specifications\<close>

text \<open>\<open>float\<close> of every match of \<open>(\d+\.?\d*)\<close>: digits, perhaps a point, perhaps digits.\<close>

function numbers_in :: "string \<Rightarrow> rat list" where
  "numbers_in [] = []"
| "numbers_in (c # cs) =
     (if \<not> is_digit c then numbers_in cs
      else
        (let ip = takeWhile is_digit (c # cs); rest = dropWhile is_digit (c # cs);
             point = rest \<noteq> [] \<and> hd rest = CHR ''.'';
             fp = (if point then takeWhile is_digit (tl rest) else []) in
         fl (of_nat (read_digits (ip @ fp)) / 10 ^ length fp)
         # numbers_in (if point then dropWhile is_digit (tl rest) else rest)))"
  by pat_completeness auto
termination
proof (relation "measure length")
  fix c cs ip rest point and fp :: string
  assume c: "\<not> \<not> is_digit c" and rest: "rest = dropWhile is_digit (c # cs)"
  have "length rest \<le> length cs" using c rest length_dropWhile_le [of is_digit cs] by simp
  then have "length (if point then dropWhile is_digit (tl rest) else rest) \<le> length cs"
    using length_dropWhile_le [of is_digit "tl rest"] by auto
  then show "(if point then dropWhile is_digit (tl rest) else rest, c # cs) \<in> measure length" by simp
qed auto

definition close_values :: "rat \<Rightarrow> rat \<Rightarrow> bool" where
  "close_values x y \<longleftrightarrow> fl (4 / 5) \<le> (if 0 < max x y then fdiv (min x y) (max x y) else 0)"

definition weights_match :: "string \<Rightarrow> string \<Rightarrow> bool" where
  "weights_match s a =
     (case (numbers_in s, numbers_in a) of (x # _, y # _) \<Rightarrow> close_values x y | _ \<Rightarrow> False)"

definition dimensions_match :: "string \<Rightarrow> string \<Rightarrow> bool" where
  "dimensions_match s a =
     (let xs = numbers_in s; ys = numbers_in a in
      if xs = [] \<or> ys = [] \<or> length xs \<noteq> length ys then False
      else fmul (of_nat (length xs)) (1 / 2) \<le> of_nat (length (filter (\<lambda>(x, y). close_values x y) (zip xs ys))))"

definition models_match :: "string \<Rightarrow> string \<Rightarrow> bool" where
  "models_match s a \<longleftrightarrow> lower (strip s) = lower (strip a)"

text \<open>A check that both sides allow: whether it matched, and what it then adds\<close>

definition spec_check ::
  "string \<Rightarrow> (string \<Rightarrow> string \<Rightarrow> bool) \<Rightarrow> rat \<Rightarrow> string option \<Rightarrow> string option \<Rightarrow> (string \<times> bool \<times> rat) list" where
  "spec_check name test points s a =
     (if given_text s \<and> given_text a then [(name, test (the s) (the a), points)] else [])"

definition spec_score :: "supplier_product \<Rightarrow> amazon_product \<Rightarrow> matcher_score" where
  "spec_score s a =
     (let make = make_score ''specifications'' (fl (3 / 5));
          brand = brands_match (text_or_empty (sp_brand s)) (text_or_empty (az_brand a));
          checks =
            spec_check ''model_number'' models_match (if brand then fl (4 / 5) else fl (2 / 5)) (sp_model s) (az_model a)
            @ spec_check ''weight'' weights_match (if brand then fl (3 / 5) else fl (3 / 10)) (sp_weight s) (az_weight a)
            @ spec_check ''dimensions'' dimensions_match (if brand then fl (11 / 20) else 1 / 4) (sp_dimensions s) (az_dimensions a);
          good = filter (\<lambda>(name, ok, points). ok) checks;
          points = foldl (\<lambda>t (name, ok, p). fadd t p) 0 good in
      if checks = [] then make 0 False [Lit ''No specification data available for comparison'']
      else make (fdiv points (of_nat (length checks))) (good \<noteq> [])
        [Lit ''Matched '', Num (of_nat (length good)), Lit ''/'', Num (of_nat (length checks)), Lit '' specs: '',
         Txt (if good = [] then ''none'' else join_str '', '' (map fst good))])"

section \<open>Images\<close>

unbundle bit_operations_syntax

text \<open>The first eight bytes of the SHA-256 digest\<close>

definition perceptual_hash :: "int list \<Rightarrow> 64 word" where
  "perceptual_hash bs =
     (case sha256 bs of w0 # w1 # _ \<Rightarrow> (push_bit 32 (ucast w0) OR ucast w1) | _ \<Rightarrow> 0)"

definition hamming_distance :: "64 word \<Rightarrow> 64 word \<Rightarrow> nat" where
  "hamming_distance x y = length (filter (\<lambda>n. bit (x XOR y) n) [0..<64])"

definition image_score :: "supplier_product \<Rightarrow> amazon_product \<Rightarrow> matcher_score" where
  "image_score s a =
     (let make = make_score ''image_similarity'' (fl (2 / 5)) in
      case (sp_image s, az_image a) of
        (Some (x # xs), Some (y # ys)) \<Rightarrow>
          (let d = hamming_distance (perceptual_hash (x # xs)) (perceptual_hash (y # ys));
               c = max 0 (min 1 (fsub 1 (fdiv (of_nat d) 64))) in
           make c (1 / 2 < c) [Lit ''Perceptual hash distance: '', Num (of_nat d), Lit ''/'', Num 64])
      | _ \<Rightarrow> make 0 False [Lit ''Image data not available for comparison''])"

section \<open>Embeddings\<close>

definition word_bytes :: "32 word \<Rightarrow> int list" where
  "word_bytes w = map (\<lambda>k. uint w div 256 ^ k mod 256) [3, 2, 1, 0]"

definition embedding_text :: "supplier_product \<Rightarrow> string" where
  "embedding_text s =
     join_str '' '' (filter (\<lambda>p. p \<noteq> [])
       [sp_title s, text_or_empty (sp_description s), text_or_empty (sp_brand s), join_str '' '' (sp_features s)])"

definition magnitude :: "(rat \<Rightarrow> rat) \<Rightarrow> rat list \<Rightarrow> rat" where
  "magnitude half_root xs = half_root (float_sum (map (\<lambda>x. fmul x x) xs))"

definition text_embedding :: "(rat \<Rightarrow> rat) \<Rightarrow> string \<Rightarrow> rat list" where
  "text_embedding half_root t =
     (let xs = map (\<lambda>b. fdiv (of_int b) 255) (concat (map word_bytes (sha256 (utf8 t)))); m = magnitude half_root xs in
      if 0 < m then map (\<lambda>x. fdiv x m) xs else xs)"

definition supplier_embedding :: "(rat \<Rightarrow> rat) \<Rightarrow> supplier_product \<Rightarrow> rat list option" where
  "supplier_embedding half_root s =
     (if embedding_text s = [] then None else Some (text_embedding half_root (embedding_text s)))"

definition cosine_similarity :: "(rat \<Rightarrow> rat) \<Rightarrow> rat list \<Rightarrow> rat list \<Rightarrow> rat" where
  "cosine_similarity half_root xs ys =
     (if xs = [] \<or> ys = [] then 0
      else
        (let dot = float_sum (map (\<lambda>(x, y). fmul x y) (zip xs ys)); mx = magnitude half_root xs; my = magnitude half_root ys in
         if mx = 0 \<or> my = 0 then 0 else fdiv dot (fmul mx my)))"

definition embedding_score :: "(rat \<Rightarrow> rat) \<Rightarrow> supplier_product \<Rightarrow> amazon_product \<Rightarrow> matcher_score" where
  "embedding_score half_root s a =
     (let make = make_score ''embeddings'' (fl (13 / 20)) in
      case az_embedding a of
        Some (y # ys) \<Rightarrow>
          (case supplier_embedding half_root s of
             None \<Rightarrow> make 0 False [Lit ''Could not generate supplier embedding'']
           | Some xs \<Rightarrow>
               (let sim = cosine_similarity half_root xs (y # ys) in
                if fl (19 / 20) \<le> sim then make (fl (9 / 10)) True [Lit ''Embedding similarity: '', Fix 4 sim]
                else if fl (17 / 20) \<le> sim then make (3 / 4) True [Lit ''Embedding similarity: '', Fix 4 sim]
                else if fl (7 / 10) \<le> sim then make (fl (11 / 20)) True [Lit ''Embedding similarity: '', Fix 4 sim]
                else if 1 / 2 \<le> sim then make (fl (3 / 10)) False [Lit ''Embedding similarity: '', Fix 4 sim]
                else make 0 False [Lit ''Embedding similarity too low: '', Fix 4 sim]))
      | _ \<Rightarrow> make 0 False [Lit ''No Amazon embedding available''])"

definition matcher_of :: "string \<Rightarrow> rat \<Rightarrow> (supplier_product \<Rightarrow> amazon_product \<Rightarrow> matcher_score) \<Rightarrow> matcher" where
  "matcher_of name weight score = \<lparr>mt_name = name, mt_weight = weight, mt_score = (\<lambda>s a. Inr (score s a))\<rparr>"

definition default_matchers :: "(rat \<Rightarrow> rat) \<Rightarrow> matcher list" where
  "default_matchers half_root =
     [matcher_of ''barcode'' (fl (19 / 20)) barcode_score, matcher_of ''brand_title'' (fl (7 / 10)) brand_title_score,
      matcher_of ''specifications'' (fl (3 / 5)) spec_score, matcher_of ''embeddings'' (fl (13 / 20)) (embedding_score half_root),
      matcher_of ''title_fuzzy'' (1 / 2) title_score, matcher_of ''image_similarity'' (fl (2 / 5)) image_score]"

section \<open>The engine\<close>

text \<open>
  A word of the indicators never spans a formatted number, so that the pieces of the details are
  searched one by one.
\<close>

fun piece_mentions :: "string \<Rightarrow> fpiece \<Rightarrow> bool" where
  "piece_mentions w (Lit s) = contained w (lower s)"
| "piece_mentions w (Txt s) = contained w (lower s)"
| "piece_mentions w p = False"

definition mentions :: "string \<Rightarrow> matcher_score \<Rightarrow> bool" where
  "mentions w s = (case sc_details s of None \<Rightarrow> False | Some d \<Rightarrow> list_ex (piece_mentions w) d)"

definition unavailable_indicators :: "string list" where
  "unavailable_indicators =
     [''not available'', ''no data'', ''no supplier'', ''no amazon'', ''could not'', ''unavailable'', ''missing'',
      ''no specification'', ''no embedding'', ''no image'', ''image data not'']"

definition counts_in :: "matcher_score \<Rightarrow> bool" where
  "counts_in s \<longleftrightarrow> \<not> (sc_confidence s = 0 \<and> list_ex (\<lambda>w. mentions w s) unavailable_indicators)"

definition calculate_confidence :: "matcher_score list \<Rightarrow> rat" where
  "calculate_confidence scores =
     (case wacc fl (0, 0) (map (\<lambda>s. (sc_confidence s, sc_weight s)) (filter counts_in scores)) of
        (t, w) \<Rightarrow> if w = 0 then 0 else fdiv t w)"

datatype field_class = MATCHED | REJECTED | UNAVAILABLE

definition run_matcher :: "supplier_product \<Rightarrow> amazon_product \<Rightarrow> matcher \<Rightarrow> matcher_score \<times> field_class" where
  "run_matcher s a m =
     (case mt_score m s a of
        Inr x \<Rightarrow>
          (x, if 0 < sc_confidence x then (if sc_matched x then MATCHED else REJECTED)
              else if mentions ''not available'' x then UNAVAILABLE else REJECTED)
      | Inl e \<Rightarrow>
          (\<lparr>sc_matcher = mt_name m, sc_confidence = 0, sc_weight = mt_weight m, sc_weighted = 0, sc_matched = False,
            sc_details = Some [Lit ''Error: '', Txt e]\<rparr>, UNAVAILABLE))"

definition generate_explanation ::
  "matcher_score list \<Rightarrow> string list \<Rightarrow> string list \<Rightarrow> string list \<Rightarrow> explanation" where
  "generate_explanation scores matched rejected unavailable =
     \<lparr>xp_summary =
        (if matched \<noteq> [] then
           (let top = first_max sc_confidence scores in
            [Lit ''Match found via '', Txt (sc_matcher top), Lit '' (confidence: '', Fix 2 (sc_confidence top), Lit ''). '',
             Num (of_nat (length matched)), Lit ''/'', Num (of_nat (length scores)), Lit '' matchers contributed.''])
         else [Lit ''No strong match. '', Num (of_nat (length rejected)), Lit '' matchers rejected, '',
               Num (of_nat (length unavailable)), Lit '' had no data.'']),
      xp_matched = sort matched, xp_rejected = sort rejected, xp_unavailable = sort unavailable,
      xp_scores = sort_desc sc_confidence scores\<rparr>"

definition fields_in :: "field_class \<Rightarrow> (matcher \<times> matcher_score \<times> field_class) list \<Rightarrow> string list" where
  "fields_in k xs = map (\<lambda>(m, s, c). mt_name m) (filter (\<lambda>(m, s, c). c = k) xs)"

definition evaluate_candidate ::
  "matcher list \<Rightarrow> rat \<Rightarrow> supplier_product \<Rightarrow> amazon_product \<Rightarrow> match_result" where
  "evaluate_candidate ms threshold s a =
     (let xs = map (\<lambda>m. (m, run_matcher s a m)) ms; scores = map (\<lambda>(m, x, c). x) xs;
          confidence = calculate_confidence scores in
      \<lparr>mr_asin = az_asin a, mr_title = az_title a, mr_confidence = round_float 4 confidence,
       mr_explanation = generate_explanation scores (fields_in MATCHED xs) (fields_in REJECTED xs) (fields_in UNAVAILABLE xs),
       mr_match = (threshold \<le> confidence)\<rparr>)"

definition match_products :: "matcher list \<Rightarrow> rat \<Rightarrow> rat \<Rightarrow> match_request \<Rightarrow> match_response" where
  "match_products ms threshold elapsed q =
     \<lparr>rs_results = take (mq_max q) (sort_desc mr_confidence
        (filter (\<lambda>r. mq_min q \<le> mr_confidence r) (map (evaluate_candidate ms threshold (mq_supplier q)) (mq_candidates q)))),
      rs_total = length (mq_candidates q), rs_time = round_float 2 (fmul elapsed 1000)\<rparr>"

text \<open>
  An engine made without matchers works on the module's own list, which is one object for all of
  them: the state is that list, and an engine holds a list of its own or none.
\<close>

record match_engine =
  en_own :: "matcher list option"
  en_threshold :: rat

definition new_engine :: "matcher list option \<Rightarrow> rat \<Rightarrow> match_engine" where
  "new_engine ms t = \<lparr>en_own = (if ms = Some [] then None else ms), en_threshold = t\<rparr>"

definition engine_matchers :: "matcher list \<Rightarrow> match_engine \<Rightarrow> matcher list" where
  "engine_matchers shared e = (case en_own e of None \<Rightarrow> shared | Some ms \<Rightarrow> ms)"

definition add_matcher :: "matcher \<Rightarrow> match_engine \<Rightarrow> matcher list \<Rightarrow> match_engine \<times> matcher list" where
  "add_matcher m e shared =
     (case en_own e of None \<Rightarrow> (e, shared @ [m]) | Some ms \<Rightarrow> (e\<lparr>en_own := Some (ms @ [m])\<rparr>, shared))"

definition set_threshold :: "rat \<Rightarrow> match_engine \<Rightarrow> match_engine" where
  "set_threshold t e = e\<lparr>en_threshold := max 0 (min 1 t)\<rparr>"

definition engine_match :: "matcher list \<Rightarrow> match_engine \<Rightarrow> rat \<Rightarrow> match_request \<Rightarrow> match_response" where
  "engine_match shared e elapsed q = match_products (engine_matchers shared e) (en_threshold e) elapsed q"

end
