(* ===== verification/MatchingProps.thy ===== *)
theory MatchingProps
  imports Matching
begin

text \<open>
  What product matching guarantees: every response is well formed, identical products match
  when their title has a token, and an exact barcode alone does not make a match.
\<close>

section \<open>Scores in range\<close>

text \<open>What pydantic checks when a score is made, with a weight that is a float\<close>

definition valid_score :: "matcher_score \<Rightarrow> bool" where
  "valid_score s \<longleftrightarrow> 0 \<le> sc_confidence s \<and> sc_confidence s \<le> 1 \<and> 0 \<le> sc_weight s \<and> sc_weight s \<le> 1
     \<and> fl_rep (sc_weight s) \<and> 0 \<le> sc_weighted s \<and> sc_weighted s \<le> 1"

lemma round_float_unit: "0 \<le> x \<Longrightarrow> x \<le> 1 \<Longrightarrow> 0 \<le> round_float k x \<and> round_float k x \<le> 1"
  using round_float_mono [of 0 x k] round_float_mono [of x 1 k] by simp

lemma make_score_valid:
  assumes "0 \<le> w" and "w \<le> 1"
  shows "valid_score (make_score name (fl w) c m d)"
proof -
  have "0 \<le> fl w" "fl w \<le> 1" using flr.r_unit [OF assms] by simp_all
  then show ?thesis
    unfolding valid_score_def make_score_def using round_float_unit [of "max 0 (min 1 c)" 4]
      round_float_unit [of "max 0 (min 1 (fmul c (fl w)))" 4] flr.rep_r [of w] by simp
qed

lemma default_scores_valid:
  "valid_score (barcode_score s a)" "valid_score (brand_title_score s a)" "valid_score (spec_score s a)"
  "valid_score (embedding_score half_root s a)" "valid_score (title_score s a)" "valid_score (image_score s a)"
proof -
  show "valid_score (barcode_score s a)" by (simp add: barcode_score_def Let_def make_score_valid)
  show "valid_score (brand_title_score s a)" by (simp add: brand_title_score_def Let_def make_score_valid)
  show "valid_score (spec_score s a)" by (simp add: spec_score_def Let_def make_score_valid)
  show "valid_score (embedding_score half_root s a)"
    by (simp add: embedding_score_def Let_def make_score_valid split: option.split list.split)
  have half: "valid_score (make_score n (1 / 2) c m d)" for n c m d
    using make_score_valid [of "1 / 2" n c m d] fl_rep_half [of 1] by (simp add: flr.r_fix)
  show "valid_score (title_score s a)" by (simp add: title_score_def Let_def half)
  show "valid_score (image_score s a)"
    by (simp add: image_score_def Let_def make_score_valid split: option.split list.split)
qed

text \<open>A matcher whose scores are valid and whose own weight is\<close>

definition sound_matcher :: "matcher \<Rightarrow> bool" where
  "sound_matcher m \<longleftrightarrow> 0 \<le> mt_weight m \<and> mt_weight m \<le> 1 \<and> fl_rep (mt_weight m)
     \<and> (\<forall>s a x. mt_score m s a = Inr x \<longrightarrow> valid_score x)"

lemma run_matcher_valid: "sound_matcher m \<Longrightarrow> valid_score (fst (run_matcher s a m))"
  by (auto simp: sound_matcher_def run_matcher_def valid_score_def split: sum.splits)

lemma default_matchers_cases:
  assumes "m \<in> set (default_matchers half_root)"
  obtains "m = matcher_of ''barcode'' (fl (19 / 20)) barcode_score"
    | "m = matcher_of ''brand_title'' (fl (7 / 10)) brand_title_score"
    | "m = matcher_of ''specifications'' (fl (3 / 5)) spec_score"
    | "m = matcher_of ''embeddings'' (fl (13 / 20)) (embedding_score half_root)"
    | "m = matcher_of ''title_fuzzy'' (1 / 2) title_score"
    | "m = matcher_of ''image_similarity'' (fl (2 / 5)) image_score"
  using assms unfolding default_matchers_def by auto

lemma default_matchers_sound: "m \<in> set (default_matchers half_root) \<Longrightarrow> sound_matcher m"
proof -
  have w: "0 \<le> fl w \<and> fl w \<le> 1 \<and> fl_rep (fl w)" if "0 \<le> w" "w \<le> 1" for w
    using flr.r_unit [OF that] flr.rep_r [of w] by simp
  have "fl_rep (1 / 2)" using fl_rep_half [of 1] by simp
  then show "m \<in> set (default_matchers half_root) \<Longrightarrow> sound_matcher m"
    using default_scores_valid w
    by (elim default_matchers_cases) (simp_all add: matcher_of_def sound_matcher_def)
qed

lemma calculate_confidence_unit:
  assumes "\<forall>s \<in> set scores. valid_score s"
  shows "0 \<le> calculate_confidence scores \<and> calculate_confidence scores \<le> 1"
proof -
  obtain t w where tw: "wacc fl (0, 0) (map (\<lambda>s. (sc_confidence s, sc_weight s)) (filter counts_in scores)) = (t, w)"
    by (metis prod.exhaust)
  have "0 \<le> t \<and> t \<le> w"
    using flr.wacc_bounds [of "map (\<lambda>s. (sc_confidence s, sc_weight s)) (filter counts_in scores)" 0 0] assms tw
    by (auto simp: valid_score_def)
  then show ?thesis using tw flr.r_ratio_unit [of t w] by (auto simp: calculate_confidence_def)
qed

section \<open>The response\<close>

text \<open>A result of an engine with the given matchers: the confidence and every score in range, one
  score per matcher, and every matcher in exactly one list of the explanation.\<close>

definition valid_result :: "matcher list \<Rightarrow> match_result \<Rightarrow> bool" where
  "valid_result ms r \<longleftrightarrow> 0 \<le> mr_confidence r \<and> mr_confidence r \<le> 1
     \<and> length (xp_scores (mr_explanation r)) = length ms \<and> list_all valid_score (xp_scores (mr_explanation r))
     \<and> mset (xp_matched (mr_explanation r)) + mset (xp_rejected (mr_explanation r)) + mset (xp_unavailable (mr_explanation r))
       = mset (map mt_name ms)"

lemma fields_partition:
  "mset (fields_in MATCHED xs) + mset (fields_in REJECTED xs) + mset (fields_in UNAVAILABLE xs) = mset (map (\<lambda>(m, s, c). mt_name m) xs)"
proof (induction xs)
  case (Cons x xs)
  obtain m s c where "x = (m, s, c)" by (metis prod.exhaust)
  then show ?case using Cons by (cases c) (auto simp: fields_in_def)
qed (simp add: fields_in_def)

lemma evaluate_candidate_sound:
  assumes "\<forall>m \<in> set ms. sound_matcher m"
  shows "valid_result ms (evaluate_candidate ms threshold s a)"
proof -
  let ?xs = "map (\<lambda>m. (m, run_matcher s a m)) ms"
  let ?scores = "map (\<lambda>(m, x, c). x) ?xs"
  have scores: "?scores = map (\<lambda>m. fst (run_matcher s a m)) ms" by (auto simp: split_beta)
  have valid: "\<forall>x \<in> set ?scores. valid_score x"
    unfolding scores using run_matcher_valid assms by auto
  have names: "map (\<lambda>(m, x, c). mt_name m) ?xs = map mt_name ms" by (auto simp: split_beta)
  have "valid_result ms \<lparr>mr_asin = az_asin a, mr_title = az_title a, mr_confidence = round_float 4 (calculate_confidence ?scores),
      mr_explanation = generate_explanation ?scores (fields_in MATCHED ?xs) (fields_in REJECTED ?xs) (fields_in UNAVAILABLE ?xs),
      mr_match = (threshold \<le> calculate_confidence ?scores)\<rparr>"
    using round_float_unit [of "calculate_confidence ?scores" 4] calculate_confidence_unit [OF valid] valid
      fields_partition [of ?xs, unfolded names]
    by (simp add: valid_result_def generate_explanation_def list_all_iff)
  then show ?thesis unfolding evaluate_candidate_def Let_def .
qed

text \<open>C24: Every response of the engine is well formed: no more results than asked for, best first, each
  a candidate's evaluation at the least confidence or above, with all numbers within zero and one and
  every matcher in one list of the explanation; and a candidate left out is no better than any result.
\<close>

theorem match_response_sound:
  assumes "r = match_products (default_matchers half_root) threshold elapsed q"
    and "eval = evaluate_candidate (default_matchers half_root) threshold (mq_supplier q)"
  shows "length (rs_results r) \<le> mq_max q \<and> rs_total r = length (mq_candidates q)
    \<and> sorted_wrt (\<lambda>x y. mr_confidence y \<le> mr_confidence x) (rs_results r)
    \<and> (\<forall>x \<in> set (rs_results r). valid_result (default_matchers half_root) x \<and> mq_min q \<le> mr_confidence x
        \<and> x \<in> eval ` set (mq_candidates q))
    \<and> (\<forall>a \<in> set (mq_candidates q). eval a \<in> set (rs_results r) \<or> mr_confidence (eval a) < mq_min q
        \<or> length (rs_results r) = mq_max q \<and> (\<forall>x \<in> set (rs_results r). mr_confidence (eval a) \<le> mr_confidence x))"
proof -
  let ?kept = "filter (\<lambda>r. mq_min q \<le> mr_confidence r) (map eval (mq_candidates q))"
  define sorted where "sorted = sort_desc mr_confidence ?kept"
  have r: "rs_results r = take (mq_max q) sorted" "rs_total r = length (mq_candidates q)"
    unfolding assms match_products_def sorted_def by simp_all
  have order: "sorted_wrt (\<lambda>x y. mr_confidence y \<le> mr_confidence x) sorted"
    unfolding sorted_def by (rule sort_desc_sorted)
  have members: "set sorted = {x \<in> eval ` set (mq_candidates q). mq_min q \<le> mr_confidence x}" by (auto simp: sorted_def)
  have sound: "valid_result (default_matchers half_root) (eval a)" for a
    unfolding assms(2) using default_matchers_sound by (intro evaluate_candidate_sound) blast
  have left: "length (take (mq_max q) sorted) = mq_max q \<and> (\<forall>x \<in> set (take (mq_max q) sorted). mr_confidence y \<le> mr_confidence x)"
    if "y \<in> set sorted" "y \<notin> set (take (mq_max q) sorted)" for y
  proof -
    have y: "y \<in> set (drop (mq_max q) sorted)"
      using that by (metis Un_iff append_take_drop_id set_append)
    then have "mq_max q < length sorted" by (metis drop_all empty_iff linorder_not_less list.set(1))
    moreover have "sorted_wrt (\<lambda>x y. mr_confidence y \<le> mr_confidence x) (take (mq_max q) sorted @ drop (mq_max q) sorted)"
      using order by simp
    ultimately show ?thesis using y unfolding sorted_wrt_append by simp
  qed
  have inside: "valid_result (default_matchers half_root) x \<and> mq_min q \<le> mr_confidence x \<and> x \<in> eval ` set (mq_candidates q)"
    if "x \<in> set (take (mq_max q) sorted)" for x
    using in_set_takeD [OF that] sound unfolding members by blast
  have outside: "eval a \<in> set (take (mq_max q) sorted) \<or> mr_confidence (eval a) < mq_min q
      \<or> length (take (mq_max q) sorted) = mq_max q \<and> (\<forall>x \<in> set (take (mq_max q) sorted). mr_confidence (eval a) \<le> mr_confidence x)"
    if a: "a \<in> set (mq_candidates q)" for a
  proof (cases "mr_confidence (eval a) < mq_min q")
    case False
    then have "eval a \<in> set sorted" using a unfolding members by simp
    then show ?thesis using left by blast
  qed simp
  show ?thesis
    unfolding r
  proof (intro conjI ballI)
    show "length (take (mq_max q) sorted) \<le> mq_max q" by simp
    show "sorted_wrt (\<lambda>x y. mr_confidence y \<le> mr_confidence x) (take (mq_max q) sorted)" by (rule sorted_wrt_take [OF order])
  qed (use inside outside in \<open>blast+\<close>)
qed

section \<open>Which products match\<close>

lemma fl_near: "0 \<le> x \<Longrightarrow> x \<le> 4 \<Longrightarrow> x - 1 / 1000000 \<le> fl x \<and> fl x \<le> x + 1 / 1000000"
  using abs_le_D1 [OF fl_error [of x]] abs_le_D2 [OF fl_error [of x]] by (simp add: field_simps)

lemma score_near:
  assumes "0 \<le> x" and "x \<le> 1"
  shows "x - 1 / 1000 \<le> round_float 4 (max 0 (min 1 (fl x))) \<and> round_float 4 (max 0 (min 1 (fl x))) \<le> x + 1 / 1000"
proof -
  have u: "0 \<le> fl x" "fl x \<le> 1" using flr.r_unit [OF assms] by simp_all
  then have "\<bar>round_float 4 (fl x) - fl x\<bar> \<le> 1 / 10000" by (intro round_float_close) simp
  then show ?thesis using abs_le_D1 abs_le_D2 fl_near [of x] assms u by fastforce
qed

text \<open>The scores without data, and those that count\<close>

lemma left_out:
  "\<not> counts_in (make_score n w 0 False [Lit ''No supplier barcode data available''])"
  "\<not> counts_in (make_score n w 0 False [Lit ''No specification data available for comparison''])"
  "\<not> counts_in (make_score n w 0 False [Lit ''No Amazon embedding available''])"
  "\<not> counts_in (make_score n w 0 False [Lit ''Image data not available for comparison''])"
proof -
  have "list_ex (\<lambda>w. contained w (lower ''No supplier barcode data available'')) unavailable_indicators"
    "list_ex (\<lambda>w. contained w (lower ''No specification data available for comparison'')) unavailable_indicators"
    "list_ex (\<lambda>w. contained w (lower ''No Amazon embedding available'')) unavailable_indicators"
    "list_ex (\<lambda>w. contained w (lower ''Image data not available for comparison'')) unavailable_indicators"
    by code_simp+
  then show "\<not> counts_in (make_score n w 0 False [Lit ''No supplier barcode data available''])"
    "\<not> counts_in (make_score n w 0 False [Lit ''No specification data available for comparison''])"
    "\<not> counts_in (make_score n w 0 False [Lit ''No Amazon embedding available''])"
    "\<not> counts_in (make_score n w 0 False [Lit ''Image data not available for comparison''])"
    by (simp_all add: counts_in_def make_score_def mentions_def)
qed

lemma counted: "0 < sc_confidence s \<Longrightarrow> counts_in s"
  by (simp add: counts_in_def)

lemma counted_zero:
  "counts_in (make_score n w 0 False [Lit ''Brand mismatch and low title similarity ('', Fix 2 sim, Lit '')''])"
  "counts_in (make_score n w 0 False [Lit ''Title similarity too low: '', Fix 2 sim])"
proof -
  have "\<not> list_ex (\<lambda>w. contained w (lower ''Brand mismatch and low title similarity ('') \<or> contained w (lower '')'')) unavailable_indicators"
    "\<not> list_ex (\<lambda>w. contained w (lower ''Title similarity too low: '')) unavailable_indicators"
    by code_simp+
  then show "counts_in (make_score n w 0 False [Lit ''Brand mismatch and low title similarity ('', Fix 2 sim, Lit '')''])"
    "counts_in (make_score n w 0 False [Lit ''Title similarity too low: '', Fix 2 sim])"
    by (simp_all add: counts_in_def make_score_def mentions_def)
qed

lemma evaluate_default:
  "mr_match (evaluate_candidate (default_matchers half_root) threshold s a) \<longleftrightarrow> threshold \<le> calculate_confidence
     [barcode_score s a, brand_title_score s a, spec_score s a, embedding_score half_root s a, title_score s a, image_score s a]"
  by (simp add: evaluate_candidate_def default_matchers_def matcher_of_def run_matcher_def Let_def)

text \<open>No specification, embedding or image that both sides have\<close>

definition texts_only :: "supplier_product \<Rightarrow> amazon_product \<Rightarrow> bool" where
  "texts_only s a \<longleftrightarrow> \<not> (given_text (sp_model s) \<and> given_text (az_model a)) \<and> \<not> (given_text (sp_weight s) \<and> given_text (az_weight a))
     \<and> \<not> (given_text (sp_dimensions s) \<and> given_text (az_dimensions a)) \<and> az_embedding a = None
     \<and> (sp_image s = None \<or> az_image a = None)"

lemma texts_only_scores:
  assumes "texts_only s a"
  shows "\<not> counts_in (spec_score s a)" "\<not> counts_in (embedding_score half_root s a)" "\<not> counts_in (image_score s a)"
  using assms left_out
  by (auto simp: texts_only_def spec_score_def spec_check_def embedding_score_def image_score_def Let_def split: option.split list.split)

lemma same_title_similarity:
  assumes "tokenize t \<noteq> []"
  shows "599 / 1000 \<le> title_similarity t t"
proof -
  have t: "t \<noteq> []"
  proof
    assume "t = []"
    then have "tokenize t = []" by (simp add: tokenize_def lower_def token_runs.simps)
    then show False using assms by simp
  qed
  have "filter (\<lambda>x. x \<in> set (tokenize t)) (remdups (tokenize t)) = remdups (tokenize t)" by (simp add: filter_id_conv)
  moreover have "length (remdups (tokenize t @ tokenize t)) = length (remdups (tokenize t))"
    by (simp only: length_remdups_card_conv) simp
  moreover have "rat_of_nat (length (remdups (tokenize t))) \<noteq> 0" using assms by simp
  ultimately have "token_jaccard (tokenize t) (tokenize t) = 1"
    using assms unfolding token_jaccard_def Let_def by simp
  moreover define r where "r = fmul (fl (2 / 5)) (similarity_ratio (lower t) (lower t))"
  ultimately have sim: "title_similarity t t = round_float 4 (fl (fl (3 / 5) + r))"
    using t assms by (simp add: title_similarity_def flr.r_idem)
  have two: "399 / 1000 \<le> fl (2 / 5)" "fl (2 / 5) \<le> 401 / 1000" using fl_near [of "2 / 5"] by simp_all
  define x where "x = fl (2 / 5) * similarity_ratio (lower t) (lower t)"
  have x: "0 \<le> x" "x \<le> 401 / 1000"
    using similarity_ratio_unit [of "lower t" "lower t"] two
      mult_mono [of "fl (2 / 5)" "401 / 1000" "similarity_ratio (lower t) (lower t)" 1] by (simp_all add: x_def)
  then have r: "0 \<le> r" "r \<le> 402 / 1000" using fl_near [of x] flr.r_nonneg [of x] by (simp_all add: r_def flip: x_def)
  have three: "5999 / 10000 \<le> fl (3 / 5)" "fl (3 / 5) \<le> 6001 / 10000" using fl_near [of "3 / 5"] by simp_all
  have y: "5998 / 10000 \<le> fl (fl (3 / 5) + r)" "fl (fl (3 / 5) + r) \<le> 101 / 100"
    using fl_near [of "fl (3 / 5) + r"] three r by simp_all
  then have "\<bar>round_float 4 (fl (fl (3 / 5) + r)) - fl (fl (3 / 5) + r)\<bar> \<le> 1 / 10000"
    by (intro round_float_close) simp
  then show ?thesis using y(1) abs_le_D2 unfolding sim by fastforce
qed

text \<open>The scores of a listing with the supplier's title and brand\<close>

lemma same_brand_title_scores:
  assumes "az_title a = sp_title s" and "sp_brand s = Some b" and "az_brand a = Some b" and "b \<noteq> []"
  shows "tokenize (sp_title s) \<noteq> [] \<Longrightarrow> 699 / 1000 \<le> sc_confidence (brand_title_score s a)
      \<and> sc_confidence (brand_title_score s a) \<le> 1 \<and> counts_in (brand_title_score s a)
      \<and> 299 / 1000 \<le> sc_confidence (title_score s a) \<and> sc_confidence (title_score s a) \<le> 1 \<and> counts_in (title_score s a)"
    and "tokenize (sp_title s) = [] \<Longrightarrow> 399 / 1000 \<le> sc_confidence (brand_title_score s a)
      \<and> sc_confidence (brand_title_score s a) \<le> 401 / 1000 \<and> counts_in (brand_title_score s a)
      \<and> sc_confidence (title_score s a) = 0 \<and> counts_in (title_score s a)"
    and "sc_weight (brand_title_score s a) = fl (fl (7 / 10))" "sc_weight (title_score s a) = 1 / 2"
proof -
  have brand: "brands_match b b" using assms(4) by (simp add: brands_match_def)
  show "sc_weight (brand_title_score s a) = fl (fl (7 / 10))" "sc_weight (title_score s a) = 1 / 2"
    by (simp_all add: brand_title_score_def title_score_def make_score_def Let_def flr.r_idem)
  have conf: "sc_confidence (make_score n w c m d) = round_float 4 (max 0 (min 1 c))" for n w c m d
    by (simp add: make_score_def)
  {
    assume "tokenize (sp_title s) \<noteq> []"
    then have sim: "599 / 1000 \<le> title_similarity (sp_title s) (az_title a)"
      using same_title_similarity assms(1) by simp
    have x: "699 / 1000 \<le> sc_confidence (brand_title_score s a)" "sc_confidence (brand_title_score s a) \<le> 1"
      using sim brand assms(2-4) score_near [of "17 / 20"] score_near [of "7 / 10"]
      by (auto simp: brand_title_score_def text_or_empty_def given_text_def Let_def conf)
    have "749 / 1000 \<le> round_float 4 (max 0 (min 1 (3 / 4)))" "round_float 4 (max 0 (min 1 (3 / 4))) \<le> 1"
      using abs_le_D1 [OF round_float_close [of "3 / 4"]] abs_le_D2 [OF round_float_close [of "3 / 4"]] by simp_all
    then have y: "299 / 1000 \<le> sc_confidence (title_score s a)" "sc_confidence (title_score s a) \<le> 1"
      using sim score_near [of "11 / 20"] score_near [of "3 / 10"] by (auto simp: title_score_def Let_def conf)
    from x y show "699 / 1000 \<le> sc_confidence (brand_title_score s a)
      \<and> sc_confidence (brand_title_score s a) \<le> 1 \<and> counts_in (brand_title_score s a)
      \<and> 299 / 1000 \<le> sc_confidence (title_score s a) \<and> sc_confidence (title_score s a) \<le> 1 \<and> counts_in (title_score s a)"
      by (simp add: counted)
  next
    assume "tokenize (sp_title s) = []"
    then have sim: "title_similarity (sp_title s) (az_title a) = 0" using assms(1) by (simp add: title_similarity_def)
    have bounds: "0 < fl (4 / 5)" "0 < fl (9 / 10)" "0 < fl (7 / 10)"
      using fl_near [of "4 / 5"] fl_near [of "9 / 10"] fl_near [of "7 / 10"] by simp_all
    have "399 / 1000 \<le> sc_confidence (brand_title_score s a)" "sc_confidence (brand_title_score s a) \<le> 401 / 1000"
      using brand assms(2-4) bounds score_near [of "2 / 5"]
      by (auto simp: brand_title_score_def text_or_empty_def given_text_def Let_def conf sim)
    moreover have "title_score s a = make_score ''title_fuzzy'' (1 / 2) 0 False [Lit ''Title similarity too low: '', Fix 2 0]"
      using bounds by (simp add: title_score_def Let_def sim)
    moreover from this have "sc_confidence (title_score s a) = 0" by (simp add: conf)
    ultimately show "399 / 1000 \<le> sc_confidence (brand_title_score s a)
      \<and> sc_confidence (brand_title_score s a) \<le> 401 / 1000 \<and> counts_in (brand_title_score s a)
      \<and> sc_confidence (title_score s a) = 0 \<and> counts_in (title_score s a)"
      using counted_zero(2) by (simp add: counted)
  }
qed

text \<open>C32: A listing with the supplier's own title and brand, when the supplier gives no barcode and
  nothing else is known of the two, matches exactly when the title has a token: a run of at least
  two letters a to z or digits that is no common word. Titles without one (of signs only, or in
  another script) are not similar even to themselves, and the identical product does not match.
  The threshold lies between a quarter and one half, the default of the engine.
\<close>

theorem identical_product_matches:
  assumes "az_title a = sp_title s" and "sp_brand s = Some b" and "az_brand a = Some b" and "b \<noteq> []"
    and "\<not> given_text (sp_upc s)" and "\<not> given_text (sp_ean s)" and "\<not> given_text (sp_gtin s)"
    and "texts_only s a" and "1 / 4 \<le> threshold" and "threshold \<le> 1 / 2"
  shows "mr_match (evaluate_candidate (default_matchers half_root) threshold s a) \<longleftrightarrow> tokenize (sp_title s) \<noteq> []"
proof -
  note sc = same_brand_title_scores [OF assms(1-4)]
  have bar: "\<not> counts_in (barcode_score s a)"
    using assms(5-7) left_out(1) by (simp add: barcode_score_def same_barcode_def Let_def)
  define x where "x = sc_confidence (brand_title_score s a)"
  define y where "y = sc_confidence (title_score s a)"
  define w where "w = fl (7 / 10)"
  have w: "699 / 1000 \<le> w" "w \<le> 701 / 1000" "fl w = w" using fl_near [of "7 / 10"] by (simp_all add: w_def flr.r_idem)
  have in_mean: "counts_in (brand_title_score s a)" "counts_in (title_score s a)"
    using sc(1,2) by (cases "tokenize (sp_title s) = []"; simp)+
  have xy: "0 \<le> x" "x \<le> 1" "0 \<le> y" "y \<le> 1"
    unfolding x_def y_def using sc(1,2) by (cases "tokenize (sp_title s) = []"; simp)+
  have conf: "calculate_confidence [barcode_score s a, brand_title_score s a, spec_score s a, embedding_score half_root s a,
      title_score s a, image_score s a] = fdiv (fl (fl (x * w) + fl (y * (1 / 2)))) (fl (w + 1 / 2))"
    using bar in_mean texts_only_scores [OF assms(8)] w(3) fl_near [of "w + 1 / 2"] w(1,2)
    by (simp add: calculate_confidence_def sc(3,4) flr.r_idem flip: x_def y_def w_def)
  define n where "n = fl (fl (x * w) + fl (y * (1 / 2)))"
  define d where "d = fl (w + 1 / 2)"
  have d: "1198 / 1000 \<le> d" "d \<le> 1202 / 1000" using fl_near [of "w + 1 / 2"] w by (simp_all add: d_def)
  have xw: "0 \<le> x * w" "x * w \<le> 1" using mult_mono [of x 1 w 1] xy w by simp_all
  have n: "x * w + y / 2 - 1 / 1000 \<le> n" "n \<le> x * w + y / 2 + 1 / 1000"
    using fl_near [of "x * w"] fl_near [of "y * (1 / 2)"] fl_near [of "fl (x * w) + fl (y * (1 / 2))"] xw xy
      flr.r_nonneg [of "x * w"] flr.r_nonneg [of "y * (1 / 2)"] by (simp_all add: n_def)
  show ?thesis
  proof (cases "tokenize (sp_title s) = []")
    case True
    from sc(2) [OF this] have x: "x \<le> 401 / 1000" "y = 0" by (simp_all add: x_def y_def)
    have "x * w \<le> 2812 / 10000" using mult_mono [of x "401 / 1000" w "701 / 1000"] x(1) xy w by simp
    then have "n \<le> 2822 / 10000" using n x(2) by simp
    then have q: "n / d \<le> 236 / 1000" using d by (simp add: field_simps)
    have "0 \<le> n" unfolding n_def using flr.r_nonneg xw xy by simp
    then have "0 \<le> n / d" using d by simp
    then have "fl (n / d) < 1 / 4" using fl_near [of "n / d"] q by simp
    then show ?thesis using True assms(9) unfolding evaluate_default conf [folded n_def d_def] by simp
  next
    case False
    from sc(1) [OF this] have x: "699 / 1000 \<le> x" "299 / 1000 \<le> y" by (simp_all add: x_def y_def)
    have "488 / 1000 \<le> x * w" using mult_mono [of "699 / 1000" x "699 / 1000" w] x w xy by simp
    then have "636 / 1000 \<le> n" using n x(2) by simp
    then have "1 / 2 \<le> fl (n / d)" using d fl_rep_half [of 1] by (intro flr.r_ge) (simp_all add: field_simps)
    then show ?thesis using False assms(10) unfolding evaluate_default conf [folded n_def d_def] by simp
  qed
qed

text \<open>C34: An exact barcode (here a GTIN) does not make a match by itself: with a brand that differs, a title that is not
  similar and nothing else known of the two, the confidence stays below one half.
\<close>

theorem exact_barcode_may_not_match:
  assumes "same_barcode (sp_gtin s) (az_gtin a)" and "title_similarity (sp_title s) (az_title a) < 1 / 2"
    and "sp_brand s = Some b" and "b \<noteq> []" and "\<not> brands_match b (text_or_empty (az_brand a))"
    and "texts_only s a" and "1 / 2 \<le> threshold"
  shows "\<not> mr_match (evaluate_candidate (default_matchers half_root) threshold s a)"
proof -
  obtain d where bar: "barcode_score s a = make_score ''barcode'' (fl (19 / 20)) (fl (49 / 50)) True d"
    using assms(1) by (simp add: barcode_score_def Let_def)
  have bounds: "1 / 2 < fl (4 / 5)" "1 / 2 < fl (9 / 10)" "1 / 2 < fl (7 / 10)"
    using fl_near [of "4 / 5"] fl_near [of "9 / 10"] fl_near [of "7 / 10"] by simp_all
  have bt: "brand_title_score s a = make_score ''brand_title'' (fl (7 / 10)) 0 False
      [Lit ''Brand mismatch and low title similarity ('', Fix 2 (title_similarity (sp_title s) (az_title a)), Lit '')'']"
    using assms(2-5) bounds by (simp add: brand_title_score_def given_text_def Let_def)
  have ti: "title_score s a = make_score ''title_fuzzy'' (1 / 2) 0 False
      [Lit ''Title similarity too low: '', Fix 2 (title_similarity (sp_title s) (az_title a))]"
    using assms(2) bounds by (simp add: title_score_def Let_def)
  define x where "x = sc_confidence (barcode_score s a)"
  have x: "979 / 1000 \<le> x" "x \<le> 981 / 1000" using score_near [of "49 / 50"] by (simp_all add: x_def bar make_score_def)
  define v where "v = fl (19 / 20)"
  define w where "w = fl (7 / 10)"
  have v: "949 / 1000 \<le> v" "v \<le> 951 / 1000" "fl v = v" using fl_near [of "19 / 20"] by (simp_all add: v_def flr.r_idem)
  have w: "699 / 1000 \<le> w" "w \<le> 701 / 1000" using fl_near [of "7 / 10"] by (simp_all add: w_def)
  have in_mean: "counts_in (barcode_score s a)" "counts_in (brand_title_score s a)" "counts_in (title_score s a)"
    using x counted_zero unfolding bt ti by (auto intro!: counted simp flip: x_def)
  have weights: "sc_weight (barcode_score s a) = v" "sc_weight (brand_title_score s a) = w" "sc_weight (title_score s a) = 1 / 2"
    "sc_confidence (brand_title_score s a) = 0" "sc_confidence (title_score s a) = 0"
    by (simp_all add: bar bt ti make_score_def v_def w_def)
  have below: "2147 / 1000 \<le> fl (fl (v + w) + 1 / 2)"
    using fl_near [of "v + w"] fl_near [of "fl (v + w) + 1 / 2"] v w by simp
  have conf: "calculate_confidence [barcode_score s a, brand_title_score s a, spec_score s a, embedding_score half_root s a,
      title_score s a, image_score s a] = fdiv (fl (x * v)) (fl (fl (v + w) + 1 / 2))"
    using in_mean texts_only_scores [OF assms(6)] v(3) below
    by (simp add: calculate_confidence_def weights flr.r_idem flip: x_def)
  have "0 \<le> x * v" "x * v \<le> 934 / 1000" using mult_mono [of x "981 / 1000" v "951 / 1000"] x v by simp_all
  then have top: "0 \<le> fl (x * v)" "fl (x * v) \<le> 935 / 1000" using fl_near [of "x * v"] flr.r_nonneg by simp_all
  define z where "z = fl (x * v) / fl (fl (v + w) + 1 / 2)"
  have "z \<le> 44 / 100" "0 \<le> z" unfolding z_def using top below by (simp_all add: field_simps)
  then have "fl z < 1 / 2" using fl_near [of z] by simp
  then show ?thesis using assms(7) unfolding evaluate_default conf z_def by simp
qed

section \<open>Instances\<close>

definition kettle_offer :: supplier_product where
  "kettle_offer =
     \<lparr>sp_code = ''acme'', sp_sku = ''k1'', sp_title = ''Steel kettle'', sp_upc = None, sp_ean = None, sp_gtin = None,
      sp_brand = Some ''Acme'', sp_description = None, sp_features = [], sp_image = None, sp_weight = None,
      sp_dimensions = None, sp_model = None\<rparr>"

definition kettle_listing :: amazon_product where
  "kettle_listing =
     \<lparr>az_asin = ''B00KETTLE'', az_title = ''Steel kettle'', az_upc = None, az_ean = None, az_gtin = None,
      az_brand = Some ''Acme'', az_image = None, az_weight = None, az_dimensions = None, az_model = None,
      az_embedding = None\<rparr>"

definition kettle_request :: match_request where
  "kettle_request = \<lparr>mq_supplier = kettle_offer, mq_candidates = [kettle_listing], mq_min = 0, mq_max = 5\<rparr>"

lemma kettle_request_simps [simp]:
  "mq_supplier kettle_request = kettle_offer" "mq_candidates kettle_request = [kettle_listing]"
  "mq_min kettle_request = 0" "mq_max kettle_request = 5"
  by (simp_all add: kettle_request_def)

theorem match_response_sound_witness:
  "let r = match_products (default_matchers (\<lambda>x. x)) (1 / 2) 0 kettle_request;
       eval = evaluate_candidate (default_matchers (\<lambda>x. x)) (1 / 2) kettle_offer in
   length (rs_results r) \<le> 5 \<and> rs_total r = 1 \<and> (\<forall>x \<in> set (rs_results r). valid_result (default_matchers (\<lambda>x. x)) x)
   \<and> (eval kettle_listing \<in> set (rs_results r) \<or> mr_confidence (eval kettle_listing) < 0
        \<or> length (rs_results r) = 5 \<and> (\<forall>x \<in> set (rs_results r). mr_confidence (eval kettle_listing) \<le> mr_confidence x))"
  using match_response_sound [OF refl refl, of "\<lambda>x. x" "1 / 2" 0 kettle_request]
  unfolding Let_def by auto

lemma kettle_tokens: "tokenize ''Steel kettle'' \<noteq> []"
  by code_simp

lemma sign_tokens: "tokenize ''- + -'' = []"
  by code_simp

theorem identical_product_matches_witness:
  "mr_match (evaluate_candidate (default_matchers (\<lambda>x. x)) (1 / 2) kettle_offer kettle_listing)
    \<and> \<not> mr_match (evaluate_candidate (default_matchers (\<lambda>x. x)) (1 / 2)
          (kettle_offer\<lparr>sp_title := ''- + -''\<rparr>) (kettle_listing\<lparr>az_title := ''- + -''\<rparr>))"
  using identical_product_matches [of kettle_listing kettle_offer "''Acme''" "1 / 2" "\<lambda>x. x"]
    identical_product_matches [of "kettle_listing\<lparr>az_title := ''- + -''\<rparr>" "kettle_offer\<lparr>sp_title := ''- + -''\<rparr>" "''Acme''" "1 / 2" "\<lambda>x. x"]
  by (simp add: kettle_offer_def kettle_listing_def kettle_tokens sign_tokens given_text_def texts_only_def)

text \<open>The same barcode, a listing without a brand and with a title of another kind\<close>

theorem exact_barcode_may_not_match_witness:
  "\<not> mr_match (evaluate_candidate (default_matchers (\<lambda>x. x)) (1 / 2) (kettle_offer\<lparr>sp_gtin := Some ''00012345678905''\<rparr>)
      (kettle_listing\<lparr>az_gtin := Some ''12345678905'', az_brand := None, az_title := ''A''\<rparr>))"
proof (rule exact_barcode_may_not_match [where b = "''Acme''"])
  have "tokenize ''A'' = []" by code_simp
  then show "title_similarity (sp_title (kettle_offer\<lparr>sp_gtin := Some ''00012345678905''\<rparr>))
      (az_title (kettle_listing\<lparr>az_gtin := Some ''12345678905'', az_brand := None, az_title := ''A''\<rparr>)) < 1 / 2"
    by (simp add: title_similarity_def)
  have "normalize_barcode ''00012345678905'' = normalize_barcode ''12345678905''" by code_simp
  then show "same_barcode (sp_gtin (kettle_offer\<lparr>sp_gtin := Some ''00012345678905''\<rparr>))
      (az_gtin (kettle_listing\<lparr>az_gtin := Some ''12345678905'', az_brand := None, az_title := ''A''\<rparr>))"
    by (simp add: same_barcode_def given_text_def)
qed (simp_all add: kettle_offer_def kettle_listing_def texts_only_def given_text_def text_or_empty_def brands_match_def)

end
