(* ===== verification/Spec2Isabelle.thy ===== *)
theory Spec2Isabelle
  imports ProfitExact SourcingProps CommerceProps EventProps AgentQueueProps
    ShortestPath GraphStoreProps SupervisorProps RetailerProps RetailerServiceProps
    ExperimentProps FinanceProps BrowserProps
    TranslationProps ValidatorProps LanguageProps LearningCycleProps MatchingProps
begin

text \<open>
  A backend for sourcing products to resell (FastAPI services over PostgreSQL and Redis, sources
  under \<open>src/app\<close>), modelled by its parts and verified.

  \<^bold>\<open>The program and its model.\<close> The services share a database session per request, publish events
  on a bus, and call one another: the sourcing engine calls the profit engine and asks the
  analytics service for facts; the agent queues tasks that workers serve; the supervisor runs
  groups of agents; retailer look-ups spend a monthly budget; experiments compare variants; finance plans cash; a
  browser fetches pages; the texts of the interface are looked up in the user's language;
  predictions are compared with outcomes; suppliers' products are matched to listings.
  Every theory below models the named files, an operation per function and a record per class.

  \<^item> \<open>Prelude\<close>, \<open>Texts\<close>, \<open>Rounding\<close>, \<open>Numbers\<close>, \<open>Floats\<close>, \<open>StateMachine\<close>, \<open>QueueSpec\<close>: what the services
    share. Errors are values of \<open>py_error + 'a\<close>; stateful code is a function from a state to a
    result and a state. \<open>decimal.Decimal\<close> has 28 digits, rounded half to even, and \<open>float\<close> is
    rounded to 53 bits, both as exact rationals rounded after every operation; overflow and
    subnormal numbers are not modelled. The locales state the interfaces: rounding to a grid,
    transition tables that descend a rank, stable priority queues.
  \<^item> \<open>ProfitModel\<close>, \<open>Profit\<close>, \<open>ProfitExact\<close>: \<open>profit/config.py\<close>, \<open>models.py\<close>, \<open>engine.py\<close>. The books
    balance to the cent on inputs in whole cents; the break-even search is bounded by 128
    bisection rounds, as in the code, which its theorem shows to be enough.
  \<^item> \<open>SourcingModel\<close>, \<open>SourcingRules\<close>, \<open>SourcingEngine\<close>, \<open>SourcingProps\<close>: \<open>sourcing/models.py\<close>,
    \<open>rules.py\<close>, \<open>engine.py\<close>. Scores stay in their ranges, every rule keeps one contract, the
    ranking is a sorted permutation. The analytics answers are a parameter (\<open>product_facts\<close>).
  \<^item> \<open>Commerce\<close>, \<open>CommerceServices\<close>, \<open>CommerceProps\<close>: \<open>domain/models\<close>, \<open>domain/services\<close>,
    \<open>infrastructure/repositories\<close> for orders and products. The SQLAlchemy session is a record of
    the operations used, with its documented behaviour as the hypothesis \<open>lawful_store\<close>, which a
    database of maps satisfies (\<open>mem_store\<close>). Page counts, divided in floats, are exact for up to
    \<open>2 ^ 40\<close> rows.
  \<^item> \<open>Events\<close>, \<open>EventProps\<close>: \<open>events/models.py\<close>, \<open>bus.py\<close>, \<open>dlq.py\<close>, \<open>broker.py\<close>; handlers and random
    numbers are parameters (\<open>env\<close>); a handler may do anything to the bus, but ends by returning or
    with an Exception and does not change the event. A delivery makes at most \<open>attempts_max\<close>
    attempts, and a publication gives every subscriber of its snapshot one turn.
  \<^item> \<open>AgentQueue\<close>, \<open>AgentQueueProps\<close>: \<open>agent/queue.py\<close> over Redis and in memory. Redis is a record of
    commands with documented effects as hypotheses; both implementations are compared with the
    abstract queue of \<open>QueueSpec\<close>. In the histories of \<open>queue_run\<close> ids may be enqueued again and
    keys expire; an operation is one step, other clients do not come in between its commands.
  \<^item> \<open>Graph\<close>, \<open>GraphProps\<close>, \<open>ShortestPath\<close>, \<open>Components\<close>, \<open>GraphStore\<close>, \<open>GraphStoreProps\<close>:
    \<open>knowledge_graph/engine.py\<close>, \<open>store.py\<close>, \<open>repository.py\<close>, \<open>manager.py\<close>. Loops that may not end are
    partial functions, so that not returning is \<open>None\<close>; the in-memory store refines an abstract
    graph.
  \<^item> \<open>Supervisor\<close>, \<open>SupervisorProps\<close>: \<open>multiagent/supervisor.py\<close> and its base; agents are finite
    sequences of atomic pieces, interleaved in every way, that end by returning or with an
    Exception.
  \<^item> \<open>Retailer\<close>, \<open>RetailerService\<close> and their properties: \<open>integrations/retailers\<close>: the budget, the cache,
    the client with its attempts, the monitored products. The network is the outcome of each
    attempt.
  \<^item> \<open>Sha256\<close>, \<open>ExperimentStats\<close>, \<open>Experiments\<close>, \<open>ExperimentManager\<close>, \<open>ExperimentReports\<close>,
    \<open>ExperimentInv\<close>, \<open>ExperimentSteps\<close>, \<open>ExperimentProps\<close>: \<open>experiments/\<close>. Python's \<open>hashlib\<close> is written
    out; the C mathematics library is the record \<open>libm\<close>. UUIDs are an injective function of how
    many were drawn; the order of rows with equal sort keys is a parameter (\<open>lawful_transaction\<close>).
    The continued fraction of the beta function is cut after 200 rounds, as in the code.
  \<^item> \<open>FinanceEngine\<close>, \<open>FinanceManager\<close>, \<open>FinanceProps\<close>: \<open>finance/\<close>. The square root, SQL's sums and
    the order of rows are parameters; \<open>exact_sums\<close> states that whole amounts up to \<open>2 ^ 50\<close> add
    without rounding. The allocation is the greedy one, and what it recommends is affordable.
  \<^item> \<open>Browser\<close>, \<open>Crawler\<close>, \<open>BrowserProps\<close>: \<open>browser/\<close>. The record \<open>driver\<close> stands for Playwright, the
    clock, random numbers and the disk, with \<open>lawful_pages\<close> and \<open>async_counts\<close> as hypotheses. A
    fetch is one task; the pool of pages is a step relation in which tasks interleave.
  \<^item> \<open>Translations\<close>, \<open>LocaleText\<close>, \<open>TranslationCheck\<close>, \<open>LanguageSwitch\<close>, \<open>TranslationProps\<close>,
    \<open>ValidatorProps\<close>, \<open>LanguageProps\<close>: \<open>i18n/\<close>. The translations directory is a value whose files carry
    what they parse to. The validator accepts exactly the complete translations, and then no
    look-up falls back; the table of preferences, with at most one row per user as its invariant,
    implements a map from users to languages that says what happens to the owner of a shared
    device; formatted numbers read back.
  \<^item> \<open>LearningEngine\<close>, \<open>LearningManager\<close>, \<open>LearningCycle\<close>, \<open>LearningProps\<close>, \<open>LearningCycleProps\<close>:
    \<open>learning/\<close>, with \<open>fmean\<close> and \<open>pstdev\<close> of the standard library written out; the parsing of
    \<open>float\<close> and the power \<open>n ** 0.5\<close> are parameters, features have text names. Runs are numbered
    without gaps and never change, a cycle reproduces the one before, a tuning is applied only
    when it improves the rule, and the severity threshold is shown never to decide.
  \<^item> \<open>Difflib\<close>, \<open>Matching\<close>, \<open>MatchingProps\<close>: \<open>matching/\<close> over \<open>difflib.SequenceMatcher\<close>, whose
    recursion ends because a block found is never empty. Matchers are records with a scoring
    function, as in the code; the engine's responses are shown to be well formed for the default
    ones, and an identical product to match exactly when its title has a token. Embeddings use the power \<open>x ** 0.5\<close>, a parameter.

  \<^bold>\<open>Not modelled.\<close> Language models and their prompts, and what rests on them (assistant, agent
  roles, negotiation); analytics, whose logic is SQL; parsers of documents, images and
  supplier or marketplace payloads, whose inputs are third-party formats; FastAPI routes,
  migrations, seed data and start-up, which are glue. The manifest lists every such part with
  the reason.
\<close>

end
